(* ===== verification/Resman_Prelude.thy ===== *)
theory Resman_Prelude
  imports Complex_Main "HOL-Library.Word" "HOL-Library.AList" "HOL-Library.List_Lexorder"
    "HOL-Library.Char_ord" "HOL-Library.Multiset"
begin

text \<open>
  The ground the components stand on: Go's fixed-width integers as words, Go strings as byte
  lists with the operations of packages \<^verbatim>\<open>strings\<close>, \<^verbatim>\<open>strconv\<close>, \<^verbatim>\<open>unicode/utf8\<close> and
  \<^verbatim>\<open>path/filepath\<close> that the sources call, errors as the left summand of a sum, and the lemmas on
  lists, association lists, words and decimal numerals that several components share.

  Go's \<^verbatim>\<open>int\<close> is HOL's \<open>int\<close> with conversions from \<^verbatim>\<open>uint64\<close> written out as \<open>sint\<close>; a Go map is an
  association list (its list order stands for one of Go's unspecified iteration orders) and is
  read by \<open>map_of\<close>, written by \<open>AList.update\<close> and \<open>AList.delete\<close>.
\<close>

section \<open>Collections of rules\<close>

named_theorems unat_simps \<open>facts that move word arithmetic to natural numbers\<close>
named_theorems go_string \<open>defining facts of the Go string operations\<close>

type_synonym u16 = "16 word"
type_synonym u32 = "32 word"
type_synonym u64 = "64 word"

type_synonym ('e, 'a) res = "'e + 'a"

text \<open>The conversion \<^verbatim>\<open>int(x)\<close> of a \<^verbatim>\<open>uint64\<close>, and \<^verbatim>\<open>uint16(x)\<close>, \<^verbatim>\<open>uint64(x)\<close>.\<close>

definition int_of_u64 :: "u64 \<Rightarrow> int" where
  "int_of_u64 w = sint w"

definition u16_of_u64 :: "u64 \<Rightarrow> u16" where
  "u16_of_u64 w = ucast w"

definition u64_of_u16 :: "u16 \<Rightarrow> u64" where
  "u64_of_u16 w = ucast w"

abbreviation (input) maxUint64 :: nat where
  "maxUint64 \<equiv> 18446744073709551615"

section \<open>Byte strings\<close>

text \<open>A byte of a Go string, as a number.\<close>

definition byte_of :: "char \<Rightarrow> nat" where
  "byte_of c = of_char c"

definition LF :: char where "LF = char_of (10::nat)"
definition CR :: char where "CR = char_of (13::nat)"

definition is_digit :: "char \<Rightarrow> bool" where
  "is_digit c \<longleftrightarrow> 48 \<le> byte_of c \<and> byte_of c \<le> 57"

definition digit_val :: "char \<Rightarrow> nat" where
  "digit_val c = byte_of c - 48"

definition digit_char :: "nat \<Rightarrow> char" where
  "digit_char d = char_of (48 + d)"

text \<open>\<^verbatim>\<open>strings.HasPrefix\<close> and \<^verbatim>\<open>strings.HasSuffix\<close>.\<close>

fun hasPrefix :: "string \<Rightarrow> string \<Rightarrow> bool" where
  "hasPrefix s [] = True"
| "hasPrefix [] (p # ps) = False"
| "hasPrefix (c # s) (p # ps) = (c = p \<and> hasPrefix s ps)"

definition hasSuffix :: "string \<Rightarrow> string \<Rightarrow> bool" where
  "hasSuffix s p = hasPrefix (rev s) (rev p)"

text \<open>\<^verbatim>\<open>strings.Contains\<close> (also \<^verbatim>\<open>bytes.Contains\<close>) of a non-empty pattern.\<close>

fun containsSub :: "string \<Rightarrow> string \<Rightarrow> bool" where
  "containsSub [] p = (p = [])"
| "containsSub (c # s) p = (hasPrefix (c # s) p \<or> containsSub s p)"

text \<open>\<^verbatim>\<open>strings.Split\<close> on a one-byte separator; the result is never empty.\<close>

fun splitOn :: "char \<Rightarrow> string \<Rightarrow> string list" where
  "splitOn sep [] = [[]]"
| "splitOn sep (c # s) =
     (if c = sep then [] # splitOn sep s
      else (case splitOn sep s of [] \<Rightarrow> [[c]] | l # ls \<Rightarrow> (c # l) # ls))"

text \<open>\<^verbatim>\<open>strings.Join\<close> with a one-byte separator.\<close>

fun joinWith :: "char \<Rightarrow> string list \<Rightarrow> string" where
  "joinWith sep [] = []"
| "joinWith sep [l] = l"
| "joinWith sep (l # m # ls) = l @ sep # joinWith sep (m # ls)"

text \<open>\<^verbatim>\<open>strings.Cut\<close> at the first occurrence of a one-byte separator: before, after, found.\<close>

fun cutAt :: "char \<Rightarrow> string \<Rightarrow> string \<times> string \<times> bool" where
  "cutAt sep [] = ([], [], False)"
| "cutAt sep (c # s) =
     (if c = sep then ([], s, True)
      else (case cutAt sep s of (b, a, f) \<Rightarrow> (c # b, a, f)))"

text \<open>\<^verbatim>\<open>strings.ReplaceAll(s, "\r\n", "\n")\<close>.\<close>

fun crlfToLf :: "string \<Rightarrow> string" where
  "crlfToLf [] = []"
| "crlfToLf [c] = [c]"
| "crlfToLf (c # d # s) =
     (if byte_of c = 13 \<and> byte_of d = 10 then d # crlfToLf s else c # crlfToLf (d # s))"

text \<open>
  The UTF-8 encodings of the runes for which \<^verbatim>\<open>unicode.IsSpace\<close> holds: tab, newline, vertical
  tab, form feed, carriage return, space, U+0085, U+00A0, U+1680, U+2000 to U+200A, U+2028,
  U+2029, U+202F, U+205F and U+3000. The first byte of an encoding is never a continuation byte,
  so the first (last) rune of a string is a space exactly when the string starts (ends) with one
  of these byte sequences, valid UTF-8 or not.
\<close>

definition spaceEncodings :: "nat list list" where
  "spaceEncodings =
     [[9], [10], [11], [12], [13], [32], [194, 133], [194, 160], [225, 154, 128],
      [226, 128, 128], [226, 128, 129], [226, 128, 130], [226, 128, 131], [226, 128, 132],
      [226, 128, 133], [226, 128, 134], [226, 128, 135], [226, 128, 136], [226, 128, 137],
      [226, 128, 138], [226, 128, 168], [226, 128, 169], [226, 128, 175], [226, 129, 159],
      [227, 128, 128]]"

definition leadingSpace :: "string \<Rightarrow> bool" where
  "leadingSpace s = list_ex (\<lambda>e. take (length e) (map byte_of s) = e) spaceEncodings"

definition trailingSpace :: "string \<Rightarrow> bool" where
  "trailingSpace s = list_ex (\<lambda>e. take (length e) (map byte_of (rev s)) = rev e) spaceEncodings"

text \<open>
  \<^verbatim>\<open>strings.TrimSpace(s) != s\<close>, the only way most of the sources use the function: something is
  trimmed exactly when the first or the last rune is a space.
\<close>

definition isPadded :: "string \<Rightarrow> bool" where
  "isPadded s \<longleftrightarrow> leadingSpace s \<or> trailingSpace s"

text \<open>\<^verbatim>\<open>strings.TrimSpace\<close> itself.\<close>

definition spaceWidth :: "nat list \<Rightarrow> nat" where
  "spaceWidth bs =
     (case find (\<lambda>e. take (length e) bs = e) spaceEncodings of None \<Rightarrow> 0 | Some e \<Rightarrow> length e)"

definition spaceWidthRev :: "nat list \<Rightarrow> nat" where
  "spaceWidthRev bs =
     (case find (\<lambda>e. take (length e) bs = rev e) spaceEncodings of None \<Rightarrow> 0 | Some e \<Rightarrow> length e)"

function trimLeftSpace :: "string \<Rightarrow> string" where
  "trimLeftSpace s =
     (let w = spaceWidth (map byte_of s) in
      if 0 < w \<and> s \<noteq> [] then trimLeftSpace (drop w s) else s)"
  by pat_completeness auto
termination
  by (relation "measure length") auto

function trimRightSpaceRev :: "string \<Rightarrow> string" where
  "trimRightSpaceRev s =
     (let w = spaceWidthRev (map byte_of s) in
      if 0 < w \<and> s \<noteq> [] then trimRightSpaceRev (drop w s) else s)"
  by pat_completeness auto
termination
  by (relation "measure length") auto

declare trimLeftSpace.simps [simp del] trimRightSpaceRev.simps [simp del]

definition trimSpace :: "string \<Rightarrow> string" where
  "trimSpace s = rev (trimRightSpaceRev (rev (trimLeftSpace s)))"

text \<open>
  A rune for which \<^verbatim>\<open>unicode.IsControl\<close> holds occurs: an ASCII control byte, or the two-byte
  encoding of U+0080 to U+009F. Neither such a byte nor 0xC2 is ever a continuation byte, so the
  test on bytes is the test on runes for every string.
\<close>

fun containsControlRune :: "string \<Rightarrow> bool" where
  "containsControlRune [] = False"
| "containsControlRune (c # s) =
     (byte_of c < 32 \<or> byte_of c = 127
      \<or> (byte_of c = 194 \<and> (case s of [] \<Rightarrow> False | d # _ \<Rightarrow> 128 \<le> byte_of d \<and> byte_of d \<le> 159))
      \<or> containsControlRune s)"

text \<open>\<^verbatim>\<open>utf8.Valid\<close>: the encodings accepted by Go (no overlong forms, no surrogates).\<close>

definition cont :: "nat \<Rightarrow> bool" where
  "cont b \<longleftrightarrow> 128 \<le> b \<and> b \<le> 191"

fun utf8Width :: "nat list \<Rightarrow> nat" where
  "utf8Width [] = 0"
| "utf8Width (a # bs) =
     (if a < 128 then 1
      else if 194 \<le> a \<and> a \<le> 223 then (case bs of b # _ \<Rightarrow> if cont b then 2 else 0 | _ \<Rightarrow> 0)
      else if 224 \<le> a \<and> a \<le> 239 then
        (case bs of b # c # _ \<Rightarrow>
           if (if a = 224 then 160 else 128) \<le> b \<and> b \<le> (if a = 237 then 159 else 191) \<and> cont c
           then 3 else 0
         | _ \<Rightarrow> 0)
      else if 240 \<le> a \<and> a \<le> 244 then
        (case bs of b # c # d # _ \<Rightarrow>
           if (if a = 240 then 144 else 128) \<le> b \<and> b \<le> (if a = 244 then 143 else 191)
              \<and> cont c \<and> cont d
           then 4 else 0
         | _ \<Rightarrow> 0)
      else 0)"

function utf8ValidBytes :: "nat list \<Rightarrow> bool" where
  "utf8ValidBytes bs =
     (if bs = [] then True
      else let w = utf8Width bs in if 0 < w then utf8ValidBytes (drop w bs) else False)"
  by pat_completeness auto
termination
  by (relation "measure length") auto

declare utf8ValidBytes.simps [simp del]

definition utf8Valid :: "string \<Rightarrow> bool" where
  "utf8Valid s = utf8ValidBytes (map byte_of s)"

section \<open>Decimal numerals\<close>

text \<open>\<^verbatim>\<open>strconv.FormatUint(n, 10)\<close>.\<close>

fun formatUint :: "nat \<Rightarrow> string" where
  "formatUint n = (if n < 10 then [digit_char n] else formatUint (n div 10) @ [digit_char (n mod 10)])"

declare formatUint.simps [simp del]

definition decValue :: "string \<Rightarrow> nat" where
  "decValue s = foldl (\<lambda>acc c. 10 * acc + digit_val c) 0 s"

text \<open>
  \<^verbatim>\<open>strconv.ParseUint(s, 10, bits)\<close>: an empty string, a byte that is no digit and a value that
  needs more than the given bits are errors (\<open>None\<close>).
\<close>

definition parseUint :: "nat \<Rightarrow> string \<Rightarrow> nat option" where
  "parseUint bits s =
     (if s = [] \<or> \<not> list_all is_digit s then None
      else if decValue s < 2 ^ bits then Some (decValue s) else None)"

section \<open>Paths\<close>

text \<open>
  \<^verbatim>\<open>filepath.IsAbs\<close>, and \<^verbatim>\<open>filepath.Clean(p) == p\<close> for an absolute path: Clean keeps an absolute
  path exactly when it is the root alone or no element between slashes is empty, \<^verbatim>\<open>.\<close> or \<^verbatim>\<open>..\<close>.
\<close>

definition isAbsPath :: "string \<Rightarrow> bool" where
  "isAbsPath p = hasPrefix p ''/''"

definition isCleanAbsPath :: "string \<Rightarrow> bool" where
  "isCleanAbsPath p \<longleftrightarrow>
     isAbsPath p
     \<and> (p = ''/'' \<or> list_all (\<lambda>e. e \<notin> {[], ''.'', ''..''}) (tl (splitOn (CHR ''/'') p)))"

section \<open>Shared lemmas\<close>

subsection \<open>Words\<close>

lemma unat_u64_less: "unat (w :: u64) < 18446744073709551616"
  using unsigned_less [of w, where ?'a = nat] by simp

lemma unat_u16_less: "unat (w :: u16) < 65536"
  using unsigned_less [of w, where ?'a = nat] by simp

lemma unat_u64_le: "unat (w :: u64) \<le> maxUint64"
  using unat_u64_less [of w] by simp

lemma unat_u16_of_u64 [unat_simps]: "unat w < 65536 \<Longrightarrow> unat (u16_of_u64 w) = unat w"
  by (simp add: u16_of_u64_def unsigned_ucast_eq take_bit_nat_eq_self)

lemma unat_u64_of_u16 [unat_simps, simp]: "unat (u64_of_u16 w) = unat w"
  using unat_u16_less [of w] by (simp add: u64_of_u16_def unsigned_ucast_eq take_bit_nat_eq_self)

lemma u64_of_u16_of_u64: "unat w < 65536 \<Longrightarrow> u64_of_u16 (u16_of_u64 w) = w"
  by (simp add: word_unat_eq_iff unat_simps)

lemma int_of_u64_small [unat_simps]: "unat w < 9223372036854775808 \<Longrightarrow> int_of_u64 w = int (unat w)"
proof -
  assume "unat w < 9223372036854775808"
  then have "int (unat w) < int 9223372036854775808" by (simp only: of_nat_less_iff)
  then have less: "uint w < 2 ^ 63" by simp
  have "sint w = signed_take_bit 63 (uint w)" by (simp add: sint_uint)
  also have "\<dots> = uint w"
  proof (rule signed_take_bit_int_eq_self)
    show "- (2 ^ 63) \<le> uint w" by (rule order_trans [of _ 0]) simp_all
  qed (rule less)
  finally show ?thesis by (simp add: int_of_u64_def)
qed

lemma unat_add_u64 [unat_simps]:
  "unat (a :: u64) + unat b \<le> maxUint64 \<Longrightarrow> unat (a + b) = unat a + unat b"
  by (simp add: unat_word_ariths)

lemma unat_mult_u64 [unat_simps]:
  "unat (a :: u64) * unat b \<le> maxUint64 \<Longrightarrow> unat (a * b) = unat a * unat b"
  by (simp add: unat_word_ariths)

lemmas unat_divmod [unat_simps] = unat_div unat_mod

lemma unat_of_nat_u64 [unat_simps]: "n \<le> maxUint64 \<Longrightarrow> unat (of_nat n :: u64) = n"
  by (simp add: unsigned_of_nat take_bit_nat_eq_self)

subsection \<open>Decimal numerals\<close>

lemma byte_digit_char: "d < 10 \<Longrightarrow> byte_of (digit_char d) = 48 + d"
  by (simp add: byte_of_def digit_char_def)

lemma is_digit_digit_char [simp]: "d < 10 \<Longrightarrow> is_digit (digit_char d)"
  by (simp add: is_digit_def byte_digit_char)

lemma digit_val_digit_char [simp]: "d < 10 \<Longrightarrow> digit_val (digit_char d) = d"
  by (simp add: digit_val_def byte_digit_char)

lemma decValue_snoc [simp]: "decValue (s @ [c]) = 10 * decValue s + digit_val c"
  by (simp add: decValue_def)

lemma decValue_formatUint [simp]: "decValue (formatUint n) = n"
proof (induction n rule: formatUint.induct)
  case (1 n)
  then show ?case
    by (cases "n < 10") (simp_all add: formatUint.simps [of n] decValue_def [of "[_]"])
qed

lemma digits_formatUint [simp]: "list_all is_digit (formatUint n)"
proof (induction n rule: formatUint.induct)
  case (1 n)
  then show ?case by (cases "n < 10") (simp_all add: formatUint.simps [of n])
qed

lemma formatUint_nonempty [simp]: "formatUint n \<noteq> []"
  by (subst formatUint.simps) simp

lemma hd_formatUint: "0 < n \<Longrightarrow> hd (formatUint n) \<noteq> CHR ''0''"
proof (induction n rule: formatUint.induct)
  case (1 n)
  show ?case
  proof (cases "n < 10")
    case True
    have "byte_of (digit_char n) \<noteq> byte_of (CHR ''0'')"
      using True 1 by (simp add: byte_digit_char) (simp add: byte_of_def)
    with True show ?thesis by (auto simp: formatUint.simps [of n])
  next
    case False
    with 1 show ?thesis by (simp add: formatUint.simps [of n])
  qed
qed

lemma parseUint_formatUint: "n < 2 ^ bits \<Longrightarrow> parseUint bits (formatUint n) = Some n"
  by (simp add: parseUint_def)

lemma length_formatUint_le: "n < 10 ^ k \<Longrightarrow> 0 < k \<Longrightarrow> length (formatUint n) \<le> k"
proof (induction n arbitrary: k rule: formatUint.induct)
  case (1 n)
  show ?case
  proof (cases "n < 10")
    case True
    with 1 show ?thesis by (simp add: formatUint.simps [of n])
  next
    case False
    then obtain j where j: "k = Suc j" "0 < j" using 1(2,3)
      by (cases k; cases "k - 1") auto
    have "n div 10 < 10 ^ j" using 1(2) j by (simp add: div_less_iff_less_mult mult.commute)
    with 1(1) False j have "length (formatUint (n div 10)) \<le> j" by simp
    with False j show ?thesis by (simp add: formatUint.simps [of n])
  qed
qed

subsection \<open>Splitting and joining\<close>

lemma splitOn_nonempty [simp]: "splitOn sep s \<noteq> []"
  by (induction s) (auto split: list.splits)

lemma joinWith_Cons [simp]: "ls \<noteq> [] \<Longrightarrow> joinWith sep (l # ls) = l @ sep # joinWith sep ls"
  by (cases ls) auto

lemma join_splitOn [simp]: "joinWith sep (splitOn sep s) = s"
proof (induction s)
  case Nil
  show ?case by simp
next
  case (Cons c s)
  obtain l ls where eq: "splitOn sep s = l # ls" by (cases "splitOn sep s") auto
  with Cons show ?case by (cases ls) auto
qed

lemma splitOn_no_sep: "l \<in> set (splitOn sep s) \<Longrightarrow> sep \<notin> set l"
proof (induction s arbitrary: l)
  case (Cons c s)
  obtain l' ls where eq: "splitOn sep s = l' # ls" by (cases "splitOn sep s") auto
  with Cons show ?case by (auto split: if_splits)
qed simp

lemma splitOn_subset: "l \<in> set (splitOn sep s) \<Longrightarrow> c \<in> set l \<Longrightarrow> c \<in> set s"
proof (induction s arbitrary: l)
  case (Cons d s)
  obtain l' ls where eq: "splitOn sep s = l' # ls" by (cases "splitOn sep s") auto
  have "l = [] \<or> l = d # l' \<or> l \<in> set (splitOn sep s)" using Cons(2) eq by (auto split: if_splits)
  then show ?case using Cons(1) [of l] Cons(1) [of l'] Cons(3) eq by auto
qed simp

lemma splitOn_single [simp]: "sep \<notin> set l \<Longrightarrow> splitOn sep l = [l]"
  by (induction l) auto

lemma splitOn_append [simp]: "sep \<notin> set l \<Longrightarrow> splitOn sep (l @ sep # s) = l # splitOn sep s"
  by (induction l) auto

lemma split_joinWith: "ls \<noteq> [] \<Longrightarrow> \<forall>l \<in> set ls. sep \<notin> set l \<Longrightarrow> splitOn sep (joinWith sep ls) = ls"
proof (induction ls)
  case (Cons l ls)
  then show ?case by (cases "ls = []") auto
qed simp

lemma set_joinWith: "set (joinWith sep ls) \<subseteq> insert sep (\<Union> (set ` set ls))"
  by (induction sep ls rule: joinWith.induct) auto

lemma cutAt_found [simp]: "sep \<notin> set a \<Longrightarrow> cutAt sep (a @ sep # b) = (a, b, True)"
  by (induction a) auto

lemma cutAt_none [simp]: "sep \<notin> set a \<Longrightarrow> cutAt sep a = (a, [], False)"
  by (induction a) auto

lemma cutAt_eq:
  "cutAt sep s = (a, b, f) \<Longrightarrow> sep \<notin> set a \<and> (if f then s = a @ sep # b else s = a \<and> b = [])"
  by (induction s arbitrary: a b f) (auto split: if_splits prod.splits)

lemma hasPrefix_append [simp]: "hasPrefix (p @ s) p"
  by (induction p) auto

lemma hasPrefix_iff: "hasPrefix s p \<longleftrightarrow> take (length p) s = p"
  by (induction s p rule: hasPrefix.induct) auto

subsection \<open>Line endings\<close>

definition no_cr :: "string \<Rightarrow> bool" where
  "no_cr s \<longleftrightarrow> list_all (\<lambda>c. byte_of c \<noteq> 13) s"

lemma crlfToLf_no_cr [simp]: "no_cr s \<Longrightarrow> crlfToLf s = s"
  by (induction s rule: crlfToLf.induct) (auto simp: no_cr_def)

lemma byte_of_inj: "byte_of c = byte_of d \<longleftrightarrow> c = d"
  by (simp add: byte_of_def)

lemma byte_lf [simp]: "byte_of (char_of (10::nat)) = 10" and byte_cr [simp]: "byte_of (char_of (13::nat)) = 13"
  by (simp_all add: byte_of_def)

lemma byte_LF [simp]: "byte_of LF = 10" and byte_CR [simp]: "byte_of CR = 13"
  by (simp_all add: LF_def CR_def)

subsection \<open>Printable ASCII\<close>

definition graphic :: "char \<Rightarrow> bool" where
  "graphic c \<longleftrightarrow> 32 < byte_of c \<and> byte_of c < 127"

lemma graphic_byte: "graphic c \<Longrightarrow> 32 < byte_of c \<and> byte_of c < 127"
  by (simp add: graphic_def)

lemma digit_graphic: "is_digit c \<Longrightarrow> graphic c"
  by (auto simp: is_digit_def graphic_def)

lemma leadingSpace_graphic: "graphic c \<Longrightarrow> \<not> leadingSpace (c # s)"
  by (auto simp: leadingSpace_def spaceEncodings_def graphic_def)

lemma trailingSpace_graphic: "graphic c \<Longrightarrow> \<not> trailingSpace (s @ [c])"
  by (auto simp: trailingSpace_def spaceEncodings_def graphic_def)

lemma isPadded_graphic: "list_all graphic s \<Longrightarrow> \<not> isPadded s"
proof (cases s)
  case (Cons c t)
  assume g: "list_all graphic s"
  with Cons have "\<not> leadingSpace s" by (simp add: leadingSpace_graphic)
  moreover have "\<not> trailingSpace (butlast s @ [last s])"
    using g Cons by (intro trailingSpace_graphic) (metis last_in_set list.distinct(1) list_all_iff)
  moreover have "butlast s @ [last s] = s" using Cons by (intro append_butlast_last_id) simp
  ultimately show ?thesis by (simp only: isPadded_def) blast
qed (simp add: isPadded_def leadingSpace_def trailingSpace_def spaceEncodings_def)

lemma spaceWidth_graphic:
  "graphic c \<Longrightarrow> spaceWidth (byte_of c # bs) = 0" "graphic c \<Longrightarrow> spaceWidthRev (byte_of c # bs) = 0"
  "spaceWidthRev (10 # bs) = 1"
  by (auto simp: spaceWidth_def spaceWidthRev_def spaceEncodings_def graphic_def)

text \<open>A line of printable characters loses its newline and nothing else.\<close>

lemma trimSpace_line:
  assumes "list_all graphic s" "s \<noteq> []"
  shows "trimSpace (s @ [LF]) = s" and "trimSpace s = s"
proof -
  have right: "trimRightSpaceRev t = t" if "list_all graphic t" for t
    using that spaceWidth_graphic(2) by (subst trimRightSpaceRev.simps) (cases t, auto)
  have rev: "list_all graphic (rev s)" using assms(1) by (simp add: list_all_iff)
  have left: "trimLeftSpace (s @ r) = s @ r" for r
    using assms spaceWidth_graphic(1) by (subst trimLeftSpace.simps) (cases s, auto)
  show "trimSpace s = s" using left [of "[]"] right [OF rev] by (simp add: trimSpace_def)
  have "trimRightSpaceRev (LF # rev s) = trimRightSpaceRev (rev s)"
    using spaceWidth_graphic(3) by (subst trimRightSpaceRev.simps) (simp add: Let_def)
  then show "trimSpace (s @ [LF]) = s" using left right [OF rev] by (simp add: trimSpace_def)
qed

lemma containsControlRune_graphic: "list_all graphic s \<Longrightarrow> \<not> containsControlRune s"
  by (induction s) (auto simp: graphic_def split: list.splits)

lemma utf8ValidBytes_ascii: "list_all (\<lambda>b. b < 128) bs \<Longrightarrow> utf8ValidBytes bs"
proof (induction bs)
  case (Cons b bs)
  then show ?case by (subst utf8ValidBytes.simps) simp
qed (simp add: utf8ValidBytes.simps)

lemma utf8Valid_ascii: "list_all (\<lambda>c. byte_of c < 128) s \<Longrightarrow> utf8Valid s"
  by (simp add: utf8Valid_def utf8ValidBytes_ascii list.pred_map comp_def)

lemma containsSub_head: "containsSub s (c # p) \<Longrightarrow> c \<in> set s"
  by (induction s) auto

subsection \<open>Association lists\<close>

lemma map_of_update [simp]: "map_of (AList.update k v al) = (map_of al)(k \<mapsto> v)"
  by (simp add: fun_eq_iff AList.update_conv)

lemma map_of_delete [simp]: "map_of (AList.delete k al) = (map_of al)(k := None)"
  by (simp add: fun_eq_iff AList.delete_conv)

lemma map_of_keyed_None: "map_of (map (\<lambda>g. (k g, f g)) gs) x = None \<longleftrightarrow> x \<notin> k ` set gs"
  by (induction gs) auto

lemma map_of_keyed_snoc:
  "k g \<notin> k ` set gs \<Longrightarrow>
     map_of (map (\<lambda>g. (k g, f g)) (gs @ [g])) = (map_of (map (\<lambda>g. (k g, f g)) gs))(k g \<mapsto> f g)"
  by (induction gs) (auto simp: fun_eq_iff)

lemma map_of_keyed_Some:
  "distinct (map k gs) \<Longrightarrow> map_of (map (\<lambda>g. (k g, f g)) gs) x = Some y \<longleftrightarrow> (\<exists>g \<in> set gs. x = k g \<and> y = f g)"
  by (induction gs) (auto simp: image_iff)

subsection \<open>Arithmetic\<close>

lemma mult_div_mod_split: "(c::nat) * p = (c div k * p) * k + (c mod k) * p"
proof -
  have "c * p = (c div k * k + c mod k) * p" by (simp only: div_mult_mod_eq)
  then show ?thesis by (simp only: distrib_right mult.assoc mult.commute [of k p])
qed

subsection \<open>Lists\<close>

lemma sum_list_map_if:
  "(\<Sum>x\<leftarrow>xs. if P x then f x else (0::nat)) = sum_list (map f (filter P xs))"
  by (induction xs) auto

lemma list_all2_memE:
  assumes "list_all2 P xs ys"
  shows "x \<in> set xs \<Longrightarrow> \<exists>y \<in> set ys. P x y" and "y \<in> set ys \<Longrightarrow> \<exists>x \<in> set xs. P x y"
  using assms by (induction rule: list_all2_induct) auto

lemma sorted_key_perm_unique:
  assumes "distinct (map f xs)" "mset xs = mset ys"
  shows "sort_key f xs = sort_key f ys"
proof (rule map_sorted_distinct_set_unique [of f])
  show "inj_on f (set (sort_key f xs) \<union> set (sort_key f ys))"
    using assms by (simp add: distinct_map flip: set_mset_mset)
  show "sorted (map f (sort_key f xs))" "sorted (map f (sort_key f ys))" by simp_all
  have "mset (map f (sort_key f xs)) = mset (map f xs)" by simp
  then show "distinct (map f (sort_key f xs))" using assms(1) mset_eq_imp_distinct_iff by blast
  have "mset (map f (sort_key f ys)) = mset (map f xs)" using assms(2) by simp
  then show "distinct (map f (sort_key f ys))" using assms(1) mset_eq_imp_distinct_iff by blast
  show "set (sort_key f xs) = set (sort_key f ys)" using assms(2) by (metis mset_sort set_mset_mset)
qed

end
