(* ===== verification/CpuPoints_Types.thy ===== *)
theory CpuPoints_Types
  imports Resman_Prelude
begin

text \<open>
  The units of CPU Points (\<^verbatim>\<open>src/internal/cpupoints/types.go\<close>): one datatype per Go struct that
  wraps a \<^verbatim>\<open>uint16\<close>, its validating constructor, the conversion to a kernel \<^verbatim>\<open>cpu.weight\<close> and the
  conversion of pool points and the online-CPU count into the parent \<^verbatim>\<open>cpu.max\<close> quota. The lemmas
  show that the quota arithmetic never wraps and is exact, and that every value a constructor
  accepts converts to a legal weight.
\<close>

section \<open>Definitions\<close>

definition TotalPoints :: u64 where "TotalPoints = 1000"
definition ParentPeriodMicroseconds :: u64 where "ParentPeriodMicroseconds = 100000"
definition MinimumParentQuotaMicroseconds :: u64 where "MinimumParentQuotaMicroseconds = 1000"
definition MinimumKernelCPUWeight :: u64 where "MinimumKernelCPUWeight = 1"
definition MaximumKernelCPUWeight :: u64 where "MaximumKernelCPUWeight = 10000"

lemmas cpu_points_constants =
  TotalPoints_def ParentPeriodMicroseconds_def MinimumParentQuotaMicroseconds_def
  MinimumKernelCPUWeight_def MaximumKernelCPUWeight_def

datatype reserve_points = ReservePoints (rsv: u16)
datatype parent_pool_points = ParentPoolPoints (pool: u16)
datatype configured_guarantee_points = ConfiguredGuaranteePoints (cgp: u16)
datatype configured_guarantee_total_points = ConfiguredGuaranteeTotalPoints (cgt: u16)
datatype best_effort_points = BestEffortPoints (bep: u16)
datatype root_points = RootPoints (rtp: u16)
datatype acquired_guarantee_points = AcquiredGuaranteePoints (agp: u16)
datatype applied_guarantee_points = AppliedGuaranteePoints (apg: u16)
datatype online_cpu_count = OnlineCPUCount (cpus: u64)
datatype kernel_cpu_weight = KernelCPUWeight (kw: u16)

record parent_quota =
  pq_poolPoints :: parent_pool_points
  pq_onlineCPUs :: online_cpu_count
  pq_quota :: u64
  pq_period :: u64

text \<open>The errors of this file: a value outside its range (name, value, bounds) and the others.\<close>

datatype points_error =
    OutsideRange string nat nat nat
  | OnlineCPUCountNotPositive
  | KernelWeightOutsideRange int
  | ZeroDomainWeight
  | ParentQuotaOverflow nat
  | ParentQuotaBelowMinimum nat

definition validateRange :: "string \<Rightarrow> u64 \<Rightarrow> u64 \<Rightarrow> u64 \<Rightarrow> (points_error, unit) res" where
  "validateRange name v minimum maximum =
     (if v < minimum \<or> v > maximum
      then Inl (OutsideRange name (unat v) (unat minimum) (unat maximum)) else Inr ())"

definition NewReservePoints :: "u64 \<Rightarrow> (points_error, reserve_points) res" where
  "NewReservePoints v =
     (case validateRange ''reserve points'' v 0 990 of
        Inl e \<Rightarrow> Inl e | Inr _ \<Rightarrow> Inr (ReservePoints (u16_of_u64 v)))"

definition NewParentPoolPoints :: "u64 \<Rightarrow> (points_error, parent_pool_points) res" where
  "NewParentPoolPoints v =
     (case validateRange ''parent pool points'' v 10 TotalPoints of
        Inl e \<Rightarrow> Inl e | Inr _ \<Rightarrow> Inr (ParentPoolPoints (u16_of_u64 v)))"

definition NewConfiguredGuaranteePoints :: "u64 \<Rightarrow> (points_error, configured_guarantee_points) res" where
  "NewConfiguredGuaranteePoints v =
     (case validateRange ''guaranteed points'' v 1 TotalPoints of
        Inl e \<Rightarrow> Inl e | Inr _ \<Rightarrow> Inr (ConfiguredGuaranteePoints (u16_of_u64 v)))"

definition NewConfiguredGuaranteeTotalPoints ::
    "u64 \<Rightarrow> (points_error, configured_guarantee_total_points) res" where
  "NewConfiguredGuaranteeTotalPoints v =
     (case validateRange ''configured guarantee total points'' v 0 TotalPoints of
        Inl e \<Rightarrow> Inl e | Inr _ \<Rightarrow> Inr (ConfiguredGuaranteeTotalPoints (u16_of_u64 v)))"

definition NewBestEffortPoints :: "u64 \<Rightarrow> (points_error, best_effort_points) res" where
  "NewBestEffortPoints v =
     (case validateRange ''best-effort points'' v 1 TotalPoints of
        Inl e \<Rightarrow> Inl e | Inr _ \<Rightarrow> Inr (BestEffortPoints (u16_of_u64 v)))"

definition NewRootPoints :: "u64 \<Rightarrow> (points_error, root_points) res" where
  "NewRootPoints v =
     (case validateRange ''root points'' v 1 TotalPoints of
        Inl e \<Rightarrow> Inl e | Inr _ \<Rightarrow> Inr (RootPoints (u16_of_u64 v)))"

definition NewAcquiredGuaranteePoints :: "u64 \<Rightarrow> (points_error, acquired_guarantee_points) res" where
  "NewAcquiredGuaranteePoints v =
     (case validateRange ''acquired guarantee points'' v 0 TotalPoints of
        Inl e \<Rightarrow> Inl e | Inr _ \<Rightarrow> Inr (AcquiredGuaranteePoints (u16_of_u64 v)))"

definition NewAppliedGuaranteePoints :: "u64 \<Rightarrow> (points_error, applied_guarantee_points) res" where
  "NewAppliedGuaranteePoints v =
     (case validateRange ''applied guarantee points'' v 0 TotalPoints of
        Inl e \<Rightarrow> Inl e | Inr _ \<Rightarrow> Inr (AppliedGuaranteePoints (u16_of_u64 v)))"

definition NewOnlineCPUCount :: "u64 \<Rightarrow> (points_error, online_cpu_count) res" where
  "NewOnlineCPUCount v = (if v = 0 then Inl OnlineCPUCountNotPositive else Inr (OnlineCPUCount v))"

text \<open>\<^verbatim>\<open>NewKernelCPUWeight\<close> takes a Go \<^verbatim>\<open>int\<close>; \<^verbatim>\<open>uint16(value)\<close> truncates it.\<close>

definition NewKernelCPUWeight :: "int \<Rightarrow> (points_error, kernel_cpu_weight) res" where
  "NewKernelCPUWeight v =
     (if v < int_of_u64 MinimumKernelCPUWeight \<or> v > int_of_u64 MaximumKernelCPUWeight
      then Inl (KernelWeightOutsideRange v) else Inr (KernelCPUWeight (word_of_int v)))"

definition ReservePoints_ParentPool :: "reserve_points \<Rightarrow> parent_pool_points" where
  "ReservePoints_ParentPool p = ParentPoolPoints (u16_of_u64 TotalPoints - rsv p)"

definition ConfiguredGuaranteePoints_KernelWeight ::
    "configured_guarantee_points \<Rightarrow> (points_error, kernel_cpu_weight) res" where
  "ConfiguredGuaranteePoints_KernelWeight p = NewKernelCPUWeight (uint (cgp p))"

definition BestEffortPoints_KernelWeight :: "best_effort_points \<Rightarrow> (points_error, kernel_cpu_weight) res" where
  "BestEffortPoints_KernelWeight p = NewKernelCPUWeight (uint (bep p))"

definition RootPoints_KernelWeight :: "root_points \<Rightarrow> (points_error, kernel_cpu_weight) res" where
  "RootPoints_KernelWeight p = NewKernelCPUWeight (uint (rtp p))"

definition AcquiredGuaranteePoints_KernelWeight ::
    "acquired_guarantee_points \<Rightarrow> (points_error, kernel_cpu_weight) res" where
  "AcquiredGuaranteePoints_KernelWeight p =
     (if agp p = 0 then Inl ZeroDomainWeight else NewKernelCPUWeight (uint (agp p)))"

definition AppliedGuaranteePoints_KernelWeight ::
    "applied_guarantee_points \<Rightarrow> (points_error, kernel_cpu_weight) res" where
  "AppliedGuaranteePoints_KernelWeight p =
     (if apg p = 0 then Inl ZeroDomainWeight else NewKernelCPUWeight (uint (apg p)))"

text \<open>The accessors \<^verbatim>\<open>Value\<close>: the wrapped number widened to \<^verbatim>\<open>uint64\<close> (\<^verbatim>\<open>int\<close> for a weight).\<close>

definition ReservePoints_Value :: "reserve_points \<Rightarrow> u64" where
  "ReservePoints_Value p = u64_of_u16 (rsv p)"
definition ParentPoolPoints_Value :: "parent_pool_points \<Rightarrow> u64" where
  "ParentPoolPoints_Value p = u64_of_u16 (pool p)"
definition ConfiguredGuaranteePoints_Value :: "configured_guarantee_points \<Rightarrow> u64" where
  "ConfiguredGuaranteePoints_Value p = u64_of_u16 (cgp p)"
definition BestEffortPoints_Value :: "best_effort_points \<Rightarrow> u64" where
  "BestEffortPoints_Value p = u64_of_u16 (bep p)"
definition RootPoints_Value :: "root_points \<Rightarrow> u64" where
  "RootPoints_Value p = u64_of_u16 (rtp p)"
definition KernelCPUWeight_Value :: "kernel_cpu_weight \<Rightarrow> int" where
  "KernelCPUWeight_Value w = uint (kw w)"

lemmas points_Value_defs =
  ReservePoints_Value_def ParentPoolPoints_Value_def ConfiguredGuaranteePoints_Value_def
  BestEffortPoints_Value_def RootPoints_Value_def KernelCPUWeight_Value_def

definition floorScaledQuota :: "u64 \<Rightarrow> u64 \<Rightarrow> u64" where
  "floorScaledQuota capacity points =
     (capacity div TotalPoints) * points + ((capacity mod TotalPoints) * points) div TotalPoints"

definition PlanParentQuota ::
    "online_cpu_count \<Rightarrow> parent_pool_points \<Rightarrow> (points_error, parent_quota) res" where
  "PlanParentQuota onlineCPUs p =
     (if cpus onlineCPUs > 18446744073709551615 div ParentPeriodMicroseconds
      then Inl (ParentQuotaOverflow (unat (cpus onlineCPUs)))
      else
        (let capacity = cpus onlineCPUs * ParentPeriodMicroseconds;
             quota = floorScaledQuota capacity (u64_of_u16 (pool p))
         in if quota < MinimumParentQuotaMicroseconds
            then Inl (ParentQuotaBelowMinimum (unat quota))
            else Inr \<lparr>pq_poolPoints = p, pq_onlineCPUs = onlineCPUs, pq_quota = quota,
                      pq_period = ParentPeriodMicroseconds\<rparr>))"

text \<open>\<^verbatim>\<open>ParentQuota.CPUmax\<close>: the two numbers of \<^verbatim>\<open>cpu.max\<close> separated by a space.\<close>

definition ParentQuota_CPUmax :: "parent_quota \<Rightarrow> string" where
  "ParentQuota_CPUmax q = formatUint (unat (pq_quota q)) @ '' '' @ formatUint (unat (pq_period q))"

section \<open>Invariants of accepted values\<close>

definition wf_reserve :: "reserve_points \<Rightarrow> bool" where
  "wf_reserve p \<longleftrightarrow> unat (rsv p) \<le> 990"
definition wf_pool :: "parent_pool_points \<Rightarrow> bool" where
  "wf_pool p \<longleftrightarrow> 10 \<le> unat (pool p) \<and> unat (pool p) \<le> 1000"
definition wf_guarantee :: "configured_guarantee_points \<Rightarrow> bool" where
  "wf_guarantee p \<longleftrightarrow> 1 \<le> unat (cgp p) \<and> unat (cgp p) \<le> 1000"
definition wf_best_effort :: "best_effort_points \<Rightarrow> bool" where
  "wf_best_effort p \<longleftrightarrow> 1 \<le> unat (bep p) \<and> unat (bep p) \<le> 1000"
definition wf_root :: "root_points \<Rightarrow> bool" where
  "wf_root p \<longleftrightarrow> 1 \<le> unat (rtp p) \<and> unat (rtp p) \<le> 1000"
definition wf_weight :: "kernel_cpu_weight \<Rightarrow> bool" where
  "wf_weight w \<longleftrightarrow> 1 \<le> unat (kw w) \<and> unat (kw w) \<le> 10000"

lemmas wf_points_defs =
  wf_reserve_def wf_pool_def wf_guarantee_def wf_best_effort_def wf_root_def wf_weight_def

section \<open>Lemmas\<close>

lemma validateRange_Inr:
  "validateRange n v lo hi = Inr u \<longleftrightarrow> unat lo \<le> unat v \<and> unat v \<le> unat hi"
  by (auto simp: validateRange_def word_less_nat_alt word_le_nat_alt not_less)

lemma validateRange_cases:
  "validateRange n v lo hi =
     (if unat lo \<le> unat v \<and> unat v \<le> unat hi then Inr () else Inl (OutsideRange n (unat v) (unat lo) (unat hi)))"
  by (auto simp: validateRange_def word_less_nat_alt)

lemma NewReservePoints_Inr:
  "NewReservePoints v = Inr p \<longleftrightarrow> unat v \<le> 990 \<and> p = ReservePoints (u16_of_u64 v)"
  by (auto simp: NewReservePoints_def validateRange_cases)

lemma NewBestEffortPoints_Inr:
  "NewBestEffortPoints v = Inr p \<longleftrightarrow> 1 \<le> unat v \<and> unat v \<le> 1000 \<and> p = BestEffortPoints (u16_of_u64 v)"
  by (auto simp: NewBestEffortPoints_def validateRange_cases cpu_points_constants)

lemma NewRootPoints_Inr:
  "NewRootPoints v = Inr p \<longleftrightarrow> 1 \<le> unat v \<and> unat v \<le> 1000 \<and> p = RootPoints (u16_of_u64 v)"
  by (auto simp: NewRootPoints_def validateRange_cases cpu_points_constants)

lemma NewConfiguredGuaranteePoints_Inr:
  "NewConfiguredGuaranteePoints v = Inr p \<longleftrightarrow>
     1 \<le> unat v \<and> unat v \<le> 1000 \<and> p = ConfiguredGuaranteePoints (u16_of_u64 v)"
  by (auto simp: NewConfiguredGuaranteePoints_def validateRange_cases cpu_points_constants)

lemma NewConfiguredGuaranteeTotalPoints_Inr:
  "NewConfiguredGuaranteeTotalPoints v = Inr p \<longleftrightarrow>
     unat v \<le> 1000 \<and> p = ConfiguredGuaranteeTotalPoints (u16_of_u64 v)"
  by (auto simp: NewConfiguredGuaranteeTotalPoints_def validateRange_cases cpu_points_constants)

lemma NewOnlineCPUCount_Inr: "NewOnlineCPUCount v = Inr c \<longleftrightarrow> v \<noteq> 0 \<and> c = OnlineCPUCount v"
  by (auto simp: NewOnlineCPUCount_def)

lemmas New_Inr =
  NewReservePoints_Inr NewBestEffortPoints_Inr NewRootPoints_Inr NewConfiguredGuaranteePoints_Inr
  NewConfiguredGuaranteeTotalPoints_Inr NewOnlineCPUCount_Inr

lemma New_wf:
  "NewReservePoints v = Inr r \<Longrightarrow> wf_reserve r"
  "NewBestEffortPoints v = Inr b \<Longrightarrow> wf_best_effort b"
  "NewRootPoints v = Inr t \<Longrightarrow> wf_root t"
  "NewConfiguredGuaranteePoints v = Inr g \<Longrightarrow> wf_guarantee g"
  by (auto simp: New_Inr wf_points_defs unat_simps)

lemma NewKernelCPUWeight_Inr:
  "NewKernelCPUWeight v = Inr w \<longleftrightarrow> 1 \<le> v \<and> v \<le> 10000 \<and> w = KernelCPUWeight (word_of_int v)"
  by (auto simp: NewKernelCPUWeight_def unat_simps cpu_points_constants)

lemma NewKernelCPUWeight_nat:
  "1 \<le> n \<Longrightarrow> n \<le> 10000 \<Longrightarrow>
     \<exists>w. NewKernelCPUWeight (int n) = Inr w \<and> unat (kw w) = n \<and> wf_weight w"
  by (auto simp: NewKernelCPUWeight_Inr wf_weight_def unsigned_of_nat take_bit_nat_eq_self)

lemma ParentPool_value:
  "wf_reserve p \<Longrightarrow> unat (pool (ReservePoints_ParentPool p)) = 1000 - unat (rsv p)"
  by (simp add: ReservePoints_ParentPool_def wf_reserve_def cpu_points_constants u16_of_u64_def
    unat_sub word_le_nat_alt)

lemma ParentPool_wf: "wf_reserve p \<Longrightarrow> wf_pool (ReservePoints_ParentPool p)"
  by (simp add: wf_pool_def ParentPool_value) (simp add: wf_reserve_def)

lemma floorScaledQuota_unat:
  assumes "unat points \<le> 1000"
  shows "unat (floorScaledQuota capacity points) = unat capacity * unat points div 1000"
proof -
  let ?c = "unat capacity" and ?p = "unat points"
  have cap: "?c \<le> maxUint64" by (rule unat_u64_le)
  have r: "(?c mod 1000) * ?p \<le> 999 * 1000" using assms by (intro mult_le_mono) auto
  have exact: "?c * ?p div 1000 = ?c div 1000 * ?p + (?c mod 1000) * ?p div 1000"
    by (subst mult_div_mod_split [of ?c ?p 1000]) simp
  have total: "(?c div 1000) * ?p + (?c mod 1000) * ?p div 1000 \<le> ?c"
    using assms exact [symmetric] div_le_mono [of "?c * ?p" "?c * 1000" 1000] by simp
  have m1: "unat ((capacity div 1000) * points) = ?c div 1000 * ?p"
    using total cap by (intro unat_mult_u64 [THEN trans]) (simp_all add: unat_divmod)
  have m2: "unat (((capacity mod 1000) * points) div 1000) = (?c mod 1000) * ?p div 1000"
    using r by (simp add: unat_divmod unat_mult_u64)
  show ?thesis
    using total cap by (simp add: floorScaledQuota_def TotalPoints_def unat_add_u64 m1 m2 exact)
qed

lemma PlanParentQuota_cases:
  assumes "wf_pool p" "cpus c \<noteq> 0"
  shows "PlanParentQuota c p =
     (if unat (cpus c) \<le> maxUint64 div 100000
      then Inr \<lparr>pq_poolPoints = p, pq_onlineCPUs = c,
                pq_quota = of_nat (100 * unat (cpus c) * unat (pool p)), pq_period = 100000\<rparr>
      else Inl (ParentQuotaOverflow (unat (cpus c))))"
proof (cases "unat (cpus c) \<le> maxUint64 div 100000")
  case False
  have "unat ((18446744073709551615 :: u64) div 100000) = maxUint64 div 100000"
    by (simp add: unat_divmod)
  with False show ?thesis
    by (simp add: PlanParentQuota_def cpu_points_constants word_less_nat_alt)
next
  case True
  let ?n = "unat (cpus c)" and ?q = "floorScaledQuota (cpus c * 100000) (u64_of_u16 (pool p))"
  have lim: "unat ((18446744073709551615 :: u64) div 100000) = maxUint64 div 100000"
    by (simp add: unat_divmod)
  have cap: "unat (cpus c * 100000) = ?n * 100000"
    using True by (intro unat_mult_u64 [THEN trans]) simp_all
  have q: "unat ?q = 100 * ?n * unat (pool p)"
    using assms(1) by (simp add: floorScaledQuota_unat wf_pool_def cap)
  have "1 \<le> ?n" using assms(2) by (simp add: unat_gt_0 Suc_leI)
  then have "1 * 10 \<le> ?n * unat (pool p)"
    using assms(1) by (intro mult_le_mono) (auto simp: wf_pool_def)
  then have min: "\<not> ?q < 1000" using q by (simp add: word_less_nat_alt)
  have qw: "?q = of_nat (100 * ?n * unat (pool p))" by (simp only: q [symmetric]) simp
  show ?thesis
    using True lim min qw by (simp add: PlanParentQuota_def cpu_points_constants word_less_nat_alt)
qed

end
