(* ===== verification/CpuPoints_Policy.thy ===== *)
theory CpuPoints_Policy
  imports CpuPoints_Types
begin

text \<open>
  The CPU Points policy map (\<^verbatim>\<open>src/internal/cpupoints/policy.go\<close>) and the construction of an
  immutable policy snapshot from its bytes (\<^verbatim>\<open>loadContent\<close> and its callers in
  \<^verbatim>\<open>src/internal/cpupoints/policy_file.go\<close>). NSS is a parameter: a function from a username to
  the identities it resolves to. SHA-256 is a parameter: a function from bytes to a digest. The
  lemmas give the grammar's consequences for what the parser returns, the round trip of printed
  entries and the invariant of every snapshot that is built.
\<close>

section \<open>Data\<close>

definition PolicyMapMarker :: string where
  "PolicyMapMarker = ''[resman-cpu-points-map-v1]''"

definition MaximumPolicyMapBytes :: nat where "MaximumPolicyMapBytes = 65536"
definition MaximumPolicyMapEntries :: nat where "MaximumPolicyMapEntries = 998"

definition utf8BOM :: string where "utf8BOM = map char_of [239::nat, 187, 191]"

datatype policy_map_path = PolicyMapPath (path_of: string)

datatype path_error =
    PathEmpty | PathControlOrInvalidUTF8 | PathPadded | PathNotAbsolute | PathNotClean | PathIsRoot

record policy_inputs =
  in_Reserve :: reserve_points
  in_Root :: root_points
  in_BestEffort :: best_effort_points
  in_MapPath :: policy_map_path

datatype allocation_class = AllocationClassGuaranteed | AllocationClassBestEffort

record resolved_user_identity =
  id_Username :: string
  id_UID :: int

text \<open>\<^verbatim>\<open>ExactIdentityResolver\<close>: an NSS error (its text) or the identities found.\<close>

type_synonym identity_resolver = "string \<Rightarrow> (string, resolved_user_identity list) res"

record user_guarantee =
  ug_username :: string
  ug_uid :: int
  ug_points :: configured_guarantee_points
  ug_line :: nat

record policy_source =
  ps_path :: policy_map_path
  ps_dev :: u64
  ps_inode :: u64
  ps_size :: int
  ps_digest :: string

record policy_snapshot =
  sn_reserve :: reserve_points
  sn_pool :: parent_pool_points
  sn_root :: root_points
  sn_bestEffort :: best_effort_points
  sn_configuredTotal :: configured_guarantee_total_points
  sn_entries :: "user_guarantee list"
  sn_guaranteesByUID :: "(int \<times> user_guarantee) list"
  sn_source :: policy_source

record raw_policy_entry =
  re_username :: string
  re_points :: configured_guarantee_points
  re_line :: nat

text \<open>One constructor per error return of \<^verbatim>\<open>parseConfiguredGuarantee\<close> and \<^verbatim>\<open>parsePolicyMap\<close>.\<close>

datatype guarantee_error =
    GuaranteeEmpty
  | GuaranteeLeadingZero string
  | GuaranteeNotDecimal string
  | GuaranteeParse string
  | GuaranteeRange points_error

datatype syntax_error =
    MapTooLarge nat
  | MapHasBOM
  | MapNotUTF8
  | StrayCarriageReturn
  | MarkerMissing
  | LineHasControl nat
  | MarkerDuplicated nat
  | LinePadded nat
  | LineWithoutEquals nat
  | LineEmptyUsername nat
  | LineExtraEquals nat
  | LinePaddedField nat
  | DuplicateUsername string nat nat
  | LineBadGuarantee nat string guarantee_error
  | TooManyEntries

datatype identity_cause =
    ResolverFailed string
  | NotResolved
  | ResolvedToMany nat
  | NonExactIdentity string
  | NegativeUID int
  | RootUID
  | DuplicateUID string int

record overcommit =
  oc_Reserve :: u64
  oc_Pool :: u64
  oc_Guarantees :: u64
  oc_Root :: u64
  oc_BestEffort :: u64
  oc_Total :: u64

datatype policy_error =
    BadMapPath path_error
  | BadReserve points_error
  | BadBestEffort points_error
  | BadRoot points_error
  | PolicySyntaxError syntax_error
  | PolicyOvercommitError overcommit
  | PolicyIdentityError string identity_cause
  | BadConfiguredTotal points_error

section \<open>Operations\<close>

definition NewPolicyMapPath :: "string \<Rightarrow> (path_error, policy_map_path) res" where
  "NewPolicyMapPath p =
     (if p = [] then Inl PathEmpty
      else if \<not> utf8Valid p \<or> containsControlRune p then Inl PathControlOrInvalidUTF8
      else if isPadded p then Inl PathPadded
      else if \<not> isAbsPath p then Inl PathNotAbsolute
      else if \<not> isCleanAbsPath p then Inl PathNotClean
      else if p = ''/'' then Inl PathIsRoot
      else Inr (PolicyMapPath p))"

text \<open>
  \<^verbatim>\<open>NSSIdentityResolver.ResolveExactUsername\<close>; \<open>lookup\<close> stands for \<^verbatim>\<open>user.Lookup\<close> and gives the
  decimal UID text and the name of the account.
\<close>

definition ResolveExactUsername :: "(string \<Rightarrow> (string, string \<times> string) res) \<Rightarrow> identity_resolver" where
  "ResolveExactUsername lookup username =
     (case lookup username of
        Inl e \<Rightarrow> Inl e
      | Inr (uidText, name) \<Rightarrow>
          (case parseUint 32 uidText of
             None \<Rightarrow> Inl ''unrepresentable UID''
           | Some uid \<Rightarrow>
               if uid > 9223372036854775807 then Inl ''not representable as int''
               else Inr [\<lparr>id_Username = name, id_UID = int uid\<rparr>]))"

definition newPolicyOvercommitError ::
    "parent_pool_points \<Rightarrow> reserve_points \<Rightarrow> u64 \<Rightarrow> root_points \<Rightarrow> best_effort_points \<Rightarrow> overcommit" where
  "newPolicyOvercommitError p reserve guarantees rootPts bestEffort =
     \<lparr>oc_Reserve = ReservePoints_Value reserve, oc_Pool = ParentPoolPoints_Value p,
      oc_Guarantees = guarantees, oc_Root = RootPoints_Value rootPts,
      oc_BestEffort = BestEffortPoints_Value bestEffort,
      oc_Total = guarantees + RootPoints_Value rootPts + BestEffortPoints_Value bestEffort\<rparr>"

definition emptySource :: policy_source where
  "emptySource = \<lparr>ps_path = PolicyMapPath [], ps_dev = 0, ps_inode = 0, ps_size = 0, ps_digest = replicate 32 (char_of (0::nat))\<rparr>"

definition NewEmptyPolicySnapshot ::
    "reserve_points \<Rightarrow> root_points \<Rightarrow> best_effort_points \<Rightarrow> (policy_error, policy_snapshot) res" where
  "NewEmptyPolicySnapshot reserve rootPts bestEffort =
     (let p = ReservePoints_ParentPool reserve in
      if RootPoints_Value rootPts + BestEffortPoints_Value bestEffort > ParentPoolPoints_Value p
      then Inl (PolicyOvercommitError (newPolicyOvercommitError p reserve 0 rootPts bestEffort))
      else (case NewConfiguredGuaranteeTotalPoints 0 of
              Inl e \<Rightarrow> Inl (BadConfiguredTotal e)
            | Inr totalPts \<Rightarrow>
                Inr \<lparr>sn_reserve = reserve, sn_pool = p, sn_root = rootPts, sn_bestEffort = bestEffort,
                     sn_configuredTotal = totalPts, sn_entries = [], sn_guaranteesByUID = [],
                     sn_source = emptySource\<rparr>))"

definition GuaranteeForUID :: "policy_snapshot \<Rightarrow> int \<Rightarrow> user_guarantee option" where
  "GuaranteeForUID s uid = map_of (sn_guaranteesByUID s) uid"

definition ClassForUID :: "policy_snapshot \<Rightarrow> int \<Rightarrow> allocation_class" where
  "ClassForUID s uid =
     (case map_of (sn_guaranteesByUID s) uid of
        Some _ \<Rightarrow> AllocationClassGuaranteed | None \<Rightarrow> AllocationClassBestEffort)"

definition parseConfiguredGuarantee ::
    "string \<Rightarrow> (guarantee_error, configured_guarantee_points) res" where
  "parseConfiguredGuarantee v =
     (if v = [] then Inl GuaranteeEmpty
      else if length v > 1 \<and> hd v = CHR ''0'' then Inl (GuaranteeLeadingZero v)
      else if \<not> list_all is_digit v then Inl (GuaranteeNotDecimal v)
      else (case parseUint 64 v of
              None \<Rightarrow> Inl (GuaranteeParse v)
            | Some parsed \<Rightarrow>
                (case NewConfiguredGuaranteePoints (of_nat parsed) of
                   Inl e \<Rightarrow> Inl (GuaranteeRange e) | Inr g \<Rightarrow> Inr g)))"

text \<open>One non-empty line of the map that is no comment: its entry, or why it is refused.\<close>

definition parseAssignment ::
    "(string \<times> nat) list \<Rightarrow> nat \<Rightarrow> nat \<Rightarrow> string \<Rightarrow> (syntax_error, raw_policy_entry) res" where
  "parseAssignment seenNames entryCount lineNumber line =
     (if line = PolicyMapMarker then Inl (MarkerDuplicated lineNumber)
      else if isPadded line then Inl (LinePadded lineNumber)
      else (case cutAt (CHR ''='') line of (username, v, found) \<Rightarrow>
        if \<not> found then Inl (LineWithoutEquals lineNumber)
        else if username = [] then Inl (LineEmptyUsername lineNumber)
        else if CHR ''='' \<in> set v then Inl (LineExtraEquals lineNumber)
        else if isPadded username \<or> isPadded v then Inl (LinePaddedField lineNumber)
        else (case map_of seenNames username of
                Some previousLine \<Rightarrow> Inl (DuplicateUsername username previousLine lineNumber)
              | None \<Rightarrow>
                  (case parseConfiguredGuarantee v of
                     Inl e \<Rightarrow> Inl (LineBadGuarantee lineNumber username e)
                   | Inr points \<Rightarrow>
                       if entryCount = MaximumPolicyMapEntries then Inl TooManyEntries
                       else Inr \<lparr>re_username = username, re_points = points, re_line = lineNumber\<rparr>))))"

text \<open>The loop over \<^verbatim>\<open>lines[1:]\<close>, with the names seen so far and the entries so far.\<close>

fun parsePolicyLines ::
    "nat \<Rightarrow> (string \<times> nat) list \<Rightarrow> raw_policy_entry list \<Rightarrow> string list \<Rightarrow>
     (syntax_error, raw_policy_entry list) res" where
  "parsePolicyLines lineNumber seenNames entries [] = Inr entries"
| "parsePolicyLines lineNumber seenNames entries (line # lines) =
     (if line = [] then parsePolicyLines (Suc lineNumber) seenNames entries lines
      else if containsControlRune line then Inl (LineHasControl lineNumber)
      else if hasPrefix line ''#'' then parsePolicyLines (Suc lineNumber) seenNames entries lines
      else (case parseAssignment seenNames (length entries) lineNumber line of
              Inl e \<Rightarrow> Inl e
            | Inr entry \<Rightarrow>
                parsePolicyLines (Suc lineNumber)
                  (AList.update (re_username entry) lineNumber seenNames) (entries @ [entry]) lines))"

definition parsePolicyMap :: "string \<Rightarrow> (syntax_error, raw_policy_entry list) res" where
  "parsePolicyMap data =
     (if length data > MaximumPolicyMapBytes then Inl (MapTooLarge (length data))
      else if containsSub data utf8BOM then Inl MapHasBOM
      else if \<not> utf8Valid data then Inl MapNotUTF8
      else
        (let content = crlfToLf data in
         if CR \<in> set content then Inl StrayCarriageReturn
         else
           (let lines = splitOn LF content in
            if lines = [] \<or> hd lines \<noteq> PolicyMapMarker then Inl MarkerMissing
            else parsePolicyLines 2 [] [] (tl lines))))"

text \<open>\<^verbatim>\<open>configuredTotal += raw.points.Value()\<close>.\<close>

definition configuredTotalOf :: "raw_policy_entry list \<Rightarrow> u64" where
  "configuredTotalOf raws = foldl (\<lambda>acc raw. acc + ConfiguredGuaranteePoints_Value (re_points raw)) 0 raws"

definition resolveEntry ::
    "identity_resolver \<Rightarrow> (int \<times> user_guarantee) list \<Rightarrow> raw_policy_entry \<Rightarrow>
     (policy_error, user_guarantee) res" where
  "resolveEntry resolver byUID raw =
     (case resolver (re_username raw) of
        Inl e \<Rightarrow> Inl (PolicyIdentityError (re_username raw) (ResolverFailed e))
      | Inr identities \<Rightarrow>
          if length identities = 0 then Inl (PolicyIdentityError (re_username raw) NotResolved)
          else if length identities \<noteq> 1
          then Inl (PolicyIdentityError (re_username raw) (ResolvedToMany (length identities)))
          else
            (let identity = identities ! 0 in
             if id_Username identity \<noteq> re_username raw
             then Inl (PolicyIdentityError (re_username raw) (NonExactIdentity (id_Username identity)))
             else if id_UID identity < 0
             then Inl (PolicyIdentityError (re_username raw) (NegativeUID (id_UID identity)))
             else if id_UID identity = 0 then Inl (PolicyIdentityError (re_username raw) RootUID)
             else (case map_of byUID (id_UID identity) of
                     Some previous \<Rightarrow>
                       Inl (PolicyIdentityError (re_username raw)
                             (DuplicateUID (ug_username previous) (id_UID identity)))
                   | None \<Rightarrow>
                       Inr \<lparr>ug_username = re_username raw, ug_uid = id_UID identity,
                            ug_points = re_points raw, ug_line = re_line raw\<rparr>)))"

fun resolveEntries ::
    "identity_resolver \<Rightarrow> user_guarantee list \<Rightarrow> (int \<times> user_guarantee) list \<Rightarrow> raw_policy_entry list \<Rightarrow>
     (policy_error, user_guarantee list \<times> (int \<times> user_guarantee) list) res" where
  "resolveEntries resolver entries byUID [] = Inr (entries, byUID)"
| "resolveEntries resolver entries byUID (raw # raws) =
     (case resolveEntry resolver byUID raw of
        Inl e \<Rightarrow> Inl e
      | Inr g \<Rightarrow>
          resolveEntries resolver (entries @ [g]) (AList.update (ug_uid g) g byUID) raws)"

definition loadContent ::
    "policy_inputs \<Rightarrow> string \<Rightarrow> policy_source \<Rightarrow> identity_resolver \<Rightarrow> (policy_error, policy_snapshot) res" where
  "loadContent inputs data source resolver =
     (case NewReservePoints (ReservePoints_Value (in_Reserve inputs)) of
        Inl e \<Rightarrow> Inl (BadReserve e)
      | Inr reserve \<Rightarrow>
     (case NewBestEffortPoints (BestEffortPoints_Value (in_BestEffort inputs)) of
        Inl e \<Rightarrow> Inl (BadBestEffort e)
      | Inr bestEffort \<Rightarrow>
     (case NewRootPoints (RootPoints_Value (in_Root inputs)) of
        Inl e \<Rightarrow> Inl (BadRoot e)
      | Inr rootPts \<Rightarrow>
     (case parsePolicyMap data of
        Inl e \<Rightarrow> Inl (PolicySyntaxError e)
      | Inr rawEntries \<Rightarrow>
        (let p = ReservePoints_ParentPool reserve;
             configuredTotal = configuredTotalOf rawEntries
         in if configuredTotal + RootPoints_Value rootPts + BestEffortPoints_Value bestEffort
               > ParentPoolPoints_Value p
            then Inl (PolicyOvercommitError
                       (newPolicyOvercommitError p reserve configuredTotal rootPts bestEffort))
            else (case resolveEntries resolver [] [] rawEntries of
                    Inl e \<Rightarrow> Inl e
                  | Inr (entries, byUID) \<Rightarrow>
                      (case NewConfiguredGuaranteeTotalPoints configuredTotal of
                         Inl e \<Rightarrow> Inl (BadConfiguredTotal e)
                       | Inr totalPts \<Rightarrow>
                           Inr \<lparr>sn_reserve = reserve, sn_pool = p, sn_root = rootPts,
                                sn_bestEffort = bestEffort, sn_configuredTotal = totalPts,
                                sn_entries = entries, sn_guaranteesByUID = byUID,
                                sn_source = source\<rparr>)))))))"

text \<open>\<^verbatim>\<open>PolicyLoader.LoadContent\<close> (the nil checks on the loader and resolver have no counterpart).\<close>

definition LoadContent ::
    "(string \<Rightarrow> string) \<Rightarrow> policy_inputs \<Rightarrow> string \<Rightarrow> identity_resolver \<Rightarrow> (policy_error, policy_snapshot) res" where
  "LoadContent sha256 inputs data resolver =
     (case NewPolicyMapPath (path_of (in_MapPath inputs)) of
        Inl e \<Rightarrow> Inl (BadMapPath e)
      | Inr mapPath \<Rightarrow>
          loadContent inputs data
            \<lparr>ps_path = mapPath, ps_dev = 0, ps_inode = 0, ps_size = int (length data),
             ps_digest = sha256 data\<rparr> resolver)"

section \<open>Invariants\<close>

text \<open>What the parser promises of one entry and of the list it returns.\<close>

definition raw_entry_ok :: "raw_policy_entry \<Rightarrow> bool" where
  "raw_entry_ok e \<longleftrightarrow>
     re_username e \<noteq> [] \<and> CHR ''='' \<notin> set (re_username e) \<and> \<not> isPadded (re_username e)
     \<and> \<not> hasPrefix (re_username e) ''#'' \<and> wf_guarantee (re_points e)"

definition raw_entries_ok :: "raw_policy_entry list \<Rightarrow> bool" where
  "raw_entries_ok es \<longleftrightarrow>
     list_all raw_entry_ok es \<and> distinct (map re_username es) \<and> length es \<le> MaximumPolicyMapEntries
     \<and> sorted_wrt (<) (map re_line es)"

definition raw_points :: "raw_policy_entry list \<Rightarrow> nat" where
  "raw_points es = (\<Sum>e\<leftarrow>es. unat (cgp (re_points e)))"

definition guaranteed_points :: "user_guarantee list \<Rightarrow> nat" where
  "guaranteed_points gs = (\<Sum>g\<leftarrow>gs. unat (cgp (ug_points g)))"

text \<open>The invariant of every policy snapshot.\<close>

definition wf_snapshot :: "policy_snapshot \<Rightarrow> bool" where
  "wf_snapshot s \<longleftrightarrow>
     wf_reserve (sn_reserve s) \<and> sn_pool s = ReservePoints_ParentPool (sn_reserve s)
     \<and> wf_root (sn_root s) \<and> wf_best_effort (sn_bestEffort s)
     \<and> list_all (\<lambda>g. wf_guarantee (ug_points g) \<and> 0 < ug_uid g) (sn_entries s)
     \<and> distinct (map ug_uid (sn_entries s)) \<and> distinct (map ug_username (sn_entries s))
     \<and> map_of (sn_guaranteesByUID s) = map_of (map (\<lambda>g. (ug_uid g, g)) (sn_entries s))
     \<and> unat (cgt (sn_configuredTotal s)) = guaranteed_points (sn_entries s)
     \<and> guaranteed_points (sn_entries s) + unat (rtp (sn_root s)) + unat (bep (sn_bestEffort s))
         \<le> unat (pool (sn_pool s))"

section \<open>Lemmas on the parser\<close>

lemma parseConfiguredGuarantee_wf: "parseConfiguredGuarantee v = Inr g \<Longrightarrow> wf_guarantee g"
  by (auto simp: parseConfiguredGuarantee_def dest: New_wf(4) split: if_splits option.splits sum.splits)

lemma parseAssignment_Inr:
  assumes "parseAssignment seen n k line = Inr e" "\<not> hasPrefix line ''#''"
  shows "raw_entry_ok e \<and> map_of seen (re_username e) = None \<and> n \<noteq> MaximumPolicyMapEntries \<and> re_line e = k"
proof -
  obtain u v f where cut: "cutAt (CHR ''='') line = (u, v, f)" by (cases "cutAt (CHR ''='') line") auto
  with assms(1) have e: "f" "u \<noteq> []" "\<not> isPadded u" "map_of seen u = None" "re_username e = u"
      "re_line e = k" "n \<noteq> MaximumPolicyMapEntries" and g: "parseConfiguredGuarantee v = Inr (re_points e)"
    by (auto simp: parseAssignment_def split: if_splits option.splits sum.splits)
  from cut e(1) have line: "line = u @ CHR ''='' # v" "CHR ''='' \<notin> set u"
    using cutAt_eq [OF cut] by auto
  have "\<not> hasPrefix u ''#''" using assms(2) e(2) line(1) by (cases u) auto
  with e line(2) parseConfiguredGuarantee_wf [OF g] show ?thesis by (simp add: raw_entry_ok_def)
qed

lemma parsePolicyLines_ok:
  assumes "parsePolicyLines k seen es lines = Inr es'" "raw_entries_ok es"
    and "\<forall>u. map_of seen u = None \<longleftrightarrow> u \<notin> re_username ` set es" "\<forall>e \<in> set es. re_line e < k"
  shows "raw_entries_ok es'"
  using assms
proof (induction k seen es lines rule: parsePolicyLines.induct)
  case (2 k seen es line lines)
  show ?case
  proof (cases "line = [] \<or> containsControlRune line \<or> hasPrefix line ''#''")
    case True
    with 2 show ?thesis by (auto split: if_splits simp: less_Suc_eq)
  next
    case False
    with 2(4) obtain e where e: "parseAssignment seen (length es) k line = Inr e"
      by (auto split: sum.splits)
    from parseAssignment_Inr [OF this] False
    have ok: "raw_entry_ok e" "map_of seen (re_username e) = None" "length es \<noteq> MaximumPolicyMapEntries"
      "re_line e = k" by auto
    show ?thesis
    proof (rule 2(3) [OF _ _ _ e])
      show "parsePolicyLines (Suc k) (AList.update (re_username e) k seen) (es @ [e]) lines = Inr es'"
        using 2(4) False e by simp
      show "raw_entries_ok (es @ [e])"
        using 2(5,6,7) ok by (auto simp: raw_entries_ok_def sorted_wrt_append)
    qed (use False 2(6,7) ok in auto)
  qed
qed simp

lemma parsePolicyMap_ok: "parsePolicyMap data = Inr es \<Longrightarrow> raw_entries_ok es"
proof -
  assume "parsePolicyMap data = Inr es"
  then have "parsePolicyLines 2 [] [] (tl (splitOn LF (crlfToLf data))) = Inr es"
    by (auto simp: parsePolicyMap_def Let_def split: if_splits)
  then show ?thesis by (rule parsePolicyLines_ok) (simp_all add: raw_entries_ok_def)
qed

section \<open>Printing and parsing back\<close>

text \<open>
  The assignment line as \<^verbatim>\<open>mergePolicyMap\<close> of \<^verbatim>\<open>src/internal/cpupoints/editor.go\<close> writes it, and a map
  whose lines are the marker and the assignments.
\<close>

definition printEntry :: "string \<Rightarrow> nat \<Rightarrow> string" where
  "printEntry username points = username @ CHR ''='' # formatUint points"

definition printPolicyMap :: "raw_policy_entry list \<Rightarrow> string" where
  "printPolicyMap es =
     joinWith LF (PolicyMapMarker # map (\<lambda>e. printEntry (re_username e) (unat (cgp (re_points e)))) es)"

text \<open>A name of graphic ASCII characters without an equals sign that does not open a comment.\<close>

definition plainUsername :: "string \<Rightarrow> bool" where
  "plainUsername u \<longleftrightarrow> u \<noteq> [] \<and> list_all (\<lambda>c. graphic c \<and> c \<noteq> CHR ''='') u \<and> hd u \<noteq> CHR ''#''"

lemma parseConfiguredGuarantee_format:
  assumes "wf_guarantee g"
  shows "parseConfiguredGuarantee (formatUint (unat (cgp g))) = Inr g"
proof -
  let ?n = "unat (cgp g)"
  have n: "1 \<le> ?n" "?n \<le> 1000" using assms by (auto simp: wf_guarantee_def)
  define w :: u64 where "w = of_nat ?n"
  have w: "unat w = ?n" unfolding w_def using n by (intro unat_of_nat_u64) simp
  have "NewConfiguredGuaranteePoints w = Inr (ConfiguredGuaranteePoints (u16_of_u64 w))"
    using n w by (simp add: NewConfiguredGuaranteePoints_Inr)
  moreover have "u16_of_u64 w = cgp g" using n w by (simp add: word_unat_eq_iff unat_u16_of_u64)
  moreover have "hd (formatUint ?n) \<noteq> CHR ''0''" using n by (intro hd_formatUint) simp
  moreover have "parseUint 64 (formatUint ?n) = Some ?n" using n by (intro parseUint_formatUint) simp
  ultimately show ?thesis unfolding w_def by (simp only: parseConfiguredGuarantee_def) simp
qed

lemma formatUint_graphic: "list_all graphic (formatUint n)"
  using digits_formatUint by (rule list.pred_mono_strong) (rule digit_graphic)

lemma plainUsername_graphic: "plainUsername u \<Longrightarrow> list_all graphic u"
  by (auto simp: plainUsername_def list_all_iff)

lemma printEntry_graphic: "plainUsername u \<Longrightarrow> list_all graphic (printEntry u n)"
  by (simp add: printEntry_def plainUsername_graphic formatUint_graphic)
    (simp add: graphic_def byte_of_def)

lemma marker_graphic: "list_all graphic PolicyMapMarker"
  by (simp add: PolicyMapMarker_def graphic_def byte_of_def)

lemma marker_no_equals: "CHR ''='' \<notin> set PolicyMapMarker"
  by (simp add: PolicyMapMarker_def)

lemma equals_not_digit: "\<not> is_digit (CHR ''='')"
  by (simp add: is_digit_def byte_of_def)

lemma parseAssignment_print:
  assumes "plainUsername u" "wf_guarantee g" "map_of seen u = None" "n < MaximumPolicyMapEntries"
  shows "parseAssignment seen n k (printEntry u (unat (cgp g)))
         = Inr \<lparr>re_username = u, re_points = g, re_line = k\<rparr>"
proof -
  let ?d = "formatUint (unat (cgp g))"
  have eq: "CHR ''='' \<notin> set u" "u \<noteq> []" using assms(1) by (auto simp: plainUsername_def list_all_iff)
  have d: "CHR ''='' \<notin> set ?d" using digits_formatUint equals_not_digit by (metis list_all_iff)
  have pads: "\<not> isPadded u" "\<not> isPadded ?d" "\<not> isPadded (printEntry u (unat (cgp g)))"
    by (intro isPadded_graphic plainUsername_graphic printEntry_graphic formatUint_graphic assms(1))+
  have "printEntry u (unat (cgp g)) \<noteq> PolicyMapMarker"
    using marker_no_equals by (metis in_set_conv_decomp printEntry_def)
  with eq d pads assms parseConfiguredGuarantee_format [OF assms(2)] show ?thesis
    by (simp add: parseAssignment_def printEntry_def)
qed

lemma parsePolicyLines_print:
  assumes "list_all (\<lambda>e. plainUsername (re_username e) \<and> wf_guarantee (re_points e)) es"
    and "distinct (map re_username es)" "\<forall>e \<in> set es. map_of seen (re_username e) = None"
    and "length acc + length es \<le> MaximumPolicyMapEntries" "map re_line es = [k..<k + length es]"
  shows "parsePolicyLines k seen acc
           (map (\<lambda>e. printEntry (re_username e) (unat (cgp (re_points e)))) es) = Inr (acc @ es)"
  using assms
proof (induction es arbitrary: k seen acc)
  case (Cons e es)
  have e: "plainUsername (re_username e)" "wf_guarantee (re_points e)" "map_of seen (re_username e) = None"
    using Cons(2,4) by auto
  let ?l = "printEntry (re_username e) (unat (cgp (re_points e)))"
  have line: "?l \<noteq> []" "\<not> containsControlRune ?l" "\<not> hasPrefix ?l ''#''"
    using e(1) containsControlRune_graphic [OF printEntry_graphic [OF e(1)]]
    by (auto simp: printEntry_def plainUsername_def neq_Nil_conv)
  have k: "re_line e = k" "map re_line es = [Suc k..<Suc k + length es]"
    using Cons(6) by (auto simp: upt_conv_Cons simp del: upt_Suc)
  have "parseAssignment seen (length acc) k ?l = Inr e"
    using parseAssignment_print [OF e, of "length acc" k] Cons(5) k(1) by (cases e) auto
  then have "parsePolicyLines k seen acc (map (\<lambda>e. printEntry (re_username e) (unat (cgp (re_points e)))) (e # es))
      = parsePolicyLines (Suc k) (AList.update (re_username e) k seen) (acc @ [e])
          (map (\<lambda>e. printEntry (re_username e) (unat (cgp (re_points e)))) es)"
    using line by simp
  also have "\<dots> = Inr ((acc @ [e]) @ es)"
    using Cons(2-5) k(2) by (intro Cons.IH) (auto simp: image_iff)
  finally show ?case by simp
qed simp

lemma print_bytes:
  assumes "list_all (\<lambda>e. plainUsername (re_username e)) es" "c \<in> set (printPolicyMap es)"
  shows "byte_of c = 10 \<or> graphic c"
proof -
  let ?ls = "PolicyMapMarker # map (\<lambda>e. printEntry (re_username e) (unat (cgp (re_points e)))) es"
  from assms(2) have "c = LF \<or> (\<exists>l \<in> set ?ls. c \<in> set l)"
    using set_joinWith [of LF ?ls] unfolding printPolicyMap_def by blast
  then show ?thesis using printEntry_graphic marker_graphic assms(1) by (auto simp: list_all_iff)
qed

lemma parse_printPolicyMap:
  assumes "list_all (\<lambda>e. plainUsername (re_username e) \<and> wf_guarantee (re_points e)) es"
    and "distinct (map re_username es)" "length es \<le> MaximumPolicyMapEntries"
    and "map re_line es = [2..<2 + length es]" "length (printPolicyMap es) \<le> MaximumPolicyMapBytes"
  shows "parsePolicyMap (printPolicyMap es) = Inr es"
proof -
  let ?ls = "PolicyMapMarker # map (\<lambda>e. printEntry (re_username e) (unat (cgp (re_points e)))) es"
  have plain: "list_all (\<lambda>e. plainUsername (re_username e)) es" using assms(1) by (auto simp: list_all_iff)
  have bytes: "byte_of c = 10 \<or> 32 < byte_of c \<and> byte_of c < 127" if "c \<in> set (printPolicyMap es)" for c
    using print_bytes [OF plain that] by (simp add: graphic_def)
  have cr: "CR \<notin> set (printPolicyMap es)" "no_cr (printPolicyMap es)"
    using bytes [of CR] bytes by (fastforce simp: no_cr_def list_all_iff)+
  have utf8: "utf8Valid (printPolicyMap es)"
    using bytes by (intro utf8Valid_ascii) (fastforce simp: list_all_iff)
  have bom: "\<not> containsSub (printPolicyMap es) utf8BOM"
    using bytes [of "char_of (239::nat)"] containsSub_head [of "printPolicyMap es" "char_of (239::nat)"]
    by (auto simp: utf8BOM_def byte_of_def)
  have "\<forall>l \<in> set ?ls. LF \<notin> set l"
  proof
    fix l assume "l \<in> set ?ls"
    then have "list_all graphic l" using plain printEntry_graphic marker_graphic
      by (auto simp: list_all_iff)
    then have "\<forall>c \<in> set l. byte_of c \<noteq> 10" by (auto simp: list_all_iff graphic_def)
    then show "LF \<notin> set l" using byte_LF by blast
  qed
  then have lines: "splitOn LF (printPolicyMap es) = ?ls"
    unfolding printPolicyMap_def by (intro split_joinWith) auto
  show ?thesis
    using assms cr utf8 bom lines parsePolicyLines_print [of es "[]" "[]" 2]
    by (simp add: parsePolicyMap_def Let_def)
qed

section \<open>Lemmas on snapshots\<close>

lemma raw_points_bound:
  assumes "list_all raw_entry_ok es"
  shows "raw_points es \<le> 1000 * length es"
  using assms by (induction es) (auto simp: raw_points_def raw_entry_ok_def wf_guarantee_def)

lemma configuredTotalOf_fold:
  assumes "list_all raw_entry_ok es" "unat acc + 1000 * length es \<le> maxUint64"
  shows "unat (foldl (\<lambda>acc raw. acc + ConfiguredGuaranteePoints_Value (re_points raw)) acc es)
         = unat acc + raw_points es"
  using assms
proof (induction es arbitrary: acc)
  case (Cons e es)
  have e: "unat (cgp (re_points e)) \<le> 1000" using Cons(2) by (simp add: raw_entry_ok_def wf_guarantee_def)
  have step: "unat (acc + ConfiguredGuaranteePoints_Value (re_points e)) = unat acc + unat (cgp (re_points e))"
    using Cons(3) e by (subst unat_add_u64) (auto simp: ConfiguredGuaranteePoints_Value_def)
  show ?case using Cons.IH [of "acc + ConfiguredGuaranteePoints_Value (re_points e)"] Cons(2,3) e step
    by (simp add: raw_points_def)
qed (simp add: raw_points_def)

lemma unat_configuredTotalOf: "raw_entries_ok es \<Longrightarrow> unat (configuredTotalOf es) = raw_points es"
  unfolding configuredTotalOf_def
  by (subst configuredTotalOf_fold) (auto simp: raw_entries_ok_def MaximumPolicyMapEntries_def)

lemma resolveEntry_Inr:
  "resolveEntry resolver byUID raw = Inr g \<Longrightarrow>
     ug_username g = re_username raw \<and> ug_points g = re_points raw \<and> ug_line g = re_line raw
     \<and> 0 < ug_uid g \<and> map_of byUID (ug_uid g) = None"
  by (auto simp: resolveEntry_def Let_def split: sum.splits if_splits option.splits)

lemma resolveEntries_Inr:
  assumes "resolveEntries resolver gs byUID raws = Inr (gs', byUID')"
    and "map_of byUID = map_of (map (\<lambda>g. (ug_uid g, g)) gs)" "distinct (map ug_uid gs)"
  shows "\<exists>hs. gs' = gs @ hs \<and> map ug_username hs = map re_username raws
    \<and> map ug_points hs = map re_points raws \<and> (\<forall>h \<in> set hs. 0 < ug_uid h)
    \<and> distinct (map ug_uid gs') \<and> map_of byUID' = map_of (map (\<lambda>g. (ug_uid g, g)) gs')"
  using assms
proof (induction resolver gs byUID raws rule: resolveEntries.induct)
  case (2 resolver gs byUID raw raws)
  from 2(2) obtain g where g: "resolveEntry resolver byUID raw = Inr g" by (auto split: sum.splits)
  note ok = resolveEntry_Inr [OF g]
  have new: "ug_uid g \<notin> ug_uid ` set gs" using ok 2(3) by (simp add: map_of_keyed_None)
  have map: "map_of (AList.update (ug_uid g) g byUID) = map_of (map (\<lambda>g. (ug_uid g, g)) (gs @ [g]))"
    using 2(3) map_of_keyed_snoc [where f = "\<lambda>g. g", OF new] by (simp only: map_of_update)
  from 2(1) [OF g _ map] 2(2,4) g new obtain hs where
    "gs' = (gs @ [g]) @ hs" "map ug_username hs = map re_username raws"
    "map ug_points hs = map re_points raws" "\<forall>h \<in> set hs. 0 < ug_uid h" "distinct (map ug_uid gs')"
    "map_of byUID' = map_of (map (\<lambda>g. (ug_uid g, g)) gs')"
    by auto
  with ok show ?case by (intro exI [of _ "g # hs"]) auto
qed simp

lemma resolved_points:
  "map ug_points hs = map re_points raws \<Longrightarrow> guaranteed_points hs = raw_points raws"
proof -
  assume eq: "map ug_points hs = map re_points raws"
  have "guaranteed_points hs = sum_list (map (\<lambda>p. unat (cgp p)) (map ug_points hs))"
    by (simp add: guaranteed_points_def comp_def)
  also have "\<dots> = raw_points raws" by (simp only: eq) (simp add: raw_points_def comp_def)
  finally show ?thesis .
qed

lemma unat_sum3:
  assumes "unat a \<le> 998000" "unat (b::u16) \<le> 1000" "unat (c::u16) \<le> 1000"
  shows "unat (a + u64_of_u16 b + u64_of_u16 c) = unat a + unat b + unat c"
  using assms by (simp add: unat_add_u64)

lemma loadContent_wf: "loadContent inputs data source resolver = Inr s \<Longrightarrow> wf_snapshot s"
proof -
  assume load: "loadContent inputs data source resolver = Inr s"
  then obtain reserve bestEffort rootPts raws entries byUID totalPts where
    r: "NewReservePoints (ReservePoints_Value (in_Reserve inputs)) = Inr reserve" and
    b: "NewBestEffortPoints (BestEffortPoints_Value (in_BestEffort inputs)) = Inr bestEffort" and
    t: "NewRootPoints (RootPoints_Value (in_Root inputs)) = Inr rootPts" and
    raws: "parsePolicyMap data = Inr raws" and
    fit: "\<not> configuredTotalOf raws + RootPoints_Value rootPts + BestEffortPoints_Value bestEffort
          > ParentPoolPoints_Value (ReservePoints_ParentPool reserve)" and
    res: "resolveEntries resolver [] [] raws = Inr (entries, byUID)" and
    tot: "NewConfiguredGuaranteeTotalPoints (configuredTotalOf raws) = Inr totalPts" and
    s: "s = \<lparr>sn_reserve = reserve, sn_pool = ReservePoints_ParentPool reserve, sn_root = rootPts,
             sn_bestEffort = bestEffort, sn_configuredTotal = totalPts, sn_entries = entries,
             sn_guaranteesByUID = byUID, sn_source = source\<rparr>"
    by (auto simp: loadContent_def Let_def split: sum.splits if_splits prod.splits)
  note wf = New_wf(1) [OF r] New_wf(2) [OF b] New_wf(3) [OF t]
  have ok: "raw_entries_ok raws" by (rule parsePolicyMap_ok [OF raws])
  from resolveEntries_Inr [OF res] have ents: "map ug_username entries = map re_username raws"
    "map ug_points entries = map re_points raws" "\<forall>h \<in> set entries. 0 < ug_uid h"
    "distinct (map ug_uid entries)" "map_of byUID = map_of (map (\<lambda>g. (ug_uid g, g)) entries)" by auto
  have pts: "guaranteed_points entries = raw_points raws" by (rule resolved_points [OF ents(2)])
  have conf: "unat (configuredTotalOf raws) = raw_points raws" by (rule unat_configuredTotalOf [OF ok])
  have le: "raw_points raws \<le> 998000"
    using raw_points_bound [of raws] ok by (simp add: raw_entries_ok_def MaximumPolicyMapEntries_def)
  have sum: "raw_points raws + unat (rtp rootPts) + unat (bep bestEffort)
      \<le> unat (pool (ReservePoints_ParentPool reserve))"
    using fit le wf conf
    by (simp add: points_Value_defs word_less_nat_alt wf_points_defs unat_sum3)
  have g: "\<forall>g \<in> set entries. wf_guarantee (ug_points g)"
  proof
    fix g assume "g \<in> set entries"
    then have "ug_points g \<in> set (map re_points raws)" by (metis ents(2) imageI set_map)
    then show "wf_guarantee (ug_points g)" using ok
      by (auto simp: raw_entries_ok_def list_all_iff raw_entry_ok_def)
  qed
  show ?thesis using wf ents sum pts g ok tot conf
    by (simp add: wf_snapshot_def s New_Inr unat_simps list_all_iff raw_entries_ok_def)
qed

lemma NewEmptyPolicySnapshot_wf:
  assumes "NewEmptyPolicySnapshot reserve rootPts bestEffort = Inr s"
    and "wf_reserve reserve" "wf_root rootPts" "wf_best_effort bestEffort"
  shows "wf_snapshot s"
  using assms unat_sum3 [of 0 "rtp rootPts" "bep bestEffort"]
  by (auto simp: NewEmptyPolicySnapshot_def Let_def wf_snapshot_def New_Inr points_Value_defs
    guaranteed_points_def wf_points_defs word_less_nat_alt u16_of_u64_def split: if_splits sum.splits)

section \<open>The interface the planner relies on\<close>

text \<open>
  What a client may assume of a policy: entitlements are between 1 and 1000 points, no user has two
  guarantees, root has none, and the guarantees, root and best effort together fit in the pool.
\<close>

locale entitlement_policy =
  fixes inv :: "'s \<Rightarrow> bool"
    and rootPoints :: "'s \<Rightarrow> nat"
    and bestEffortPoints :: "'s \<Rightarrow> nat"
    and poolPoints :: "'s \<Rightarrow> nat"
    and guarantees :: "'s \<Rightarrow> (int \<times> nat) list"
  assumes root_range: "inv s \<Longrightarrow> 1 \<le> rootPoints s \<and> rootPoints s \<le> 1000"
    and best_effort_range: "inv s \<Longrightarrow> 1 \<le> bestEffortPoints s \<and> bestEffortPoints s \<le> 1000"
    and guarantee_range: "inv s \<Longrightarrow> (u, g) \<in> set (guarantees s) \<Longrightarrow> 1 \<le> g \<and> g \<le> 1000 \<and> 0 < u"
    and guarantee_distinct: "inv s \<Longrightarrow> distinct (map fst (guarantees s))"
    and no_overcommit: "inv s \<Longrightarrow>
          sum_list (map snd (guarantees s)) + rootPoints s + bestEffortPoints s \<le> poolPoints s"
begin

lemma entitlement_bounds:
  assumes "inv s"
  defines "m \<equiv> foldl max (max (rootPoints s) (bestEffortPoints s)) (map snd (guarantees s))"
  shows "1 \<le> m" and "m \<le> 1000" and "rootPoints s \<le> m" and "bestEffortPoints s \<le> m"
    and "(u, g) \<in> set (guarantees s) \<Longrightarrow> g \<le> m"
proof -
  have acc: "a \<le> foldl max a xs" for a :: nat and xs by (induction xs arbitrary: a) (auto, meson max.boundedE)
  have mem: "x \<in> set xs \<Longrightarrow> x \<le> foldl max a xs" for a x :: nat and xs
    by (induction xs arbitrary: a) (auto intro: order_trans [OF _ acc])
  have upper: "a \<le> b \<Longrightarrow> \<forall>x \<in> set xs. x \<le> b \<Longrightarrow> foldl max a xs \<le> b" for a b :: nat and xs
    by (induction xs arbitrary: a) auto
  show "rootPoints s \<le> m" "bestEffortPoints s \<le> m"
    unfolding m_def by (rule order_trans [OF _ acc], simp)+
  then show "1 \<le> m" using root_range [OF assms(1)] by simp
  show "m \<le> 1000" unfolding m_def
    using root_range [OF assms(1)] best_effort_range [OF assms(1)] guarantee_range [OF assms(1)]
    by (intro upper) force+
  show "(u, g) \<in> set (guarantees s) \<Longrightarrow> g \<le> m" unfolding m_def by (intro mem) force
qed

text \<open>Distinct users never hold more than the guarantees the policy configures.\<close>

lemma guaranteed_users_total:
  assumes "inv s" "distinct us"
  shows "(\<Sum>u\<leftarrow>us. case map_of (guarantees s) u of Some g \<Rightarrow> g | None \<Rightarrow> 0) \<le> sum_list (map snd (guarantees s))"
proof -
  let ?f = "\<lambda>u. case map_of (guarantees s) u of Some g \<Rightarrow> g | None \<Rightarrow> 0"
  have "(\<Sum>u\<leftarrow>us. ?f u) = (\<Sum>u \<in> set us. ?f u)" using assms(2) by (simp add: sum_list_distinct_conv_sum_set)
  also have "\<dots> = (\<Sum>u \<in> set us \<inter> fst ` set (guarantees s). ?f u)"
    by (intro sum.mono_neutral_right) (force split: option.splits dest: map_of_SomeD)+
  also have "\<dots> \<le> (\<Sum>u \<in> fst ` set (guarantees s). ?f u)" by (intro sum_mono2) auto
  also have "\<dots> = sum_list (map ?f (map fst (guarantees s)))"
    using guarantee_distinct [OF assms(1)] by (simp only: sum_list_distinct_conv_sum_set set_map)
  also have "map ?f (map fst (guarantees s)) = map snd (guarantees s)"
    using guarantee_distinct [OF assms(1)] by (auto simp: comp_def intro!: map_cong)
  finally show ?thesis .
qed

end

definition guarantee_list :: "policy_snapshot \<Rightarrow> (int \<times> nat) list" where
  "guarantee_list s = map (\<lambda>g. (ug_uid g, unat (cgp (ug_points g)))) (sn_entries s)"

interpretation snap: entitlement_policy wf_snapshot "\<lambda>s. unat (rtp (sn_root s))"
    "\<lambda>s. unat (bep (sn_bestEffort s))" "\<lambda>s. unat (pool (sn_pool s))" guarantee_list
  by unfold_locales
    (auto simp: wf_snapshot_def wf_points_defs guarantee_list_def guaranteed_points_def list_all_iff comp_def)

lemma GuaranteeForUID_guarantee_list:
  assumes "wf_snapshot s"
  shows "map_of (guarantee_list s) u = map_option (\<lambda>g. unat (cgp (ug_points g))) (GuaranteeForUID s u)"
proof -
  have "map_of (map (\<lambda>g. (ug_uid g, unat (cgp (ug_points g)))) gs) u
      = map_option (\<lambda>g. unat (cgp (ug_points g))) (map_of (map (\<lambda>g. (ug_uid g, g)) gs) u)"
    for gs :: "user_guarantee list"
    by (induction gs) auto
  then show ?thesis using assms by (simp add: guarantee_list_def GuaranteeForUID_def wf_snapshot_def)
qed

lemma GuaranteeForUID_wf:
  assumes "wf_snapshot s" "GuaranteeForUID s u = Some g"
  shows "wf_guarantee (ug_points g)" "0 < u" "ug_uid g = u"
  using assms by (auto simp: wf_snapshot_def GuaranteeForUID_def list_all_iff dest!: map_of_SomeD)

lemma no_cr_CR: "no_cr s \<longleftrightarrow> CR \<notin> set s"
proof -
  have "byte_of c = 13 \<longleftrightarrow> c = CR" for c by (metis byte_CR byte_of_inj)
  then show ?thesis by (auto simp: no_cr_def list_all_iff)
qed

lemma ascii_no_bom: "list_all (\<lambda>c. byte_of c < 128) s \<Longrightarrow> \<not> containsSub s utf8BOM"
proof
  assume ascii: "list_all (\<lambda>c. byte_of c < 128) s" and bom: "containsSub s utf8BOM"
  from bom have "char_of (239::nat) \<in> set s" by (simp add: utf8BOM_def containsSub_head)
  with ascii have "byte_of (char_of (239::nat)) < 128" by (simp only: list_all_iff)
  then show False by (simp add: byte_of_def)
qed

section \<open>Properties\<close>

text \<open>A small policy map, its inputs and an NSS database for the witnesses.\<close>

definition sampleEntries :: "raw_policy_entry list" where
  "sampleEntries =
     [\<lparr>re_username = ''alice'', re_points = ConfiguredGuaranteePoints 400, re_line = 2\<rparr>,
      \<lparr>re_username = ''bob'', re_points = ConfiguredGuaranteePoints 100, re_line = 3\<rparr>]"

definition sampleInputs :: policy_inputs where
  "sampleInputs =
     \<lparr>in_Reserve = ReservePoints 100, in_Root = RootPoints 50, in_BestEffort = BestEffortPoints 100,
      in_MapPath = PolicyMapPath ''/etc/resman/points''\<rparr>"

definition sampleNSS :: identity_resolver where
  "sampleNSS u =
     (if u = ''alice'' then Inr [\<lparr>id_Username = ''alice'', id_UID = 1000\<rparr>]
      else if u = ''bob'' then Inr [\<lparr>id_Username = ''bob'', id_UID = 1001\<rparr>] else Inr [])"

lemma sampleEntries_printable:
  "list_all (\<lambda>e. plainUsername (re_username e) \<and> wf_guarantee (re_points e)) sampleEntries"
  "distinct (map re_username sampleEntries)" "length sampleEntries \<le> MaximumPolicyMapEntries"
  "map re_line sampleEntries = [2..<2 + length sampleEntries]"
  "length (printPolicyMap sampleEntries) \<le> MaximumPolicyMapBytes"
  by (simp_all add: sampleEntries_def plainUsername_def graphic_def byte_of_def wf_points_defs upt_rec
    printPolicyMap_def printEntry_def PolicyMapMarker_def MaximumPolicyMapBytes_def MaximumPolicyMapEntries_def
    formatUint.simps)

lemma sample_parse: "parsePolicyMap (printPolicyMap sampleEntries) = Inr sampleEntries"
  by (rule parse_printPolicyMap [OF sampleEntries_printable])

lemma sample_path: "NewPolicyMapPath ''/etc/resman/points'' = Inr (PolicyMapPath ''/etc/resman/points'')"
proof -
  have ascii: "list_all graphic ''/etc/resman/points''" by (simp add: graphic_def byte_of_def)
  have "utf8Valid ''/etc/resman/points''" by (rule utf8Valid_ascii) (simp add: byte_of_def)
  then show ?thesis using isPadded_graphic [OF ascii] containsControlRune_graphic [OF ascii]
    by (simp add: NewPolicyMapPath_def isAbsPath_def isCleanAbsPath_def)
qed

lemma sample_load:
  "\<exists>s. LoadContent (\<lambda>_. []) sampleInputs (printPolicyMap sampleEntries) sampleNSS = Inr s
     \<and> map ug_uid (sn_entries s) = [1000, 1001]"
proof -
  note defs = validateRange_def points_Value_defs u64_of_u16_def u16_of_u64_def cpu_points_constants
  have inputs: "NewReservePoints (ReservePoints_Value (in_Reserve sampleInputs)) = Inr (ReservePoints 100)"
    "NewBestEffortPoints (BestEffortPoints_Value (in_BestEffort sampleInputs)) = Inr (BestEffortPoints 100)"
    "NewRootPoints (RootPoints_Value (in_Root sampleInputs)) = Inr (RootPoints 50)"
    "path_of (in_MapPath sampleInputs) = ''/etc/resman/points''"
    by (simp_all add: sampleInputs_def NewReservePoints_def NewBestEffortPoints_def NewRootPoints_def defs)
  have totalPts: "configuredTotalOf sampleEntries = 500"
    "NewConfiguredGuaranteeTotalPoints 500 = Inr (ConfiguredGuaranteeTotalPoints 500)"
    by (simp_all add: sampleEntries_def configuredTotalOf_def NewConfiguredGuaranteeTotalPoints_def defs)
  have "\<exists>gs byUID. resolveEntries sampleNSS [] [] sampleEntries = Inr (gs, byUID) \<and> map ug_uid gs = [1000, 1001]"
    by (simp add: sampleEntries_def sampleNSS_def resolveEntry_def Let_def)
  moreover have "\<not> 500 + RootPoints_Value (RootPoints 50) + BestEffortPoints_Value (BestEffortPoints 100)
      > ParentPoolPoints_Value (ReservePoints_ParentPool (ReservePoints 100))"
    by (simp add: ReservePoints_ParentPool_def defs)
  ultimately show ?thesis
    by (auto simp: LoadContent_def loadContent_def inputs sample_path sample_parse totalPts Let_def)
qed

text \<open>
  Every snapshot that loading a policy map returns is well formed: all points are in
  range, usernames and UIDs occur once, no guarantee belongs to root, the lookup by UID agrees with
  the entries, the configured total is their sum, and guarantees, root and best effort together
  fit in the pool left by the reserve.
\<close>

theorem loaded_policy_wf:
  assumes "LoadContent sha256 inputs data resolver = Inr s"
  shows "wf_snapshot s \<and> ps_size (sn_source s) = int (length data) \<and> ps_digest (sn_source s) = sha256 data
    \<and> NewPolicyMapPath (path_of (in_MapPath inputs)) = Inr (ps_path (sn_source s))"
proof -
  from assms obtain mapPath where p: "NewPolicyMapPath (path_of (in_MapPath inputs)) = Inr mapPath"
    and l: "loadContent inputs data \<lparr>ps_path = mapPath, ps_dev = 0, ps_inode = 0,
      ps_size = int (length data), ps_digest = sha256 data\<rparr> resolver = Inr s"
    by (auto simp: LoadContent_def split: sum.splits)
  from l have "sn_source s = \<lparr>ps_path = mapPath, ps_dev = 0, ps_inode = 0,
      ps_size = int (length data), ps_digest = sha256 data\<rparr>"
    by (auto simp: loadContent_def Let_def split: sum.splits if_splits prod.splits)
  with p loadContent_wf [OF l] show ?thesis by simp
qed

theorem loaded_policy_wf_witness:
  "\<exists>s. LoadContent (\<lambda>_. []) sampleInputs (printPolicyMap sampleEntries) sampleNSS = Inr s
     \<and> map ug_uid (sn_entries s) = [1000, 1001] \<and> wf_snapshot s"
proof -
  from sample_load obtain s where
    s: "LoadContent (\<lambda>_. []) sampleInputs (printPolicyMap sampleEntries) sampleNSS = Inr s"
      "map ug_uid (sn_entries s) = [1000, 1001]"
    by (elim exE conjE)
  from loaded_policy_wf [OF s(1)] have "wf_snapshot s" by (rule conjunct1)
  with s show ?thesis by (intro exI conjI)
qed

text \<open>
  Entries with plain usernames and legal points that are printed as a policy map,
  within the size and entry limits, are parsed back as they were, with their line numbers.
\<close>

theorem policy_map_round_trip:
  assumes "list_all (\<lambda>e. plainUsername (re_username e) \<and> wf_guarantee (re_points e)) es"
    and "distinct (map re_username es)" "length es \<le> MaximumPolicyMapEntries"
    and "map re_line es = [2..<2 + length es]" "length (printPolicyMap es) \<le> MaximumPolicyMapBytes"
  shows "parsePolicyMap (printPolicyMap es) = Inr es"
  by (rule parse_printPolicyMap [OF assms])

theorem policy_map_round_trip_witness:
  "parsePolicyMap (printPolicyMap sampleEntries) = Inr sampleEntries"
  by (rule policy_map_round_trip [OF sampleEntries_printable])

end
