(* ===== verification/CpuPoints_FlatPlan.thy ===== *)
theory CpuPoints_FlatPlan
  imports CpuPoints_Policy
begin

text \<open>
  The flat-topology planner (\<^verbatim>\<open>src/internal/cpupoints/flat_plan.go\<close>): from a policy snapshot, the
  online-CPU count and the active user slices it computes the parent quota and one exact kernel
  weight per slice, or a bounded error. The lemmas show when a plan exists and that its weights are
  legal, exact for root and guaranteed users, an exact partition for best-effort users, and
  together within the pool.
\<close>

section \<open>Data\<close>

datatype flat_plan_reason =
    FlatPlanInvalidParticipant
  | FlatPlanDuplicateUID
  | FlatPlanBestEffortCardinality
  | FlatPlanCapacityUnrepresentable

record flat_plan_error =
  fe_Reason :: flat_plan_reason
  fe_UID :: int
  fe_ActiveBestEffortSlices :: u64
  fe_AggregateWeight :: u64
  fe_MaximumScale :: u64
  fe_Cause :: "points_error option"

text \<open>An error return, or Go's run-time panic on an integer division by zero.\<close>

datatype flat_plan_failure = FlatPlanFailed flat_plan_error | IntegerDivideByZero

record active_user_slice =
  au_UID :: int
  au_Eligible :: bool

datatype flat_allocation_class =
    FlatAllocationRoot | FlatAllocationGuaranteed | FlatAllocationBestEffort

record flat_slice_plan =
  fs_uid :: int
  fs_eligible :: bool
  fs_mapped :: bool
  fs_class :: flat_allocation_class
  fs_configuredGuarantee :: u64
  fs_weight :: kernel_cpu_weight

record flat_plan =
  fp_parentQuota :: parent_quota
  fp_scale :: u64
  fp_bestEffortAggregateWeight :: kernel_cpu_weight
  fp_slices :: "flat_slice_plan list"

section \<open>Operations\<close>

definition flatPlanError :: "flat_plan_reason \<Rightarrow> int \<Rightarrow> points_error option \<Rightarrow> flat_plan_failure" where
  "flatPlanError reason uid cause =
     FlatPlanFailed \<lparr>fe_Reason = reason, fe_UID = uid, fe_ActiveBestEffortSlices = 0,
       fe_AggregateWeight = 0, fe_MaximumScale = 0, fe_Cause = cause\<rparr>"

definition maxExactEntitlement :: "policy_snapshot \<Rightarrow> u64" where
  "maxExactEntitlement policy =
     foldl (\<lambda>maximum g. if ConfiguredGuaranteePoints_Value (ug_points g) > maximum
                        then ConfiguredGuaranteePoints_Value (ug_points g) else maximum)
       (if BestEffortPoints_Value (sn_bestEffort policy) > RootPoints_Value (sn_root policy)
        then BestEffortPoints_Value (sn_bestEffort policy) else RootPoints_Value (sn_root policy))
       (sn_entries policy)"

text \<open>The loop that rejects negative and repeated UIDs.\<close>

fun checkParticipants :: "int list \<Rightarrow> active_user_slice list \<Rightarrow> (flat_plan_failure, unit) res" where
  "checkParticipants seen [] = Inr ()"
| "checkParticipants seen (p # ps) =
     (if au_UID p < 0 then Inl (flatPlanError FlatPlanInvalidParticipant (au_UID p) None)
      else if au_UID p \<in> set seen then Inl (flatPlanError FlatPlanDuplicateUID (au_UID p) None)
      else checkParticipants (au_UID p # seen) ps)"

text \<open>The loop that counts the slices of the best-effort class.\<close>

definition countBestEffort :: "policy_snapshot \<Rightarrow> active_user_slice list \<Rightarrow> u64" where
  "countBestEffort policy participants =
     foldl (\<lambda>n p. if au_UID p = 0 then n
                  else if GuaranteeForUID policy (au_UID p) = None \<or> \<not> au_Eligible p then n + 1 else n)
       0 participants"

text \<open>
  The switch of the planning loop: class, weight and next \<^verbatim>\<open>bestEffortIndex\<close> of one slice whose
  configured guarantee, if any, is \<open>configured\<close>.
\<close>

definition sliceClassWeight ::
    "policy_snapshot \<Rightarrow> u64 \<Rightarrow> u64 \<Rightarrow> u64 \<Rightarrow> u64 \<Rightarrow> active_user_slice \<Rightarrow> bool \<Rightarrow> u64 \<Rightarrow>
     flat_allocation_class \<times> u64 \<times> u64" where
  "sliceClassWeight policy scale base remainder index p mapped configured =
     (if au_UID p = 0
      then (FlatAllocationRoot, RootPoints_Value (sn_root policy) * scale, index)
      else if mapped \<and> au_Eligible p
      then (FlatAllocationGuaranteed, configured * scale, index)
      else (FlatAllocationBestEffort, (if index < remainder then base + 1 else base), index + 1))"

text \<open>The loop that assigns a class and a weight to every slice.\<close>

fun planSlices ::
    "policy_snapshot \<Rightarrow> u64 \<Rightarrow> u64 \<Rightarrow> u64 \<Rightarrow> u64 \<Rightarrow> active_user_slice list \<Rightarrow>
     (flat_plan_failure, flat_slice_plan list) res" where
  "planSlices policy scale base remainder index [] = Inr []"
| "planSlices policy scale base remainder index (p # ps) =
     (let guarantee = GuaranteeForUID policy (au_UID p);
          mapped = guarantee \<noteq> None;
          configured = (case guarantee of Some g \<Rightarrow> ConfiguredGuaranteePoints_Value (ug_points g) | None \<Rightarrow> 0);
          (cls, weight, index') = sliceClassWeight policy scale base remainder index p mapped configured
      in (case NewKernelCPUWeight (int_of_u64 weight) of
            Inl e \<Rightarrow> Inl (flatPlanError FlatPlanCapacityUnrepresentable (au_UID p) (Some e))
          | Inr w \<Rightarrow>
              (case planSlices policy scale base remainder index' ps of
                 Inl e \<Rightarrow> Inl e
               | Inr slices \<Rightarrow>
                   Inr (\<lparr>fs_uid = au_UID p, fs_eligible = au_Eligible p, fs_mapped = mapped, fs_class = cls,
                         fs_configuredGuarantee = configured, fs_weight = w\<rparr> # slices))))"

definition PlanFlatTopology ::
    "policy_snapshot \<Rightarrow> online_cpu_count \<Rightarrow> active_user_slice list \<Rightarrow> (flat_plan_failure, flat_plan) res" where
  "PlanFlatTopology policy onlineCPUs active =
     (case PlanParentQuota onlineCPUs (sn_pool policy) of
        Inl e \<Rightarrow> Inl (flatPlanError FlatPlanCapacityUnrepresentable 0 (Some e))
      | Inr quota \<Rightarrow>
     (let participants = sort_key au_UID active in
      case checkParticipants [] participants of
        Inl e \<Rightarrow> Inl e
      | Inr _ \<Rightarrow>
     (if maxExactEntitlement policy = 0 then Inl IntegerDivideByZero
      else
     (let maximumScale = MaximumKernelCPUWeight div maxExactEntitlement policy;
          aggregate = BestEffortPoints_Value (sn_bestEffort policy) * maximumScale;
          n = countBestEffort policy participants
      in if n > aggregate
         then Inl (FlatPlanFailed
                \<lparr>fe_Reason = FlatPlanBestEffortCardinality, fe_UID = 0, fe_ActiveBestEffortSlices = n,
                 fe_AggregateWeight = aggregate, fe_MaximumScale = maximumScale, fe_Cause = None\<rparr>)
         else
           (case NewKernelCPUWeight (int_of_u64 aggregate) of
              Inl e \<Rightarrow> Inl (flatPlanError FlatPlanCapacityUnrepresentable 0 (Some e))
            | Inr aggregateWeight \<Rightarrow>
                (let base = (if n > 0 then aggregate div n else 0);
                     remainder = (if n > 0 then aggregate mod n else 0)
                 in case planSlices policy maximumScale base remainder 0 participants of
                      Inl e \<Rightarrow> Inl e
                    | Inr slices \<Rightarrow>
                        Inr \<lparr>fp_parentQuota = quota, fp_scale = maximumScale,
                             fp_bestEffortAggregateWeight = aggregateWeight, fp_slices = slices\<rparr>))))))"

section \<open>The abstract plan\<close>

text \<open>The class of a slice, and the exact weight of the classes that have one.\<close>

definition isBestEffort :: "policy_snapshot \<Rightarrow> active_user_slice \<Rightarrow> bool" where
  "isBestEffort policy p \<longleftrightarrow> au_UID p \<noteq> 0 \<and> (GuaranteeForUID policy (au_UID p) = None \<or> \<not> au_Eligible p)"

definition classOf :: "policy_snapshot \<Rightarrow> active_user_slice \<Rightarrow> flat_allocation_class" where
  "classOf policy p =
     (if au_UID p = 0 then FlatAllocationRoot
      else if isBestEffort policy p then FlatAllocationBestEffort else FlatAllocationGuaranteed)"

definition guaranteeOf :: "policy_snapshot \<Rightarrow> int \<Rightarrow> nat" where
  "guaranteeOf policy u = (case map_of (guarantee_list policy) u of Some g \<Rightarrow> g | None \<Rightarrow> 0)"

definition entitlementScale :: "policy_snapshot \<Rightarrow> nat" where
  "entitlementScale policy =
     10000 div foldl max (max (unat (rtp (sn_root policy))) (unat (bep (sn_bestEffort policy))))
       (map snd (guarantee_list policy))"

abbreviation weight_of :: "flat_slice_plan \<Rightarrow> nat" where
  "weight_of e \<equiv> unat (kw (fs_weight e))"

definition bestEffortWeights :: "flat_slice_plan list \<Rightarrow> nat list" where
  "bestEffortWeights es = map weight_of (filter (\<lambda>e. fs_class e = FlatAllocationBestEffort) es)"

text \<open>How one planned slice answers the participant it was made for.\<close>

definition slice_matches :: "policy_snapshot \<Rightarrow> active_user_slice \<Rightarrow> flat_slice_plan \<Rightarrow> bool" where
  "slice_matches policy p e \<longleftrightarrow>
     fs_uid e = au_UID p \<and> fs_eligible e = au_Eligible p \<and> fs_class e = classOf policy p
     \<and> fs_mapped e = (GuaranteeForUID policy (au_UID p) \<noteq> None) \<and> wf_weight (fs_weight e)
     \<and> (fs_class e = FlatAllocationRoot \<longrightarrow>
          weight_of e = unat (rtp (sn_root policy)) * entitlementScale policy)
     \<and> (fs_class e = FlatAllocationGuaranteed \<longrightarrow>
          weight_of e = guaranteeOf policy (au_UID p) * entitlementScale policy)"

section \<open>Lemmas\<close>

subsection \<open>An even partition of an integer\<close>

lemma partition_sum:
  "(\<Sum>i\<leftarrow>[k..<k + n]. a + (if i < r then 1 else 0)) = a * n + (min (k + n) r - min k r)" for a r k n :: nat
  by (induction n) (auto simp: algebra_simps min_def)

lemma even_partition_sum:
  assumes "0 < n"
  shows "(\<Sum>i\<leftarrow>[0..<n]. A div n + (if i < A mod n then 1 else 0)) = (A::nat)"
  using partition_sum [of "A div n" "A mod n" 0 n] mod_less_divisor [OF assms, of A]
  by (simp add: min_def)

lemma even_part_le:
  fixes A n :: nat
  assumes "0 < n"
  shows "A div n + (if 0 < A mod n then 1 else 0) \<le> A"
proof -
  have "A div n * 1 \<le> A div n * n" using assms by (intro mult_le_mono) auto
  moreover have "A div n * n + A mod n = A" by simp
  moreover have "(if 0 < A mod n then 1 else 0) \<le> A mod n" by simp
  ultimately show ?thesis by (simp only: mult_1_right)
qed

subsection \<open>The loops\<close>

lemma checkParticipants_Inr:
  "checkParticipants seen ps = Inr u \<longleftrightarrow>
     (\<forall>p \<in> set ps. 0 \<le> au_UID p) \<and> distinct (map au_UID ps) \<and> set seen \<inter> au_UID ` set ps = {}"
  by (induction seen ps rule: checkParticipants.induct) auto

lemma countBestEffort_fold:
  fixes k :: u64
  assumes "unat k + length ps \<le> maxUint64"
  shows "unat (foldl (\<lambda>n p. if au_UID p = 0 then n
            else if GuaranteeForUID policy (au_UID p) = None \<or> \<not> au_Eligible p then n + 1 else n) k ps)
         = unat k + length (filter (isBestEffort policy) ps)"
  using assms
proof (induction ps arbitrary: k)
  case (Cons p ps)
  have "unat (k + 1) = unat k + 1" using Cons.prems unat_add_u64 [of k 1] by simp
  then show ?case using Cons.IH [of "k + 1"] Cons.IH [of k] Cons.prems by (auto simp: isBestEffort_def)
qed simp

lemma unat_countBestEffort:
  "length ps \<le> maxUint64 \<Longrightarrow> unat (countBestEffort policy ps) = length (filter (isBestEffort policy) ps)"
  by (simp add: countBestEffort_def countBestEffort_fold)

lemma unat_maxExactEntitlement:
  "unat (maxExactEntitlement policy)
   = foldl max (max (unat (rtp (sn_root policy))) (unat (bep (sn_bestEffort policy))))
       (map snd (guarantee_list policy))"
proof -
  have "unat (foldl (\<lambda>m g. if ConfiguredGuaranteePoints_Value (ug_points g) > m
            then ConfiguredGuaranteePoints_Value (ug_points g) else m) a gs)
      = foldl max (unat a) (map (\<lambda>g. unat (cgp (ug_points g))) gs)" for a :: u64 and gs :: "user_guarantee list"
    by (induction gs arbitrary: a)
      (simp_all add: ConfiguredGuaranteePoints_Value_def word_less_nat_alt max_def)
  then show ?thesis
    by (simp add: maxExactEntitlement_def points_Value_defs word_less_nat_alt guarantee_list_def
      comp_def max_def)
qed

lemma scale_facts:
  assumes "wf_snapshot policy"
  shows "unat (MaximumKernelCPUWeight div maxExactEntitlement policy) = entitlementScale policy"
    and "maxExactEntitlement policy \<noteq> 0"
    and "10 \<le> entitlementScale policy" and "entitlementScale policy \<le> 10000"
    and "unat (rtp (sn_root policy)) * entitlementScale policy \<le> 10000"
    and "unat (bep (sn_bestEffort policy)) * entitlementScale policy \<le> 10000"
    and "(u, g) \<in> set (guarantee_list policy) \<Longrightarrow> g * entitlementScale policy \<le> 10000"
proof -
  let ?m = "foldl max (max (unat (rtp (sn_root policy))) (unat (bep (sn_bestEffort policy))))
       (map snd (guarantee_list policy))"
  note b = snap.entitlement_bounds [OF assms]
  have m: "unat (maxExactEntitlement policy) = ?m" by (rule unat_maxExactEntitlement)
  show "unat (MaximumKernelCPUWeight div maxExactEntitlement policy) = entitlementScale policy"
    by (simp add: unat_divmod m entitlementScale_def MaximumKernelCPUWeight_def)
  show "maxExactEntitlement policy \<noteq> 0" using m b(1) by auto
  show "10 \<le> entitlementScale policy"
    using div_le_mono2 [of ?m 1000 10000] b(1,2) by (simp add: entitlementScale_def)
  show "entitlementScale policy \<le> 10000" by (simp add: entitlementScale_def)
  have fit: "x * entitlementScale policy \<le> 10000" if "x \<le> ?m" for x
    unfolding entitlementScale_def
    using mult_le_mono1 [OF that, of "10000 div ?m"] times_div_less_eq_dividend [of ?m 10000] by linarith
  show "unat (rtp (sn_root policy)) * entitlementScale policy \<le> 10000" by (rule fit [OF b(3)])
  show "unat (bep (sn_bestEffort policy)) * entitlementScale policy \<le> 10000" by (rule fit [OF b(4)])
  show "(u, g) \<in> set (guarantee_list policy) \<Longrightarrow> g * entitlementScale policy \<le> 10000"
    by (rule fit) (rule b(5))
qed

lemma guaranteeOf_Some:
  assumes "wf_snapshot policy" "GuaranteeForUID policy u = Some g"
  shows "guaranteeOf policy u = unat (cgp (ug_points g))" and "(u, unat (cgp (ug_points g))) \<in> set (guarantee_list policy)"
proof -
  have "map_of (guarantee_list policy) u = Some (unat (cgp (ug_points g)))"
    by (simp add: GuaranteeForUID_guarantee_list [OF assms(1)] assms(2))
  then show "guaranteeOf policy u = unat (cgp (ug_points g))" "(u, unat (cgp (ug_points g))) \<in> set (guarantee_list policy)"
    by (auto simp: guaranteeOf_def dest: map_of_SomeD)
qed

lemma NewKernelCPUWeight_u64:
  fixes x :: u64
  assumes "1 \<le> unat x" "unat x \<le> 10000"
  obtains w where "NewKernelCPUWeight (int_of_u64 x) = Inr w" "unat (kw w) = unat x" "wf_weight w"
  using NewKernelCPUWeight_nat [OF assms] assms by (auto simp: int_of_u64_small)

lemma bestEffortWeights_Cons:
  "bestEffortWeights (e # es) =
     (if fs_class e = FlatAllocationBestEffort then weight_of e # bestEffortWeights es else bestEffortWeights es)"
  by (simp add: bestEffortWeights_def)

text \<open>
  The switch gives every slice its class and a legal weight: the exact one for root and guaranteed
  users, the \<open>index\<close>-th part of the aggregate for a best-effort user, and only those move the index.
\<close>

lemma sliceClassWeight_ok:
  fixes p :: active_user_slice
  assumes wf: "wf_snapshot policy" and sc: "unat scale = entitlementScale policy"
    and base: "unat base + (if 0 < unat remainder then 1 else 0) \<le> 10000"
    and pos: "isBestEffort policy p \<Longrightarrow> 1 \<le> unat base"
  defines "guarantee \<equiv> GuaranteeForUID policy (au_UID p)"
  assumes r: "sliceClassWeight policy scale base remainder index p (guarantee \<noteq> None)
    (case guarantee of Some g \<Rightarrow> ConfiguredGuaranteePoints_Value (ug_points g) | None \<Rightarrow> 0) = (cls, x, index')"
  shows "cls = classOf policy p" and "1 \<le> unat x" and "unat x \<le> 10000"
    and "cls = FlatAllocationRoot \<Longrightarrow> unat x = unat (rtp (sn_root policy)) * entitlementScale policy"
    and "cls = FlatAllocationGuaranteed \<Longrightarrow> unat x = guaranteeOf policy (au_UID p) * entitlementScale policy"
    and "isBestEffort policy p \<Longrightarrow> unat x = unat base + (if unat index < unat remainder then 1 else 0)"
    and "index' = (if isBestEffort policy p then index + 1 else index)"
proof -
  let ?scale = "entitlementScale policy"
  note f = scale_facts [OF wf]
  have rt: "unat (RootPoints_Value (sn_root policy) * scale) = unat (rtp (sn_root policy)) * ?scale"
    using f(5) sc by (subst unat_mult_u64) (simp_all add: RootPoints_Value_def)
  have rt1: "1 * 1 \<le> unat (rtp (sn_root policy)) * ?scale"
    using snap.root_range [OF wf] f(3) by (intro mult_le_mono) auto
  have gu: "unat (ConfiguredGuaranteePoints_Value (ug_points g) * scale) = guaranteeOf policy (au_UID p) * ?scale
      \<and> 1 * 1 \<le> guaranteeOf policy (au_UID p) * ?scale \<and> guaranteeOf policy (au_UID p) * ?scale \<le> 10000"
    if g: "guarantee = Some g" for g
  proof -
    note gl = guaranteeOf_Some [OF wf g [unfolded guarantee_def]]
    have fit: "unat (cgp (ug_points g)) * ?scale \<le> 10000" by (rule f(7) [OF gl(2)])
    have "1 * 1 \<le> unat (cgp (ug_points g)) * ?scale"
      using GuaranteeForUID_wf(1) [OF wf g [unfolded guarantee_def]] f(3)
      by (intro mult_le_mono) (auto simp: wf_guarantee_def)
    with fit sc show ?thesis
      by (simp add: gl(1)) (subst unat_mult_u64, simp_all add: ConfiguredGuaranteePoints_Value_def)
  qed
  have "unat (base + 1) = unat base + 1" using base unat_add_u64 [of base 1] by (simp split: if_splits)
  then have be: "unat (if index < remainder then base + 1 else base)
      = unat base + (if unat index < unat remainder then 1 else 0)"
    by (simp add: word_less_nat_alt)
  note defs = sliceClassWeight_def classOf_def isBestEffort_def
  show "cls = classOf policy p" using r by (auto simp: defs guarantee_def split: if_splits)
  show "1 \<le> unat x" "unat x \<le> 10000" using r rt rt1 f(5) gu be pos base
    by (auto simp: defs guarantee_def split: if_splits)
  show "cls = FlatAllocationRoot \<Longrightarrow> unat x = unat (rtp (sn_root policy)) * ?scale"
    "cls = FlatAllocationGuaranteed \<Longrightarrow> unat x = guaranteeOf policy (au_UID p) * ?scale"
    "isBestEffort policy p \<Longrightarrow> unat x = unat base + (if unat index < unat remainder then 1 else 0)"
    "index' = (if isBestEffort policy p then index + 1 else index)"
    using r rt gu be by (auto simp: defs guarantee_def split: if_splits)
qed

lemma classOf_simps:
  "isBestEffort policy p \<Longrightarrow> classOf policy p = FlatAllocationBestEffort"
  "\<not> isBestEffort policy p \<Longrightarrow> classOf policy p \<noteq> FlatAllocationBestEffort"
  by (auto simp: classOf_def isBestEffort_def)

lemma planSlices_ok:
  assumes wf: "wf_snapshot policy" and sc: "unat scale = entitlementScale policy"
    and base: "unat base + (if 0 < unat remainder then 1 else 0) \<le> 10000"
    and pos: "\<forall>p \<in> set ps. isBestEffort policy p \<longrightarrow> 1 \<le> unat base"
    and len: "unat index + length ps \<le> maxUint64"
  shows "\<exists>es. planSlices policy scale base remainder index ps = Inr es
     \<and> list_all2 (slice_matches policy) ps es
     \<and> bestEffortWeights es
       = map (\<lambda>i. unat base + (if i < unat remainder then 1 else 0))
           [unat index..<unat index + length (filter (isBestEffort policy) ps)]"
  using len pos
proof (induction ps arbitrary: index)
  case Nil
  then show ?case by (simp add: bestEffortWeights_def)
next
  case (Cons p ps)
  let ?g = "GuaranteeForUID policy (au_UID p)"
  let ?c = "case ?g of Some g \<Rightarrow> ConfiguredGuaranteePoints_Value (ug_points g) | None \<Rightarrow> 0"
  obtain cls x index' where r: "sliceClassWeight policy scale base remainder index p (?g \<noteq> None) ?c = (cls, x, index')"
    by (cases "sliceClassWeight policy scale base remainder index p (?g \<noteq> None) ?c") auto
  note ok = sliceClassWeight_ok [OF wf sc base _ r]
  have pos: "isBestEffort policy p \<Longrightarrow> 1 \<le> unat base" using Cons.prems by simp
  obtain w where w: "NewKernelCPUWeight (int_of_u64 x) = Inr w" "unat (kw w) = unat x" "wf_weight w"
    by (rule NewKernelCPUWeight_u64 [OF ok(2,3) [OF pos]])
  have nxt: "unat index' = unat index + (if isBestEffort policy p then 1 else 0)"
    using ok(7) [OF pos] Cons.prems unat_add_u64 [of index 1] by simp
  have "unat index' + length ps \<le> maxUint64" using nxt Cons.prems by simp
  from Cons.IH [OF this] Cons.prems obtain es where
    es: "planSlices policy scale base remainder index' ps = Inr es" "list_all2 (slice_matches policy) ps es"
    "bestEffortWeights es = map (\<lambda>i. unat base + (if i < unat remainder then 1 else 0))
       [unat index'..<unat index' + length (filter (isBestEffort policy) ps)]"
    by auto
  let ?e = "\<lparr>fs_uid = au_UID p, fs_eligible = au_Eligible p, fs_mapped = ?g \<noteq> None,
    fs_class = cls, fs_configuredGuarantee = ?c, fs_weight = w\<rparr>"
  have "planSlices policy scale base remainder index (p # ps) = Inr (?e # es)"
    using r w(1) es(1) by (simp add: Let_def del: not_None_eq)
  moreover have "slice_matches policy p ?e"
    using w(2,3) ok(1,4,5) [OF pos] by (simp add: slice_matches_def del: not_None_eq)
  moreover have "bestEffortWeights (?e # es) = map (\<lambda>i. unat base + (if i < unat remainder then 1 else 0))
       [unat index..<unat index + length (filter (isBestEffort policy) (p # ps))]"
    using es(3) nxt w(2) ok(1,6) [OF pos]
    by (cases "isBestEffort policy p")
      (simp_all add: bestEffortWeights_Cons classOf_simps upt_conv_Cons del: upt_Suc)
  ultimately show ?case using es(2) by blast
qed

subsection \<open>The planner\<close>

text \<open>
  The condition under which a plan exists, and what the plan is: the parent quota of the pool, one
  slice per participant in UID order, and the best-effort weights as the even partition of the
  scaled best-effort points.
\<close>

definition bestEffortCount :: "policy_snapshot \<Rightarrow> active_user_slice list \<Rightarrow> nat" where
  "bestEffortCount policy active = length (filter (isBestEffort policy) active)"

definition plannable :: "policy_snapshot \<Rightarrow> online_cpu_count \<Rightarrow> active_user_slice list \<Rightarrow> bool" where
  "plannable policy c active \<longleftrightarrow>
     unat (cpus c) \<le> maxUint64 div 100000
     \<and> (\<forall>p \<in> set active. 0 \<le> au_UID p) \<and> distinct (map au_UID active)
     \<and> bestEffortCount policy active \<le> unat (bep (sn_bestEffort policy)) * entitlementScale policy"

definition plan_ok ::
    "policy_snapshot \<Rightarrow> online_cpu_count \<Rightarrow> active_user_slice list \<Rightarrow> flat_plan \<Rightarrow> bool" where
  "plan_ok policy c active plan \<longleftrightarrow>
     (let n = bestEffortCount policy active;
          agg = unat (bep (sn_bestEffort policy)) * entitlementScale policy in
      fp_parentQuota plan = \<lparr>pq_poolPoints = sn_pool policy, pq_onlineCPUs = c,
        pq_quota = of_nat (100 * unat (cpus c) * unat (pool (sn_pool policy))), pq_period = 100000\<rparr>
      \<and> unat (fp_scale plan) = entitlementScale policy
      \<and> unat (kw (fp_bestEffortAggregateWeight plan)) = agg
      \<and> list_all2 (slice_matches policy) (sort_key au_UID active) (fp_slices plan)
      \<and> bestEffortWeights (fp_slices plan) = map (\<lambda>i. agg div n + (if i < agg mod n then 1 else 0)) [0..<n])"

lemma filter_sort_key_length:
  "length (filter P (sort_key f xs)) = length (filter P xs)"
  by (metis filter_sort length_sort)

lemma distinct_sort_key_map: "distinct (map f (sort_key f xs)) \<longleftrightarrow> distinct (map f xs)"
  by (metis distinct_map distinct_sort mset_map mset_sort mset_eq_imp_distinct_iff)

lemma checkParticipants_sorted:
  "checkParticipants [] (sort_key au_UID active) = Inr () \<longleftrightarrow>
     (\<forall>p \<in> set active. 0 \<le> au_UID p) \<and> distinct (map au_UID active)"
  by (simp add: checkParticipants_Inr distinct_sort_key_map)

lemma wf_snapshot_pool: "wf_snapshot policy \<Longrightarrow> wf_pool (sn_pool policy)"
  by (simp add: wf_snapshot_def ParentPool_wf)

text \<open>The numbers the planner computes on words, as natural numbers.\<close>

lemma planner_numbers:
  assumes wf: "wf_snapshot policy" and len: "length active \<le> maxUint64"
  defines "scale \<equiv> MaximumKernelCPUWeight div maxExactEntitlement policy"
  defines "agg \<equiv> BestEffortPoints_Value (sn_bestEffort policy) * scale"
  defines "n \<equiv> countBestEffort policy (sort_key au_UID active)"
  shows "unat scale = entitlementScale policy"
    and "unat agg = unat (bep (sn_bestEffort policy)) * entitlementScale policy"
    and "unat n = bestEffortCount policy active"
    and "1 \<le> unat agg" and "unat agg \<le> 10000"
proof -
  note f = scale_facts [OF wf]
  show sc: "unat scale = entitlementScale policy" using f(1) by (simp add: scale_def)
  show agg: "unat agg = unat (bep (sn_bestEffort policy)) * entitlementScale policy"
    unfolding agg_def using f(6) sc by (subst unat_mult_u64) (simp_all add: BestEffortPoints_Value_def)
  show "unat n = bestEffortCount policy active"
    using len by (simp add: n_def unat_countBestEffort filter_sort_key_length bestEffortCount_def)
  have "1 * 1 \<le> unat (bep (sn_bestEffort policy)) * entitlementScale policy"
    using snap.best_effort_range [OF wf] f(3) by (intro mult_le_mono) auto
  then show "1 \<le> unat agg" using agg by simp
  show "unat agg \<le> 10000" using agg f(6) by simp
qed

lemma PlanFlatTopology_ok:
  assumes wf: "wf_snapshot policy" and c: "cpus c \<noteq> 0" and len: "length active \<le> maxUint64"
    and ok: "plannable policy c active"
  shows "\<exists>plan. PlanFlatTopology policy c active = Inr plan \<and> plan_ok policy c active plan"
proof -
  define scale where "scale = MaximumKernelCPUWeight div maxExactEntitlement policy"
  define agg where "agg = BestEffortPoints_Value (sn_bestEffort policy) * scale"
  define n where "n = countBestEffort policy (sort_key au_UID active)"
  note num = planner_numbers [OF wf len, folded scale_def, folded agg_def n_def]
  define base where "base = (if n > 0 then agg div n else 0)"
  define rmd where "rmd = (if n > 0 then agg mod n else 0)"
  have nle: "unat n \<le> unat agg" using ok num by (simp add: plannable_def)
  have zero: "n > 0 \<longleftrightarrow> 0 < unat n" by (simp add: word_less_nat_alt)
  have base: "unat base = unat agg div unat n" and rmd: "unat rmd = (if 0 < unat n then unat agg mod unat n else 0)"
    by (auto simp: base_def rmd_def zero unat_divmod)
  have fit: "unat base + (if 0 < unat rmd then 1 else 0) \<le> 10000"
    using even_part_le [of "unat n" "unat agg"] num(5) base rmd by (cases "0 < unat n") auto
  have pos: "1 \<le> unat base" if "0 < unat n" using that nle base by (simp add: Suc_leI div_greater_zero_iff)
  have "\<forall>p \<in> set (sort_key au_UID active). isBestEffort policy p \<longrightarrow> 1 \<le> unat base"
    using pos num(3) by (auto simp: bestEffortCount_def filter_empty_conv)
  from planSlices_ok [OF wf num(1) fit this, of 0] len obtain es where
    es: "planSlices policy scale base rmd 0 (sort_key au_UID active) = Inr es"
      "list_all2 (slice_matches policy) (sort_key au_UID active) es"
      "bestEffortWeights es = map (\<lambda>i. unat base + (if i < unat rmd then 1 else 0)) [0..<unat n]"
    by (auto simp: filter_sort_key_length num(3) bestEffortCount_def)
  obtain w where w: "NewKernelCPUWeight (int_of_u64 agg) = Inr w" "unat (kw w) = unat agg"
    using NewKernelCPUWeight_u64 [OF num(4,5)] by metis
  define plan where "plan = \<lparr>fp_parentQuota = \<lparr>pq_poolPoints = sn_pool policy, pq_onlineCPUs = c,
      pq_quota = of_nat (100 * unat (cpus c) * unat (pool (sn_pool policy))), pq_period = 100000\<rparr>,
    fp_scale = scale, fp_bestEffortAggregateWeight = w, fp_slices = es\<rparr>"
  have check: "checkParticipants [] (sort_key au_UID active) = Inr ()"
    using ok by (simp add: checkParticipants_sorted plannable_def)
  have quota: "PlanParentQuota c (sn_pool policy) = Inr (fp_parentQuota plan)"
    using PlanParentQuota_cases [OF wf_snapshot_pool [OF wf] c] ok by (simp add: plannable_def plan_def)
  have "\<not> n > agg" using nle by (simp add: word_less_nat_alt)
  then have "PlanFlatTopology policy c active = Inr plan"
    using quota check w(1) es(1) scale_facts(2) [OF wf]
    by (cases "n > 0")
      (simp_all add: PlanFlatTopology_def plan_def Let_def base_def rmd_def flip: scale_def agg_def n_def)
  moreover have "plan_ok policy c active plan"
    using es num w(2) base rmd by (auto simp: plan_ok_def plan_def Let_def)
  ultimately show ?thesis by blast
qed

text \<open>The three ways to fail on a well-formed policy; a division by zero is not one of them.\<close>

lemma PlanFlatTopology_fails:
  assumes wf: "wf_snapshot policy" and c: "cpus c \<noteq> 0" and len: "length active \<le> maxUint64"
  shows "unat (cpus c) > maxUint64 div 100000 \<Longrightarrow>
      PlanFlatTopology policy c active
        = Inl (flatPlanError FlatPlanCapacityUnrepresentable 0 (Some (ParentQuotaOverflow (unat (cpus c)))))"
    and "unat (cpus c) \<le> maxUint64 div 100000 \<Longrightarrow> checkParticipants [] (sort_key au_UID active) = Inl e \<Longrightarrow>
      PlanFlatTopology policy c active = Inl e"
    and "unat (cpus c) \<le> maxUint64 div 100000 \<Longrightarrow> \<forall>p \<in> set active. 0 \<le> au_UID p \<Longrightarrow>
      distinct (map au_UID active) \<Longrightarrow>
      bestEffortCount policy active > unat (bep (sn_bestEffort policy)) * entitlementScale policy \<Longrightarrow>
      \<exists>err. PlanFlatTopology policy c active = Inl (FlatPlanFailed err)
        \<and> fe_Reason err = FlatPlanBestEffortCardinality
        \<and> unat (fe_ActiveBestEffortSlices err) = bestEffortCount policy active
        \<and> unat (fe_AggregateWeight err) = unat (bep (sn_bestEffort policy)) * entitlementScale policy"
  using PlanParentQuota_cases [OF wf_snapshot_pool [OF wf] c] planner_numbers [OF wf len] scale_facts(2) [OF wf]
    checkParticipants_sorted [of active]
  by (auto simp: PlanFlatTopology_def Let_def word_less_nat_alt)

lemma checkParticipants_Inl:
  "checkParticipants seen ps = Inl e \<Longrightarrow>
     \<exists>u. e = flatPlanError FlatPlanInvalidParticipant u None \<and> u < 0
       \<or> e = flatPlanError FlatPlanDuplicateUID u None \<and> 0 \<le> u"
  by (induction seen ps rule: checkParticipants.induct) (auto split: if_splits)

lemma PlanFlatTopology_Inr:
  assumes "wf_snapshot policy" "cpus c \<noteq> 0" "length active \<le> maxUint64"
    and plan: "PlanFlatTopology policy c active = Inr plan"
  shows "plannable policy c active" and "plan_ok policy c active plan"
proof -
  note fails = PlanFlatTopology_fails [OF assms(1-3)]
  have "unat (cpus c) \<le> maxUint64 div 100000" using fails(1) plan by (force simp: not_le)
  moreover from this have "checkParticipants [] (sort_key au_UID active) = Inr ()"
    using fails(2) plan by (cases "checkParticipants [] (sort_key au_UID active)") auto
  then have "(\<forall>p \<in> set active. 0 \<le> au_UID p) \<and> distinct (map au_UID active)"
    by (rule checkParticipants_sorted [THEN iffD1])
  moreover from calculation have
      "bestEffortCount policy active \<le> unat (bep (sn_bestEffort policy)) * entitlementScale policy"
    using fails(3) plan by (force simp: not_le)
  ultimately show ok: "plannable policy c active" by (simp add: plannable_def)
  from PlanFlatTopology_ok [OF assms(1-3) ok] plan show "plan_ok policy c active plan" by auto
qed

subsection \<open>Sums over a plan\<close>

lemma slice_weight:
  "slice_matches policy p e \<Longrightarrow>
     weight_of e = (if isBestEffort policy p then weight_of e
                    else if au_UID p = 0 then unat (rtp (sn_root policy)) * entitlementScale policy
                    else guaranteeOf policy (au_UID p) * entitlementScale policy)"
  by (auto simp: slice_matches_def classOf_def isBestEffort_def)

text \<open>The weights of a list of slices, split by class.\<close>

lemma weights_split:
  assumes "list_all2 (slice_matches policy) ps es" "distinct (map au_UID ps)" "\<forall>p \<in> set ps. 0 \<le> au_UID p"
  shows "(\<Sum>e\<leftarrow>es. weight_of e) \<le> sum_list (bestEffortWeights es)
    + unat (rtp (sn_root policy)) * entitlementScale policy
    + (\<Sum>u\<leftarrow>filter ((\<noteq>) 0) (map au_UID ps). guaranteeOf policy u) * entitlementScale policy
    \<and> (0 \<notin> set (map au_UID ps) \<longrightarrow> (\<Sum>e\<leftarrow>es. weight_of e) \<le> sum_list (bestEffortWeights es)
    + (\<Sum>u\<leftarrow>filter ((\<noteq>) 0) (map au_UID ps). guaranteeOf policy u) * entitlementScale policy)"
  using assms
proof (induction ps es rule: list_all2_induct)
  case (Cons p ps e es)
  have cls: "fs_class e = FlatAllocationBestEffort \<longleftrightarrow> isBestEffort policy p"
    using Cons(1) classOf_simps by (auto simp: slice_matches_def)
  show ?case using Cons.IH Cons.prems slice_weight [OF Cons(1)] cls
    by (cases "isBestEffort policy p")
      (auto simp: bestEffortWeights_Cons algebra_simps isBestEffort_def split: if_splits)
qed (simp add: bestEffortWeights_def)

lemma sum_parts:
  "0 < n \<Longrightarrow> sum_list (map (\<lambda>i. A div n + (if i < A mod n then 1 else 0)) [0..<n]) = (A::nat)"
  by (rule even_partition_sum)

lemma bestEffort_total:
  assumes "plan_ok policy c active plan"
  shows "sum_list (bestEffortWeights (fp_slices plan))
    = (if bestEffortCount policy active = 0 then 0 else unat (bep (sn_bestEffort policy)) * entitlementScale policy)"
proof -
  have "bestEffortWeights (fp_slices plan) =
      map (\<lambda>i. unat (bep (sn_bestEffort policy)) * entitlementScale policy div bestEffortCount policy active
        + (if i < unat (bep (sn_bestEffort policy)) * entitlementScale policy mod bestEffortCount policy active then 1 else 0))
        [0..<bestEffortCount policy active]"
    using assms by (simp add: plan_ok_def Let_def)
  then show ?thesis using sum_parts by (simp only: split: if_splits) simp
qed

lemma plan_weights_total:
  assumes wf: "wf_snapshot policy" and pl: "plannable policy c active" and ok: "plan_ok policy c active plan"
  shows "(\<Sum>e\<leftarrow>fp_slices plan. weight_of e) \<le> unat (pool (sn_pool policy)) * entitlementScale policy"
proof -
  let ?ps = "sort_key au_UID active" and ?s = "entitlementScale policy"
  let ?us = "filter ((\<noteq>) 0) (map au_UID ?ps)"
  have d: "distinct (map au_UID ?ps)" "\<forall>p \<in> set ?ps. 0 \<le> au_UID p"
    using pl by (auto simp: plannable_def distinct_sort_key_map)
  have match: "list_all2 (slice_matches policy) ?ps (fp_slices plan)" using ok by (simp add: plan_ok_def Let_def)
  have "(\<Sum>u\<leftarrow>?us. guaranteeOf policy u) \<le> sum_list (map snd (guarantee_list policy))"
    unfolding guaranteeOf_def using d(1) by (intro snap.guaranteed_users_total [OF wf]) simp
  then have g: "(\<Sum>u\<leftarrow>?us. guaranteeOf policy u) + unat (rtp (sn_root policy)) + unat (bep (sn_bestEffort policy))
      \<le> unat (pool (sn_pool policy))"
    using snap.no_overcommit [OF wf] by linarith
  have be: "sum_list (bestEffortWeights (fp_slices plan)) \<le> unat (bep (sn_bestEffort policy)) * ?s"
    using bestEffort_total [OF ok] by (simp split: if_splits)
  have "(\<Sum>e\<leftarrow>fp_slices plan. weight_of e)
      \<le> ((\<Sum>u\<leftarrow>?us. guaranteeOf policy u) + unat (rtp (sn_root policy)) + unat (bep (sn_bestEffort policy))) * ?s"
    using weights_split [OF match d] be by (simp add: algebra_simps)
  also have "\<dots> \<le> unat (pool (sn_pool policy)) * ?s" using g by (rule mult_le_mono1)
  finally show ?thesis .
qed

section \<open>Properties\<close>

text \<open>
  A small policy for the witnesses: two guaranteed users, 400 and 100 points, in a pool of 900.
\<close>

definition samplePolicy :: policy_snapshot where
  "samplePolicy =
     (let alice = \<lparr>ug_username = ''alice'', ug_uid = 1000, ug_points = ConfiguredGuaranteePoints 400, ug_line = 2\<rparr>;
          bob = \<lparr>ug_username = ''bob'', ug_uid = 1001, ug_points = ConfiguredGuaranteePoints 100, ug_line = 3\<rparr>
      in \<lparr>sn_reserve = ReservePoints 100, sn_pool = ParentPoolPoints 900, sn_root = RootPoints 50,
          sn_bestEffort = BestEffortPoints 100, sn_configuredTotal = ConfiguredGuaranteeTotalPoints 500,
          sn_entries = [alice, bob], sn_guaranteesByUID = [(1000, alice), (1001, bob)],
          sn_source = emptySource\<rparr>)"

definition sampleActive :: "active_user_slice list" where
  "sampleActive =
     [\<lparr>au_UID = 1002, au_Eligible = True\<rparr>, \<lparr>au_UID = 0, au_Eligible = True\<rparr>,
      \<lparr>au_UID = 1001, au_Eligible = False\<rparr>, \<lparr>au_UID = 1003, au_Eligible = True\<rparr>,
      \<lparr>au_UID = 1000, au_Eligible = True\<rparr>]"

lemma samplePolicy_wf: "wf_snapshot samplePolicy"
  by (simp add: wf_snapshot_def samplePolicy_def Let_def wf_points_defs guaranteed_points_def
    ReservePoints_ParentPool_def u16_of_u64_def TotalPoints_def)

lemma samplePolicy_scale: "entitlementScale samplePolicy = 25"
  by (simp add: entitlementScale_def samplePolicy_def Let_def guarantee_list_def)

lemma sample_plannable: "plannable samplePolicy (OnlineCPUCount 8) sampleActive"
  unfolding plannable_def samplePolicy_scale bestEffortCount_def
  by (simp add: samplePolicy_def sampleActive_def Let_def isBestEffort_def GuaranteeForUID_def)

text \<open>
  Property C13: on a well-formed policy the planner returns a plan exactly when the parent quota is
  representable, every active UID is non-negative and occurs once, and the scaled best-effort
  points give every best-effort slice at least weight 1. It never panics on the division by the
  largest entitlement.
\<close>

theorem flat_plan_exists_iff:
  assumes "wf_snapshot policy" "cpus onlineCPUs \<noteq> 0" "length active \<le> 18446744073709551615"
  shows "((\<exists>plan. PlanFlatTopology policy onlineCPUs active = Inr plan) \<longleftrightarrow> plannable policy onlineCPUs active)
    \<and> PlanFlatTopology policy onlineCPUs active \<noteq> Inl IntegerDivideByZero"
proof
  note fails = PlanFlatTopology_fails [OF assms]
  show "(\<exists>plan. PlanFlatTopology policy onlineCPUs active = Inr plan) \<longleftrightarrow> plannable policy onlineCPUs active"
    using PlanFlatTopology_ok [OF assms] PlanFlatTopology_Inr(1) [OF assms] by blast
  show "PlanFlatTopology policy onlineCPUs active \<noteq> Inl IntegerDivideByZero"
  proof (cases "checkParticipants [] (sort_key au_UID active)")
    case (Inl e)
    then show ?thesis
      using fails(1) fails(2) [OF _ Inl] checkParticipants_Inl [OF Inl]
      by (cases "unat (cpus onlineCPUs) \<le> maxUint64 div 100000") (auto simp: flatPlanError_def)
  next
    case (Inr u)
    then have "(\<forall>p \<in> set active. 0 \<le> au_UID p) \<and> distinct (map au_UID active)"
      by (intro checkParticipants_sorted [THEN iffD1]) simp
    then show ?thesis
      using fails(1,3) PlanFlatTopology_ok [OF assms]
      by (cases "unat (cpus onlineCPUs) \<le> maxUint64 div 100000"; cases "plannable policy onlineCPUs active")
        (auto simp: flatPlanError_def plannable_def not_le)
  qed
qed

theorem flat_plan_exists_iff_witness:
  "\<exists>plan. PlanFlatTopology samplePolicy (OnlineCPUCount 8) sampleActive = Inr plan"
  using flat_plan_exists_iff [OF samplePolicy_wf, of "OnlineCPUCount 8" sampleActive] sample_plannable
  by (simp add: sampleActive_def)

text \<open>
  A returned plan has exactly one slice per active user, in ascending UID order; root
  and every eligible guaranteed user get exactly their points times the common scale as a legal
  kernel weight, and everyone else is best effort.
\<close>

theorem flat_plan_slices_exact:
  assumes "wf_snapshot policy" "cpus onlineCPUs \<noteq> 0" "length active \<le> 18446744073709551615"
    and "PlanFlatTopology policy onlineCPUs active = Inr plan"
  shows "map fs_uid (fp_slices plan) = sort (map au_UID active)
    \<and> list_all2 (slice_matches policy) (sort_key au_UID active) (fp_slices plan)"
proof
  have match: "list_all2 (slice_matches policy) (sort_key au_UID active) (fp_slices plan)"
    using PlanFlatTopology_Inr(2) [OF assms] by (simp add: plan_ok_def Let_def)
  then have "map fs_uid (fp_slices plan) = map au_UID (sort_key au_UID active)"
    by (induction rule: list_all2_induct) (auto simp: slice_matches_def)
  also have "\<dots> = sort (map au_UID active)"
    by (rule properties_for_sort [symmetric]) simp_all
  finally show "map fs_uid (fp_slices plan) = sort (map au_UID active)" .
  from match show "list_all2 (slice_matches policy) (sort_key au_UID active) (fp_slices plan)" .
qed

theorem flat_plan_slices_exact_witness:
  "\<exists>plan. PlanFlatTopology samplePolicy (OnlineCPUCount 8) sampleActive = Inr plan
     \<and> map fs_uid (fp_slices plan) = [0, 1000, 1001, 1002, 1003]"
proof -
  have c: "cpus (OnlineCPUCount 8) \<noteq> 0" "length sampleActive \<le> 18446744073709551615"
    by (simp_all add: sampleActive_def)
  obtain plan where "PlanFlatTopology samplePolicy (OnlineCPUCount 8) sampleActive = Inr plan"
    using PlanFlatTopology_ok [OF samplePolicy_wf c sample_plannable] by blast
  with flat_plan_slices_exact [OF samplePolicy_wf c this] show ?thesis
    by (auto simp: sampleActive_def)
qed

text \<open>
  The best-effort weights of a plan add up to exactly the scaled best-effort points
  whenever there is a best-effort slice, each is at least 1, and no two of them differ by more
  than 1.
\<close>

theorem flat_plan_best_effort_partition:
  assumes "wf_snapshot policy" "cpus onlineCPUs \<noteq> 0" "length active \<le> 18446744073709551615"
    and "PlanFlatTopology policy onlineCPUs active = Inr plan" "0 < bestEffortCount policy active"
  shows "sum_list (bestEffortWeights (fp_slices plan)) = unat (bep (sn_bestEffort policy)) * unat (fp_scale plan)
    \<and> (\<forall>v \<in> set (bestEffortWeights (fp_slices plan)). 1 \<le> v)
    \<and> (\<forall>v \<in> set (bestEffortWeights (fp_slices plan)). \<forall>w \<in> set (bestEffortWeights (fp_slices plan)). v \<le> w + 1)"
proof (intro conjI)
  have ok: "plan_ok policy onlineCPUs active plan" and pl: "plannable policy onlineCPUs active"
    using PlanFlatTopology_Inr [OF assms(1-4)] by auto
  show "sum_list (bestEffortWeights (fp_slices plan)) = unat (bep (sn_bestEffort policy)) * unat (fp_scale plan)"
    using bestEffort_total [OF ok] assms(5) ok by (simp add: plan_ok_def Let_def)
  have "1 \<le> unat (bep (sn_bestEffort policy)) * entitlementScale policy div bestEffortCount policy active"
    using pl assms(5) by (simp add: plannable_def Suc_leI div_greater_zero_iff)
  then show "\<forall>v \<in> set (bestEffortWeights (fp_slices plan)). 1 \<le> v"
    using ok by (auto simp: plan_ok_def Let_def)
  show "\<forall>v \<in> set (bestEffortWeights (fp_slices plan)). \<forall>w \<in> set (bestEffortWeights (fp_slices plan)). v \<le> w + 1"
    using ok by (auto simp: plan_ok_def Let_def)
qed

theorem flat_plan_best_effort_partition_witness:
  "\<exists>plan. PlanFlatTopology samplePolicy (OnlineCPUCount 8) sampleActive = Inr plan
     \<and> sum_list (bestEffortWeights (fp_slices plan)) = 100 * unat (fp_scale plan)"
proof -
  have c: "cpus (OnlineCPUCount 8) \<noteq> 0" "length sampleActive \<le> 18446744073709551615"
    by (simp_all add: sampleActive_def)
  have be: "0 < bestEffortCount samplePolicy sampleActive"
    by (simp add: bestEffortCount_def samplePolicy_def sampleActive_def Let_def isBestEffort_def GuaranteeForUID_def)
  obtain plan where "PlanFlatTopology samplePolicy (OnlineCPUCount 8) sampleActive = Inr plan"
    using PlanFlatTopology_ok [OF samplePolicy_wf c sample_plannable] by blast
  with flat_plan_best_effort_partition [OF samplePolicy_wf c this be] show ?thesis
    by (auto simp: samplePolicy_def Let_def)
qed

text \<open>
  Property C7: every eligible guaranteed user's share of the weights is at least the share of the
  pool that its points are, whoever else is active; so with the parent limited to the pool's
  fraction of the capacity the user can use at least its points in thousandths of it.
\<close>

theorem flat_plan_guaranteed_share:
  assumes "wf_snapshot policy" "cpus onlineCPUs \<noteq> 0" "length active \<le> 18446744073709551615"
    and "PlanFlatTopology policy onlineCPUs active = Inr plan"
    and "e \<in> set (fp_slices plan)" "fs_class e = FlatAllocationGuaranteed"
  shows "guaranteeOf policy (fs_uid e) * (\<Sum>e\<leftarrow>fp_slices plan. weight_of e)
      \<le> weight_of e * unat (pool (sn_pool policy))
    \<and> unat (pq_quota (fp_parentQuota plan)) * 1000
      = unat (cpus onlineCPUs) * 100000 * unat (pool (sn_pool policy))"
proof
  note inr = PlanFlatTopology_Inr [OF assms(1-4)]
  have "list_all2 (slice_matches policy) (sort_key au_UID active) (fp_slices plan)"
    using inr(2) by (simp add: plan_ok_def Let_def)
  from list_all2_memE(2) [OF this assms(5)] obtain p where "slice_matches policy p e" by blast
  then have w: "weight_of e = guaranteeOf policy (fs_uid e) * entitlementScale policy"
    using assms(6) by (simp add: slice_matches_def)
  have "guaranteeOf policy (fs_uid e) * (\<Sum>e\<leftarrow>fp_slices plan. weight_of e)
      \<le> guaranteeOf policy (fs_uid e) * (unat (pool (sn_pool policy)) * entitlementScale policy)"
    by (intro mult_le_mono2 plan_weights_total [OF assms(1) inr])
  then show "guaranteeOf policy (fs_uid e) * (\<Sum>e\<leftarrow>fp_slices plan. weight_of e)
      \<le> weight_of e * unat (pool (sn_pool policy))"
    using w by (simp add: algebra_simps)
  have "unat (pool (sn_pool policy)) \<le> 1000" using wf_snapshot_pool [OF assms(1)] by (simp add: wf_pool_def)
  then have "unat (cpus onlineCPUs) * unat (pool (sn_pool policy)) \<le> (maxUint64 div 100000) * 1000"
    using inr(1) by (intro mult_le_mono) (simp_all add: plannable_def)
  then have "unat (of_nat (100 * unat (cpus onlineCPUs) * unat (pool (sn_pool policy))) :: u64)
      = 100 * unat (cpus onlineCPUs) * unat (pool (sn_pool policy))"
    by (intro unat_of_nat_u64) simp
  then show "unat (pq_quota (fp_parentQuota plan)) * 1000
      = unat (cpus onlineCPUs) * 100000 * unat (pool (sn_pool policy))"
    using inr(2) by (simp add: plan_ok_def Let_def)
qed

theorem flat_plan_guaranteed_share_witness:
  "\<exists>plan e. PlanFlatTopology samplePolicy (OnlineCPUCount 8) sampleActive = Inr plan
     \<and> e \<in> set (fp_slices plan) \<and> fs_uid e = 1000
     \<and> 400 * (\<Sum>e\<leftarrow>fp_slices plan. weight_of e) \<le> weight_of e * 900"
proof -
  have c: "cpus (OnlineCPUCount 8) \<noteq> 0" "length sampleActive \<le> 18446744073709551615"
    by (simp_all add: sampleActive_def)
  obtain plan where plan: "PlanFlatTopology samplePolicy (OnlineCPUCount 8) sampleActive = Inr plan"
    and ok: "plan_ok samplePolicy (OnlineCPUCount 8) sampleActive plan"
    using PlanFlatTopology_ok [OF samplePolicy_wf c sample_plannable] by blast
  let ?p = "\<lparr>au_UID = 1000, au_Eligible = True\<rparr>"
  have "?p \<in> set (sort_key au_UID sampleActive)" by (simp add: sampleActive_def)
  then obtain e where e: "e \<in> set (fp_slices plan)" "slice_matches samplePolicy ?p e"
    using ok list_all2_memE(1) unfolding plan_ok_def Let_def by metis
  have "fs_class e = FlatAllocationGuaranteed" "fs_uid e = 1000"
    using e(2) by (auto simp: slice_matches_def classOf_def isBestEffort_def samplePolicy_def GuaranteeForUID_def Let_def)
  moreover have "guaranteeOf samplePolicy 1000 = 400"
    by (simp add: guaranteeOf_def samplePolicy_def guarantee_list_def Let_def)
  ultimately show ?thesis
    using flat_plan_guaranteed_share [OF samplePolicy_wf c plan e(1)] plan e(1)
    by (auto simp: samplePolicy_def Let_def)
qed

text \<open>
  The plan depends on the set of active slices only. Two scans that report the same
  slices in a different order get the same plan or the same error, provided no UID is repeated.
\<close>

theorem flat_plan_order_independent:
  assumes "mset active = mset active'" "distinct (map au_UID active)"
  shows "PlanFlatTopology policy onlineCPUs active = PlanFlatTopology policy onlineCPUs active'"
  unfolding PlanFlatTopology_def sorted_key_perm_unique [OF assms(2,1)] ..

theorem flat_plan_order_independent_witness:
  "PlanFlatTopology samplePolicy (OnlineCPUCount 8) sampleActive
   = PlanFlatTopology samplePolicy (OnlineCPUCount 8) (rev sampleActive)"
  by (rule flat_plan_order_independent) (simp_all add: sampleActive_def)

end
