(* ===== verification/Safe_File.thy ===== *)
theory Safe_File
  imports Resman_Prelude
begin

text \<open>
  What the policy-map loaders see of the file system. \<^verbatim>\<open>os.FileInfo\<close> is a record with Go's mode word;
  one guarded read of a file is a record of the answers its system calls get, in their order, so
  that the file system may change between any two of them. The second part is the contract of a
  guarded read: what an accepted file and its ancestors satisfy, as a specification the loaders of
  the CPU Points map and of the weighted-I/O map are both shown to implement.
\<close>

unbundle bit_operations_syntax

section \<open>File metadata\<close>

record stat_t =
  st_Dev :: u64
  st_Ino :: u64
  st_Uid :: u32
  st_Gid :: u32

text \<open>\<open>fi_Stat\<close> is \<open>None\<close> where \<^verbatim>\<open>Sys()\<close> is no \<^verbatim>\<open>*syscall.Stat_t\<close>.\<close>

record file_info =
  fi_Mode :: u32
  fi_Size :: int
  fi_ModTime :: int
  fi_Stat :: "stat_t option"

text \<open>The bits of \<^verbatim>\<open>os.FileMode\<close>.\<close>

definition ModeDir :: u32 where "ModeDir = 0x80000000"
definition ModeSymlink :: u32 where "ModeSymlink = 0x08000000"
definition ModeSticky :: u32 where "ModeSticky = 0x00100000"

text \<open>\<^verbatim>\<open>ModeType\<close>: directory, symbolic link, named pipe, socket, device, character device, irregular.\<close>

definition ModeType :: u32 where "ModeType = 0x8F280000"

definition Mode_IsRegular :: "u32 \<Rightarrow> bool" where "Mode_IsRegular m \<longleftrightarrow> m AND ModeType = 0"
definition Mode_IsDir :: "u32 \<Rightarrow> bool" where "Mode_IsDir m \<longleftrightarrow> m AND ModeDir \<noteq> 0"
definition Mode_IsSymlink :: "u32 \<Rightarrow> bool" where "Mode_IsSymlink m \<longleftrightarrow> m AND ModeSymlink \<noteq> 0"
definition Mode_IsSticky :: "u32 \<Rightarrow> bool" where "Mode_IsSticky m \<longleftrightarrow> m AND ModeSticky \<noteq> 0"
definition Mode_Perm :: "u32 \<Rightarrow> u32" where "Mode_Perm m = m AND 0x1FF"

lemmas mode_defs =
  Mode_IsRegular_def Mode_IsDir_def Mode_IsSymlink_def Mode_IsSticky_def Mode_Perm_def
  ModeDir_def ModeSymlink_def ModeSticky_def ModeType_def

text \<open>\<^verbatim>\<open>os.SameFile\<close>.\<close>

definition sameFile :: "file_info \<Rightarrow> file_info \<Rightarrow> bool" where
  "sameFile a b =
     (case (fi_Stat a, fi_Stat b) of
        (Some s, Some t) \<Rightarrow> st_Dev s = st_Dev t \<and> st_Ino s = st_Ino t
      | _ \<Rightarrow> False)"

section \<open>Directories of a path\<close>

text \<open>\<^verbatim>\<open>filepath.Dir\<close> of a clean absolute path: what is before the last slash, or the root.\<close>

definition dirOf :: "string \<Rightarrow> string" where
  "dirOf p = (let d = rev (tl (dropWhile (\<lambda>c. c \<noteq> CHR ''/'') (rev p))) in if d = [] then ''/'' else d)"

definition dirDepth :: "string \<Rightarrow> nat" where
  "dirDepth p = (if p = ''/'' then 0 else Suc (length p))"

lemma dirOf_root [simp]: "dirOf ''/'' = ''/''"
  by (simp add: dirOf_def)

lemma dirOf_last: "CHR ''/'' \<notin> set r \<Longrightarrow> dirOf (d @ CHR ''/'' # r) = (if d = [] then ''/'' else d)"
  by (simp add: dirOf_def dropWhile_append)

lemma dirOf_shorter: "dirOf p \<noteq> ''/'' \<Longrightarrow> length (dirOf p) < length p"
proof -
  let ?q = "dropWhile (\<lambda>c. c \<noteq> CHR ''/'') (rev p)"
  assume "dirOf p \<noteq> ''/''"
  then have d: "dirOf p = rev (tl ?q)" "tl ?q \<noteq> []" by (auto simp: dirOf_def Let_def split: if_splits)
  have "length (tl ?q) < length ?q" using d(2) by (cases ?q) auto
  also have "\<dots> \<le> length p" using length_dropWhile_le [of "\<lambda>c. c \<noteq> CHR ''/''" "rev p"] by simp
  finally show ?thesis by (simp add: d(1))
qed

lemma dirOf_depth: "dirOf p \<noteq> p \<Longrightarrow> dirDepth (dirOf p) < dirDepth p"
  using dirOf_shorter [of p] by (cases "p = ''/''") (auto simp: dirDepth_def)

text \<open>The directories a loop visits that starts at \<open>d\<close> and stops where \<^verbatim>\<open>Dir\<close> is a fixed point.\<close>

function dirsUpFrom :: "string \<Rightarrow> string list" where
  "dirsUpFrom d = d # (if dirOf d = d then [] else dirsUpFrom (dirOf d))"
  by pat_completeness auto
termination
  by (relation "measure dirDepth") (simp_all add: dirOf_depth)

declare dirsUpFrom.simps [simp del]

lemma dirsUpFrom_root: "''/'' \<in> set (dirsUpFrom (dirOf p))"
proof (induction "dirOf p" arbitrary: p rule: dirsUpFrom.induct)
  case 1
  show ?case
  proof (cases "dirOf (dirOf p) = dirOf p")
    case True
    then have "dirOf p = ''/''" using dirOf_shorter [of "dirOf p"] by auto
    then show ?thesis by (subst dirsUpFrom.simps) simp
  next
    case False
    with 1 show ?thesis by (subst dirsUpFrom.simps) auto
  qed
qed

lemma dirOf_split:
  assumes "p = d @ CHR ''/'' # r" "d \<noteq> []"
  shows "dirOf p = d \<or> (\<exists>r'. dirOf p = d @ CHR ''/'' # r')"
proof (cases "CHR ''/'' \<in> set r")
  case False
  then show ?thesis using assms by (simp add: dirOf_last)
next
  case True
  then obtain r1 r2 where r: "r = r1 @ CHR ''/'' # r2" "CHR ''/'' \<notin> set r2" by (meson split_list_last)
  then have "dirOf p = d @ CHR ''/'' # r1"
    using assms dirOf_last [OF r(2), of "d @ CHR ''/'' # r1"] by simp
  then show ?thesis by blast
qed

text \<open>Every directory prefix of a path is visited.\<close>

lemma dirsUpFrom_prefix:
  assumes "p = d @ CHR ''/'' # r" "d \<noteq> []"
  shows "d \<in> set (dirsUpFrom (dirOf p))"
  using assms
proof (induction "length p" arbitrary: p r rule: less_induct)
  case less
  show ?case
  proof (cases "dirOf p = d")
    case True
    then show ?thesis by (subst dirsUpFrom.simps) simp
  next
    case False
    then obtain r' where r': "dirOf p = d @ CHR ''/'' # r'" using dirOf_split [OF less(2,3)] by blast
    with \<open>d \<noteq> []\<close> have ne: "dirOf p \<noteq> ''/''" by (cases d) auto
    have "d \<in> set (dirsUpFrom (dirOf (dirOf p)))"
      by (rule less(1) [OF dirOf_shorter [OF ne] r' \<open>d \<noteq> []\<close>])
    then show ?thesis using dirOf_depth [of "dirOf p"]
      by (cases "dirOf (dirOf p) = dirOf p") (auto simp: dirsUpFrom.simps [of "dirOf p"])
  qed
qed

section \<open>One guarded read\<close>

record read_env =
  ev_euid :: int
  ev_lstat1 :: "string \<Rightarrow> (string, file_info) res"
  ev_open :: "string option"
  ev_stat1 :: "(string, file_info) res"
  ev_content :: "(string, string) res"
  ev_stat2 :: "(string, file_info) res"
  ev_close :: "string option"
  ev_lstat2 :: "string \<Rightarrow> (string, file_info) res"

text \<open>
  A directory that no untrusted user can change an entry of, and a file that only a trusted user
  can have written.
\<close>

definition trustedOwner :: "int \<Rightarrow> file_info \<Rightarrow> bool" where
  "trustedOwner euid i =
     (case fi_Stat i of None \<Rightarrow> False | Some s \<Rightarrow> uint (st_Uid s) = 0 \<or> uint (st_Uid s) = euid)"

definition trustedDir :: "int \<Rightarrow> (string, file_info) res \<Rightarrow> bool" where
  "trustedDir euid r =
     (case r of Inl _ \<Rightarrow> False
      | Inr i \<Rightarrow> \<not> Mode_IsSymlink (fi_Mode i) \<and> Mode_IsDir (fi_Mode i) \<and> trustedOwner euid i
          \<and> (Mode_Perm (fi_Mode i) AND 0x12 = 0
             \<or> Mode_IsSticky (fi_Mode i) \<and> map_option st_Uid (fi_Stat i) = Some 0))"

definition privateFile :: "int \<Rightarrow> file_info \<Rightarrow> bool" where
  "privateFile euid i \<longleftrightarrow>
     Mode_IsRegular (fi_Mode i) \<and> Mode_Perm (fi_Mode i) = 0x180 \<and> trustedOwner euid i"

text \<open>What is known when a guarded read of at most \<open>limit\<close> bytes accepts a file.\<close>

definition safe_read ::
    "nat \<Rightarrow> read_env \<Rightarrow> string \<Rightarrow> string \<Rightarrow> u64 \<Rightarrow> u64 \<Rightarrow> int \<Rightarrow> bool" where
  "safe_read limit env path data dev ino sz \<longleftrightarrow>
     (\<forall>d \<in> set (dirsUpFrom (dirOf path)). trustedDir (ev_euid env) (ev_lstat1 env d))
     \<and> (\<forall>d \<in> set (dirsUpFrom (dirOf path)). trustedDir (ev_euid env) (ev_lstat2 env d))
     \<and> ev_open env = None \<and> ev_close env = None \<and> ev_content env = Inr data
     \<and> length data \<le> limit \<and> sz = int (length data)
     \<and> (\<exists>before after named s. ev_stat1 env = Inr before \<and> ev_stat2 env = Inr after \<and> ev_lstat2 env path = Inr named
          \<and> privateFile (ev_euid env) before \<and> fi_Size before = sz \<and> fi_Size after = sz
          \<and> fi_ModTime before = fi_ModTime after
          \<and> \<not> Mode_IsSymlink (fi_Mode named) \<and> sameFile after named
          \<and> fi_Stat after = Some s \<and> dev = st_Dev s \<and> ino = st_Ino s)"

section \<open>An example\<close>

text \<open>A private file under trusted directories, for witnesses.\<close>

definition sampleFileEnv :: "string \<Rightarrow> read_env" where
  "sampleFileEnv content =
     (let s = \<lparr>st_Dev = 8, st_Ino = 42, st_Uid = 0, st_Gid = 0\<rparr>;
          dir = \<lparr>fi_Mode = 0x800001ED, fi_Size = 4096, fi_ModTime = 7, fi_Stat = Some s\<rparr>;
          file = \<lparr>fi_Mode = 0x180, fi_Size = int (length content), fi_ModTime = 9, fi_Stat = Some s\<rparr>;
          look = (\<lambda>p. if p = ''/etc/resman/points'' then Inr file else Inr dir)
      in \<lparr>ev_euid = 0, ev_lstat1 = look, ev_open = None, ev_stat1 = Inr file, ev_content = Inr content,
          ev_stat2 = Inr file, ev_close = None, ev_lstat2 = look\<rparr>)"

lemma sampleFileEnv_safe:
  assumes "length content \<le> limit"
  shows "safe_read limit (sampleFileEnv content) ''/etc/resman/points'' content 8 42 (int (length content))"
proof -
  have "set (dirsUpFrom (dirOf ''/etc/resman/points'')) = {''/etc/resman'', ''/etc'', ''/''}"
    by (simp add: dirsUpFrom.simps dirOf_def)
  then show ?thesis using assms
    by (simp add: safe_read_def sampleFileEnv_def Let_def trustedDir_def trustedOwner_def privateFile_def
      sameFile_def mode_defs)
qed

section \<open>The interface of a guarded source\<close>

text \<open>
  A loader that reads a file into data and a source record, and later confirms that record: a
  read accepts only what \<open>safe_read\<close> describes and records the digest of the data; a confirmation
  is another accepted read with the same identity and digest.
\<close>

locale guarded_source =
  fixes limit :: nat
    and readSource :: "(string \<Rightarrow> string) \<Rightarrow> read_env \<Rightarrow> string \<Rightarrow> ('e, string \<times> 'src) res"
    and confirm :: "(string \<Rightarrow> string) \<Rightarrow> read_env \<Rightarrow> 'src \<Rightarrow> ('c, unit) res"
    and spath :: "'src \<Rightarrow> string" and sdev :: "'src \<Rightarrow> u64" and sino :: "'src \<Rightarrow> u64"
    and ssize :: "'src \<Rightarrow> int" and sdigest :: "'src \<Rightarrow> string"
  assumes read_safe: "readSource sha env path = Inr (data, src) \<Longrightarrow>
      safe_read limit env path data (sdev src) (sino src) (ssize src)
      \<and> spath src = path \<and> sdigest src = sha data"
    and confirm_reads: "confirm sha env src = Inr u \<Longrightarrow>
      \<exists>data src'. readSource sha env (spath src) = Inr (data, src') \<and> sdev src' = sdev src \<and> sino src' = sino src
        \<and> ssize src' = ssize src \<and> sdigest src' = sdigest src"
begin

text \<open>
  A confirmed source names the same file object with bytes of the same length and digest; with a
  hash that has no collision between the two contents, they are the same bytes.
\<close>

lemma confirmed_same:
  assumes r: "readSource sha env path = Inr (data, src)" and c: "confirm sha env' src = Inr u"
    and no_collision: "\<And>data'. ev_content env' = Inr data' \<Longrightarrow> sha data' = sha data \<Longrightarrow> data' = data"
  shows "safe_read limit env' path data (sdev src) (sino src) (ssize src)"
proof -
  from confirm_reads [OF c] obtain data' src' where
    r': "readSource sha env' (spath src) = Inr (data', src')" and same: "sdev src' = sdev src" "sino src' = sino src"
      "ssize src' = ssize src" "sdigest src' = sdigest src"
    by blast
  from read_safe [OF r] read_safe [OF r'] same have
    safe: "safe_read limit env' path data' (sdev src) (sino src) (ssize src)" and dig: "sha data' = sha data"
    by simp_all
  from safe have "ev_content env' = Inr data'" by (simp add: safe_read_def)
  then have "data' = data" using dig by (rule no_collision)
  with safe show ?thesis by simp
qed

end

end
