(* ===== verification/CpuPoints_File.thy ===== *)
theory CpuPoints_File
  imports CpuPoints_Policy Safe_File
begin

text \<open>
  Loading the CPU Points map from disk (\<^verbatim>\<open>PolicyLoader\<close> of \<^verbatim>\<open>src/internal/cpupoints/policy_file.go\<close>):
  the checks on ancestors and on the opened file, the guarded read, the confirmation of an earlier
  read, and the loader. The theory shows that the guarded read accepts exactly what the contract
  of Safe_File describes.
\<close>

section \<open>Operations\<close>

definition policyMapFileMode :: u32 where "policyMapFileMode = 0x180"

datatype file_error =
    AncestorUninspectable string string
  | AncestorSymlink string
  | AncestorNotDirectory string
  | AncestorOwnerUnknown string
  | AncestorUntrustedOwner string int
  | AncestorWritable string
  | OpenFailed string
  | InspectFailed string
  | NotRegular
  | WrongMode u32
  | OwnerUnknown
  | UntrustedOwner int
  | FileTooLarge int
  | ReadFailed string
  | ReinspectFailed string
  | CloseFailed string
  | ExceedsWhileReading
  | ChangedWhileReading
  | PathUninspectable string
  | PathChangedIdentity
  | UnsupportedMetadata

text \<open>\<^verbatim>\<open>policyFileOwnerUID\<close>.\<close>

definition policyFileOwnerUID :: "file_info \<Rightarrow> int option" where
  "policyFileOwnerUID info = (case fi_Stat info of None \<Rightarrow> None | Some s \<Rightarrow> Some (uint (st_Uid s)))"

definition validateOpenedFile :: "int \<Rightarrow> file_info \<Rightarrow> (file_error, int) res" where
  "validateOpenedFile euid info =
     (if \<not> Mode_IsRegular (fi_Mode info) then Inl NotRegular
      else if Mode_Perm (fi_Mode info) \<noteq> policyMapFileMode then Inl (WrongMode (Mode_Perm (fi_Mode info)))
      else (case policyFileOwnerUID info of
              None \<Rightarrow> Inl OwnerUnknown
            | Some owner \<Rightarrow>
                if owner \<noteq> 0 \<and> owner \<noteq> euid then Inl (UntrustedOwner owner) else Inr owner))"

text \<open>One round of the loop of \<^verbatim>\<open>validateAncestors\<close>, up to the step to the parent.\<close>

definition validateAncestor :: "int \<Rightarrow> string \<Rightarrow> (string, file_info) res \<Rightarrow> (file_error, unit) res" where
  "validateAncestor euid current r =
     (case r of
        Inl e \<Rightarrow> Inl (AncestorUninspectable current e)
      | Inr info \<Rightarrow>
          if Mode_IsSymlink (fi_Mode info) then Inl (AncestorSymlink current)
          else if \<not> Mode_IsDir (fi_Mode info) then Inl (AncestorNotDirectory current)
          else (case policyFileOwnerUID info of
                  None \<Rightarrow> Inl (AncestorOwnerUnknown current)
                | Some owner \<Rightarrow>
                    if owner \<noteq> 0 \<and> owner \<noteq> euid then Inl (AncestorUntrustedOwner current owner)
                    else
                      (let writableByOthers = (Mode_Perm (fi_Mode info) AND 0x12 \<noteq> 0);
                           stickyRootBoundary = (Mode_IsSticky (fi_Mode info) \<and> owner = 0)
                       in if writableByOthers \<and> \<not> stickyRootBoundary then Inl (AncestorWritable current)
                          else Inr ())))"

function validateAncestorsFrom ::
    "int \<Rightarrow> (string \<Rightarrow> (string, file_info) res) \<Rightarrow> string \<Rightarrow> (file_error, unit) res" where
  "validateAncestorsFrom euid lstat current =
     (case validateAncestor euid current (lstat current) of
        Inl e \<Rightarrow> Inl e
      | Inr _ \<Rightarrow>
          if dirOf current = current then Inr () else validateAncestorsFrom euid lstat (dirOf current))"
  by pat_completeness auto
termination
  by (relation "measure (\<lambda>(_, _, p). dirDepth p)") (simp_all add: dirOf_depth)

declare validateAncestorsFrom.simps [simp del]

definition validateAncestors ::
    "int \<Rightarrow> (string \<Rightarrow> (string, file_info) res) \<Rightarrow> string \<Rightarrow> (file_error, unit) res" where
  "validateAncestors euid lstat path = validateAncestorsFrom euid lstat (dirOf path)"

text \<open>
  The part of \<^verbatim>\<open>readSafePolicyFile\<close> after the opened file is validated: \<^verbatim>\<open>io.LimitReader\<close> cuts the
  content one byte above the maximum.
\<close>

definition readOpenedFile ::
    "(string \<Rightarrow> string) \<Rightarrow> read_env \<Rightarrow> policy_map_path \<Rightarrow> file_info \<Rightarrow> (file_error, string \<times> policy_source) res" where
  "readOpenedFile sha256 env path info =
     (case ev_content env of
        Inl e \<Rightarrow> Inl (ReadFailed e)
      | Inr content \<Rightarrow>
     (case ev_stat2 env of
        Inl e \<Rightarrow> Inl (ReinspectFailed e)
      | Inr after \<Rightarrow>
     (case ev_close env of
        Some e \<Rightarrow> Inl (CloseFailed e)
      | None \<Rightarrow>
     (let data = take (MaximumPolicyMapBytes + 1) content in
      if length data > MaximumPolicyMapBytes then Inl ExceedsWhileReading
      else if fi_Size info \<noteq> fi_Size after \<or> fi_ModTime info \<noteq> fi_ModTime after \<or> int (length data) \<noteq> fi_Size after
      then Inl ChangedWhileReading
      else
     (case validateAncestors (ev_euid env) (ev_lstat2 env) (path_of path) of
        Inl e \<Rightarrow> Inl e
      | Inr _ \<Rightarrow>
     (case ev_lstat2 env (path_of path) of
        Inl e \<Rightarrow> Inl (PathUninspectable e)
      | Inr pathInfo \<Rightarrow>
          if Mode_IsSymlink (fi_Mode pathInfo) \<or> \<not> sameFile after pathInfo then Inl PathChangedIdentity
          else (case fi_Stat after of
                  None \<Rightarrow> Inl UnsupportedMetadata
                | Some s \<Rightarrow>
                    Inr (data, \<lparr>ps_path = path, ps_dev = st_Dev s, ps_inode = st_Ino s,
                                ps_size = fi_Size after, ps_digest = sha256 data\<rparr>))))))))"

definition readSafePolicyFile ::
    "(string \<Rightarrow> string) \<Rightarrow> read_env \<Rightarrow> policy_map_path \<Rightarrow> (file_error, string \<times> policy_source) res" where
  "readSafePolicyFile sha256 env path =
     (case validateAncestors (ev_euid env) (ev_lstat1 env) (path_of path) of
        Inl e \<Rightarrow> Inl e
      | Inr _ \<Rightarrow>
     (case ev_open env of
        Some e \<Rightarrow> Inl (OpenFailed e)
      | None \<Rightarrow>
     (case ev_stat1 env of
        Inl e \<Rightarrow> Inl (InspectFailed e)
      | Inr info \<Rightarrow>
     (case validateOpenedFile (ev_euid env) info of
        Inl e \<Rightarrow> Inl e
      | Inr _ \<Rightarrow>
          if fi_Size info > int MaximumPolicyMapBytes then Inl (FileTooLarge (fi_Size info))
          else readOpenedFile sha256 env path info))))"

datatype confirm_error = ConfirmReadFailed file_error | SourceChanged | SourceContentChanged

definition ConfirmSource :: "(string \<Rightarrow> string) \<Rightarrow> read_env \<Rightarrow> policy_source \<Rightarrow> (confirm_error, unit) res" where
  "ConfirmSource sha256 env source =
     (case readSafePolicyFile sha256 env (ps_path source) of
        Inl e \<Rightarrow> Inl (ConfirmReadFailed e)
      | Inr (data, current) \<Rightarrow>
          if ps_dev current \<noteq> ps_dev source \<or> ps_inode current \<noteq> ps_inode source
             \<or> ps_size current \<noteq> ps_size source \<or> ps_digest current \<noteq> ps_digest source
          then Inl SourceChanged
          else if sha256 data \<noteq> ps_digest source then Inl SourceContentChanged
          else Inr ())"

datatype load_error = LoadBadPath path_error | LoadFileError file_error | LoadPolicyError policy_error

text \<open>\<^verbatim>\<open>PolicyLoader.Load\<close> of a loader made by \<^verbatim>\<open>NewPolicyLoader\<close>.\<close>

definition Load ::
    "(string \<Rightarrow> string) \<Rightarrow> read_env \<Rightarrow> policy_inputs \<Rightarrow> identity_resolver \<Rightarrow> (load_error, policy_snapshot) res" where
  "Load sha256 env inputs resolver =
     (case NewPolicyMapPath (path_of (in_MapPath inputs)) of
        Inl e \<Rightarrow> Inl (LoadBadPath e)
      | Inr mapPath \<Rightarrow>
          (case readSafePolicyFile sha256 env mapPath of
             Inl e \<Rightarrow> Inl (LoadFileError e)
           | Inr (data, source) \<Rightarrow>
               (case loadContent inputs data source resolver of
                  Inl e \<Rightarrow> Inl (LoadPolicyError e) | Inr s \<Rightarrow> Inr s)))"

section \<open>Lemmas\<close>

lemma validateAncestor_trusted:
  "validateAncestor euid current r = Inr () \<longleftrightarrow> trustedDir euid r"
  by (auto simp: validateAncestor_def trustedDir_def trustedOwner_def policyFileOwnerUID_def Let_def
    unsigned_eq_0_iff split: sum.splits option.splits)

lemma validateAncestorsFrom_trusted:
  "validateAncestorsFrom euid lstat d = Inr () \<longleftrightarrow> (\<forall>d' \<in> set (dirsUpFrom d). trustedDir euid (lstat d'))"
proof (induction d rule: dirsUpFrom.induct)
  case (1 d)
  show ?case
    using 1 validateAncestor_trusted [of euid d "lstat d"]
    by (subst validateAncestorsFrom.simps, subst dirsUpFrom.simps) (auto split: sum.splits)
qed

lemma validateAncestors_trusted:
  "validateAncestors euid lstat path = Inr u \<longleftrightarrow> (\<forall>d \<in> set (dirsUpFrom (dirOf path)). trustedDir euid (lstat d))"
  by (simp add: validateAncestors_def validateAncestorsFrom_trusted)

lemma validateOpenedFile_private:
  "(\<exists>owner. validateOpenedFile euid info = Inr owner) \<longleftrightarrow> privateFile euid info"
  by (auto simp: validateOpenedFile_def privateFile_def trustedOwner_def policyFileOwnerUID_def
    policyMapFileMode_def split: option.splits)

lemma take_whole: "length (take (Suc n) xs) \<le> n \<longleftrightarrow> length xs \<le> n" "length xs \<le> n \<Longrightarrow> take (Suc n) xs = xs"
  by auto

text \<open>The guarded read accepts exactly what the contract describes.\<close>

lemma readSafePolicyFile_Inr:
  assumes "readSafePolicyFile sha256 env path = Inr (data, source)"
  shows "safe_read MaximumPolicyMapBytes env (path_of path) data (ps_dev source) (ps_inode source) (ps_size source)
    \<and> ps_path source = path \<and> ps_digest source = sha256 data"
proof -
  from assms obtain info owner where first: "validateAncestors (ev_euid env) (ev_lstat1 env) (path_of path) = Inr ()"
      "ev_open env = None" "ev_stat1 env = Inr info" "validateOpenedFile (ev_euid env) info = Inr owner"
      "fi_Size info \<le> int MaximumPolicyMapBytes" and r: "readOpenedFile sha256 env path info = Inr (data, source)"
    by (auto simp: readSafePolicyFile_def split: sum.splits option.splits if_splits)
  from r obtain content after pathInfo s where second: "ev_content env = Inr content" "ev_stat2 env = Inr after"
      "ev_close env = None" "validateAncestors (ev_euid env) (ev_lstat2 env) (path_of path) = Inr ()"
      "ev_lstat2 env (path_of path) = Inr pathInfo" "\<not> Mode_IsSymlink (fi_Mode pathInfo)" "sameFile after pathInfo"
      "fi_Stat after = Some s" "fi_Size info = fi_Size after" "fi_ModTime info = fi_ModTime after"
    and data: "data = take (Suc MaximumPolicyMapBytes) content" "length data \<le> MaximumPolicyMapBytes"
      "int (length data) = fi_Size after"
    and source: "source = \<lparr>ps_path = path, ps_dev = st_Dev s, ps_inode = st_Ino s, ps_size = fi_Size after,
      ps_digest = sha256 data\<rparr>"
    by (auto simp: readOpenedFile_def Let_def split: sum.splits option.splits if_splits)
  have "length content \<le> MaximumPolicyMapBytes"
    using data(1,2) take_whole(1) [of MaximumPolicyMapBytes content] by simp
  then have "data = content" using data(1) take_whole(2) by simp
  moreover have "privateFile (ev_euid env) info" using first(4) validateOpenedFile_private by blast
  ultimately show ?thesis using first second data(2,3) source by (simp add: safe_read_def validateAncestors_trusted)
qed

lemma readSafePolicyFile_accepts:
  assumes "safe_read MaximumPolicyMapBytes env (path_of path) data dev ino sz"
  shows "readSafePolicyFile sha256 env path
    = Inr (data, \<lparr>ps_path = path, ps_dev = dev, ps_inode = ino, ps_size = sz, ps_digest = sha256 data\<rparr>)"
proof -
  from assms obtain info after named s where e: "ev_stat1 env = Inr info" "ev_stat2 env = Inr after"
      "ev_lstat2 env (path_of path) = Inr named" "privateFile (ev_euid env) info" "fi_Size info = sz" "fi_Size after = sz"
      "fi_ModTime info = fi_ModTime after" "\<not> Mode_IsSymlink (fi_Mode named)" "sameFile after named"
      "fi_Stat after = Some s" "dev = st_Dev s" "ino = st_Ino s"
    unfolding safe_read_def by blast
  from assms have f: "validateAncestors (ev_euid env) (ev_lstat1 env) (path_of path) = Inr ()"
    "validateAncestors (ev_euid env) (ev_lstat2 env) (path_of path) = Inr ()" "ev_open env = None"
    "ev_close env = None" "ev_content env = Inr data" "length data \<le> MaximumPolicyMapBytes" "sz = int (length data)"
    by (auto simp: safe_read_def validateAncestors_trusted)
  obtain owner where "validateOpenedFile (ev_euid env) info = Inr owner"
    using e(4) validateOpenedFile_private by blast
  with e f show ?thesis
    by (simp add: readSafePolicyFile_def readOpenedFile_def take_whole)
qed

lemma ConfirmSource_reads:
  "ConfirmSource sha env src = Inr u \<Longrightarrow>
     \<exists>data src'. readSafePolicyFile sha env (ps_path src) = Inr (data, src') \<and> ps_dev src' = ps_dev src
       \<and> ps_inode src' = ps_inode src \<and> ps_size src' = ps_size src \<and> ps_digest src' = ps_digest src"
  by (auto simp: ConfirmSource_def split: sum.splits if_splits)

interpretation points_file: guarded_source MaximumPolicyMapBytes
    "\<lambda>sha env path. readSafePolicyFile sha env (PolicyMapPath path)" ConfirmSource
    "\<lambda>src. path_of (ps_path src)" ps_dev ps_inode ps_size ps_digest
  by unfold_locales (auto dest!: readSafePolicyFile_Inr ConfirmSource_reads)

section \<open>Properties\<close>

text \<open>
  Property C15: the guarded read of the CPU Points map returns data exactly when every ancestor
  directory up to the root is trusted before and after the read, the opened file is a regular file
  of mode 0600 owned by root or the daemon, it did not change while it was read, it is at most
  65536 bytes long and the path still names the object that was read; the source it returns is that
  object's identity with the digest of the data.
\<close>

theorem read_safe_policy_file_iff:
  "readSafePolicyFile sha256 env path = Inr (data, source) \<longleftrightarrow>
     safe_read MaximumPolicyMapBytes env (path_of path) data (ps_dev source) (ps_inode source) (ps_size source)
     \<and> ps_path source = path \<and> ps_digest source = sha256 data"
proof
  assume "readSafePolicyFile sha256 env path = Inr (data, source)"
  then show "safe_read MaximumPolicyMapBytes env (path_of path) data (ps_dev source) (ps_inode source) (ps_size source)
     \<and> ps_path source = path \<and> ps_digest source = sha256 data"
    by (rule readSafePolicyFile_Inr)
next
  assume safe: "safe_read MaximumPolicyMapBytes env (path_of path) data (ps_dev source) (ps_inode source) (ps_size source)
     \<and> ps_path source = path \<and> ps_digest source = sha256 data"
  from readSafePolicyFile_accepts [OF conjunct1 [OF safe], of sha256] safe
  show "readSafePolicyFile sha256 env path = Inr (data, source)" by (cases source) simp
qed

text \<open>
  A successful confirmation after a successful load means that the path again names
  the same trusted object with the same bytes, unless the hash collides on the two contents.
\<close>

theorem confirmed_source_unchanged:
  assumes "readSafePolicyFile sha256 env path = Inr (data, source)"
    and "ConfirmSource sha256 env' source = Inr ()"
    and "\<And>data'. ev_content env' = Inr data' \<Longrightarrow> sha256 data' = sha256 data \<Longrightarrow> data' = data"
  shows "safe_read MaximumPolicyMapBytes env' (path_of path) data (ps_dev source) (ps_inode source) (ps_size source)"
  using points_file.confirmed_same [of sha256 env "path_of path" data source env' "()"] assms by simp

theorem confirmed_source_unchanged_witness:
  "safe_read MaximumPolicyMapBytes (sampleFileEnv ''abc'') (path_of (PolicyMapPath ''/etc/resman/points'')) ''abc'' 8 42 3"
proof -
  have safe: "safe_read MaximumPolicyMapBytes (sampleFileEnv ''abc'') (path_of (PolicyMapPath ''/etc/resman/points''))
      ''abc'' 8 42 3"
    using sampleFileEnv_safe [of "''abc''"] by (simp add: MaximumPolicyMapBytes_def)
  note r = readSafePolicyFile_accepts [OF safe, of "\<lambda>d. d"]
  have c: "ConfirmSource (\<lambda>d. d) (sampleFileEnv ''abc'') \<lparr>ps_path = PolicyMapPath ''/etc/resman/points'',
      ps_dev = 8, ps_inode = 42, ps_size = 3, ps_digest = ''abc''\<rparr> = Inr ()"
    by (simp add: ConfirmSource_def r)
  from confirmed_source_unchanged [OF r c] show ?thesis by simp
qed

end
