(* ===== verification/CpuPoints_Editor.thy ===== *)
theory CpuPoints_Editor
  imports CpuPoints_File
begin

text \<open>
  The editor of the CPU Points map (\<^verbatim>\<open>src/internal/cpupoints/editor.go\<close>): merging a patch into the
  authored bytes, preparing a validated candidate, replacing the file atomically and rolling back.
  The file system's answers are parameters; the target path is a state that only a successful
  rename changes.
\<close>

section \<open>Data\<close>

record policy_editor_change =
  ec_Username :: string
  ec_Points :: "u64 option"

datatype merge_error =
    InvalidUsername string
  | DuplicatePatchUsername string
  | MalformedMapLine nat
  | MapDuplicatesUsername string

datatype editor_error =
    EmptyPatch
  | EditorReadFailed file_error
  | RevisionConflict "string list"
  | EditorLstatFailed string
  | EditorUnsupportedMetadata
  | InvalidPatch "string list" merge_error
  | NoChange "string list"
  | EditorLoadFailed policy_error

record policy_editor_candidate =
  pc_path :: policy_map_path
  pc_expected :: policy_source
  pc_content :: string
  pc_original :: string
  pc_uid :: int
  pc_gid :: int
  pc_policy :: policy_snapshot

section \<open>Merging\<close>

text \<open>\<^verbatim>\<open>strings.ContainsAny(username, "=\r\n\x00")\<close> and the other tests on a username of the patch.\<close>

definition validChangeUsername :: "string \<Rightarrow> bool" where
  "validChangeUsername u \<longleftrightarrow>
     \<not> (u = [] \<or> isPadded u \<or> list_ex (\<lambda>c. c = CHR ''='' \<or> c = CR \<or> c = LF \<or> byte_of c = 0) u)"

fun collectUpdates ::
    "(string \<times> u64 option) list \<Rightarrow> policy_editor_change list \<Rightarrow> (merge_error, (string \<times> u64 option) list) res" where
  "collectUpdates updates [] = Inr updates"
| "collectUpdates updates (c # cs) =
     (if \<not> validChangeUsername (ec_Username c) then Inl (InvalidUsername (ec_Username c))
      else if map_of updates (ec_Username c) \<noteq> None then Inl (DuplicatePatchUsername (ec_Username c))
      else collectUpdates (AList.update (ec_Username c) (ec_Points c) updates) cs)"

definition assignmentLine :: "string \<Rightarrow> u64 \<Rightarrow> string" where
  "assignmentLine name points = name @ CHR ''='' # formatUint (unat points)"

text \<open>
  The loop over the lines: \<open>index\<close> counts from 0, the result is the merged lines and the names seen.
\<close>

fun mergeLines ::
    "(string \<times> u64 option) list \<Rightarrow> nat \<Rightarrow> string list \<Rightarrow> string list \<Rightarrow>
     (merge_error, string list \<times> string list) res" where
  "mergeLines updates index seen [] = Inr ([], seen)"
| "mergeLines updates index seen (line # lines) =
     (if index = 0 \<or> line = [] \<or> hasPrefix line ''#''
      then (case mergeLines updates (Suc index) seen lines of
              Inl e \<Rightarrow> Inl e | Inr (merged, seen') \<Rightarrow> Inr (line # merged, seen'))
      else (case cutAt (CHR ''='') line of (name, _, found) \<Rightarrow>
        if \<not> found then Inl (MalformedMapLine (Suc index))
        else (case map_of updates name of
                None \<Rightarrow>
                  (case mergeLines updates (Suc index) seen lines of
                     Inl e \<Rightarrow> Inl e | Inr (merged, seen') \<Rightarrow> Inr (line # merged, seen'))
              | Some points \<Rightarrow>
                  if name \<in> set seen then Inl (MapDuplicatesUsername name)
                  else (case mergeLines updates (Suc index) (name # seen) lines of
                          Inl e \<Rightarrow> Inl e
                        | Inr (merged, seen') \<Rightarrow>
                            Inr ((case points of Some p \<Rightarrow> [assignmentLine name p] | None \<Rightarrow> []) @ merged, seen')))))"

definition mergePolicyMap :: "string \<Rightarrow> policy_editor_change list \<Rightarrow> (merge_error, string) res" where
  "mergePolicyMap original changes =
     (case collectUpdates [] changes of
        Inl e \<Rightarrow> Inl e
      | Inr updates \<Rightarrow>
          (case mergeLines updates 0 [] (splitOn LF original) of
             Inl e \<Rightarrow> Inl e
           | Inr (merged, seen) \<Rightarrow>
               (let names = sort (map fst (filter (\<lambda>(name, points). name \<notin> set seen \<and> points \<noteq> None) updates));
                    added = map (\<lambda>name. assignmentLine name (the (the (map_of updates name)))) names
                in Inr (joinWith LF (merged @ added)))))"

section \<open>Preparing, persisting and rolling back\<close>

definition samePolicySource :: "policy_source \<Rightarrow> policy_source \<Rightarrow> bool" where
  "samePolicySource left right \<longleftrightarrow>
     ps_path left = ps_path right \<and> ps_dev left = ps_dev right \<and> ps_inode left = ps_inode right
     \<and> ps_size left = ps_size right \<and> ps_digest left = ps_digest right"

definition policyEditorUsernames :: "policy_editor_change list \<Rightarrow> string list" where
  "policyEditorUsernames changes = map ec_Username changes"

text \<open>\<open>lstatPath\<close> is the answer of the second inspection, \<^verbatim>\<open>os.Lstat(inputs.MapPath)\<close>.\<close>

definition PreparePolicyEditorCandidate ::
    "(string \<Rightarrow> string) \<Rightarrow> read_env \<Rightarrow> (string, file_info) res \<Rightarrow> policy_inputs \<Rightarrow> policy_source \<Rightarrow>
     policy_editor_change list \<Rightarrow> identity_resolver \<Rightarrow> (editor_error, policy_editor_candidate) res" where
  "PreparePolicyEditorCandidate sha256 env lstatPath inputs expected changes resolver =
     (if changes = [] then Inl EmptyPatch
      else (case readSafePolicyFile sha256 env (in_MapPath inputs) of
        Inl e \<Rightarrow> Inl (EditorReadFailed e)
      | Inr (data, current) \<Rightarrow>
          if \<not> samePolicySource current expected then Inl (RevisionConflict (policyEditorUsernames changes))
          else (case lstatPath of
            Inl e \<Rightarrow> Inl (EditorLstatFailed e)
          | Inr info \<Rightarrow>
         (case fi_Stat info of
            None \<Rightarrow> Inl EditorUnsupportedMetadata
          | Some s \<Rightarrow>
         (case mergePolicyMap data changes of
            Inl e \<Rightarrow> Inl (InvalidPatch (policyEditorUsernames changes) e)
          | Inr content \<Rightarrow>
              if content = data then Inl (NoChange (policyEditorUsernames changes))
              else (case LoadContent sha256 inputs content resolver of
                      Inl e \<Rightarrow> Inl (EditorLoadFailed e)
                    | Inr policy \<Rightarrow>
                        Inr \<lparr>pc_path = in_MapPath inputs, pc_expected = expected, pc_content = content,
                             pc_original = data, pc_uid = uint (st_Uid s), pc_gid = uint (st_Gid s),
                             pc_policy = policy\<rparr>))))))"

text \<open>
  What the target path names: content, owner and mode. \<^verbatim>\<open>writePolicyEditorFile\<close> works on a temporary
  file and renames it; \<open>we_*\<close> are the errors of its system calls, \<open>None\<close> for success.
\<close>

record map_file =
  mf_content :: string
  mf_uid :: int
  mf_gid :: int
  mf_mode :: u32

record write_env =
  we_create :: "string option"
  we_chown :: "string option"
  we_chmod :: "string option"
  we_write :: "string option"
  we_sync :: "string option"
  we_close :: "string option"
  we_rename :: "string option"
  we_openDir :: "string option"
  we_syncDir :: "string option"
  we_closeDir :: "string option"

datatype write_error =
    CreateTempFailed string | ChownFailed string | ChmodFailed string | WriteFailed string
  | SyncFailed string | CloseTempFailed string | RenameFailed string | OpenParentFailed string
  | SyncParentFailed "string option" "string option"

definition writePolicyEditorFile ::
    "write_env \<Rightarrow> string \<Rightarrow> int \<Rightarrow> int \<Rightarrow> map_file option \<Rightarrow> (write_error, unit) res \<times> map_file option" where
  "writePolicyEditorFile env content uid gid target =
     (case we_create env of Some e \<Rightarrow> (Inl (CreateTempFailed e), target) | None \<Rightarrow>
     (case we_chown env of Some e \<Rightarrow> (Inl (ChownFailed e), target) | None \<Rightarrow>
     (case we_chmod env of Some e \<Rightarrow> (Inl (ChmodFailed e), target) | None \<Rightarrow>
     (case we_write env of Some e \<Rightarrow> (Inl (WriteFailed e), target) | None \<Rightarrow>
     (case we_sync env of Some e \<Rightarrow> (Inl (SyncFailed e), target) | None \<Rightarrow>
     (case we_close env of Some e \<Rightarrow> (Inl (CloseTempFailed e), target) | None \<Rightarrow>
     (case we_rename env of Some e \<Rightarrow> (Inl (RenameFailed e), target) | None \<Rightarrow>
       (let target' = Some \<lparr>mf_content = content, mf_uid = uid, mf_gid = gid, mf_mode = policyMapFileMode\<rparr> in
        case we_openDir env of Some e \<Rightarrow> (Inl (OpenParentFailed e), target')
        | None \<Rightarrow>
            if we_syncDir env \<noteq> None \<or> we_closeDir env \<noteq> None
            then (Inl (SyncParentFailed (we_syncDir env) (we_closeDir env)), target')
            else (Inr (), target')))))))))"

datatype persist_error =
    PersistConfirmFailed confirm_error
  | OtherSourceChanged string
  | PersistWriteFailed write_error
  | PersistReadFailed file_error
  | PersistReplaced

text \<open>\<open>before\<close> and \<open>after\<close> are the environments of the confirmation and of the final read.\<close>

definition Persist ::
    "(string \<Rightarrow> string) \<Rightarrow> policy_editor_candidate \<Rightarrow> read_env \<Rightarrow> string option \<Rightarrow> write_env \<Rightarrow> read_env \<Rightarrow>
     map_file option \<Rightarrow> (persist_error, policy_source) res \<times> map_file option" where
  "Persist sha256 c before otherSource wenv after target =
     (case ConfirmSource sha256 before (pc_expected c) of
        Inl e \<Rightarrow> (Inl (PersistConfirmFailed e), target)
      | Inr _ \<Rightarrow>
     (case otherSource of
        Some e \<Rightarrow> (Inl (OtherSourceChanged e), target)
      | None \<Rightarrow>
     (case writePolicyEditorFile wenv (pc_content c) (pc_uid c) (pc_gid c) target of
        (Inl e, target') \<Rightarrow> (Inl (PersistWriteFailed e), target')
      | (Inr _, target') \<Rightarrow>
     (case readSafePolicyFile sha256 after (pc_path c) of
        Inl e \<Rightarrow> (Inl (PersistReadFailed e), target')
      | Inr (content, persisted) \<Rightarrow>
          if content \<noteq> pc_content c then (Inl PersistReplaced, target') else (Inr persisted, target')))))"

datatype rollback_error = RollbackRefused confirm_error | RollbackWriteFailed write_error

definition Rollback ::
    "(string \<Rightarrow> string) \<Rightarrow> policy_editor_candidate \<Rightarrow> policy_source \<Rightarrow> read_env \<Rightarrow> write_env \<Rightarrow> map_file option \<Rightarrow>
     (rollback_error, unit) res \<times> map_file option" where
  "Rollback sha256 c expectedPersisted env wenv target =
     (case ConfirmSource sha256 env expectedPersisted of
        Inl e \<Rightarrow> (Inl (RollbackRefused e), target)
      | Inr _ \<Rightarrow>
          (case writePolicyEditorFile wenv (pc_original c) (pc_uid c) (pc_gid c) target of
             (Inl e, target') \<Rightarrow> (Inl (RollbackWriteFailed e), target')
           | (Inr _, target') \<Rightarrow> (Inr (), target')))"

section \<open>What a line assigns\<close>

definition skippedLine :: "string \<Rightarrow> bool" where
  "skippedLine l \<longleftrightarrow> l = [] \<or> hasPrefix l ''#''"

definition lineAssigns :: "string \<Rightarrow> string \<Rightarrow> nat \<Rightarrow> bool" where
  "lineAssigns l u n \<longleftrightarrow>
     \<not> skippedLine l
     \<and> (\<exists>v g. cutAt (CHR ''='') l = (u, v, True) \<and> parseConfiguredGuarantee v = Inr g \<and> n = unat (cgp g))"

definition entryPair :: "raw_policy_entry \<Rightarrow> string \<times> nat" where
  "entryPair e = (re_username e, unat (cgp (re_points e)))"

text \<open>The points a parsed map gives a username.\<close>

definition pointsOf :: "raw_policy_entry list \<Rightarrow> string \<Rightarrow> nat option" where
  "pointsOf es = map_of (map entryPair es)"

lemma parseAssignment_assigns:
  assumes "parseAssignment seen n k l = Inr e" "\<not> skippedLine l"
  shows "lineAssigns l u m \<longleftrightarrow> (u, m) = entryPair e"
proof -
  obtain a v f where cut: "cutAt (CHR ''='') l = (a, v, f)" by (cases "cutAt (CHR ''='') l") auto
  with assms show ?thesis
    by (auto simp: parseAssignment_def lineAssigns_def entryPair_def split: if_splits option.splits sum.splits)
qed

lemma parsePolicyLines_assigns:
  "parsePolicyLines k seen acc lines = Inr es \<Longrightarrow>
     (u, n) \<in> entryPair ` set es \<longleftrightarrow> (u, n) \<in> entryPair ` set acc \<or> (\<exists>l \<in> set lines. lineAssigns l u n)"
proof (induction k seen acc lines rule: parsePolicyLines.induct)
  case (2 k seen acc line lines)
  show ?case
  proof (cases "skippedLine line")
    case True
    then have "\<not> lineAssigns line u n" by (simp add: lineAssigns_def)
    with True 2(1,2,4) show ?thesis by (auto simp: skippedLine_def split: if_splits)
  next
    case False
    then have line: "line \<noteq> []" "\<not> hasPrefix line ''#''" by (auto simp: skippedLine_def)
    with 2(4) obtain e where ctl: "\<not> containsControlRune line" and e: "parseAssignment seen (length acc) k line = Inr e"
      by (auto split: if_splits sum.splits)
    have "parsePolicyLines (Suc k) (AList.update (re_username e) k seen) (acc @ [e]) lines = Inr es"
      using 2(4) line ctl e by simp
    from 2(3) [OF line(1) ctl line(2) e this] parseAssignment_assigns [OF e False] show ?thesis by auto
  qed
qed simp

lemma parsePolicyLines_total:
  "parsePolicyLines k seen acc lines = Inr es \<Longrightarrow> l \<in> set lines \<Longrightarrow> skippedLine l \<or> (\<exists>u n. lineAssigns l u n)"
proof (induction k seen acc lines rule: parsePolicyLines.induct)
  case (2 k seen acc line lines)
  show ?case
  proof (cases "skippedLine line")
    case True
    with 2(1,2,4,5) show ?thesis by (auto simp: skippedLine_def split: if_splits)
  next
    case False
    then have line: "line \<noteq> []" "\<not> hasPrefix line ''#''" by (auto simp: skippedLine_def)
    with 2(4) obtain e where ctl: "\<not> containsControlRune line" and e: "parseAssignment seen (length acc) k line = Inr e"
      by (auto split: if_splits sum.splits)
    have "parsePolicyLines (Suc k) (AList.update (re_username e) k seen) (acc @ [e]) lines = Inr es"
      using 2(4) line ctl e by simp
    with 2(3) [OF line(1) ctl line(2) e this] 2(5) parseAssignment_assigns [OF e False] show ?thesis
      by (auto simp: entryPair_def)
  qed
qed simp

text \<open>A map without carriage returns that parses assigns what its lines after the marker assign.\<close>

lemma parsePolicyMap_assigns:
  assumes "parsePolicyMap data = Inr es" "CR \<notin> set data"
  shows "hd (splitOn LF data) = PolicyMapMarker"
    and "pointsOf es u = Some n \<longleftrightarrow> (\<exists>l \<in> set (tl (splitOn LF data)). lineAssigns l u n)"
    and "l \<in> set (tl (splitOn LF data)) \<Longrightarrow> skippedLine l \<or> (\<exists>u n. lineAssigns l u n)"
proof -
  have "no_cr data" using assms(2) by (simp add: no_cr_CR)
  with assms(1) have lines: "parsePolicyLines 2 [] [] (tl (splitOn LF data)) = Inr es"
      "hd (splitOn LF data) = PolicyMapMarker"
    by (auto simp: parsePolicyMap_def Let_def split: if_splits)
  show "hd (splitOn LF data) = PolicyMapMarker" by (rule lines(2))
  have "distinct (map fst (map entryPair es))"
    using parsePolicyMap_ok [OF assms(1)] by (simp add: raw_entries_ok_def entryPair_def comp_def)
  then have "pointsOf es u = Some n \<longleftrightarrow> (u, n) \<in> entryPair ` set es" by (simp add: pointsOf_def map_of_eq_Some_iff)
  with parsePolicyLines_assigns [OF lines(1)]
  show "pointsOf es u = Some n \<longleftrightarrow> (\<exists>l \<in> set (tl (splitOn LF data)). lineAssigns l u n)" by simp
  show "l \<in> set (tl (splitOn LF data)) \<Longrightarrow> skippedLine l \<or> (\<exists>u n. lineAssigns l u n)"
    by (rule parsePolicyLines_total [OF lines(1)])
qed

section \<open>What merging does\<close>

lemma collectUpdates_Inr:
  "collectUpdates updates changes = Inr updates' \<Longrightarrow> \<forall>u \<in> fst ` set updates. validChangeUsername u \<Longrightarrow>
   distinct (map fst updates) \<Longrightarrow>
     (\<forall>u \<in> fst ` set updates'. validChangeUsername u) \<and> distinct (map fst updates')
     \<and> map_of updates' = (\<lambda>u. case map_of updates u of Some p \<Rightarrow> Some p
          | None \<Rightarrow> map_of (map (\<lambda>c. (ec_Username c, ec_Points c)) changes) u)"
proof (induction updates changes rule: collectUpdates.induct)
  case (2 updates c cs)
  from 2(2) have ok: "validChangeUsername (ec_Username c)" "map_of updates (ec_Username c) = None"
    and rest: "collectUpdates (AList.update (ec_Username c) (ec_Points c) updates) cs = Inr updates'"
    by (auto split: if_splits)
  have "\<forall>u \<in> fst ` set (AList.update (ec_Username c) (ec_Points c) updates). validChangeUsername u"
    using 2(3) ok by (simp only: AList.dom_update) simp
  moreover have "distinct (map fst (AList.update (ec_Username c) (ec_Points c) updates))"
    using 2(4) by (rule distinct_update)
  ultimately have "(\<forall>u \<in> fst ` set updates'. validChangeUsername u) \<and> distinct (map fst updates')
     \<and> map_of updates' = (\<lambda>u. case ((map_of updates)(ec_Username c \<mapsto> ec_Points c)) u of Some p \<Rightarrow> Some p
          | None \<Rightarrow> map_of (map (\<lambda>c. (ec_Username c, ec_Points c)) cs) u)"
    by (intro 2(1) [unfolded map_of_update, OF _ _ rest]) (use ok in auto)
  moreover have "(case ((map_of updates)(ec_Username c \<mapsto> ec_Points c)) u of Some p \<Rightarrow> Some p
          | None \<Rightarrow> map_of (map (\<lambda>c. (ec_Username c, ec_Points c)) cs) u)
      = (case map_of updates u of Some p \<Rightarrow> Some p
          | None \<Rightarrow> map_of (map (\<lambda>c. (ec_Username c, ec_Points c)) (c # cs)) u)" for u
    using ok(2) by (cases "u = ec_Username c"; cases "map_of updates u") auto
  ultimately show ?case by simp
qed (auto split: option.splits)

lemma assignmentLine_assigns:
  assumes "validChangeUsername u" "\<not> hasPrefix u ''#''"
  shows "lineAssigns (assignmentLine u p) w n \<longleftrightarrow> w = u \<and> n = unat p \<and> 1 \<le> n \<and> n \<le> 1000"
    and "\<not> skippedLine (assignmentLine u p)"
proof -
  have u: "u \<noteq> []" "CHR ''='' \<notin> set u" using assms(1) by (auto simp: validChangeUsername_def list_ex_iff)
  then show skip: "\<not> skippedLine (assignmentLine u p)"
    using assms(2) by (cases u) (auto simp: skippedLine_def assignmentLine_def)
  have bounds: "1 \<le> unat p \<and> unat p \<le> 1000 \<and> unat (cgp g) = unat p"
    if "parseConfiguredGuarantee (formatUint (unat p)) = Inr g" for g
    using that unat_u64_less [of p]
    by (auto simp: parseConfiguredGuarantee_def parseUint_formatUint NewConfiguredGuaranteePoints_def
      validateRange_cases cpu_points_constants unat_simps split: if_splits)
  have accept: "parseConfiguredGuarantee (formatUint (unat p)) = Inr (ConfiguredGuaranteePoints (u16_of_u64 p))"
    if "1 \<le> unat p" "unat p \<le> 1000"
    using that parseConfiguredGuarantee_format [of "ConfiguredGuaranteePoints (u16_of_u64 p)"]
    by (simp add: wf_guarantee_def unat_simps)
  have "(\<exists>g. parseConfiguredGuarantee (formatUint (unat p)) = Inr g \<and> n = unat (cgp g))
      \<longleftrightarrow> n = unat p \<and> 1 \<le> n \<and> n \<le> 1000"
  proof
    show "\<exists>g. parseConfiguredGuarantee (formatUint (unat p)) = Inr g \<and> n = unat (cgp g) \<Longrightarrow>
      n = unat p \<and> 1 \<le> n \<and> n \<le> 1000" using bounds by fastforce
  qed (use accept in \<open>auto simp: unat_simps\<close>)
  then show "lineAssigns (assignmentLine u p) w n \<longleftrightarrow> w = u \<and> n = unat p \<and> 1 \<le> n \<and> n \<le> 1000"
    using u(2) skip by (auto simp: lineAssigns_def assignmentLine_def)
qed

lemma cut_update_name:
  assumes "cutAt (CHR ''='') l = (w, v, True)"
  shows "lineAssigns l u n \<Longrightarrow> u = w"
  using assms by (simp add: lineAssigns_def)

text \<open>The names of the lines that assign something.\<close>

definition lineNames :: "string list \<Rightarrow> string set" where
  "lineNames ls = {u. \<exists>l \<in> set ls. \<not> skippedLine l \<and> (\<exists>v. cutAt (CHR ''='') l = (u, v, True))}"

lemma lineNames_Cons:
  assumes "cutAt (CHR ''='') line = (w, v, f)"
  shows "lineNames (line # lines) = (if skippedLine line \<or> \<not> f then lineNames lines else insert w (lineNames lines))"
  using assms by (auto simp: lineNames_def)

lemma mergeLines_Cons:
  assumes "mergeLines updates (Suc i) seen (line # lines) = Inr (merged, seen')" "cutAt (CHR ''='') line = (w, v, f)"
  obtains
    (kept) ms where "mergeLines updates (Suc (Suc i)) seen lines = Inr (ms, seen')" "merged = line # ms"
      "skippedLine line \<or> f \<and> map_of updates w = None"
  | (updated) ms points where "mergeLines updates (Suc (Suc i)) (w # seen) lines = Inr (ms, seen')"
      "merged = (case points of Some p \<Rightarrow> [assignmentLine w p] | None \<Rightarrow> []) @ ms"
      "\<not> skippedLine line" "f" "map_of updates w = Some points"
proof (cases "skippedLine line \<or> f \<and> map_of updates w = None")
  case True
  then show ?thesis using assms kept by (auto simp: skippedLine_def split: if_splits sum.splits)
next
  case False
  moreover from this obtain points where "map_of updates w = Some points"
    using assms by (cases "map_of updates w") (auto simp: skippedLine_def split: if_splits)
  ultimately show ?thesis using assms updated by (auto simp: skippedLine_def split: if_splits sum.splits)
qed

lemma mergeLines_seen:
  "mergeLines updates (Suc i) seen lines = Inr (merged, seen') \<Longrightarrow>
     set seen' = set seen \<union> (lineNames lines \<inter> dom (map_of updates))"
proof (induction lines arbitrary: i seen merged)
  case (Cons line lines)
  obtain w v f where cut: "cutAt (CHR ''='') line = (w, v, f)" by (cases "cutAt (CHR ''='') line") auto
  from Cons.prems cut show ?case
  proof (cases rule: mergeLines_Cons)
    case (kept ms)
    then have "lineNames (line # lines) \<inter> dom (map_of updates) = lineNames lines \<inter> dom (map_of updates)"
      unfolding lineNames_Cons [OF cut] by (cases "skippedLine line") (simp_all add: Int_insert_left domIff)
    with Cons.IH [OF kept(1)] show ?thesis by (simp only:)
  next
    case (updated ms points)
    then have "lineNames (line # lines) \<inter> dom (map_of updates) = insert w (lineNames lines \<inter> dom (map_of updates))"
      unfolding lineNames_Cons [OF cut] by (simp add: Int_insert_left domI)
    with Cons.IH [OF updated(1)] show ?thesis by (simp only:) simp
  qed
qed (simp add: lineNames_def)

lemma mergeLines_members:
  "mergeLines updates (Suc i) seen lines = Inr (merged, seen') \<Longrightarrow> l \<in> set merged \<Longrightarrow>
     l \<in> set lines \<or> (\<exists>u p. map_of updates u = Some (Some p) \<and> l = assignmentLine u p)"
proof (induction lines arbitrary: i seen merged)
  case (Cons line lines)
  obtain w v f where cut: "cutAt (CHR ''='') line = (w, v, f)" by (cases "cutAt (CHR ''='') line") auto
  from Cons.prems(1) cut show ?case
  proof (cases rule: mergeLines_Cons)
    case (kept ms)
    then show ?thesis using Cons.IH [OF kept(1)] Cons.prems(2) by auto
  next
    case (updated ms points)
    then show ?thesis using Cons.IH [OF updated(1)] Cons.prems(2) by (auto split: option.splits)
  qed
qed simp

lemma mergeLines_writes:
  "mergeLines updates (Suc i) seen lines = Inr (merged, seen') \<Longrightarrow> map_of updates u = Some (Some p) \<Longrightarrow>
     u \<in> lineNames lines \<Longrightarrow> assignmentLine u p \<in> set merged"
proof (induction lines arbitrary: i seen merged)
  case (Cons line lines)
  obtain w v f where cut: "cutAt (CHR ''='') line = (w, v, f)" by (cases "cutAt (CHR ''='') line") auto
  from Cons.prems(1) cut show ?case
  proof (cases rule: mergeLines_Cons)
    case (kept ms)
    then have "u \<in> lineNames lines" using Cons.prems(2,3) by (auto simp: lineNames_Cons [OF cut] split: if_splits)
    then show ?thesis using Cons.IH [OF kept(1)] kept(2) Cons.prems(2) by simp
  next
    case (updated ms points)
    then have "u = w \<or> u \<in> lineNames lines" using Cons.prems(3) by (simp add: lineNames_Cons [OF cut])
    then show ?thesis using Cons.IH [OF updated(1)] updated(2,5) Cons.prems(2) by auto
  qed
qed (simp add: lineNames_def)

lemma mergeLines_effect:
  assumes "\<forall>u \<in> fst ` set updates. validChangeUsername u \<and> \<not> hasPrefix u ''#''"
  shows "mergeLines updates (Suc i) seen lines = Inr (merged, seen') \<Longrightarrow>
    (\<exists>l \<in> set merged. lineAssigns l u n) \<longleftrightarrow>
      (case map_of updates u of
         None \<Rightarrow> \<exists>l \<in> set lines. lineAssigns l u n
       | Some None \<Rightarrow> False
       | Some (Some p) \<Rightarrow> u \<in> lineNames lines \<and> n = unat p \<and> 1 \<le> n \<and> n \<le> 1000)"
proof (induction lines arbitrary: i seen merged)
  case (Cons line lines)
  obtain w v f where cut: "cutAt (CHR ''='') line = (w, v, f)" by (cases "cutAt (CHR ''='') line") auto
  have own: "lineAssigns line u n \<Longrightarrow> \<not> skippedLine line \<and> f \<and> u = w" using cut by (auto simp: lineAssigns_def)
  from Cons.prems cut show ?case
  proof (cases rule: mergeLines_Cons)
    case (kept ms)
    have "(\<exists>l \<in> set merged. lineAssigns l u n) \<longleftrightarrow> lineAssigns line u n \<or> (\<exists>l \<in> set ms. lineAssigns l u n)"
      using kept(2) by simp
    with Cons.IH [OF kept(1)] own kept(3) show ?thesis by (auto simp: lineNames_Cons [OF cut] split: option.splits)
  next
    case (updated ms points)
    have w: "validChangeUsername w" "\<not> hasPrefix w ''#''"
      using assms updated(5) by (auto dest!: map_of_SomeD)
    have "(\<exists>l \<in> set merged. lineAssigns l u n) \<longleftrightarrow>
        (\<exists>p. points = Some p \<and> u = w \<and> n = unat p \<and> 1 \<le> n \<and> n \<le> 1000) \<or> (\<exists>l \<in> set ms. lineAssigns l u n)"
      using updated(2) assignmentLine_assigns(1) [OF w] by (cases points) auto
    with Cons.IH [OF updated(1)] own updated(3-5) show ?thesis
      by (cases "u = w") (auto simp: lineNames_Cons [OF cut] split: option.splits)
  qed
qed (auto simp: lineNames_def split: option.splits)

lemma mergePolicyMap_Inr:
  assumes "mergePolicyMap original changes = Inr content"
  obtains updates merged seen names where "collectUpdates [] changes = Inr updates"
    "mergeLines updates (Suc 0) [] (tl (splitOn LF original)) = Inr (merged, seen)"
    "set names = {u. u \<notin> set seen \<and> (\<exists>p. map_of updates u = Some (Some p))}"
    "content = joinWith LF (hd (splitOn LF original) # merged
       @ map (\<lambda>u. assignmentLine u (the (the (map_of updates u)))) names)"
proof -
  from assms obtain updates merged seen where u: "collectUpdates [] changes = Inr updates"
    and m: "mergeLines updates 0 [] (splitOn LF original) = Inr (merged, seen)"
    and c: "content = joinWith LF (merged @ map (\<lambda>u. assignmentLine u (the (the (map_of updates u))))
      (sort (map fst (filter (\<lambda>(name, points). name \<notin> set seen \<and> points \<noteq> None) updates))))"
    by (auto simp: mergePolicyMap_def Let_def split: sum.splits)
  from m obtain ms where "mergeLines updates (Suc 0) [] (tl (splitOn LF original)) = Inr (ms, seen)"
      "merged = hd (splitOn LF original) # ms"
    by (cases "splitOn LF original") (auto split: sum.splits)
  moreover have "set (sort (map fst (filter (\<lambda>(name, points). name \<notin> set seen \<and> points \<noteq> None) updates)))
      = {u. u \<notin> set seen \<and> (\<exists>p. map_of updates u = Some (Some p))}"
  proof -
    have d: "distinct (map fst updates)" using collectUpdates_Inr [OF u] by simp
    show ?thesis unfolding map_of_eq_Some_iff [OF d] by force
  qed
  ultimately show ?thesis using c by (intro that [OF u]) (assumption | simp only: append_Cons)+
qed

lemma byte_neq: "byte_of c \<noteq> byte_of d \<Longrightarrow> c \<noteq> d"
  by auto

lemma CR_neq_LF: "CR \<noteq> LF"
  by (rule byte_neq) simp

lemma assignmentLine_clean:
  "validChangeUsername u \<Longrightarrow> LF \<notin> set (assignmentLine u p) \<and> CR \<notin> set (assignmentLine u p)"
proof -
  assume "validChangeUsername u"
  then have "LF \<notin> set u" "CR \<notin> set u" by (auto simp: validChangeUsername_def list_ex_iff)
  moreover have "LF \<notin> set (formatUint n)" "CR \<notin> set (formatUint n)" for n
    using digits_formatUint [of n] by (auto simp: list_all_iff is_digit_def)
  moreover have "LF \<noteq> CHR ''=''" "CR \<noteq> CHR ''=''"
    by (rule byte_neq, simp only: byte_LF, simp add: byte_of_def)
      (rule byte_neq, simp only: byte_CR, simp add: byte_of_def)
  ultimately show ?thesis by (auto simp: assignmentLine_def)
qed

text \<open>
  The lines of a merged map: the first line of the original, then what each line became, then an
  assignment per added name; nothing in it breaks a line.
\<close>

lemma mergePolicyMap_lines:
  assumes m: "mergePolicyMap original changes = Inr content" and cr: "CR \<notin> set original"
    and hash: "\<forall>c \<in> set changes. \<not> hasPrefix (ec_Username c) ''#''"
  shows "CR \<notin> set content" and "hd (splitOn LF content) = hd (splitOn LF original)"
    and "(\<exists>l \<in> set (tl (splitOn LF content)). lineAssigns l u n) \<longleftrightarrow>
      (case map_of (map (\<lambda>c. (ec_Username c, ec_Points c)) changes) u of
         None \<Rightarrow> \<exists>l \<in> set (tl (splitOn LF original)). lineAssigns l u n
       | Some None \<Rightarrow> False
       | Some (Some p) \<Rightarrow> n = unat p \<and> 1 \<le> n \<and> n \<le> 1000)"
    and "map_of (map (\<lambda>c. (ec_Username c, ec_Points c)) changes) u = Some (Some p) \<Longrightarrow>
      assignmentLine u p \<in> set (tl (splitOn LF content)) \<and> validChangeUsername u \<and> \<not> hasPrefix u ''#''"
proof -
  let ?h = "hd (splitOn LF original)" and ?t = "tl (splitOn LF original)"
  obtain updates merged seen names where up: "collectUpdates [] changes = Inr updates"
    and ml: "mergeLines updates (Suc 0) [] ?t = Inr (merged, seen)"
    and names: "set names = {u. u \<notin> set seen \<and> (\<exists>p. map_of updates u = Some (Some p))}"
    and content: "content = joinWith LF (?h # merged @ map (\<lambda>u. assignmentLine u (the (the (map_of updates u)))) names)"
    by (rule mergePolicyMap_Inr [OF m])
  let ?added = "map (\<lambda>u. assignmentLine u (the (the (map_of updates u)))) names"
  have umap: "map_of updates = map_of (map (\<lambda>c. (ec_Username c, ec_Points c)) changes)"
    and valid: "\<forall>u \<in> fst ` set updates. validChangeUsername u"
    using collectUpdates_Inr [OF up] by auto
  have dom: "fst ` set updates = ec_Username ` set changes"
    using arg_cong [OF umap, of dom] by (simp add: dom_map_of_conv_image_fst image_image)
  have ok: "\<forall>u \<in> fst ` set updates. validChangeUsername u \<and> \<not> hasPrefix u ''#''"
    using valid hash dom by force
  have inv: "validChangeUsername w \<and> \<not> hasPrefix w ''#''" if "map_of updates w = Some pt" for w pt
    using ok that by (metis dom_map_of_conv_image_fst domI)
  note eff = mergeLines_effect [OF ok ml, of u n] and seen = mergeLines_seen [OF ml]
  have lines: "splitOn LF original = ?h # ?t" by simp
  have mem: "l \<in> set (splitOn LF original) \<or> (\<exists>w p. map_of updates w = Some (Some p) \<and> l = assignmentLine w p)"
    if "l \<in> set (?h # merged @ ?added)" for l
  proof (cases "l \<in> set ?added")
    case True
    then obtain w where "w \<in> set names" "l = assignmentLine w (the (the (map_of updates w)))" by auto
    with names show ?thesis by force
  next
    case False
    then show ?thesis using that mergeLines_members [OF ml, of l] list.set_sel(2) [of "splitOn LF original" l] by auto
  qed
  have clean: "LF \<notin> set l \<and> CR \<notin> set l" if "l \<in> set (?h # merged @ ?added)" for l
    using mem [OF that] splitOn_no_sep [of l LF original] cr assignmentLine_clean inv splitOn_subset
    by blast
  have split: "splitOn LF content = ?h # merged @ ?added"
    unfolding content by (rule split_joinWith) (use clean in auto)
  show "hd (splitOn LF content) = ?h" by (simp add: split)
  show "CR \<notin> set content"
  proof
    assume "CR \<in> set content"
    then have "CR \<in> insert LF (\<Union> (set ` set (?h # merged @ ?added)))"
      unfolding content by (rule subsetD [OF set_joinWith])
    then show False using clean by (auto simp only: insert_iff Union_iff image_iff CR_neq_LF)
  qed
  have "(\<exists>l \<in> set ?added. lineAssigns l u n) \<longleftrightarrow>
      u \<notin> set seen \<and> (\<exists>p. map_of updates u = Some (Some p) \<and> n = unat p \<and> 1 \<le> n \<and> n \<le> 1000)"
    using names inv assignmentLine_assigns(1) by auto
  with eff seen show "(\<exists>l \<in> set (tl (splitOn LF content)). lineAssigns l u n) \<longleftrightarrow>
      (case map_of (map (\<lambda>c. (ec_Username c, ec_Points c)) changes) u of
         None \<Rightarrow> \<exists>l \<in> set ?t. lineAssigns l u n
       | Some None \<Rightarrow> False
       | Some (Some p) \<Rightarrow> n = unat p \<and> 1 \<le> n \<and> n \<le> 1000)"
    unfolding split umap [symmetric] by (auto split: option.splits)
  assume "map_of (map (\<lambda>c. (ec_Username c, ec_Points c)) changes) u = Some (Some p)"
  then have u: "map_of updates u = Some (Some p)" by (simp add: umap)
  then have "assignmentLine u p \<in> set (merged @ ?added)"
    using mergeLines_writes [OF ml u] seen names by (cases "u \<in> lineNames ?t") force+
  then show "assignmentLine u p \<in> set (tl (splitOn LF content)) \<and> validChangeUsername u \<and> \<not> hasPrefix u ''#''"
    using inv [OF u] by (simp add: split)
qed

lemma option_eqI: "(\<And>n. x = Some n \<longleftrightarrow> y = Some n) \<Longrightarrow> x = y"
  by (cases x; cases y) auto

text \<open>When the merged map parses, every line the patch wrote was legal.\<close>

lemma patch_range:
  assumes "mergePolicyMap original changes = Inr content" "CR \<notin> set original"
    and hash: "\<forall>c \<in> set changes. \<not> hasPrefix (ec_Username c) ''#''"
    and parse: "parsePolicyMap content = Inr es'"
    and c: "map_of (map (\<lambda>c. (ec_Username c, ec_Points c)) changes) u = Some (Some p)"
  shows "1 \<le> unat p \<and> unat p \<le> 1000"
proof -
  note w = mergePolicyMap_lines(4) [OF assms(1-3) c]
  then have u: "validChangeUsername u" "\<not> hasPrefix u ''#''" by simp_all
  from parsePolicyMap_assigns(3) [OF parse mergePolicyMap_lines(1) [OF assms(1-3)] conjunct1 [OF w]]
    assignmentLine_assigns(2) [OF u]
  obtain v n where "lineAssigns (assignmentLine u p) v n" by (elim disjE exE) simp_all
  then show ?thesis unfolding assignmentLine_assigns(1) [OF u] by simp
qed

section \<open>Properties\<close>


text \<open>Changing the guarantee of bob in the sample map, for the witness.\<close>

definition samplePatch :: "policy_editor_change list" where
  "samplePatch = [\<lparr>ec_Username = ''bob'', ec_Points = Some 300\<rparr>]"

definition sampleEntries' :: "raw_policy_entry list" where
  "sampleEntries' =
     [\<lparr>re_username = ''alice'', re_points = ConfiguredGuaranteePoints 400, re_line = 2\<rparr>,
      \<lparr>re_username = ''bob'', re_points = ConfiguredGuaranteePoints 300, re_line = 3\<rparr>]"

lemma sample_lines:
  "printPolicyMap sampleEntries = joinWith LF [PolicyMapMarker, ''alice=400'', ''bob=100'']"
  "printPolicyMap sampleEntries' = joinWith LF [PolicyMapMarker, ''alice=400'', ''bob=300'']"
  by (simp_all add: printPolicyMap_def sampleEntries_def sampleEntries'_def printEntry_def formatUint.simps
    digit_char_def char_of_def bit_0)

lemma sample_no_LF:
  "LF \<notin> set PolicyMapMarker" "LF \<notin> set ''alice=400''" "LF \<notin> set ''bob=100''" "LF \<notin> set ''bob=300''"
  "CR \<notin> set PolicyMapMarker" "CR \<notin> set ''alice=400''" "CR \<notin> set ''bob=100''" "CR \<noteq> LF"
  by (simp_all add: PolicyMapMarker_def LF_def CR_def char_of_def)

lemma sample_merge:
  "mergePolicyMap (printPolicyMap sampleEntries) samplePatch = Inr (printPolicyMap sampleEntries')"
proof -
  have split: "splitOn LF (printPolicyMap sampleEntries) = [PolicyMapMarker, ''alice=400'', ''bob=100'']"
    unfolding sample_lines by (rule split_joinWith) (use sample_no_LF in auto)
  have "validChangeUsername ''bob''"
    using isPadded_graphic [of "''bob''"]
    by (simp add: validChangeUsername_def graphic_def byte_of_def LF_def CR_def char_of_def)
  moreover have "assignmentLine ''bob'' 300 = ''bob=300''"
    by (simp add: assignmentLine_def formatUint.simps digit_char_def char_of_def bit_0)
  ultimately show ?thesis unfolding mergePolicyMap_def split
    by (simp add: samplePatch_def sample_lines)
qed

lemma sample_parse': "parsePolicyMap (printPolicyMap sampleEntries') = Inr sampleEntries'"
  by (rule parse_printPolicyMap)
    (simp_all add: sampleEntries'_def plainUsername_def graphic_def byte_of_def wf_points_defs upt_rec
      printPolicyMap_def printEntry_def PolicyMapMarker_def MaximumPolicyMapBytes_def MaximumPolicyMapEntries_def
      formatUint.simps)


text \<open>
  A patch for a name that starts with a hash sign is accepted by the merge, but the
  line it writes is a comment: on the empty map, the merged bytes parse and assign nothing, although
  the patch sets a guarantee.
\<close>

theorem merge_loses_hash_username:
  "\<exists>content. mergePolicyMap PolicyMapMarker [\<lparr>ec_Username = ''#ops'', ec_Points = Some 300\<rparr>] = Inr content
     \<and> parsePolicyMap content = Inr []"
proof -
  let ?c = "joinWith LF [PolicyMapMarker, ''#ops=300'']"
  have "validChangeUsername ''#ops''"
    using isPadded_graphic [of "''#ops''"]
    by (simp add: validChangeUsername_def graphic_def byte_of_def LF_def CR_def char_of_def)
  moreover have line: "assignmentLine ''#ops'' 300 = ''#ops=300''"
    by (simp add: assignmentLine_def formatUint.simps digit_char_def char_of_def bit_0)
  ultimately have m: "mergePolicyMap PolicyMapMarker [\<lparr>ec_Username = ''#ops'', ec_Points = Some 300\<rparr>] = Inr ?c"
    using sample_no_LF(1) by (simp add: mergePolicyMap_def)
  have split: "splitOn LF ?c = [PolicyMapMarker, ''#ops=300'']"
    by (rule split_joinWith) (use sample_no_LF(1) in \<open>simp_all add: LF_def char_of_def\<close>)
  have "CR \<notin> set ?c" using sample_no_LF by (simp add: CR_def char_of_def)
  then have cr: "crlfToLf ?c = ?c" "CR \<notin> set ?c" using crlfToLf_no_cr [of ?c] no_cr_CR [of ?c] by blast+
  have bytes: "list_all (\<lambda>c. byte_of c < 128) ?c"
    by (simp add: PolicyMapMarker_def) (simp add: byte_of_def LF_def)
  have bom: "\<not> containsSub ?c utf8BOM"
    by (rule ascii_no_bom [OF bytes])
  have ctl: "\<not> containsControlRune ''#ops=300''" by (rule containsControlRune_graphic) (simp add: graphic_def byte_of_def)
  have len: "length ?c \<le> MaximumPolicyMapBytes" by (simp add: PolicyMapMarker_def MaximumPolicyMapBytes_def)
  have "parsePolicyMap ?c = Inr []"
    unfolding parsePolicyMap_def Let_def cr(1) split
    using len bom utf8Valid_ascii [OF bytes] cr ctl by simp
  with m show ?thesis by blast
qed

text \<open>The result and the target of a replacement, by the first step that fails.\<close>

definition tempFileReady :: "write_env \<Rightarrow> bool" where
  "tempFileReady env \<longleftrightarrow>
     we_create env = None \<and> we_chown env = None \<and> we_chmod env = None \<and> we_write env = None \<and> we_sync env = None
     \<and> we_close env = None \<and> we_rename env = None"

lemma write_replaced:
  "tempFileReady env \<Longrightarrow>
     writePolicyEditorFile env content uid gid target =
       (case we_openDir env of Some e \<Rightarrow> Inl (OpenParentFailed e)
        | None \<Rightarrow> if we_syncDir env \<noteq> None \<or> we_closeDir env \<noteq> None
                  then Inl (SyncParentFailed (we_syncDir env) (we_closeDir env)) else Inr (),
        Some \<lparr>mf_content = content, mf_uid = uid, mf_gid = gid, mf_mode = policyMapFileMode\<rparr>)"
  by (simp add: writePolicyEditorFile_def tempFileReady_def split: option.split)

lemma write_kept:
  "\<not> tempFileReady env \<Longrightarrow> \<exists>e. writePolicyEditorFile env content uid gid target = (Inl e, target)"
  by (auto simp: tempFileReady_def writePolicyEditorFile_def simp del: Let_def split: option.split)

lemma write_ok:
  "writePolicyEditorFile env content uid gid target = (Inr u, target') \<Longrightarrow>
     target' = Some \<lparr>mf_content = content, mf_uid = uid, mf_gid = gid, mf_mode = policyMapFileMode\<rparr>"
  using write_kept [of env content uid gid target]
  by (cases "tempFileReady env") (auto simp: write_replaced)


definition sampleWriteEnv :: write_env where
  "sampleWriteEnv = \<lparr>we_create = None, we_chown = None, we_chmod = None, we_write = None, we_sync = None,
     we_close = None, we_rename = None, we_openDir = None, we_syncDir = None, we_closeDir = None\<rparr>"


text \<open>
  A successful persist confirmed the expected source before it wrote, left the target
  path naming exactly the candidate's bytes, and read those bytes back through the guarded read; a
  rollback that succeeds afterwards puts the original bytes back, and a refused one changes nothing.
\<close>

theorem persist_and_rollback:
  assumes "Persist sha256 c before otherSource wenv after target = (Inr persisted, target')"
  shows "ConfirmSource sha256 before (pc_expected c) = Inr () \<and> map_option mf_content target' = Some (pc_content c)
    \<and> readSafePolicyFile sha256 after (pc_path c) = Inr (pc_content c, persisted)
    \<and> (fst (Rollback sha256 c persisted env wenv' target') = Inr () \<longrightarrow>
         map_option mf_content (snd (Rollback sha256 c persisted env wenv' target')) = Some (pc_original c))
    \<and> (ConfirmSource sha256 env persisted = Inl e \<longrightarrow>
         snd (Rollback sha256 c persisted env wenv' target') = target')"
proof -
  from assms obtain u where p: "ConfirmSource sha256 before (pc_expected c) = Inr ()"
    "writePolicyEditorFile wenv (pc_content c) (pc_uid c) (pc_gid c) target = (Inr u, target')"
    "readSafePolicyFile sha256 after (pc_path c) = Inr (pc_content c, persisted)"
    by (auto simp: Persist_def split: sum.splits option.splits prod.splits if_splits)
  have rb: "map_option mf_content (snd (Rollback sha256 c persisted env wenv' target')) = Some (pc_original c)"
    if "fst (Rollback sha256 c persisted env wenv' target') = Inr ()"
  proof -
    obtain r t where w: "writePolicyEditorFile wenv' (pc_original c) (pc_uid c) (pc_gid c) target' = (r, t)"
      by (meson surj_pair)
    with that have r: "r = Inr ()" "snd (Rollback sha256 c persisted env wenv' target') = t"
      by (auto simp: Rollback_def split: sum.splits)
    from write_ok [OF w [unfolded r(1)]] r(2) show ?thesis by simp
  qed
  have "snd (Rollback sha256 c persisted env wenv' target') = target'"
    if "ConfirmSource sha256 env persisted = Inl e"
    using that by (simp add: Rollback_def)
  with p(1,3) rb write_ok [OF p(2)] show ?thesis by simp
qed

lemma sample_persist:
  defines "p \<equiv> PolicyMapPath ''/etc/resman/points''"
  defines "c \<equiv> \<lparr>pc_path = p, pc_expected = \<lparr>ps_path = p, ps_dev = 8, ps_inode = 42, ps_size = 3, ps_digest = ''old''\<rparr>,
    pc_content = ''new'', pc_original = ''old'', pc_uid = 0, pc_gid = 0, pc_policy = undefined\<rparr>"
  shows "Persist (\<lambda>d. d) c (sampleFileEnv ''old'') None sampleWriteEnv (sampleFileEnv ''new'') None
    = (Inr \<lparr>ps_path = p, ps_dev = 8, ps_inode = 42, ps_size = 3, ps_digest = ''new''\<rparr>,
       Some \<lparr>mf_content = ''new'', mf_uid = 0, mf_gid = 0, mf_mode = 0x180\<rparr>)"
proof -
  have r: "readSafePolicyFile (\<lambda>d. d) (sampleFileEnv content) p
      = Inr (content, \<lparr>ps_path = p, ps_dev = 8, ps_inode = 42, ps_size = int (length content), ps_digest = content\<rparr>)"
    if "length content \<le> MaximumPolicyMapBytes" for content
    unfolding p_def using readSafePolicyFile_accepts sampleFileEnv_safe [OF that] by simp
  show ?thesis
    by (simp add: Persist_def c_def ConfirmSource_def r MaximumPolicyMapBytes_def writePolicyEditorFile_def
      sampleWriteEnv_def policyMapFileMode_def)
qed

theorem persist_and_rollback_witness:
  "\<exists>c persisted target'. Persist (\<lambda>d. d) c (sampleFileEnv ''old'') None sampleWriteEnv (sampleFileEnv ''new'') None
      = (Inr persisted, target') \<and> map_option mf_content target' = Some (pc_content c)"
  using sample_persist persist_and_rollback [OF sample_persist] by blast

end
