(* ===== verification/CpuPoints_Capacity.thy ===== *)
theory CpuPoints_Capacity
  imports CpuPoints_Types
begin

text \<open>
  The live CPU capacity (\<^verbatim>\<open>src/internal/cpupoints/capacity.go\<close>): the strict parser of Linux's list of
  online CPUs, and the provider that several goroutines refresh at once. The provider is a step
  relation on the shared revision counter, the shared pointer and one program counter per
  goroutine; every atomic operation of the code is one step. The content of the sysfs file is a
  parameter.
\<close>

section \<open>The list of online CPUs\<close>

datatype cpu_number_error = CPUNumberEmpty | CPULeadingZero string | CPUNotDecimal string | CPUNumberParse string

datatype cpu_list_error =
    CPUListEmpty
  | CPUListWhitespace
  | EmptySegment
  | MultipleSeparators string
  | InvalidSegment string cpu_number_error
  | DescendingRange string
  | NotStrictlyOrdered string
  | SegmentCountOverflow string
  | CountOverflow
  | CountInvalid points_error

definition parseCanonicalCPU :: "string \<Rightarrow> (cpu_number_error, u64) res" where
  "parseCanonicalCPU v =
     (if v = [] then Inl CPUNumberEmpty
      else if length v > 1 \<and> hd v = CHR ''0'' then Inl (CPULeadingZero v)
      else if \<not> list_all is_digit v then Inl (CPUNotDecimal v)
      else (case parseUint 64 v of None \<Rightarrow> Inl (CPUNumberParse v) | Some parsed \<Rightarrow> Inr (of_nat parsed)))"

text \<open>\<^verbatim>\<open>strings.SplitN(segment, "-", 2)\<close> is a cut at the first separator.\<close>

definition parseCPUSegment :: "string \<Rightarrow> (cpu_list_error, u64 \<times> u64) res" where
  "parseCPUSegment segment =
     (if length (filter ((=) (CHR ''-'')) segment) > 1 then Inl (MultipleSeparators segment)
      else (case cutAt (CHR ''-'') segment of (first, second, found) \<Rightarrow>
        (case parseCanonicalCPU first of
           Inl e \<Rightarrow> Inl (InvalidSegment segment e)
         | Inr start \<Rightarrow>
             if \<not> found then Inr (start, start)
             else (case parseCanonicalCPU second of
                     Inl e \<Rightarrow> Inl (InvalidSegment segment e)
                   | Inr end' \<Rightarrow>
                       if end' < start then Inl (DescendingRange segment) else Inr (start, end')))))"

text \<open>The loop over the segments; \<open>prev\<close> is \<^verbatim>\<open>previousEnd\<close>, \<open>None\<close> while \<^verbatim>\<open>havePrevious\<close> is false.\<close>

fun countSegments :: "u64 \<Rightarrow> u64 option \<Rightarrow> string list \<Rightarrow> (cpu_list_error, u64) res" where
  "countSegments totalCPUs prev [] = Inr totalCPUs"
| "countSegments totalCPUs prev (segment # segments) =
     (if segment = [] then Inl EmptySegment
      else (case parseCPUSegment segment of
              Inl e \<Rightarrow> Inl e
            | Inr (start, end') \<Rightarrow>
                if (case prev of Some p \<Rightarrow> start \<le> p | None \<Rightarrow> False) then Inl (NotStrictlyOrdered segment)
                else
                  (let width = end' - start in
                   if width = 18446744073709551615 then Inl (SegmentCountOverflow segment)
                   else
                     (let segCount = width + 1 in
                      if totalCPUs > 18446744073709551615 - segCount then Inl CountOverflow
                      else countSegments (totalCPUs + segCount) (Some end') segments))))"

definition ParseOnlineCPUList :: "string \<Rightarrow> (cpu_list_error, online_cpu_count) res" where
  "ParseOnlineCPUList v =
     (let trimmed = trimSpace v in
      if trimmed = [] then Inl CPUListEmpty
      else if list_ex (\<lambda>c. byte_of c \<in> {32, 9, 13, 10}) trimmed then Inl CPUListWhitespace
      else (case countSegments 0 None (splitOn (CHR '','') trimmed) of
              Inl e \<Rightarrow> Inl e
            | Inr totalCPUs \<Rightarrow>
                (case NewOnlineCPUCount totalCPUs of Inl e \<Rightarrow> Inl (CountInvalid e) | Inr c \<Rightarrow> Inr c)))"

subsection \<open>What the count is\<close>

text \<open>The CPUs a list of ranges names, and ranges that are ascending and apart.\<close>

definition cpuSet :: "(nat \<times> nat) list \<Rightarrow> nat set" where
  "cpuSet rs = (\<Union>(a, b) \<in> set rs. {a..b})"

fun ascending :: "nat option \<Rightarrow> (nat \<times> nat) list \<Rightarrow> bool" where
  "ascending prev [] = True"
| "ascending prev ((a, b) # rs) =
     (a \<le> b \<and> (case prev of Some p \<Rightarrow> p < a | None \<Rightarrow> True) \<and> ascending (Some b) rs)"

abbreviation range_of :: "u64 \<times> u64 \<Rightarrow> nat \<times> nat" where
  "range_of r \<equiv> (unat (fst r), unat (snd r))"

lemma ascending_above:
  "ascending (Some p) rs \<Longrightarrow> x \<in> cpuSet rs \<Longrightarrow> p < x"
proof (induction rs arbitrary: p)
  case (Cons r rs)
  obtain a b where r: "r = (a, b)" by (cases r)
  have "x \<in> {a..b} \<or> x \<in> cpuSet rs" using Cons.prems(2) by (auto simp: cpuSet_def r)
  then show ?case
  proof
    assume "x \<in> cpuSet rs"
    then have "b < x" using Cons.IH Cons.prems(1) by (simp add: r)
    then show ?thesis using Cons.prems(1) by (simp add: r)
  qed (use Cons.prems(1) in \<open>simp add: r\<close>)
qed (simp add: cpuSet_def)

lemma finite_cpuSet [simp]: "finite (cpuSet rs)"
  by (auto simp: cpuSet_def)

lemma card_cpuSet_Cons:
  assumes "ascending prev ((a, b) # rs)"
  shows "card (cpuSet ((a, b) # rs)) = (b - a + 1) + card (cpuSet rs)"
proof -
  have "{a..b} \<inter> cpuSet rs = {}"
    using ascending_above [of b rs] assms by (auto, metis leD)
  moreover have "cpuSet ((a, b) # rs) = {a..b} \<union> cpuSet rs" by (auto simp: cpuSet_def)
  ultimately show ?thesis using assms by (simp add: card_Un_disjoint Suc_diff_le)
qed

lemma parseCPUSegment_ordered:
  "parseCPUSegment segment = Inr (a, b) \<Longrightarrow> unat a \<le> unat b"
  by (auto simp: parseCPUSegment_def word_less_nat_alt split: if_splits sum.splits prod.splits)

text \<open>One accepted segment: the word arithmetic neither wraps nor loses a CPU.\<close>

lemma segment_count:
  fixes a b t :: u64
  assumes "unat a \<le> unat b" "b - a \<noteq> 18446744073709551615"
    and "\<not> t > 18446744073709551615 - (b - a + 1)"
  shows "unat (t + (b - a + 1)) = unat t + (unat b - unat a + 1)"
proof -
  have sub: "unat (b - a) = unat b - unat a" using assms(1) by (simp add: unat_sub word_le_nat_alt)
  have "unat (b - a) \<noteq> maxUint64" using assms(2) by (simp add: word_unat_eq_iff)
  then have one: "unat (b - a + 1) = unat (b - a) + 1" using unat_u64_le [of "b - a"] by (subst unat_add_u64) simp_all
  have "unat (18446744073709551615 - (b - a + 1)) = maxUint64 - unat (b - a + 1)"
    using unat_u64_le [of "b - a + 1"] by (subst unat_sub) (simp_all add: word_le_nat_alt)
  then have "unat t + unat (b - a + 1) \<le> maxUint64"
    using assms(3) unat_u64_le [of "b - a + 1"] by (simp add: word_less_nat_alt)
  then show ?thesis using one sub by (simp add: unat_add_u64)
qed

lemma countSegments_Inr:
  assumes "countSegments t prev segments = Inr t'"
  shows "\<exists>rs. map parseCPUSegment segments = map Inr rs \<and> ascending (map_option unat prev) (map range_of rs)
    \<and> unat t' = unat t + card (cpuSet (map range_of rs))"
  using assms
proof (induction t prev segments rule: countSegments.induct)
  case (2 t prev segment segments)
  from 2(2) obtain a b where seg: "segment \<noteq> []" "parseCPUSegment segment = Inr (a, b)"
    and ord: "\<not> (case prev of Some p \<Rightarrow> a \<le> p | None \<Rightarrow> False)" "b - a \<noteq> 18446744073709551615"
      "\<not> t > 18446744073709551615 - (b - a + 1)"
    and rest: "countSegments (t + (b - a + 1)) (Some b) segments = Inr t'"
    by (auto simp: Let_def split: if_splits sum.splits)
  from 2(1) [OF seg refl ord(1) refl ord(2) refl ord(3) rest] obtain rs where
    rs: "map parseCPUSegment segments = map Inr rs" "ascending (Some (unat b)) (map range_of rs)"
      "unat t' = unat (t + (b - a + 1)) + card (cpuSet (map range_of rs))"
    by auto
  have asc: "ascending (map_option unat prev) (map range_of ((a, b) # rs))"
    using parseCPUSegment_ordered [OF seg(2)] ord(1) rs(2)
    by (auto simp: word_le_nat_alt split: option.splits)
  have "unat t' = unat t + card (cpuSet (map range_of ((a, b) # rs)))"
    using rs(3) segment_count [OF parseCPUSegment_ordered [OF seg(2)] ord(2,3)]
      card_cpuSet_Cons [of "map_option unat prev" "unat a" "unat b" "map range_of rs"] asc by simp
  with asc rs(1) seg(2) show ?case by (intro exI [of _ "(a, b) # rs"]) simp
qed (auto simp: cpuSet_def)

subsection \<open>Lists the kernel prints\<close>

text \<open>The kernel's format: one number or two numbers with a hyphen, separated by commas.\<close>

definition printRange :: "nat \<times> nat \<Rightarrow> string" where
  "printRange r = (if fst r = snd r then formatUint (fst r)
                   else formatUint (fst r) @ CHR ''-'' # formatUint (snd r))"

definition printCPUList :: "(nat \<times> nat) list \<Rightarrow> string" where
  "printCPUList rs = joinWith (CHR '','') (map printRange rs)"

lemma not_digit_sep: "\<not> is_digit (CHR ''-'')" "\<not> is_digit (CHR '','')"
  by (simp_all add: is_digit_def byte_of_def)

lemma formatUint_sep: "CHR ''-'' \<notin> set (formatUint n)" "CHR '','' \<notin> set (formatUint n)"
  using digits_formatUint [of n] not_digit_sep by (auto simp: list_all_iff)

lemma length_formatUint_1: "formatUint 0 = [CHR ''0'']"
  by (simp add: formatUint.simps digit_char_def char_of_def bit_0)

lemma parseCanonicalCPU_format: "n \<le> maxUint64 \<Longrightarrow> parseCanonicalCPU (formatUint n) = Inr (of_nat n)"
  using hd_formatUint [of n] parseUint_formatUint [of n 64]
  by (cases "n = 0") (auto simp: parseCanonicalCPU_def length_formatUint_1 parseUint_formatUint is_digit_def byte_of_def)

lemma parseCPUSegment_print:
  assumes "a \<le> b" "b \<le> maxUint64"
  shows "parseCPUSegment (printRange (a, b)) = Inr (of_nat a, of_nat b)"
proof -
  have none: "filter ((=) (CHR ''-'')) (formatUint n) = []" for n
    using formatUint_sep(1) [of n] by (auto simp: filter_empty_conv)
  have "\<not> (of_nat b :: u64) < of_nat a" using assms by (simp add: word_less_nat_alt unat_of_nat_u64)
  then show ?thesis using assms
    by (cases "a = b") (simp_all add: parseCPUSegment_def printRange_def none formatUint_sep parseCanonicalCPU_format)
qed

lemma countSegments_print:
  assumes "ascending (map_option unat prev) rs" "\<forall>(a, b) \<in> set rs. b \<le> maxUint64"
    and "unat t + card (cpuSet rs) \<le> maxUint64"
  shows "\<exists>t'. countSegments t prev (map printRange rs) = Inr t' \<and> unat t' = unat t + card (cpuSet rs)"
  using assms
proof (induction rs arbitrary: t prev)
  case (Cons r rs)
  obtain a b where r: "r = (a, b)" by (cases r)
  let ?a = "of_nat a :: u64" and ?b = "of_nat b :: u64"
  have ab: "a \<le> b" "b \<le> maxUint64" using Cons.prems r by auto
  then have u: "unat ?a = a" "unat ?b = b" by (simp_all add: unat_of_nat_u64)
  have card: "card (cpuSet (r # rs)) = (b - a + 1) + card (cpuSet rs)"
    using card_cpuSet_Cons Cons.prems(1) by (simp only: r)
  then have le: "unat t + (b - a + 1) + card (cpuSet rs) \<le> maxUint64" using Cons.prems(3) by simp
  have width: "unat (?b - ?a) = b - a" using u ab(1) by (simp add: unat_sub word_le_nat_alt)
  have "unat (?b - ?a) < maxUint64" using le width by simp
  then have w1: "?b - ?a \<noteq> 18446744073709551615" by auto
  have w2: "unat (?b - ?a + 1) = b - a + 1" using width le by (subst unat_add_u64) simp_all
  have "unat (18446744073709551615 - (?b - ?a + 1)) = maxUint64 - (b - a + 1)"
    using w2 unat_u64_le [of "?b - ?a + 1"] by (subst unat_sub) (simp_all add: word_le_nat_alt)
  then have w3: "\<not> t > 18446744073709551615 - (?b - ?a + 1)" using le by (simp add: word_less_nat_alt)
  have t': "unat (t + (?b - ?a + 1)) = unat t + (b - a + 1)" using w2 le by (subst unat_add_u64) simp_all
  from Cons.IH [of "Some ?b" "t + (?b - ?a + 1)"] Cons.prems u t' le obtain t'' where
    t'': "countSegments (t + (?b - ?a + 1)) (Some ?b) (map printRange rs) = Inr t''"
      "unat t'' = unat t + (b - a + 1) + card (cpuSet rs)"
    by (auto simp: r)
  have ord: "\<not> (case prev of Some p \<Rightarrow> ?a \<le> p | None \<Rightarrow> False)"
    using Cons.prems(1) u by (auto simp: r word_le_nat_alt split: option.splits)
  have "printRange (a, b) \<noteq> []" by (simp add: printRange_def)
  then have "countSegments t prev (map printRange (r # rs)) = Inr t''"
    using parseCPUSegment_print [OF ab] ord w1 w3 t''(1) by (simp add: r Let_def)
  then show ?case using t''(2) card by simp
qed (simp add: cpuSet_def)

section \<open>The capacity source\<close>

datatype capacity_reason = CapacityReadError | CapacityParseError | CapacityConversionError

datatype capacity_cause = CauseRead string | CauseParse cpu_list_error

text \<open>What \<^verbatim>\<open>OnlineCPUs\<close> of a source returns as an error: a \<^verbatim>\<open>CapacitySourceError\<close> or any other.\<close>

datatype source_failure = CapacitySourceError capacity_reason capacity_cause | ForeignError string

text \<open>\<^verbatim>\<open>SysfsOnlineCPUSource.OnlineCPUs\<close>, given what reading the file returned.\<close>

definition OnlineCPUs :: "(string, string) res \<Rightarrow> (source_failure, online_cpu_count) res" where
  "OnlineCPUs r =
     (case r of
        Inl e \<Rightarrow> Inl (CapacitySourceError CapacityReadError (CauseRead e))
      | Inr data \<Rightarrow>
          (case ParseOnlineCPUList data of
             Inl e \<Rightarrow> Inl (CapacitySourceError CapacityParseError (CauseParse e))
           | Inr c \<Rightarrow> Inr c))"

definition readCapacityPlan ::
    "(source_failure, online_cpu_count) res \<Rightarrow> parent_pool_points \<Rightarrow> (capacity_reason, parent_quota) res" where
  "readCapacityPlan answer p =
     (case answer of
        Inl (CapacitySourceError reason _) \<Rightarrow> Inl reason
      | Inl (ForeignError _) \<Rightarrow> Inl CapacityReadError
      | Inr onlineCPUs \<Rightarrow>
          (case PlanParentQuota onlineCPUs p of
             Inl _ \<Rightarrow> Inl CapacityConversionError
           | Inr plan \<Rightarrow> Inr plan))"

section \<open>The provider\<close>

text \<open>The zero value of the reason is \<open>None\<close>.\<close>

record capacity_state =
  cs_Available :: bool
  cs_LastVerified :: parent_quota
  cs_UnavailableReason :: "capacity_reason option"

text \<open>
  A published state: the revision, the state and \<open>vs_ptr\<close>, the identity of its allocation, which is
  what \<^verbatim>\<open>CompareAndSwap\<close> on the pointer compares.
\<close>

record versioned_capacity_state =
  vs_ptr :: nat
  vs_revision :: u64
  vs_state :: capacity_state

text \<open>\<open>pv_next\<close> counts the allocations.\<close>

record live_capacity_provider =
  pv_revision :: u64
  pv_cell :: versioned_capacity_state
  pv_next :: nat

definition NewLiveCapacityProvider ::
    "(source_failure, online_cpu_count) res \<Rightarrow> parent_pool_points \<Rightarrow> (capacity_reason, live_capacity_provider) res" where
  "NewLiveCapacityProvider answer p =
     (case readCapacityPlan answer p of
        Inl reason \<Rightarrow> Inl reason
      | Inr plan \<Rightarrow>
          Inr \<lparr>pv_revision = 1,
               pv_cell = \<lparr>vs_ptr = 0, vs_revision = 1,
                 vs_state = \<lparr>cs_Available = True, cs_LastVerified = plan, cs_UnavailableReason = None\<rparr>\<rparr>,
               pv_next = 1\<rparr>)"

definition State :: "live_capacity_provider \<Rightarrow> capacity_state" where
  "State p = vs_state (pv_cell p)"

text \<open>The function a refresh hands to \<^verbatim>\<open>publish\<close>: what it makes of the current state.\<close>

definition refreshedState :: "(capacity_reason, parent_quota) res \<Rightarrow> capacity_state \<Rightarrow> capacity_state" where
  "refreshedState outcome current =
     (case outcome of
        Inl reason \<Rightarrow> current\<lparr>cs_Available := False, cs_UnavailableReason := Some reason\<rparr>
      | Inr plan \<Rightarrow> \<lparr>cs_Available = True, cs_LastVerified = plan, cs_UnavailableReason = None\<rparr>)"

text \<open>
  Where a goroutine is in \<^verbatim>\<open>Refresh\<close>: before taking a revision, before the read, at the top of the
  loop of \<^verbatim>\<open>publish\<close>, before the swap with the pointer it loaded, returned.
\<close>

datatype refresh_pc =
    Started parent_pool_points
  | Numbered u64 parent_pool_points
  | Publishing u64 "(capacity_reason, parent_quota) res"
  | Swapping u64 "(capacity_reason, parent_quota) res" versioned_capacity_state
  | Finished capacity_state

definition takeRevision :: "live_capacity_provider \<Rightarrow> parent_pool_points \<Rightarrow> live_capacity_provider \<times> refresh_pc" where
  "takeRevision p pts =
     (p\<lparr>pv_revision := pv_revision p + 1\<rparr>, Numbered (pv_revision p + 1) pts)"

definition publishLoad ::
    "live_capacity_provider \<Rightarrow> u64 \<Rightarrow> (capacity_reason, parent_quota) res \<Rightarrow> refresh_pc" where
  "publishLoad p revision outcome =
     (if vs_revision (pv_cell p) \<ge> revision then Finished (vs_state (pv_cell p))
      else Swapping revision outcome (pv_cell p))"

definition publishSwap ::
    "live_capacity_provider \<Rightarrow> u64 \<Rightarrow> (capacity_reason, parent_quota) res \<Rightarrow> versioned_capacity_state \<Rightarrow>
     live_capacity_provider \<times> refresh_pc" where
  "publishSwap p revision outcome current =
     (let candidate = \<lparr>vs_ptr = pv_next p, vs_revision = revision,
                       vs_state = refreshedState outcome (vs_state current)\<rparr> in
      if vs_ptr (pv_cell p) = vs_ptr current
      then (p\<lparr>pv_cell := candidate, pv_next := pv_next p + 1\<rparr>, Finished (vs_state candidate))
      else (p\<lparr>pv_next := pv_next p + 1\<rparr>, Publishing revision outcome))"

text \<open>\<^verbatim>\<open>LiveCapacityProvider.Refresh\<close> with nobody else refreshing: the new provider, the state and the reason of a failed read.\<close>

definition Refresh ::
  "(source_failure, online_cpu_count) res \<Rightarrow> parent_pool_points \<Rightarrow> live_capacity_provider \<Rightarrow>
   live_capacity_provider \<times> capacity_state \<times> capacity_reason option" where
  "Refresh answer pts p =
     (let revision = pv_revision p + 1;
          p1 = p\<lparr> pv_revision := revision \<rparr>;
          outcome = readCapacityPlan answer pts;
          err = (case outcome of Inl reason \<Rightarrow> Some reason | Inr _ \<Rightarrow> None)
      in if vs_revision (pv_cell p1) \<ge> revision then (p1, vs_state (pv_cell p1), err)
         else (let state = refreshedState outcome (vs_state (pv_cell p1)) in
               (p1\<lparr> pv_cell := \<lparr> vs_ptr = pv_next p1, vs_revision = revision, vs_state = state \<rparr>, pv_next := pv_next p1 + 1 \<rparr>,
                state, err)))"

text \<open>
  The system: the provider, the goroutines, and the history of the reads (revision and outcome)
  that the theorems speak of. The relation describes runs of fewer than \<open>2 ^ 64\<close> refreshes.
\<close>

record capacity_system =
  sy_provider :: live_capacity_provider
  sy_pc :: "nat \<Rightarrow> refresh_pc option"
  sy_reads :: "(u64 \<times> (capacity_reason, parent_quota) res) list"

inductive capacity_step :: "capacity_system \<Rightarrow> capacity_system \<Rightarrow> bool" where
  call: "sy_pc s t = None \<Longrightarrow> capacity_step s (s\<lparr>sy_pc := (sy_pc s)(t \<mapsto> Started pts)\<rparr>)"
| revision: "sy_pc s t = Some (Started pts) \<Longrightarrow> unat (pv_revision (sy_provider s)) < 18446744073709551615 \<Longrightarrow>
    takeRevision (sy_provider s) pts = (p', pc') \<Longrightarrow>
    capacity_step s (s\<lparr>sy_provider := p', sy_pc := (sy_pc s)(t \<mapsto> pc')\<rparr>)"
| read: "sy_pc s t = Some (Numbered r pts) \<Longrightarrow> outcome = readCapacityPlan answer pts \<Longrightarrow>
    capacity_step s (s\<lparr>sy_pc := (sy_pc s)(t \<mapsto> Publishing r outcome), sy_reads := (r, outcome) # sy_reads s\<rparr>)"
| load: "sy_pc s t = Some (Publishing r outcome) \<Longrightarrow>
    capacity_step s (s\<lparr>sy_pc := (sy_pc s)(t \<mapsto> publishLoad (sy_provider s) r outcome)\<rparr>)"
| swap: "sy_pc s t = Some (Swapping r outcome current) \<Longrightarrow>
    publishSwap (sy_provider s) r outcome current = (p', pc') \<Longrightarrow>
    capacity_step s (s\<lparr>sy_provider := p', sy_pc := (sy_pc s)(t \<mapsto> pc')\<rparr>)"

text \<open>The system right after the provider was made from the answer of a first read.\<close>

definition capacity_init :: "(source_failure, online_cpu_count) res \<Rightarrow> parent_pool_points \<Rightarrow> capacity_system \<Rightarrow> bool" where
  "capacity_init answer pts s \<longleftrightarrow>
     NewLiveCapacityProvider answer pts = Inr (sy_provider s) \<and> sy_pc s = (\<lambda>_. None)
     \<and> sy_reads s = [(1, readCapacityPlan answer pts)]"

definition capacity_reachable :: "capacity_system \<Rightarrow> bool" where
  "capacity_reachable s \<longleftrightarrow> (\<exists>answer pts s0. capacity_init answer pts s0 \<and> capacity_step\<^sup>*\<^sup>* s0 s)"

section \<open>Invariants of the provider\<close>

text \<open>The revision a goroutine holds and has not yet settled.\<close>

fun pendingRevision :: "refresh_pc option \<Rightarrow> u64 option" where
  "pendingRevision (Some (Numbered r _)) = Some r"
| "pendingRevision (Some (Publishing r _)) = Some r"
| "pendingRevision (Some (Swapping r _ _)) = Some r"
| "pendingRevision _ = None"

text \<open>The published state is what the refresh with its revision made of the read it did.\<close>

definition provenance ::
    "(u64 \<times> (capacity_reason, parent_quota) res) list \<Rightarrow> versioned_capacity_state \<Rightarrow> bool" where
  "provenance reads c \<longleftrightarrow>
     (\<exists>outcome. (vs_revision c, outcome) \<in> set reads
        \<and> (case outcome of
             Inr plan \<Rightarrow> vs_state c = \<lparr>cs_Available = True, cs_LastVerified = plan, cs_UnavailableReason = None\<rparr>
           | Inl reason \<Rightarrow> \<not> cs_Available (vs_state c) \<and> cs_UnavailableReason (vs_state c) = Some reason))
     \<and> (\<exists>r. (r, Inr (cs_LastVerified (vs_state c))) \<in> set reads \<and> r \<le> vs_revision c)"

fun pc_ok :: "live_capacity_provider \<Rightarrow> (u64 \<times> (capacity_reason, parent_quota) res) list \<Rightarrow> refresh_pc option \<Rightarrow> bool" where
  "pc_ok p reads (Some (Numbered r _)) = (r \<le> pv_revision p)"
| "pc_ok p reads (Some (Publishing r outcome)) = (r \<le> pv_revision p \<and> (r, outcome) \<in> set reads)"
| "pc_ok p reads (Some (Swapping r outcome current)) =
     (r \<le> pv_revision p \<and> (r, outcome) \<in> set reads \<and> vs_ptr current < pv_next p \<and> vs_revision current < r
      \<and> (vs_ptr (pv_cell p) = vs_ptr current \<longrightarrow> pv_cell p = current) \<and> provenance reads current)"
| "pc_ok p reads _ = True"

definition capacity_inv :: "capacity_system \<Rightarrow> bool" where
  "capacity_inv s \<longleftrightarrow>
     (let p = sy_provider s; c = pv_cell p in
      vs_ptr c < pv_next p \<and> vs_revision c \<le> pv_revision p \<and> 1 \<le> vs_revision c
      \<and> provenance (sy_reads s) c
      \<and> (\<forall>t. pc_ok p (sy_reads s) (sy_pc s t))
      \<and> (\<forall>r. r \<le> pv_revision p \<longrightarrow> r \<le> vs_revision c \<or> (\<exists>t. pendingRevision (sy_pc s t) = Some r)))"

inductive_cases capacity_stepE: "capacity_step s s'"

lemma provenance_more: "provenance reads c \<Longrightarrow> provenance (x # reads) c"
  unfolding provenance_def by (auto split: sum.splits)

lemma pc_ok_more: "pc_ok p reads pc \<Longrightarrow> pc_ok p (x # reads) pc"
  by (cases "(p, reads, pc)" rule: pc_ok.cases) (auto intro: provenance_more)

lemma provenance_refreshed:
  assumes "provenance reads current" "(r, outcome) \<in> set reads" "vs_revision current < r"
  shows "provenance reads \<lparr>vs_ptr = n, vs_revision = r, vs_state = refreshedState outcome (vs_state current)\<rparr>"
  using assms unfolding provenance_def refreshedState_def
  by (cases outcome) (auto intro: order_trans less_imp_le)

lemma capacity_init_inv:
  assumes "capacity_init answer pts s"
  shows "capacity_inv s"
proof -
  from assms obtain plan where plan: "readCapacityPlan answer pts = Inr plan"
    and p: "sy_provider s = \<lparr>pv_revision = 1, pv_cell = \<lparr>vs_ptr = 0, vs_revision = 1,
      vs_state = \<lparr>cs_Available = True, cs_LastVerified = plan, cs_UnavailableReason = None\<rparr>\<rparr>, pv_next = 1\<rparr>"
    by (auto simp: capacity_init_def NewLiveCapacityProvider_def split: sum.splits)
  with assms show ?thesis by (simp add: capacity_inv_def capacity_init_def provenance_def)
qed

lemma u64_next: "unat (w :: u64) < maxUint64 \<Longrightarrow> r \<le> w + 1 \<longleftrightarrow> r \<le> w \<or> r = w + 1"
  using unat_add_u64 [of w 1] by (auto simp: word_le_nat_alt word_unat_eq_iff)

lemma pc_ok_revision:
  "pc_ok p reads pc \<Longrightarrow> unat (pv_revision p) < maxUint64 \<Longrightarrow> pc_ok (p\<lparr>pv_revision := pv_revision p + 1\<rparr>) reads pc"
  by (cases "(p, reads, pc)" rule: pc_ok.cases) (auto simp: u64_next)

lemma pc_ok_swap:
  "pc_ok p reads pc \<Longrightarrow> pc_ok (p\<lparr>pv_next := pv_next p + 1\<rparr>) reads pc"
  "pc_ok p reads pc \<Longrightarrow> vs_ptr c = pv_next p \<Longrightarrow> pc_ok (p\<lparr>pv_cell := c, pv_next := pv_next p + 1\<rparr>) reads pc"
  by (cases "(p, reads, pc)" rule: pc_ok.cases; auto)+

text \<open>
  The invariant taken apart around one goroutine, and put together again after that goroutine moved.
\<close>

lemma capacity_invD:
  assumes "capacity_inv s"
  shows "vs_ptr (pv_cell (sy_provider s)) < pv_next (sy_provider s)"
    and "vs_revision (pv_cell (sy_provider s)) \<le> pv_revision (sy_provider s)"
    and "1 \<le> vs_revision (pv_cell (sy_provider s))" and "provenance (sy_reads s) (pv_cell (sy_provider s))"
    and "pc_ok (sy_provider s) (sy_reads s) (sy_pc s t)"
    and "r \<le> pv_revision (sy_provider s) \<Longrightarrow> r \<le> vs_revision (pv_cell (sy_provider s))
      \<or> pendingRevision (sy_pc s t) = Some r \<or> (\<exists>t'. t' \<noteq> t \<and> pendingRevision (sy_pc s t') = Some r)"
  using assms unfolding capacity_inv_def Let_def by (simp, simp, simp, simp, simp, metis)

lemma capacity_inv_move:
  assumes "vs_ptr (pv_cell p') < pv_next p'" "vs_revision (pv_cell p') \<le> pv_revision p'" "1 \<le> vs_revision (pv_cell p')"
    and "provenance reads' (pv_cell p')" "pc_ok p' reads' (Some pc')" "\<And>t'. t' \<noteq> t \<Longrightarrow> pc_ok p' reads' (pcs t')"
    and "\<And>r. r \<le> pv_revision p' \<Longrightarrow> r \<le> vs_revision (pv_cell p') \<or> pendingRevision (Some pc') = Some r
      \<or> (\<exists>t'. t' \<noteq> t \<and> pendingRevision (pcs t') = Some r)"
    and "sy_provider s' = p'" "sy_pc s' = pcs(t \<mapsto> pc')" "sy_reads s' = reads'"
  shows "capacity_inv s'"
  unfolding capacity_inv_def Let_def
proof (intro conjI allI impI)
  fix r assume "r \<le> pv_revision (sy_provider s')"
  then show "r \<le> vs_revision (pv_cell (sy_provider s')) \<or> (\<exists>t. pendingRevision (sy_pc s' t) = Some r)"
    using assms(7) [of r] assms(8,9) by (metis fun_upd_other fun_upd_same)
qed (use assms in auto)

lemma capacity_step_inv:
  assumes "capacity_step s s'" "capacity_inv s"
  shows "capacity_inv s'"
  using assms
proof (induction rule: capacity_step.induct)
  case (call s t pts)
  note I = capacity_invD [OF call(2)]
  show ?case by (rule capacity_inv_move [OF I(1-4) _ I(5), where pc' = "Started pts" and t = t])
      (use I(6) [of _ t] call(1) in auto)
next
  case (revision s t pts p' pc')
  let ?p = "sy_provider s"
  note I = capacity_invD [OF revision(4)]
  have p': "p' = ?p\<lparr>pv_revision := pv_revision ?p + 1\<rparr>" "pc' = Numbered (pv_revision ?p + 1) pts"
    using revision(3) by (auto simp: takeRevision_def)
  show ?case
    by (intro capacity_inv_move [of p' "sy_reads s" pc' t "sy_pc s"])
      (use I(1-4) I(6) [of _ t] revision(1) pc_ok_revision [OF I(5) revision(2)]
       in \<open>auto simp: p' u64_next [OF revision(2)]\<close>)
next
  case (read s t r pts outcome answer)
  note I = capacity_invD [OF read(3)]
  have pending: "pendingRevision (Some (Publishing r outcome)) = pendingRevision (sy_pc s t)" using read(1) by simp
  have "r \<le> pv_revision (sy_provider s)" using I(5) [of t] read(1) by simp
  then show ?case
    by (intro capacity_inv_move [OF I(1-3), where pc' = "Publishing r outcome" and t = t and pcs = "sy_pc s"
        and reads' = "(r, outcome) # sy_reads s"])
      (use I(4,5) I(6) [of _ t] pending in \<open>auto intro: provenance_more pc_ok_more\<close>)
next
  case (load s t r outcome)
  note I = capacity_invD [OF load(2)]
  let ?pc = "publishLoad (sy_provider s) r outcome"
  have ok: "pc_ok (sy_provider s) (sy_reads s) (Some ?pc)"
    using I(1,4) I(5) [of t] load(1) by (auto simp: publishLoad_def)
  have pending: "pendingRevision (sy_pc s t) = Some r' \<Longrightarrow>
      r' \<le> vs_revision (pv_cell (sy_provider s)) \<or> pendingRevision (Some ?pc) = Some r'" for r'
    using load(1) by (auto simp: publishLoad_def)
  show ?case
    by (rule capacity_inv_move [OF I(1-4) ok, where t = t and pcs = "sy_pc s"])
      (use I(5) I(6) [of _ t] pending in \<open>blast | simp\<close>)+
next
  case (swap s t r outcome current p' pc')
  let ?p = "sy_provider s" and ?c = "\<lparr>vs_ptr = pv_next (sy_provider s), vs_revision = r,
    vs_state = refreshedState outcome (vs_state current)\<rparr>"
  note I = capacity_invD [OF swap(3)]
  have ok: "pc_ok ?p (sy_reads s) (Some (Swapping r outcome current))" using I(5) [of t] swap(1) by simp
  show ?case
  proof (cases "vs_ptr (pv_cell ?p) = vs_ptr current")
    case True
    then have p': "p' = ?p\<lparr>pv_cell := ?c, pv_next := pv_next ?p + 1\<rparr>" "pc' = Finished (vs_state ?c)"
      using swap(2) by (auto simp: publishSwap_def Let_def)
    have prov: "provenance (sy_reads s) ?c" using ok provenance_refreshed by simp
    have cur: "vs_revision (pv_cell ?p) < r" using ok True by simp
    then have "1 \<le> r" using I(3) by (meson le_less_trans less_imp_le)
    then show ?thesis
      by (intro capacity_inv_move [of p' "sy_reads s" pc' t "sy_pc s"])
        (use ok prov cur I(6) [of _ t] swap(1) pc_ok_swap(2) [OF I(5)] in \<open>auto simp: p' dest: order_trans less_imp_le\<close>)
  next
    case False
    then have p': "p' = ?p\<lparr>pv_next := pv_next ?p + 1\<rparr>" "pc' = Publishing r outcome"
      using swap(2) by (auto simp: publishSwap_def Let_def)
    show ?thesis
      by (intro capacity_inv_move [of p' "sy_reads s" pc' t "sy_pc s"])
        (use ok I(1-4) I(6) [of _ t] swap(1) pc_ok_swap(1) [OF I(5)] in \<open>auto simp: p'\<close>)
  qed
qed

lemma capacity_reachable_inv:
  assumes "capacity_reachable s"
  shows "capacity_inv s"
proof -
  from assms obtain answer pts s0 where "capacity_init answer pts s0" and steps: "capacity_step\<^sup>*\<^sup>* s0 s"
    by (auto simp: capacity_reachable_def)
  then have "capacity_inv s0" by (simp add: capacity_init_inv)
  with steps show ?thesis by (induction rule: rtranclp_induct) (auto intro: capacity_step_inv)
qed

section \<open>Properties\<close>

lemma parse_printCPUList:
  assumes "rs \<noteq> []" "ascending None rs" "\<forall>(a, b) \<in> set rs. b \<le> maxUint64" and "card (cpuSet rs) \<le> maxUint64"
  shows "\<exists>c. ParseOnlineCPUList (printCPUList rs @ [LF]) = Inr c \<and> unat (cpus c) = card (cpuSet rs)"
proof -
  have sep: "graphic (CHR ''-'')" "graphic (CHR '','')" by (simp_all add: graphic_def byte_of_def)
  have fmt: "list_all graphic (formatUint n)" for n
    using digits_formatUint by (rule list.pred_mono_strong) (rule digit_graphic)
  have rng: "list_all graphic (printRange r)" "CHR '','' \<notin> set (printRange r)" for r
    using fmt sep formatUint_sep by (auto simp: printRange_def)
  have g: "list_all graphic (printCPUList rs)"
    using set_joinWith [of "CHR '',''" "map printRange rs"] rng(1) sep(2)
    by (auto simp: printCPUList_def list_all_iff)
  have ne: "printCPUList rs \<noteq> []"
    using assms(1) rng by (cases rs; cases "tl rs") (auto simp: printCPUList_def printRange_def)
  have lines: "splitOn (CHR '','') (printCPUList rs) = map printRange rs"
    unfolding printCPUList_def using assms(1) rng(2) by (intro split_joinWith) auto
  have space: "\<not> list_ex (\<lambda>c. byte_of c \<in> {32, 9, 13, 10}) (printCPUList rs)"
    using g by (auto simp: list_ex_iff list_all_iff graphic_def)
  obtain t where t: "countSegments 0 None (map printRange rs) = Inr t" "unat t = card (cpuSet rs)"
    using countSegments_print [of None rs 0] assms(2-4) by auto
  obtain a b rs' where "rs = (a, b) # rs'" using assms(1) by (cases rs) auto
  then have "a \<in> cpuSet rs" using assms(2) by (auto simp: cpuSet_def)
  then have "card (cpuSet rs) \<noteq> 0" by (metis card_0_eq empty_iff finite_cpuSet)
  then have "t \<noteq> 0" using t(2) by auto
  with t ne lines space show ?thesis
    by (auto simp: ParseOnlineCPUList_def trimSpace_line [OF g ne] NewOnlineCPUCount_def)
qed

text \<open>
  When a list of online CPUs is accepted, every segment parsed, the ranges are
  ascending and disjoint, and the count is the number of distinct CPUs the list names; the 64-bit
  sum never wraps.
\<close>

theorem online_cpu_count_exact:
  assumes "ParseOnlineCPUList v = Inr c"
  shows "\<exists>rs. map parseCPUSegment (splitOn (CHR '','') (trimSpace v)) = map Inr rs
    \<and> ascending None (map range_of rs) \<and> unat (cpus c) = card (cpuSet (map range_of rs)) \<and> cpus c \<noteq> 0"
proof -
  from assms obtain t where t: "countSegments 0 None (splitOn (CHR '','') (trimSpace v)) = Inr t"
    "NewOnlineCPUCount t = Inr c"
    by (auto simp: ParseOnlineCPUList_def Let_def split: if_splits sum.splits)
  from countSegments_Inr [OF t(1)] t(2) show ?thesis by (auto simp: NewOnlineCPUCount_Inr)
qed

text \<open>The list \<^verbatim>\<open>0-3,8\<close> of five CPUs, for the witnesses.\<close>

lemma sample_cpus:
  "[(0, 3), (8, 8)] \<noteq> []" "ascending None [(0, 3), (8, 8)]"
  "\<forall>(a, b) \<in> set [(0, 3), (8, 8)]. b \<le> maxUint64" "card (cpuSet [(0, 3), (8, 8)]) = 5"
  by (simp_all add: card_cpuSet_Cons [where prev = None] card_cpuSet_Cons [where prev = "Some 3"] cpuSet_def [of "[]"])

theorem online_cpu_count_exact_witness:
  "\<exists>c rs. ParseOnlineCPUList (printCPUList [(0, 3), (8, 8)] @ [LF]) = Inr c \<and> unat (cpus c) = 5
     \<and> card (cpuSet (map range_of rs)) = 5"
proof -
  obtain c where c: "ParseOnlineCPUList (printCPUList [(0, 3), (8, 8)] @ [LF]) = Inr c" "unat (cpus c) = 5"
    using parse_printCPUList [OF sample_cpus(1-3)] sample_cpus(4) by auto
  from online_cpu_count_exact [OF c(1)] c show ?thesis by force
qed

text \<open>
  What the kernel prints is read back: ascending disjoint ranges of 64-bit CPU numbers,
  printed with hyphens and commas and a final newline, are accepted and counted exactly.
\<close>

theorem online_cpu_list_round_trip:
  assumes "rs \<noteq> []" "ascending None rs" "\<forall>(a, b) \<in> set rs. b \<le> 18446744073709551615"
    and "card (cpuSet rs) \<le> 18446744073709551615"
  shows "\<exists>c. ParseOnlineCPUList (printCPUList rs @ [LF]) = Inr c \<and> unat (cpus c) = card (cpuSet rs)"
  by (rule parse_printCPUList [OF assms])

theorem online_cpu_list_round_trip_witness:
  "\<exists>c. ParseOnlineCPUList (printCPUList [(0, 3), (8, 8)] @ [LF]) = Inr c \<and> unat (cpus c) = 5"
  using online_cpu_list_round_trip [OF sample_cpus(1-3)] sample_cpus(4) by simp

text \<open>
  In every reachable state the published capacity is exactly what the refresh with the
  published revision made of the read it did. Available means that refresh read this very plan;
  unavailable means it failed with this reason, and the last verified plan is one that an earlier
  live read returned, never an invented one.
\<close>

theorem capacity_provenance:
  assumes "capacity_reachable s"
  shows "provenance (sy_reads s) (pv_cell (sy_provider s))"
  using capacity_invD(4) [OF capacity_reachable_inv [OF assms]] .

text \<open>
  Property C14: the refresh that started last wins. When no goroutine is inside a refresh that took a
  revision, the published revision is the newest one that was handed out, however the goroutines
  were interleaved.
\<close>

theorem capacity_latest_wins:
  assumes "capacity_reachable s" "\<And>t. pendingRevision (sy_pc s t) = None"
  shows "vs_revision (pv_cell (sy_provider s)) = pv_revision (sy_provider s)"
  using capacity_invD(6) [OF capacity_reachable_inv [OF assms(1)], of "pv_revision (sy_provider s)"]
    capacity_invD(2) [OF capacity_reachable_inv [OF assms(1)]] assms(2)
  by (simp add: order_antisym)

lemma refresh_run:
  assumes idle: "sy_pc s t = None" and room: "unat (pv_revision (sy_provider s)) < 18446744073709551615"
    and run: "Refresh answer pts (sy_provider s) = (p', state, err)"
  shows "\<exists>s'. capacity_step\<^sup>*\<^sup>* s s' \<and> sy_provider s' = p' \<and> sy_pc s' t = Some (Finished state)"
proof -
  define r where "r = pv_revision (sy_provider s) + 1"
  define outcome where "outcome = readCapacityPlan answer pts"
  let ?s1 = "s\<lparr> sy_pc := (sy_pc s)(t \<mapsto> Started pts) \<rparr>"
  let ?p1 = "(sy_provider s)\<lparr> pv_revision := r \<rparr>"
  let ?s2 = "?s1\<lparr> sy_provider := ?p1, sy_pc := (sy_pc ?s1)(t \<mapsto> Numbered r pts) \<rparr>"
  let ?s3 = "?s2\<lparr> sy_pc := (sy_pc ?s2)(t \<mapsto> Publishing r outcome), sy_reads := (r, outcome) # sy_reads ?s2 \<rparr>"
  let ?s4 = "?s3\<lparr> sy_pc := (sy_pc ?s3)(t \<mapsto> publishLoad (sy_provider ?s3) r outcome) \<rparr>"
  have "capacity_step s ?s1" using idle by (rule capacity_step.call)
  moreover have "capacity_step ?s1 ?s2" using room by (intro capacity_step.revision [of _ t pts]) (simp_all add: takeRevision_def r_def)
  moreover have "capacity_step ?s2 ?s3" by (intro capacity_step.read [of _ _ _ pts]) (simp_all add: outcome_def)
  moreover have "capacity_step ?s3 ?s4" by (intro capacity_step.load) simp
  ultimately have loaded: "capacity_step\<^sup>*\<^sup>* s ?s4" by (meson rtranclp.rtrancl_into_rtrancl rtranclp.rtrancl_refl)
  show ?thesis
  proof (cases "vs_revision (pv_cell (sy_provider s)) \<ge> r")
    case True
    then have "p' = ?p1 \<and> state = vs_state (pv_cell (sy_provider s))"
      using run by (auto simp: Refresh_def r_def Let_def)
    then show ?thesis using loaded True by (intro exI [of _ ?s4]) (simp add: publishLoad_def)
  next
    case False
    then have pc: "sy_pc ?s4 t = Some (Swapping r outcome (pv_cell ?p1))" by (simp add: publishLoad_def)
    have "publishSwap (sy_provider ?s4) r outcome (pv_cell ?p1) = (p', Finished state)"
      using run False by (auto simp: Refresh_def publishSwap_def r_def outcome_def Let_def)
    from capacity_step.swap [of ?s4 t, OF pc this] loaded show ?thesis
      by (intro exI [of _ "?s4\<lparr> sy_provider := p', sy_pc := (sy_pc ?s4)(t \<mapsto> Finished state) \<rparr>"]) auto
  qed
qed


text \<open>
  A step never lowers the published revision, and a step that publishes a state raises
  it, so a slow refresh cannot overwrite the result of a newer one.
\<close>

theorem capacity_revision_monotone:
  assumes "capacity_reachable s" "capacity_step s s'"
  shows "pv_cell (sy_provider s') = pv_cell (sy_provider s)
    \<or> vs_revision (pv_cell (sy_provider s)) < vs_revision (pv_cell (sy_provider s'))"
proof -
  have ok: "pc_ok (sy_provider s) (sy_reads s) (sy_pc s t)" for t
    by (rule capacity_invD(5) [OF capacity_reachable_inv [OF assms(1)]])
  show ?thesis using assms(2)
  proof (rule capacity_stepE)
    fix t r outcome current p' pc'
    assume "s' = s\<lparr>sy_provider := p', sy_pc := (sy_pc s)(t \<mapsto> pc')\<rparr>" "sy_pc s t = Some (Swapping r outcome current)"
      "publishSwap (sy_provider s) r outcome current = (p', pc')"
    with ok [of t] show ?thesis by (auto simp: publishSwap_def Let_def split: if_splits)
  qed (auto simp: takeRevision_def)
qed

text \<open>A run with one failing refresh, for the witnesses: eight CPUs first, then the read fails.\<close>

definition samplePlan :: parent_quota where
  "samplePlan = \<lparr>pq_poolPoints = ParentPoolPoints 900, pq_onlineCPUs = OnlineCPUCount 8, pq_quota = 720000,
     pq_period = 100000\<rparr>"

definition sampleCell :: versioned_capacity_state where
  "sampleCell = \<lparr>vs_ptr = 0, vs_revision = 1,
     vs_state = \<lparr>cs_Available = True, cs_LastVerified = samplePlan, cs_UnavailableReason = None\<rparr>\<rparr>"

definition sampleStart :: capacity_system where
  "sampleStart = \<lparr>sy_provider = \<lparr>pv_revision = 1, pv_cell = sampleCell, pv_next = 1\<rparr>,
     sy_pc = (\<lambda>_. None), sy_reads = [(1, Inr samplePlan)]\<rparr>"

definition sampleSwapping :: capacity_system where
  "sampleSwapping = \<lparr>sy_provider = \<lparr>pv_revision = 2, pv_cell = sampleCell, pv_next = 1\<rparr>,
     sy_pc = [0 \<mapsto> Swapping 2 (Inl CapacityReadError) sampleCell],
     sy_reads = [(2, Inl CapacityReadError), (1, Inr samplePlan)]\<rparr>"

definition sampleEnd :: capacity_system where
  "sampleEnd =
     (let st = \<lparr>cs_Available = False, cs_LastVerified = samplePlan, cs_UnavailableReason = Some CapacityReadError\<rparr> in
      \<lparr>sy_provider = \<lparr>pv_revision = 2, pv_cell = \<lparr>vs_ptr = 1, vs_revision = 2, vs_state = st\<rparr>, pv_next = 2\<rparr>,
       sy_pc = [0 \<mapsto> Finished st], sy_reads = [(2, Inl CapacityReadError), (1, Inr samplePlan)]\<rparr>)"

lemma sampleStart_init: "capacity_init (Inr (OnlineCPUCount 8)) (ParentPoolPoints 900) sampleStart"
proof -
  have "PlanParentQuota (OnlineCPUCount 8) (ParentPoolPoints 900) = Inr samplePlan"
    using PlanParentQuota_cases [of "ParentPoolPoints 900" "OnlineCPUCount 8"] by (simp add: wf_pool_def samplePlan_def)
  then show ?thesis
    by (simp add: capacity_init_def NewLiveCapacityProvider_def readCapacityPlan_def sampleStart_def sampleCell_def)
qed

lemma sample_steps: "capacity_reachable sampleSwapping" "capacity_step sampleSwapping sampleEnd"
proof -
  let ?q = "ParentPoolPoints 900"
  let ?p1 = "\<lparr>pv_revision = 1, pv_cell = sampleCell, pv_next = 1\<rparr>" and ?p2 = "\<lparr>pv_revision = 2, pv_cell = sampleCell, pv_next = 1\<rparr>"
  let ?s1 = "\<lparr>sy_provider = ?p1, sy_pc = [0 \<mapsto> Started ?q], sy_reads = [(1, Inr samplePlan)]\<rparr>"
  let ?s2 = "\<lparr>sy_provider = ?p2, sy_pc = [0 \<mapsto> Numbered 2 ?q], sy_reads = [(1, Inr samplePlan)]\<rparr>"
  let ?s3 = "\<lparr>sy_provider = ?p2, sy_pc = [0 \<mapsto> Publishing 2 (Inl CapacityReadError)],
    sy_reads = [(2, Inl CapacityReadError), (1, Inr samplePlan)]\<rparr>"
  have 1: "capacity_step sampleStart ?s1"
    using capacity_step.call [of sampleStart 0 ?q] by (simp add: sampleStart_def)
  have 2: "capacity_step ?s1 ?s2"
    using capacity_step.revision [of ?s1 0 ?q ?p2 "Numbered 2 ?q"] by (simp add: takeRevision_def)
  have 3: "capacity_step ?s2 ?s3"
    using capacity_step.read [of ?s2 0 2 ?q "Inl CapacityReadError" "Inl (ForeignError [])"]
    by (simp add: readCapacityPlan_def)
  have 4: "capacity_step ?s3 sampleSwapping"
    using capacity_step.load [of ?s3 0 2 "Inl CapacityReadError"]
    by (simp add: publishLoad_def sampleSwapping_def sampleCell_def word_le_nat_alt)
  have "capacity_step\<^sup>*\<^sup>* sampleStart sampleSwapping"
    using 1 2 3 4 by (meson rtranclp.rtrancl_refl rtranclp.rtrancl_into_rtrancl)
  then show "capacity_reachable sampleSwapping" using sampleStart_init by (auto simp: capacity_reachable_def)
  show "capacity_step sampleSwapping sampleEnd"
    using capacity_step.swap [of sampleSwapping 0 2 "Inl CapacityReadError" sampleCell "sy_provider sampleEnd"
        "the (sy_pc sampleEnd 0)"]
    by (simp add: sampleSwapping_def sampleEnd_def publishSwap_def refreshedState_def sampleCell_def Let_def)
qed

lemma sampleEnd_reachable: "capacity_reachable sampleEnd"
  using sample_steps by (auto simp: capacity_reachable_def intro: rtranclp.rtrancl_into_rtrancl)

theorem capacity_provenance_witness:
  "provenance [(2, Inl CapacityReadError), (1, Inr samplePlan)] (pv_cell (sy_provider sampleEnd))"
  using capacity_provenance [OF sampleEnd_reachable] by (simp add: sampleEnd_def Let_def)

theorem capacity_latest_wins_witness:
  "vs_revision (pv_cell (sy_provider sampleEnd)) = 2 \<and> pv_revision (sy_provider sampleEnd) = 2"
proof -
  have "pendingRevision (sy_pc sampleEnd t) = None" for t by (simp add: sampleEnd_def Let_def)
  from capacity_latest_wins [OF sampleEnd_reachable this] show ?thesis by (simp add: sampleEnd_def Let_def)
qed

theorem capacity_revision_monotone_witness:
  "vs_revision (pv_cell (sy_provider sampleSwapping)) < vs_revision (pv_cell (sy_provider sampleEnd))"
  using capacity_revision_monotone [OF sample_steps]
  by (simp add: sampleSwapping_def sampleEnd_def sampleCell_def Let_def)


end
