(* ===== verification/IoWeights_Policy.thy ===== *)
theory IoWeights_Policy
  imports CpuPoints_Policy Safe_File
begin

text \<open>
  Weighted I/O (\<^verbatim>\<open>src/internal/ioweights/policy.go\<close> and \<^verbatim>\<open>policy_file.go\<close>): the public weight, the
  device selector, the weighted-I/O map with its parser and safe loader, and the per-slice plan with
  its in-place insertion sort. Names that the CPU Points package also has carry the suffix \<open>IO\<close>.
  The functions of \<^verbatim>\<open>golang.org/x/sys/unix\<close> that encode a device number are parameters.
\<close>

section \<open>Weights and devices\<close>

definition PolicyMapMarkerIO :: string where "PolicyMapMarkerIO = ''[resman-io-weights-map-v1]''"
definition MaximumPolicyMapBytesIO :: nat where "MaximumPolicyMapBytesIO = 65536"
definition MaximumPolicyMapEntriesIO :: nat where "MaximumPolicyMapEntriesIO = 4096"

datatype io_weight = Weight (wgt: u16)

definition NewWeight :: "u64 \<Rightarrow> (u64, io_weight) res" where
  "NewWeight v = (if v < 1 \<or> v > 1000 then Inl v else Inr (Weight (u16_of_u64 v)))"

definition Weight_Value :: "io_weight \<Rightarrow> u64" where
  "Weight_Value w = u64_of_u16 (wgt w)"

definition wf_io_weight :: "io_weight \<Rightarrow> bool" where
  "wf_io_weight w \<longleftrightarrow> 1 \<le> unat (wgt w) \<and> unat (wgt w) \<le> 1000"

datatype device_error =
    DevicePadded string
  | DeviceNotPair string
  | DeviceNotCanonical string
  | DeviceZero
  | DeviceExceedsDevT string
  | DeviceDuplicated string

text \<open>One canonical component: \<^verbatim>\<open>ParseUint(field, 10, 32)\<close> that prints back as the field.\<close>

definition deviceComponent :: "string \<Rightarrow> nat option" where
  "deviceComponent field =
     (case parseUint 32 field of
        None \<Rightarrow> None
      | Some v \<Rightarrow> if formatUint v \<noteq> field then None else Some v)"

text \<open>
  The loop over the parts; \<open>mkdev\<close>, \<open>major\<close> and \<open>minor\<close> stand for \<^verbatim>\<open>unix.Mkdev\<close>, \<^verbatim>\<open>unix.Major\<close> and
  \<^verbatim>\<open>unix.Minor\<close>, \<open>seen\<close> for the set of encoded devices.
\<close>

fun validateDevices ::
    "(u32 \<Rightarrow> u32 \<Rightarrow> u64) \<Rightarrow> (u64 \<Rightarrow> u32) \<Rightarrow> (u64 \<Rightarrow> u32) \<Rightarrow> u64 list \<Rightarrow> string list \<Rightarrow> (device_error, unit) res" where
  "validateDevices mkdev major minor seen [] = Inr ()"
| "validateDevices mkdev major minor seen (part # parts) =
     (if isPadded part then Inl (DevicePadded part)
      else (case splitOn (CHR '':'') part of
        [majorText, minorText] \<Rightarrow>
          (case (deviceComponent majorText, deviceComponent minorText) of
             (Some a, Some b) \<Rightarrow>
               if a = 0 \<and> b = 0 then Inl DeviceZero
               else
                 (let encoded = mkdev (of_nat a) (of_nat b) in
                  if unat (major encoded) \<noteq> a \<or> unat (minor encoded) \<noteq> b then Inl (DeviceExceedsDevT part)
                  else if encoded \<in> set seen then Inl (DeviceDuplicated part)
                  else validateDevices mkdev major minor (encoded # seen) parts)
           | _ \<Rightarrow> Inl (DeviceNotCanonical part))
      | _ \<Rightarrow> Inl (DeviceNotPair part)))"

definition ValidateDeviceSelector ::
    "(u32 \<Rightarrow> u32 \<Rightarrow> u64) \<Rightarrow> (u64 \<Rightarrow> u32) \<Rightarrow> (u64 \<Rightarrow> u32) \<Rightarrow> string \<Rightarrow> (device_error, unit) res" where
  "ValidateDeviceSelector mkdev major minor selector =
     (if selector = [] then Inr () else validateDevices mkdev major minor [] (splitOn (CHR '','') selector))"

section \<open>The policy map\<close>

datatype policy_map_path_io = PolicyMapPathIO (path_of_io: string)

datatype path_error_io = PathEmptyIO | PathNotAbsoluteClean

definition NewPolicyMapPathIO :: "string \<Rightarrow> (path_error_io, policy_map_path_io) res" where
  "NewPolicyMapPathIO p =
     (if p = [] then Inl PathEmptyIO
      else if \<not> isAbsPath p \<or> \<not> isCleanAbsPath p then Inl PathNotAbsoluteClean
      else Inr (PolicyMapPathIO p))"

record policy_source_io =
  pi_path :: policy_map_path_io
  pi_dev :: u64
  pi_inode :: u64
  pi_size :: int
  pi_digest :: string

record user_weight =
  uw_username :: string
  uw_uid :: int
  uw_weight :: io_weight
  uw_line :: nat

record policy_snapshot_io =
  si_root :: io_weight
  si_default :: io_weight
  si_entries :: "user_weight list"
  si_byUID :: "(int \<times> user_weight) list"
  si_source :: policy_source_io

definition NewEmptyPolicySnapshotIO :: "io_weight \<Rightarrow> io_weight \<Rightarrow> policy_snapshot_io" where
  "NewEmptyPolicySnapshotIO rootW defaultIO =
     \<lparr>si_root = rootW, si_default = defaultIO, si_entries = [], si_byUID = [],
      si_source = \<lparr>pi_path = PolicyMapPathIO [], pi_dev = 0, pi_inode = 0, pi_size = 0,
        pi_digest = replicate 32 (char_of (0::nat))\<rparr>\<rparr>"

definition WeightForUID :: "policy_snapshot_io \<Rightarrow> int \<Rightarrow> user_weight option" where
  "WeightForUID s uid = map_of (si_byUID s) uid"

record raw_policy_entry_io =
  ri_username :: string
  ri_weight :: io_weight
  ri_line :: nat

datatype syntax_error_io =
    MapTooLargeIO nat
  | MapNotUTF8OrBOM
  | StrayCarriageReturnIO
  | MarkerMissingIO
  | LinePaddedIO nat
  | LineNotAssignment nat
  | UsernameControl nat
  | DuplicateUsernameIO string nat nat
  | NonCanonicalWeight nat string
  | WeightOutOfRange nat string u64
  | TooManyEntriesIO

definition parseAssignmentIO ::
    "(string \<times> nat) list \<Rightarrow> nat \<Rightarrow> nat \<Rightarrow> string \<Rightarrow> (syntax_error_io, raw_policy_entry_io) res" where
  "parseAssignmentIO seen entryCount lineNumber line =
     (if isPadded line then Inl (LinePaddedIO lineNumber)
      else (case cutAt (CHR ''='') line of (username, rawWeight, found) \<Rightarrow>
        if \<not> found \<or> username = [] \<or> rawWeight = [] \<or> CHR ''='' \<in> set rawWeight
        then Inl (LineNotAssignment lineNumber)
        else if list_ex (\<lambda>c. byte_of c < 32 \<or> byte_of c = 127) username then Inl (UsernameControl lineNumber)
        else (case map_of seen username of
                Some prior \<Rightarrow> Inl (DuplicateUsernameIO username prior lineNumber)
              | None \<Rightarrow>
                  (case parseUint 16 rawWeight of
                     None \<Rightarrow> Inl (NonCanonicalWeight lineNumber rawWeight)
                   | Some v \<Rightarrow>
                       if formatUint v \<noteq> rawWeight then Inl (NonCanonicalWeight lineNumber rawWeight)
                       else (case NewWeight (of_nat v) of
                               Inl x \<Rightarrow> Inl (WeightOutOfRange lineNumber username x)
                             | Inr w \<Rightarrow>
                                 if entryCount = MaximumPolicyMapEntriesIO then Inl TooManyEntriesIO
                                 else Inr \<lparr>ri_username = username, ri_weight = w, ri_line = lineNumber\<rparr>)))))"

fun parsePolicyLinesIO ::
    "nat \<Rightarrow> (string \<times> nat) list \<Rightarrow> raw_policy_entry_io list \<Rightarrow> string list \<Rightarrow>
     (syntax_error_io, raw_policy_entry_io list) res" where
  "parsePolicyLinesIO lineNumber seen entries [] = Inr entries"
| "parsePolicyLinesIO lineNumber seen entries (line # lines) =
     (if line = [] \<or> hasPrefix line ''#'' then parsePolicyLinesIO (Suc lineNumber) seen entries lines
      else (case parseAssignmentIO seen (length entries) lineNumber line of
              Inl e \<Rightarrow> Inl e
            | Inr entry \<Rightarrow>
                parsePolicyLinesIO (Suc lineNumber)
                  (AList.update (ri_username entry) lineNumber seen) (entries @ [entry]) lines))"

definition parsePolicyMapIO :: "string \<Rightarrow> (syntax_error_io, raw_policy_entry_io list) res" where
  "parsePolicyMapIO data =
     (if length data > MaximumPolicyMapBytesIO then Inl (MapTooLargeIO (length data))
      else if containsSub data utf8BOM \<or> \<not> utf8Valid data then Inl MapNotUTF8OrBOM
      else
        (let content = crlfToLf data in
         if CR \<in> set content then Inl StrayCarriageReturnIO
         else
           (let lines = splitOn LF content in
            if lines = [] \<or> hd lines \<noteq> PolicyMapMarkerIO then Inl MarkerMissingIO
            else parsePolicyLinesIO 2 [] [] (tl lines))))"

definition Equal :: "policy_snapshot_io \<Rightarrow> policy_snapshot_io \<Rightarrow> bool" where
  "Equal s other \<longleftrightarrow>
     si_root s = si_root other \<and> si_default s = si_default other
     \<and> length (si_entries s) = length (si_entries other)
     \<and> list_all2 (\<lambda>l r. uw_username l = uw_username r \<and> uw_uid l = uw_uid r \<and> uw_weight l = uw_weight r)
         (si_entries s) (si_entries other)"

section \<open>The plan\<close>

record active_user_slice_io =
  ai_UID :: int
  ai_Eligible :: bool

datatype slice_class = SliceClassRoot | SliceClassMapped | SliceClassDefault

record slice_plan =
  sp_uid :: int
  sp_class :: slice_class
  sp_weight :: io_weight

datatype plan_error = ParticipantInvalid int | ParticipantDuplicated int

definition planSliceIO :: "policy_snapshot_io \<Rightarrow> active_user_slice_io \<Rightarrow> slice_plan" where
  "planSliceIO policy p =
     (let planned = \<lparr>sp_uid = ai_UID p, sp_class = SliceClassDefault, sp_weight = si_default policy\<rparr> in
      if ai_UID p = 0 then planned\<lparr>sp_class := SliceClassRoot, sp_weight := si_root policy\<rparr>
      else if ai_Eligible p
      then (case map_of (si_byUID policy) (ai_UID p) of
              Some mapped \<Rightarrow> planned\<lparr>sp_class := SliceClassMapped, sp_weight := uw_weight mapped\<rparr>
            | None \<Rightarrow> planned)
      else planned)"

fun collectPlan ::
    "policy_snapshot_io \<Rightarrow> int list \<Rightarrow> slice_plan list \<Rightarrow> active_user_slice_io list \<Rightarrow> (plan_error, slice_plan list) res" where
  "collectPlan policy seen result [] = Inr result"
| "collectPlan policy seen result (p # ps) =
     (if ai_UID p < 0 then Inl (ParticipantInvalid (ai_UID p))
      else if ai_UID p \<in> set seen then Inl (ParticipantDuplicated (ai_UID p))
      else collectPlan policy (ai_UID p # seen) (result @ [planSliceIO policy p]) ps)"

text \<open>The inner loop: swap the element at \<open>j\<close> to the left while it is smaller than its neighbour.\<close>

fun sinkLeft :: "slice_plan list \<Rightarrow> nat \<Rightarrow> slice_plan list" where
  "sinkLeft xs 0 = xs"
| "sinkLeft xs (Suc j) =
     (if sp_uid (xs ! Suc j) < sp_uid (xs ! j)
      then sinkLeft (xs[Suc j := xs ! j, j := xs ! Suc j]) j else xs)"

definition insertionSort :: "slice_plan list \<Rightarrow> slice_plan list" where
  "insertionSort xs = foldl (\<lambda>ys i. sinkLeft ys i) xs [1..<length xs]"

definition Plan :: "policy_snapshot_io \<Rightarrow> active_user_slice_io list \<Rightarrow> (plan_error, slice_plan list) res" where
  "Plan policy active =
     (case collectPlan policy [] [] active of Inl e \<Rightarrow> Inl e | Inr result \<Rightarrow> Inr (insertionSort result))"

section \<open>The loader\<close>

record policy_inputs_io =
  ii_Root :: io_weight
  ii_Default :: io_weight
  ii_MapPath :: policy_map_path_io

datatype identity_cause_io = ResolverFailedIO string | NotExactlyOnce | DuplicateUIDIO string int

datatype policy_error_io =
    BadPathIO path_error_io
  | BadRootIO u64
  | BadDefaultIO u64
  | PolicySyntaxErrorIO syntax_error_io
  | PolicyIdentityErrorIO string identity_cause_io

definition resolveEntryIO ::
    "identity_resolver \<Rightarrow> (int \<times> user_weight) list \<Rightarrow> raw_policy_entry_io \<Rightarrow> (policy_error_io, user_weight) res" where
  "resolveEntryIO resolver byUID candidate =
     (case resolver (ri_username candidate) of
        Inl e \<Rightarrow> Inl (PolicyIdentityErrorIO (ri_username candidate) (ResolverFailedIO e))
      | Inr identities \<Rightarrow>
          if length identities \<noteq> 1 \<or> id_Username (identities ! 0) \<noteq> ri_username candidate \<or> id_UID (identities ! 0) \<le> 0
          then Inl (PolicyIdentityErrorIO (ri_username candidate) NotExactlyOnce)
          else
            (case map_of byUID (id_UID (identities ! 0)) of
               Some previous \<Rightarrow>
                 Inl (PolicyIdentityErrorIO (ri_username candidate)
                       (DuplicateUIDIO (uw_username previous) (id_UID (identities ! 0))))
             | None \<Rightarrow>
                 Inr \<lparr>uw_username = ri_username candidate, uw_uid = id_UID (identities ! 0),
                      uw_weight = ri_weight candidate, uw_line = ri_line candidate\<rparr>))"

fun resolveEntriesIO ::
    "identity_resolver \<Rightarrow> user_weight list \<Rightarrow> (int \<times> user_weight) list \<Rightarrow> raw_policy_entry_io list \<Rightarrow>
     (policy_error_io, user_weight list \<times> (int \<times> user_weight) list) res" where
  "resolveEntriesIO resolver entries byUID [] = Inr (entries, byUID)"
| "resolveEntriesIO resolver entries byUID (candidate # raws) =
     (case resolveEntryIO resolver byUID candidate of
        Inl e \<Rightarrow> Inl e
      | Inr entry \<Rightarrow>
          resolveEntriesIO resolver (entries @ [entry]) (AList.update (uw_uid entry) entry byUID) raws)"

definition loadContentIO ::
    "policy_inputs_io \<Rightarrow> string \<Rightarrow> policy_source_io \<Rightarrow> identity_resolver \<Rightarrow> (policy_error_io, policy_snapshot_io) res" where
  "loadContentIO inputs data source resolver =
     (case NewWeight (Weight_Value (ii_Root inputs)) of
        Inl x \<Rightarrow> Inl (BadRootIO x)
      | Inr rootW \<Rightarrow>
     (case NewWeight (Weight_Value (ii_Default inputs)) of
        Inl x \<Rightarrow> Inl (BadDefaultIO x)
      | Inr defaultIO \<Rightarrow>
     (case parsePolicyMapIO data of
        Inl e \<Rightarrow> Inl (PolicySyntaxErrorIO e)
      | Inr raws \<Rightarrow>
     (case resolveEntriesIO resolver [] [] raws of
        Inl e \<Rightarrow> Inl e
      | Inr (entries, byUID) \<Rightarrow>
          Inr \<lparr>si_root = rootW, si_default = defaultIO, si_entries = entries, si_byUID = byUID,
               si_source = source\<rparr>))))"

definition LoadContentIO ::
    "(string \<Rightarrow> string) \<Rightarrow> policy_inputs_io \<Rightarrow> string \<Rightarrow> identity_resolver \<Rightarrow> (policy_error_io, policy_snapshot_io) res" where
  "LoadContentIO sha256 inputs data resolver =
     (case NewPolicyMapPathIO (path_of_io (ii_MapPath inputs)) of
        Inl e \<Rightarrow> Inl (BadPathIO e)
      | Inr path \<Rightarrow>
          loadContentIO inputs data
            \<lparr>pi_path = path, pi_dev = 0, pi_inode = 0, pi_size = int (length data), pi_digest = sha256 data\<rparr> resolver)"

subsection \<open>Reading the file\<close>

datatype file_error_io =
    AncestorUnsafe string
  | AncestorOwnerUnknownIO
  | AncestorUntrustedOwnerIO string int
  | AncestorWritableIO string
  | OpenFailedIO string
  | InspectFailedIO string
  | NotPrivateFile
  | OwnerUnknownIO
  | UntrustedOwnerIO int
  | ReadFailedIO string
  | ChangedOrExceeded
  | PathChangedIdentityIO
  | UnsupportedMetadataIO

definition policyFileOwnerUIDIO :: "file_info \<Rightarrow> int option" where
  "policyFileOwnerUIDIO info = (case fi_Stat info of None \<Rightarrow> None | Some s \<Rightarrow> Some (uint (st_Uid s)))"

definition validateOpenedFileIO :: "int \<Rightarrow> file_info \<Rightarrow> (file_error_io, unit) res" where
  "validateOpenedFileIO euid info =
     (if \<not> Mode_IsRegular (fi_Mode info) \<or> Mode_Perm (fi_Mode info) \<noteq> 0x180 then Inl NotPrivateFile
      else (case policyFileOwnerUIDIO info of
              None \<Rightarrow> Inl OwnerUnknownIO
            | Some owner \<Rightarrow> if owner \<noteq> 0 \<and> owner \<noteq> euid then Inl (UntrustedOwnerIO owner) else Inr ()))"

definition validateAncestorIO :: "int \<Rightarrow> string \<Rightarrow> (string, file_info) res \<Rightarrow> (file_error_io, unit) res" where
  "validateAncestorIO euid current r =
     (case r of
        Inl _ \<Rightarrow> Inl (AncestorUnsafe current)
      | Inr info \<Rightarrow>
          if Mode_IsSymlink (fi_Mode info) \<or> \<not> Mode_IsDir (fi_Mode info) then Inl (AncestorUnsafe current)
          else (case policyFileOwnerUIDIO info of
                  None \<Rightarrow> Inl AncestorOwnerUnknownIO
                | Some owner \<Rightarrow>
                    if owner \<noteq> 0 \<and> owner \<noteq> euid then Inl (AncestorUntrustedOwnerIO current owner)
                    else if Mode_Perm (fi_Mode info) AND 0x12 \<noteq> 0
                            \<and> (\<not> Mode_IsSticky (fi_Mode info) \<or> owner \<noteq> 0)
                    then Inl (AncestorWritableIO current)
                    else Inr ()))"

function validateAncestorsFromIO ::
    "int \<Rightarrow> (string \<Rightarrow> (string, file_info) res) \<Rightarrow> string \<Rightarrow> (file_error_io, unit) res" where
  "validateAncestorsFromIO euid lstat current =
     (case validateAncestorIO euid current (lstat current) of
        Inl e \<Rightarrow> Inl e
      | Inr _ \<Rightarrow>
          if dirOf current = current then Inr () else validateAncestorsFromIO euid lstat (dirOf current))"
  by pat_completeness auto
termination
  by (relation "measure (\<lambda>(_, _, p). dirDepth p)") (simp_all add: dirOf_depth)

declare validateAncestorsFromIO.simps [simp del]

definition validateAncestorsIO ::
    "int \<Rightarrow> (string \<Rightarrow> (string, file_info) res) \<Rightarrow> string \<Rightarrow> (file_error_io, unit) res" where
  "validateAncestorsIO euid lstat path = validateAncestorsFromIO euid lstat (dirOf path)"

text \<open>\<^verbatim>\<open>firstError\<close>: the first error that is not nil.\<close>

fun firstError :: "string option list \<Rightarrow> string option" where
  "firstError [] = None"
| "firstError (e # es) = (case e of Some x \<Rightarrow> Some x | None \<Rightarrow> firstError es)"

definition errorOf :: "(string, 'a) res \<Rightarrow> string option" where
  "errorOf r = (case r of Inl e \<Rightarrow> Some e | Inr _ \<Rightarrow> None)"

definition readSafePolicyFileIO ::
    "(string \<Rightarrow> string) \<Rightarrow> read_env \<Rightarrow> policy_map_path_io \<Rightarrow> (file_error_io, string \<times> policy_source_io) res" where
  "readSafePolicyFileIO sha256 env path =
     (case validateAncestorsIO (ev_euid env) (ev_lstat1 env) (path_of_io path) of
        Inl e \<Rightarrow> Inl e
      | Inr _ \<Rightarrow>
     (case ev_open env of
        Some e \<Rightarrow> Inl (OpenFailedIO e)
      | None \<Rightarrow>
     (case ev_stat1 env of
        Inl e \<Rightarrow> Inl (InspectFailedIO e)
      | Inr info \<Rightarrow>
     (case validateOpenedFileIO (ev_euid env) info of
        Inl e \<Rightarrow> Inl e
      | Inr _ \<Rightarrow>
     (case (firstError [errorOf (ev_content env), errorOf (ev_stat2 env), ev_close env], ev_content env, ev_stat2 env) of
        (None, Inr content, Inr after) \<Rightarrow>
          (let data = take (MaximumPolicyMapBytesIO + 1) content in
           if length data > MaximumPolicyMapBytesIO \<or> fi_Size info \<noteq> fi_Size after
              \<or> int (length data) \<noteq> fi_Size after \<or> fi_ModTime info \<noteq> fi_ModTime after
           then Inl ChangedOrExceeded
           else
             (case validateAncestorsIO (ev_euid env) (ev_lstat2 env) (path_of_io path) of
                Inl e \<Rightarrow> Inl e
              | Inr _ \<Rightarrow>
             (case ev_lstat2 env (path_of_io path) of
                Inl _ \<Rightarrow> Inl PathChangedIdentityIO
              | Inr pathInfo \<Rightarrow>
                  if Mode_IsSymlink (fi_Mode pathInfo) \<or> \<not> sameFile after pathInfo then Inl PathChangedIdentityIO
                  else (case fi_Stat after of
                          None \<Rightarrow> Inl UnsupportedMetadataIO
                        | Some s \<Rightarrow>
                            Inr (data, \<lparr>pi_path = path, pi_dev = st_Dev s, pi_inode = st_Ino s,
                                        pi_size = fi_Size after, pi_digest = sha256 data\<rparr>)))))
      | (Some e, _, _) \<Rightarrow> Inl (ReadFailedIO e)
      | (None, _, _) \<Rightarrow> Inl (ReadFailedIO []))))))"

datatype confirm_error_io = ConfirmReadFailedIO file_error_io | SourceChangedIO

definition ConfirmSourceIO :: "(string \<Rightarrow> string) \<Rightarrow> read_env \<Rightarrow> policy_source_io \<Rightarrow> (confirm_error_io, unit) res" where
  "ConfirmSourceIO sha256 env source =
     (case readSafePolicyFileIO sha256 env (pi_path source) of
        Inl e \<Rightarrow> Inl (ConfirmReadFailedIO e)
      | Inr (data, current) \<Rightarrow>
          if pi_dev current \<noteq> pi_dev source \<or> pi_inode current \<noteq> pi_inode source
             \<or> pi_size current \<noteq> pi_size source \<or> pi_digest current \<noteq> pi_digest source
             \<or> sha256 data \<noteq> pi_digest source
          then Inl SourceChangedIO else Inr ())"

datatype load_error_io = LoadBadPathIO path_error_io | LoadFileErrorIO file_error_io | LoadPolicyErrorIO policy_error_io

definition LoadIO ::
    "(string \<Rightarrow> string) \<Rightarrow> read_env \<Rightarrow> policy_inputs_io \<Rightarrow> identity_resolver \<Rightarrow> (load_error_io, policy_snapshot_io) res" where
  "LoadIO sha256 env inputs resolver =
     (case NewPolicyMapPathIO (path_of_io (ii_MapPath inputs)) of
        Inl e \<Rightarrow> Inl (LoadBadPathIO e)
      | Inr path \<Rightarrow>
          (case readSafePolicyFileIO sha256 env path of
             Inl e \<Rightarrow> Inl (LoadFileErrorIO e)
           | Inr (data, source) \<Rightarrow>
               (case loadContentIO inputs data source resolver of
                  Inl e \<Rightarrow> Inl (LoadPolicyErrorIO e) | Inr s \<Rightarrow> Inr s)))"

section \<open>Lemmas on the plan\<close>

lemma sinkLeft_spec:
  "sorted (map sp_uid pre) \<Longrightarrow>
     \<exists>zs. sinkLeft (pre @ x # post) (length pre) = zs @ post \<and> mset zs = mset (x # pre)
       \<and> length zs = Suc (length pre) \<and> sorted (map sp_uid zs)"
proof (induction pre arbitrary: post rule: rev_induct)
  case (snoc y ys)
  have nth: "((ys @ [y]) @ x # post) ! Suc (length ys) = x" "((ys @ [y]) @ x # post) ! length ys = y"
    by (simp_all add: nth_append)
  show ?case
  proof (cases "sp_uid x < sp_uid y")
    case True
    have swap: "((ys @ [y]) @ x # post)[Suc (length ys) := y, length ys := x] = ys @ x # (y # post)"
      by (simp add: list_update_append)
    from snoc obtain zs where zs: "sinkLeft (ys @ x # (y # post)) (length ys) = zs @ y # post"
      "mset zs = mset (x # ys)" "length zs = Suc (length ys)" "sorted (map sp_uid zs)"
      by (auto simp: sorted_append)
    have "\<forall>z \<in> set zs. sp_uid z \<le> sp_uid y"
      using mset_eq_setD [OF zs(2)] snoc(2) True by (auto simp: sorted_append)
    then have "sorted (map sp_uid (zs @ [y]))" using zs(4) by (auto simp: sorted_append)
    moreover have "sinkLeft ((ys @ [y]) @ x # post) (length (ys @ [y])) = (zs @ [y]) @ post"
      using True zs(1) swap nth by simp
    ultimately show ?thesis using zs(2,3) by (intro exI [of _ "zs @ [y]"]) simp
  next
    case False
    have "sinkLeft ((ys @ [y]) @ x # post) (length (ys @ [y])) = (ys @ [y] @ [x]) @ post"
      using False nth by simp
    moreover have "sorted (map sp_uid (ys @ [y] @ [x]))" using False snoc(2) by (auto simp: sorted_append)
    ultimately show ?thesis by (intro exI [of _ "ys @ [y] @ [x]"]) simp
  qed
qed simp

lemma insertionSort_prefix:
  assumes "k \<le> length xs"
  shows "\<exists>zs. foldl (\<lambda>ys i. sinkLeft ys i) xs [1..<k] = zs @ drop (length zs) xs \<and> length zs = max 1 k \<and> xs \<noteq> []
    \<and> mset zs = mset (take (max 1 k) xs) \<and> sorted (map sp_uid zs) \<or> xs = []"
  using assms
proof (induction k)
  case 0
  then show ?case by (cases xs) (auto intro!: exI [of _ "[hd xs]"])
next
  case (Suc k)
  show ?case
  proof (cases "k = 0 \<or> xs = []")
    case True
    then show ?thesis using Suc.prems by (cases xs) (auto intro!: exI [of _ "[hd xs]"])
  next
    case False
    then obtain zs where zs: "foldl (\<lambda>ys i. sinkLeft ys i) xs [1..<k] = zs @ drop k xs" "length zs = k"
      "mset zs = mset (take k xs)" "sorted (map sp_uid zs)"
      using Suc by (auto simp: max_def)
    have d: "drop k xs = xs ! k # drop (Suc k) xs" using Suc.prems by (simp add: Cons_nth_drop_Suc)
    from sinkLeft_spec [OF zs(4), of "xs ! k" "drop (Suc k) xs"] obtain ws where
      ws: "sinkLeft (zs @ xs ! k # drop (Suc k) xs) k = ws @ drop (Suc k) xs" "mset ws = mset (xs ! k # zs)"
        "length ws = Suc k" "sorted (map sp_uid ws)"
      using zs(2) by auto
    have "[1..<Suc k] = [1..<k] @ [k]" using False by simp
    then have "foldl (\<lambda>ys i. sinkLeft ys i) xs [1..<Suc k] = ws @ drop (Suc k) xs"
      using zs(1) d ws(1) by (simp del: upt_Suc)
    moreover have "mset ws = mset (take (Suc k) xs)"
      using ws(2) zs(3) Suc.prems by (simp add: take_Suc_conv_app_nth)
    ultimately show ?thesis using ws(3,4) False by (intro disjI1 exI [of _ ws]) (simp del: upt_Suc)
  qed
qed

lemma insertionSort_sorts: "mset (insertionSort xs) = mset xs" "sorted (map sp_uid (insertionSort xs))"
proof -
  have "mset (insertionSort xs) = mset xs \<and> sorted (map sp_uid (insertionSort xs))"
    using insertionSort_prefix [of "length xs" xs]
    by (cases "xs = []") (auto simp: insertionSort_def max_def split: if_splits)
  then show "mset (insertionSort xs) = mset xs" "sorted (map sp_uid (insertionSort xs))" by auto
qed

lemma collectPlan_Inr:
  "collectPlan policy seen result ps = Inr r \<longleftrightarrow>
     (\<forall>p \<in> set ps. 0 \<le> ai_UID p) \<and> distinct (map ai_UID ps) \<and> set seen \<inter> ai_UID ` set ps = {}
     \<and> r = result @ map (planSliceIO policy) ps"
  by (induction policy seen result ps rule: collectPlan.induct) auto

lemma planSliceIO_uid [simp]: "sp_uid (planSliceIO policy p) = ai_UID p"
  by (auto simp: planSliceIO_def Let_def split: option.splits)

lemma Plan_Inr:
  "Plan policy active = Inr plan \<longleftrightarrow>
     (\<forall>p \<in> set active. 0 \<le> ai_UID p) \<and> distinct (map ai_UID active)
     \<and> plan = map (planSliceIO policy) (sort_key ai_UID active)"
proof -
  have sort: "insertionSort (map (planSliceIO policy) active) = map (planSliceIO policy) (sort_key ai_UID active)"
    if d: "distinct (map ai_UID active)"
  proof (rule map_sorted_distinct_set_unique [of sp_uid])
    let ?xs = "map (planSliceIO policy) active"
    have uids: "map sp_uid ?xs = map ai_UID active" by simp
    have "mset (map sp_uid (insertionSort ?xs)) = mset (map ai_UID active)"
      using arg_cong [OF insertionSort_sorts(1) [of ?xs], of "image_mset sp_uid"] uids by (metis mset_map)
    then show dist: "distinct (map sp_uid (insertionSort ?xs))" using d mset_eq_imp_distinct_iff by blast
    show "distinct (map sp_uid (map (planSliceIO policy) (sort_key ai_UID active)))"
      using d by (simp add: comp_def distinct_map)
    show set: "set (insertionSort ?xs) = set (map (planSliceIO policy) (sort_key ai_UID active))"
      using mset_eq_setD [OF insertionSort_sorts(1) [of ?xs]] by simp
    show "inj_on sp_uid (set (insertionSort ?xs) \<union> set (map (planSliceIO policy) (sort_key ai_UID active)))"
      using dist unfolding set [symmetric] by (simp add: distinct_map)
    show "sorted (map sp_uid (insertionSort ?xs))" by (rule insertionSort_sorts(2))
    show "sorted (map sp_uid (map (planSliceIO policy) (sort_key ai_UID active)))" by (simp add: comp_def)
  qed
  have "Plan policy active = Inr plan \<longleftrightarrow>
      (\<exists>r. collectPlan policy [] [] active = Inr r \<and> plan = insertionSort r)"
    by (auto simp: Plan_def split: sum.splits)
  then show ?thesis using sort by (auto simp: collectPlan_Inr)
qed

section \<open>Lemmas on the map and its loader\<close>

definition wf_snapshot_io :: "policy_snapshot_io \<Rightarrow> bool" where
  "wf_snapshot_io s \<longleftrightarrow>
     wf_io_weight (si_root s) \<and> wf_io_weight (si_default s)
     \<and> list_all (\<lambda>e. wf_io_weight (uw_weight e) \<and> 0 < uw_uid e) (si_entries s)
     \<and> distinct (map uw_uid (si_entries s)) \<and> distinct (map uw_username (si_entries s))
     \<and> map_of (si_byUID s) = map_of (map (\<lambda>e. (uw_uid e, e)) (si_entries s))"

lemma NewWeight_Inr: "NewWeight v = Inr w \<longleftrightarrow> 1 \<le> unat v \<and> unat v \<le> 1000 \<and> w = Weight (u16_of_u64 v)"
  by (auto simp: NewWeight_def word_less_nat_alt)

lemma NewWeight_wf: "NewWeight v = Inr w \<Longrightarrow> wf_io_weight w"
  by (auto simp: NewWeight_Inr wf_io_weight_def unat_simps)

lemma parseAssignmentIO_Inr:
  "parseAssignmentIO seen n k line = Inr e \<Longrightarrow>
     wf_io_weight (ri_weight e) \<and> map_of seen (ri_username e) = None"
  by (auto simp: parseAssignmentIO_def dest: NewWeight_wf split: if_splits option.splits sum.splits prod.splits)

lemma parsePolicyLinesIO_ok:
  assumes "parsePolicyLinesIO k seen es lines = Inr es'" "list_all (\<lambda>e. wf_io_weight (ri_weight e)) es"
    and "distinct (map ri_username es)" "\<forall>u. map_of seen u = None \<longleftrightarrow> u \<notin> ri_username ` set es"
  shows "list_all (\<lambda>e. wf_io_weight (ri_weight e)) es' \<and> distinct (map ri_username es')"
  using assms
proof (induction k seen es lines rule: parsePolicyLinesIO.induct)
  case (2 k seen es line lines)
  show ?case
  proof (cases "line = [] \<or> hasPrefix line ''#''")
    case True
    with 2 show ?thesis by simp
  next
    case False
    with 2(3) obtain e where e: "parseAssignmentIO seen (length es) k line = Inr e" by (auto split: sum.splits)
    from parseAssignmentIO_Inr [OF e] 2(2) [OF False e] 2(3-6) False e show ?thesis by auto
  qed
qed simp

lemma resolveEntriesIO_Inr:
  assumes "resolveEntriesIO resolver gs byUID raws = Inr (gs', byUID')"
    and "map_of byUID = map_of (map (\<lambda>g. (uw_uid g, g)) gs)" "distinct (map uw_uid gs)"
  shows "\<exists>hs. gs' = gs @ hs \<and> map uw_username hs = map ri_username raws
    \<and> map uw_weight hs = map ri_weight raws \<and> (\<forall>h \<in> set hs. 0 < uw_uid h)
    \<and> distinct (map uw_uid gs') \<and> map_of byUID' = map_of (map (\<lambda>g. (uw_uid g, g)) gs')"
  using assms
proof (induction resolver gs byUID raws rule: resolveEntriesIO.induct)
  case (2 resolver gs byUID raw raws)
  from 2(2) obtain g where g: "resolveEntryIO resolver byUID raw = Inr g" by (auto split: sum.splits)
  then have ok: "uw_username g = ri_username raw" "uw_weight g = ri_weight raw" "0 < uw_uid g"
      "map_of byUID (uw_uid g) = None"
    by (auto simp: resolveEntryIO_def split: sum.splits if_splits option.splits)
  have new: "uw_uid g \<notin> uw_uid ` set gs" using ok 2(3) by (simp add: map_of_keyed_None)
  have map: "map_of (AList.update (uw_uid g) g byUID) = map_of (map (\<lambda>g. (uw_uid g, g)) (gs @ [g]))"
    using 2(3) map_of_keyed_snoc [where f = "\<lambda>g. g", OF new] by (simp only: map_of_update)
  from 2(1) [OF g _ map] 2(2,4) g new obtain hs where
    "gs' = (gs @ [g]) @ hs" "map uw_username hs = map ri_username raws"
    "map uw_weight hs = map ri_weight raws" "\<forall>h \<in> set hs. 0 < uw_uid h" "distinct (map uw_uid gs')"
    "map_of byUID' = map_of (map (\<lambda>g. (uw_uid g, g)) gs')"
    by auto
  with ok show ?case by (intro exI [of _ "g # hs"]) auto
qed simp

lemma loadContentIO_wf:
  assumes "loadContentIO inputs data source resolver = Inr s"
  shows "wf_snapshot_io s \<and> si_source s = source"
proof -
  from assms obtain rw dw raws entries byUID where r: "NewWeight (Weight_Value (ii_Root inputs)) = Inr rw"
    "NewWeight (Weight_Value (ii_Default inputs)) = Inr dw" and p: "parsePolicyMapIO data = Inr raws"
    and e: "resolveEntriesIO resolver [] [] raws = Inr (entries, byUID)"
    and s: "s = \<lparr>si_root = rw, si_default = dw, si_entries = entries, si_byUID = byUID, si_source = source\<rparr>"
    by (auto simp: loadContentIO_def split: sum.splits)
  from p have "parsePolicyLinesIO 2 [] [] (tl (splitOn LF (crlfToLf data))) = Inr raws"
    by (auto simp: parsePolicyMapIO_def Let_def split: if_splits)
  from parsePolicyLinesIO_ok [OF this] have raws: "list_all (\<lambda>e. wf_io_weight (ri_weight e)) raws"
    "distinct (map ri_username raws)" by auto
  from resolveEntriesIO_Inr [OF e] have ents: "map uw_username entries = map ri_username raws"
    "map uw_weight entries = map ri_weight raws" "\<forall>h \<in> set entries. 0 < uw_uid h"
    "distinct (map uw_uid entries)" "map_of byUID = map_of (map (\<lambda>g. (uw_uid g, g)) entries)" by auto
  have "list_all wf_io_weight (map uw_weight entries)" using raws(1) by (simp add: ents(2) list_all_iff)
  then have "\<forall>e \<in> set entries. wf_io_weight (uw_weight e)" by (simp only: list_all_iff set_map ball_simps)
  then show ?thesis using r ents(1,3-5) raws(2) s
    by (auto simp: wf_snapshot_io_def list_all_iff dest: NewWeight_wf)
qed

text \<open>The weighted-I/O loader implements the same contract of a guarded read.\<close>

lemma validateAncestorIO_trusted: "validateAncestorIO euid current r = Inr () \<longleftrightarrow> trustedDir euid r"
  by (auto simp: validateAncestorIO_def trustedDir_def trustedOwner_def policyFileOwnerUIDIO_def
    unsigned_eq_0_iff split: sum.splits option.splits)

lemma validateAncestorsIO_trusted:
  "validateAncestorsIO euid lstat path = Inr u \<longleftrightarrow> (\<forall>d \<in> set (dirsUpFrom (dirOf path)). trustedDir euid (lstat d))"
proof -
  have "validateAncestorsFromIO euid lstat d = Inr () \<longleftrightarrow> (\<forall>d' \<in> set (dirsUpFrom d). trustedDir euid (lstat d'))" for d
  proof (induction d rule: dirsUpFrom.induct)
    case (1 d)
    show ?case using 1 validateAncestorIO_trusted [of euid d "lstat d"]
      by (subst validateAncestorsFromIO.simps, subst dirsUpFrom.simps) (auto split: sum.splits)
  qed
  then show ?thesis by (simp add: validateAncestorsIO_def)
qed

lemma validateOpenedFileIO_private: "validateOpenedFileIO euid info = Inr () \<longleftrightarrow> privateFile euid info"
  by (auto simp: validateOpenedFileIO_def privateFile_def trustedOwner_def policyFileOwnerUIDIO_def split: option.splits)

lemma readSafePolicyFileIO_Inr:
  assumes "readSafePolicyFileIO sha256 env path = Inr (data, source)"
  shows "safe_read MaximumPolicyMapBytesIO env (path_of_io path) data (pi_dev source) (pi_inode source) (pi_size source)
    \<and> pi_path source = path \<and> pi_digest source = sha256 data"
proof -
  from assms obtain info content after where first: "validateAncestorsIO (ev_euid env) (ev_lstat1 env) (path_of_io path) = Inr ()"
      "ev_open env = None" "ev_stat1 env = Inr info" "validateOpenedFileIO (ev_euid env) info = Inr ()"
      "ev_content env = Inr content" "ev_stat2 env = Inr after" "ev_close env = None"
    by (auto simp: readSafePolicyFileIO_def errorOf_def split: sum.splits option.splits)
  with assms obtain pathInfo s where second:
      "validateAncestorsIO (ev_euid env) (ev_lstat2 env) (path_of_io path) = Inr ()"
      "ev_lstat2 env (path_of_io path) = Inr pathInfo" "\<not> Mode_IsSymlink (fi_Mode pathInfo)" "sameFile after pathInfo"
      "fi_Stat after = Some s" "fi_Size info = fi_Size after" "fi_ModTime info = fi_ModTime after"
    and data: "data = take (Suc MaximumPolicyMapBytesIO) content" "length data \<le> MaximumPolicyMapBytesIO"
      "int (length data) = fi_Size after"
    and source: "source = \<lparr>pi_path = path, pi_dev = st_Dev s, pi_inode = st_Ino s, pi_size = fi_Size after,
      pi_digest = sha256 data\<rparr>"
    by (auto simp: readSafePolicyFileIO_def errorOf_def Let_def split: sum.splits option.splits if_splits)
  have "data = content" using data(1,2) by (cases "length content \<le> MaximumPolicyMapBytesIO") auto
  then show ?thesis using first second data(2,3) source
    by (simp add: safe_read_def validateAncestorsIO_trusted validateOpenedFileIO_private)
qed

lemma readSafePolicyFileIO_accepts:
  assumes "safe_read MaximumPolicyMapBytesIO env (path_of_io path) data dev ino sz"
  shows "readSafePolicyFileIO sha256 env path
    = Inr (data, \<lparr>pi_path = path, pi_dev = dev, pi_inode = ino, pi_size = sz, pi_digest = sha256 data\<rparr>)"
proof -
  from assms obtain info after named s where e: "ev_stat1 env = Inr info" "ev_stat2 env = Inr after"
      "ev_lstat2 env (path_of_io path) = Inr named" "privateFile (ev_euid env) info" "fi_Size info = sz" "fi_Size after = sz"
      "fi_ModTime info = fi_ModTime after" "\<not> Mode_IsSymlink (fi_Mode named)" "sameFile after named"
      "fi_Stat after = Some s" "dev = st_Dev s" "ino = st_Ino s"
    unfolding safe_read_def by blast
  from assms have f: "validateAncestorsIO (ev_euid env) (ev_lstat1 env) (path_of_io path) = Inr ()"
    "validateAncestorsIO (ev_euid env) (ev_lstat2 env) (path_of_io path) = Inr ()" "ev_open env = None"
    "ev_close env = None" "ev_content env = Inr data" "length data \<le> MaximumPolicyMapBytesIO" "sz = int (length data)"
    by (auto simp: safe_read_def validateAncestorsIO_trusted)
  have "validateOpenedFileIO (ev_euid env) info = Inr ()" using e(4) validateOpenedFileIO_private by blast
  with e f show ?thesis by (simp add: readSafePolicyFileIO_def errorOf_def)
qed

interpretation io_file: guarded_source MaximumPolicyMapBytesIO
    "\<lambda>sha env path. readSafePolicyFileIO sha env (PolicyMapPathIO path)" ConfirmSourceIO
    "\<lambda>src. path_of_io (pi_path src)" pi_dev pi_inode pi_size pi_digest
proof unfold_locales
  show "ConfirmSourceIO sha env src = Inr u \<Longrightarrow>
      \<exists>data src'. readSafePolicyFileIO sha env (PolicyMapPathIO (path_of_io (pi_path src))) = Inr (data, src')
        \<and> pi_dev src' = pi_dev src \<and> pi_inode src' = pi_inode src \<and> pi_size src' = pi_size src
        \<and> pi_digest src' = pi_digest src" for sha env src u
    by (auto simp: ConfirmSourceIO_def split: sum.splits if_splits)
qed (auto dest!: readSafePolicyFileIO_Inr)

section \<open>The device selector\<close>

text \<open>The devices of an accepted selector as pairs of numbers.\<close>

definition devicePair :: "string \<Rightarrow> (nat \<times> nat) option" where
  "devicePair part =
     (case splitOn (CHR '':'') part of
        [a, b] \<Rightarrow> (case (deviceComponent a, deviceComponent b) of (Some m, Some n) \<Rightarrow> Some (m, n) | _ \<Rightarrow> None)
      | _ \<Rightarrow> None)"

lemma validateDevices_Inr:
  assumes "validateDevices mkdev major minor seen parts = Inr u"
  shows "\<exists>ds. map devicePair parts = map Some ds \<and> distinct ds \<and> (0, 0) \<notin> set ds
    \<and> (\<forall>(a, b) \<in> set ds. mkdev (of_nat a) (of_nat b) \<notin> set seen
         \<and> unat (major (mkdev (of_nat a) (of_nat b))) = a \<and> unat (minor (mkdev (of_nat a) (of_nat b))) = b)"
  using assms
proof (induction parts arbitrary: seen)
  case (Cons part parts)
  from Cons.prems obtain ta tb a b where t: "splitOn (CHR '':'') part = [ta, tb]" "deviceComponent ta = Some a"
    "deviceComponent tb = Some b" and d: "\<not> (a = 0 \<and> b = 0)" "unat (major (mkdev (of_nat a) (of_nat b))) = a"
    "unat (minor (mkdev (of_nat a) (of_nat b))) = b" "mkdev (of_nat a) (of_nat b) \<notin> set seen"
    and rest: "validateDevices mkdev major minor (mkdev (of_nat a) (of_nat b) # seen) parts = Inr u"
    by (auto simp: Let_def split: if_splits list.splits option.splits)
  from Cons.IH [OF rest] obtain ds where ds: "map devicePair parts = map Some ds" "distinct ds" "(0, 0) \<notin> set ds"
    "\<forall>(x, y) \<in> set ds. mkdev (of_nat x) (of_nat y) \<notin> set (mkdev (of_nat a) (of_nat b) # seen)
       \<and> unat (major (mkdev (of_nat x) (of_nat y))) = x \<and> unat (minor (mkdev (of_nat x) (of_nat y))) = y"
    by blast
  have "devicePair part = Some (a, b)" using t by (simp add: devicePair_def)
  with ds d show ?case by (intro exI [of _ "(a, b) # ds"]) auto
qed simp

section \<open>Properties\<close>

text \<open>
  Property C18: the weighted-I/O plan exists exactly when every active UID is non-negative and occurs
  once, and then it is the plan of each slice in ascending UID order: the in-place insertion sort
  computes the sorted list.
\<close>

theorem io_plan_exact:
  "Plan policy active = Inr plan \<longleftrightarrow>
     (\<forall>p \<in> set active. 0 \<le> ai_UID p) \<and> distinct (map ai_UID active)
     \<and> plan = map (planSliceIO policy) (sort_key ai_UID active)"
  by (rule Plan_Inr)

text \<open>
  Every weighted-I/O snapshot that loading returns is well formed: weights between 1 and
  1000, usernames and positive UIDs that occur once, and a lookup by UID that agrees with the entries.
\<close>

theorem loaded_io_policy_wf:
  assumes "LoadIO sha256 env inputs resolver = Inr s"
  shows "wf_snapshot_io s \<and> (\<exists>data. safe_read MaximumPolicyMapBytesIO env (path_of_io (pi_path (si_source s))) data
    (pi_dev (si_source s)) (pi_inode (si_source s)) (pi_size (si_source s)) \<and> pi_digest (si_source s) = sha256 data)"
proof -
  from assms obtain path data source where r: "readSafePolicyFileIO sha256 env path = Inr (data, source)"
    and l: "loadContentIO inputs data source resolver = Inr s"
    by (auto simp: LoadIO_def split: sum.splits)
  from io_file.read_safe [of sha256 env "path_of_io path" data source] r loadContentIO_wf [OF l]
  show ?thesis by auto
qed

text \<open>A map with one entry, for the witnesses.\<close>

definition sampleMapIO :: string where
  "sampleMapIO = joinWith LF [PolicyMapMarkerIO, ''alice=200'']"

definition sampleInputsIO :: policy_inputs_io where
  "sampleInputsIO = \<lparr>ii_Root = Weight 100, ii_Default = Weight 50, ii_MapPath = PolicyMapPathIO ''/etc/resman/points''\<rparr>"

definition sampleSnapshotIO :: policy_snapshot_io where
  "sampleSnapshotIO =
     (let alice = \<lparr>uw_username = ''alice'', uw_uid = 1000, uw_weight = Weight 200, uw_line = 2\<rparr> in
      \<lparr>si_root = Weight 100, si_default = Weight 50, si_entries = [alice], si_byUID = [(1000, alice)],
       si_source = \<lparr>pi_path = PolicyMapPathIO ''/etc/resman/points'', pi_dev = 8, pi_inode = 42,
         pi_size = int (length sampleMapIO), pi_digest = []\<rparr>\<rparr>)"

lemma sample_parse_io:
  "parsePolicyMapIO sampleMapIO = Inr [\<lparr>ri_username = ''alice'', ri_weight = Weight 200, ri_line = 2\<rparr>]"
proof -
  have ascii: "list_all (\<lambda>c. byte_of c < 128) sampleMapIO"
    by (simp add: sampleMapIO_def PolicyMapMarkerIO_def) (simp add: byte_of_def LF_def)
  have lf: "LF \<notin> set PolicyMapMarkerIO" "LF \<notin> set ''alice=200''" "CR \<notin> set PolicyMapMarkerIO"
    "CR \<notin> set ''alice=200''" "CR \<noteq> LF"
    by (simp_all add: PolicyMapMarkerIO_def LF_def CR_def char_of_def)
  have lines: "splitOn LF sampleMapIO = [PolicyMapMarkerIO, ''alice=200'']"
    unfolding sampleMapIO_def by (rule split_joinWith) (use lf in auto)
  have cr: "CR \<notin> set sampleMapIO" using lf by (simp add: sampleMapIO_def)
  then have crlf: "crlfToLf sampleMapIO = sampleMapIO" using crlfToLf_no_cr no_cr_CR by blast
  have pad: "\<not> isPadded ''alice=200''" by (rule isPadded_graphic) (simp add: graphic_def byte_of_def)
  have num: "parseUint 16 ''200'' = Some 200" "formatUint 200 = ''200''"
    by (simp_all add: parseUint_def is_digit_def decValue_def digit_val_def byte_of_def formatUint.simps
      digit_char_def char_of_def bit_0)
  have w: "NewWeight 200 = Inr (Weight 200)" by (simp add: NewWeight_def u16_of_u64_def)
  have "parseAssignmentIO [] 0 2 ''alice=200'' = Inr \<lparr>ri_username = ''alice'', ri_weight = Weight 200, ri_line = 2\<rparr>"
    by (simp add: parseAssignmentIO_def pad num w MaximumPolicyMapEntriesIO_def byte_of_def)
  moreover have "length sampleMapIO \<le> MaximumPolicyMapBytesIO"
    by (simp add: sampleMapIO_def PolicyMapMarkerIO_def MaximumPolicyMapBytesIO_def)
  ultimately show ?thesis unfolding parsePolicyMapIO_def Let_def crlf lines
    using ascii_no_bom [OF ascii] utf8Valid_ascii [OF ascii] cr by simp
qed

lemma sample_load_io: "LoadIO (\<lambda>_. []) (sampleFileEnv sampleMapIO) sampleInputsIO sampleNSS = Inr sampleSnapshotIO"
proof -
  have "safe_read MaximumPolicyMapBytesIO (sampleFileEnv sampleMapIO) (path_of_io (PolicyMapPathIO ''/etc/resman/points''))
      sampleMapIO 8 42 (int (length sampleMapIO))"
    using sampleFileEnv_safe [of sampleMapIO MaximumPolicyMapBytesIO]
    by (simp add: sampleMapIO_def PolicyMapMarkerIO_def MaximumPolicyMapBytesIO_def)
  note r = readSafePolicyFileIO_accepts [OF this, of "\<lambda>_. []"]
  have w: "NewWeight (Weight_Value (Weight 100)) = Inr (Weight 100)" "NewWeight (Weight_Value (Weight 50)) = Inr (Weight 50)"
    by (simp_all add: NewWeight_def Weight_Value_def u16_of_u64_def u64_of_u16_def)
  have p: "NewPolicyMapPathIO ''/etc/resman/points'' = Inr (PolicyMapPathIO ''/etc/resman/points'')"
    by (simp add: NewPolicyMapPathIO_def isAbsPath_def isCleanAbsPath_def)
  show ?thesis
    by (simp add: LoadIO_def sampleInputsIO_def p r loadContentIO_def w sample_parse_io resolveEntryIO_def sampleNSS_def
      sampleSnapshotIO_def Let_def)
qed

theorem loaded_io_policy_wf_witness: "wf_snapshot_io sampleSnapshotIO"
  using loaded_io_policy_wf [OF sample_load_io] by simp

text \<open>
  Snapshots that \<^verbatim>\<open>Equal\<close> reports as the same policy plan every set of active slices
  the same way, although their sources may differ.
\<close>

theorem io_equal_same_plan:
  assumes "wf_snapshot_io s" "wf_snapshot_io other" "Equal s other"
  shows "Plan s active = Plan other active"
proof -
  have pairs: "list_all2 (\<lambda>l r. uw_username l = uw_username r \<and> uw_uid l = uw_uid r \<and> uw_weight l = uw_weight r)
      (si_entries s) (si_entries other)" and wts: "si_root s = si_root other" "si_default s = si_default other"
    using assms(3) by (auto simp: Equal_def)
  have look: "map_option uw_weight (map_of (map (\<lambda>e. (uw_uid e, e)) es) u)
      = map_option uw_weight (map_of (map (\<lambda>e. (uw_uid e, e)) fs) u)"
    if "list_all2 (\<lambda>l r. uw_username l = uw_username r \<and> uw_uid l = uw_uid r \<and> uw_weight l = uw_weight r) es fs" for es fs u
    using that by (induction rule: list_all2_induct) auto
  have "map_option uw_weight (map_of (si_byUID s) u) = map_option uw_weight (map_of (si_byUID other) u)" for u
    using look [OF pairs] assms(1,2) by (simp add: wf_snapshot_io_def)
  then have "planSliceIO s p = planSliceIO other p" for p
    using wts by (auto simp: planSliceIO_def Let_def split: option.splits)
      (metis option.map_disc_iff option.distinct(1) option.sel option.map_sel)+
  then have "collectPlan s seen r ps = collectPlan other seen r ps" for seen r ps
    by (induction ps arbitrary: seen r) auto
  then show ?thesis by (simp add: Plan_def)
qed

theorem io_plan_exact_witness:
  "Plan sampleSnapshotIO [\<lparr>ai_UID = 1000, ai_Eligible = True\<rparr>, \<lparr>ai_UID = 0, ai_Eligible = False\<rparr>] =
   Inr [\<lparr>sp_uid = 0, sp_class = SliceClassRoot, sp_weight = Weight 100\<rparr>,
        \<lparr>sp_uid = 1000, sp_class = SliceClassMapped, sp_weight = Weight 200\<rparr>]"
  unfolding io_plan_exact by (simp add: planSliceIO_def sampleSnapshotIO_def Let_def)

theorem io_equal_same_plan_witness:
  "\<forall>active. Plan sampleSnapshotIO active
   = Plan (sampleSnapshotIO\<lparr>si_source := (si_source sampleSnapshotIO)\<lparr>pi_inode := 43\<rparr>\<rparr>) active"
proof -
  have wf: "wf_snapshot_io sampleSnapshotIO"
    by (simp add: sampleSnapshotIO_def wf_snapshot_io_def wf_io_weight_def Let_def)
  have "wf_snapshot_io (sampleSnapshotIO\<lparr>si_source := (si_source sampleSnapshotIO)\<lparr>pi_inode := 43\<rparr>\<rparr>)"
    using wf by (simp add: wf_snapshot_io_def)
  from io_equal_same_plan [OF wf this] show ?thesis by (simp add: Equal_def list.rel_refl)
qed

text \<open>
  An accepted device selector is empty or a list of distinct canonical device numbers,
  none of them 0:0 and all of them representable in the kernel's encoding, whatever that encoding is.
\<close>

theorem device_selector_sound:
  assumes "ValidateDeviceSelector mkdev major minor selector = Inr ()" "selector \<noteq> []"
  shows "\<exists>ds. map devicePair (splitOn (CHR '','') selector) = map Some ds \<and> distinct ds \<and> (0, 0) \<notin> set ds
    \<and> (\<forall>(a, b) \<in> set ds. unat (major (mkdev (of_nat a) (of_nat b))) = a \<and> unat (minor (mkdev (of_nat a) (of_nat b))) = b)"
proof -
  have "validateDevices mkdev major minor [] (splitOn (CHR '','') selector) = Inr ()"
    using assms by (simp add: ValidateDeviceSelector_def)
  from validateDevices_Inr [OF this] show ?thesis by fast
qed

text \<open>An encoding of device numbers, for the witness: the major number in the upper half.\<close>

definition sampleMkdev :: "u32 \<Rightarrow> u32 \<Rightarrow> u64" where
  "sampleMkdev a b = push_bit 32 (ucast a) OR ucast b"

theorem device_selector_sound_witness:
  "ValidateDeviceSelector sampleMkdev (\<lambda>d. ucast (drop_bit 32 d)) ucast ''8:0,8:16'' = Inr ()
   \<and> (\<exists>ds. map devicePair [''8:0'', ''8:16''] = map Some ds \<and> distinct ds)"
proof -
  have pad: "\<not> isPadded ''8:0''" "\<not> isPadded ''8:16''"
    by (rule isPadded_graphic, simp add: graphic_def byte_of_def)+
  have num: "deviceComponent ''8'' = Some 8" "deviceComponent ''0'' = Some 0" "deviceComponent ''16'' = Some 16"
    by (simp_all add: deviceComponent_def parseUint_def is_digit_def decValue_def digit_val_def byte_of_def
      formatUint.simps digit_char_def char_of_def bit_0)
  have ok: "ValidateDeviceSelector sampleMkdev (\<lambda>d. ucast (drop_bit 32 d)) ucast ''8:0,8:16'' = Inr ()"
    by (simp add: ValidateDeviceSelector_def pad num sampleMkdev_def Let_def)
  have split: "splitOn (CHR '','') ''8:0,8:16'' = [''8:0'', ''8:16'']" by simp
  from device_selector_sound [OF ok] obtain ds where
    "map devicePair [''8:0'', ''8:16''] = map Some ds" "distinct ds"
    unfolding split by blast
  with ok show ?thesis by blast
qed

end
