(* ===== verification/Unit_Properties.thy ===== *)
theory Unit_Properties
  imports Resman_Prelude
begin

text \<open>
  The vocabulary of the systemd boundary: \<^verbatim>\<open>src/internal/systemdunit/types.go\<close>,
  \<^verbatim>\<open>src/internal/systemdunit/io_device_weight.go\<close>, the classification of \<^verbatim>\<open>errors.go\<close> and the
  validation functions at the end of \<^verbatim>\<open>adapter.go\<close>. A property name is a string, as in the code; the
  text of an error is not modelled, its reason, operation, unit and property are.
\<close>

section \<open>Errors\<close>

datatype error_reason =
    ReasonBusUnavailable | ReasonUnitMissing | ReasonAuthorizationDenied | ReasonUnitRecreated
  | ReasonTopologyChanged | ReasonMalformedReply | ReasonPropertyNotAllowed | ReasonInvalidValue
  | ReasonReadbackMismatch | ReasonRequiredCapability | ReasonCapabilityProbe | ReasonKernelVerification
  | ReasonUnitFileVerification | ReasonLeaseStore | ReasonExternalConflict | ReasonTimeout | ReasonClosed
  | ReasonRealtimeAdmissionProtected

type_synonym property_name = string

record device_limit =
  dl_Path :: string
  dl_Value :: u64

text \<open>\<^verbatim>\<open>propertyValue\<close> has a scalar and a device list, of which the property's kind selects one.\<close>

record property_value =
  pv_scalar :: u64
  pv_devices :: "device_limit list"

record property_conflict =
  pc_Property :: property_name
  pc_LastApplied :: property_value
  pc_Current :: property_value

text \<open>\<^verbatim>\<open>AdapterError\<close>, \<^verbatim>\<open>RestoreConflictError\<close>, a plain error and \<^verbatim>\<open>errors.Join\<close>.\<close>

datatype adapter_error =
    AdapterError error_reason string string property_name
  | RestoreConflictError string "property_conflict list"
  | PlainError string
  | JoinedError "adapter_error list"

fun errorReason :: "adapter_error \<Rightarrow> error_reason option" where
  "errorReason (AdapterError r _ _ _) = Some r"
| "errorReason _ = None"

definition RetryableReconciliation :: "adapter_error \<Rightarrow> bool" where
  "RetryableReconciliation e \<longleftrightarrow>
     errorReason e \<in> {Some ReasonUnitMissing, Some ReasonUnitRecreated, Some ReasonTopologyChanged}"

text \<open>What a D-Bus call can fail with: the deadline, a D-Bus error with its name, anything else.\<close>

datatype transport_error = DeadlineExceeded | DBusError string | TransportFailure

definition classifyDBusErrorName :: "string \<Rightarrow> string \<Rightarrow> string \<Rightarrow> adapter_error" where
  "classifyDBusErrorName operation unit name =
     (if name \<in> {''org.freedesktop.systemd1.NoSuchUnit'', ''org.freedesktop.DBus.Error.UnknownObject'',
                 ''org.freedesktop.DBus.Error.NoSuchObject''}
      then AdapterError ReasonUnitMissing operation unit []
      else if name \<in> {''org.freedesktop.DBus.Error.AccessDenied'', ''org.freedesktop.DBus.Error.AuthFailed'',
                      ''org.freedesktop.DBus.Error.InteractiveAuthorizationRequired'',
                      ''org.freedesktop.PolicyKit1.Error.Failed''}
      then AdapterError ReasonAuthorizationDenied operation unit []
      else AdapterError ReasonBusUnavailable operation unit [])"

fun classifyTransportError :: "string \<Rightarrow> string \<Rightarrow> transport_error \<Rightarrow> adapter_error" where
  "classifyTransportError operation unit DeadlineExceeded = AdapterError ReasonTimeout operation unit []"
| "classifyTransportError operation unit (DBusError name) = classifyDBusErrorName operation unit name"
| "classifyTransportError operation unit TransportFailure = AdapterError ReasonBusUnavailable operation unit []"

definition malformedReply :: "string \<Rightarrow> string \<Rightarrow> adapter_error" where
  "malformedReply operation unit = AdapterError ReasonMalformedReply operation unit []"

definition externalConflictFor :: "string \<Rightarrow> string \<Rightarrow> property_name \<Rightarrow> adapter_error" where
  "externalConflictFor operation unit property = AdapterError ReasonExternalConflict operation unit property"

definition externalRecoveryConflict :: "string \<Rightarrow> adapter_error" where
  "externalRecoveryConflict unit = AdapterError ReasonExternalConflict ''recover'' unit []"

definition leaseStoreError :: "string \<Rightarrow> adapter_error" where
  "leaseStoreError operation = AdapterError ReasonLeaseStore operation [] []"

definition conflictError :: "string \<Rightarrow> property_conflict list \<Rightarrow> adapter_error option" where
  "conflictError unit conflicts = (if conflicts = [] then None else Some (RestoreConflictError unit conflicts))"

section \<open>Property names and values\<close>

definition SystemdUnset :: u64 where "SystemdUnset = - 1"

definition PropertyCPUWeight :: property_name where "PropertyCPUWeight = ''CPUWeight''"
definition PropertyCPUQuotaPerSecUSec :: property_name where "PropertyCPUQuotaPerSecUSec = ''CPUQuotaPerSecUSec''"
definition PropertyCPUQuotaPeriodUSec :: property_name where "PropertyCPUQuotaPeriodUSec = ''CPUQuotaPeriodUSec''"
definition PropertyMemoryHigh :: property_name where "PropertyMemoryHigh = ''MemoryHigh''"
definition PropertyMemoryMax :: property_name where "PropertyMemoryMax = ''MemoryMax''"
definition PropertyMemorySwapMax :: property_name where "PropertyMemorySwapMax = ''MemorySwapMax''"
definition PropertyIOWeight :: property_name where "PropertyIOWeight = ''IOWeight''"
definition PropertyIODeviceWeight :: property_name where "PropertyIODeviceWeight = ''IODeviceWeight''"
definition PropertyIOReadBandwidthMax :: property_name where "PropertyIOReadBandwidthMax = ''IOReadBandwidthMax''"
definition PropertyIOWriteBandwidthMax :: property_name where "PropertyIOWriteBandwidthMax = ''IOWriteBandwidthMax''"
definition PropertyIOReadIOPSMax :: property_name where "PropertyIOReadIOPSMax = ''IOReadIOPSMax''"
definition PropertyIOWriteIOPSMax :: property_name where "PropertyIOWriteIOPSMax = ''IOWriteIOPSMax''"

lemmas property_names =
  PropertyCPUWeight_def PropertyCPUQuotaPerSecUSec_def PropertyCPUQuotaPeriodUSec_def PropertyMemoryHigh_def
  PropertyMemoryMax_def PropertyMemorySwapMax_def PropertyIOWeight_def PropertyIODeviceWeight_def
  PropertyIOReadBandwidthMax_def PropertyIOWriteBandwidthMax_def PropertyIOReadIOPSMax_def PropertyIOWriteIOPSMax_def

definition approvedScalarProperties :: "property_name list" where
  "approvedScalarProperties =
     [PropertyCPUWeight, PropertyCPUQuotaPerSecUSec, PropertyCPUQuotaPeriodUSec, PropertyMemoryHigh,
      PropertyMemoryMax, PropertyMemorySwapMax, PropertyIOWeight]"

definition approvedDeviceProperties :: "property_name list" where
  "approvedDeviceProperties =
     [PropertyIODeviceWeight, PropertyIOReadBandwidthMax, PropertyIOWriteBandwidthMax, PropertyIOReadIOPSMax,
      PropertyIOWriteIOPSMax]"

definition isDeviceProperty :: "property_name \<Rightarrow> bool" where
  "isDeviceProperty name \<longleftrightarrow> name \<in> set approvedDeviceProperties"

definition isApprovedProperty :: "property_name \<Rightarrow> bool" where
  "isApprovedProperty name \<longleftrightarrow> name \<in> set approvedScalarProperties \<or> name \<in> set approvedDeviceProperties"

datatype resource_kind = ResourceMemory | ResourceIO | ResourceIOWeight

definition PropertyName_Resource :: "property_name \<Rightarrow> resource_kind option" where
  "PropertyName_Resource n =
     (if n \<in> {PropertyMemoryHigh, PropertyMemoryMax, PropertyMemorySwapMax} then Some ResourceMemory
      else if n \<in> {PropertyIOWeight, PropertyIOReadBandwidthMax, PropertyIOWriteBandwidthMax,
                   PropertyIOReadIOPSMax, PropertyIOWriteIOPSMax} then Some ResourceIO
      else if n = PropertyIODeviceWeight then Some ResourceIOWeight
      else None)"

definition PropertyName_IsCPU :: "property_name \<Rightarrow> bool" where
  "PropertyName_IsCPU n \<longleftrightarrow> n \<in> {PropertyCPUWeight, PropertyCPUQuotaPerSecUSec, PropertyCPUQuotaPeriodUSec}"

definition scalarPropertyValue :: "u64 \<Rightarrow> property_value" where
  "scalarPropertyValue v = \<lparr> pv_scalar = v, pv_devices = [] \<rparr>"

definition devicePropertyValue :: "device_limit list \<Rightarrow> property_value" where
  "devicePropertyValue vs = \<lparr> pv_scalar = 0, pv_devices = vs \<rparr>"

definition propertyValuesEqual :: "property_name \<Rightarrow> property_value \<Rightarrow> property_value \<Rightarrow> bool" where
  "propertyValuesEqual name left right =
     (if isDeviceProperty name then pv_devices left = pv_devices right else pv_scalar left = pv_scalar right)"

definition clonePropertyValue :: "property_name \<Rightarrow> property_value \<Rightarrow> property_value" where
  "clonePropertyValue name v =
     (if isDeviceProperty name then devicePropertyValue (pv_devices v) else scalarPropertyValue (pv_scalar v))"

definition validAbsolutePath :: "string \<Rightarrow> bool" where
  "validAbsolutePath p \<longleftrightarrow> isAbsPath p \<and> isCleanAbsPath p \<and> \<not> containsSub p ''//''"

text \<open>\<open>seen\<close> holds the paths before; the answer is whether no error is returned.\<close>

fun validateDeviceLimitsFrom :: "string list \<Rightarrow> device_limit list \<Rightarrow> bool" where
  "validateDeviceLimitsFrom seen [] = True"
| "validateDeviceLimitsFrom seen (v # vs) =
     (validAbsolutePath (dl_Path v) \<and> dl_Path v \<notin> set seen \<and> dl_Value v \<noteq> 0 \<and> dl_Value v \<noteq> SystemdUnset \<and>
      validateDeviceLimitsFrom (dl_Path v # seen) vs)"

definition validateDeviceLimits :: "device_limit list \<Rightarrow> bool" where
  "validateDeviceLimits vs = validateDeviceLimitsFrom [] vs"

definition validatePropertyValue :: "property_name \<Rightarrow> u64 \<Rightarrow> bool" where
  "validatePropertyValue name v =
     (if name = PropertyCPUWeight \<or> name = PropertyIOWeight then v = SystemdUnset \<or> 1 \<le> v \<and> v \<le> 10000
      else if name = PropertyCPUQuotaPerSecUSec then v = SystemdUnset \<or> v \<noteq> 0
      else if name = PropertyCPUQuotaPeriodUSec then v = SystemdUnset \<or> 1000 \<le> v \<and> v \<le> 1000000
      else name = PropertyMemoryHigh \<or> name = PropertyMemoryMax \<or> name = PropertyMemorySwapMax)"

section \<open>Per-device weights and their mechanism\<close>

type_synonym mechanism = string

definition IODeviceWeightMechanismBFQ :: mechanism where "IODeviceWeightMechanismBFQ = ''bfq''"
definition IODeviceWeightMechanismIOCost :: mechanism where "IODeviceWeightMechanismIOCost = ''io_cost''"

definition validIODeviceWeightMechanism :: "mechanism \<Rightarrow> bool" where
  "validIODeviceWeightMechanism m \<longleftrightarrow> m = IODeviceWeightMechanismBFQ \<or> m = IODeviceWeightMechanismIOCost"

record io_device_weight_request =
  rq_Path :: string
  rq_Weight :: u64
  rq_Mechanism :: mechanism

record io_device_weight_target =
  tg_path :: string
  tg_mechanism :: mechanism

record io_device_weight_reset =
  rs_path :: string
  rs_device :: string
  rs_mechanism :: mechanism
  rs_expected :: u64

definition systemdIODeviceWeight :: "u64 \<Rightarrow> mechanism \<Rightarrow> u64" where
  "systemdIODeviceWeight weight m =
     (if m = IODeviceWeightMechanismBFQ \<and> weight > 100 then 100 + 11 * (weight - 100) else weight)"

definition bfqWeight :: "u64 \<Rightarrow> u64" where
  "bfqWeight w = (if w \<le> 100 then 100 - (100 - w) * (100 - 1) div (100 - 1)
                  else 100 + (w - 100) * (1000 - 100) div (10000 - 100))"

definition kernelIODeviceWeight :: "u64 \<Rightarrow> mechanism \<Rightarrow> u64" where
  "kernelIODeviceWeight v m = (if m = IODeviceWeightMechanismBFQ then bfqWeight v else v)"

definition validateIODeviceWeightValues :: "device_limit list \<Rightarrow> bool" where
  "validateIODeviceWeightValues vs \<longleftrightarrow> list_all (\<lambda>v. dl_Value v \<le> 10000) vs"

text \<open>Every target is valid and the paths ascend strictly.\<close>

fun canonicalTargets :: "io_device_weight_target list \<Rightarrow> bool" where
  "canonicalTargets [] = True"
| "canonicalTargets [t] = (validIODeviceWeightMechanism (tg_mechanism t) \<and> validAbsolutePath (tg_path t))"
| "canonicalTargets (t # t' # ts) =
     (validIODeviceWeightMechanism (tg_mechanism t) \<and> validAbsolutePath (tg_path t) \<and>
      tg_path t < tg_path t' \<and> canonicalTargets (t' # ts))"

definition ioDeviceWeightTargetMechanismsCompatible ::
  "io_device_weight_target list \<Rightarrow> io_device_weight_target list \<Rightarrow> bool" where
  "ioDeviceWeightTargetMechanismsCompatible left right =
     (let leftByPath = map_of (rev (map (\<lambda>t. (tg_path t, tg_mechanism t)) left))
      in list_all (\<lambda>t. case leftByPath (tg_path t) of Some m \<Rightarrow> m = tg_mechanism t | None \<Rightarrow> True) right)"

section \<open>Assignments\<close>

record property_assignment =
  pa_name :: property_name
  pa_value :: property_value
  pa_targets :: "io_device_weight_target list"

definition clonePropertyAssignment :: "property_assignment \<Rightarrow> property_assignment" where
  "clonePropertyAssignment a = a\<lparr> pa_value := clonePropertyValue (pa_name a) (pa_value a) \<rparr>"

definition NewPropertyAssignment :: "property_name \<Rightarrow> u64 \<Rightarrow> (adapter_error, property_assignment) res" where
  "NewPropertyAssignment name v =
     (if name \<notin> set approvedScalarProperties then Inl (AdapterError ReasonPropertyNotAllowed [] [] name)
      else if \<not> validatePropertyValue name v then Inl (AdapterError ReasonInvalidValue [] [] name)
      else Inr \<lparr> pa_name = name, pa_value = scalarPropertyValue v, pa_targets = [] \<rparr>)"

definition NewDevicePropertyAssignment ::
  "property_name \<Rightarrow> device_limit list \<Rightarrow> (adapter_error, property_assignment) res" where
  "NewDevicePropertyAssignment name vs =
     (if \<not> isDeviceProperty name then Inl (AdapterError ReasonPropertyNotAllowed [] [] name)
      else if name = PropertyIODeviceWeight then Inl (AdapterError ReasonInvalidValue [] [] name)
      else let canonical = sort_key dl_Path vs
           in if \<not> validateDeviceLimits canonical then Inl (AdapterError ReasonInvalidValue [] [] name)
              else Inr \<lparr> pa_name = name, pa_value = devicePropertyValue canonical, pa_targets = [] \<rparr>)"

text \<open>\<open>div\<close> by the period is guarded as in the code, where a zero period returns before the remainder.\<close>

definition NewCPUQuotaAssignmentsFromCgroupMax ::
  "u64 \<Rightarrow> u64 \<Rightarrow> (adapter_error, property_assignment list) res" where
  "NewCPUQuotaAssignmentsFromCgroupMax quota period =
     (if quota = 0 \<or> period = 0 \<or> 1000000 mod period \<noteq> 0
      then Inl (AdapterError ReasonInvalidValue ''convert_cpu_quota'' [] [])
      else let factor = 1000000 div period in
        if quota > (- 1) div factor then Inl (AdapterError ReasonInvalidValue ''convert_cpu_quota'' [] [])
        else (case NewPropertyAssignment PropertyCPUQuotaPerSecUSec (quota * factor) of
            Inl e \<Rightarrow> Inl e
          | Inr perSecond \<Rightarrow>
              (case NewPropertyAssignment PropertyCPUQuotaPeriodUSec period of
                 Inl e \<Rightarrow> Inl e
               | Inr configuredPeriod \<Rightarrow> Inr [perSecond, configuredPeriod])))"

definition invalidRequest :: "io_device_weight_request \<Rightarrow> bool" where
  "invalidRequest r \<longleftrightarrow> rq_Weight r < 1 \<or> rq_Weight r > 1000 \<or> \<not> validIODeviceWeightMechanism (rq_Mechanism r)"

definition requestLimit :: "io_device_weight_request \<Rightarrow> device_limit" where
  "requestLimit r = \<lparr> dl_Path = rq_Path r, dl_Value = systemdIODeviceWeight (rq_Weight r) (rq_Mechanism r) \<rparr>"

definition requestTarget :: "io_device_weight_request \<Rightarrow> io_device_weight_target" where
  "requestTarget r = \<lparr> tg_path = rq_Path r, tg_mechanism = rq_Mechanism r \<rparr>"

definition NewIODeviceWeightAssignment ::
  "io_device_weight_request list \<Rightarrow> (adapter_error, property_assignment) res" where
  "NewIODeviceWeightAssignment requests =
     (let canonical = sort_key rq_Path requests; limits = map requestLimit canonical in
      if requests = [] \<or> list_ex invalidRequest canonical \<or> \<not> validateDeviceLimits limits
      then Inl (AdapterError ReasonInvalidValue [] [] PropertyIODeviceWeight)
      else Inr \<lparr> pa_name = PropertyIODeviceWeight, pa_value = devicePropertyValue limits,
                 pa_targets = map requestTarget canonical \<rparr>)"

definition IODeviceWeightRequests :: "property_assignment \<Rightarrow> io_device_weight_request list" where
  "IODeviceWeightRequests a =
     (if pa_name a \<noteq> PropertyIODeviceWeight \<or> length (pa_targets a) \<noteq> length (pv_devices (pa_value a)) then []
      else map2 (\<lambda>t d. \<lparr> rq_Path = tg_path t, rq_Weight = kernelIODeviceWeight (dl_Value d) (tg_mechanism t),
                         rq_Mechanism = tg_mechanism t \<rparr>) (pa_targets a) (pv_devices (pa_value a)))"

definition validateIODeviceWeightAssignment :: "property_assignment \<Rightarrow> bool" where
  "validateIODeviceWeightAssignment a \<longleftrightarrow>
     pa_name a \<noteq> PropertyIODeviceWeight \<or>
     pa_targets a \<noteq> [] \<and> validateIODeviceWeightValues (pv_devices (pa_value a)) \<and> canonicalTargets (pa_targets a)"

section \<open>Validation of calls\<close>

definition checkAssignment :: "property_assignment \<Rightarrow> adapter_error option" where
  "checkAssignment a =
     (if \<not> isApprovedProperty (pa_name a) then Some (AdapterError ReasonPropertyNotAllowed ''apply'' [] (pa_name a))
      else if isDeviceProperty (pa_name a) then
        (if validateDeviceLimits (pv_devices (pa_value a)) \<and> validateIODeviceWeightAssignment a then None
         else Some (AdapterError ReasonInvalidValue ''apply'' [] (pa_name a)))
      else if validatePropertyValue (pa_name a) (pv_scalar (pa_value a)) then None
      else Some (AdapterError ReasonInvalidValue ''apply'' [] (pa_name a)))"

fun checkAssignments :: "property_name list \<Rightarrow> property_assignment list \<Rightarrow> adapter_error option" where
  "checkAssignments seen [] = None"
| "checkAssignments seen (a # as) =
     (if pa_name a \<in> set seen then Some (AdapterError ReasonInvalidValue ''apply'' [] (pa_name a))
      else (case checkAssignment a of Some e \<Rightarrow> Some e | None \<Rightarrow> checkAssignments (pa_name a # seen) as))"

definition validateAssignments ::
  "property_assignment list \<Rightarrow> (adapter_error, property_assignment list) res" where
  "validateAssignments assignments =
     (if assignments = [] \<or> length assignments > length approvedScalarProperties + length approvedDeviceProperties
      then Inl (AdapterError ReasonInvalidValue ''apply'' [] [])
      else let result = map clonePropertyAssignment assignments
           in (case checkAssignments [] result of Some e \<Rightarrow> Inl e | None \<Rightarrow> Inr (sort_key pa_name result)))"

definition resourceProperties :: "resource_kind \<Rightarrow> property_name list option" where
  "resourceProperties r = (case r of
       ResourceMemory \<Rightarrow> Some [PropertyMemoryHigh, PropertyMemoryMax, PropertyMemorySwapMax]
     | ResourceIO \<Rightarrow> Some [PropertyIOWeight, PropertyIOReadBandwidthMax, PropertyIOWriteBandwidthMax,
                           PropertyIOReadIOPSMax, PropertyIOWriteIOPSMax]
     | ResourceIOWeight \<Rightarrow> None)"

definition validateResourceAssignments ::
  "resource_kind \<Rightarrow> property_assignment list \<Rightarrow> (adapter_error, property_assignment list) res" where
  "validateResourceAssignments resource assignments =
     (case validateAssignments assignments of
        Inl e \<Rightarrow> Inl e
      | Inr validated \<Rightarrow>
          (case resourceProperties resource of
             None \<Rightarrow> Inl (AdapterError ReasonInvalidValue ''check_resource_authority'' [] [])
           | Some allowed \<Rightarrow>
               (case find (\<lambda>a. pa_name a \<notin> set allowed) validated of
                  Some a \<Rightarrow> Inl (AdapterError ReasonPropertyNotAllowed ''check_resource_authority'' [] (pa_name a))
                | None \<Rightarrow> Inr validated)))"

fun checkRestoreProperties :: "property_name option \<Rightarrow> property_name list \<Rightarrow> adapter_error option" where
  "checkRestoreProperties previous [] = None"
| "checkRestoreProperties previous (p # ps) =
     (if \<not> isApprovedProperty p then Some (AdapterError ReasonPropertyNotAllowed ''restore_properties'' [] p)
      else if previous = Some p then Some (AdapterError ReasonInvalidValue ''restore_properties'' [] p)
      else checkRestoreProperties (Some p) ps)"

definition validateRestoreProperties :: "property_name list \<Rightarrow> (adapter_error, property_name list) res" where
  "validateRestoreProperties properties =
     (if properties = [] then Inl (AdapterError ReasonInvalidValue ''restore_properties'' [] [])
      else case checkRestoreProperties None (sort properties) of
          Some e \<Rightarrow> Inl e | None \<Rightarrow> Inr (sort properties))"

section \<open>Unit names\<close>

definition parentUserSlice :: string where "parentUserSlice = ''user.slice''"

definition parseUserSliceName :: "string \<Rightarrow> u32 option" where
  "parseUserSliceName name =
     (if \<not> hasPrefix name ''user-'' \<or> \<not> hasSuffix name ''.slice'' then None
      else let v = take (length name - 11) (drop 5 name) in
        (case parseUint 32 v of
           Some n \<Rightarrow> if formatUint n = v then Some (of_nat n) else None
         | None \<Rightarrow> None))"

text \<open>\<^verbatim>\<open>hex.DecodeString(s)\<close> succeeds: even length and hexadecimal digits of either case.\<close>

definition isHexDigit :: "char \<Rightarrow> bool" where
  "isHexDigit c \<longleftrightarrow> is_digit c \<or> (97 \<le> byte_of c \<and> byte_of c \<le> 102) \<or> (65 \<le> byte_of c \<and> byte_of c \<le> 70)"

definition isHexString :: "string \<Rightarrow> bool" where
  "isHexString s \<longleftrightarrow> even (length s) \<and> list_all isHexDigit s"

definition capabilityProbeUnitPrefix :: string where "capabilityProbeUnitPrefix = ''user-resmancapprobe''"

definition isCapabilityProbeUnit :: "string \<Rightarrow> bool" where
  "isCapabilityProbeUnit unit \<longleftrightarrow>
     hasPrefix unit capabilityProbeUnitPrefix \<and> hasSuffix unit ''.slice'' \<and>
     (let suffix = take (length unit - length capabilityProbeUnitPrefix - 6) (drop (length capabilityProbeUnitPrefix) unit)
      in length suffix = 16 \<and> isHexString suffix)"

text \<open>The file names of \<^verbatim>\<open>managedRuntimeDropInPath\<close>; a name outside the map gives the empty string.\<close>

definition dropInNames :: "(property_name \<times> string) list" where
  "dropInNames =
     [(PropertyCPUWeight, ''50-CPUWeight.conf''), (PropertyCPUQuotaPerSecUSec, ''50-CPUQuota.conf''),
      (PropertyCPUQuotaPeriodUSec, ''50-CPUQuotaPeriodSec.conf''), (PropertyMemoryHigh, ''50-MemoryHigh.conf''),
      (PropertyMemoryMax, ''50-MemoryMax.conf''), (PropertyMemorySwapMax, ''50-MemorySwapMax.conf''),
      (PropertyIOWeight, ''50-IOWeight.conf''), (PropertyIODeviceWeight, ''50-IODeviceWeight.conf''),
      (PropertyIOReadBandwidthMax, ''50-IOReadBandwidthMax.conf''),
      (PropertyIOWriteBandwidthMax, ''50-IOWriteBandwidthMax.conf''),
      (PropertyIOReadIOPSMax, ''50-IOReadIOPSMax.conf''), (PropertyIOWriteIOPSMax, ''50-IOWriteIOPSMax.conf'')]"

definition managedRuntimeDropInPath :: "string \<Rightarrow> property_name \<Rightarrow> string" where
  "managedRuntimeDropInPath unit property =
     (let filename = (case map_of dropInNames property of Some f \<Rightarrow> f | None \<Rightarrow> []);
          base = (if isCapabilityProbeUnit unit then ''/run/systemd/transient'' else ''/run/systemd/system.control'')
      in base @ ''/'' @ unit @ ''.d'' @ (if filename = [] then [] else ''/'' @ filename))"

section \<open>Lemmas\<close>

text \<open>Evaluating a numeral in binary.\<close>

lemma parseUint_int [code]:
  "parseUint bits s =
     (if s = [] \<or> \<not> list_all is_digit s then None
      else let v = foldl (\<lambda>acc c. 10 * acc + int (digit_val c)) 0 s in if v < 2 ^ bits then Some (nat v) else None)"
proof -
  have "foldl (\<lambda>acc c. 10 * acc + int (digit_val c)) (int n) s = int (foldl (\<lambda>acc c. 10 * acc + digit_val c) n s)" for n
  proof (induction s arbitrary: n)
    case (Cons c s)
    then show ?case using Cons [of "10 * n + digit_val c"] by simp
  qed simp
  from this [of 0] have "foldl (\<lambda>acc c. 10 * acc + int (digit_val c)) 0 s = int (decValue s)" by (simp add: decValue_def)
  then show ?thesis by (simp add: parseUint_def Let_def)
qed

lemma propertyValuesEqual_refl [simp]: "propertyValuesEqual n v v"
  by (simp add: propertyValuesEqual_def)

lemma propertyValuesEqual_clone [simp]:
  "propertyValuesEqual n (clonePropertyValue n v) w = propertyValuesEqual n v w"
  "propertyValuesEqual n v (clonePropertyValue n w) = propertyValuesEqual n v w"
  by (simp_all add: propertyValuesEqual_def clonePropertyValue_def devicePropertyValue_def scalarPropertyValue_def)

lemma propertyValuesEqual_sym: "propertyValuesEqual n v w \<Longrightarrow> propertyValuesEqual n w v"
  by (auto simp: propertyValuesEqual_def split: if_splits)

lemma propertyValuesEqual_trans:
  "propertyValuesEqual n u v \<Longrightarrow> propertyValuesEqual n v w \<Longrightarrow> propertyValuesEqual n u w"
  by (auto simp: propertyValuesEqual_def split: if_splits)

lemma clonePropertyValue_idem [simp]: "clonePropertyValue n (clonePropertyValue n v) = clonePropertyValue n v"
  by (simp add: clonePropertyValue_def devicePropertyValue_def scalarPropertyValue_def)

lemma propertyValuesEqual_clone_iff: "propertyValuesEqual n v w \<longleftrightarrow> clonePropertyValue n v = clonePropertyValue n w"
  by (auto simp: propertyValuesEqual_def clonePropertyValue_def devicePropertyValue_def scalarPropertyValue_def)

lemma clonePropertyAssignment_sel [simp]:
  "pa_name (clonePropertyAssignment a) = pa_name a"
  "pa_value (clonePropertyAssignment a) = clonePropertyValue (pa_name a) (pa_value a)"
  "pa_targets (clonePropertyAssignment a) = pa_targets a"
  by (simp_all add: clonePropertyAssignment_def)

lemma checkAssignments_None:
  "checkAssignments seen as = None \<longleftrightarrow>
     distinct (map pa_name as) \<and> set (map pa_name as) \<inter> set seen = {} \<and> list_all (\<lambda>a. checkAssignment a = None) as"
  by (induction as arbitrary: seen) (auto split: option.splits)

text \<open>What a validated list of assignments is.\<close>

lemma validateAssignments_Inr:
  "validateAssignments assignments = Inr validated \<longleftrightarrow>
     assignments \<noteq> [] \<and> length assignments \<le> 12 \<and> distinct (map pa_name assignments) \<and>
     list_all (\<lambda>a. checkAssignment (clonePropertyAssignment a) = None) assignments \<and>
     validated = sort_key pa_name (map clonePropertyAssignment assignments)"
proof -
  have "map (pa_name \<circ> clonePropertyAssignment) assignments = map pa_name assignments" by simp
  then have "checkAssignments [] (map clonePropertyAssignment assignments) = None \<longleftrightarrow>
      distinct (map pa_name assignments) \<and> list_all (\<lambda>a. checkAssignment (clonePropertyAssignment a) = None) assignments"
    by (simp add: checkAssignments_None list.pred_map comp_def)
  then show ?thesis
    by (auto simp: validateAssignments_def Let_def approvedScalarProperties_def approvedDeviceProperties_def
        split: option.splits)
qed

lemma validated_names:
  assumes "validateAssignments assignments = Inr validated"
  shows "distinct (map pa_name validated)" "validated \<noteq> []" "a \<in> set validated \<Longrightarrow> isApprovedProperty (pa_name a)"
proof -
  note v = assms [unfolded validateAssignments_Inr]
  have "mset (map pa_name validated) = mset (map pa_name assignments)"
    using v by (simp add: mset_map multiset.map_comp comp_def)
  then show "distinct (map pa_name validated)" using v mset_eq_imp_distinct_iff by blast
  show "validated \<noteq> []" using v by (metis length_0_conv length_map length_sort)
  show "a \<in> set validated \<Longrightarrow> isApprovedProperty (pa_name a)"
    using v by (auto simp: list_all_iff checkAssignment_def split: if_splits)
qed

section \<open>The conversion of a quota is exact\<close>

lemma unat_minus1_div: "unat ((- 1) div (f :: u64)) = maxUint64 div unat f"
  by (simp add: unat_div unsigned_minus_1_eq_mask mask_eq_exp_minus_1)

lemma NewPropertyAssignment_Inr:
  "NewPropertyAssignment name v = Inr a \<longleftrightarrow>
     name \<in> set approvedScalarProperties \<and> validatePropertyValue name v \<and>
     a = \<lparr> pa_name = name, pa_value = scalarPropertyValue v, pa_targets = [] \<rparr>"
  by (auto simp: NewPropertyAssignment_def)

text \<open>
  A cgroup quota is converted exactly or refused. The conversion succeeds exactly when the period
  is a divisor of one second between one millisecond and one second, the quota is positive and the
  quota per second fits in 64 bits; the pair it returns denotes the same share of a CPU, with no
  rounding and no wrap-around.
\<close>

theorem cpu_quota_conversion_exact:
  "(\<exists>as. NewCPUQuotaAssignmentsFromCgroupMax quota period = Inr as) =
     (0 < unat quota \<and> 1000 \<le> unat period \<and> unat period dvd 1000000 \<and>
      unat quota * (1000000 div unat period) < 2 ^ 64) \<and>
   (case NewCPUQuotaAssignmentsFromCgroupMax quota period of
      Inl e \<Rightarrow> errorReason e = Some ReasonInvalidValue
    | Inr as \<Rightarrow> map pa_name as = [PropertyCPUQuotaPerSecUSec, PropertyCPUQuotaPeriodUSec] \<and>
        unat (pv_scalar (pa_value (as ! 0))) * unat period = unat quota * 1000000 \<and>
        pv_scalar (pa_value (as ! 1)) = period)"
proof (cases "quota = 0 \<or> period = 0 \<or> 1000000 mod period \<noteq> 0")
  case True
  have "1000000 mod period = 0 \<longleftrightarrow> unat period dvd 1000000"
    by (simp add: word_unat_eq_iff unat_mod dvd_eq_mod_eq_0)
  moreover have "(0 < unat quota) = (quota \<noteq> 0)" by (simp add: word_unat_eq_iff)
  ultimately show ?thesis using True by (auto simp: NewCPUQuotaAssignmentsFromCgroupMax_def)
next
  case False
  let ?f = "1000000 div period :: u64"
  have pos: "0 < unat quota" "0 < unat period" using False by (simp_all add: unat_gt_0)
  have dvd: "unat period dvd 1000000" using False by (simp add: word_unat_eq_iff unat_mod dvd_eq_mod_eq_0)
  have f: "unat ?f = 1000000 div unat period" by (simp add: unat_div)
  have f_pos: "0 < unat ?f" using dvd pos(2) by (metis f dvd_div_eq_0_iff gr0I zero_neq_numeral)
  have fits: "\<not> (- 1) div ?f < quota \<longleftrightarrow> unat quota * unat ?f < 2 ^ 64"
    using f_pos by (simp add: word_less_nat_alt unat_minus1_div not_less less_eq_div_iff_mult_less_eq flip: f) linarith
  have whole: "unat ?f * unat period = 1000000" using dvd by (simp add: f)
  have period: "validatePropertyValue PropertyCPUQuotaPeriodUSec period \<longleftrightarrow> 1000 \<le> unat period"
  proof -
    have "unat period \<le> 1000000" using dvd by (rule dvd_imp_le) simp
    moreover from this have "period \<noteq> SystemdUnset"
      by (auto simp: SystemdUnset_def word_unat_eq_iff unsigned_minus_1_eq_mask mask_eq_exp_minus_1)
    ultimately show ?thesis by (auto simp: validatePropertyValue_def property_names word_le_nat_alt)
  qed
  show ?thesis
  proof (cases "unat quota * unat ?f < 2 ^ 64")
    case True
    have prod: "unat (quota * ?f) = unat quota * unat ?f" using True by (intro unat_mult_u64) simp
    then have "quota * ?f \<noteq> 0" using pos f_pos by (auto simp: word_unat_eq_iff)
    then have "NewCPUQuotaAssignmentsFromCgroupMax quota period =
       (if 1000 \<le> unat period then Inr [\<lparr> pa_name = PropertyCPUQuotaPerSecUSec, pa_value = scalarPropertyValue (quota * ?f), pa_targets = [] \<rparr>,
          \<lparr> pa_name = PropertyCPUQuotaPeriodUSec, pa_value = scalarPropertyValue period, pa_targets = [] \<rparr>]
        else Inl (AdapterError ReasonInvalidValue [] [] PropertyCPUQuotaPeriodUSec))"
      using False fits True period unfolding NewCPUQuotaAssignmentsFromCgroupMax_def Let_def
      by (simp add: NewPropertyAssignment_def approvedScalarProperties_def) (simp add: validatePropertyValue_def property_names)
    then show ?thesis using pos dvd True prod whole
      by (simp add: scalarPropertyValue_def mult.assoc f)
  next
    case False
    then have "NewCPUQuotaAssignmentsFromCgroupMax quota period = Inl (AdapterError ReasonInvalidValue ''convert_cpu_quota'' [] [])"
      using fits \<open>\<not> (quota = 0 \<or> period = 0 \<or> 1000000 mod period \<noteq> 0)\<close>
      by (simp add: NewCPUQuotaAssignmentsFromCgroupMax_def Let_def)
    then show ?thesis using False by (simp add: f)
  qed
qed

section \<open>Weights survive the translation for the kernel\<close>

lemma kernel_systemd_weight:
  assumes "w \<noteq> 0" "w \<le> 1000" "validIODeviceWeightMechanism m"
  shows "kernelIODeviceWeight (systemdIODeviceWeight w m) m = w"
    and "1 \<le> systemdIODeviceWeight w m" and "systemdIODeviceWeight w m \<le> 10000"
proof -
  have n: "1 \<le> unat w" "unat w \<le> 1000" using assms(1,2) by (simp_all add: word_le_nat_alt unat_gt_0 Suc_le_eq)
  have over: "(100 < w) = (100 < unat w)" "(w \<le> 100) = (unat w \<le> 100)"
    by (simp_all add: word_less_nat_alt word_le_nat_alt)
  have scaled: "unat (100 + 11 * (w - 100)) = 100 + 11 * (unat w - 100)" if "100 < unat w"
  proof -
    have sub: "unat (w - 100) = unat w - 100" using that by (simp add: unat_sub word_le_nat_alt)
    then have "unat (11 * (w - 100)) = 11 * (unat w - 100)" using n by (subst unat_mult_u64) simp_all
    then show ?thesis using n by (subst unat_add_u64) simp_all
  qed
  have low: "bfqWeight w = w" if "unat w \<le> 100"
  proof -
    have "unat (100 - w) = 100 - unat w" using that by (simp add: unat_sub word_le_nat_alt)
    then have "unat ((100 - w) * 99) = (100 - unat w) * 99" by (subst unat_mult_u64) simp_all
    then have "unat ((100 - w) * 99 div 99) = 100 - unat w" by (simp only: unat_div) simp
    then have "unat (100 - (100 - w) * 99 div 99) = unat w"
      using that by (subst unat_sub) (simp_all add: word_le_nat_alt)
    then show ?thesis using that by (simp add: bfqWeight_def over word_unat_eq_iff)
  qed
  have high: "bfqWeight (100 + 11 * (w - 100)) = w" if "100 < unat w"
  proof -
    define s where "s = 100 + 11 * (w - 100)"
    have s: "unat s = 100 + 11 * (unat w - 100)" using scaled [OF that] by (simp only: s_def)
    have "unat (s - 100) = 11 * (unat w - 100)" using s by (simp add: unat_sub word_le_nat_alt)
    then have "unat ((s - 100) * 900) = 11 * (unat w - 100) * 900" using n by (subst unat_mult_u64) simp_all
    then have "unat ((s - 100) * 900 div 9900) = unat w - 100" by (simp only: unat_div) simp
    then have "unat (100 + (s - 100) * 900 div 9900) = unat w" using that n by (subst unat_add_u64) simp_all
    moreover have "\<not> s \<le> 100" using s that by (simp add: word_le_nat_alt)
    ultimately have "bfqWeight s = w" by (simp add: bfqWeight_def word_unat_eq_iff)
    then show ?thesis by (simp only: s_def)
  qed
  show "kernelIODeviceWeight (systemdIODeviceWeight w m) m = w"
    using low high by (auto simp: kernelIODeviceWeight_def systemdIODeviceWeight_def over)
  show "1 \<le> systemdIODeviceWeight w m" "systemdIODeviceWeight w m \<le> 10000"
    using n scaled by (auto simp: systemdIODeviceWeight_def over word_le_nat_alt)
qed

lemma NewIODeviceWeightAssignment_Inr:
  "NewIODeviceWeightAssignment requests = Inr a \<longleftrightarrow>
     requests \<noteq> [] \<and> list_all (\<lambda>r. \<not> invalidRequest r) requests \<and>
     validateDeviceLimits (map requestLimit (sort_key rq_Path requests)) \<and>
     a = \<lparr> pa_name = PropertyIODeviceWeight, pa_value = devicePropertyValue (map requestLimit (sort_key rq_Path requests)),
           pa_targets = map requestTarget (sort_key rq_Path requests) \<rparr>"
  by (auto simp: NewIODeviceWeightAssignment_def Let_def list_ex_iff list_all_iff)

lemma validateDeviceLimitsFrom_iff:
  "validateDeviceLimitsFrom seen vs \<longleftrightarrow>
     distinct (map dl_Path vs) \<and> dl_Path ` set vs \<inter> set seen = {} \<and>
     list_all (\<lambda>v. validAbsolutePath (dl_Path v) \<and> dl_Value v \<noteq> 0 \<and> dl_Value v \<noteq> SystemdUnset) vs"
  by (induction vs arbitrary: seen) auto

lemma canonicalTargets_iff:
  "canonicalTargets ts \<longleftrightarrow>
     list_all (\<lambda>t. validIODeviceWeightMechanism (tg_mechanism t) \<and> validAbsolutePath (tg_path t)) ts \<and>
     sorted_wrt (<) (map tg_path ts)"
  by (induction ts rule: canonicalTargets.induct) (auto intro: less_trans)

text \<open>
  A weighted-I/O request survives its translation. An assignment built from requests names
  exactly the requested devices in path order, reads back as the same requests, weights included,
  is accepted by the validation of \<open>Apply\<close>, and every value systemd is given lies in 1 to 10000.
\<close>

theorem io_weight_assignment_round_trip:
  assumes "NewIODeviceWeightAssignment requests = Inr a"
  shows "IODeviceWeightRequests a = sort_key rq_Path requests \<and> checkAssignment a = None \<and>
     list_all (\<lambda>d. 1 \<le> dl_Value d \<and> dl_Value d \<le> 10000) (pv_devices (pa_value a))"
proof -
  note a = assms [unfolded NewIODeviceWeightAssignment_Inr]
  let ?rs = "sort_key rq_Path requests"
  have ok: "rq_Weight r \<noteq> 0" "rq_Weight r \<le> 1000" "validIODeviceWeightMechanism (rq_Mechanism r)"
    if "r \<in> set ?rs" for r
    using a that by (auto simp: list_all_iff invalidRequest_def not_less)
  note w = kernel_systemd_weight [OF ok]
  have "IODeviceWeightRequests a = map (\<lambda>r. \<lparr> rq_Path = rq_Path r,
      rq_Weight = kernelIODeviceWeight (systemdIODeviceWeight (rq_Weight r) (rq_Mechanism r)) (rq_Mechanism r),
      rq_Mechanism = rq_Mechanism r \<rparr>) ?rs"
    using a by (simp add: IODeviceWeightRequests_def devicePropertyValue_def zip_map1 zip_map2 zip_same_conv_map
        requestTarget_def requestLimit_def comp_def case_prod_beta)
  then have reads: "IODeviceWeightRequests a = ?rs" using w(1) by (simp add: map_idI del: set_sort)
  have range: "list_all (\<lambda>d. 1 \<le> dl_Value d \<and> dl_Value d \<le> 10000) (pv_devices (pa_value a))"
    using a w(2,3) by (auto simp: list_all_iff devicePropertyValue_def requestLimit_def)
  have paths: "map dl_Path (map requestLimit ?rs) = map rq_Path ?rs" "map tg_path (map requestTarget ?rs) = map rq_Path ?rs"
    by (simp_all add: requestLimit_def requestTarget_def)
  have limits: "distinct (map rq_Path ?rs)" "\<And>r. r \<in> set ?rs \<Longrightarrow> validAbsolutePath (rq_Path r)"
    using a by (auto simp: validateDeviceLimits_def validateDeviceLimitsFrom_iff paths(1) list_all_iff requestLimit_def
        simp del: map_map)
  have "sorted_wrt (<) (map tg_path (map requestTarget ?rs))"
    using limits(1) by (simp only: paths(2) strict_sorted_iff sorted_sort_key)
  then have "canonicalTargets (pa_targets a)"
    using a limits(2) ok(3) by (auto simp: canonicalTargets_iff list_all_iff requestTarget_def)
  moreover have "validateIODeviceWeightValues (pv_devices (pa_value a))"
    using range by (auto simp: validateIODeviceWeightValues_def list_all_iff)
  moreover have "validateDeviceLimits (pv_devices (pa_value a))" using a by (simp add: devicePropertyValue_def)
  moreover have "pa_name a = PropertyIODeviceWeight" "pa_targets a \<noteq> []"
    using a by (simp_all, metis length_0_conv length_sort)
  ultimately have "checkAssignment a = None"
    by (simp add: checkAssignment_def validateIODeviceWeightAssignment_def isApprovedProperty_def isDeviceProperty_def
        approvedDeviceProperties_def)
  then show ?thesis using reads range by blast
qed

definition sampleRequests :: "io_device_weight_request list" where
  "sampleRequests = [\<lparr> rq_Path = ''/dev/sdb'', rq_Weight = 250, rq_Mechanism = ''bfq'' \<rparr>,
                     \<lparr> rq_Path = ''/dev/sda'', rq_Weight = 40, rq_Mechanism = ''io_cost'' \<rparr>]"

theorem io_weight_assignment_round_trip_witness:
  "\<exists>a. NewIODeviceWeightAssignment sampleRequests = Inr a \<and> IODeviceWeightRequests a = rev sampleRequests"
proof -
  have "\<not> isl (NewIODeviceWeightAssignment sampleRequests)" by code_simp
  then obtain a where a: "NewIODeviceWeightAssignment sampleRequests = Inr a" by (metis isl_def sum.exhaust)
  have "sort_key rq_Path sampleRequests = rev sampleRequests" by code_simp
  then show ?thesis using a io_weight_assignment_round_trip [OF a] by auto
qed

end
