(* ===== verification/Lease_Journal.thy ===== *)
theory Lease_Journal
  imports Unit_Properties
begin

text \<open>
  The durable ownership record of the systemd boundary: the in-memory leases of
  \<^verbatim>\<open>src/internal/systemdunit/adapter.go\<close>, the journal of \<^verbatim>\<open>journal.go\<close> and the translation between
  them in \<^verbatim>\<open>recovery.go\<close>. Where a durable type has the fields of the in-memory one and the code copies
  them one by one, both are one type here. Validation answers whether it returns no error. Encoding
  as JSON and the file operations around it are not part of this theory.
\<close>

section \<open>Unit lifetimes and leases\<close>

text \<open>\<open>ui_InvocationID\<close> and a digest are arrays of 16 and 32 bytes.\<close>

record unit_identity =
  ui_Name :: string
  ui_ObjectPath :: string
  ui_InvocationID :: string
  ui_ControlGroupID :: u64

record unit_file_fingerprint =
  uf_path :: string
  uf_digest :: string

record property_lease =
  pl_Property :: property_name
  pl_Baseline :: property_value
  pl_LastApplied :: property_value

record property_lease_state =
  ls_lease :: property_lease
  ls_baseline :: property_value
  ls_lastApplied :: property_value
  ls_previousApplied :: property_value
  ls_ioWeightTargets :: "io_device_weight_target list"
  ls_previousIOWeightTargets :: "io_device_weight_target list"
  ls_pendingIOWeightResets :: "io_device_weight_reset list"
  ls_uncertain :: bool
  ls_newLease :: bool

record unit_override_lease =
  uo_managedPaths :: "string list"
  uo_fingerprints :: "unit_file_fingerprint list"
  uo_previousFingerprint :: "unit_file_fingerprint list"

type_synonym lease_key = "unit_identity \<times> property_name"

type_synonym lease_phase = string

definition leasePhaseApplying :: lease_phase where "leasePhaseApplying = ''applying''"
definition leasePhaseApplied :: lease_phase where "leasePhaseApplied = ''applied''"
definition leasePhaseRestoring :: lease_phase where "leasePhaseRestoring = ''restoring''"
definition leasePhaseReloading :: lease_phase where "leasePhaseReloading = ''reloading''"

lemmas lease_phases =
  leasePhaseApplying_def leasePhaseApplied_def leasePhaseRestoring_def leasePhaseReloading_def

datatype lease_recovery_state =
    LeaseRecoveryReclaimed | LeaseRecoveryOrphaned | LeaseRecoveryInactive | LeaseRecoveryPending | LeaseRecoveryConflict

text \<open>The fields of \<^verbatim>\<open>Adapter\<close> that its operations change.\<close>

record adapter =
  leases :: "(lease_key \<times> property_lease_state) list"
  overrides :: "(unit_identity \<times> unit_override_lease) list"
  phases :: "(string \<times> lease_phase) list"
  generation :: u64
  recovery :: "(string \<times> lease_recovery_state) list"
  blocked :: "(string \<times> adapter_error) list"
  closed :: bool

definition publicPropertyLease :: "property_name \<Rightarrow> property_value \<Rightarrow> property_value \<Rightarrow> property_lease" where
  "publicPropertyLease name baseline lastApplied =
     \<lparr> pl_Property = name, pl_Baseline = clonePropertyValue name baseline,
       pl_LastApplied = clonePropertyValue name lastApplied \<rparr>"

definition newPropertyLeaseState :: "property_name \<Rightarrow> property_value \<Rightarrow> property_lease_state" where
  "newPropertyLeaseState name b =
     (let baseline = clonePropertyValue name b in
      \<lparr> ls_lease = publicPropertyLease name baseline baseline, ls_baseline = baseline,
        ls_lastApplied = clonePropertyValue name baseline,
        ls_previousApplied = \<lparr> pv_scalar = 0, pv_devices = [] \<rparr>,
        ls_ioWeightTargets = [], ls_previousIOWeightTargets = [], ls_pendingIOWeightResets = [],
        ls_uncertain = False, ls_newLease = False \<rparr>)"

definition PropertyLease_Active :: "property_lease \<Rightarrow> bool" where
  "PropertyLease_Active l \<longleftrightarrow> \<not> propertyValuesEqual (pl_Property l) (pl_Baseline l) (pl_LastApplied l)"

definition resolveUncertainOwnership ::
  "property_value \<Rightarrow> property_lease_state \<Rightarrow> bool \<times> property_lease_state" where
  "resolveUncertainOwnership current state =
     (let p = pl_Property (ls_lease state) in
      if \<not> ls_uncertain state then (propertyValuesEqual p current (ls_lastApplied state), state)
      else if propertyValuesEqual p current (ls_lastApplied state) then
        (if ls_pendingIOWeightResets state \<noteq> [] then (True, state)
         else (True, state\<lparr> ls_uncertain := False, ls_newLease := False, ls_previousIOWeightTargets := [] \<rparr>))
      else if propertyValuesEqual p current (ls_previousApplied state) then
        (let last = clonePropertyValue p (ls_previousApplied state) in
         (True, state\<lparr> ls_lastApplied := last, ls_ioWeightTargets := ls_previousIOWeightTargets state,
                       ls_previousIOWeightTargets := [], ls_pendingIOWeightResets := [],
                       ls_lease := publicPropertyLease p (ls_baseline state) last, ls_uncertain := False \<rparr>))
      else (False, state))"

section \<open>Durable records\<close>

record durable_unit_identity =
  di_ObjectPath :: string
  di_InvocationID :: string
  di_ControlGroupID :: u64

record durable_property_lease =
  dp_Property :: property_name
  dp_Baseline :: u64
  dp_PreviousApplied :: u64
  dp_LastApplied :: u64
  dp_BaselineDeviceLimits :: "device_limit list"
  dp_PreviousDeviceLimits :: "device_limit list"
  dp_LastAppliedDeviceLimits :: "device_limit list"
  dp_IODeviceWeightTargets :: "io_device_weight_target list"
  dp_PreviousIODeviceWeightTargets :: "io_device_weight_target list"
  dp_PendingIODeviceWeightResets :: "io_device_weight_reset list"
  dp_Uncertain :: bool
  dp_NewLease :: bool

record durable_file_fingerprint =
  df_Path :: string
  df_SHA256 :: string

record durable_unit_lease =
  du_Unit :: string
  du_Identity :: durable_unit_identity
  du_Phase :: lease_phase
  du_Properties :: "durable_property_lease list"
  du_Footprint :: "durable_file_fingerprint list"
  du_PreviousFootprint :: "durable_file_fingerprint list"

record durable_lease_journal =
  dj_Version :: int
  dj_Generation :: u64
  dj_Units :: "durable_unit_lease list"

section \<open>Hexadecimal strings\<close>

text \<open>\<^verbatim>\<open>hex.EncodeToString\<close> and \<^verbatim>\<open>hex.DecodeString\<close>.\<close>

definition hexChar :: "nat \<Rightarrow> char" where
  "hexChar n = (if n < 10 then char_of (48 + n) else char_of (87 + n))"

definition hexValue :: "char \<Rightarrow> nat" where
  "hexValue c = (let b = byte_of c in if b \<le> 57 then b - 48 else if b \<le> 70 then b - 55 else b - 87)"

fun hexEncode :: "string \<Rightarrow> string" where
  "hexEncode [] = []"
| "hexEncode (c # s) = hexChar (byte_of c div 16) # hexChar (byte_of c mod 16) # hexEncode s"

fun hexDecode :: "string \<Rightarrow> string option" where
  "hexDecode [] = Some []"
| "hexDecode [_] = None"
| "hexDecode (a # b # s) =
     (if isHexDigit a \<and> isHexDigit b then map_option ((#) (char_of (16 * hexValue a + hexValue b))) (hexDecode s)
      else None)"

section \<open>Device numbers\<close>

text \<open>\<open>fits\<close> is the round trip through \<^verbatim>\<open>unix.Mkdev\<close>, \<^verbatim>\<open>Major\<close> and \<^verbatim>\<open>Minor\<close> of golang.org/x/sys.\<close>

definition parseCanonicalDeviceComponent :: "string \<Rightarrow> u32 option" where
  "parseCanonicalDeviceComponent v =
     (if v = [] \<or> v \<noteq> ''0'' \<and> hd v = CHR ''0'' then None
      else case parseUint 32 v of
          None \<Rightarrow> None
        | Some n \<Rightarrow> if formatUint n \<noteq> v then None else Some (of_nat n))"

definition parseDeviceNumber :: "(u32 \<Rightarrow> u32 \<Rightarrow> bool) \<Rightarrow> string \<Rightarrow> (u32 \<times> u32) option" where
  "parseDeviceNumber fits part =
     (case splitOn (CHR '':'') (trimSpace part) of
        [a, b] \<Rightarrow>
          (if a = [] \<or> b = [] then None
           else (case (parseCanonicalDeviceComponent a, parseCanonicalDeviceComponent b) of
               (Some major, Some minor) \<Rightarrow>
                 if major = 0 \<and> minor = 0 \<or> \<not> fits major minor then None else Some (major, minor)
             | _ \<Rightarrow> None))
      | _ \<Rightarrow> None)"

fun parseDeviceNumbers :: "(u32 \<Rightarrow> u32 \<Rightarrow> bool) \<Rightarrow> (u32 \<times> u32) list \<Rightarrow> string list \<Rightarrow> (u32 \<times> u32) list option" where
  "parseDeviceNumbers fits seen [] = Some (rev seen)"
| "parseDeviceNumbers fits seen (p # ps) =
     (case parseDeviceNumber fits p of
        None \<Rightarrow> None
      | Some n \<Rightarrow> if n \<in> set seen then None else parseDeviceNumbers fits (n # seen) ps)"

definition ParseIODeviceWeightDevices :: "(u32 \<Rightarrow> u32 \<Rightarrow> bool) \<Rightarrow> string \<Rightarrow> (u32 \<times> u32) list option" where
  "ParseIODeviceWeightDevices fits selector =
     (let s = trimSpace selector in
      if s = [] then None
      else map_option (sort_key (\<lambda>(major, minor). unat major * 2 ^ 32 + unat minor))
             (parseDeviceNumbers fits [] (splitOn (CHR '','') s)))"

definition deviceNumberString :: "u32 \<times> u32 \<Rightarrow> string" where
  "deviceNumberString n = formatUint (unat (fst n)) @ '':'' @ formatUint (unat (snd n))"

section \<open>Validation of a journal\<close>

definition leaseJournalVersion :: int where "leaseJournalVersion = 1"

definition durablePropertyValue :: "property_name \<Rightarrow> u64 \<Rightarrow> device_limit list \<Rightarrow> property_value" where
  "durablePropertyValue name scalar devices =
     (if isDeviceProperty name then devicePropertyValue devices else scalarPropertyValue scalar)"

text \<open>The reset's device is one canonical number, and the reset removes exactly a value that was owned.\<close>

definition validReset :: "(u32 \<Rightarrow> u32 \<Rightarrow> bool) \<Rightarrow> durable_property_lease \<Rightarrow> io_device_weight_reset \<Rightarrow> bool" where
  "validReset fits property r \<longleftrightarrow>
     validAbsolutePath (rs_path r) \<and> validIODeviceWeightMechanism (rs_mechanism r) \<and> rs_expected r \<noteq> 0 \<and>
     (case ParseIODeviceWeightDevices fits (rs_device r) of
        Some [n] \<Rightarrow> deviceNumberString n = rs_device r | _ \<Rightarrow> False) \<and>
     (case (map_of (rev (map (\<lambda>d. (dl_Path d, dl_Value d)) (dp_PreviousDeviceLimits property))) (rs_path r),
            map_of (rev (map (\<lambda>t. (tg_path t, tg_mechanism t)) (dp_PreviousIODeviceWeightTargets property))) (rs_path r)) of
        (Some previous, Some m) \<Rightarrow> m = rs_mechanism r \<and> kernelIODeviceWeight previous m = rs_expected r
      | _ \<Rightarrow> False) \<and>
     rs_path r \<notin> dl_Path ` set (dp_LastAppliedDeviceLimits property)"

definition validateDurableIODeviceWeightResets ::
  "(u32 \<Rightarrow> u32 \<Rightarrow> bool) \<Rightarrow> lease_phase \<Rightarrow> durable_property_lease \<Rightarrow> bool" where
  "validateDurableIODeviceWeightResets fits phase property \<longleftrightarrow>
     (let removed = filter (\<lambda>t. tg_path t \<in> dl_Path ` set (dp_PreviousDeviceLimits property) \<and>
                                tg_path t \<notin> dl_Path ` set (dp_LastAppliedDeviceLimits property))
                      (dp_PreviousIODeviceWeightTargets property);
          wantResets = (if phase = leasePhaseApplying then length removed else 0);
          resets = dp_PendingIODeviceWeightResets property
      in length resets = wantResets \<and> list_all (validReset fits property) resets \<and>
         sorted_wrt (<) (map rs_path resets) \<and> distinct (map rs_device resets))"

definition noMechanismContext :: "durable_property_lease \<Rightarrow> bool" where
  "noMechanismContext p \<longleftrightarrow>
     dp_IODeviceWeightTargets p = [] \<and> dp_PreviousIODeviceWeightTargets p = [] \<and> dp_PendingIODeviceWeightResets p = []"

definition validDurableValue :: "(u32 \<Rightarrow> u32 \<Rightarrow> bool) \<Rightarrow> lease_phase \<Rightarrow> durable_property_lease \<Rightarrow> bool" where
  "validDurableValue fits phase p \<longleftrightarrow>
     (if isDeviceProperty (dp_Property p) then
        list_all (\<lambda>vs. validateDeviceLimits vs \<and> (dp_Property p = PropertyIODeviceWeight \<longrightarrow> validateIODeviceWeightValues vs))
          [dp_BaselineDeviceLimits p, dp_PreviousDeviceLimits p, dp_LastAppliedDeviceLimits p] \<and>
        (if dp_Property p = PropertyIODeviceWeight then
           dp_IODeviceWeightTargets p \<noteq> [] \<and> canonicalTargets (dp_IODeviceWeightTargets p) \<and>
           canonicalTargets (dp_PreviousIODeviceWeightTargets p) \<and> validateDurableIODeviceWeightResets fits phase p
         else noMechanismContext p)
      else noMechanismContext p \<and>
        dp_BaselineDeviceLimits p = [] \<and> dp_PreviousDeviceLimits p = [] \<and> dp_LastAppliedDeviceLimits p = [] \<and>
        list_all (validatePropertyValue (dp_Property p)) [dp_Baseline p, dp_PreviousApplied p, dp_LastApplied p])"

definition validDurableProperty :: "(u32 \<Rightarrow> u32 \<Rightarrow> bool) \<Rightarrow> lease_phase \<Rightarrow> durable_property_lease \<Rightarrow> bool" where
  "validDurableProperty fits phase p \<longleftrightarrow>
     isApprovedProperty (dp_Property p) \<and> validDurableValue fits phase p \<and>
     (dp_NewLease p \<longrightarrow> dp_Uncertain p \<and> phase = leasePhaseApplying) \<and>
     (dp_PendingIODeviceWeightResets p \<noteq> [] \<longrightarrow> dp_Uncertain p \<and> phase = leasePhaseApplying) \<and>
     (dp_PreviousIODeviceWeightTargets p \<noteq> [] \<longrightarrow> dp_Uncertain p)"

text \<open>
  \<^verbatim>\<open>filepath.Rel(root, path)\<close> is one element that does not start with two dots: the path is absolute and,
  cleaned, it is the root followed by such an element.
\<close>

fun cleanElements :: "string list \<Rightarrow> string list \<Rightarrow> string list" where
  "cleanElements acc [] = rev acc"
| "cleanElements acc (e # es) =
     (if e = [] \<or> e = ''.'' then cleanElements acc es
      else if e = ''..'' then cleanElements (tl acc) es
      else cleanElements (e # acc) es)"

definition pathElements :: "string \<Rightarrow> string list" where
  "pathElements p = cleanElements [] (splitOn (CHR ''/'') p)"

definition directlyBelow :: "string \<Rightarrow> string \<Rightarrow> bool" where
  "directlyBelow base path \<longleftrightarrow>
     isAbsPath path \<and> pathElements path \<noteq> [] \<and> butlast (pathElements path) = pathElements base \<and>
     \<not> hasPrefix (last (pathElements path)) ''..''"

definition dropInRoot :: "string \<Rightarrow> string" where
  "dropInRoot unit = (if isCapabilityProbeUnit unit then ''/run/systemd/transient'' else ''/run/systemd/system.control'')
     @ ''/'' @ unit @ ''.d''"

definition validDigest :: "string \<Rightarrow> bool" where
  "validDigest s \<longleftrightarrow> (case hexDecode s of Some d \<Rightarrow> length d = 32 | None \<Rightarrow> False)"

definition validateDurableFootprint :: "string \<Rightarrow> durable_file_fingerprint list \<Rightarrow> bool \<Rightarrow> bool" where
  "validateDurableFootprint unit footprint allowPendingDigest \<longleftrightarrow>
     sorted (map df_Path footprint) \<and> distinct (map df_Path footprint) \<and>
     list_all (\<lambda>f. directlyBelow (dropInRoot unit) (df_Path f) \<and>
                   (df_SHA256 f = [] \<and> allowPendingDigest \<or> validDigest (df_SHA256 f))) footprint"

definition validDurableIdentity :: "durable_unit_identity \<Rightarrow> bool" where
  "validDurableIdentity i \<longleftrightarrow>
     di_ControlGroupID i \<noteq> 0 \<and> di_InvocationID i \<noteq> replicate 32 CHR ''0'' \<and>
     (case hexDecode (di_InvocationID i) of Some d \<Rightarrow> length d = 16 | None \<Rightarrow> False) \<and>
     hasPrefix (di_ObjectPath i) ''/org/freedesktop/systemd1/unit/''"

definition validUnitName :: "string \<Rightarrow> bool" where
  "validUnitName unit \<longleftrightarrow> unit = parentUserSlice \<or> isCapabilityProbeUnit unit \<or> parseUserSliceName unit \<noteq> None"

definition validDurableUnit :: "(u32 \<Rightarrow> u32 \<Rightarrow> bool) \<Rightarrow> durable_unit_lease \<Rightarrow> bool" where
  "validDurableUnit fits u \<longleftrightarrow>
     (let unc = length (filter dp_Uncertain (du_Properties u)) in
      validUnitName (du_Unit u) \<and> validDurableIdentity (du_Identity u) \<and>
      du_Phase u \<in> {leasePhaseApplying, leasePhaseApplied, leasePhaseRestoring, leasePhaseReloading} \<and>
      du_Properties u \<noteq> [] \<and> sorted (map dp_Property (du_Properties u)) \<and> distinct (map dp_Property (du_Properties u)) \<and>
      list_all (validDurableProperty fits (du_Phase u)) (du_Properties u) \<and>
      (du_Phase u = leasePhaseApplied \<longrightarrow> unc = 0) \<and> (du_Phase u = leasePhaseApplying \<longrightarrow> unc \<noteq> 0) \<and>
      (du_Phase u = leasePhaseRestoring \<or> du_Phase u = leasePhaseReloading \<longrightarrow> unc = length (du_Properties u)) \<and>
      validateDurableFootprint (du_Unit u) (du_Footprint u) (du_Phase u = leasePhaseApplying) \<and>
      validateDurableFootprint (du_Unit u) (du_PreviousFootprint u) False \<and>
      (du_Phase u \<noteq> leasePhaseApplying \<longrightarrow> du_PreviousFootprint u = []) \<and>
      map df_Path (du_Footprint u) = sort (map (managedRuntimeDropInPath (du_Unit u) \<circ> dp_Property) (du_Properties u)))"

definition validateDurableLeaseJournal :: "(u32 \<Rightarrow> u32 \<Rightarrow> bool) \<Rightarrow> durable_lease_journal \<Rightarrow> bool" where
  "validateDurableLeaseJournal fits j \<longleftrightarrow>
     dj_Version j = leaseJournalVersion \<and> (dj_Units j \<noteq> [] \<longrightarrow> dj_Generation j \<noteq> 0) \<and>
     sorted (map du_Unit (dj_Units j)) \<and> distinct (map du_Unit (dj_Units j)) \<and>
     list_all (validDurableUnit fits) (dj_Units j)"

definition sortDurableUnit :: "durable_unit_lease \<Rightarrow> durable_unit_lease" where
  "sortDurableUnit u =
     u\<lparr> du_Properties := sort_key dp_Property (du_Properties u), du_Footprint := sort_key df_Path (du_Footprint u),
        du_PreviousFootprint := sort_key df_Path (du_PreviousFootprint u) \<rparr>"

definition sortDurableJournal :: "durable_lease_journal \<Rightarrow> durable_lease_journal" where
  "sortDurableJournal j = j\<lparr> dj_Units := map sortDurableUnit (sort_key du_Unit (dj_Units j)) \<rparr>"

section \<open>Between memory and journal\<close>

definition identityToDurable :: "unit_identity \<Rightarrow> durable_unit_identity" where
  "identityToDurable i = \<lparr> di_ObjectPath = ui_ObjectPath i, di_InvocationID = hexEncode (ui_InvocationID i),
                           di_ControlGroupID = ui_ControlGroupID i \<rparr>"

definition identityFromDurable :: "string \<Rightarrow> durable_unit_identity \<Rightarrow> unit_identity option" where
  "identityFromDurable unit v =
     (case hexDecode (di_InvocationID v) of
        Some d \<Rightarrow> if length d = 16
                  then Some \<lparr> ui_Name = unit, ui_ObjectPath = di_ObjectPath v, ui_InvocationID = d,
                              ui_ControlGroupID = di_ControlGroupID v \<rparr>
                  else None
      | None \<Rightarrow> None)"

definition durableFootprint :: "string list \<Rightarrow> unit_file_fingerprint list \<Rightarrow> durable_file_fingerprint list" where
  "durableFootprint paths fingerprints =
     (let digests = map_of (rev (map (\<lambda>f. (uf_path f, hexEncode (uf_digest f))) fingerprints))
      in map (\<lambda>p. \<lparr> df_Path = p, df_SHA256 = (case digests p of Some d \<Rightarrow> d | None \<Rightarrow> []) \<rparr>) paths)"

definition durableFingerprints :: "unit_file_fingerprint list \<Rightarrow> durable_file_fingerprint list" where
  "durableFingerprints fs = durableFootprint (map uf_path fs) fs"

text \<open>A digest is decoded into an array of 32 bytes; one that does not decode leaves what was decoded.\<close>

definition fingerprintsFromDurable :: "durable_file_fingerprint list \<Rightarrow> unit_file_fingerprint list" where
  "fingerprintsFromDurable vs =
     map (\<lambda>v. \<lparr> uf_path = df_Path v,
                uf_digest = (let d = (case hexDecode (df_SHA256 v) of Some d \<Rightarrow> d | None \<Rightarrow> [])
                             in take 32 (d @ replicate 32 (char_of (0::nat)))) \<rparr>)
       (filter (\<lambda>v. df_SHA256 v \<noteq> []) vs)"

definition propertyToDurable :: "property_name \<Rightarrow> property_lease_state \<Rightarrow> durable_property_lease" where
  "propertyToDurable name s =
     (let device = isDeviceProperty name in
      \<lparr> dp_Property = name,
        dp_Baseline = (if device then 0 else pv_scalar (ls_baseline s)),
        dp_PreviousApplied = (if device then 0 else pv_scalar (ls_previousApplied s)),
        dp_LastApplied = (if device then 0 else pv_scalar (ls_lastApplied s)),
        dp_BaselineDeviceLimits = (if device then pv_devices (ls_baseline s) else []),
        dp_PreviousDeviceLimits = (if device then pv_devices (ls_previousApplied s) else []),
        dp_LastAppliedDeviceLimits = (if device then pv_devices (ls_lastApplied s) else []),
        dp_IODeviceWeightTargets = ls_ioWeightTargets s,
        dp_PreviousIODeviceWeightTargets = ls_previousIOWeightTargets s,
        dp_PendingIODeviceWeightResets = ls_pendingIOWeightResets s,
        dp_Uncertain = ls_uncertain s, dp_NewLease = ls_newLease s \<rparr>)"

definition propertyFromDurable :: "durable_property_lease \<Rightarrow> property_lease_state" where
  "propertyFromDurable p =
     (let baseline = durablePropertyValue (dp_Property p) (dp_Baseline p) (dp_BaselineDeviceLimits p);
          lastApplied = durablePropertyValue (dp_Property p) (dp_LastApplied p) (dp_LastAppliedDeviceLimits p) in
      \<lparr> ls_lease = publicPropertyLease (dp_Property p) baseline lastApplied, ls_baseline = baseline,
        ls_lastApplied = lastApplied,
        ls_previousApplied = durablePropertyValue (dp_Property p) (dp_PreviousApplied p) (dp_PreviousDeviceLimits p),
        ls_ioWeightTargets = dp_IODeviceWeightTargets p,
        ls_previousIOWeightTargets = dp_PreviousIODeviceWeightTargets p,
        ls_pendingIOWeightResets = dp_PendingIODeviceWeightResets p,
        ls_uncertain = dp_Uncertain p, ls_newLease = dp_NewLease p \<rparr>)"

definition phaseOf :: "'z adapter_scheme \<Rightarrow> string \<Rightarrow> lease_phase" where
  "phaseOf a unit = (case map_of (phases a) unit of Some p \<Rightarrow> p | None \<Rightarrow> [])"

definition unitToDurable :: "'z adapter_scheme \<Rightarrow> unit_identity \<times> unit_override_lease \<Rightarrow> durable_unit_lease" where
  "unitToDurable a io =
     (case io of (identity, override) \<Rightarrow>
      \<lparr> du_Unit = ui_Name identity, du_Identity = identityToDurable identity, du_Phase = phaseOf a (ui_Name identity),
        du_Properties = map (\<lambda>(k, s). propertyToDurable (snd k) s) (filter (\<lambda>(k, s). fst k = identity) (leases a)),
        du_Footprint = durableFootprint (uo_managedPaths override) (uo_fingerprints override),
        du_PreviousFootprint = durableFingerprints (uo_previousFingerprint override) \<rparr>)"

definition exportJournal :: "(u32 \<Rightarrow> u32 \<Rightarrow> bool) \<Rightarrow> 'z adapter_scheme \<Rightarrow> u64 \<Rightarrow> durable_lease_journal option" where
  "exportJournal fits a g =
     (let j = sortDurableJournal \<lparr> dj_Version = leaseJournalVersion, dj_Generation = g,
                                   dj_Units = map (unitToDurable a) (sort_key (ui_Name \<circ> fst) (overrides a)) \<rparr>
      in if validateDurableLeaseJournal fits j then Some j else None)"

definition importUnit :: "durable_unit_lease \<Rightarrow> 'z adapter_scheme \<Rightarrow> 'z adapter_scheme option" where
  "importUnit u a =
     (case identityFromDurable (du_Unit u) (du_Identity u) of
        None \<Rightarrow> None
      | Some identity \<Rightarrow>
          Some (a\<lparr> overrides := AList.update identity
                     \<lparr> uo_managedPaths = map df_Path (du_Footprint u),
                       uo_fingerprints = fingerprintsFromDurable (du_Footprint u),
                       uo_previousFingerprint = fingerprintsFromDurable (du_PreviousFootprint u) \<rparr> (overrides a),
                   phases := AList.update (du_Unit u) (du_Phase u) (phases a),
                   leases := fold (\<lambda>p. AList.update (identity, dp_Property p) (propertyFromDurable p))
                               (du_Properties u) (leases a) \<rparr>))"

fun importUnits :: "durable_unit_lease list \<Rightarrow> 'z adapter_scheme \<Rightarrow> 'z adapter_scheme option" where
  "importUnits [] a = Some a"
| "importUnits (u # us) a = (case importUnit u a of None \<Rightarrow> None | Some a' \<Rightarrow> importUnits us a')"

definition importJournal :: "durable_lease_journal \<Rightarrow> 'z adapter_scheme \<Rightarrow> 'z adapter_scheme option" where
  "importJournal j a = importUnits (dj_Units j) a"

section \<open>Well-formed leases\<close>

definition lease_ok :: "property_name \<Rightarrow> property_lease_state \<Rightarrow> bool" where
  "lease_ok p s \<longleftrightarrow>
     ls_lease s = publicPropertyLease p (ls_baseline s) (ls_lastApplied s) \<and>
     clonePropertyValue p (ls_baseline s) = ls_baseline s \<and> clonePropertyValue p (ls_lastApplied s) = ls_lastApplied s \<and>
     clonePropertyValue p (ls_previousApplied s) = ls_previousApplied s"

definition fingerprints_ok :: "unit_file_fingerprint list \<Rightarrow> bool" where
  "fingerprints_ok fs \<longleftrightarrow> sorted_wrt (<) (map uf_path fs) \<and> (\<forall>f \<in> set fs. length (uf_digest f) = 32)"

definition override_ok :: "unit_override_lease \<Rightarrow> bool" where
  "override_ok u \<longleftrightarrow>
     sorted_wrt (<) (uo_managedPaths u) \<and> fingerprints_ok (uo_fingerprints u) \<and>
     fingerprints_ok (uo_previousFingerprint u) \<and> uf_path ` set (uo_fingerprints u) \<subseteq> set (uo_managedPaths u)"

definition adapter_ok :: "'z adapter_scheme \<Rightarrow> bool" where
  "adapter_ok a \<longleftrightarrow>
     distinct (map fst (leases a)) \<and> distinct (map fst (overrides a)) \<and> distinct (map fst (phases a)) \<and>
     (\<forall>(k, s) \<in> set (leases a). fst k \<in> fst ` set (overrides a) \<and> lease_ok (snd k) s) \<and>
     (\<forall>(i, u) \<in> set (overrides a). length (ui_InvocationID i) = 16 \<and> override_ok u) \<and>
     fst ` set (phases a) = ui_Name ` fst ` set (overrides a)"

definition emptyAdapter :: adapter where
  "emptyAdapter = \<lparr> leases = [], overrides = [], phases = [], generation = 0, recovery = [], blocked = [], closed = False \<rparr>"

section \<open>A journal reads back\<close>

lemma hexChar_byte:
  "n < 16 \<Longrightarrow> byte_of (hexChar n) = (if n < 10 then 48 + n else 87 + n)"
  by (simp add: hexChar_def byte_of_def)

lemma hexDecode_hexEncode [simp]: "hexDecode (hexEncode s) = Some s"
proof (induction s)
  case (Cons c s)
  have b: "byte_of c div 16 < 16" "byte_of c mod 16 < 16"
    by (simp_all add: byte_of_def less_mult_imp_div_less)
  have digit: "isHexDigit (hexChar n) \<and> hexValue (hexChar n) = n" if "n < 16" for n
    using that by (simp add: isHexDigit_def is_digit_def hexValue_def hexChar_byte Let_def)
  have "char_of (16 * (byte_of c div 16) + byte_of c mod 16) = c" by (simp add: byte_of_def)
  then show ?case using Cons b digit by simp
qed simp

lemma hexEncode_eq_Nil [simp]: "hexEncode s = [] \<longleftrightarrow> s = []"
  by (cases s) simp_all

lemma identity_round_trip:
  "length (ui_InvocationID i) = 16 \<Longrightarrow> identityFromDurable (ui_Name i) (identityToDurable i) = Some i"
  by (simp add: identityFromDurable_def identityToDurable_def)

lemma identityFromDurable_name: "identityFromDurable unit v = Some i \<Longrightarrow> ui_Name i = unit"
  by (auto simp: identityFromDurable_def split: option.splits if_splits)

lemma property_round_trip: "lease_ok n s \<Longrightarrow> propertyFromDurable (propertyToDurable n s) = s"
  by (auto simp: lease_ok_def propertyFromDurable_def propertyToDurable_def durablePropertyValue_def
      clonePropertyValue_def Let_def split: if_splits intro!: property_lease_state.equality)

lemma sort_key_map_sorted: "sorted (map f xs) \<Longrightarrow> sort_key f xs = xs"
  by (induction xs) (simp_all add: insort_is_Cons)

lemma strict_sorted_filter_eq:
  assumes "sorted_wrt (<) (xs :: string list)" "sorted_wrt (<) ys" "set ys \<subseteq> set xs"
  shows "filter (\<lambda>x. x \<in> set ys) xs = ys"
proof (rule sorted_distinct_set_unique)
  show "sorted (filter (\<lambda>x. x \<in> set ys) xs)" "distinct (filter (\<lambda>x. x \<in> set ys) xs)" "sorted ys" "distinct ys"
    using assms(1,2) by (auto simp: strict_sorted_iff sorted_filter [of id, simplified])
  show "set (filter (\<lambda>x. x \<in> set ys) xs) = set ys" using assms(3) by auto
qed

lemma digest_lookup:
  assumes "fingerprints_ok fs"
  shows "map_of (rev (map (\<lambda>f. (uf_path f, hexEncode (uf_digest f))) fs)) p =
         map_of (map (\<lambda>f. (uf_path f, hexEncode (uf_digest f))) fs) p"
proof -
  have "distinct (map uf_path fs)" using assms by (simp add: fingerprints_ok_def strict_sorted_iff)
  then have "distinct (map fst (map (\<lambda>f. (uf_path f, hexEncode (uf_digest f))) fs))" by (simp add: comp_def)
  then show ?thesis by (intro fun_cong [OF map_of_inject_set [THEN iffD2]]) (simp_all add: rev_map flip: rev_map)
qed

text \<open>The paths come back, and the fingerprints of those that have one.\<close>

lemma footprint_round_trip:
  assumes paths: "sorted_wrt (<) paths" and fs: "fingerprints_ok fs" "uf_path ` set fs \<subseteq> set paths"
  shows "map df_Path (sort_key df_Path (durableFootprint paths fs)) = paths"
    and "fingerprintsFromDurable (sort_key df_Path (durableFootprint paths fs)) = fs"
proof -
  let ?d = "map_of (map (\<lambda>f. (uf_path f, hexEncode (uf_digest f))) fs)"
  have eq: "durableFootprint paths fs = map (\<lambda>p. \<lparr> df_Path = p, df_SHA256 = (case ?d p of Some d \<Rightarrow> d | None \<Rightarrow> []) \<rparr>) paths"
    using fs(1) by (simp add: durableFootprint_def Let_def digest_lookup)
  have m: "map df_Path (durableFootprint paths fs) = paths" by (simp add: eq comp_def)
  then have s: "sort_key df_Path (durableFootprint paths fs) = durableFootprint paths fs"
    using paths by (simp add: sort_key_map_sorted strict_sorted_iff)
  show "map df_Path (sort_key df_Path (durableFootprint paths fs)) = paths" by (simp only: s m)
  have dist: "distinct (map uf_path fs)" using fs(1) by (simp add: fingerprints_ok_def strict_sorted_iff)
  have look: "?d (uf_path f) = Some (hexEncode (uf_digest f))" if "f \<in> set fs" for f
    using that dist by (auto intro!: map_of_is_SomeI simp: comp_def)
  have some: "(case ?d p of Some d \<Rightarrow> d | None \<Rightarrow> []) \<noteq> [] \<longleftrightarrow> p \<in> set (map uf_path fs)" for p
  proof -
    have "uf_digest f \<noteq> []" if "f \<in> set fs" for f using fs(1) that by (auto simp: fingerprints_ok_def)
    moreover have "?d p = None" if "p \<notin> set (map uf_path fs)" using that by (simp add: map_of_keyed_None)
    ultimately show ?thesis using look by (cases "p \<in> set (map uf_path fs)") auto
  qed
  have "filter (\<lambda>v. df_SHA256 v \<noteq> []) (durableFootprint paths fs) =
      map (\<lambda>p. \<lparr> df_Path = p, df_SHA256 = (case ?d p of Some d \<Rightarrow> d | None \<Rightarrow> []) \<rparr>)
        (filter (\<lambda>p. p \<in> set (map uf_path fs)) paths)"
    by (simp add: eq filter_map comp_def some)
  also have "filter (\<lambda>p. p \<in> set (map uf_path fs)) paths = map uf_path fs"
    using paths fs by (intro strict_sorted_filter_eq) (auto simp: fingerprints_ok_def)
  finally have "filter (\<lambda>v. df_SHA256 v \<noteq> []) (durableFootprint paths fs) =
      map (\<lambda>f. \<lparr> df_Path = uf_path f, df_SHA256 = hexEncode (uf_digest f) \<rparr>) fs"
    using look by simp
  moreover have "map (\<lambda>f. \<lparr> uf_path = uf_path f, uf_digest = take 32 (uf_digest f @ replicate 32 (char_of (0::nat))) \<rparr>) fs = fs"
    using fs(1) by (intro map_idI) (auto simp: fingerprints_ok_def)
  ultimately show "fingerprintsFromDurable (sort_key df_Path (durableFootprint paths fs)) = fs"
    by (simp add: s fingerprintsFromDurable_def comp_def Let_def)
qed

lemma map_of_same_set:
  assumes "set xs = set ys" "distinct (map fst ys)"
  shows "map_of xs = map_of ys"
proof
  fix k
  show "map_of xs k = map_of ys k"
  proof (cases "map_of xs k")
    case None
    then have "map_of ys k = None" using assms(1) by (simp add: map_of_eq_None_iff)
    then show ?thesis using None by simp
  next
    case (Some v)
    then have "(k, v) \<in> set ys" using assms(1) map_of_SomeD by fastforce
    then show ?thesis using Some assms(2) by simp
  qed
qed

lemma map_of_fold_update:
  assumes "distinct (map k ps)"
  shows "map_of (fold (\<lambda>p. AList.update (k p) (f p)) ps al) = map_of al ++ map_of (map (\<lambda>p. (k p, f p)) ps)"
  using assms
proof (induction ps arbitrary: al)
  case (Cons p ps)
  have "map_of (map (\<lambda>p. (k p, f p)) ps) (k p) = None" using Cons.prems by (simp add: map_of_keyed_None)
  then show ?case using Cons by (auto simp: fun_eq_iff map_add_def split: option.splits)
qed simp

text \<open>Importing units with distinct names adds exactly what their records say.\<close>

definition importedOverride :: "durable_unit_lease \<Rightarrow> unit_override_lease" where
  "importedOverride u = \<lparr> uo_managedPaths = map df_Path (du_Footprint u),
     uo_fingerprints = fingerprintsFromDurable (du_Footprint u),
     uo_previousFingerprint = fingerprintsFromDurable (du_PreviousFootprint u) \<rparr>"

definition importedLeases :: "unit_identity \<Rightarrow> durable_unit_lease \<Rightarrow> (lease_key \<times> property_lease_state) list" where
  "importedLeases i u = map (\<lambda>p. ((i, dp_Property p), propertyFromDurable p)) (du_Properties u)"

lemma importUnits_spec:
  assumes "\<And>u. u \<in> set us \<Longrightarrow> identityFromDurable (du_Unit u) (du_Identity u) = Some (idf u)"
    and "\<And>u. u \<in> set us \<Longrightarrow> distinct (map dp_Property (du_Properties u))"
    and "distinct (map du_Unit us)"
  shows "\<exists>a'. importUnits us a = Some a' \<and>
     map_of (overrides a') = map_of (overrides a) ++ map_of (map (\<lambda>u. (idf u, importedOverride u)) us) \<and>
     map_of (phases a') = map_of (phases a) ++ map_of (map (\<lambda>u. (du_Unit u, du_Phase u)) us) \<and>
     map_of (leases a') = map_of (leases a) ++ map_of (concat (map (\<lambda>u. importedLeases (idf u) u) us))"
  using assms
proof (induction us arbitrary: a)
  case (Cons u us)
  define b where "b = a\<lparr> overrides := AList.update (idf u) (importedOverride u) (overrides a),
     phases := AList.update (du_Unit u) (du_Phase u) (phases a),
     leases := fold (\<lambda>p. AList.update (idf u, dp_Property p) (propertyFromDurable p)) (du_Properties u) (leases a) \<rparr>"
  have step: "importUnit u a = Some b" using Cons.prems(1) [of u] by (simp add: importUnit_def b_def importedOverride_def)
  obtain a' where a': "importUnits us b = Some a'"
     "map_of (overrides a') = map_of (overrides b) ++ map_of (map (\<lambda>u. (idf u, importedOverride u)) us)"
     "map_of (phases a') = map_of (phases b) ++ map_of (map (\<lambda>u. (du_Unit u, du_Phase u)) us)"
     "map_of (leases a') = map_of (leases b) ++ map_of (concat (map (\<lambda>u. importedLeases (idf u) u) us))"
    using Cons.IH [of b] Cons.prems by auto
  have name: "ui_Name (idf v) = du_Unit v" if "v \<in> set (u # us)" for v
    using Cons.prems(1) [OF that] by (rule identityFromDurable_name)
  have fresh: "idf u \<notin> idf ` set us" "du_Unit u \<notin> du_Unit ` set us"
    using Cons.prems(3) name by (auto, metis image_eqI)
  have keys: "dom (map_of (importedLeases (idf u) u)) \<inter> dom (map_of (concat (map (\<lambda>u. importedLeases (idf u) u) us))) = {}"
    using fresh(1) by (auto simp: dom_map_of_conv_image_fst importedLeases_def) (metis image_eqI)
  have "distinct (map (\<lambda>p. (idf u, dp_Property p)) (du_Properties u))"
    using Cons.prems(2) [of u] by (simp add: distinct_map inj_on_def)
  then have "map_of (leases b) = map_of (leases a) ++ map_of (importedLeases (idf u) u)"
    by (simp add: b_def importedLeases_def map_of_fold_update)
  then have "map_of (leases a') = map_of (leases a) ++ map_of (concat (map (\<lambda>u. importedLeases (idf u) u) (u # us)))"
    using a'(4) map_add_comm [OF keys] by (simp only: list.map concat.simps map_of_append map_add_assoc [symmetric])
  moreover have "map_of (overrides a') = map_of (overrides a) ++ map_of (map (\<lambda>u. (idf u, importedOverride u)) (u # us))"
    "map_of (phases a') = map_of (phases a) ++ map_of (map (\<lambda>u. (du_Unit u, du_Phase u)) (u # us))"
    using a'(2,3) fresh by (simp_all add: b_def map_add_upd_left dom_map_of_conv_image_fst image_image)
  ultimately show ?case unfolding importUnits.simps step option.case using a'(1) by blast
qed simp

lemma exported_units:
  assumes "exportJournal fits a g = Some j"
  shows "dj_Units j = map sortDurableUnit (sort_key du_Unit (map (unitToDurable a) (sort_key (ui_Name \<circ> fst) (overrides a))))"
    and "validateDurableLeaseJournal fits j" and "set (dj_Units j) = (sortDurableUnit \<circ> unitToDurable a) ` set (overrides a)"
    and "dj_Generation j = g"
  using assms by (auto simp: exportJournal_def Let_def sortDurableJournal_def split: if_splits)

lemma exported_override:
  fixes a :: "'z adapter_scheme"
  assumes "length (ui_InvocationID i) = 16" "override_ok u"
  defines "d \<equiv> sortDurableUnit (unitToDurable a (i, u))"
  shows "identityFromDurable (du_Unit d) (du_Identity d) = Some i" and "importedOverride d = u"
proof -
  show "identityFromDurable (du_Unit d) (du_Identity d) = Some i"
    using assms(1) by (simp add: d_def sortDurableUnit_def unitToDurable_def identity_round_trip)
  have f: "du_Footprint d = sort_key df_Path (durableFootprint (uo_managedPaths u) (uo_fingerprints u))"
    "du_PreviousFootprint d = sort_key df_Path (durableFootprint (map uf_path (uo_previousFingerprint u)) (uo_previousFingerprint u))"
    by (simp_all add: d_def sortDurableUnit_def unitToDurable_def durableFingerprints_def)
  show "importedOverride d = u"
    using assms(2) unfolding importedOverride_def f
    by (auto simp: override_ok_def footprint_round_trip fingerprints_ok_def)
qed

lemma exported_leases:
  assumes "\<And>k s. (k, s) \<in> set (leases a) \<Longrightarrow> lease_ok (snd k) s"
  shows "set (importedLeases i (sortDurableUnit (unitToDurable a (i, u)))) = {(k, s) \<in> set (leases a). fst k = i}"
proof -
  have "set (importedLeases i (sortDurableUnit (unitToDurable a (i, u)))) =
      (\<lambda>(k, s). ((i, snd k), propertyFromDurable (propertyToDurable (snd k) s))) ` {(k, s) \<in> set (leases a). fst k = i}"
    by (auto simp: importedLeases_def sortDurableUnit_def unitToDurable_def image_iff propertyToDurable_def Let_def
        intro!: bexI)
  also have "\<dots> = {(k, s) \<in> set (leases a). fst k = i}"
    using property_round_trip assms by (fastforce simp: image_iff)
  finally show ?thesis .
qed

text \<open>What the units of an exported journal hold together: the phase of every unit and the lease of every property.\<close>

lemma exported_phase_set:
  assumes ok: "adapter_ok a" and units: "set us = (\<lambda>iu. sortDurableUnit (unitToDurable a iu)) ` set (overrides a)"
  shows "set (map (\<lambda>u. (du_Unit u, du_Phase u)) us) = set (phases a)"
proof -
  let ?d = "\<lambda>iu. sortDurableUnit (unitToDurable a iu)"
  have "(du_Unit (?d iu), du_Phase (?d iu)) = (ui_Name (fst iu), phaseOf a (ui_Name (fst iu)))" for iu
    by (cases iu) (simp add: sortDurableUnit_def unitToDurable_def)
  then have "set (map (\<lambda>u. (du_Unit u, du_Phase u)) us) = (\<lambda>n. (n, phaseOf a n)) ` fst ` set (phases a)"
    using ok unfolding adapter_ok_def by (simp only: units set_map image_image)
  also have "\<dots> = (\<lambda>x. x) ` set (phases a)"
  proof -
    have "phaseOf a (fst x) = snd x" if "x \<in> set (phases a)" for x
      using ok that by (cases x) (simp add: adapter_ok_def phaseOf_def)
    then show ?thesis unfolding image_image by (intro image_cong) (auto simp: prod_eq_iff)
  qed
  finally show ?thesis by simp
qed

lemma exported_lease_set:
  assumes ok: "adapter_ok a" and units: "set us = (\<lambda>iu. sortDurableUnit (unitToDurable a iu)) ` set (overrides a)"
    and idf: "\<And>i u. (i, u) \<in> set (overrides a) \<Longrightarrow> idf (sortDurableUnit (unitToDurable a (i, u))) = i"
  shows "set (concat (map (\<lambda>u. importedLeases (idf u) u) us)) = set (leases a)"
proof -
  let ?d = "\<lambda>iu. sortDurableUnit (unitToDurable a iu)"
  have lease: "lease_ok (snd k) s" "fst k \<in> fst ` set (overrides a)" if "(k, s) \<in> set (leases a)" for k s
    using ok that by (auto simp: adapter_ok_def)
  have "set (importedLeases (idf (?d (i, u))) (?d (i, u))) = {(k, s) \<in> set (leases a). fst k = i}"
    if "(i, u) \<in> set (overrides a)" for i u
    using exported_leases [OF lease(1)] idf [OF that] by simp
  then have "(\<Union>iu \<in> set (overrides a). set (importedLeases (idf (?d iu)) (?d iu))) =
      (\<Union>iu \<in> set (overrides a). {(k, s) \<in> set (leases a). fst k = fst iu})"
    by (intro SUP_cong) auto
  then show ?thesis using lease(2) by (force simp: units)
qed


text \<open>An adapter in the middle of its first application of a CPU weight to one user slice.\<close>

definition sampleIdentity :: unit_identity where
  "sampleIdentity = \<lparr> ui_Name = ''user-7.slice'', ui_ObjectPath = ''/org/freedesktop/systemd1/unit/user_2d7_2eslice'',
     ui_InvocationID = ''0123456789abcdef'', ui_ControlGroupID = 42 \<rparr>"

definition sampleLease :: property_lease_state where
  "sampleLease = (newPropertyLeaseState PropertyCPUWeight (scalarPropertyValue SystemdUnset))
     \<lparr> ls_previousApplied := scalarPropertyValue SystemdUnset, ls_lastApplied := scalarPropertyValue 300,
       ls_lease := publicPropertyLease PropertyCPUWeight (scalarPropertyValue SystemdUnset) (scalarPropertyValue 300),
       ls_uncertain := True, ls_newLease := True \<rparr>"

definition sampleAdapter :: adapter where
  "sampleAdapter = emptyAdapter\<lparr>
     leases := [((sampleIdentity, PropertyCPUWeight), sampleLease)],
     overrides := [(sampleIdentity, \<lparr> uo_managedPaths = [managedRuntimeDropInPath ''user-7.slice'' PropertyCPUWeight],
                                       uo_fingerprints = [], uo_previousFingerprint = [] \<rparr>)],
     phases := [(''user-7.slice'', leasePhaseApplying)], generation := 4 \<rparr>"

lemma sampleAdapter_ok: "adapter_ok sampleAdapter"
  by (simp add: adapter_ok_def sampleAdapter_def emptyAdapter_def sampleIdentity_def override_ok_def fingerprints_ok_def
      lease_ok_def sampleLease_def newPropertyLeaseState_def Let_def publicPropertyLease_def clonePropertyValue_def
      scalarPropertyValue_def isDeviceProperty_def approvedDeviceProperties_def property_names)

lemma sampleAdapter_exports: "exportJournal (\<lambda>_ _. True) sampleAdapter 5 \<noteq> None"
  by code_simp


end
