(* ===== verification/Result_Monad.thy ===== *)
theory Result_Monad
  imports Main
begin

text \<open>
  Operations that change a state and may return early with an error, and triples about them. An
  operation keeps the state it had when it failed, as a Go method with a pointer receiver does.
\<close>

section \<open>Operations\<close>

type_synonym ('s, 'e, 'a) op = "'s \<Rightarrow> ('e + 'a) \<times> 's"

definition retR :: "'a \<Rightarrow> ('s, 'e, 'a) op" where "retR x = (\<lambda>s. (Inr x, s))"

definition failR :: "'e \<Rightarrow> ('s, 'e, 'a) op" where "failR e = (\<lambda>s. (Inl e, s))"

text \<open>Run the first; return its error, or go on with its value.\<close>

definition bindR :: "('s, 'e, 'a) op \<Rightarrow> ('a \<Rightarrow> ('s, 'e, 'b) op) \<Rightarrow> ('s, 'e, 'b) op" where
  "bindR m f = (\<lambda>s. case m s of (Inl e, s') \<Rightarrow> (Inl e, s') | (Inr x, s') \<Rightarrow> f x s')"

text \<open>A result computed without the state, a guard, a read and a write of the state.\<close>

definition liftR :: "'e + 'a \<Rightarrow> ('s, 'e, 'a) op" where "liftR r = (\<lambda>s. (r, s))"

definition checkR :: "bool \<Rightarrow> 'e \<Rightarrow> ('s, 'e, unit) op" where
  "checkR b e = (if b then retR () else failR e)"

definition readR :: "('s \<Rightarrow> 'a) \<Rightarrow> ('s, 'e, 'a) op" where "readR f = (\<lambda>s. (Inr (f s), s))"

definition writeR :: "('s \<Rightarrow> 's) \<Rightarrow> ('s, 'e, unit) op" where "writeR g = (\<lambda>s. (Inr (), g s))"

text \<open>The error as a value, where the code looks at it instead of returning it.\<close>

definition tryR :: "('s, 'e, 'a) op \<Rightarrow> ('s, 'f, 'e + 'a) op" where
  "tryR m = (\<lambda>s. case m s of (r, s') \<Rightarrow> (Inr r, s'))"

fun forR :: "('x \<Rightarrow> ('s, 'e, unit) op) \<Rightarrow> 'x list \<Rightarrow> ('s, 'e, unit) op" where
  "forR f [] = retR ()"
| "forR f (x # xs) = bindR (f x) (\<lambda>_. forR f xs)"

fun mapR :: "('x \<Rightarrow> ('s, 'e, 'y) op) \<Rightarrow> 'x list \<Rightarrow> ('s, 'e, 'y list) op" where
  "mapR f [] = retR []"
| "mapR f (x # xs) = bindR (f x) (\<lambda>y. bindR (mapR f xs) (\<lambda>ys. retR (y # ys)))"

lemmas op_defs = retR_def failR_def bindR_def liftR_def checkR_def readR_def writeR_def tryR_def

lemma bindR_Inr: "bindR m f s = (Inr y, s') \<longleftrightarrow> (\<exists>x t. m s = (Inr x, t) \<and> f x t = (Inr y, s'))"
  by (auto simp: bindR_def split: prod.splits sum.splits)

lemma bindR_assoc: "bindR (bindR m f) g = bindR m (\<lambda>x. bindR (f x) g)"
  by (auto simp: bindR_def fun_eq_iff split: prod.splits sum.splits)

section \<open>Triples\<close>

text \<open>From a state with \<open>P\<close>, a value comes with \<open>Q\<close> and an error with \<open>E\<close>.\<close>

definition triple ::
  "('s \<Rightarrow> bool) \<Rightarrow> ('s, 'e, 'a) op \<Rightarrow> ('a \<Rightarrow> 's \<Rightarrow> bool) \<Rightarrow> ('e \<Rightarrow> 's \<Rightarrow> bool) \<Rightarrow> bool" where
  "triple P m Q E \<longleftrightarrow> (\<forall>s. P s \<longrightarrow> (case m s of (Inr x, s') \<Rightarrow> Q x s' | (Inl e, s') \<Rightarrow> E e s'))"

lemma tripleI:
  assumes "\<And>s x s'. P s \<Longrightarrow> m s = (Inr x, s') \<Longrightarrow> Q x s'" "\<And>s e s'. P s \<Longrightarrow> m s = (Inl e, s') \<Longrightarrow> E e s'"
  shows "triple P m Q E"
  unfolding triple_def using assms by (auto split: prod.splits sum.splits)

lemma triple_value: "triple P m Q E \<Longrightarrow> P s \<Longrightarrow> m s = (Inr x, s') \<Longrightarrow> Q x s'"
  by (fastforce simp: triple_def)

lemma triple_error: "triple P m Q E \<Longrightarrow> P s \<Longrightarrow> m s = (Inl e, s') \<Longrightarrow> E e s'"
  by (fastforce simp: triple_def)

lemma triple_weaken:
  assumes "triple P' m Q' E'" "\<And>s. P s \<Longrightarrow> P' s" "\<And>x s. Q' x s \<Longrightarrow> Q x s" "\<And>e s. E' e s \<Longrightarrow> E e s"
  shows "triple P m Q E"
  using assms unfolding triple_def by (fastforce split: prod.splits sum.splits)

lemma triple_pre: "triple P' m Q E \<Longrightarrow> (\<And>s. P s \<Longrightarrow> P' s) \<Longrightarrow> triple P m Q E"
  by (erule triple_weaken) auto

lemma triple_bind:
  assumes "triple P m R E" "\<And>x. triple (R x) (f x) Q E"
  shows "triple P (bindR m f) Q E"
  using assms unfolding triple_def bindR_def by (fastforce split: prod.splits sum.splits)

lemma triple_ret: "(\<And>s. P s \<Longrightarrow> Q x s) \<Longrightarrow> triple P (retR x) Q E"
  by (simp add: triple_def retR_def)

lemma triple_fail: "(\<And>s. P s \<Longrightarrow> E e s) \<Longrightarrow> triple P (failR e) Q E"
  by (simp add: triple_def failR_def)

lemma triple_lift:
  "(\<And>s x. P s \<Longrightarrow> r = Inr x \<Longrightarrow> Q x s) \<Longrightarrow> (\<And>s e. P s \<Longrightarrow> r = Inl e \<Longrightarrow> E e s) \<Longrightarrow> triple P (liftR r) Q E"
  by (simp add: triple_def liftR_def split: sum.splits)

lemma triple_check:
  "(\<And>s. P s \<Longrightarrow> b \<Longrightarrow> Q () s) \<Longrightarrow> (\<And>s. P s \<Longrightarrow> \<not> b \<Longrightarrow> E e s) \<Longrightarrow> triple P (checkR b e) Q E"
  by (simp add: triple_def checkR_def retR_def failR_def)

lemma triple_read: "(\<And>s. P s \<Longrightarrow> Q (f s) s) \<Longrightarrow> triple P (readR f) Q E"
  by (simp add: triple_def readR_def)

lemma triple_write: "(\<And>s. P s \<Longrightarrow> Q () (g s)) \<Longrightarrow> triple P (writeR g) Q E"
  by (simp add: triple_def writeR_def)

lemma triple_try:
  "triple P m (\<lambda>x. Q (Inr x)) (\<lambda>e. Q (Inl e)) \<Longrightarrow> triple P (tryR m) Q E"
  unfolding triple_def tryR_def by (auto split: prod.splits sum.splits) (metis sum.exhaust)

lemma triple_if:
  "(b \<Longrightarrow> triple P m Q E) \<Longrightarrow> (\<not> b \<Longrightarrow> triple P n Q E) \<Longrightarrow> triple P (if b then m else n) Q E"
  by simp

lemma triple_const: "(b \<Longrightarrow> triple P m Q E) \<Longrightarrow> triple (\<lambda>s. P s \<and> b) m Q E"
  by (auto simp: triple_def)

lemma triple_conj_const: "triple P m Q E \<Longrightarrow> triple (\<lambda>s. P s \<and> b) m (\<lambda>x s. Q x s \<and> b) E"
  unfolding triple_def by (fastforce split: prod.splits sum.splits)

lemma triple_conj:
  "triple P m Q E \<Longrightarrow> triple P' m Q' E' \<Longrightarrow> triple (\<lambda>s. P s \<and> P' s) m (\<lambda>x s. Q x s \<and> Q' x s) (\<lambda>e s. E e s \<and> E' e s)"
  unfolding triple_def by (fastforce split: prod.splits sum.splits)

text \<open>A first step with its own error postcondition, and one that keeps what the rest starts from.\<close>

lemma triple_first:
  assumes "triple P m R E'" "\<And>e s. E' e s \<Longrightarrow> E e s" "\<And>x. triple (R x) (f x) Q E"
  shows "triple P (bindR m f) Q E"
  by (rule triple_bind [OF triple_weaken [OF assms(1)] assms(3)]) (auto simp: assms(2))

lemma keeps_first:
  assumes "triple I m (\<lambda>_. I) (\<lambda>_. I)" "\<And>s. I s \<Longrightarrow> J s" "\<And>x. triple I (f x) Q (\<lambda>_. J)"
  shows "triple I (bindR m f) Q (\<lambda>_. J)"
  by (rule triple_first [OF assms(1) _ assms(3)]) (auto simp: assms(2))

lemma triple_case_prod: "(\<And>x y. p = (x, y) \<Longrightarrow> triple P (f x y) Q E) \<Longrightarrow> triple P (case p of (x, y) \<Rightarrow> f x y) Q E"
  by (cases p) auto

lemma triple_case_sum:
  "(\<And>e. r = Inl e \<Longrightarrow> triple P (g e) Q E) \<Longrightarrow> (\<And>y. r = Inr y \<Longrightarrow> triple P (f y) Q E) \<Longrightarrow> triple P (case r of Inl e \<Rightarrow> g e | Inr y \<Rightarrow> f y) Q E"
  by (cases r) auto

lemma triple_case_option:
  "(r = None \<Longrightarrow> triple P g Q E) \<Longrightarrow> (\<And>y. r = Some y \<Longrightarrow> triple P (f y) Q E) \<Longrightarrow> triple P (case r of None \<Rightarrow> g | Some y \<Rightarrow> f y) Q E"
  by (cases r) auto

lemma triple_for:
  assumes "\<And>x. x \<in> set xs \<Longrightarrow> triple I (f x) (\<lambda>_. I) E"
  shows "triple I (forR f xs) (\<lambda>_. I) E"
  using assms by (induction xs) (auto intro!: triple_ret triple_bind)

lemma triple_map:
  assumes "\<And>x. x \<in> set xs \<Longrightarrow> triple I (f x) (\<lambda>_. I) E"
  shows "triple I (mapR f xs) (\<lambda>_. I) E"
  using assms by (induction xs) (auto intro!: triple_ret triple_bind)

lemma triple_map_all:
  assumes "\<And>x. x \<in> set xs \<Longrightarrow> triple I (f x) (\<lambda>y s. I s \<and> R x y) E"
  shows "triple I (mapR f xs) (\<lambda>ys s. I s \<and> list_all2 R xs ys) E"
  using assms
proof (induction xs)
  case (Cons x xs)
  have rest: "triple (\<lambda>s. I s \<and> R x y) (bindR (mapR f xs) (\<lambda>ys. retR (y # ys))) (\<lambda>ys s. I s \<and> list_all2 R (x # xs) ys) E" for y
    by (rule triple_pre [OF triple_bind [OF triple_conj_const [OF Cons.IH, where b = "R x y"]]]) (auto intro!: triple_ret Cons.prems)
  show ?case unfolding mapR.simps by (rule triple_bind [OF Cons.prems rest]) simp
qed (simp add: triple_ret)

text \<open>An operation that keeps a predicate whatever happens.\<close>

abbreviation keeps :: "('s \<Rightarrow> bool) \<Rightarrow> ('s, 'e, 'a) op \<Rightarrow> bool" where
  "keeps I m \<equiv> triple I m (\<lambda>_. I) (\<lambda>_. I)"

lemma keeps_run: "keeps I m \<Longrightarrow> I s \<Longrightarrow> I (snd (m s))"
  unfolding triple_def by (cases "m s"; cases "fst (m s)") (fastforce)+

lemma keeps_case_option: "(x = None \<Longrightarrow> keeps I m) \<Longrightarrow> (\<And>y. x = Some y \<Longrightarrow> keeps I (f y)) \<Longrightarrow> keeps I (case x of None \<Rightarrow> m | Some y \<Rightarrow> f y)"
  by (cases x) auto

lemma keeps_case_sum: "(\<And>e. x = Inl e \<Longrightarrow> keeps I (g e)) \<Longrightarrow> (\<And>y. x = Inr y \<Longrightarrow> keeps I (f y)) \<Longrightarrow> keeps I (case x of Inl e \<Rightarrow> g e | Inr y \<Rightarrow> f y)"
  by (cases x) auto

lemma keeps_conj: "keeps I m \<Longrightarrow> keeps J m \<Longrightarrow> keeps (\<lambda>s. I s \<and> J s) m"
  unfolding triple_def by (auto split: prod.splits sum.splits)

lemma keeps_bind: "keeps I m \<Longrightarrow> (\<And>x. keeps I (f x)) \<Longrightarrow> keeps I (bindR m f)"
  by (rule triple_bind)

lemma keeps_simple:
  "keeps I (retR x)" "keeps I (failR e)" "keeps I (liftR r)" "keeps I (checkR b e')" "keeps I (readR f)"
  by (auto intro: triple_ret triple_fail triple_lift triple_check triple_read)

lemma keeps_try: "keeps I m \<Longrightarrow> keeps I (tryR m)"
  by (rule triple_try)

lemmas keeps_for = triple_for [where E = "\<lambda>_. I" and I = I for I]
lemmas keeps_map = triple_map [where E = "\<lambda>_. I" and I = I for I]

lemmas keeps_rules = keeps_bind keeps_simple keeps_try keeps_for keeps_map triple_if keeps_case_option keeps_case_sum

end
