(* ===== verification/Unit_Reader.thy ===== *)
theory Unit_Reader
  imports Lease_Journal Result_Monad
begin

text \<open>
  The boundary itself: the calls the adapter makes to systemd over D-Bus, to the kernel verifier, to
  the inspector of unit files and to the journal store, and the reads composed of them
  (\<^verbatim>\<open>readUnit\<close>, \<^verbatim>\<open>snapshotTopology\<close> and the footprint functions of \<^verbatim>\<open>src/internal/systemdunit/adapter.go\<close>).

  What answers a call is a parameter, the record \<open>boundary\<close>. Each answer is a function of the calls
  made before, newest first, so that the outside may change between any two of them; the calls that
  matter for the write-ahead rule carry their arguments and results in the trace. A context's
  deadline is one of the errors a call may answer with.
\<close>

section \<open>Snapshots and D-Bus values\<close>

type_synonym property_set = "(property_name \<times> property_value) list"

definition PropertySet_propertyValue :: "property_set \<Rightarrow> property_name \<Rightarrow> property_value option" where
  "PropertySet_propertyValue s name = map_option (clonePropertyValue name) (map_of s name)"

record unit_file_snapshot =
  fs_fragmentPath :: string
  fs_dropInPaths :: "string list"

record unit_snapshot =
  us_Identity :: unit_identity
  us_ControlGroup :: string
  us_Properties :: property_set
  us_unitFiles :: unit_file_snapshot

text \<open>The dynamic type of a D-Bus value, as far as the readers distinguish it.\<close>

datatype dbus =
    DString string
  | DUint64 u64
  | DBytes string
  | DStrings "string list"
  | DArray "dbus list"
  | DStruct "dbus list"
  | DNil
  | DOther

type_synonym dbus_properties = "(string \<times> dbus) list"

record listed_unit =
  lu_name :: string
  lu_objectPath :: string
  lu_loadState :: string
  lu_activeState :: string

section \<open>Calls\<close>

datatype kernel_error = KernelValueMismatch | KernelFailure

datatype reset_error = ResetConflict | ResetFailure

datatype call =
    CallUnitProperties string
  | CallSliceProperties string "dbus_properties option"
  | CallCgroupIdentity string
  | CallListUserSlices
  | CallMutablePaths string
  | CallFingerprints "string list"
  | CallPreflight string
  | CallPrepareResets string
  | CallVerify string
  | CallSetUnitProperties string "property_assignment list"
  | CallResetOverrides string "io_device_weight_reset list"
  | CallRevertUnitFiles string
  | CallReload
  | CallSave durable_lease_journal bool
  | CallLoad "durable_lease_journal option"

record boundary =
  bd_unitProperties :: "call list \<Rightarrow> string \<Rightarrow> (transport_error, dbus_properties) res"
  bd_sliceProperties :: "call list \<Rightarrow> string \<Rightarrow> (transport_error, dbus_properties) res"
  bd_listUserSlices :: "call list \<Rightarrow> (transport_error, listed_unit list) res"
  bd_setUnitProperties :: "call list \<Rightarrow> string \<Rightarrow> bool \<Rightarrow> property_assignment list \<Rightarrow> transport_error option"
  bd_revertUnitFiles :: "call list \<Rightarrow> string \<Rightarrow> transport_error option"
  bd_reload :: "call list \<Rightarrow> transport_error option"
  bd_identity :: "call list \<Rightarrow> string \<Rightarrow> u64 option"
  bd_verify :: "call list \<Rightarrow> unit_snapshot \<Rightarrow> property_assignment list \<Rightarrow> kernel_error option"
  bd_preflightApply :: "call list \<Rightarrow> unit_snapshot \<Rightarrow> property_assignment list \<Rightarrow> bool"
  bd_prepareResets :: "call list \<Rightarrow> unit_identity \<Rightarrow> property_assignment \<Rightarrow> property_assignment \<Rightarrow> io_device_weight_reset list option"
  bd_resetOverrides :: "call list \<Rightarrow> unit_snapshot \<Rightarrow> io_device_weight_reset list \<Rightarrow> reset_error option"
  bd_mutablePaths :: "call list \<Rightarrow> string \<Rightarrow> string list option"
  bd_fingerprints :: "call list \<Rightarrow> string list \<Rightarrow> unit_file_fingerprint list option"
  bd_save :: "call list \<Rightarrow> durable_lease_journal \<Rightarrow> bool"
  bd_load :: "call list \<Rightarrow> durable_lease_journal option"
  bd_devFits :: "u32 \<Rightarrow> u32 \<Rightarrow> bool"
  bd_attempts :: "call list \<Rightarrow> nat"

record machine = adapter +
  trace :: "call list"

type_synonym 'a adapter_op = "(machine, adapter_error, 'a) op"

definition emit :: "call \<Rightarrow> machine \<Rightarrow> machine" where
  "emit c m = m\<lparr> trace := c # trace m \<rparr>"

text \<open>One call: the answer is read off the trace, then the call is recorded.\<close>

definition callR :: "(call list \<Rightarrow> 'b) \<Rightarrow> ('b \<Rightarrow> call) \<Rightarrow> ('b \<Rightarrow> (adapter_error, 'a) res) \<Rightarrow> 'a adapter_op" where
  "callR answer record_call result = (\<lambda>m. let r = answer (trace m) in (result r, emit (record_call r) m))"

definition unitProperties :: "boundary \<Rightarrow> string \<Rightarrow> string \<Rightarrow> dbus_properties adapter_op" where
  "unitProperties bd operation unit = callR (\<lambda>t. bd_unitProperties bd t unit) (\<lambda>_. CallUnitProperties unit)
     (\<lambda>r. case r of Inl e \<Rightarrow> Inl (classifyTransportError operation unit e) | Inr p \<Rightarrow> Inr p)"

definition sliceProperties :: "boundary \<Rightarrow> string \<Rightarrow> string \<Rightarrow> dbus_properties adapter_op" where
  "sliceProperties bd operation unit = callR (\<lambda>t. bd_sliceProperties bd t unit)
     (\<lambda>r. CallSliceProperties unit (case r of Inl _ \<Rightarrow> None | Inr p \<Rightarrow> Some p))
     (\<lambda>r. case r of Inl e \<Rightarrow> Inl (classifyTransportError operation unit e) | Inr p \<Rightarrow> Inr p)"

definition listUserSlices :: "boundary \<Rightarrow> string \<Rightarrow> listed_unit list adapter_op" where
  "listUserSlices bd operation = callR (bd_listUserSlices bd) (\<lambda>_. CallListUserSlices)
     (\<lambda>r. case r of Inl e \<Rightarrow> Inl (classifyTransportError operation [] e) | Inr p \<Rightarrow> Inr p)"

definition setUnitProperties :: "boundary \<Rightarrow> string \<Rightarrow> string \<Rightarrow> property_assignment list \<Rightarrow> unit adapter_op" where
  "setUnitProperties bd operation unit as = callR (\<lambda>t. bd_setUnitProperties bd t unit True as)
     (\<lambda>_. CallSetUnitProperties unit as)
     (\<lambda>r. case r of Some e \<Rightarrow> Inl (classifyTransportError operation unit e) | None \<Rightarrow> Inr ())"

definition revertUnitFiles :: "boundary \<Rightarrow> string \<Rightarrow> string \<Rightarrow> unit adapter_op" where
  "revertUnitFiles bd operation unit = callR (\<lambda>t. bd_revertUnitFiles bd t unit) (\<lambda>_. CallRevertUnitFiles unit)
     (\<lambda>r. case r of Some e \<Rightarrow> Inl (classifyTransportError operation unit e) | None \<Rightarrow> Inr ())"

definition reload :: "boundary \<Rightarrow> transport_error option adapter_op" where
  "reload bd = callR (bd_reload bd) (\<lambda>_. CallReload) Inr"

definition verifyKernel :: "boundary \<Rightarrow> unit_snapshot \<Rightarrow> property_assignment list \<Rightarrow> kernel_error option adapter_op" where
  "verifyKernel bd snapshot as = callR (\<lambda>t. bd_verify bd t snapshot as) (\<lambda>_. CallVerify (ui_Name (us_Identity snapshot))) Inr"

definition mutablePaths :: "boundary \<Rightarrow> string \<Rightarrow> string \<Rightarrow> string list adapter_op" where
  "mutablePaths bd operation unit = callR (\<lambda>t. bd_mutablePaths bd t unit) (\<lambda>_. CallMutablePaths unit)
     (\<lambda>r. case r of Some ps \<Rightarrow> Inr ps | None \<Rightarrow> Inl (AdapterError ReasonUnitFileVerification operation unit []))"

definition fingerprints :: "boundary \<Rightarrow> string \<Rightarrow> string \<Rightarrow> string list \<Rightarrow> unit_file_fingerprint list adapter_op" where
  "fingerprints bd operation unit paths = callR (\<lambda>t. bd_fingerprints bd t paths) (\<lambda>_. CallFingerprints paths)
     (\<lambda>r. case r of Some fs \<Rightarrow> Inr fs | None \<Rightarrow> Inl (AdapterError ReasonUnitFileVerification operation unit []))"

section \<open>Reading a unit\<close>

definition kernelControlGroupID :: "boundary \<Rightarrow> string \<Rightarrow> string \<Rightarrow> string \<Rightarrow> u64 adapter_op" where
  "kernelControlGroupID bd operation unit controlGroup =
     callR (\<lambda>t. bd_identity bd t controlGroup) (\<lambda>_. CallCgroupIdentity controlGroup)
       (\<lambda>r. case r of
           None \<Rightarrow> Inl (AdapterError ReasonKernelVerification operation unit [])
         | Some i \<Rightarrow> if i = 0 then Inl (AdapterError ReasonKernelVerification operation unit []) else Inr i)"

definition parseControlGroup :: "string \<Rightarrow> dbus_properties \<Rightarrow> (adapter_error, string) res" where
  "parseControlGroup unit sp =
     (case map_of sp ''ControlGroup'' of
        Some (DString c) \<Rightarrow> if validAbsolutePath c then Inr c else Inl (malformedReply ''read_slice'' unit)
      | _ \<Rightarrow> Inl (malformedReply ''read_slice'' unit))"

definition parseUnitIdentity ::
  "string \<Rightarrow> string \<Rightarrow> dbus_properties \<Rightarrow> dbus_properties \<Rightarrow> u64 \<Rightarrow> (adapter_error, unit_identity) res" where
  "parseUnitIdentity unit objectPath up sp kernelID =
     (if map_of up ''Id'' \<noteq> Some (DString unit) then Inl (malformedReply ''read_unit'' unit)
      else if map_of up ''ActiveState'' \<noteq> Some (DString ''active'')
      then Inl (AdapterError ReasonUnitMissing ''read_unit'' unit [])
      else (case map_of up ''InvocationID'' of
          Some (DBytes b) \<Rightarrow>
            if length b \<noteq> 16 \<or> b = replicate 16 (char_of (0::nat)) then Inl (malformedReply ''read_unit'' unit)
            else (let identity = \<lparr> ui_Name = unit, ui_ObjectPath = objectPath, ui_InvocationID = b, ui_ControlGroupID = kernelID \<rparr>
                  in (case map_of sp ''ControlGroupId'' of
                        None \<Rightarrow> Inr identity
                      | Some (DUint64 c) \<Rightarrow>
                          if c = 0 then Inl (malformedReply ''read_slice'' unit)
                          else if c \<noteq> kernelID then Inl (AdapterError ReasonUnitRecreated ''confirm_identity'' unit [])
                          else Inr identity
                      | _ \<Rightarrow> Inl (malformedReply ''read_slice'' unit)))
        | _ \<Rightarrow> Inl (malformedReply ''read_unit'' unit)))"

fun parseDeviceLimitTuple :: "dbus \<Rightarrow> device_limit option" where
  "parseDeviceLimitTuple (DStruct [DString p, DUint64 v]) = Some \<lparr> dl_Path = p, dl_Value = v \<rparr>"
| "parseDeviceLimitTuple (DArray [DString p, DUint64 v]) = Some \<lparr> dl_Path = p, dl_Value = v \<rparr>"
| "parseDeviceLimitTuple _ = None"

fun parseDeviceLimitTuples :: "dbus list \<Rightarrow> device_limit list option" where
  "parseDeviceLimitTuples [] = Some []"
| "parseDeviceLimitTuples (x # xs) =
     (case parseDeviceLimitTuple x of
        None \<Rightarrow> None
      | Some d \<Rightarrow> map_option ((#) d) (parseDeviceLimitTuples xs))"

text \<open>The elements of a slice or array value; anything else is refused.\<close>

fun arrayElements :: "dbus \<Rightarrow> dbus list option" where
  "arrayElements (DArray xs) = Some xs"
| "arrayElements (DStrings ss) = Some (map DString ss)"
| "arrayElements (DBytes b) = Some (map (\<lambda>_. DOther) b)"
| "arrayElements _ = None"

definition parseDevicePropertyValue :: "dbus option \<Rightarrow> device_limit list option" where
  "parseDevicePropertyValue raw =
     (case Option.bind (Option.bind raw arrayElements) parseDeviceLimitTuples of
        None \<Rightarrow> None
      | Some ds \<Rightarrow> let result = sort_key dl_Path ds in if validateDeviceLimits result then Some result else None)"

text \<open>One property of the slice reply, as the loops of \<^verbatim>\<open>readUnit\<close> read it.\<close>

definition readProperty :: "dbus_properties \<Rightarrow> property_name \<Rightarrow> property_value option" where
  "readProperty sp p =
     (if isDeviceProperty p then
        (case parseDevicePropertyValue (map_of sp p) of
           Some ds \<Rightarrow> if p = PropertyIODeviceWeight \<and> \<not> validateIODeviceWeightValues ds then None
                      else Some (devicePropertyValue ds)
         | None \<Rightarrow> None)
      else (case map_of sp p of
          Some (DUint64 v) \<Rightarrow> if validatePropertyValue p v then Some (scalarPropertyValue v) else None
        | _ \<Rightarrow> None))"

fun readProperties :: "string \<Rightarrow> dbus_properties \<Rightarrow> property_name list \<Rightarrow> (adapter_error, property_set) res" where
  "readProperties unit sp [] = Inr []"
| "readProperties unit sp (p # ps) =
     (case readProperty sp p of
        None \<Rightarrow> Inl (malformedReply ''read_slice'' unit)
      | Some v \<Rightarrow> (case readProperties unit sp ps of Inl e \<Rightarrow> Inl e | Inr rest \<Rightarrow> Inr ((p, v) # rest)))"

definition parseUnitFileSnapshot :: "string \<Rightarrow> dbus_properties \<Rightarrow> (adapter_error, unit_file_snapshot) res" where
  "parseUnitFileSnapshot unit up =
     (case (map_of up ''FragmentPath'', map_of up ''DropInPaths'') of
        (Some (DString f), Some (DStrings ds)) \<Rightarrow>
          if f \<noteq> [] \<and> \<not> validAbsolutePath f \<or> \<not> list_all validAbsolutePath ds
          then Inl (malformedReply ''read_unit'' unit)
          else Inr \<lparr> fs_fragmentPath = f, fs_dropInPaths = sort ds \<rparr>
      | _ \<Rightarrow> Inl (malformedReply ''read_unit'' unit))"

definition isCapabilityProbeTransientFragment :: "string \<Rightarrow> string \<Rightarrow> bool" where
  "isCapabilityProbeTransientFragment unit path \<longleftrightarrow>
     isCapabilityProbeUnit unit \<and> path = ''/run/systemd/transient/'' @ unit"

definition readUnit :: "boundary \<Rightarrow> string \<Rightarrow> string \<Rightarrow> unit_snapshot adapter_op" where
  "readUnit bd unit objectPath =
     bindR (unitProperties bd ''read_unit'' unit) (\<lambda>unitBefore.
     bindR (sliceProperties bd ''read_slice'' unit) (\<lambda>sliceBefore.
     bindR (liftR (parseControlGroup unit sliceBefore)) (\<lambda>controlGroupBefore.
     bindR (kernelControlGroupID bd ''read_identity'' unit controlGroupBefore) (\<lambda>kernelIDBefore.
     bindR (unitProperties bd ''confirm_unit'' unit) (\<lambda>unitAfter.
     bindR (sliceProperties bd ''confirm_slice'' unit) (\<lambda>sliceAfter.
     bindR (liftR (parseControlGroup unit sliceAfter)) (\<lambda>controlGroupAfter.
     bindR (kernelControlGroupID bd ''confirm_identity'' unit controlGroupAfter) (\<lambda>kernelIDAfter.
     bindR (liftR (parseUnitIdentity unit objectPath unitBefore sliceBefore kernelIDBefore)) (\<lambda>beforeIdentity.
     bindR (liftR (parseUnitIdentity unit objectPath unitAfter sliceAfter kernelIDAfter)) (\<lambda>afterIdentity.
     bindR (checkR (beforeIdentity = afterIdentity \<and> controlGroupBefore = controlGroupAfter)
              (AdapterError ReasonUnitRecreated ''confirm_unit'' unit [])) (\<lambda>_.
     bindR (liftR (readProperties unit sliceAfter (approvedScalarProperties @ approvedDeviceProperties))) (\<lambda>properties.
     bindR (liftR (parseUnitFileSnapshot unit unitAfter)) (\<lambda>unitFiles.
     retR \<lparr> us_Identity = beforeIdentity, us_ControlGroup = controlGroupAfter, us_Properties = properties,
            us_unitFiles = (if isCapabilityProbeTransientFragment unit (fs_fragmentPath unitFiles)
                            then unitFiles\<lparr> fs_fragmentPath := [] \<rparr> else unitFiles) \<rparr>)))))))))))))"

definition requireSameIdentity :: "string \<Rightarrow> unit_identity \<Rightarrow> unit_identity \<Rightarrow> unit adapter_op" where
  "requireSameIdentity operation expected current =
     checkR (expected = current) (AdapterError ReasonUnitRecreated operation (ui_Name expected) [])"

definition requireOpen :: "string \<Rightarrow> unit adapter_op" where
  "requireOpen operation = bindR (readR closed) (\<lambda>c. checkR (\<not> c) (AdapterError ReasonClosed operation [] []))"

definition requireUnblocked :: "string \<Rightarrow> unit adapter_op" where
  "requireUnblocked unit = bindR (readR (\<lambda>m. map_of (blocked m) unit)) (\<lambda>b.
     case b of Some e \<Rightarrow> failR e | None \<Rightarrow> retR ())"

section \<open>Footprints\<close>

definition revertRoots :: "string list" where
  "revertRoots = [''/etc/systemd/system'', ''/run/systemd/system'', ''/etc/systemd/system.control'',
     ''/run/systemd/system.control'', ''/run/systemd/transient'']"

text \<open>
  \<^verbatim>\<open>filepath.Rel(root, path)\<close> succeeds and does not leave the root. Only clean absolute paths get here,
  where that means that the path is the root or below it.
\<close>

definition pathIsRevertableLocalConfiguration :: "string \<Rightarrow> bool" where
  "pathIsRevertableLocalConfiguration path \<longleftrightarrow>
     path \<noteq> [] \<and> list_ex (\<lambda>r. path = r \<or> hasPrefix path (r @ ''/'')) revertRoots"

definition mutableUnitFilePaths :: "unit_file_snapshot \<Rightarrow> string list" where
  "mutableUnitFilePaths s =
     sort (filter pathIsRevertableLocalConfiguration [fs_fragmentPath s] @
           filter pathIsRevertableLocalConfiguration (fs_dropInPaths s))"

definition combinedMutableUnitFilePaths :: "boundary \<Rightarrow> unit_snapshot \<Rightarrow> string list adapter_op" where
  "combinedMutableUnitFilePaths bd snapshot =
     bindR (mutablePaths bd ''inspect_unit_files'' (ui_Name (us_Identity snapshot))) (\<lambda>diskPaths.
     retR (sort (remdups (mutableUnitFilePaths (us_unitFiles snapshot) @ diskPaths))))"

definition emptyOverride :: unit_override_lease where
  "emptyOverride = \<lparr> uo_managedPaths = [], uo_fingerprints = [], uo_previousFingerprint = [] \<rparr>"

definition overrideOf :: "machine \<Rightarrow> unit_identity \<Rightarrow> unit_override_lease" where
  "overrideOf m i = (case map_of (overrides m) i of Some u \<Rightarrow> u | None \<Rightarrow> emptyOverride)"

definition requireManagedUnitFileFootprint ::
  "boundary \<Rightarrow> string \<Rightarrow> unit_snapshot \<Rightarrow> unit_override_lease \<Rightarrow> bool \<Rightarrow> unit adapter_op" where
  "requireManagedUnitFileFootprint bd operation snapshot expected tracked =
     bindR (combinedMutableUnitFilePaths bd snapshot) (\<lambda>actual.
     checkR (actual = (if tracked then uo_managedPaths expected else []))
       (AdapterError ReasonExternalConflict operation (ui_Name (us_Identity snapshot)) []))"

definition requireRestorableUnitFileFootprint ::
  "string \<Rightarrow> string list \<Rightarrow> unit_override_lease \<Rightarrow> bool \<Rightarrow> unit adapter_op" where
  "requireRestorableUnitFileFootprint unit actual expected tracked =
     checkR (tracked \<and> (actual = uo_managedPaths expected \<or> actual = []) \<or> \<not> tracked \<and> actual = [])
       (AdapterError ReasonExternalConflict ''restore'' unit [])"

definition captureFootprint :: "boundary \<Rightarrow> unit_snapshot \<Rightarrow> unit_file_fingerprint list adapter_op" where
  "captureFootprint bd snapshot =
     bindR (combinedMutableUnitFilePaths bd snapshot) (\<lambda>paths.
     fingerprints bd ''fingerprint_unit_files'' (ui_Name (us_Identity snapshot)) paths)"

definition captureDiskFootprint :: "boundary \<Rightarrow> string \<Rightarrow> unit_file_fingerprint list adapter_op" where
  "captureDiskFootprint bd unit =
     bindR (mutablePaths bd ''inspect_unit_files'' unit) (\<lambda>paths. fingerprints bd ''fingerprint_unit_files'' unit paths)"

definition extendManagedUnitFileFootprint ::
  "string \<Rightarrow> unit_override_lease \<Rightarrow> property_assignment list \<Rightarrow> unit_override_lease" where
  "extendManagedUnitFileFootprint unit current as =
     emptyOverride\<lparr> uo_managedPaths :=
       sort (remdups (uo_managedPaths current @ map (managedRuntimeDropInPath unit \<circ> pa_name) as)) \<rparr>"

definition stageManagedUnitFileMutation ::
  "string \<Rightarrow> unit_override_lease \<Rightarrow> property_assignment list \<Rightarrow> unit_override_lease" where
  "stageManagedUnitFileMutation unit current as =
     (let rewritten = map (managedRuntimeDropInPath unit \<circ> pa_name) as in
      (extendManagedUnitFileFootprint unit current as)
        \<lparr> uo_previousFingerprint := uo_fingerprints current,
          uo_fingerprints := filter (\<lambda>f. uf_path f \<notin> set rewritten) (uo_fingerprints current) \<rparr>)"

definition pendingFootprintMatches :: "unit_file_fingerprint list \<Rightarrow> unit_override_lease \<Rightarrow> bool" where
  "pendingFootprintMatches actual expected \<longleftrightarrow>
     map uf_path actual = uo_managedPaths expected \<and>
     list_all (\<lambda>f. (case map_of (rev (map (\<lambda>g. (uf_path g, uf_digest g)) actual)) (uf_path f) of
                      Some d \<Rightarrow> d | None \<Rightarrow> replicate 32 (char_of (0::nat))) = uf_digest f) (uo_fingerprints expected)"

section \<open>Topology\<close>

record user_slice_snapshot =
  ss_UID :: u32
  ss_Unit :: unit_snapshot

record topology_snapshot =
  ts_Parent :: unit_snapshot
  ts_Users :: "user_slice_snapshot list"

text \<open>\<open>parent\<close> is the parent slice found so far, \<open>users\<close> the user slices.\<close>

fun snapshotListed ::
  "boundary \<Rightarrow> string list \<Rightarrow> unit_snapshot option \<Rightarrow> user_slice_snapshot list \<Rightarrow> listed_unit list \<Rightarrow>
   (unit_snapshot option \<times> user_slice_snapshot list) adapter_op" where
  "snapshotListed bd seen parent users [] = retR (parent, users)"
| "snapshotListed bd seen parent users (c # cs) =
     (if isCapabilityProbeUnit (lu_name c) then snapshotListed bd seen parent users cs
      else if lu_name c \<in> set seen then failR (malformedReply ''discover'' (lu_name c))
      else if lu_loadState c \<noteq> ''loaded'' \<or> lu_activeState c \<noteq> ''active'' then failR (malformedReply ''discover'' (lu_name c))
      else if \<not> hasPrefix (lu_objectPath c) ''/org/freedesktop/systemd1/unit/'' then failR (malformedReply ''discover'' (lu_name c))
      else bindR (tryR (readUnit bd (lu_name c) (lu_objectPath c))) (\<lambda>r.
        case r of
          Inl e \<Rightarrow>
            (if lu_name c \<noteq> parentUserSlice \<and> errorReason e = Some ReasonUnitMissing
             then snapshotListed bd (lu_name c # seen) parent users cs
             else failR e)
        | Inr snapshot \<Rightarrow>
            (if lu_name c = parentUserSlice then snapshotListed bd (lu_name c # seen) (Some snapshot) users cs
             else (case parseUserSliceName (lu_name c) of
                 None \<Rightarrow> failR (malformedReply ''discover'' (lu_name c))
               | Some uid \<Rightarrow> snapshotListed bd (lu_name c # seen) parent
                                (users @ [\<lparr> ss_UID = uid, ss_Unit = snapshot \<rparr>]) cs))))"

definition snapshotTopology :: "boundary \<Rightarrow> listed_unit list \<Rightarrow> topology_snapshot adapter_op" where
  "snapshotTopology bd listed =
     bindR (snapshotListed bd [] None [] listed) (\<lambda>(parent, users).
       case parent of
         None \<Rightarrow> failR (AdapterError ReasonUnitMissing ''discover'' parentUserSlice [])
       | Some p \<Rightarrow> retR \<lparr> ts_Parent = p, ts_Users = sort_key (unat \<circ> ss_UID) users \<rparr>)"

definition discover :: "boundary \<Rightarrow> string \<Rightarrow> topology_snapshot adapter_op" where
  "discover bd operation = bindR (listUserSlices bd operation) (\<lambda>listed. snapshotTopology bd listed)"

definition Discover :: "boundary \<Rightarrow> topology_snapshot adapter_op" where
  "Discover bd = bindR (requireOpen ''discover'') (\<lambda>_. discover bd ''discover'')"

definition sameTopologyIdentity :: "topology_snapshot \<Rightarrow> topology_snapshot \<Rightarrow> bool" where
  "sameTopologyIdentity expected current \<longleftrightarrow>
     us_Identity (ts_Parent expected) = us_Identity (ts_Parent current) \<and>
     map (\<lambda>u. (ss_UID u, us_Identity (ss_Unit u))) (ts_Users expected) =
     map (\<lambda>u. (ss_UID u, us_Identity (ss_Unit u))) (ts_Users current)"

definition ConfirmTopology :: "boundary \<Rightarrow> topology_snapshot \<Rightarrow> unit adapter_op" where
  "ConfirmTopology bd expected =
     bindR (requireOpen ''confirm_topology'') (\<lambda>_.
     bindR (discover bd ''confirm_topology'') (\<lambda>current.
     checkR (sameTopologyIdentity expected current)
       (AdapterError ReasonTopologyChanged ''confirm_topology'' parentUserSlice [])))"

end
