(* ===== verification/Unit_Adapter.thy ===== *)
theory Unit_Adapter
  imports Unit_Reader
begin

text \<open>
  The operations of \<^verbatim>\<open>src/internal/systemdunit/adapter.go\<close> that own properties of a unit: \<open>Apply\<close>,
  \<open>ConfirmApplied\<close>, \<open>RestoreProperties\<close>, \<open>Restore\<close> and \<open>RestoreUnits\<close>, with the lease bookkeeping of
  \<^verbatim>\<open>recovery.go\<close> they share and the wait of \<^verbatim>\<open>restore_verification.go\<close>. The operation gate makes each
  of them one step. Maps are association lists, so a loop over a map runs in the order of the list.
\<close>

section \<open>Lease bookkeeping\<close>

definition zeroIdentity :: unit_identity where
  "zeroIdentity = \<lparr> ui_Name = [], ui_ObjectPath = [], ui_InvocationID = replicate 16 (char_of (0::nat)), ui_ControlGroupID = 0 \<rparr>"

definition unitLeaseState :: "'z adapter_scheme \<Rightarrow> string \<Rightarrow> (unit_identity \<times> unit_override_lease \<times> lease_phase) option" where
  "unitLeaseState m unit = map_option (\<lambda>(i, u). (i, u, phaseOf m unit)) (find (\<lambda>(i, u). ui_Name i = unit) (overrides m))"

definition ownedIdentity :: "'z adapter_scheme \<Rightarrow> string \<Rightarrow> unit_identity" where
  "ownedIdentity m unit = (case unitLeaseState m unit of Some (i, _, _) \<Rightarrow> i | None \<Rightarrow> zeroIdentity)"

definition ownedOverride :: "'z adapter_scheme \<Rightarrow> string \<Rightarrow> unit_override_lease" where
  "ownedOverride m unit = (case unitLeaseState m unit of Some (_, u, _) \<Rightarrow> u | None \<Rightarrow> emptyOverride)"

definition unitLeases :: "'z adapter_scheme \<Rightarrow> unit_identity \<Rightarrow> (lease_key \<times> property_lease_state) list" where
  "unitLeases m i = filter (\<lambda>(k, s). fst k = i) (leases m)"

definition mapLeases ::
  "unit_identity \<Rightarrow> (property_name \<Rightarrow> property_lease_state \<Rightarrow> property_lease_state) \<Rightarrow> 'z adapter_scheme \<Rightarrow> 'z adapter_scheme" where
  "mapLeases i f m = m\<lparr> leases := map (\<lambda>(k, s). if fst k = i then (k, f (snd k) s) else (k, s)) (leases m) \<rparr>"

definition propertiesMatch :: "string \<Rightarrow> (property_lease_state \<Rightarrow> property_value) \<Rightarrow> unit_snapshot \<Rightarrow> 'z adapter_scheme \<Rightarrow> bool" where
  "propertiesMatch unit want snapshot m =
     (case unitLeaseState m unit of
        None \<Rightarrow> False
      | Some (identity, _, _) \<Rightarrow>
          list_all (\<lambda>(k, s). case PropertySet_propertyValue (us_Properties snapshot) (snd k) of
              None \<Rightarrow> False
            | Some current \<Rightarrow> propertyValuesEqual (snd k) current (want s)) (unitLeases m identity) \<and>
          unitLeases m identity \<noteq> [])"

text \<open>The snapshot of the lease state is the state itself; restoring it copies the four fields back.\<close>

definition restoreLeaseState :: "machine \<Rightarrow> machine \<Rightarrow> machine" where
  "restoreLeaseState before m =
     m\<lparr> leases := leases before, overrides := overrides before, phases := phases before, generation := generation before \<rparr>"

definition persistLeaseState :: "boundary \<Rightarrow> unit adapter_op" where
  "persistLeaseState bd =
     bindR (readR (\<lambda>m. exportJournal (bd_devFits bd) m (generation m + 1))) (\<lambda>journal.
       case journal of
         None \<Rightarrow> failR (leaseStoreError ''encode'')
       | Some j \<Rightarrow>
           bindR (callR (\<lambda>t. bd_save bd t j) (\<lambda>ok. CallSave j ok)
                    (\<lambda>ok. if ok then Inr () else Inl (leaseStoreError ''persist''))) (\<lambda>_.
           writeR (\<lambda>m. m\<lparr> generation := dj_Generation j \<rparr>)))"

text \<open>The pattern of every staged change: change the state in memory, make it durable, or undo it.\<close>

definition stageDurably :: "boundary \<Rightarrow> (machine \<Rightarrow> machine) \<Rightarrow> unit adapter_op" where
  "stageDurably bd change =
     bindR (readR (\<lambda>m. m)) (\<lambda>before.
     bindR (writeR change) (\<lambda>_.
     bindR (tryR (persistLeaseState bd)) (\<lambda>r.
       case r of
         Inl e \<Rightarrow> bindR (writeR (restoreLeaseState before)) (\<lambda>_. failR e)
       | Inr _ \<Rightarrow> retR ())))"

definition confirmLease :: "property_lease_state \<Rightarrow> property_lease_state" where
  "confirmLease s = s\<lparr> ls_uncertain := False, ls_newLease := False, ls_previousIOWeightTargets := [],
                       ls_pendingIOWeightResets := [] \<rparr>"

definition confirmAppliedUnit :: "string \<Rightarrow> unit_file_fingerprint list \<Rightarrow> machine \<Rightarrow> machine" where
  "confirmAppliedUnit unit actual m =
     (let identity = ownedIdentity m unit in
      mapLeases identity (\<lambda>_. confirmLease)
        (m\<lparr> overrides := AList.update identity
               ((ownedOverride m unit)\<lparr> uo_fingerprints := actual, uo_previousFingerprint := [] \<rparr>) (overrides m),
            phases := AList.update unit leasePhaseApplied (phases m) \<rparr>))"

definition removeUnitLease :: "string \<Rightarrow> machine \<Rightarrow> machine" where
  "removeUnitLease unit m =
     (case unitLeaseState m unit of
        None \<Rightarrow> m\<lparr> phases := AList.delete unit (phases m) \<rparr>
      | Some (identity, _, _) \<Rightarrow>
          m\<lparr> leases := filter (\<lambda>(k, s). fst k \<noteq> identity) (leases m),
             overrides := AList.delete identity (overrides m), phases := AList.delete unit (phases m) \<rparr>)"

definition removeUnitLeasesDurably :: "boundary \<Rightarrow> string list \<Rightarrow> unit adapter_op" where
  "removeUnitLeasesDurably bd units = stageDurably bd (fold removeUnitLease units)"

definition removeUnitLeaseDurably :: "boundary \<Rightarrow> string \<Rightarrow> unit adapter_op" where
  "removeUnitLeaseDurably bd unit = removeUnitLeasesDurably bd [unit]"

section \<open>Confirming a mutation\<close>

definition readbackMatches :: "unit_snapshot \<Rightarrow> property_assignment \<Rightarrow> bool" where
  "readbackMatches snapshot a \<longleftrightarrow>
     (case PropertySet_propertyValue (us_Properties snapshot) (pa_name a) of
        None \<Rightarrow> False
      | Some current \<Rightarrow> propertyValuesEqual (pa_name a) current (pa_value a))"

definition verifyReadback :: "string \<Rightarrow> unit_snapshot \<Rightarrow> property_assignment list \<Rightarrow> unit adapter_op" where
  "verifyReadback operation snapshot as =
     (case find (\<lambda>a. \<not> readbackMatches snapshot a) as of
        Some a \<Rightarrow> failR (AdapterError ReasonReadbackMismatch operation (ui_Name (us_Identity snapshot)) (pa_name a))
      | None \<Rightarrow> retR ())"

definition prepareResets ::
  "boundary \<Rightarrow> string \<Rightarrow> unit_identity \<Rightarrow> property_assignment \<Rightarrow> property_assignment \<Rightarrow> io_device_weight_reset list adapter_op" where
  "prepareResets bd operation identity previous desired =
     callR (\<lambda>t. bd_prepareResets bd t identity previous desired) (\<lambda>_. CallPrepareResets (ui_Name identity))
       (\<lambda>r. case r of
           Some rs \<Rightarrow> Inr rs
         | None \<Rightarrow> Inl (AdapterError ReasonKernelVerification operation (ui_Name identity) PropertyIODeviceWeight))"

definition completePendingIODeviceWeightResets :: "boundary \<Rightarrow> unit_snapshot \<Rightarrow> string \<Rightarrow> bool adapter_op" where
  "completePendingIODeviceWeightResets bd snapshot operation =
     bindR (readR (\<lambda>m. concat (map (ls_pendingIOWeightResets \<circ> snd) (unitLeases m (us_Identity snapshot))))) (\<lambda>resets.
       if resets = [] then retR False
       else callR (\<lambda>t. bd_resetOverrides bd t snapshot resets) (\<lambda>_. CallResetOverrides (ui_Name (us_Identity snapshot)) resets)
         (\<lambda>r. case r of
             None \<Rightarrow> Inr True
           | Some e \<Rightarrow> Inl (AdapterError (if e = ResetConflict then ReasonExternalConflict else ReasonKernelVerification)
                             (operation @ ''_keyed_reset'') (ui_Name (us_Identity snapshot)) PropertyIODeviceWeight)))"

definition readbackUnit :: "boundary \<Rightarrow> string \<Rightarrow> unit_identity \<Rightarrow> property_assignment list \<Rightarrow> unit_snapshot adapter_op" where
  "readbackUnit bd operation identity as =
     bindR (readUnit bd (ui_Name identity) (ui_ObjectPath identity)) (\<lambda>after.
     bindR (requireSameIdentity operation identity (us_Identity after)) (\<lambda>_.
     bindR (verifyReadback operation after as) (\<lambda>_. retR after)))"

text \<open>
  What follows a successful \<^verbatim>\<open>SetUnitProperties\<close> in \<open>Apply\<close>, \<open>RestoreProperties\<close> and
  \<^verbatim>\<open>restoreOwnedPropertiesWithoutRevert\<close>; only \<open>Apply\<close> checks the footprint right after the first
  readback. \<open>prefix\<close> names the operation in errors.
\<close>

definition confirmMutation ::
  "boundary \<Rightarrow> string \<Rightarrow> bool \<Rightarrow> unit_identity \<Rightarrow> property_assignment list \<Rightarrow> unit_snapshot adapter_op" where
  "confirmMutation bd prefix checkFootprint identity as =
     bindR (readbackUnit bd (prefix @ ''_readback'') identity as) (\<lambda>after1.
     bindR (readR (\<lambda>m. overrideOf m identity)) (\<lambda>staged.
     bindR (if checkFootprint then requireManagedUnitFileFootprint bd (prefix @ ''_readback'') after1 staged True
            else retR ()) (\<lambda>_.
     bindR (completePendingIODeviceWeightResets bd after1 (prefix @ ''_readback'')) (\<lambda>resetCompleted.
     bindR (if resetCompleted then
              bindR (readbackUnit bd (prefix @ ''_reset_confirmation'') identity as) (\<lambda>after2.
              bindR (requireManagedUnitFileFootprint bd (prefix @ ''_reset_confirmation'') after2 staged True) (\<lambda>_. retR after2))
            else retR after1) (\<lambda>after.
     bindR (verifyKernel bd after as) (\<lambda>failure.
     bindR (checkR (failure = None) (AdapterError ReasonKernelVerification (prefix @ ''_readback'') (ui_Name identity) [])) (\<lambda>_.
     bindR (captureFootprint bd after) (\<lambda>actual.
     bindR (stageDurably bd (confirmAppliedUnit (ui_Name identity) actual)) (\<lambda>_. retR after)))))))))"

section \<open>Apply\<close>

definition appliedAssignmentsMatch ::
  "unit_identity \<Rightarrow> unit_snapshot \<Rightarrow> property_assignment list \<Rightarrow> 'z adapter_scheme \<Rightarrow> bool" where
  "appliedAssignmentsMatch identity snapshot as m \<longleftrightarrow>
     list_all (\<lambda>a. (case map_of (leases m) (identity, pa_name a) of
                      None \<Rightarrow> False
                    | Some s \<Rightarrow> \<not> ls_uncertain s \<and> propertyValuesEqual (pa_name a) (ls_lastApplied s) (pa_value a) \<and>
                                ls_ioWeightTargets s = pa_targets a) \<and> readbackMatches snapshot a) as \<and> as \<noteq> []"

definition ioDeviceWeightTargetRemoved :: "unit_snapshot \<Rightarrow> property_assignment \<Rightarrow> bool" where
  "ioDeviceWeightTargetRemoved before desired \<longleftrightarrow>
     (case PropertySet_propertyValue (us_Properties before) PropertyIODeviceWeight of
        None \<Rightarrow> False
      | Some current \<Rightarrow> list_ex (\<lambda>d. dl_Path d \<notin> dl_Path ` set (pv_devices (pa_value desired))) (pv_devices current))"

definition systemdMutationAssignments :: "unit_snapshot \<Rightarrow> property_assignment list \<Rightarrow> property_assignment list" where
  "systemdMutationAssignments before as =
     concat (map (\<lambda>a. if pa_name a = PropertyIODeviceWeight \<and> ioDeviceWeightTargetRemoved before a
                      then [\<lparr> pa_name = PropertyIODeviceWeight, pa_value = devicePropertyValue [], pa_targets = [] \<rparr>, a]
                      else [a]) as)"

definition ownedLease :: "unit_identity \<Rightarrow> property_value \<Rightarrow> property_assignment \<Rightarrow> property_lease_state option \<Rightarrow>
   (adapter_error, property_lease_state) res" where
  "ownedLease identity current a lease =
     (case lease of
        Some state \<Rightarrow>
          if pa_name a = PropertyIODeviceWeight \<and>
             \<not> ioDeviceWeightTargetMechanismsCompatible (ls_ioWeightTargets state) (pa_targets a)
          then Inl (AdapterError ReasonExternalConflict ''apply'' (ui_Name identity) (pa_name a))
          else (case resolveUncertainOwnership current state of
              (owned, resolved) \<Rightarrow>
                if owned then Inr resolved else Inl (externalConflictFor ''apply'' (ui_Name identity) (pa_name a)))
      | None \<Rightarrow>
          if pa_name a = PropertyIODeviceWeight \<and> pv_devices current \<noteq> []
          then Inl (AdapterError ReasonExternalConflict ''apply'' (ui_Name identity) (pa_name a))
          else Inr ((newPropertyLeaseState (pa_name a) current)\<lparr> ls_newLease := True \<rparr>))"

text \<open>The lease of a property about to be set to \<open>v\<close>: what is applied now becomes the previous value.\<close>

definition stagedLease ::
  "property_name \<Rightarrow> property_value \<Rightarrow> io_device_weight_reset list \<Rightarrow> property_lease_state \<Rightarrow> property_lease_state" where
  "stagedLease name v resets s =
     s\<lparr> ls_previousApplied := ls_lastApplied s, ls_previousIOWeightTargets := ls_ioWeightTargets s,
        ls_pendingIOWeightResets := resets, ls_lastApplied := clonePropertyValue name v,
        ls_lease := publicPropertyLease name (ls_baseline s) (clonePropertyValue name v), ls_uncertain := True \<rparr>"

definition stageAssignment ::
  "boundary \<Rightarrow> unit_identity \<Rightarrow> unit_snapshot \<Rightarrow> property_assignment \<Rightarrow> (lease_key \<times> property_lease_state) adapter_op" where
  "stageAssignment bd identity before a =
     (case PropertySet_propertyValue (us_Properties before) (pa_name a) of
        None \<Rightarrow> failR (malformedReply ''apply'' (ui_Name identity))
      | Some current \<Rightarrow>
          bindR (readR (\<lambda>m. map_of (leases m) (identity, pa_name a))) (\<lambda>lease.
          bindR (liftR (ownedLease identity current a lease)) (\<lambda>state.
          bindR (if lease \<noteq> None \<and> pa_name a = PropertyIODeviceWeight then
                   prepareResets bd ''apply_reset_preflight'' identity
                     \<lparr> pa_name = PropertyIODeviceWeight, pa_value = clonePropertyValue PropertyIODeviceWeight (ls_lastApplied state),
                       pa_targets = ls_ioWeightTargets state \<rparr> a
                 else retR []) (\<lambda>resets.
          let staged = stagedLease (pa_name a) (pa_value a) resets state
          in retR ((identity, pa_name a),
               if pa_name a = PropertyIODeviceWeight then staged\<lparr> ls_ioWeightTargets := pa_targets a \<rparr> else staged)))))"

definition stageApply ::
  "unit_identity \<Rightarrow> (lease_key \<times> property_lease_state) list \<Rightarrow> property_assignment list \<Rightarrow> machine \<Rightarrow> machine" where
  "stageApply identity staged validated m =
     m\<lparr> leases := fold (\<lambda>(k, s). AList.update k s) staged (leases m),
        overrides := AList.update identity
          (stageManagedUnitFileMutation (ui_Name identity) (overrideOf m identity) validated) (overrides m),
        phases := AList.update (ui_Name identity) leasePhaseApplying (phases m) \<rparr>"

definition preflightApply :: "boundary \<Rightarrow> unit_identity \<Rightarrow> unit_snapshot \<Rightarrow> property_assignment \<Rightarrow> unit adapter_op" where
  "preflightApply bd identity before a =
     callR (\<lambda>t. bd_preflightApply bd t before [a]) (\<lambda>_. CallPreflight (ui_Name identity))
       (\<lambda>ok. if ok then Inr () else Inl (AdapterError ReasonKernelVerification ''apply_preflight'' (ui_Name identity) (pa_name a)))"

text \<open>Whether a settled lease already has the requested values; then nothing is written.\<close>

definition alreadyApplied :: "boundary \<Rightarrow> unit_identity \<Rightarrow> unit_snapshot \<Rightarrow> property_assignment list \<Rightarrow> bool adapter_op" where
  "alreadyApplied bd identity before validated =
     bindR (readR (\<lambda>m. map_of (overrides m) identity \<noteq> None \<and> phaseOf m (ui_Name identity) = leasePhaseApplied)) (\<lambda>settled.
       if \<not> settled then retR False
       else
         bindR (captureFootprint bd before) (\<lambda>actual.
         bindR (readR (\<lambda>m. uo_fingerprints (overrideOf m identity))) (\<lambda>expected.
         bindR (checkR (actual = expected) (externalRecoveryConflict (ui_Name identity))) (\<lambda>_.
         bindR (readR (\<lambda>m. propertiesMatch (ui_Name identity) ls_lastApplied before m \<and>
                           appliedAssignmentsMatch identity before validated m)) (\<lambda>same.
           if \<not> same then retR False
           else
             bindR (verifyKernel bd before validated) (\<lambda>failure.
             bindR (checkR (failure = None)
                      (AdapterError ReasonKernelVerification ''apply_readback'' (ui_Name identity) [])) (\<lambda>_.
             retR True)))))))"

definition Apply :: "boundary \<Rightarrow> unit_identity \<Rightarrow> property_assignment list \<Rightarrow> unit_snapshot adapter_op" where
  "Apply bd identity assignments =
     bindR (requireOpen ''apply'') (\<lambda>_.
     bindR (requireUnblocked (ui_Name identity)) (\<lambda>_.
     bindR (liftR (validateAssignments assignments)) (\<lambda>validated.
     bindR (readUnit bd (ui_Name identity) (ui_ObjectPath identity)) (\<lambda>before.
     bindR (requireSameIdentity ''apply'' identity (us_Identity before)) (\<lambda>_.
     bindR (readR (\<lambda>m. (overrideOf m identity, map_of (overrides m) identity \<noteq> None))) (\<lambda>(current, tracked).
     bindR (requireManagedUnitFileFootprint bd ''apply'' before current tracked) (\<lambda>_.
     bindR (forR (preflightApply bd identity before) (filter (\<lambda>a. pa_name a = PropertyIODeviceWeight) validated)) (\<lambda>_.
     bindR (alreadyApplied bd identity before validated) (\<lambda>unchanged.
       if unchanged then retR before
       else
         bindR (mapR (stageAssignment bd identity before) validated) (\<lambda>staged.
         bindR (stageDurably bd (stageApply identity staged validated)) (\<lambda>_.
         bindR (setUnitProperties bd ''apply'' (ui_Name identity) (systemdMutationAssignments before validated)) (\<lambda>_.
         confirmMutation bd ''apply'' True identity validated))))))))))))"

section \<open>Confirmation without change\<close>

definition confirmAssignment :: "unit_identity \<Rightarrow> unit_snapshot \<Rightarrow> property_assignment \<Rightarrow> unit adapter_op" where
  "confirmAssignment identity snapshot a =
     bindR (readR (\<lambda>m. map_of (leases m) (identity, pa_name a))) (\<lambda>lease.
       case lease of
         None \<Rightarrow> failR (AdapterError ReasonReadbackMismatch ''confirm_applied'' (ui_Name identity) (pa_name a))
       | Some s \<Rightarrow>
           bindR (checkR (propertyValuesEqual (pa_name a) (ls_lastApplied s) (pa_value a) \<and> ls_ioWeightTargets s = pa_targets a)
                    (AdapterError ReasonReadbackMismatch ''confirm_applied'' (ui_Name identity) (pa_name a))) (\<lambda>_.
             case PropertySet_propertyValue (us_Properties snapshot) (pa_name a) of
               None \<Rightarrow> failR (malformedReply ''confirm_applied'' (ui_Name identity))
             | Some current \<Rightarrow> checkR (propertyValuesEqual (pa_name a) current (ls_lastApplied s))
                   (externalConflictFor ''confirm_applied'' (ui_Name identity) (pa_name a))))"

definition ConfirmApplied :: "boundary \<Rightarrow> unit_identity \<Rightarrow> property_assignment list \<Rightarrow> unit_snapshot adapter_op" where
  "ConfirmApplied bd identity assignments =
     bindR (requireOpen ''confirm_applied'') (\<lambda>_.
     bindR (liftR (validateAssignments assignments)) (\<lambda>validated.
     bindR (readUnit bd (ui_Name identity) (ui_ObjectPath identity)) (\<lambda>snapshot.
     bindR (requireSameIdentity ''confirm_applied'' identity (us_Identity snapshot)) (\<lambda>_.
     bindR (readR (\<lambda>m. map_of (overrides m) identity \<noteq> None \<and> phaseOf m (ui_Name identity) = leasePhaseApplied)) (\<lambda>settled.
     bindR (checkR settled (AdapterError ReasonReadbackMismatch ''confirm_applied'' (ui_Name identity) [])) (\<lambda>_.
     bindR (readR (\<lambda>m. overrideOf m identity)) (\<lambda>override.
     bindR (requireManagedUnitFileFootprint bd ''confirm_applied'' snapshot override True) (\<lambda>_.
     bindR (captureFootprint bd snapshot) (\<lambda>actual.
     bindR (checkR (actual = uo_fingerprints override) (externalRecoveryConflict (ui_Name identity))) (\<lambda>_.
     bindR (forR (confirmAssignment identity snapshot) validated) (\<lambda>_.
     bindR (verifyKernel bd snapshot validated) (\<lambda>failure.
     bindR (checkR (failure = None) (AdapterError ReasonKernelVerification ''confirm_applied'' (ui_Name identity) [])) (\<lambda>_.
     retR snapshot)))))))))))))"

section \<open>Restoring selected properties\<close>

record restore_result =
  rr_Restored :: "property_name list"
  rr_Conflicts :: "property_conflict list"

definition publicPropertyConflict :: "property_name \<Rightarrow> property_value \<Rightarrow> property_value \<Rightarrow> property_conflict" where
  "publicPropertyConflict name lastApplied current =
     \<lparr> pc_Property = name, pc_LastApplied = clonePropertyValue name lastApplied, pc_Current = clonePropertyValue name current \<rparr>"

text \<open>The assignment that restores a lease's baseline.\<close>

definition baselineAssignment :: "property_name \<Rightarrow> property_lease_state \<Rightarrow> property_assignment" where
  "baselineAssignment name s =
     \<lparr> pa_name = name, pa_value = clonePropertyValue name (ls_baseline s), pa_targets = ls_ioWeightTargets s \<rparr>"

definition setLease :: "lease_key \<Rightarrow> property_lease_state \<Rightarrow> machine \<Rightarrow> machine" where
  "setLease k s m = m\<lparr> leases := AList.update k s (leases m) \<rparr>"

text \<open>
  The loop over the selected properties: what is already at its baseline, what an outsider changed and
  what has to be set. A property the snapshot lacks ends the operation.
\<close>

fun selectRestores ::
  "unit_identity \<Rightarrow> unit_snapshot \<Rightarrow> property_name list \<Rightarrow>
   (property_name list \<times> property_conflict list \<times> property_assignment list) adapter_op" where
  "selectRestores identity current [] = retR ([], [], [])"
| "selectRestores identity current (p # ps) =
     bindR (readR (\<lambda>m. map_of (leases m) (identity, p))) (\<lambda>lease.
       case lease of
         None \<Rightarrow> selectRestores identity current ps
       | Some state \<Rightarrow>
           (case PropertySet_propertyValue (us_Properties current) p of
              None \<Rightarrow> failR (malformedReply ''restore_properties'' (ui_Name identity))
            | Some v \<Rightarrow>
                (case resolveUncertainOwnership v state of
                   (owned, resolved) \<Rightarrow>
                     if \<not> owned then
                       bindR (selectRestores identity current ps) (\<lambda>(restored, conflicts, as).
                       retR (restored, publicPropertyConflict p (ls_lastApplied state) v # conflicts, as))
                     else
                       bindR (writeR (setLease (identity, p) resolved)) (\<lambda>_.
                       bindR (selectRestores identity current ps) (\<lambda>(restored, conflicts, as).
                       if propertyValuesEqual p v (ls_baseline resolved) then retR (p # restored, conflicts, as)
                       else retR (restored, conflicts, baselineAssignment p resolved # as))))))"

text \<open>The staged lease of a property that is set back; an error of the reset preparation undoes the staging.\<close>

definition stageRestore :: "boundary \<Rightarrow> unit_identity \<Rightarrow> property_assignment \<Rightarrow> unit adapter_op" where
  "stageRestore bd identity a =
     bindR (readR (\<lambda>m. map_of (leases m) (identity, pa_name a))) (\<lambda>lease.
       case lease of
         None \<Rightarrow> retR ()
       | Some state \<Rightarrow>
           bindR (if pa_name a = PropertyIODeviceWeight then
                    prepareResets bd ''restore_properties_reset_preflight'' identity
                      \<lparr> pa_name = PropertyIODeviceWeight, pa_value = clonePropertyValue PropertyIODeviceWeight (ls_lastApplied state),
                        pa_targets = ls_ioWeightTargets state \<rparr> a
                  else retR []) (\<lambda>resets.
           writeR (setLease (identity, pa_name a) (stagedLease (pa_name a) (pa_value a) resets state))))"

definition undoOnError :: "unit adapter_op \<Rightarrow> unit adapter_op" where
  "undoOnError op =
     bindR (readR (\<lambda>m. m)) (\<lambda>before.
     bindR (tryR op) (\<lambda>r. case r of
         Inl e \<Rightarrow> bindR (writeR (restoreLeaseState before)) (\<lambda>_. failR e)
       | Inr _ \<Rightarrow> retR ()))"

text \<open>
  Staging, write-ahead, dispatch and confirmation of properties that go back, in \<open>RestoreProperties\<close>
  with a new footprint and in \<^verbatim>\<open>restoreOwnedPropertiesWithoutRevert\<close> with the recorded one.
\<close>

definition setOwnedProperties :: "boundary \<Rightarrow> bool \<Rightarrow> unit_identity \<Rightarrow> property_assignment list \<Rightarrow> unit adapter_op" where
  "setOwnedProperties bd grow identity as =
     bindR (undoOnError
       (bindR (forR (stageRestore bd identity) as) (\<lambda>_.
        bindR (writeR (\<lambda>m. m\<lparr>
           overrides := (if grow then AList.update identity
               (stageManagedUnitFileMutation (ui_Name identity) (overrideOf m identity) as) (overrides m) else overrides m),
           phases := AList.update (ui_Name identity) leasePhaseApplying (phases m) \<rparr>)) (\<lambda>_.
        persistLeaseState bd)))) (\<lambda>_.
     bindR (setUnitProperties bd ''restore_properties'' (ui_Name identity) as) (\<lambda>_.
     bindR (confirmMutation bd ''restore_properties'' False identity as) (\<lambda>_. retR ())))"

definition RestoreProperties ::
  "boundary \<Rightarrow> unit_identity \<Rightarrow> property_name list \<Rightarrow> (restore_result \<times> adapter_error option) adapter_op" where
  "RestoreProperties bd identity properties =
     bindR (requireOpen ''restore_properties'') (\<lambda>_.
     bindR (requireUnblocked (ui_Name identity)) (\<lambda>_.
     bindR (liftR (validateRestoreProperties properties)) (\<lambda>selected.
     bindR (readUnit bd (ui_Name identity) (ui_ObjectPath identity)) (\<lambda>current.
     bindR (requireSameIdentity ''restore_properties'' identity (us_Identity current)) (\<lambda>_.
     bindR (readR (\<lambda>m. (overrideOf m identity, map_of (overrides m) identity \<noteq> None))) (\<lambda>(override, tracked).
     bindR (requireManagedUnitFileFootprint bd ''restore_properties'' current override tracked) (\<lambda>_.
     bindR (if tracked then
              bindR (captureFootprint bd current) (\<lambda>actual.
              checkR (actual = uo_fingerprints override) (externalRecoveryConflict (ui_Name identity)))
            else retR ()) (\<lambda>_.
     bindR (selectRestores identity current selected) (\<lambda>(restored, conflicts, as).
     bindR (if as = [] then retR () else setOwnedProperties bd True identity as) (\<lambda>_.
     retR (\<lparr> rr_Restored = sort (restored @ map pa_name as), rr_Conflicts = sort_key pc_Property conflicts \<rparr>,
           conflictError (ui_Name identity) (sort_key pc_Property conflicts))))))))))))"

section \<open>Restoring units\<close>

record unit_restore =
  ur_identity :: unit_identity
  ur_restore :: "property_assignment list"
  ur_owned :: "property_name list"
  ur_result :: restore_result
  ur_err :: "adapter_error option"
  ur_pending :: bool

definition newUnitRestore :: "unit_identity \<Rightarrow> unit_restore" where
  "newUnitRestore i = \<lparr> ur_identity = i, ur_restore = [], ur_owned = [], ur_result = \<lparr> rr_Restored = [], rr_Conflicts = [] \<rparr>,
                        ur_err = None, ur_pending = False \<rparr>"

definition unitRestore_failed :: "adapter_error option \<Rightarrow> unit_restore \<Rightarrow> unit_restore" where
  "unitRestore_failed e p = p\<lparr> ur_err := e, ur_pending := False \<rparr>"

definition effectiveBaseline :: "property_assignment \<Rightarrow> property_assignment" where
  "effectiveBaseline a =
     (if (pa_name a = PropertyCPUWeight \<or> pa_name a = PropertyIOWeight) \<and> pv_scalar (pa_value a) = SystemdUnset
      then (clonePropertyAssignment a)\<lparr> pa_value := scalarPropertyValue 100 \<rparr> else clonePropertyAssignment a)"

definition effectiveBaselineAssignments :: "property_assignment list \<Rightarrow> property_assignment list" where
  "effectiveBaselineAssignments as = map effectiveBaseline as"

text \<open>
  \<open>attempts\<close> is how often the deadline lets the loop of \<^verbatim>\<open>verifyRestored\<close> start; only a kernel value
  that has not converged starts it again.
\<close>

fun verifyRestoredFor :: "boundary \<Rightarrow> unit_identity \<Rightarrow> property_assignment list \<Rightarrow> nat \<Rightarrow> unit adapter_op" where
  "verifyRestoredFor bd identity as 0 = failR (AdapterError ReasonTimeout ''restore_readback'' (ui_Name identity) [])"
| "verifyRestoredFor bd identity as (Suc attempts) =
     bindR (readbackUnit bd ''restore_readback'' identity as) (\<lambda>after.
     bindR (requireManagedUnitFileFootprint bd ''restore_readback'' after emptyOverride False) (\<lambda>_.
     bindR (verifyKernel bd after as) (\<lambda>failure.
       case failure of
         None \<Rightarrow> retR ()
       | Some KernelFailure \<Rightarrow> failR (AdapterError ReasonKernelVerification ''restore_readback'' (ui_Name identity) [])
       | Some KernelValueMismatch \<Rightarrow>
           if attempts = 0
           then failR (JoinedError [AdapterError ReasonKernelVerification ''restore_readback'' (ui_Name identity) [],
                                    AdapterError ReasonTimeout [] [] []])
           else verifyRestoredFor bd identity as attempts)))"

definition verifyRestored :: "boundary \<Rightarrow> unit_identity \<Rightarrow> property_assignment list \<Rightarrow> unit adapter_op" where
  "verifyRestored bd identity as =
     bindR (readR (\<lambda>m. bd_attempts bd (trace m))) (\<lambda>n. verifyRestoredFor bd identity as n)"

text \<open>Which leases of the unit are still owned, resolved against the snapshot.\<close>

definition resolveLease :: "unit_snapshot \<Rightarrow> property_name \<Rightarrow> property_lease_state \<Rightarrow> bool \<times> property_lease_state" where
  "resolveLease current p s =
     (case PropertySet_propertyValue (us_Properties current) p of
        Some v \<Rightarrow> resolveUncertainOwnership v s | None \<Rightarrow> (False, s))"

definition currentValue :: "unit_snapshot \<Rightarrow> property_name \<Rightarrow> property_value" where
  "currentValue current p = (case PropertySet_propertyValue (us_Properties current) p of
     Some v \<Rightarrow> v | None \<Rightarrow> \<lparr> pv_scalar = 0, pv_devices = [] \<rparr>)"

definition ownedOf :: "unit_snapshot \<Rightarrow> (lease_key \<times> property_lease_state) list \<Rightarrow> (property_name \<times> property_lease_state) list" where
  "ownedOf current ls =
     map (\<lambda>(k, s). (snd k, snd (resolveLease current (snd k) s))) (filter (\<lambda>(k, s). fst (resolveLease current (snd k) s)) ls)"

definition conflictsOf :: "unit_snapshot \<Rightarrow> (lease_key \<times> property_lease_state) list \<Rightarrow> property_conflict list" where
  "conflictsOf current ls =
     sort_key pc_Property (map (\<lambda>(k, s). publicPropertyConflict (snd k) (ls_lastApplied s) (currentValue current (snd k)))
       (filter (\<lambda>(k, s). \<not> fst (resolveLease current (snd k) s)) ls))"

definition atBaseline :: "unit_snapshot \<Rightarrow> property_name \<times> property_lease_state \<Rightarrow> bool" where
  "atBaseline current ps = propertyValuesEqual (fst ps) (currentValue current (fst ps)) (ls_baseline (snd ps))"

text \<open>Before the leases are looked at: the unit is the one asked for and its files are ours or gone.\<close>

definition checkRestorable :: "boundary \<Rightarrow> unit_identity \<Rightarrow> (unit_snapshot \<times> string list) adapter_op" where
  "checkRestorable bd identity =
     bindR (requireUnblocked (ui_Name identity)) (\<lambda>_.
     bindR (readUnit bd (ui_Name identity) (ui_ObjectPath identity)) (\<lambda>current.
     bindR (requireSameIdentity ''restore'' identity (us_Identity current)) (\<lambda>_.
     bindR (readR (\<lambda>m. (overrideOf m identity, map_of (overrides m) identity \<noteq> None))) (\<lambda>(override, tracked).
     bindR (combinedMutableUnitFilePaths bd current) (\<lambda>paths.
     bindR (requireRestorableUnitFileFootprint (ui_Name identity) paths override tracked) (\<lambda>_.
     bindR (if tracked \<and> paths \<noteq> [] then
              bindR (fingerprints bd ''restore'' (ui_Name identity) paths) (\<lambda>actual.
              bindR (readR (\<lambda>m. phaseOf m (ui_Name identity))) (\<lambda>phase.
                if phase = leasePhaseApplying \<and> map uf_path actual = uo_managedPaths override
                then writeR (\<lambda>m. m\<lparr> overrides := AList.update identity (override\<lparr> uo_fingerprints := actual \<rparr>) (overrides m) \<rparr>)
                else checkR (actual = uo_fingerprints override) (externalRecoveryConflict (ui_Name identity))))
            else retR ()) (\<lambda>_.
     bindR (readR (\<lambda>m. list_all (\<lambda>(k, s). PropertySet_propertyValue (us_Properties current) (snd k) \<noteq> None)
                          (unitLeases m identity))) (\<lambda>complete.
     bindR (checkR complete (malformedReply ''restore'' (ui_Name identity))) (\<lambda>_. retR (current, paths))))))))))"

text \<open>Between the reset of the values and the removal of the files: nothing changed meanwhile.\<close>

definition recheckBeforeRevert :: "boundary \<Rightarrow> unit_identity \<Rightarrow> unit adapter_op" where
  "recheckBeforeRevert bd identity =
     bindR (readUnit bd (ui_Name identity) (ui_ObjectPath identity)) (\<lambda>refreshed.
     bindR (requireSameIdentity ''restore_before_revert'' identity (us_Identity refreshed)) (\<lambda>_.
     bindR (readR (propertiesMatch (ui_Name identity) ls_lastApplied refreshed)) (\<lambda>same.
     bindR (checkR same (externalRecoveryConflict (ui_Name identity))) (\<lambda>_.
     bindR (readR (\<lambda>m. overrideOf m identity)) (\<lambda>override.
     bindR (requireManagedUnitFileFootprint bd ''restore_before_revert'' refreshed override True) (\<lambda>_.
     bindR (captureFootprint bd refreshed) (\<lambda>actual.
     checkR (actual = uo_fingerprints override) (externalRecoveryConflict (ui_Name identity)))))))))"

text \<open>
  What is done about the leases \<open>ls\<close> of the unit, once they are resolved against the snapshot: conflicts
  end the restore, values off their baseline are set first, and only then the plan is pending.
\<close>

definition planUnitRestore ::
  "boundary \<Rightarrow> unit_identity \<Rightarrow> unit_snapshot \<Rightarrow> string list \<Rightarrow> (lease_key \<times> property_lease_state) list \<Rightarrow> unit_override_lease \<Rightarrow>
   unit_restore adapter_op" where
  "planUnitRestore bd identity current paths ls override =
     (let owned = ownedOf current ls;
          conflicts = conflictsOf current ls;
          needed = sort_key pa_name (map (\<lambda>(p, s). baselineAssignment p s) (filter (\<lambda>ps. \<not> atBaseline current ps) owned));
          done = map fst (filter (atBaseline current) owned);
          plan = (newUnitRestore identity)\<lparr>
            ur_restore := sort_key pa_name (map (\<lambda>(p, s). baselineAssignment p s) owned),
            ur_owned := sort (map fst owned), ur_result := \<lparr> rr_Restored = done, rr_Conflicts = conflicts \<rparr> \<rparr>;
          planNeeded = plan\<lparr> ur_result := \<lparr> rr_Restored = done @ map pa_name needed, rr_Conflicts = conflicts \<rparr> \<rparr>
      in if conflicts \<noteq> [] then
           (if needed = [] then retR (unitRestore_failed (conflictError (ui_Name identity) conflicts) plan)
            else bindR (tryR (setOwnedProperties bd False identity needed)) (\<lambda>r. case r of
                Inl e \<Rightarrow> retR (unitRestore_failed (Some (JoinedError [e, RestoreConflictError (ui_Name identity) conflicts])) plan)
              | Inr _ \<Rightarrow> retR (unitRestore_failed (conflictError (ui_Name identity) conflicts) planNeeded)))
         else if owned = [] then retR plan
         else if needed = [] \<and> paths = [] then
           bindR (tryR (bindR (verifyRestored bd identity (ur_restore plan)) (\<lambda>_. removeUnitLeaseDurably bd (ui_Name identity)))) (\<lambda>r.
             retR (unitRestore_failed (case r of Inl e \<Rightarrow> Some e | Inr _ \<Rightarrow> None) plan))
         else if uo_managedPaths override = [] then
           retR (unitRestore_failed (Some (AdapterError ReasonUnitFileVerification ''restore'' (ui_Name identity) [])) plan)
         else if needed = [] then retR (plan\<lparr> ur_pending := True \<rparr>)
         else bindR (tryR (setOwnedProperties bd False identity (effectiveBaselineAssignments needed))) (\<lambda>r. case r of
             Inl e \<Rightarrow> retR (unitRestore_failed (Some e) plan)
           | Inr _ \<Rightarrow>
               bindR (tryR (recheckBeforeRevert bd identity)) (\<lambda>r. case r of
                 Inl e \<Rightarrow> retR (unitRestore_failed (Some e) planNeeded)
               | Inr _ \<Rightarrow> retR (planNeeded\<lparr> ur_pending := True \<rparr>))))"

definition prepareUnitRestore :: "boundary \<Rightarrow> unit_identity \<Rightarrow> unit_restore adapter_op" where
  "prepareUnitRestore bd identity =
     bindR (tryR (checkRestorable bd identity)) (\<lambda>r. case r of
       Inl e \<Rightarrow> retR (unitRestore_failed (Some e) (newUnitRestore identity))
     | Inr (current, paths) \<Rightarrow>
         bindR (readR (\<lambda>m. (unitLeases m identity, overrideOf m identity))) (\<lambda>(ls, override).
         bindR (writeR (mapLeases identity (\<lambda>p s. if fst (resolveLease current p s) then snd (resolveLease current p s) else s))) (\<lambda>_.
         planUnitRestore bd identity current paths ls override)))"

definition failUnitRestores :: "adapter_error \<Rightarrow> unit_restore list \<Rightarrow> unit_restore list" where
  "failUnitRestores e plans = map (\<lambda>p. if ur_pending p then unitRestore_failed (Some e) p else p) plans"

definition pendingUnitRestores :: "unit_restore list \<Rightarrow> unit_restore list" where
  "pendingUnitRestores plans = filter ur_pending plans"

definition stageUnitRevert :: "unit_restore \<Rightarrow> machine \<Rightarrow> machine" where
  "stageUnitRevert plan m =
     (mapLeases (ur_identity plan) (\<lambda>p s. if p \<in> set (ur_owned plan) then
          s\<lparr> ls_previousApplied := ls_lastApplied s, ls_lastApplied := clonePropertyValue p (ls_baseline s),
             ls_lease := publicPropertyLease p (ls_baseline s) (clonePropertyValue p (ls_baseline s)), ls_uncertain := True \<rparr>
        else s) m)\<lparr> phases := AList.update (ui_Name (ur_identity plan)) leasePhaseRestoring (phases m) \<rparr>"

definition setPhase :: "lease_phase \<Rightarrow> string \<Rightarrow> machine \<Rightarrow> machine" where
  "setPhase phase unit m = m\<lparr> phases := AList.update unit phase (phases m) \<rparr>"

text \<open>A step of one pending plan; the others stay.\<close>

definition stepPlan :: "(unit_restore \<Rightarrow> unit adapter_op) \<Rightarrow> unit_restore \<Rightarrow> unit_restore adapter_op" where
  "stepPlan f plan =
     (if ur_pending plan then
        bindR (tryR (f plan)) (\<lambda>r. retR (case r of Inl e \<Rightarrow> unitRestore_failed (Some e) plan | Inr _ \<Rightarrow> plan))
      else retR plan)"

definition finishedPlan :: "unit_restore \<Rightarrow> unit_restore" where
  "finishedPlan plan =
     (if ur_pending plan then
        plan\<lparr> ur_result := (ur_result plan)\<lparr> rr_Restored :=
                 rr_Restored (ur_result plan) @ filter (\<lambda>p. p \<notin> set (rr_Restored (ur_result plan))) (ur_owned plan) \<rparr>,
              ur_pending := False \<rparr>
      else plan)"

definition unitName :: "unit_restore \<Rightarrow> string" where
  "unitName plan = ui_Name (ur_identity plan)"

definition revertPending :: "boundary \<Rightarrow> unit_restore list \<Rightarrow> unit_restore list adapter_op" where
  "revertPending bd plans =
     bindR (tryR (stageDurably bd (fold stageUnitRevert (pendingUnitRestores plans)))) (\<lambda>r. case r of
       Inl e \<Rightarrow> retR (failUnitRestores e plans)
     | Inr _ \<Rightarrow> mapR (stepPlan (\<lambda>p. revertUnitFiles bd ''restore'' (unitName p))) plans)"

definition reloadPending :: "boundary \<Rightarrow> unit_restore list \<Rightarrow> unit_restore list adapter_op" where
  "reloadPending bd plans =
     (let pending = pendingUnitRestores plans in
      if pending = [] then retR plans
      else bindR (tryR (stageDurably bd (fold (setPhase leasePhaseReloading \<circ> unitName) pending))) (\<lambda>r. case r of
          Inl e \<Rightarrow> retR (failUnitRestores e plans)
        | Inr _ \<Rightarrow>
            bindR (reload bd) (\<lambda>failure. case failure of
              Some e \<Rightarrow> retR (map (\<lambda>p. if ur_pending p
                  then unitRestore_failed (Some (classifyTransportError ''restore_reload'' (unitName p) e)) p else p) plans)
            | None \<Rightarrow> mapR (stepPlan (\<lambda>p. verifyRestored bd (ur_identity p) (ur_restore p))) plans)))"

definition removePending :: "boundary \<Rightarrow> unit_restore list \<Rightarrow> unit_restore list adapter_op" where
  "removePending bd plans =
     (let pending = pendingUnitRestores plans in
      if pending = [] then retR plans
      else bindR (tryR (removeUnitLeasesDurably bd (map unitName pending))) (\<lambda>r. case r of
          Inl e \<Rightarrow> retR (failUnitRestores e plans)
        | Inr _ \<Rightarrow> retR (map finishedPlan plans)))"

definition finishUnitRestores :: "boundary \<Rightarrow> unit_restore list \<Rightarrow> unit_restore list adapter_op" where
  "finishUnitRestores bd plans =
     (if pendingUnitRestores plans = [] then retR plans
      else bindR (revertPending bd plans) (\<lambda>reverted.
           bindR (reloadPending bd reverted) (\<lambda>reloaded.
           removePending bd reloaded)))"

fun prepareUnitRestores :: "boundary \<Rightarrow> string list \<Rightarrow> unit_identity list \<Rightarrow> unit_restore list adapter_op" where
  "prepareUnitRestores bd requested [] = retR []"
| "prepareUnitRestores bd requested (i # is) =
     bindR (if ui_Name i \<in> set requested
            then retR (unitRestore_failed (Some (PlainError ''unit requested more than once in one batch'')) (newUnitRestore i))
            else prepareUnitRestore bd i) (\<lambda>plan.
     bindR (prepareUnitRestores bd (ui_Name i # requested) is) (\<lambda>plans. retR (plan # plans)))"

definition restoreUnits :: "boundary \<Rightarrow> unit_identity list \<Rightarrow> unit_restore list adapter_op" where
  "restoreUnits bd identities =
     bindR (prepareUnitRestores bd [] identities) (\<lambda>plans.
     bindR (finishUnitRestores bd plans) (\<lambda>finished.
     retR (map (\<lambda>p. p\<lparr> ur_result := (ur_result p)\<lparr> rr_Restored := sort (rr_Restored (ur_result p)) \<rparr> \<rparr>) finished)))"

definition RestoreUnits :: "boundary \<Rightarrow> unit_identity list \<Rightarrow> unit_restore list adapter_op" where
  "RestoreUnits bd identities =
     bindR (tryR (requireOpen ''restore'')) (\<lambda>r. case r of
       Inl e \<Rightarrow> retR (map (\<lambda>i. unitRestore_failed (Some e) (newUnitRestore i)) identities)
     | Inr _ \<Rightarrow> restoreUnits bd identities)"

definition Restore :: "boundary \<Rightarrow> unit_identity \<Rightarrow> unit_restore adapter_op" where
  "Restore bd identity =
     bindR (requireOpen ''restore'') (\<lambda>_.
     bindR (restoreUnits bd [identity]) (\<lambda>outcomes. retR (hd outcomes)))"

definition OwnedUnits :: "machine \<Rightarrow> unit_identity list" where
  "OwnedUnits m = sort_key ui_Name (map fst (overrides m))"

definition Leases :: "unit_identity \<Rightarrow> machine \<Rightarrow> property_lease list" where
  "Leases identity m = sort_key pl_Property (map (ls_lease \<circ> snd) (unitLeases m identity))"

definition Close :: "machine \<Rightarrow> machine" where
  "Close m = m\<lparr> closed := True \<rparr>"

end
