(* ===== verification/Write_Ahead.thy ===== *)
theory Write_Ahead
  imports Unit_Adapter
begin

text \<open>
  The write-ahead rule of the systemd boundary, over the trace of external calls: whatever changes
  systemd, a unit's files or the kernel is announced by the journal that was saved last. The rule
  is kept by every operation of the adapter, in each branch and for every behaviour of the outside.
\<close>

section \<open>The rule\<close>

fun lastSaved :: "call list \<Rightarrow> durable_lease_journal option" where
  "lastSaved [] = None"
| "lastSaved (c # t) = (case c of CallSave j True \<Rightarrow> Some j | CallLoad (Some j) \<Rightarrow> Some j | _ \<Rightarrow> lastSaved t)"

text \<open>The last property reply of a unit.\<close>

fun lastSlice :: "string \<Rightarrow> call list \<Rightarrow> dbus_properties option" where
  "lastSlice unit [] = None"
| "lastSlice unit (c # t) =
     (case c of
        CallSliceProperties u (Some sp) \<Rightarrow> if u = unit then Some sp else lastSlice unit t
      | _ \<Rightarrow> lastSlice unit t)"

definition durableLast :: "durable_property_lease \<Rightarrow> property_value" where
  "durableLast p = durablePropertyValue (dp_Property p) (dp_LastApplied p) (dp_LastAppliedDeviceLimits p)"

definition durablePrevious :: "durable_property_lease \<Rightarrow> property_value" where
  "durablePrevious p = durablePropertyValue (dp_Property p) (dp_PreviousApplied p) (dp_PreviousDeviceLimits p)"

text \<open>
  A value may be set when the journal records, as an uncertain change of this property, the value
  that was last read from the unit as the previous one and the value to be set as the next one. The
  empty device list that precedes a shrinking device list is recorded under the same property.
\<close>

definition announced :: "call list \<Rightarrow> string \<Rightarrow> durable_unit_lease \<Rightarrow> property_assignment \<Rightarrow> bool" where
  "announced t unit u a \<longleftrightarrow>
     (\<exists>p \<in> set (du_Properties u). dp_Property p = pa_name a \<and> dp_Uncertain p \<and>
        (\<exists>sp v. lastSlice unit t = Some sp \<and> readProperty sp (pa_name a) = Some v \<and>
                propertyValuesEqual (pa_name a) v (durablePrevious p)) \<and>
        (propertyValuesEqual (pa_name a) (pa_value a) (durableLast p) \<or>
         pa_name a = PropertyIODeviceWeight \<and> pv_devices (pa_value a) = []))"

definition permittedSet :: "call list \<Rightarrow> string \<Rightarrow> property_assignment list \<Rightarrow> bool" where
  "permittedSet t unit as \<longleftrightarrow>
     (\<exists>j u. lastSaved t = Some j \<and> u \<in> set (dj_Units j) \<and> du_Unit u = unit \<and> du_Phase u = leasePhaseApplying \<and>
            (\<forall>a \<in> set as. announced t unit u a))"

definition permittedRevert :: "call list \<Rightarrow> string \<Rightarrow> bool" where
  "permittedRevert t unit \<longleftrightarrow>
     (\<exists>j u. lastSaved t = Some j \<and> u \<in> set (dj_Units j) \<and> du_Unit u = unit \<and> du_Phase u = leasePhaseRestoring \<and>
            list_all dp_Uncertain (du_Properties u))"

definition permittedReload :: "call list \<Rightarrow> bool" where
  "permittedReload t \<longleftrightarrow>
     (\<exists>j u. lastSaved t = Some j \<and> u \<in> set (dj_Units j) \<and> du_Phase u \<in> {leasePhaseRestoring, leasePhaseReloading})"

definition permittedReset :: "call list \<Rightarrow> string \<Rightarrow> io_device_weight_reset list \<Rightarrow> bool" where
  "permittedReset t unit resets \<longleftrightarrow>
     (\<exists>j. lastSaved t = Some j \<and>
          (\<forall>r \<in> set resets. \<exists>u \<in> set (dj_Units j). du_Unit u = unit \<and> du_Phase u = leasePhaseApplying \<and>
             (\<exists>p \<in> set (du_Properties u). dp_Uncertain p \<and> r \<in> set (dp_PendingIODeviceWeightResets p))))"

fun permitted :: "call list \<Rightarrow> call \<Rightarrow> bool" where
  "permitted t (CallSetUnitProperties unit as) = permittedSet t unit as"
| "permitted t (CallRevertUnitFiles unit) = permittedRevert t unit"
| "permitted t CallReload = permittedReload t"
| "permitted t (CallResetOverrides unit resets) = permittedReset t unit resets"
| "permitted t _ = True"

fun writeAhead :: "call list \<Rightarrow> bool" where
  "writeAhead [] = True"
| "writeAhead (c # t) \<longleftrightarrow> permitted t c \<and> writeAhead t"

section \<open>Operations that only look\<close>

text \<open>A look changes nothing and is no announcement; a quiet one does not read properties either.\<close>

fun looks :: "call \<Rightarrow> bool" where
  "looks (CallSetUnitProperties _ _) = False"
| "looks (CallRevertUnitFiles _) = False"
| "looks CallReload = False"
| "looks (CallResetOverrides _ _) = False"
| "looks (CallSave _ _) = False"
| "looks (CallLoad _) = False"
| "looks _ = True"

fun quiet :: "call \<Rightarrow> bool" where
  "quiet (CallSliceProperties _ _) = False"
| "quiet c = looks c"

definition emits :: "(call \<Rightarrow> bool) \<Rightarrow> 'a adapter_op \<Rightarrow> bool" where
  "emits C op \<longleftrightarrow> (\<forall>m. \<exists>cs. list_all C cs \<and> snd (op m) = m\<lparr> trace := cs @ trace m \<rparr>)"

lemma looks_permitted: "looks c \<Longrightarrow> permitted t c"
  by (cases c) auto

lemma writeAhead_looks: "list_all looks cs \<Longrightarrow> writeAhead (cs @ t) = writeAhead t \<and> lastSaved (cs @ t) = lastSaved t"
  by (induction cs) (auto simp: looks_permitted split: call.splits bool.splits option.splits)

lemma lastSlice_quiet: "list_all quiet cs \<Longrightarrow> lastSlice unit (cs @ t) = lastSlice unit t"
  by (induction cs) (auto split: call.splits option.splits)

lemma quiet_looks: "quiet c \<Longrightarrow> looks c"
  by (cases c) auto

lemma emits_mono: "emits C op \<Longrightarrow> (\<And>c. C c \<Longrightarrow> D c) \<Longrightarrow> emits D op"
  unfolding emits_def by (metis list.pred_mono_strong)

lemma emits_bind:
  assumes m: "emits C m" and f: "\<And>x. emits C (f x)"
  shows "emits C (bindR m f)"
  unfolding emits_def
proof
  fix s
  obtain cs where cs: "list_all C cs" "snd (m s) = s\<lparr> trace := cs @ trace s \<rparr>" using m by (auto simp: emits_def)
  obtain r s' where run: "m s = (r, s')" by (cases "m s")
  show "\<exists>cs. list_all C cs \<and> snd (bindR m f s) = s\<lparr> trace := cs @ trace s \<rparr>"
  proof (cases r)
    case (Inl e)
    then show ?thesis using run cs by (auto simp: bindR_def)
  next
    case (Inr x)
    obtain ds where "list_all C ds" "snd (f x s') = s'\<lparr> trace := ds @ trace s' \<rparr>" using f [of x] by (auto simp: emits_def)
    then show ?thesis using run cs Inr by (intro exI [of _ "ds @ cs"]) (simp add: bindR_def)
  qed
qed

lemma emits_simple:
  "emits C (retR x)" "emits C (failR e)" "emits C (liftR r)" "emits C (checkR b e')" "emits C (readR f)"
  by (simp_all add: emits_def op_defs exI [of _ "[]"])

lemma emits_call: "(\<And>r. C (rec r)) \<Longrightarrow> emits C (callR answer rec result)"
  unfolding emits_def
proof
  fix m assume "\<And>r. C (rec r)"
  then show "\<exists>cs. list_all C cs \<and> snd (callR answer rec result m) = m\<lparr> trace := cs @ trace m \<rparr>"
    by (intro exI [of _ "[rec (answer (trace m))]"]) (simp add: callR_def emit_def Let_def)
qed

lemma emits_try: "emits C m \<Longrightarrow> emits C (tryR m)"
  by (auto simp: emits_def tryR_def split: prod.splits) (metis snd_conv)

lemma emits_for: "(\<And>x. emits C (f x)) \<Longrightarrow> emits C (forR f xs)"
  by (induction xs) (auto intro: emits_bind emits_simple)

lemma emits_map: "(\<And>x. emits C (f x)) \<Longrightarrow> emits C (mapR f xs)"
  by (induction xs) (auto intro!: emits_bind emits_simple)

lemma emits_if: "(b \<Longrightarrow> emits C m) \<Longrightarrow> (\<not> b \<Longrightarrow> emits C n) \<Longrightarrow> emits C (if b then m else n)"
  by simp

lemma emits_case_option: "emits C m \<Longrightarrow> (\<And>y. emits C (f y)) \<Longrightarrow> emits C (case x of None \<Rightarrow> m | Some y \<Rightarrow> f y)"
  by (cases x) auto

lemma emits_case_prod: "(\<And>x y. emits C (f x y)) \<Longrightarrow> emits C (case p of (x, y) \<Rightarrow> f x y)"
  by (cases p) auto

lemmas emits_rules = emits_bind emits_simple emits_call emits_try emits_for emits_map emits_if emits_case_option emits_case_prod

lemma emits_footprint:
  "emits quiet (combinedMutableUnitFilePaths bd s)" "emits quiet (requireManagedUnitFileFootprint bd op s x b)"
  "emits quiet (captureFootprint bd s)" "emits quiet (fingerprints bd op u ps)" "emits quiet (verifyKernel bd s as)"
  "emits quiet (prepareResets bd op i a b')" "emits quiet (preflightApply bd i s a')"
  "emits quiet (requireSameIdentity op i i')" "emits quiet (requireOpen op)" "emits quiet (requireUnblocked u)"
  "emits quiet (verifyReadback op s as)"
  by (auto simp: combinedMutableUnitFilePaths_def requireManagedUnitFileFootprint_def captureFootprint_def
      mutablePaths_def fingerprints_def verifyKernel_def prepareResets_def preflightApply_def requireSameIdentity_def
      requireOpen_def requireUnblocked_def verifyReadback_def intro!: emits_rules)

lemma emits_readUnit: "emits looks (readUnit bd unit path)"
  unfolding readUnit_def unitProperties_def sliceProperties_def kernelControlGroupID_def
  by (intro emits_rules) simp_all

lemmas emits_looks = emits_footprint [THEN emits_mono [OF _ quiet_looks]] emits_readUnit

lemma emits_readbackUnit: "emits looks (readbackUnit bd op i as)"
  unfolding readbackUnit_def by (intro emits_rules emits_looks)

lemma emits_verifyRestoredFor: "emits looks (verifyRestoredFor bd i as n)"
  by (induction n) (auto intro!: emits_rules emits_looks emits_readbackUnit split: kernel_error.splits option.splits)

lemma emits_verifyRestored: "emits looks (verifyRestored bd i as)"
  unfolding verifyRestored_def by (intro emits_rules emits_verifyRestoredFor)

lemma emits_alreadyApplied: "emits quiet (alreadyApplied bd i s as)"
  unfolding alreadyApplied_def by (intro emits_rules emits_footprint)

lemma emits_stageAssignment: "emits quiet (stageAssignment bd i s a)"
  unfolding stageAssignment_def Let_def by (intro emits_rules emits_footprint)

lemma emits_ConfirmApplied: "emits looks (ConfirmApplied bd i as)"
  unfolding ConfirmApplied_def confirmAssignment_def by (intro emits_rules emits_looks)

lemma emits_recheck: "emits looks (recheckBeforeRevert bd i)"
  unfolding recheckBeforeRevert_def by (intro emits_rules emits_looks)

section \<open>What is true between calls\<close>

text \<open>The value a snapshot has is the one in the unit's last property reply.\<close>

definition fresh :: "unit_snapshot \<Rightarrow> string \<Rightarrow> machine \<Rightarrow> bool" where
  "fresh snapshot unit m \<longleftrightarrow>
     (\<exists>sp. lastSlice unit (trace m) = Some sp \<and>
           (\<forall>p v. PropertySet_propertyValue (us_Properties snapshot) p = Some v \<longrightarrow> readProperty sp p = Some v))"

text \<open>Every lease is filed once, under its own property and a unit on record.\<close>

definition leases_owned :: "'z adapter_scheme \<Rightarrow> bool" where
  "leases_owned m \<longleftrightarrow>
     distinct (map fst (leases m)) \<and>
     (\<forall>(k, s) \<in> set (leases m). pl_Property (ls_lease s) = snd k \<and> fst k \<in> fst ` set (overrides m))"

text \<open>A unit that is being restored is on record, and a unit on record has one of the four phases.\<close>

definition phased :: "'z adapter_scheme \<Rightarrow> bool" where
  "phased m \<longleftrightarrow>
     (\<forall>u. phaseOf m u \<in> {leasePhaseRestoring, leasePhaseReloading} \<longrightarrow> u \<in> ui_Name ` fst ` set (overrides m))"

definition phase_ok :: "'z adapter_scheme \<Rightarrow> bool" where
  "phase_ok m \<longleftrightarrow>
     (\<forall>i \<in> fst ` set (overrides m).
        phaseOf m (ui_Name i) \<in> {leasePhaseApplying, leasePhaseApplied, leasePhaseRestoring, leasePhaseReloading})"

text \<open>What memory may have to do next is on record already: reverts, reloads and pending resets.\<close>

definition covered :: "machine \<Rightarrow> bool" where
  "covered m \<longleftrightarrow>
     (\<forall>u. (phaseOf m u = leasePhaseRestoring \<longrightarrow> permittedRevert (trace m) u) \<and>
          (phaseOf m u \<in> {leasePhaseRestoring, leasePhaseReloading} \<longrightarrow> permittedReload (trace m))) \<and>
     (\<forall>(k, s) \<in> set (leases m).
        ls_pendingIOWeightResets s = [] \<or> permittedReset (trace m) (ui_Name (fst k)) (ls_pendingIOWeightResets s))"

text \<open>
  The invariant while the units of \<open>J\<close> have to stay on record; the base part also holds while a
  change is staged in memory and not yet saved.
\<close>

definition base_inv :: "unit_identity set \<Rightarrow> machine \<Rightarrow> bool" where
  "base_inv J m \<longleftrightarrow> writeAhead (trace m) \<and> leases_owned m \<and> phased m \<and> J \<subseteq> fst ` set (overrides m)"

definition rec_inv :: "unit_identity set \<Rightarrow> machine \<Rightarrow> bool" where
  "rec_inv J m \<longleftrightarrow> base_inv J m \<and> phase_ok m \<and> covered m"

definition adapter_inv :: "machine \<Rightarrow> bool" where
  "adapter_inv m \<longleftrightarrow> rec_inv {} m"

text \<open>Memory is what was saved last.\<close>

definition synced :: "boundary \<Rightarrow> machine \<Rightarrow> bool" where
  "synced bd m \<longleftrightarrow> (\<exists>j g. lastSaved (trace m) = Some j \<and> exportJournal (bd_devFits bd) m g = Some j)"

lemma exportJournal_trace [simp]: "exportJournal fits (m\<lparr> trace := t \<rparr>) g = exportJournal fits m g"
proof -
  have "unitToDurable (m\<lparr> trace := t \<rparr>) = unitToDurable m" by (auto simp: unitToDurable_def phaseOf_def)
  then show ?thesis by (simp add: exportJournal_def)
qed

lemma memory_fields [simp]:
  "leases_owned (m\<lparr> trace := t \<rparr>) = leases_owned m" "leases_owned (m\<lparr> generation := g \<rparr>) = leases_owned m"
  "leases_owned (m\<lparr> phases := ps \<rparr>) = leases_owned m" "phaseOf (m\<lparr> trace := t \<rparr>) u = phaseOf m u"
  "phaseOf (m\<lparr> generation := g \<rparr>) u = phaseOf m u" "phaseOf (m\<lparr> leases := ls \<rparr>) u = phaseOf m u"
  "phaseOf (m\<lparr> overrides := os \<rparr>) u = phaseOf m u"
  "phased (m\<lparr> trace := t \<rparr>) = phased m" "phased (m\<lparr> generation := g \<rparr>) = phased m" "phased (m\<lparr> leases := ls \<rparr>) = phased m"
  "phase_ok (m\<lparr> trace := t \<rparr>) = phase_ok m" "phase_ok (m\<lparr> generation := g \<rparr>) = phase_ok m" "phase_ok (m\<lparr> leases := ls \<rparr>) = phase_ok m"
  "covered (m\<lparr> generation := g \<rparr>) = covered m"
  by (simp_all add: leases_owned_def phased_def phase_ok_def covered_def phaseOf_def)

text \<open>All but the permission to set values depends on the journal alone.\<close>

lemma permitted_saved:
  assumes "lastSaved t = lastSaved t'"
  shows "permittedRevert t u = permittedRevert t' u" "permittedReload t = permittedReload t'" "permittedReset t u rs = permittedReset t' u rs"
  using assms by (simp_all add: permittedRevert_def permittedReload_def permittedReset_def)

lemma covered_saved: "lastSaved t = lastSaved (trace m) \<Longrightarrow> covered (m\<lparr> trace := t \<rparr>) = covered m"
  by (simp add: covered_def permitted_saved [of t "trace m"])

lemma leases_ownedD:
  "leases_owned m \<Longrightarrow> (k, s) \<in> set (leases m) \<Longrightarrow> pl_Property (ls_lease s) = snd k \<and> fst k \<in> fst ` set (overrides m)"
  by (auto simp: leases_owned_def)

lemma leases_ownedI:
  assumes "distinct (map fst (leases m))"
    "\<And>k s. (k, s) \<in> set (leases m) \<Longrightarrow> pl_Property (ls_lease s) = snd k \<and> fst k \<in> fst ` set (overrides m)"
  shows "leases_owned m"
  using assms unfolding leases_owned_def by blast

lemma coveredD:
  "covered m \<Longrightarrow> phaseOf m u = leasePhaseRestoring \<Longrightarrow> permittedRevert (trace m) u"
  "covered m \<Longrightarrow> phaseOf m u \<in> {leasePhaseRestoring, leasePhaseReloading} \<Longrightarrow> permittedReload (trace m)"
  "covered m \<Longrightarrow> (k, s) \<in> set (leases m) \<Longrightarrow> ls_pendingIOWeightResets s \<noteq> [] \<Longrightarrow>
     permittedReset (trace m) (ui_Name (fst k)) (ls_pendingIOWeightResets s)"
  by (auto simp: covered_def)

text \<open>Leases may be replaced by ones with fewer pending resets under the same unit name.\<close>

lemma covered_leases:
  assumes "covered m" "\<And>k s. (k, s) \<in> set ls \<Longrightarrow> ls_pendingIOWeightResets s = [] \<or>
      (\<exists>k' s'. (k', s') \<in> set (leases m) \<and> ui_Name (fst k') = ui_Name (fst k) \<and> ls_pendingIOWeightResets s = ls_pendingIOWeightResets s')"
  shows "covered (m\<lparr> leases := ls \<rparr>)"
  unfolding covered_def
proof (intro conjI)
  show "\<forall>u. (phaseOf (m\<lparr>leases := ls\<rparr>) u = leasePhaseRestoring \<longrightarrow> permittedRevert (trace (m\<lparr>leases := ls\<rparr>)) u) \<and>
      (phaseOf (m\<lparr>leases := ls\<rparr>) u \<in> {leasePhaseRestoring, leasePhaseReloading} \<longrightarrow> permittedReload (trace (m\<lparr>leases := ls\<rparr>)))"
    using assms(1) by (simp add: covered_def)
  show "\<forall>(k, s) \<in> set (leases (m\<lparr>leases := ls\<rparr>)). ls_pendingIOWeightResets s = [] \<or>
      permittedReset (trace (m\<lparr>leases := ls\<rparr>)) (ui_Name (fst k)) (ls_pendingIOWeightResets s)"
    using assms(2) coveredD(3) [OF assms(1)] by clarsimp metis
qed

lemma emits_keeps:
  assumes "emits C op" "\<And>m cs. P m \<Longrightarrow> list_all C cs \<Longrightarrow> P (m\<lparr> trace := cs @ trace m \<rparr>)"
  shows "keeps P op"
  unfolding triple_def
proof (intro allI impI)
  fix m assume "P m"
  obtain cs where "list_all C cs" "snd (op m) = m\<lparr> trace := cs @ trace m \<rparr>" using assms(1) by (auto simp: emits_def)
  then have "P (snd (op m))" using assms(2) \<open>P m\<close> by simp
  then show "case op m of (Inr x, m') \<Rightarrow> P m' | (Inl e, m') \<Rightarrow> P m'" by (cases "op m"; cases "fst (op m)") auto
qed

text \<open>What a look keeps, and what a quiet one keeps.\<close>

definition looksKeep :: "(machine \<Rightarrow> bool) \<Rightarrow> bool" where
  "looksKeep P \<longleftrightarrow> (\<forall>m cs. P m \<longrightarrow> list_all looks cs \<longrightarrow> P (m\<lparr> trace := cs @ trace m \<rparr>))"

definition quietKeep :: "(machine \<Rightarrow> bool) \<Rightarrow> bool" where
  "quietKeep P \<longleftrightarrow> (\<forall>m cs. P m \<longrightarrow> list_all quiet cs \<longrightarrow> P (m\<lparr> trace := cs @ trace m \<rparr>))"

named_theorems kept \<open>predicates that survive a look\<close>

lemma rec_inv_empty: "rec_inv {} = adapter_inv"
  by (simp add: fun_eq_iff adapter_inv_def)

lemma rec_invD: "rec_inv J m \<Longrightarrow> leases_owned m" "rec_inv J m \<Longrightarrow> base_inv J m" "rec_inv J m \<Longrightarrow> covered m"
  by (simp_all add: rec_inv_def base_inv_def)

lemma rec_inv_mono: "rec_inv J m \<Longrightarrow> J' \<subseteq> J \<Longrightarrow> rec_inv J' m"
  by (auto simp: rec_inv_def base_inv_def)

lemma looksKeep_quietKeep [kept]: "looksKeep P \<Longrightarrow> quietKeep P"
  unfolding looksKeep_def quietKeep_def using quiet_looks by (metis list.pred_mono_strong)

lemma looksKeep_rec [kept]: "looksKeep (rec_inv J)"
  by (simp add: looksKeep_def rec_inv_def base_inv_def writeAhead_looks covered_saved)

lemma looksKeep_inv [kept]: "looksKeep adapter_inv"
  unfolding rec_inv_empty [symmetric] by (rule looksKeep_rec)

lemma looksKeep_base [kept]: "looksKeep (base_inv J)" "looksKeep (\<lambda>m. lastSaved (trace m) = j)"
  by (simp_all add: looksKeep_def base_inv_def writeAhead_looks)

lemma looksKeep_synced [kept]: "looksKeep (synced bd)"
  by (simp add: looksKeep_def synced_def writeAhead_looks)

lemma quietKeep_fresh [kept]: "quietKeep (fresh snapshot unit)"
  by (simp add: quietKeep_def fresh_def lastSlice_quiet)

lemma looksKeep_memory [kept]:
  "looksKeep (\<lambda>m. P (leases m) (overrides m) (phases m) (generation m) (blocked m) (closed m))"
  by (simp add: looksKeep_def)

lemma looksKeep_const [kept]: "looksKeep (\<lambda>_. b)" "quietKeep (\<lambda>_. b)"
  by (simp_all add: looksKeep_def quietKeep_def)

lemma looksKeep_conj [kept]: "looksKeep P \<Longrightarrow> looksKeep Q \<Longrightarrow> looksKeep (\<lambda>m. P m \<and> Q m)"
  by (simp add: looksKeep_def)

lemma quietKeep_conj [kept]: "quietKeep P \<Longrightarrow> quietKeep Q \<Longrightarrow> quietKeep (\<lambda>m. P m \<and> Q m)"
  by (simp add: quietKeep_def)

lemma look: "emits looks op \<Longrightarrow> looksKeep P \<Longrightarrow> keeps P op"
  by (rule emits_keeps [of looks]) (auto simp: looksKeep_def)

lemma hush: "emits quiet op \<Longrightarrow> quietKeep P \<Longrightarrow> keeps P op"
  by (rule emits_keeps [of quiet]) (auto simp: quietKeep_def)

section \<open>Reading a unit\<close>

lemma readProperties_Inr:
  "readProperties unit sp ps = Inr props \<Longrightarrow> map_of props p = Some v \<Longrightarrow> readProperty sp p = Some v"
  by (induction ps arbitrary: props) (auto split: option.splits sum.splits if_splits)

lemma readProperty_clone: "readProperty sp p = Some v \<Longrightarrow> clonePropertyValue p v = v"
  by (auto simp: readProperty_def clonePropertyValue_def devicePropertyValue_def scalarPropertyValue_def
      split: if_splits option.splits dbus.splits)

text \<open>The last read of a returned snapshot is the reply its properties come from.\<close>

definition justRead :: "unit_snapshot \<Rightarrow> string \<Rightarrow> call list \<Rightarrow> bool" where
  "justRead snapshot unit t \<longleftrightarrow>
     (\<exists>c sp rest. t = c # CallSliceProperties unit (Some sp) # rest \<and> quiet c \<and>
        (\<forall>p v. PropertySet_propertyValue (us_Properties snapshot) p = Some v \<longrightarrow> readProperty sp p = Some v))"

lemma readUnit_justRead: "triple (\<lambda>_. True) (readUnit bd unit path) (\<lambda>snapshot m. justRead snapshot unit (trace m)) (\<lambda>_ _. True)"
proof (rule tripleI)
  fix m snapshot m' assume "readUnit bd unit path m = (Inr snapshot, m')"
  then obtain sp m1 c i m2 props where sp: "sliceProperties bd ''confirm_slice'' unit m1 = (Inr sp, m2)"
    and tail: "kernelControlGroupID bd ''confirm_identity'' unit c m2 = (Inr i, m')"
    and props: "readProperties unit sp (approvedScalarProperties @ approvedDeviceProperties) = Inr props" "us_Properties snapshot = props"
    unfolding readUnit_def bindR_Inr by (auto simp: liftR_def checkR_def retR_def failR_def split: if_splits)
  have "trace m2 = CallSliceProperties unit (Some sp) # trace m1"
    using sp by (auto simp: sliceProperties_def callR_def emit_def Let_def split: sum.splits)
  then have "\<exists>d. trace m' = d # CallSliceProperties unit (Some sp) # trace m1 \<and> quiet d"
    using tail by (auto simp: kernelControlGroupID_def callR_def emit_def Let_def split: option.splits)
  moreover have "readProperty sp p = Some v" if "PropertySet_propertyValue props p = Some v" for p v
    using that readProperties_Inr [OF props(1)] readProperty_clone by (fastforce simp: PropertySet_propertyValue_def)
  ultimately show "justRead snapshot unit (trace m')" by (auto simp: justRead_def props(2))
qed simp

text \<open>A snapshot is fresh when it is returned.\<close>

lemma justRead_fresh: "justRead snapshot unit (trace m) \<Longrightarrow> fresh snapshot unit m"
  by (auto simp: justRead_def fresh_def lastSlice_quiet [of "[c]" for c, simplified])

lemma readUnit_fresh: "triple (\<lambda>_. True) (readUnit bd unit path) (\<lambda>snapshot m. fresh snapshot unit m) (\<lambda>_ _. True)"
  by (rule triple_weaken [OF readUnit_justRead]) (auto intro: justRead_fresh)

section \<open>From memory to journal\<close>

lemma durable_values:
  "dp_Property (propertyToDurable p s) = p" "dp_Uncertain (propertyToDurable p s) = ls_uncertain s"
  "dp_PendingIODeviceWeightResets (propertyToDurable p s) = ls_pendingIOWeightResets s"
  "durableLast (propertyToDurable p s) = clonePropertyValue p (ls_lastApplied s)"
  "durablePrevious (propertyToDurable p s) = clonePropertyValue p (ls_previousApplied s)"
  by (simp_all add: propertyToDurable_def durableLast_def durablePrevious_def durablePropertyValue_def
      clonePropertyValue_def Let_def)

lemma exported_unit:
  assumes "exportJournal fits m g = Some j" "(i, ov) \<in> set (overrides m)"
  obtains u where "u \<in> set (dj_Units j)" "du_Unit u = ui_Name i" "du_Phase u = phaseOf m (ui_Name i)" "validDurableUnit fits u"
    "\<And>p s. ((i, p), s) \<in> set (leases m) \<Longrightarrow> propertyToDurable p s \<in> set (du_Properties u)"
proof
  let ?u = "sortDurableUnit (unitToDurable m (i, ov))"
  show u: "?u \<in> set (dj_Units j)" using exported_units(3) [OF assms(1)] assms(2) by auto
  show "du_Unit ?u = ui_Name i" "du_Phase ?u = phaseOf m (ui_Name i)"
    by (simp_all add: sortDurableUnit_def unitToDurable_def)
  show "propertyToDurable p s \<in> set (du_Properties ?u)" if "((i, p), s) \<in> set (leases m)" for p s
    using that by (force simp: sortDurableUnit_def unitToDurable_def)
  show "validDurableUnit fits ?u"
    using exported_units(2) [OF assms(1)] u by (simp add: validateDurableLeaseJournal_def list_all_iff)
qed

text \<open>A lease is ready when the value last read is the one applied, and staged when it announces a change.\<close>

definition readyIn :: "machine \<Rightarrow> unit_identity \<Rightarrow> unit_snapshot \<Rightarrow> property_name \<Rightarrow> bool" where
  "readyIn m i snapshot p \<longleftrightarrow>
     (\<exists>s v. map_of (leases m) (i, p) = Some s \<and> PropertySet_propertyValue (us_Properties snapshot) p = Some v \<and>
            propertyValuesEqual p v (ls_lastApplied s))"

definition stagedIn :: "machine \<Rightarrow> unit_identity \<Rightarrow> unit_snapshot \<Rightarrow> property_assignment \<Rightarrow> bool" where
  "stagedIn m i snapshot a \<longleftrightarrow>
     (\<exists>s v. map_of (leases m) (i, pa_name a) = Some s \<and> ls_uncertain s \<and>
            PropertySet_propertyValue (us_Properties snapshot) (pa_name a) = Some v \<and>
            propertyValuesEqual (pa_name a) v (ls_previousApplied s) \<and>
            (propertyValuesEqual (pa_name a) (pa_value a) (ls_lastApplied s) \<or>
             pa_name a = PropertyIODeviceWeight \<and> pv_devices (pa_value a) = []))"

definition onRecord :: "unit_identity \<Rightarrow> 'z adapter_scheme \<Rightarrow> bool" where
  "onRecord i m \<longleftrightarrow> i \<in> fst ` set (overrides m)"

lemma permitted_staged:
  assumes "synced bd m" "fresh snapshot (ui_Name i) m" "onRecord i m" "phaseOf m (ui_Name i) = leasePhaseApplying"
    and staged: "\<And>a. a \<in> set as \<Longrightarrow> stagedIn m i snapshot a"
  shows "permittedSet (trace m) (ui_Name i) as"
proof -
  obtain j g ov where j: "lastSaved (trace m) = Some j" "exportJournal (bd_devFits bd) m g = Some j" "(i, ov) \<in> set (overrides m)"
    using assms(1,3) by (auto simp: synced_def onRecord_def)
  obtain u where u: "u \<in> set (dj_Units j)" "du_Unit u = ui_Name i" "du_Phase u = leasePhaseApplying"
    "\<And>p s. ((i, p), s) \<in> set (leases m) \<Longrightarrow> propertyToDurable p s \<in> set (du_Properties u)"
    using exported_unit [OF j(2,3)] assms(4) by metis
  have "announced (trace m) (ui_Name i) u a" if a: "a \<in> set as" for a
  proof -
    obtain s v where s: "map_of (leases m) (i, pa_name a) = Some s" "ls_uncertain s"
      "PropertySet_propertyValue (us_Properties snapshot) (pa_name a) = Some v"
      "propertyValuesEqual (pa_name a) v (ls_previousApplied s)"
      "propertyValuesEqual (pa_name a) (pa_value a) (ls_lastApplied s) \<or> pa_name a = PropertyIODeviceWeight \<and> pv_devices (pa_value a) = []"
      using staged [OF a] by (auto simp: stagedIn_def)
    obtain sp where "lastSlice (ui_Name i) (trace m) = Some sp" "readProperty sp (pa_name a) = Some v"
      using assms(2) s(3) by (auto simp: fresh_def)
    then show ?thesis unfolding announced_def using s u(4) [OF map_of_SomeD [OF s(1)]]
      by (intro bexI [of _ "propertyToDurable (pa_name a) s"]) (auto simp: durable_values)
  qed
  then show ?thesis using j(1) u by (auto simp: permittedSet_def)
qed

lemma permitted_pending:
  assumes "synced bd m" "leases_owned m" and s: "((i, p), s) \<in> set (leases m)" "ls_pendingIOWeightResets s \<noteq> []"
  shows "permittedReset (trace m) (ui_Name i) (ls_pendingIOWeightResets s)"
proof -
  obtain j g ov where j: "lastSaved (trace m) = Some j" "exportJournal (bd_devFits bd) m g = Some j" "(i, ov) \<in> set (overrides m)"
    using assms(1) leases_ownedD [OF assms(2) s(1)] by (auto simp: synced_def)
  obtain u where u: "u \<in> set (dj_Units j)" "du_Unit u = ui_Name i" "validDurableUnit (bd_devFits bd) u"
    "propertyToDurable p s \<in> set (du_Properties u)"
    using exported_unit [OF j(2,3)] s(1) by metis
  let ?d = "propertyToDurable p s"
  have "validDurableProperty (bd_devFits bd) (du_Phase u) ?d"
    using u(3,4) by (auto simp: validDurableUnit_def Let_def list_all_iff)
  moreover have "dp_PendingIODeviceWeightResets ?d \<noteq> []" using s(2) by (simp add: durable_values)
  ultimately have "du_Phase u = leasePhaseApplying" "dp_Uncertain ?d" by (auto simp: validDurableProperty_def)
  then show ?thesis unfolding permittedReset_def using j(1) u by (auto simp: durable_values intro!: bexI [of _ u] bexI [of _ ?d])
qed

lemma permitted_phase:
  assumes "synced bd m" "onRecord i m"
  shows "phaseOf m (ui_Name i) = leasePhaseRestoring \<Longrightarrow> permittedRevert (trace m) (ui_Name i)"
    and "phaseOf m (ui_Name i) \<in> {leasePhaseRestoring, leasePhaseReloading} \<Longrightarrow> permittedReload (trace m)"
proof -
  obtain j g ov where j: "lastSaved (trace m) = Some j" "exportJournal (bd_devFits bd) m g = Some j" "(i, ov) \<in> set (overrides m)"
    using assms by (auto simp: synced_def onRecord_def)
  obtain u where u: "u \<in> set (dj_Units j)" "du_Unit u = ui_Name i" "du_Phase u = phaseOf m (ui_Name i)" "validDurableUnit (bd_devFits bd) u"
    using exported_unit [OF j(2,3)] by metis
  show "permittedReload (trace m)" if "phaseOf m (ui_Name i) \<in> {leasePhaseRestoring, leasePhaseReloading}"
    unfolding permittedReload_def using j(1) u that by metis
  show "permittedRevert (trace m) (ui_Name i)" if "phaseOf m (ui_Name i) = leasePhaseRestoring"
  proof -
    have "length (filter dp_Uncertain (du_Properties u)) = length (du_Properties u)"
      using u(3,4) that by (auto simp: validDurableUnit_def Let_def)
    then have "list_all dp_Uncertain (du_Properties u)"
      by (metis length_filter_less list_all_iff nat_less_le)
    then show ?thesis unfolding permittedRevert_def using j(1) u that by metis
  qed
qed

text \<open>What was just saved covers what memory may do next.\<close>

lemma synced_inv:
  assumes "synced bd m" "base_inv J m"
  shows "rec_inv J m"
proof -
  have owned: "leases_owned m" "phased m" using assms(2) by (simp_all add: base_inv_def)
  have onrec: "\<exists>i. onRecord i m \<and> ui_Name i = u" if "phaseOf m u \<in> {leasePhaseRestoring, leasePhaseReloading}" for u
    using that owned(2) by (fastforce simp: phased_def onRecord_def)
  have "covered m"
    unfolding covered_def
  proof (intro conjI allI ballI impI)
    show "permittedRevert (trace m) u" if "phaseOf m u = leasePhaseRestoring" for u
      using onrec [of u] that permitted_phase(1) [OF assms(1)] by auto
    show "permittedReload (trace m)" if "phaseOf m u \<in> {leasePhaseRestoring, leasePhaseReloading}" for u
      using onrec [OF that] that permitted_phase(2) [OF assms(1)] by auto
    show "case ks of (k, s) \<Rightarrow> ls_pendingIOWeightResets s = [] \<or> permittedReset (trace m) (ui_Name (fst k)) (ls_pendingIOWeightResets s)"
      if "ks \<in> set (leases m)" for ks
      using permitted_pending [OF assms(1) owned(1), of "fst (fst ks)" "snd (fst ks)" "snd ks"] that by (cases ks) auto
  qed
  moreover have "phase_ok m"
    unfolding phase_ok_def
  proof
    fix i assume "i \<in> fst ` set (overrides m)"
    then obtain j g ov where j: "exportJournal (bd_devFits bd) m g = Some j" "(i, ov) \<in> set (overrides m)"
      using assms(1) by (auto simp: synced_def)
    obtain u where "du_Phase u = phaseOf m (ui_Name i)" "validDurableUnit (bd_devFits bd) u"
      using exported_unit [OF j] by metis
    then show "phaseOf m (ui_Name i) \<in> {leasePhaseApplying, leasePhaseApplied, leasePhaseRestoring, leasePhaseReloading}"
      by (auto simp: validDurableUnit_def Let_def)
  qed
  ultimately show ?thesis using assms(2) by (simp add: rec_inv_def)
qed

section \<open>Staging\<close>

lemma stageDurably_run:
  "stageDurably bd f m =
     (case exportJournal (bd_devFits bd) (f m) (generation (f m) + 1) of
        None \<Rightarrow> (Inl (leaseStoreError ''encode''), restoreLeaseState m (f m))
      | Some j \<Rightarrow>
          if bd_save bd (trace (f m)) j
          then (Inr (), (f m)\<lparr> trace := CallSave j True # trace (f m), generation := dj_Generation j \<rparr>)
          else (Inl (leaseStoreError ''persist''), restoreLeaseState m ((f m)\<lparr> trace := CallSave j False # trace (f m) \<rparr>)))"
  by (simp add: stageDurably_def persistLeaseState_def callR_def emit_def op_defs Let_def split: option.splits)

lemma exportJournal_generation [simp]: "exportJournal fits (m\<lparr> generation := h \<rparr>) g = exportJournal fits m g"
proof -
  have "unitToDurable (m\<lparr> generation := h \<rparr>) = unitToDurable m" by (auto simp: unitToDurable_def phaseOf_def)
  then show ?thesis by (simp add: exportJournal_def)
qed

lemma restored_fields [simp]:
  "leases_owned (restoreLeaseState m m') = leases_owned m" "trace (restoreLeaseState m m') = trace m'"
  "overrides (restoreLeaseState m m') = overrides m" "leases (restoreLeaseState m m') = leases m"
  "phaseOf (restoreLeaseState m m') u = phaseOf m u" "phased (restoreLeaseState m m') = phased m"
  "phase_ok (restoreLeaseState m m') = phase_ok m"
  by (simp_all add: leases_owned_def restoreLeaseState_def phaseOf_def phased_def phase_ok_def)

lemma restored_inv:
  assumes "rec_inv J m" "writeAhead (trace m')" "lastSaved (trace m') = lastSaved (trace m)"
  shows "rec_inv J (restoreLeaseState m m')"
  using assms by (simp add: rec_inv_def base_inv_def covered_def permitted_saved [of "trace m'" "trace m"])

text \<open>A staged change that keeps the leases on record is durable, or nothing changed in memory.\<close>

lemma stageDurably_triple:
  assumes P: "\<And>m. P m \<Longrightarrow> rec_inv J m" "\<And>m. P m \<Longrightarrow> trace (f m) = trace m" "\<And>m. P m \<Longrightarrow> base_inv J' (f m)"
    and Q: "\<And>m j. P m \<Longrightarrow> Q ((f m)\<lparr> trace := CallSave j True # trace m, generation := dj_Generation j \<rparr>)"
  shows "triple P (stageDurably bd f) (\<lambda>_ m. rec_inv J' m \<and> synced bd m \<and> Q m) (\<lambda>_. rec_inv J)"
proof (rule tripleI)
  fix m x m' assume m: "P m" and run: "stageDurably bd f m = (Inr x, m')"
  then obtain j where j: "exportJournal (bd_devFits bd) (f m) (generation (f m) + 1) = Some j"
    "m' = (f m)\<lparr> trace := CallSave j True # trace m, generation := dj_Generation j \<rparr>"
    using P(2) [OF m] by (auto simp: stageDurably_run split: option.splits if_splits)
  have "synced bd m'" using j by (auto simp: synced_def)
  moreover have "base_inv J' m'" using P(2,3) [OF m] j(2) by (simp add: base_inv_def)
  ultimately show "rec_inv J' m' \<and> synced bd m' \<and> Q m'" using synced_inv Q [OF m] j(2) by blast
next
  fix m e m' assume m: "P m" and run: "stageDurably bd f m = (Inl e, m')"
  have wa: "writeAhead (trace m)" using P(1) [OF m] by (simp add: rec_inv_def base_inv_def)
  show "rec_inv J m'" using run P(2) [OF m] wa
    by (auto simp: stageDurably_run split: option.splits if_splits intro!: restored_inv [OF P(1) [OF m]])
qed

section \<open>Acting\<close>

fun isSave :: "call \<Rightarrow> bool" where
  "isSave (CallSave _ _) = True"
| "isSave (CallLoad _) = True"
| "isSave _ = False"

lemma lastSaved_emit: "\<not> isSave c \<Longrightarrow> lastSaved (c # t) = lastSaved t"
  by (cases c) auto

lemma memory_emit [simp]:
  "leases (emit c m) = leases m" "overrides (emit c m) = overrides m" "phases (emit c m) = phases m"
  "phaseOf (emit c m) u = phaseOf m u" "trace (emit c m) = c # trace m"
  by (simp_all add: emit_def phaseOf_def)

lemma inv_emit:
  assumes "\<not> isSave c"
  shows "rec_inv J (emit c m) \<longleftrightarrow> permitted (trace m) c \<and> rec_inv J m"
  using covered_saved [of "c # trace m" m] lastSaved_emit [OF assms] by (auto simp: rec_inv_def base_inv_def emit_def)

lemma triple_call:
  assumes "\<And>m r x. P m \<Longrightarrow> result r = Inr x \<Longrightarrow> Q x (emit (rc r) m)" "\<And>m r e. P m \<Longrightarrow> result r = Inl e \<Longrightarrow> E e (emit (rc r) m)"
  shows "triple P (callR answer rc result) Q E"
  by (rule tripleI) (auto simp: callR_def Let_def assms)

lemma permitted_emit:
  assumes "\<And>m. P m \<Longrightarrow> permitted (trace m) c" "\<And>m. P m \<Longrightarrow> rec_inv J m" "\<not> isSave c"
  shows "triple P (callR answer (\<lambda>_. c) result) (\<lambda>_. rec_inv J) (\<lambda>_. rec_inv J)"
  by (rule triple_call) (simp_all add: inv_emit assms)

lemma readbackUnit_identity:
  assumes "looksKeep P"
  shows "triple P (readbackUnit bd op i as) (\<lambda>after m. P m \<and> us_Identity after = i) (\<lambda>_. P)"
proof -
  have "us_Identity after = i" if "readbackUnit bd op i as m = (Inr after, m')" for after m m'
    using that unfolding readbackUnit_def requireSameIdentity_def
    by (auto simp: bindR_Inr checkR_def retR_def failR_def split: if_splits)
  then show ?thesis
    using triple_value [OF look [OF emits_readbackUnit assms]] triple_error [OF look [OF emits_readbackUnit assms]]
    by (intro tripleI) blast+
qed

lemma covered_pending:
  assumes "rec_inv J m" "resets = concat (map (ls_pendingIOWeightResets \<circ> snd) (unitLeases m i))" "resets \<noteq> []"
  shows "permittedReset (trace m) (ui_Name i) resets"
proof -
  have each: "permittedReset (trace m) (ui_Name i) (ls_pendingIOWeightResets s)"
    if "(k, s) \<in> set (unitLeases m i)" "ls_pendingIOWeightResets s \<noteq> []" for k s
    using coveredD(3) [OF rec_invD(3) [OF assms(1)], of k s] that by (auto simp: unitLeases_def)
  have source: "\<exists>ks \<in> set (unitLeases m i). r \<in> set (ls_pendingIOWeightResets (snd ks))" if "r \<in> set resets" for r
    using that unfolding assms(2) by auto
  obtain j where "lastSaved (trace m) = Some j"
    using source [of "hd resets"] assms(3) each by (fastforce simp: permittedReset_def)
  then show ?thesis unfolding permittedReset_def using source each by (fastforce simp: permittedReset_def)
qed

lemma complete_resets: "keeps (rec_inv J) (completePendingIODeviceWeightResets bd snapshot op)"
  unfolding completePendingIODeviceWeightResets_def
proof (rule triple_bind)
  let ?I = "\<lambda>resets m. rec_inv J m \<and> resets = concat (map (ls_pendingIOWeightResets \<circ> snd) (unitLeases m (us_Identity snapshot)))"
  show "triple (rec_inv J) (readR (\<lambda>m. concat (map (ls_pendingIOWeightResets \<circ> snd) (unitLeases m (us_Identity snapshot))))) ?I (\<lambda>_. rec_inv J)"
    by (rule triple_read) simp
  have permit: "permitted (trace m) (CallResetOverrides (ui_Name (us_Identity snapshot)) resets)" if "?I resets m" "resets \<noteq> []" for m resets
    using covered_pending [of J m resets "us_Identity snapshot"] that by simp
  show "triple (?I resets) (if resets = [] then retR False
     else callR (\<lambda>t. bd_resetOverrides bd t snapshot resets) (\<lambda>_. CallResetOverrides (ui_Name (us_Identity snapshot)) resets)
         (\<lambda>r. case r of
             None \<Rightarrow> Inr True
           | Some e \<Rightarrow> Inl (AdapterError (if e = ResetConflict then ReasonExternalConflict else ReasonKernelVerification)
                             (op @ ''_keyed_reset'') (ui_Name (us_Identity snapshot)) PropertyIODeviceWeight)))
     (\<lambda>_. rec_inv J) (\<lambda>_. rec_inv J)" for resets
    by (intro triple_if triple_ret permitted_emit permit) auto
qed

lemma mapLeases_owned:
  assumes "leases_owned m" "\<And>p s. pl_Property (ls_lease s) = p \<Longrightarrow> pl_Property (ls_lease (f p s)) = p"
  shows "leases_owned (mapLeases i f m)"
proof -
  have "map fst (leases (mapLeases i f m)) = map fst (leases m)" by (auto simp: mapLeases_def)
  moreover have "pl_Property (ls_lease s') = snd k \<and> fst k \<in> fst ` set (overrides m)"
    if k: "(k, s') \<in> set (leases (mapLeases i f m))" for k s'
  proof -
    obtain s where s: "(k, s) \<in> set (leases m)" "s' = (if fst k = i then f (snd k) s else s)"
      using k by (auto simp: mapLeases_def split: if_splits)
    then have "pl_Property (ls_lease s) = snd k" "fst k \<in> fst ` set (overrides m)"
      using assms(1) by (auto simp: leases_owned_def)
    then show ?thesis using assms(2) [of s "snd k"] s(2) by simp
  qed
  moreover have "overrides (mapLeases i f m) = overrides m" by (simp add: mapLeases_def)
  ultimately show ?thesis using assms(1) unfolding leases_owned_def by fastforce
qed

lemma leases_owned_overrides:
  "leases_owned m \<Longrightarrow> fst ` set (overrides m) \<subseteq> fst ` set os \<Longrightarrow> leases_owned (m\<lparr> overrides := os \<rparr>)"
  by (auto simp: leases_owned_def)

lemma phased_update:
  assumes "phased m" "ph \<in> {leasePhaseApplying, leasePhaseApplied} \<or> u \<in> ui_Name ` fst ` set (overrides m')"
    "fst ` set (overrides m) \<subseteq> fst ` set (overrides m')" "phases m' = AList.update u ph (phases m)"
  shows "phased m'"
proof -
  have phase: "phaseOf m' v = (if v = u then ph else phaseOf m v)" for v by (simp add: phaseOf_def assms(4) update_conv')
  show ?thesis
    unfolding phased_def
  proof (intro allI impI)
    fix v assume v: "phaseOf m' v \<in> {leasePhaseRestoring, leasePhaseReloading}"
    show "v \<in> ui_Name ` fst ` set (overrides m')"
    proof (cases "v = u")
      case True
      then show ?thesis using assms(2) v phase [of v] by (auto simp: lease_phases)
    next
      case False
      then have "v \<in> ui_Name ` fst ` set (overrides m)" using assms(1) v phase [of v] by (auto simp: phased_def)
      then show ?thesis using assms(3) by blast
    qed
  qed
qed

lemma confirmAppliedUnit_keeps:
  "trace (confirmAppliedUnit u fs m) = trace m"
  "base_inv J m \<Longrightarrow> base_inv J (confirmAppliedUnit u fs m)"
proof -
  let ?m = "confirmAppliedUnit u fs m"
  have m: "leases_owned m \<Longrightarrow> leases_owned ?m" "fst ` set (overrides m) \<subseteq> fst ` set (overrides ?m)"
    "phases ?m = AList.update u leasePhaseApplied (phases m)"
    unfolding confirmAppliedUnit_def Let_def
    by (intro mapLeases_owned) (simp_all add: confirmLease_def leases_owned_overrides dom_update subset_insertI mapLeases_def)
  show tr: "trace ?m = trace m" by (simp add: confirmAppliedUnit_def Let_def mapLeases_def)
  show "base_inv J m \<Longrightarrow> base_inv J ?m"
    using m tr phased_update [OF _ _ m(2,3)] by (auto simp: base_inv_def)
qed

lemma confirmMutation_keeps: "keeps (rec_inv J) (confirmMutation bd prefix b i as)"
proof -
  have confirm: "keeps (rec_inv J) (stageDurably bd (confirmAppliedUnit u fs))" for u fs
    by (rule triple_weaken [OF stageDurably_triple [where P = "rec_inv J" and J' = J and Q = "\<lambda>_. True"]])
      (auto simp: confirmAppliedUnit_keeps dest: rec_invD(2))
  show ?thesis
    unfolding confirmMutation_def
    by (intro keeps_bind triple_if complete_resets confirm keeps_rules look [OF _ looksKeep_rec] emits_looks emits_readbackUnit)
qed

section \<open>Apply keeps the rule\<close>

lemma resolve_owned:
  assumes "resolveUncertainOwnership v s = (True, r)"
  shows "propertyValuesEqual (pl_Property (ls_lease s)) v (ls_lastApplied r)" "pl_Property (ls_lease r) = pl_Property (ls_lease s)"
  using assms by (auto simp: resolveUncertainOwnership_def Let_def propertyValuesEqual_def clonePropertyValue_def
      devicePropertyValue_def scalarPropertyValue_def publicPropertyLease_def split: if_splits)

lemma values_clone [simp]:
  "propertyValuesEqual p v (clonePropertyValue p w) = propertyValuesEqual p v w" "propertyValuesEqual p v v"
  by (simp_all add: propertyValuesEqual_def clonePropertyValue_def devicePropertyValue_def scalarPropertyValue_def)

lemma stagedLease_fields [simp]:
  "pl_Property (ls_lease (stagedLease p v rs s)) = p" "ls_uncertain (stagedLease p v rs s)"
  "ls_previousApplied (stagedLease p v rs s) = ls_lastApplied s" "ls_lastApplied (stagedLease p v rs s) = clonePropertyValue p v"
  by (simp_all add: stagedLease_def publicPropertyLease_def)

definition announcesLease ::
  "unit_identity \<Rightarrow> unit_snapshot \<Rightarrow> property_assignment \<Rightarrow> lease_key \<times> property_lease_state \<Rightarrow> bool" where
  "announcesLease i snapshot a ks \<longleftrightarrow>
     fst ks = (i, pa_name a) \<and> pl_Property (ls_lease (snd ks)) = pa_name a \<and> ls_uncertain (snd ks) \<and>
     propertyValuesEqual (pa_name a) (pa_value a) (ls_lastApplied (snd ks)) \<and>
     (\<exists>v. PropertySet_propertyValue (us_Properties snapshot) (pa_name a) = Some v \<and>
          propertyValuesEqual (pa_name a) v (ls_previousApplied (snd ks)))"

lemma ownedLease_current:
  assumes "ownedLease i v a lease = Inr s" "\<And>l. lease = Some l \<Longrightarrow> pl_Property (ls_lease l) = pa_name a"
  shows "propertyValuesEqual (pa_name a) v (ls_lastApplied s)"
  using assms resolve_owned
  by (fastforce simp: ownedLease_def newPropertyLeaseState_def Let_def split: option.splits if_splits prod.splits)

lemma owned_lease: "leases_owned m \<Longrightarrow> map_of (leases m) (i, p) = Some s \<Longrightarrow> pl_Property (ls_lease s) = p \<and> onRecord i m"
  unfolding leases_owned_def onRecord_def by (drule map_of_SomeD) (drule conjunct2, drule (1) bspec, simp)

lemma stageAssignment_announces:
  "triple leases_owned (stageAssignment bd i snapshot a) (\<lambda>ks _. announcesLease i snapshot a ks) (\<lambda>_ _. True)"
proof (rule tripleI)
  fix m ks m' assume m: "leases_owned m" and run: "stageAssignment bd i snapshot a m = (Inr ks, m')"
  obtain v where v: "PropertySet_propertyValue (us_Properties snapshot) (pa_name a) = Some v"
    using run by (auto simp: stageAssignment_def failR_def split: option.splits)
  obtain s resets where s: "ownedLease i v a (map_of (leases m) (i, pa_name a)) = Inr s"
    and ks: "ks = ((i, pa_name a), if pa_name a = PropertyIODeviceWeight
        then (stagedLease (pa_name a) (pa_value a) resets s)\<lparr> ls_ioWeightTargets := pa_targets a \<rparr>
        else stagedLease (pa_name a) (pa_value a) resets s)"
    using run v by (auto simp: stageAssignment_def bindR_Inr readR_def liftR_def retR_def Let_def)
  have "propertyValuesEqual (pa_name a) v (ls_lastApplied s)" using ownedLease_current [OF s] owned_lease [OF m] by blast
  then show "announcesLease i snapshot a ks" using v by (auto simp: announcesLease_def ks)
qed simp

lemma checkAssignments_distinct: "checkAssignments seen as = None \<Longrightarrow> distinct (map pa_name as) \<and> set (map pa_name as) \<inter> set seen = {}"
proof (induction as arbitrary: seen)
  case (Cons a as)
  then show ?case using Cons.IH [of "pa_name a # seen"] by (auto split: if_splits option.splits)
qed simp

lemma distinct_map_sort: "distinct (map f (sort_key g xs)) = distinct (map f xs)"
  by (rule mset_eq_imp_distinct_iff) simp

lemma validateAssignments_distinct: "validateAssignments as = Inr vs \<Longrightarrow> distinct (map pa_name vs)"
  using checkAssignments_distinct [of "[]" "map clonePropertyAssignment as"]
  by (auto simp: validateAssignments_def Let_def distinct_map_sort split: if_splits option.splits)

lemma set_update_subset: "set (AList.update k v al) \<subseteq> insert (k, v) (set al)"
  by (induction al) auto

lemma fold_update_set: "set (fold (\<lambda>(k, s). AList.update k s) ks al) \<subseteq> set ks \<union> set al"
  by (induction ks arbitrary: al) (auto dest!: subsetD [OF set_update_subset])

lemma fold_update_distinct: "distinct (map fst al) \<Longrightarrow> distinct (map fst (fold (\<lambda>(k, s). AList.update k s) ks al))"
  by (induction ks arbitrary: al) (auto simp: distinct_update)

lemma fold_update_map_of:
  "distinct (map fst ks) \<Longrightarrow> (k, s) \<in> set ks \<Longrightarrow> map_of (fold (\<lambda>(k, s). AList.update k s) ks al) k = Some s"
proof (induction ks arbitrary: al)
  case (Cons x xs)
  have keep: "k' \<notin> fst ` set xs \<Longrightarrow> map_of (fold (\<lambda>(k, s). AList.update k s) xs al') k' = map_of al' k'" for k' al'
    by (induction xs arbitrary: al') (auto simp: update_conv')
  show ?case using Cons keep [of k] by (cases x) (auto simp: update_conv' rev_image_eqI)
qed simp

lemma announced_keys:
  assumes "list_all2 (announcesLease i snapshot) as staged"
  shows "map fst staged = map (\<lambda>a. (i, pa_name a)) as"
  using assms by (induction rule: list_all2_induct) (auto simp: announcesLease_def)

lemma announced_each: "list_all2 R as bs \<Longrightarrow> a \<in> set as \<Longrightarrow> \<exists>b \<in> set bs. R a b" "list_all2 R as bs \<Longrightarrow> b \<in> set bs \<Longrightarrow> \<exists>a \<in> set as. R a b"
  by (induction rule: list_all2_induct) auto

lemma stageApply_staged:
  assumes "leases_owned m" "list_all2 (announcesLease i snapshot) as staged" "distinct (map pa_name as)"
  shows "leases_owned (stageApply i staged as m)"
    and "a \<in> set as \<Longrightarrow> stagedIn (stageApply i staged as m) i snapshot a"
    and "phaseOf (stageApply i staged as m) (ui_Name i) = leasePhaseApplying"
    and "insert i (fst ` set (overrides m)) = fst ` set (overrides (stageApply i staged as m))"
    and "trace (stageApply i staged as m) = trace m"
proof -
  let ?m = "stageApply i staged as m"
  have ls: "leases ?m = fold (\<lambda>(k, s). AList.update k s) staged (leases m)" by (simp add: stageApply_def)
  show ov: "insert i (fst ` set (overrides m)) = fst ` set (overrides ?m)" by (simp add: stageApply_def dom_update)
  have keys: "distinct (map fst staged)"
    using announced_keys [OF assms(2)] assms(3) by (simp add: distinct_map inj_on_def)
  have "pl_Property (ls_lease s) = snd k \<and> fst k \<in> fst ` set (overrides ?m)" if "(k, s) \<in> set (leases ?m)" for k s
  proof (cases "(k, s) \<in> set staged")
    case True
    then show ?thesis using announced_each(2) [OF assms(2) True] by (auto simp: announcesLease_def ov [symmetric])
  next
    case False
    then have "(k, s) \<in> set (leases m)" using that fold_update_set unfolding ls by blast
    then show ?thesis using assms(1) by (auto simp: leases_owned_def ov [symmetric])
  qed
  moreover have "distinct (map fst (leases ?m))" using assms(1) unfolding ls leases_owned_def by (intro fold_update_distinct) simp
  ultimately show "leases_owned ?m" unfolding leases_owned_def by blast
  show "stagedIn ?m i snapshot a" if "a \<in> set as"
  proof -
    obtain k s where ks: "(k, s) \<in> set staged" "announcesLease i snapshot a (k, s)"
      using announced_each(1) [OF assms(2) \<open>a \<in> set as\<close>] by fast
    then have "map_of (leases ?m) (i, pa_name a) = Some s"
      using fold_update_map_of [OF keys ks(1)] by (simp add: ls announcesLease_def)
    then show ?thesis using ks(2) by (auto simp: stagedIn_def announcesLease_def)
  qed
  show "phaseOf ?m (ui_Name i) = leasePhaseApplying" "trace ?m = trace m"
    by (simp_all add: stageApply_def phaseOf_def update_conv')
qed

text \<open>The empty device list that is sent first when a device goes away is announced with the list.\<close>

lemma stagedIn_mutation:
  assumes "\<And>a. a \<in> set as \<Longrightarrow> stagedIn m i snapshot a" "b \<in> set (systemdMutationAssignments snapshot as)"
  shows "stagedIn m i snapshot b"
  using assms unfolding systemdMutationAssignments_def
  by (fastforce simp: stagedIn_def devicePropertyValue_def split: if_splits)

lemma readUnit_keeps:
  "looksKeep P \<Longrightarrow> triple P (readUnit bd unit path) (\<lambda>snapshot m. P m \<and> fresh snapshot unit m) (\<lambda>_. P)"
  by (rule triple_weaken [OF triple_conj [OF look [OF emits_readUnit] readUnit_fresh]]) auto

lemma stagedIn_trace [simp]:
  "stagedIn (m\<lparr> trace := t, generation := g \<rparr>) i snapshot a = stagedIn m i snapshot a"
  "phaseOf (m\<lparr> trace := t, generation := g \<rparr>) u = phaseOf m u"
  by (simp_all add: stagedIn_def phaseOf_def)

lemma fresh_save [simp]: "trace m' = CallSave j b # trace m \<Longrightarrow> fresh snapshot u m' = fresh snapshot u m"
  by (simp add: fresh_def)

text \<open>The dispatch of staged values and its confirmation.\<close>

definition dispatchable ::
  "boundary \<Rightarrow> unit_identity set \<Rightarrow> unit_identity \<Rightarrow> unit_snapshot \<Rightarrow> property_assignment list \<Rightarrow> machine \<Rightarrow> bool" where
  "dispatchable bd J i snapshot as m \<longleftrightarrow>
     rec_inv J m \<and> synced bd m \<and> fresh snapshot (ui_Name i) m \<and> phaseOf m (ui_Name i) = leasePhaseApplying \<and>
     (\<forall>a \<in> set as. stagedIn m i snapshot a)"

lemma dispatchable_permitted:
  assumes "dispatchable bd J i snapshot as m" "i \<in> J"
  shows "permittedSet (trace m) (ui_Name i) as"
proof -
  have "onRecord i m" using assms by (auto simp: dispatchable_def rec_inv_def base_inv_def onRecord_def)
  then show ?thesis using permitted_staged [of bd m snapshot i as] assms(1) by (simp add: dispatchable_def)
qed

lemma dispatchable_mutation:
  "dispatchable bd J i snapshot as m \<Longrightarrow> dispatchable bd J i snapshot (systemdMutationAssignments snapshot as) m"
  using stagedIn_mutation [of as m i snapshot] by (auto simp: dispatchable_def)

lemma dispatch_staged:
  assumes "i \<in> J"
  shows "triple (dispatchable bd J i snapshot as)
     (bindR (setUnitProperties bd op (ui_Name i) as) (\<lambda>_. confirmMutation bd prefix b i bs)) (\<lambda>_. rec_inv J) (\<lambda>_. rec_inv J)"
proof (rule triple_bind)
  show "triple (dispatchable bd J i snapshot as) (setUnitProperties bd op (ui_Name i) as) (\<lambda>_. rec_inv J) (\<lambda>_. rec_inv J)"
    unfolding setUnitProperties_def
  proof (rule permitted_emit)
    show "permitted (trace m) (CallSetUnitProperties (ui_Name i) as)" if "dispatchable bd J i snapshot as m" for m
      using dispatchable_permitted [OF that assms] by simp
  qed (simp_all add: dispatchable_def)
qed (rule confirmMutation_keeps)

lemma stageApply_durably:
  assumes "distinct (map pa_name vs)"
  shows "triple (\<lambda>m. (rec_inv {} m \<and> fresh snapshot (ui_Name i) m) \<and> list_all2 (announcesLease i snapshot) vs staged)
      (stageDurably bd (stageApply i staged vs)) (\<lambda>_. dispatchable bd {i} i snapshot vs) (\<lambda>_. rec_inv {})"
  unfolding dispatchable_def
proof (rule stageDurably_triple)
  fix m assume m: "(rec_inv {} m \<and> fresh snapshot (ui_Name i) m) \<and> list_all2 (announcesLease i snapshot) vs staged"
  then have owned: "leases_owned m" by (auto dest: rec_invD)
  let ?m = "stageApply i staged vs m"
  note st = stageApply_staged [OF owned _ assms, of i snapshot staged]
  show "rec_inv {} m" "trace ?m = trace m" using m st(5) by auto
  have "phased ?m"
    by (rule phased_update [of m leasePhaseApplying "ui_Name i"])
      (use m in \<open>auto simp: rec_inv_def base_inv_def stageApply_def dom_update simp del: image_insert\<close>)
  then show "base_inv {i} ?m" using m st(1,4,5) by (auto simp: rec_inv_def base_inv_def)
  fix j
  show "fresh snapshot (ui_Name i) (?m\<lparr> trace := CallSave j True # trace m, generation := dj_Generation j \<rparr>) \<and>
      phaseOf (?m\<lparr> trace := CallSave j True # trace m, generation := dj_Generation j \<rparr>) (ui_Name i) = leasePhaseApplying \<and>
      (\<forall>a \<in> set vs. stagedIn (?m\<lparr> trace := CallSave j True # trace m, generation := dj_Generation j \<rparr>) i snapshot a)"
    using m st(2,3) by simp
qed

lemma Apply_keeps: "keeps adapter_inv (Apply bd i as)"
proof -
  let ?I = "\<lambda>snapshot m. rec_inv {} m \<and> fresh snapshot (ui_Name i) m"
  have validated: "triple P (liftR (validateAssignments as)) (\<lambda>vs m. P m \<and> distinct (map pa_name vs)) (\<lambda>_. P)" for P
    by (rule triple_lift) (auto dest: validateAssignments_distinct)
  have quiet: "keeps (?I snapshot) op" if "emits quiet op" for op :: "'x adapter_op" and snapshot
    by (rule hush [OF that]) (intro kept)
  have stage: "triple (?I snapshot) (mapR (stageAssignment bd i snapshot) vs)
      (\<lambda>staged m. ?I snapshot m \<and> list_all2 (announcesLease i snapshot) vs staged) (\<lambda>_. ?I snapshot)" for snapshot vs
    by (rule triple_map_all, rule triple_weaken [OF triple_conj [OF quiet [OF emits_stageAssignment] stageAssignment_announces]])
      (auto dest: rec_invD)
  have finish: "triple (?I snapshot)
      (bindR (mapR (stageAssignment bd i snapshot) vs) (\<lambda>staged.
       bindR (stageDurably bd (stageApply i staged vs)) (\<lambda>_.
       bindR (setUnitProperties bd ''apply'' (ui_Name i) (systemdMutationAssignments snapshot vs)) (\<lambda>_.
       confirmMutation bd ''apply'' True i vs)))) (\<lambda>_. rec_inv {}) (\<lambda>_. rec_inv {})"
    if "distinct (map pa_name vs)" for snapshot vs
  proof (rule triple_first [OF stage], simp, rule triple_bind [OF stageApply_durably [OF that]])
    show "triple (dispatchable bd {i} i snapshot vs)
       (bindR (setUnitProperties bd ''apply'' (ui_Name i) (systemdMutationAssignments snapshot vs)) (\<lambda>_.
        confirmMutation bd ''apply'' True i vs)) (\<lambda>_. rec_inv {}) (\<lambda>_. rec_inv {})"
      by (rule triple_weaken [OF dispatch_staged [where J = "{i}"]], simp, erule dispatchable_mutation) (auto elim: rec_inv_mono)
  qed
  have after: "triple (?I snapshot)
      (bindR (requireSameIdentity ''apply'' i (us_Identity snapshot)) (\<lambda>_.
       bindR (readR (\<lambda>m. (overrideOf m i, map_of (overrides m) i \<noteq> None))) (\<lambda>(current, tracked).
       bindR (requireManagedUnitFileFootprint bd ''apply'' snapshot current tracked) (\<lambda>_.
       bindR (forR (preflightApply bd i snapshot) (filter (\<lambda>a. pa_name a = PropertyIODeviceWeight) vs)) (\<lambda>_.
       bindR (alreadyApplied bd i snapshot vs) (\<lambda>unchanged.
         if unchanged then retR snapshot
         else
           bindR (mapR (stageAssignment bd i snapshot) vs) (\<lambda>staged.
           bindR (stageDurably bd (stageApply i staged vs)) (\<lambda>_.
           bindR (setUnitProperties bd ''apply'' (ui_Name i) (systemdMutationAssignments snapshot vs)) (\<lambda>_.
           confirmMutation bd ''apply'' True i vs)))))))))
      (\<lambda>_. rec_inv {}) (\<lambda>_. rec_inv {})"
    if "distinct (map pa_name vs)" for snapshot vs
    by (intro keeps_first [where I = "?I snapshot" and J = "rec_inv {}"] quiet emits_rules emits_footprint emits_alreadyApplied
        triple_if triple_case_prod finish [OF that] triple_ret) simp_all
  show ?thesis
    unfolding Apply_def rec_inv_empty [symmetric]
    by (intro triple_bind [OF look [OF _ looksKeep_rec]] emits_looks triple_first [OF validated] triple_first [OF readUnit_keeps] after
        looksKeep_rec triple_const) simp_all
qed

section \<open>Restoring properties keeps the rule\<close>

text \<open>While the leases are staged one by one: those before are staged, those to come are still ready.\<close>

definition stagingInv ::
  "(machine \<Rightarrow> bool) \<Rightarrow> unit_identity \<Rightarrow> unit_snapshot \<Rightarrow> property_assignment list \<Rightarrow> property_name list \<Rightarrow> machine \<Rightarrow> bool" where
  "stagingInv I i snapshot staged ready m \<longleftrightarrow>
     I m \<and> fresh snapshot (ui_Name i) m \<and> (\<forall>a \<in> set staged. stagedIn m i snapshot a) \<and>
     (\<forall>p \<in> set ready. readyIn m i snapshot p)"

text \<open>What holds of a staged change before it is saved: the journal is still \<open>j\<close>.\<close>

definition unsaved :: "unit_identity set \<Rightarrow> durable_lease_journal option \<Rightarrow> machine \<Rightarrow> bool" where
  "unsaved J j m \<longleftrightarrow> base_inv J m \<and> lastSaved (trace m) = j"

lemma looksKeep_unsaved [kept]: "looksKeep (unsaved J j)"
  unfolding unsaved_def by (intro kept)

lemma quietKeep_staging [kept]: "quietKeep I \<Longrightarrow> quietKeep (stagingInv I i snapshot staged ready)"
  using quietKeep_fresh [of snapshot "ui_Name i"]
  by (simp add: quietKeep_def stagingInv_def stagedIn_def readyIn_def)

lemma setLease_owned:
  assumes "leases_owned m" "pl_Property (ls_lease s) = snd k" "fst k \<in> fst ` set (overrides m)"
  shows "leases_owned (setLease k s m)"
proof -
  have "pl_Property (ls_lease s') = snd k' \<and> fst k' \<in> fst ` set (overrides m)" if "(k', s') \<in> set (AList.update k s (leases m))" for k' s'
    using subsetD [OF set_update_subset that] assms by (auto simp: leases_owned_def)
  then show ?thesis using assms(1) unfolding leases_owned_def setLease_def by (auto simp: distinct_update)
qed

lemma setLease_fields [simp]:
  "trace (setLease k s m) = trace m" "overrides (setLease k s m) = overrides m"
  "map_of (leases (setLease k s m)) = (map_of (leases m))(k \<mapsto> s)" "fresh snapshot u (setLease k s m) = fresh snapshot u m"
  "phased (setLease k s m) = phased m" "phase_ok (setLease k s m) = phase_ok m"
  by (simp_all add: setLease_def update_conv' fresh_def)

lemma stageRestore_stages:
  assumes "pa_name a \<notin> set (map pa_name staged)" "pa_name a \<notin> set ready"
  shows "triple (stagingInv (unsaved J j) i snapshot staged (pa_name a # ready)) (stageRestore bd i a)
     (\<lambda>_. stagingInv (unsaved J j) i snapshot (a # staged) ready) (\<lambda>_. unsaved J j)"
proof -
  let ?I = "stagingInv (unsaved J j) i snapshot staged (pa_name a # ready)"
  have wrote: "stagingInv (unsaved J j) i snapshot (a # staged) ready (setLease (i, pa_name a) (stagedLease (pa_name a) (pa_value a) resets s) m)"
    if m: "?I m" "map_of (leases m) (i, pa_name a) = Some s" for m s resets
  proof -
    let ?m = "setLease (i, pa_name a) (stagedLease (pa_name a) (pa_value a) resets s) m"
    have inv: "unsaved J j m" "leases_owned m" using m(1) by (simp_all add: stagingInv_def unsaved_def base_inv_def)
    obtain v where v: "PropertySet_propertyValue (us_Properties snapshot) (pa_name a) = Some v" "propertyValuesEqual (pa_name a) v (ls_lastApplied s)"
      using m by (auto simp: stagingInv_def readyIn_def)
    have "leases_owned ?m" by (rule setLease_owned [OF inv(2)]) (use owned_lease [OF inv(2) m(2)] in \<open>auto simp: onRecord_def\<close>)
    then have "unsaved J j ?m" using inv(1) by (simp add: unsaved_def base_inv_def)
    moreover have "stagedIn ?m i snapshot a" using v by (simp add: stagedIn_def)
    moreover have "stagedIn ?m i snapshot b" if b: "b \<in> set staged" for b
    proof -
      have "pa_name b \<noteq> pa_name a" "stagedIn m i snapshot b" using b assms(1) m(1) by (auto simp: stagingInv_def) (metis imageI)
      then show ?thesis by (simp add: stagedIn_def)
    qed
    moreover have "readyIn ?m i snapshot p" if p: "p \<in> set ready" for p
    proof -
      have "p \<noteq> pa_name a" "readyIn m i snapshot p" using p assms(2) m(1) by (auto simp: stagingInv_def)
      then show ?thesis by (simp add: readyIn_def)
    qed
    ultimately show ?thesis using m(1) by (simp add: stagingInv_def)
  qed
  have error: "?I m \<Longrightarrow> unsaved J j m" for m by (simp add: stagingInv_def)
  have memory: "quietKeep (\<lambda>m. ?I m \<and> map_of (leases m) (i, pa_name a) = lease)" for lease
    by (intro kept)
  have resets: "triple (\<lambda>m. ?I m \<and> map_of (leases m) (i, pa_name a) = lease)
     (if pa_name a = PropertyIODeviceWeight then prepareResets bd op i x y else retR [])
     (\<lambda>_ m. ?I m \<and> map_of (leases m) (i, pa_name a) = lease) (\<lambda>_. unsaved J j)" for lease op x y
    by (rule triple_weaken [OF hush [OF _ memory [of lease]]]) (auto simp: error intro!: emits_rules emits_footprint)
  show ?thesis
    unfolding stageRestore_def
  proof (rule triple_bind)
    show "triple ?I (readR (\<lambda>m. map_of (leases m) (i, pa_name a))) (\<lambda>lease m. ?I m \<and> map_of (leases m) (i, pa_name a) = lease) (\<lambda>_. unsaved J j)"
      by (rule triple_read) simp
  next
    fix lease
    show "triple (\<lambda>m. ?I m \<and> map_of (leases m) (i, pa_name a) = lease)
      (case lease of None \<Rightarrow> retR () | Some state \<Rightarrow>
         bindR (if pa_name a = PropertyIODeviceWeight then
                  prepareResets bd ''restore_properties_reset_preflight'' i
                    \<lparr> pa_name = PropertyIODeviceWeight, pa_value = clonePropertyValue PropertyIODeviceWeight (ls_lastApplied state),
                      pa_targets = ls_ioWeightTargets state \<rparr> a
                else retR []) (\<lambda>resets.
         writeR (setLease (i, pa_name a) (stagedLease (pa_name a) (pa_value a) resets state))))
      (\<lambda>_. stagingInv (unsaved J j) i snapshot (a # staged) ready) (\<lambda>_. unsaved J j)"
      by (rule triple_case_option, rule triple_ret, force simp: stagingInv_def readyIn_def,
          rule triple_bind [OF resets], rule triple_write, rule wrote) simp_all
  qed
qed

lemma stageRestore_all:
  assumes "distinct (map pa_name as)" "set (map pa_name as) \<inter> set (map pa_name staged) = {}"
  shows "triple (stagingInv (unsaved J j) i snapshot staged (map pa_name as)) (forR (stageRestore bd i) as)
     (\<lambda>_. stagingInv (unsaved J j) i snapshot (rev as @ staged) []) (\<lambda>_. unsaved J j)"
  using assms
proof (induction as arbitrary: staged)
  case (Cons a as)
  have "triple (stagingInv (unsaved J j) i snapshot (a # staged) (map pa_name as)) (forR (stageRestore bd i) as)
     (\<lambda>_. stagingInv (unsaved J j) i snapshot (rev as @ a # staged) []) (\<lambda>_. unsaved J j)"
    using Cons.prems by (intro Cons.IH) auto
  then show ?case using stageRestore_stages [of a staged "map pa_name as"] Cons.prems
    by (auto intro!: triple_bind)
qed (simp add: triple_ret)

lemma persist_triple:
  assumes "\<And>m. P m \<Longrightarrow> unsaved J j m" "\<And>m j. P m \<Longrightarrow> Q (m\<lparr> trace := CallSave j True # trace m, generation := dj_Generation j \<rparr>)"
  shows "triple P (persistLeaseState bd) (\<lambda>_ m. rec_inv J m \<and> synced bd m \<and> Q m) (\<lambda>_. unsaved J j)"
proof (rule tripleI)
  fix m x m' assume m: "P m" and run: "persistLeaseState bd m = (Inr x, m')"
  then obtain j' where j': "exportJournal (bd_devFits bd) m (generation m + 1) = Some j'"
    "m' = m\<lparr> trace := CallSave j' True # trace m, generation := dj_Generation j' \<rparr>"
    by (auto simp: persistLeaseState_def callR_def emit_def op_defs Let_def split: option.splits if_splits)
  have "synced bd m'" using j' by (auto simp: synced_def)
  moreover have "base_inv J m'" using assms(1) [OF m] j'(2) by (simp add: unsaved_def base_inv_def)
  ultimately show "rec_inv J m' \<and> synced bd m' \<and> Q m'" using synced_inv assms(2) [OF m] j'(2) by blast
next
  fix m e m' assume m: "P m" and run: "persistLeaseState bd m = (Inl e, m')"
  then show "unsaved J j m'" using assms(1) [OF m]
    by (auto simp: persistLeaseState_def callR_def emit_def op_defs Let_def unsaved_def base_inv_def split: option.splits if_splits)
qed

lemma undo_triple:
  assumes "\<And>j. triple (\<lambda>m. P m \<and> lastSaved (trace m) = j) op Q (\<lambda>_. unsaved J' j)" "\<And>m. P m \<Longrightarrow> rec_inv J m"
  shows "triple P (undoOnError op) Q (\<lambda>_. rec_inv J)"
proof (rule tripleI)
  fix m x m' assume P: "P m" and "undoOnError op m = (Inr x, m')"
  then have "op m = (Inr (), m')" by (auto simp: undoOnError_def op_defs split: prod.splits sum.splits)
  then show "Q x m'" using triple_value [OF assms(1) [of "lastSaved (trace m)"]] P by (cases x) simp
next
  fix m e m' assume P: "P m" and "undoOnError op m = (Inl e, m')"
  then obtain m1 where "op m = (Inl e, m1)" "m' = restoreLeaseState m m1"
    by (auto simp: undoOnError_def op_defs split: prod.splits sum.splits)
  moreover have "unsaved J' (lastSaved (trace m)) m1" using triple_error [OF assms(1) _ calculation(1)] P by blast
  ultimately show "rec_inv J m'" using restored_inv [OF assms(2) [OF P], of m1] by (simp add: unsaved_def base_inv_def)
qed

lemma setOwnedProperties_keeps:
  assumes "i \<in> J" "distinct (map pa_name as)"
  shows "triple (stagingInv (rec_inv J) i snapshot [] (map pa_name as)) (setOwnedProperties bd grow i as) (\<lambda>_. rec_inv J) (\<lambda>_. rec_inv J)"
proof -
  let ?W = "\<lambda>m. m\<lparr> overrides := (if grow then AList.update i
               (stageManagedUnitFileMutation (ui_Name i) (overrideOf m i) as) (overrides m) else overrides m),
           phases := AList.update (ui_Name i) leasePhaseApplying (phases m) \<rparr>"
  let ?D = "\<lambda>m. fresh snapshot (ui_Name i) m \<and> phaseOf m (ui_Name i) = leasePhaseApplying \<and> (\<forall>a \<in> set as. stagedIn m i snapshot a)"
  have wrote: "unsaved J j (?W m) \<and> ?D (?W m)" if m: "stagingInv (unsaved J j) i snapshot (rev as @ []) [] m" for m j
  proof -
    have dom: "fst ` set (overrides m) \<subseteq> fst ` set (overrides (?W m))" by (simp add: dom_update subset_insertI)
    have owned: "leases_owned m" using m by (simp add: stagingInv_def unsaved_def base_inv_def)
    have "leases_owned (?W m)"
    proof (rule leases_ownedI)
      show "distinct (map fst (leases (?W m)))" using owned by (simp add: leases_owned_def)
      show "pl_Property (ls_lease s) = snd k \<and> fst k \<in> fst ` set (overrides (?W m))" if "(k, s) \<in> set (leases (?W m))" for k s
        using leases_ownedD [OF owned, of k s] that subsetD [OF dom] by simp
    qed
    moreover have "phased (?W m)"
      by (rule phased_update [of m leasePhaseApplying "ui_Name i", OF _ _ dom]) (use m in \<open>simp_all add: stagingInv_def unsaved_def base_inv_def\<close>)
    moreover have "J \<subseteq> fst ` set (overrides (?W m))"
      by (rule subset_trans [OF _ dom]) (use m in \<open>simp add: stagingInv_def unsaved_def base_inv_def\<close>)
    moreover have "stagedIn (?W m) i snapshot a = stagedIn m i snapshot a" for a by (simp add: stagedIn_def)
    ultimately show ?thesis using m by (simp add: stagingInv_def unsaved_def base_inv_def fresh_def phaseOf_def update_conv')
  qed
  have stage: "triple (stagingInv (rec_inv J) i snapshot [] (map pa_name as))
     (undoOnError (bindR (forR (stageRestore bd i) as) (\<lambda>_. bindR (writeR ?W) (\<lambda>_. persistLeaseState bd))))
     (\<lambda>_. dispatchable bd J i snapshot as) (\<lambda>_. rec_inv J)"
  proof (rule undo_triple)
    fix j
    have persist: "triple (\<lambda>m. unsaved J j m \<and> ?D m) (persistLeaseState bd) (\<lambda>_. dispatchable bd J i snapshot as) (\<lambda>_. unsaved J j)"
      unfolding dispatchable_def by (rule persist_triple) auto
    have "triple (stagingInv (unsaved J j) i snapshot [] (map pa_name as))
       (bindR (forR (stageRestore bd i) as) (\<lambda>_. bindR (writeR ?W) (\<lambda>_. persistLeaseState bd)))
       (\<lambda>_. dispatchable bd J i snapshot as) (\<lambda>_. unsaved J j)"
      by (rule triple_bind [OF stageRestore_all [OF assms(2)]], simp)
        (rule triple_bind [OF triple_write persist], rule wrote, simp)
    then show "triple (\<lambda>m. stagingInv (rec_inv J) i snapshot [] (map pa_name as) m \<and> lastSaved (trace m) = j)
       (bindR (forR (stageRestore bd i) as) (\<lambda>_. bindR (writeR ?W) (\<lambda>_. persistLeaseState bd)))
       (\<lambda>_. dispatchable bd J i snapshot as) (\<lambda>_. unsaved J j)"
      by (rule triple_pre) (auto simp: stagingInv_def unsaved_def dest: rec_invD)
  qed (simp add: stagingInv_def)
  have "triple (dispatchable bd J i snapshot as)
     (bindR (setUnitProperties bd ''restore_properties'' (ui_Name i) as) (\<lambda>_.
      bindR (confirmMutation bd ''restore_properties'' False i as) (\<lambda>_. retR ()))) (\<lambda>_. rec_inv J) (\<lambda>_. rec_inv J)"
    unfolding bindR_assoc [symmetric] by (rule triple_bind [OF dispatch_staged [OF assms(1)]]) (rule triple_ret)
  then show ?thesis unfolding setOwnedProperties_def by (rule triple_bind [OF stage])
qed

text \<open>Resolving a lease drops its pending resets or keeps them.\<close>

lemma resolve_pending:
  "resolveUncertainOwnership v s = (b, r) \<Longrightarrow> ls_pendingIOWeightResets r = [] \<or> ls_pendingIOWeightResets r = ls_pendingIOWeightResets s"
  by (auto simp: resolveUncertainOwnership_def Let_def split: if_splits)

text \<open>A resolved lease is ready.\<close>

lemma setLease_ready:
  assumes m: "stagingInv (rec_inv J) i snapshot [] ready m" and lease: "map_of (leases m) (i, p) = Some s" "p \<notin> set ready"
    and v: "PropertySet_propertyValue (us_Properties snapshot) p = Some v" "resolveUncertainOwnership v s = (True, r)"
  shows "stagingInv (rec_inv J) i snapshot [] (p # ready) (setLease (i, p) r m)"
proof -
  have inv: "rec_inv J m" "leases_owned m" using m(1) by (auto simp: stagingInv_def dest: rec_invD)
  have r: "propertyValuesEqual p v (ls_lastApplied r)" "pl_Property (ls_lease r) = p"
    using resolve_owned [OF v(2)] owned_lease [OF inv(2) lease(1)] by auto
  have "leases_owned (setLease (i, p) r m)"
    by (rule setLease_owned [OF inv(2)]) (use r owned_lease [OF inv(2) lease(1)] in \<open>auto simp: onRecord_def\<close>)
  moreover have "covered (setLease (i, p) r m)"
    unfolding setLease_def
  proof (rule covered_leases [OF rec_invD(3) [OF inv(1)]])
    fix k s' assume "(k, s') \<in> set (AList.update (i, p) r (leases m))"
    then consider "(k, s') = ((i, p), r)" | "(k, s') \<in> set (leases m)" using set_update_subset by fast
    then show "ls_pendingIOWeightResets s' = [] \<or> (\<exists>k' s''. (k', s'') \<in> set (leases m) \<and> ui_Name (fst k') = ui_Name (fst k) \<and>
        ls_pendingIOWeightResets s' = ls_pendingIOWeightResets s'')"
    proof cases
      case 1
      then show ?thesis using resolve_pending [OF v(2)] map_of_SomeD [OF lease(1)] by fastforce
    qed blast
  qed
  ultimately have "rec_inv J (setLease (i, p) r m)" using inv(1) by (simp add: rec_inv_def base_inv_def)
  moreover have "readyIn (setLease (i, p) r m) i snapshot q" if q: "q \<in> set (p # ready)" for q
    using m v(1) r(1) q lease(2) by (cases "q = p") (auto simp: stagingInv_def readyIn_def)
  ultimately show ?thesis using m by (simp add: stagingInv_def)
qed

lemma selectRestores_ready:
  assumes "distinct ps" "set ps \<inter> set ready = {}"
  shows "triple (stagingInv (rec_inv J) i snapshot [] ready) (selectRestores i snapshot ps)
     (\<lambda>(restored, conflicts, as) m. stagingInv (rec_inv J) i snapshot [] (map pa_name as @ ready) m \<and>
        distinct (map pa_name as) \<and> (\<forall>a \<in> set as. pa_name a \<in> set ps)) (\<lambda>_. rec_inv J)"
  using assms
proof (induction ps arbitrary: ready)
  case Nil
  show ?case by (auto intro: triple_ret)
next
  case (Cons p ps)
  let ?I = "stagingInv (rec_inv J) i snapshot [] ready"
  let ?Q = "\<lambda>ps ready (restored, conflicts, as) m. stagingInv (rec_inv J) i snapshot [] (map pa_name as @ ready) m \<and>
        distinct (map pa_name as) \<and> (\<forall>a \<in> set as. pa_name a \<in> set ps)"
  have IH: "triple (stagingInv (rec_inv J) i snapshot [] r) (selectRestores i snapshot ps) (?Q ps r) (\<lambda>_. rec_inv J)"
    if "set ps \<inter> set r = {}" for r using Cons.IH [OF _ that] Cons.prems(1) by simp
  have drop: "stagingInv (rec_inv J) i snapshot [] (xs @ p # ys) m \<Longrightarrow> stagingInv (rec_inv J) i snapshot [] (xs @ ys) m \<and> stagingInv (rec_inv J) i snapshot [] (p # xs @ ys) m"
    for xs ys m by (auto simp: stagingInv_def)
  have error: "?I m \<Longrightarrow> rec_inv J m" for m by (simp add: stagingInv_def)
  have skip: "triple ?I (selectRestores i snapshot ps) (?Q (p # ps) ready) (\<lambda>_. rec_inv J)"
    by (rule triple_weaken [OF IH]) (use Cons.prems in auto)
  have found: "triple (\<lambda>m. ?I m \<and> map_of (leases m) (i, p) = Some state)
     (bindR (writeR (setLease (i, p) resolved)) (\<lambda>_.
      bindR (selectRestores i snapshot ps) (\<lambda>(restored, conflicts, as).
        if propertyValuesEqual p v (ls_baseline resolved) then retR (p # restored, conflicts, as)
        else retR (restored, conflicts, baselineAssignment p resolved # as)))) (?Q (p # ps) ready) (\<lambda>_. rec_inv J)"
    if "PropertySet_propertyValue (us_Properties snapshot) p = Some v" "resolveUncertainOwnership v state = (True, resolved)" for state v resolved
  proof (rule triple_bind [OF triple_write triple_bind [OF IH]])
    show "stagingInv (rec_inv J) i snapshot [] (p # ready) (setLease (i, p) resolved m)" if "?I m \<and> map_of (leases m) (i, p) = Some state" for m
      using setLease_ready [of J i snapshot ready m p state v resolved] that \<open>PropertySet_propertyValue _ _ = _\<close>
        \<open>resolveUncertainOwnership _ _ = _\<close> Cons.prems by auto
    show "set ps \<inter> set (p # ready) = {}" using Cons.prems by auto
    show "triple (?Q ps (p # ready) x) (case x of (restored, conflicts, as) \<Rightarrow>
        if propertyValuesEqual p v (ls_baseline resolved) then retR (p # restored, conflicts, as)
        else retR (restored, conflicts, baselineAssignment p resolved # as)) (?Q (p # ps) ready) (\<lambda>_. rec_inv J)" for x
      using Cons.prems drop by (cases x) (auto intro!: triple_ret simp: baselineAssignment_def)
  qed
  show ?case
    unfolding selectRestores.simps
  proof (rule triple_bind)
    show "triple ?I (readR (\<lambda>m. map_of (leases m) (i, p))) (\<lambda>lease m. ?I m \<and> map_of (leases m) (i, p) = lease) (\<lambda>_. rec_inv J)"
      by (rule triple_read) simp
    show "triple (\<lambda>m. ?I m \<and> map_of (leases m) (i, p) = lease)
      (case lease of
         None \<Rightarrow> selectRestores i snapshot ps
       | Some state \<Rightarrow>
           (case PropertySet_propertyValue (us_Properties snapshot) p of
              None \<Rightarrow> failR (malformedReply ''restore_properties'' (ui_Name i))
            | Some v \<Rightarrow>
                (case resolveUncertainOwnership v state of
                   (owned, resolved) \<Rightarrow>
                     if \<not> owned then
                       bindR (selectRestores i snapshot ps) (\<lambda>(restored, conflicts, as).
                       retR (restored, publicPropertyConflict p (ls_lastApplied state) v # conflicts, as))
                     else
                       bindR (writeR (setLease (i, p) resolved)) (\<lambda>_.
                       bindR (selectRestores i snapshot ps) (\<lambda>(restored, conflicts, as).
                       if propertyValuesEqual p v (ls_baseline resolved) then retR (p # restored, conflicts, as)
                       else retR (restored, conflicts, baselineAssignment p resolved # as))))))
      (?Q (p # ps) ready) (\<lambda>_. rec_inv J)" for lease
    proof (intro triple_case_option triple_case_prod triple_if)
      show "triple (\<lambda>m. ?I m \<and> map_of (leases m) (i, p) = lease) (selectRestores i snapshot ps) (?Q (p # ps) ready) (\<lambda>_. rec_inv J)"
        by (rule triple_pre [OF skip]) simp
      show "triple (\<lambda>m. ?I m \<and> map_of (leases m) (i, p) = lease) (failR e) (?Q (p # ps) ready) (\<lambda>_. rec_inv J)" for e
        by (rule triple_fail) (simp add: error)
      show "triple (\<lambda>m. ?I m \<and> map_of (leases m) (i, p) = lease)
         (bindR (selectRestores i snapshot ps) (\<lambda>(restored, conflicts, as). retR (restored, c # conflicts, as)))
         (?Q (p # ps) ready) (\<lambda>_. rec_inv J)" for c
        by (rule triple_pre [OF triple_bind [OF skip]]) (auto intro!: triple_ret)
    qed (use found in auto)
  qed
qed

end
