(* ===== verification/Write_Ahead_Restore.thy ===== *)
theory Write_Ahead_Restore
  imports Write_Ahead
begin

text \<open>
  The operations that give properties and units back keep the write-ahead rule: \<open>RestoreProperties\<close>,
  \<open>Restore\<close> and the batch \<open>RestoreUnits\<close>.
\<close>

section \<open>RestoreProperties\<close>

lemma checkRestoreProperties_distinct:
  "checkRestoreProperties (Some p) ps = None \<Longrightarrow> sorted (p # ps) \<Longrightarrow> distinct (p # ps)"
proof (induction ps arbitrary: p)
  case (Cons q qs)
  have "p \<noteq> q" "checkRestoreProperties (Some q) qs = None" using Cons.prems(1) by (auto split: if_splits)
  then show ?case using Cons.IH [of q] Cons.prems(2) by fastforce
qed simp

lemma validateRestoreProperties_distinct: "validateRestoreProperties ps = Inr selected \<Longrightarrow> distinct selected"
proof -
  assume valid: "validateRestoreProperties ps = Inr selected"
  then have sel: "selected = sort ps" "checkRestoreProperties None selected = None" by (auto simp: validateRestoreProperties_def split: if_splits option.splits)
  have "sorted selected" unfolding sel(1) by simp
  then show "distinct selected" using sel(2) checkRestoreProperties_distinct by (cases selected) (auto split: if_splits)
qed

lemma stagingInv_record:
  assumes "stagingInv (rec_inv J) i snapshot staged ready m" "ready \<noteq> []"
  shows "stagingInv (rec_inv (insert i J)) i snapshot staged ready m"
proof -
  have "readyIn m i snapshot (hd ready)" using assms by (simp add: stagingInv_def)
  then obtain s where "map_of (leases m) (i, hd ready) = Some s" unfolding readyIn_def by blast
  moreover have "leases_owned m" using assms(1) by (auto simp: stagingInv_def dest: rec_invD)
  ultimately have "onRecord i m" using owned_lease by blast
  then show ?thesis using assms(1) by (auto simp: stagingInv_def rec_inv_def base_inv_def onRecord_def)
qed

lemma setOwned_ready:
  assumes "distinct (map pa_name as)" "as \<noteq> []"
  shows "triple (stagingInv (rec_inv J) i snapshot [] (map pa_name as)) (setOwnedProperties bd grow i as) (\<lambda>_. rec_inv (insert i J)) (\<lambda>_. rec_inv (insert i J))"
  by (rule triple_pre [OF setOwnedProperties_keeps [OF _ assms(1)]], simp, erule stagingInv_record) (simp add: assms(2))

lemma RestoreProperties_keeps: "keeps adapter_inv (RestoreProperties bd i ps)"
proof -
  let ?I = "\<lambda>snapshot m. stagingInv (rec_inv {}) i snapshot [] [] m"
  have quiet: "keeps (?I snapshot) op" if "emits quiet op" for op :: "'x adapter_op" and snapshot
    by (rule hush [OF that]) (intro kept)
  have validated: "triple P (liftR (validateRestoreProperties ps)) (\<lambda>vs m. P m \<and> distinct vs) (\<lambda>_. P)" for P
    by (rule triple_lift) (auto dest: validateRestoreProperties_distinct)
  have finish: "triple (?I snapshot)
     (bindR (selectRestores i snapshot selected) (\<lambda>(restored, conflicts, as).
      bindR (if as = [] then retR () else setOwnedProperties bd True i as) (\<lambda>_. retR (g restored conflicts as))))
     (\<lambda>_. rec_inv {}) (\<lambda>_. rec_inv {})" if "distinct selected" for snapshot selected g
  proof (rule triple_bind [OF selectRestores_ready [OF that]], goal_cases)
    case (2 x)
    obtain restored conflicts as where x: "x = (restored, conflicts, as)" by (cases x)
    have owned: "triple (stagingInv (rec_inv {}) i snapshot [] (map pa_name as)) (setOwnedProperties bd True i as) (\<lambda>_. rec_inv {}) (\<lambda>_. rec_inv {})"
      if "distinct (map pa_name as)" "as \<noteq> []"
      by (rule triple_weaken [OF setOwned_ready [OF that]]) (auto intro: rec_inv_mono)
    have "triple (\<lambda>m. stagingInv (rec_inv {}) i snapshot [] (map pa_name as) m \<and> distinct (map pa_name as))
      (bindR (if as = [] then retR () else setOwnedProperties bd True i as) (\<lambda>_. retR (g restored conflicts as)))
      (\<lambda>_. rec_inv {}) (\<lambda>_. rec_inv {})"
      by (intro triple_const triple_bind [where R = "\<lambda>_. rec_inv {}"] triple_if triple_ret owned) (auto simp: stagingInv_def)
    then show ?case unfolding x prod.case by (rule triple_pre) auto
  qed simp
  have I: "?I snapshot m \<Longrightarrow> rec_inv {} m" for snapshot m by (simp add: stagingInv_def)
  have read: "triple (rec_inv {}) (readUnit bd (ui_Name i) path) (\<lambda>snapshot m. ?I snapshot m) (\<lambda>_. rec_inv {})" for path
    by (rule triple_weaken [OF readUnit_keeps [OF looksKeep_rec]]) (auto simp: stagingInv_def)
  have after: "triple (?I snapshot)
     (bindR (requireSameIdentity ''restore_properties'' i (us_Identity snapshot)) (\<lambda>_.
      bindR (readR (\<lambda>m. (overrideOf m i, map_of (overrides m) i \<noteq> None))) (\<lambda>(override, tracked).
      bindR (requireManagedUnitFileFootprint bd ''restore_properties'' snapshot override tracked) (\<lambda>_.
      bindR (if tracked then
               bindR (captureFootprint bd snapshot) (\<lambda>actual.
               checkR (actual = uo_fingerprints override) (externalRecoveryConflict (ui_Name i)))
             else retR ()) (\<lambda>_.
      bindR (selectRestores i snapshot selected) (\<lambda>(restored, conflicts, as).
      bindR (if as = [] then retR () else setOwnedProperties bd True i as) (\<lambda>_. retR (g restored conflicts as))))))))
     (\<lambda>_. rec_inv {}) (\<lambda>_. rec_inv {})" if "distinct selected" for snapshot selected g
    by (intro finish [OF that] keeps_first [where I = "?I snapshot" and J = "rec_inv {}"] triple_case_prod quiet
        emits_rules emits_footprint) (simp_all add: I)
  show ?thesis
    unfolding RestoreProperties_def rec_inv_empty [symmetric]
    by (intro after
        triple_bind [OF look [OF _ looksKeep_rec]] emits_looks triple_first [OF validated] triple_bind [OF read]
        triple_const) simp_all
qed

section \<open>Preparing one unit\<close>

lemma resolved_property [simp]:
  "pl_Property (ls_lease (snd (resolveUncertainOwnership v s))) = pl_Property (ls_lease s)"
  by (simp add: resolveUncertainOwnership_def Let_def publicPropertyLease_def)

lemma map_of_mapLeases: "map_of (leases (mapLeases i f m)) (i, p) = map_option (f p) (map_of (leases m) (i, p))"
proof -
  have "map_of (map (\<lambda>(k, s). if fst k = i then (k, f (snd k) s) else (k, s)) ls) (i, p) = map_option (f p) (map_of ls (i, p))" for ls
    by (induction ls) auto
  then show ?thesis by (simp add: mapLeases_def)
qed

lemma mapLeases_fields [simp]:
  "trace (mapLeases i f m) = trace m" "overrides (mapLeases i f m) = overrides m" "phases (mapLeases i f m) = phases m"
  "fresh snapshot u (mapLeases i f m) = fresh snapshot u m" "phaseOf (mapLeases i f m) u = phaseOf m u"
  "phased (mapLeases i f m) = phased m" "phase_ok (mapLeases i f m) = phase_ok m"
  by (simp_all add: mapLeases_def fresh_def)

lemma mapLeases_rec:
  assumes "rec_inv J m" "\<And>p s. pl_Property (ls_lease s) = p \<Longrightarrow> pl_Property (ls_lease (f p s)) = p"
    "\<And>p s. ls_pendingIOWeightResets (f p s) = [] \<or> ls_pendingIOWeightResets (f p s) = ls_pendingIOWeightResets s"
  shows "rec_inv J (mapLeases i f m)"
proof -
  have "covered (mapLeases i f m)"
    unfolding mapLeases_def
  proof (rule covered_leases [OF rec_invD(3) [OF assms(1)]])
    fix k s' assume "(k, s') \<in> set (map (\<lambda>(k, s). if fst k = i then (k, f (snd k) s) else (k, s)) (leases m))"
    then obtain s where s: "(k, s) \<in> set (leases m)" "s' = (if fst k = i then f (snd k) s else s)" by (auto split: if_splits)
    then show "ls_pendingIOWeightResets s' = [] \<or> (\<exists>k' s''. (k', s'') \<in> set (leases m) \<and> ui_Name (fst k') = ui_Name (fst k) \<and>
        ls_pendingIOWeightResets s' = ls_pendingIOWeightResets s'')"
      using assms(3) [where p = "snd k" and s = s] by (metis (full_types))
  qed
  moreover have "leases_owned (mapLeases i f m)" by (rule mapLeases_owned [OF rec_invD(1) [OF assms(1)]]) (rule assms(2))
  ultimately show ?thesis using assms(1) by (simp add: rec_inv_def base_inv_def)
qed

lemma unit_keys_distinct:
  assumes "leases_owned m"
  shows "distinct (map fst (ownedOf snapshot (unitLeases m i)))"
proof -
  let ?ls = "filter (\<lambda>(k, s). fst (resolveLease snapshot (snd k) s)) (unitLeases m i)"
  have "distinct (map fst ?ls)" using assms by (simp add: leases_owned_def unitLeases_def distinct_map_filter)
  moreover have "inj_on snd (set (map fst ?ls))" by (auto simp: inj_on_def unitLeases_def)
  moreover have "map fst (ownedOf snapshot (unitLeases m i)) = map snd (map fst ?ls)" by (simp add: ownedOf_def split_def)
  ultimately show ?thesis by (simp only: distinct_map [of snd] simp_thms)
qed

lemma resolve_all:
  assumes m: "stagingInv (rec_inv J) i snapshot [] [] m"
  shows "stagingInv (rec_inv J) i snapshot [] (map fst (ownedOf snapshot (unitLeases m i)))
    (mapLeases i (\<lambda>p s. if fst (resolveLease snapshot p s) then snd (resolveLease snapshot p s) else s) m)"
proof -
  let ?f = "\<lambda>p s. if fst (resolveLease snapshot p s) then snd (resolveLease snapshot p s) else s"
  have inv: "rec_inv J m" and owned: "leases_owned m" using m by (auto simp: stagingInv_def dest: rec_invD)
  have pending: "ls_pendingIOWeightResets (snd (resolveUncertainOwnership v s)) = [] \<or>
      ls_pendingIOWeightResets (snd (resolveUncertainOwnership v s)) = ls_pendingIOWeightResets s" for v s
    using resolve_pending [of v s "fst (resolveUncertainOwnership v s)" "snd (resolveUncertainOwnership v s)"] by simp
  have "rec_inv J (mapLeases i ?f m)"
    by (rule mapLeases_rec [OF inv]) (use pending in \<open>auto simp: resolveLease_def split: option.splits\<close>)
  moreover have "readyIn (mapLeases i ?f m) i snapshot p" if p: "p \<in> set (map fst (ownedOf snapshot (unitLeases m i)))" for p
  proof -
    obtain s where s: "((i, p), s) \<in> set (leases m)" "fst (resolveLease snapshot p s)"
      using p by (auto simp: ownedOf_def unitLeases_def)
    have key: "map_of (leases m) (i, p) = Some s" using s(1) owned by (simp add: leases_owned_def)
    obtain v where v: "PropertySet_propertyValue (us_Properties snapshot) p = Some v"
      "resolveUncertainOwnership v s = (True, snd (resolveLease snapshot p s))"
      using s(2) by (auto simp: resolveLease_def prod_eq_iff split: option.splits)
    show ?thesis using resolve_owned(1) [OF v(2)] owned_lease [OF owned key] v(1) s(2) key by (simp add: readyIn_def map_of_mapLeases)
  qed
  ultimately show ?thesis using m by (simp add: stagingInv_def)
qed

lemma checkRestorable_keeps:
  "triple (rec_inv J) (checkRestorable bd i) (\<lambda>r. stagingInv (rec_inv J) i (fst r) [] []) (\<lambda>_. rec_inv J)"
proof -
  let ?I = "\<lambda>snapshot m. stagingInv (rec_inv J) i snapshot [] [] m"
  have quiet: "keeps (?I snapshot) op" if "emits quiet op" for op :: "'x adapter_op" and snapshot
    by (rule hush [OF that]) (intro kept)
  have I: "?I snapshot m \<Longrightarrow> rec_inv J m" for snapshot m by (simp add: stagingInv_def)
  have read: "triple (rec_inv J) (readUnit bd (ui_Name i) path) (\<lambda>snapshot m. ?I snapshot m) (\<lambda>_. rec_inv J)" for path
    by (rule triple_weaken [OF readUnit_keeps [OF looksKeep_rec]]) (auto simp: stagingInv_def)
  let ?T = "\<lambda>snapshot tracked m. ?I snapshot m \<and> (tracked \<longrightarrow> onRecord i m)"
  have T: "?T snapshot tracked m \<Longrightarrow> rec_inv J m" for snapshot tracked m using I by blast
  have looksT: "looksKeep (\<lambda>m. tracked \<longrightarrow> onRecord i m)" for tracked by (simp add: looksKeep_def onRecord_def)
  have quietT: "keeps (?T snapshot tracked) op" if "emits quiet op" for op :: "'x adapter_op" and snapshot tracked
    by (rule hush [OF that], rule quietKeep_conj [OF _ looksKeep_quietKeep [OF looksT]]) (intro kept)
  have wrote: "keeps (?T snapshot tracked) (writeR (\<lambda>m. m\<lparr> overrides := AList.update i ov (overrides m) \<rparr>))" if tracked for snapshot ov tracked
  proof (rule triple_write)
    fix m assume m: "?T snapshot tracked m"
    with \<open>tracked\<close> have "fst ` set (AList.update i ov (overrides m)) = fst ` set (overrides m)" by (auto simp: dom_update onRecord_def)
    then show "?T snapshot tracked (m\<lparr> overrides := AList.update i ov (overrides m) \<rparr>)"
      using m by (auto simp: stagingInv_def rec_inv_def base_inv_def fresh_def leases_owned_def phased_def phase_ok_def covered_def onRecord_def)
  qed
  have track: "triple (?I snapshot) (readR (\<lambda>m. (overrideOf m i, map_of (overrides m) i \<noteq> None)))
      (\<lambda>(override, tracked). ?T snapshot tracked) (\<lambda>_. rec_inv J)" for snapshot
    by (rule triple_read) (auto simp: onRecord_def dest!: map_of_SomeD intro: rev_image_eqI)
  have update: "keeps (?T snapshot tracked)
       (if tracked \<and> paths \<noteq> [] then
          bindR (fingerprints bd ''restore'' (ui_Name i) paths) (\<lambda>actual.
          bindR (readR (\<lambda>m. phaseOf m (ui_Name i))) (\<lambda>phase.
            if phase = leasePhaseApplying \<and> map uf_path actual = uo_managedPaths override
            then writeR (\<lambda>m. m\<lparr> overrides := AList.update i (override\<lparr> uo_fingerprints := actual \<rparr>) (overrides m) \<rparr>)
            else checkR (actual = uo_fingerprints override) (externalRecoveryConflict (ui_Name i))))
        else retR ())" for snapshot tracked paths override
    by (intro triple_if keeps_bind wrote keeps_simple quietT emits_footprint) simp_all
  have inner: "triple (?T snapshot tracked)
     (bindR (combinedMutableUnitFilePaths bd snapshot) (\<lambda>paths.
     bindR (requireRestorableUnitFileFootprint (ui_Name i) paths override tracked) (\<lambda>_.
     bindR (if tracked \<and> paths \<noteq> [] then
              bindR (fingerprints bd ''restore'' (ui_Name i) paths) (\<lambda>actual.
              bindR (readR (\<lambda>m. phaseOf m (ui_Name i))) (\<lambda>phase.
                if phase = leasePhaseApplying \<and> map uf_path actual = uo_managedPaths override
                then writeR (\<lambda>m. m\<lparr> overrides := AList.update i (override\<lparr> uo_fingerprints := actual \<rparr>) (overrides m) \<rparr>)
                else checkR (actual = uo_fingerprints override) (externalRecoveryConflict (ui_Name i))))
            else retR ()) (\<lambda>_.
     bindR (readR (\<lambda>m. list_all (\<lambda>(k, s). PropertySet_propertyValue (us_Properties snapshot) (snd k) \<noteq> None)
                          (unitLeases m i))) (\<lambda>complete.
     bindR (checkR complete (malformedReply ''restore'' (ui_Name i))) (\<lambda>_. retR (snapshot, paths)))))))
     (\<lambda>r. ?I (fst r)) (\<lambda>_. rec_inv J)" for snapshot override tracked
    unfolding requireRestorableUnitFileFootprint_def
    by (intro keeps_first [where I = "?T snapshot tracked" and J = "rec_inv J"] update quietT emits_rules emits_footprint triple_ret)
      (simp_all add: T)
  have after: "triple (?I snapshot)
     (bindR (requireSameIdentity ''restore'' i (us_Identity snapshot)) (\<lambda>_.
     bindR (readR (\<lambda>m. (overrideOf m i, map_of (overrides m) i \<noteq> None))) (\<lambda>(override, tracked).
     bindR (combinedMutableUnitFilePaths bd snapshot) (\<lambda>paths.
     bindR (requireRestorableUnitFileFootprint (ui_Name i) paths override tracked) (\<lambda>_.
     bindR (if tracked \<and> paths \<noteq> [] then
              bindR (fingerprints bd ''restore'' (ui_Name i) paths) (\<lambda>actual.
              bindR (readR (\<lambda>m. phaseOf m (ui_Name i))) (\<lambda>phase.
                if phase = leasePhaseApplying \<and> map uf_path actual = uo_managedPaths override
                then writeR (\<lambda>m. m\<lparr> overrides := AList.update i (override\<lparr> uo_fingerprints := actual \<rparr>) (overrides m) \<rparr>)
                else checkR (actual = uo_fingerprints override) (externalRecoveryConflict (ui_Name i))))
            else retR ()) (\<lambda>_.
     bindR (readR (\<lambda>m. list_all (\<lambda>(k, s). PropertySet_propertyValue (us_Properties snapshot) (snd k) \<noteq> None)
                          (unitLeases m i))) (\<lambda>complete.
     bindR (checkR complete (malformedReply ''restore'' (ui_Name i))) (\<lambda>_. retR (snapshot, paths)))))))))
     (\<lambda>r. ?I (fst r)) (\<lambda>_. rec_inv J)" for snapshot
  proof (rule keeps_first [where I = "?I snapshot" and J = "rec_inv J", OF quiet], goal_cases)
    case 3
    show ?case by (rule triple_bind [OF track]) (use inner in \<open>auto split: prod.splits\<close>)
  qed (auto simp: I intro: emits_footprint)
  show ?thesis
    unfolding checkRestorable_def
    by (intro after triple_bind [OF look [OF _ looksKeep_rec]] emits_looks triple_bind [OF read])
qed

lemma dom_delete: "fst ` set (AList.delete k al) = fst ` set al - {k}"
  by (simp add: delete_keys flip: set_map)

lemma unitLeaseState_name: "unitLeaseState m u = Some (i, ov, ph) \<Longrightarrow> ui_Name i = u"
  unfolding unitLeaseState_def by (auto simp: find_Some_iff)

lemma removeUnitLease_keeps:
  assumes "leases_owned m"
  shows "leases_owned (removeUnitLease u m)" "trace (removeUnitLease u m) = trace m"
    "fst ` set (overrides m) - {j. ui_Name j = u} \<subseteq> fst ` set (overrides (removeUnitLease u m))"
proof -
  consider "unitLeaseState m u = None" | i ov ph where "unitLeaseState m u = Some (i, ov, ph)" "ui_Name i = u"
    using unitLeaseState_name [of m u] by (cases "unitLeaseState m u") auto
  note cs = this
  show "leases_owned (removeUnitLease u m)"
    using cs
  proof cases
    case 2
    let ?m = "removeUnitLease u m"
    have m: "leases ?m = filter (\<lambda>(k, s). fst k \<noteq> i) (leases m)" "fst ` set (overrides ?m) = fst ` set (overrides m) - {i}"
      using 2 by (simp_all add: removeUnitLease_def dom_delete)
    show ?thesis
    proof (rule leases_ownedI)
      show "distinct (map fst (leases ?m))" using assms by (simp add: m(1) leases_owned_def distinct_map_filter)
      show "pl_Property (ls_lease s) = snd k \<and> fst k \<in> fst ` set (overrides ?m)" if "(k, s) \<in> set (leases ?m)" for k s
        using leases_ownedD [OF assms, of k s] that by (simp add: m)
    qed
  qed (use assms in \<open>simp add: removeUnitLease_def\<close>)
  show "trace (removeUnitLease u m) = trace m" by (simp add: removeUnitLease_def split: option.splits prod.splits)
  show "fst ` set (overrides m) - {j. ui_Name j = u} \<subseteq> fst ` set (overrides (removeUnitLease u m))"
    using cs by cases (auto simp: removeUnitLease_def dom_delete)
qed

lemma removeUnitLease_base: "base_inv J m \<Longrightarrow> base_inv (J - {j. ui_Name j = u}) (removeUnitLease u m)"
proof -
  assume m: "base_inv J m"
  let ?m = "removeUnitLease u m"
  have owned: "leases_owned m" using m by (simp add: base_inv_def)
  have phase: "phaseOf ?m v = (if v = u then [] else phaseOf m v)" for v
    by (auto simp: removeUnitLease_def phaseOf_def delete_conv' split: option.splits)
  have dom: "fst ` set (overrides m) - {j. ui_Name j = u} \<subseteq> fst ` set (overrides ?m)" by (rule removeUnitLease_keeps(3) [OF owned])
  have "phased ?m"
    unfolding phased_def
  proof (intro allI impI)
    fix v assume v: "phaseOf ?m v \<in> {leasePhaseRestoring, leasePhaseReloading}"
    then have "v \<noteq> u" by (auto simp: phase lease_phases)
    then obtain i where "i \<in> fst ` set (overrides m)" "ui_Name i = v" using m v by (fastforce simp: base_inv_def phased_def phase)
    then show "v \<in> ui_Name ` fst ` set (overrides ?m)" using dom \<open>v \<noteq> u\<close> by blast
  qed
  then show ?thesis using m removeUnitLease_keeps(1,2) [OF owned, of u] dom by (auto simp: base_inv_def)
qed

lemma removeUnitLeases_base: "base_inv J m \<Longrightarrow> base_inv {} (fold removeUnitLease us m) \<and> trace (fold removeUnitLease us m) = trace m"
proof (induction us arbitrary: J m)
  case Nil
  then show ?case by (simp add: base_inv_def)
next
  case (Cons u us)
  have "trace (removeUnitLease u m) = trace m" using Cons.prems removeUnitLease_keeps(2) by (simp add: base_inv_def)
  then show ?case using Cons.IH [OF removeUnitLease_base [OF Cons.prems, of u]] by simp
qed

lemma removeUnitLeaseDurably_keeps:
  assumes "\<And>j. j \<in> J \<Longrightarrow> ui_Name j \<noteq> u"
  shows "keeps (rec_inv J) (removeUnitLeaseDurably bd u)"
  unfolding removeUnitLeaseDurably_def removeUnitLeasesDurably_def
proof (rule triple_weaken [OF stageDurably_triple [where P = "rec_inv J" and J = J and J' = J and Q = "\<lambda>_. True"]])
  fix m assume m: "rec_inv J m"
  show "trace (fold removeUnitLease [u] m) = trace m" using removeUnitLease_keeps(2) [OF rec_invD(1) [OF m]] by simp
  have "J - {j. ui_Name j = u} = J" using assms by auto
  then show "base_inv J (fold removeUnitLease [u] m)" using removeUnitLease_base [OF rec_invD(2) [OF m], of u] by simp
qed auto

text \<open>A pending plan's unit is on record, and the units already prepared stay so.\<close>

definition planned :: "unit_identity set \<Rightarrow> unit_identity \<Rightarrow> unit_restore \<Rightarrow> machine \<Rightarrow> bool" where
  "planned J i plan m \<longleftrightarrow> ur_identity plan = i \<and> rec_inv (if ur_pending plan then insert i J else J) m"

lemma plan_fields [simp]:
  "ur_pending (unitRestore_failed e plan) = False" "ur_identity (unitRestore_failed e plan) = ur_identity plan"
  "ur_identity (newUnitRestore i) = i" "ur_pending (newUnitRestore i) = False"
  by (simp_all add: unitRestore_failed_def newUnitRestore_def)

lemma baseline_names:
  assumes "distinct (map fst owned)"
  shows "distinct (map pa_name (sort_key pa_name (map (\<lambda>(p, s). baselineAssignment p s) (filter Pr owned))))"
    "set (map pa_name (sort_key pa_name (map (\<lambda>(p, s). baselineAssignment p s) (filter Pr owned)))) \<subseteq> set (map fst owned)"
proof -
  have names: "map pa_name (map (\<lambda>(p, s). baselineAssignment p s) (filter Pr owned)) = map fst (filter Pr owned)"
    by (simp add: baselineAssignment_def split_def)
  then show "distinct (map pa_name (sort_key pa_name (map (\<lambda>(p, s). baselineAssignment p s) (filter Pr owned))))"
    using assms by (simp add: distinct_map_sort distinct_map_filter del: map_map)
  show "set (map pa_name (sort_key pa_name (map (\<lambda>(p, s). baselineAssignment p s) (filter Pr owned)))) \<subseteq> set (map fst owned)"
    by (force simp: baselineAssignment_def)
qed

lemma stagingInv_sub: "stagingInv (rec_inv J) i snapshot staged ready m \<Longrightarrow> set ready' \<subseteq> set ready \<Longrightarrow> stagingInv (rec_inv J) i snapshot staged ready' m"
  by (auto simp: stagingInv_def)

lemma effective_names [simp]: "map pa_name (effectiveBaselineAssignments as) = map pa_name as"
  "effectiveBaselineAssignments as = [] \<longleftrightarrow> as = []"
  by (simp_all add: effectiveBaselineAssignments_def effectiveBaseline_def clonePropertyAssignment_def)

lemma planUnitRestore_keeps:
  assumes J: "\<And>j. j \<in> J \<Longrightarrow> ui_Name j \<noteq> ui_Name i" and names: "distinct (map fst (ownedOf current ls))"
  shows "triple (stagingInv (rec_inv J) i current [] (map fst (ownedOf current ls)))
    (planUnitRestore bd i current paths ls override) (planned J i) (\<lambda>_. rec_inv J)"
proof -
  let ?S = "stagingInv (rec_inv J) i current [] (map fst (ownedOf current ls))"
  let ?needed = "sort_key pa_name (map (\<lambda>(p, s). baselineAssignment p s) (filter (\<lambda>ps. \<not> atBaseline current ps) (ownedOf current ls)))"
  have S: "?S m \<Longrightarrow> rec_inv J m" for m by (simp add: stagingInv_def)
  have owned: "triple ?S (tryR (setOwnedProperties bd False i as)) (\<lambda>_. rec_inv (insert i J)) E"
    if "map pa_name as = map pa_name ?needed" "as \<noteq> []" for as E
  proof (rule triple_try, rule triple_pre [OF setOwned_ready])
    show "distinct (map pa_name as)" unfolding that(1) by (rule baseline_names(1) [OF names])
    show "?S m \<Longrightarrow> stagingInv (rec_inv J) i current [] (map pa_name as) m" for m
      unfolding that(1) by (erule stagingInv_sub) (rule baseline_names(2) [OF names])
  qed (rule that(2))
  have pending: "rec_inv (insert i J) m" if "?S m" "ownedOf current ls \<noteq> []" for m
    using stagingInv_record [OF that(1)] that(2) by (simp add: stagingInv_def)
  have removed: "triple ?S (tryR (bindR (verifyRestored bd i as) (\<lambda>_. removeUnitLeaseDurably bd (ui_Name i)))) (\<lambda>_. rec_inv J) E" for as E
    by (rule triple_try, rule triple_pre [OF keeps_bind [OF look [OF emits_verifyRestored looksKeep_rec] removeUnitLeaseDurably_keeps [OF J]]])
      (auto simp: S)
  have recheck: "triple (rec_inv (insert i J)) (tryR (recheckBeforeRevert bd i)) (\<lambda>_. rec_inv (insert i J)) E" for E
    by (rule triple_try, rule look [OF emits_recheck looksKeep_rec])
  show ?thesis
    unfolding planUnitRestore_def Let_def
    by (intro triple_if triple_ret triple_bind [OF owned] triple_bind [OF removed] triple_bind [OF recheck] triple_case_sum)
      (auto simp: planned_def S simp del: map_map set_map intro: pending rec_inv_mono)
qed

lemma prepareUnitRestore_keeps:
  assumes "\<And>j. j \<in> J \<Longrightarrow> ui_Name j \<noteq> ui_Name i"
  shows "triple (rec_inv J) (prepareUnitRestore bd i) (planned J i) (\<lambda>_. rec_inv J)"
  unfolding prepareUnitRestore_def
proof (rule triple_bind)
  let ?R = "\<lambda>r m. case r of Inl e \<Rightarrow> rec_inv J m | Inr (current, paths) \<Rightarrow> stagingInv (rec_inv J) i current [] [] m"
  show "triple (rec_inv J) (tryR (checkRestorable bd i)) ?R (\<lambda>_. rec_inv J)"
    by (rule triple_try, rule triple_weaken [OF checkRestorable_keeps]) (auto split: prod.splits)
  fix r
  show "triple (?R r) (case r of
       Inl e \<Rightarrow> retR (unitRestore_failed (Some e) (newUnitRestore i))
     | Inr (current, paths) \<Rightarrow>
         bindR (readR (\<lambda>m. (unitLeases m i, overrideOf m i))) (\<lambda>(ls, override).
         bindR (writeR (mapLeases i (\<lambda>p s. if fst (resolveLease current p s) then snd (resolveLease current p s) else s))) (\<lambda>_.
         planUnitRestore bd i current paths ls override))) (planned J i) (\<lambda>_. rec_inv J)"
  proof (cases r)
    case (Inr cp)
    obtain current paths where cp: "cp = (current, paths)" by (cases cp)
    let ?I = "stagingInv (rec_inv J) i current [] []"
    let ?resolve = "mapLeases i (\<lambda>p s. if fst (resolveLease current p s) then snd (resolveLease current p s) else s)"
    let ?W = "\<lambda>ls m. stagingInv (rec_inv J) i current [] (map fst (ownedOf current ls)) m \<and> distinct (map fst (ownedOf current ls))"
    have "triple ?I
       (bindR (readR (\<lambda>m. (unitLeases m i, overrideOf m i))) (\<lambda>(ls, override).
        bindR (writeR ?resolve) (\<lambda>_. planUnitRestore bd i current paths ls override))) (planned J i) (\<lambda>_. rec_inv J)"
    proof (rule triple_bind [where R = "\<lambda>(ls, override) m. ?I m \<and> ls = unitLeases m i"], goal_cases)
      case (2 x)
      obtain ls override where x: "x = (ls, override)" by (cases x)
      have "?W ls (?resolve m)" if "?I m \<and> ls = unitLeases m i" for m
        using resolve_all [of J i current m] unit_keys_distinct [of m current i] that by (auto simp: stagingInv_def dest: rec_invD)
      then have "triple (\<lambda>m. ?I m \<and> ls = unitLeases m i) (writeR ?resolve) (\<lambda>_. ?W ls) (\<lambda>_. rec_inv J)"
        by (intro triple_write)
      moreover have "triple (?W ls) (planUnitRestore bd i current paths ls override) (planned J i) (\<lambda>_. rec_inv J)"
        by (rule triple_const, rule planUnitRestore_keeps [OF assms])
      ultimately show ?case unfolding x prod.case by (rule triple_bind)
    qed (auto intro: triple_read)
    then show ?thesis by (simp add: Inr cp)
  qed (auto intro!: triple_ret simp: planned_def)
qed

section \<open>Batches\<close>

definition pendingIds :: "unit_restore list \<Rightarrow> unit_identity set" where
  "pendingIds plans = ur_identity ` set (pendingUnitRestores plans)"

lemma pendingIds_simps [simp]:
  "pendingIds [] = {}" "pendingIds (p # ps) = (if ur_pending p then insert (ur_identity p) (pendingIds ps) else pendingIds ps)"
  "pendingIds (failUnitRestores e ps) = {}"
  by (auto simp: pendingIds_def pendingUnitRestores_def failUnitRestores_def)

lemma prepareUnitRestores_keeps:
  assumes "ui_Name ` J \<subseteq> set requested"
  shows "triple (rec_inv J) (prepareUnitRestores bd requested is) (\<lambda>plans. rec_inv (J \<union> pendingIds plans)) (\<lambda>_. rec_inv {})"
  using assms
proof (induction "is" arbitrary: J requested)
  case (Cons i "is")
  have one: "triple (rec_inv J) (if ui_Name i \<in> set requested
      then retR (unitRestore_failed (Some (PlainError ''unit requested more than once in one batch'')) (newUnitRestore i))
      else prepareUnitRestore bd i) (planned J i) (\<lambda>_. rec_inv {})"
  proof (rule triple_if)
    assume "ui_Name i \<notin> set requested"
    then have "\<And>j. j \<in> J \<Longrightarrow> ui_Name j \<noteq> ui_Name i" using Cons.prems by auto
    then show "triple (rec_inv J) (prepareUnitRestore bd i) (planned J i) (\<lambda>_. rec_inv {})"
      by (intro triple_weaken [OF prepareUnitRestore_keeps [where J = J]]) (auto intro: rec_inv_mono)
  qed (auto intro!: triple_ret simp: planned_def)
  have rest: "triple (planned J i plan) (bindR (prepareUnitRestores bd (ui_Name i # requested) is) (\<lambda>plans. retR (plan # plans)))
      (\<lambda>plans. rec_inv (J \<union> pendingIds plans)) (\<lambda>_. rec_inv {})" for plan
  proof (rule triple_bind)
    let ?J = "if ur_pending plan then insert i J else J"
    have "triple (rec_inv ?J) (prepareUnitRestores bd (ui_Name i # requested) is) (\<lambda>plans. rec_inv (?J \<union> pendingIds plans)) (\<lambda>_. rec_inv {})"
      using Cons.prems by (intro Cons.IH) auto
    then show "triple (planned J i plan) (prepareUnitRestores bd (ui_Name i # requested) is)
        (\<lambda>plans m. rec_inv (?J \<union> pendingIds plans) m \<and> ur_identity plan = i) (\<lambda>_. rec_inv {})"
      by (rule triple_pre [OF triple_conj_const]) (auto simp: planned_def)
    show "triple (\<lambda>m. rec_inv (?J \<union> pendingIds plans) m \<and> ur_identity plan = i) (retR (plan # plans))
        (\<lambda>plans. rec_inv (J \<union> pendingIds plans)) (\<lambda>_. rec_inv {})" for plans
      by (rule triple_ret) (auto elim: rec_inv_mono)
  qed
  show ?case unfolding prepareUnitRestores.simps by (rule triple_bind [OF one rest])
qed (auto intro!: triple_ret)

text \<open>A step of the pending plans fails some and keeps the identity of the others.\<close>

definition stepOf :: "unit_restore \<Rightarrow> unit_restore \<Rightarrow> bool" where
  "stepOf p p' \<longleftrightarrow> ur_identity p' = ur_identity p \<and> (ur_pending p' \<longrightarrow> ur_pending p)"

lemma stepOf_pending: "list_all2 stepOf ps ps' \<Longrightarrow> pendingIds ps' \<subseteq> pendingIds ps"
  by (induction rule: list_all2_induct) (auto simp: stepOf_def)

lemma stepPlan_keeps:
  assumes "\<And>p. p \<in> set plans \<Longrightarrow> ur_pending p \<Longrightarrow> keeps I (f p)"
  shows "triple I (mapR (stepPlan f) plans) (\<lambda>plans' m. I m \<and> list_all2 stepOf plans plans') E"
proof (rule triple_map_all)
  fix p assume p: "p \<in> set plans"
  have "triple I (tryR (f p)) (\<lambda>_. I) E" if "ur_pending p" by (rule triple_try) (rule assms [OF p that])
  then show "triple I (stepPlan f p) (\<lambda>p' m. I m \<and> stepOf p p') E"
    unfolding stepPlan_def by (intro triple_if triple_bind triple_ret) (auto simp: stepOf_def split: sum.splits)
qed

lemma leases_owned_cong: "leases_owned m \<Longrightarrow> leases m' = leases m \<Longrightarrow> overrides m' = overrides m \<Longrightarrow> leases_owned m'"
  by (simp add: leases_owned_def)

lemma stageUnitReverts:
  "leases_owned m \<Longrightarrow> leases_owned (fold stageUnitRevert ps m)" "trace (fold stageUnitRevert ps m) = trace m"
  "overrides (fold stageUnitRevert ps m) = overrides m"
  "phaseOf (fold stageUnitRevert ps m) u = (if u \<in> unitName ` set ps then leasePhaseRestoring else phaseOf m u)"
proof -
  have one: "leases_owned m \<Longrightarrow> leases_owned (stageUnitRevert p m)" "trace (stageUnitRevert p m) = trace m"
    "overrides (stageUnitRevert p m) = overrides m"
    "phaseOf (stageUnitRevert p m) v = (if v = unitName p then leasePhaseRestoring else phaseOf m v)" for p m v
    by (auto simp: stageUnitRevert_def publicPropertyLease_def phaseOf_def update_conv' unitName_def intro!: mapLeases_owned)
  show "leases_owned m \<Longrightarrow> leases_owned (fold stageUnitRevert ps m)" "trace (fold stageUnitRevert ps m) = trace m"
    "overrides (fold stageUnitRevert ps m) = overrides m"
    "phaseOf (fold stageUnitRevert ps m) u = (if u \<in> unitName ` set ps then leasePhaseRestoring else phaseOf m u)"
    by (induction ps arbitrary: m) (simp_all add: one)
qed

lemma setPhases:
  "leases (fold (setPhase ph \<circ> f) ps m) = leases m" "trace (fold (setPhase ph \<circ> f) ps m) = trace m"
  "overrides (fold (setPhase ph \<circ> f) ps m) = overrides m"
  "phaseOf (fold (setPhase ph \<circ> f) ps m) u = (if u \<in> f ` set ps then ph else phaseOf m u)"
proof -
  have one: "phaseOf (setPhase ph v m) w = (if w = v then ph else phaseOf m w)" for m v w
    by (simp add: setPhase_def phaseOf_def update_conv')
  show "leases (fold (setPhase ph \<circ> f) ps m) = leases m" "trace (fold (setPhase ph \<circ> f) ps m) = trace m"
    "overrides (fold (setPhase ph \<circ> f) ps m) = overrides m"
    "phaseOf (fold (setPhase ph \<circ> f) ps m) u = (if u \<in> f ` set ps then ph else phaseOf m u)"
    by (induction ps arbitrary: m) (simp_all add: one, simp_all add: setPhase_def)
qed

text \<open>While unit files are reverted: the units are on record as being restored.\<close>

definition phaseInv :: "lease_phase \<Rightarrow> unit_identity set \<Rightarrow> machine \<Rightarrow> bool" where
  "phaseInv ph J m \<longleftrightarrow> rec_inv J m \<and> (\<forall>j \<in> J. phaseOf m (ui_Name j) = ph)"

lemma revert_keeps:
  assumes "\<And>m. P m \<Longrightarrow> rec_inv J m" "\<And>m. P m \<Longrightarrow> phaseOf m u = leasePhaseRestoring" "\<And>m c. P m \<Longrightarrow> rec_inv J (emit c m) \<Longrightarrow> P (emit c m)"
  shows "keeps P (revertUnitFiles bd op u)"
  unfolding revertUnitFiles_def
proof (rule triple_call)
  fix m :: machine assume m: "P m"
  then have "permittedRevert (trace m) u" using coveredD(1) [OF rec_invD(3)] assms(1,2) by blast
  then show "P (emit (CallRevertUnitFiles u) m)" "P (emit (CallRevertUnitFiles u) m)"
    using assms(3) [OF m] assms(1) [OF m] by (simp_all add: inv_emit)
qed

lemma stagePhase:
  assumes P: "\<And>m. P m \<Longrightarrow> rec_inv J m" "\<And>m. P m \<Longrightarrow> U \<subseteq> ui_Name ` fst ` set (overrides m)"
    and f: "\<And>m. P m \<Longrightarrow> leases_owned (f m) \<and> trace (f m) = trace m \<and> overrides (f m) = overrides m"
    and phase: "\<And>m u. P m \<Longrightarrow> phaseOf (f m) u = (if u \<in> U then ph else phaseOf m u)"
  shows "triple P (stageDurably bd f) (\<lambda>_ m. rec_inv J m \<and> (\<forall>u \<in> U. phaseOf m u = ph)) (\<lambda>_. rec_inv J)"
proof (rule triple_weaken [OF stageDurably_triple [where P = P and J = J and J' = J and Q = "\<lambda>m. \<forall>u \<in> U. phaseOf m u = ph"]])
  fix m assume m: "P m"
  have "phased (f m)"
    unfolding phased_def
  proof (intro allI impI)
    fix u assume u: "phaseOf (f m) u \<in> {leasePhaseRestoring, leasePhaseReloading}"
    show "u \<in> ui_Name ` fst ` set (overrides (f m))"
    proof (cases "u \<in> U")
      case False
      then show ?thesis using P(1) [OF m] u f [OF m] phase [OF m, of u] by (auto simp: rec_inv_def base_inv_def phased_def)
    qed (use P(2) [OF m] f [OF m] in auto)
  qed
  then show "base_inv J (f m)" "trace (f m) = trace m" using P(1) [OF m] f [OF m] by (simp_all add: rec_inv_def base_inv_def)
  show "\<forall>u \<in> U. phaseOf ((f m)\<lparr> trace := CallSave j' True # trace m, generation := dj_Generation j' \<rparr>) u = ph" for j'
    using phase [OF m] by simp
qed (use P(1) in auto)

lemma stagePlans:
  assumes "\<And>m. rec_inv (pendingIds plans) m \<Longrightarrow> leases_owned (f m) \<and> trace (f m) = trace m \<and> overrides (f m) = overrides m"
    "\<And>m u. phaseOf (f m) u = (if u \<in> unitName ` set (pendingUnitRestores plans) then ph else phaseOf m u)"
  shows "triple (rec_inv (pendingIds plans)) (stageDurably bd f) (\<lambda>_. phaseInv ph (pendingIds plans)) (\<lambda>_. rec_inv (pendingIds plans))"
proof -
  have names: "unitName ` set (pendingUnitRestores plans) = ui_Name ` pendingIds plans" by (auto simp: pendingIds_def unitName_def)
  have "ui_Name ` pendingIds plans \<subseteq> ui_Name ` fst ` set (overrides m)" if "rec_inv (pendingIds plans) m" for m
    by (rule image_mono) (use that in \<open>simp add: rec_inv_def base_inv_def\<close>)
  then show ?thesis
    by (intro triple_weaken [OF stagePhase [where P = "rec_inv (pendingIds plans)" and J = "pendingIds plans" and U = "ui_Name ` pendingIds plans" and f = f and ph = ph]])
      (use assms in \<open>auto simp: phaseInv_def names\<close>)
qed

lemma revertPending_keeps:
  "triple (rec_inv (pendingIds plans)) (revertPending bd plans) (\<lambda>plans'. rec_inv (pendingIds plans')) (\<lambda>_. rec_inv {})"
  unfolding revertPending_def
proof (rule triple_bind, rule triple_try)
  let ?J = "pendingIds plans"
  let ?R = "\<lambda>r m. case r of Inl e \<Rightarrow> rec_inv ?J m | Inr _ \<Rightarrow> phaseInv leasePhaseRestoring ?J m"
  have "triple (rec_inv ?J) (stageDurably bd (fold stageUnitRevert (pendingUnitRestores plans)))
     (\<lambda>_. phaseInv leasePhaseRestoring ?J) (\<lambda>_. rec_inv ?J)"
    by (rule stagePlans) (auto simp: stageUnitReverts dest: rec_invD)
  then show "triple (rec_inv ?J) (stageDurably bd (fold stageUnitRevert (pendingUnitRestores plans)))
     (\<lambda>x. ?R (Inr x)) (\<lambda>e. ?R (Inl e))" by (rule triple_weaken) auto
  fix r
  have "keeps (phaseInv leasePhaseRestoring ?J) (revertUnitFiles bd ''restore'' (ui_Name (ur_identity p)))"
    if "p \<in> set plans" "ur_pending p" for p
    by (rule revert_keeps) (use that in \<open>auto simp: phaseInv_def pendingIds_def pendingUnitRestores_def\<close>)
  then have "triple (phaseInv leasePhaseRestoring ?J) (mapR (stepPlan (\<lambda>p. revertUnitFiles bd ''restore'' (unitName p))) plans)
     (\<lambda>plans' m. phaseInv leasePhaseRestoring ?J m \<and> list_all2 stepOf plans plans') (\<lambda>_. rec_inv {})"
    unfolding unitName_def by (rule stepPlan_keeps)
  then have "triple (phaseInv leasePhaseRestoring ?J) (mapR (stepPlan (\<lambda>p. revertUnitFiles bd ''restore'' (unitName p))) plans)
     (\<lambda>plans'. rec_inv (pendingIds plans')) (\<lambda>_. rec_inv {})"
    by (rule triple_weaken) (auto simp: phaseInv_def elim!: rec_inv_mono dest: stepOf_pending)
  then show "triple (?R r) (case r of Inl e \<Rightarrow> retR (failUnitRestores e plans)
      | Inr _ \<Rightarrow> mapR (stepPlan (\<lambda>p. revertUnitFiles bd ''restore'' (unitName p))) plans)
     (\<lambda>plans'. rec_inv (pendingIds plans')) (\<lambda>_. rec_inv {})"
    by (cases r) (auto intro!: triple_ret elim: rec_inv_mono)
qed

lemma verify_step:
  assumes "looksKeep I"
  shows "triple I (mapR (stepPlan (\<lambda>p. verifyRestored bd (ur_identity p) (ur_restore p))) plans)
     (\<lambda>plans' m. I m \<and> list_all2 stepOf plans plans') E"
  by (rule stepPlan_keeps) (rule look [OF emits_verifyRestored assms])

lemma reload_keeps:
  assumes "\<And>m. P m \<Longrightarrow> rec_inv J m" "\<And>m. P m \<Longrightarrow> phaseOf m u \<in> {leasePhaseRestoring, leasePhaseReloading}"
  shows "triple P (reload bd) (\<lambda>_. rec_inv J) E"
  unfolding reload_def
proof (rule triple_call)
  fix m :: machine assume m: "P m"
  then have "permittedReload (trace m)" using coveredD(2) [OF rec_invD(3)] assms by blast
  then show "rec_inv J (emit CallReload m)" using assms(1) [OF m] by (simp add: inv_emit)
qed simp

lemma reloadPending_keeps:
  "triple (rec_inv (pendingIds plans)) (reloadPending bd plans) (\<lambda>plans'. rec_inv (pendingIds plans')) (\<lambda>_. rec_inv {})"
proof (cases "pendingUnitRestores plans = []")
  case True
  then show ?thesis by (auto simp: reloadPending_def intro: triple_ret)
next
  case False
  let ?J = "pendingIds plans"
  let ?R = "\<lambda>r m. case r of Inl e \<Rightarrow> rec_inv ?J m | Inr _ \<Rightarrow> phaseInv leasePhaseReloading ?J m"
  have J: "?J \<noteq> {}" using False by (simp add: pendingIds_def)
  have stage: "triple (rec_inv ?J) (stageDurably bd (fold (setPhase leasePhaseReloading \<circ> unitName) (pendingUnitRestores plans)))
     (\<lambda>_. phaseInv leasePhaseReloading ?J) (\<lambda>_. rec_inv ?J)"
    by (rule stagePlans) (auto simp: setPhases dest!: rec_invD(1) elim: leases_owned_cong)
  have failed: "pendingIds (map (\<lambda>p. if ur_pending p then unitRestore_failed (e p) p else p) plans) = {}" for e
    by (induction plans) auto
  have verify: "triple (rec_inv ?J) (mapR (stepPlan (\<lambda>p. verifyRestored bd (ur_identity p) (ur_restore p))) plans)
     (\<lambda>plans'. rec_inv (pendingIds plans')) (\<lambda>_. rec_inv {})"
    by (rule triple_weaken [OF verify_step [OF looksKeep_rec]]) (auto elim!: rec_inv_mono dest: stepOf_pending)
  have staged: "triple (rec_inv ?J) (tryR (stageDurably bd (fold (setPhase leasePhaseReloading \<circ> unitName) (pendingUnitRestores plans)))) ?R (\<lambda>_. rec_inv {})"
    by (rule triple_try, rule triple_weaken [OF stage]) auto
  obtain j where j: "j \<in> ?J" using J by blast
  have reloaded: "triple (phaseInv leasePhaseReloading ?J)
     (bindR (reload bd) (\<lambda>failure. case failure of
              Some e \<Rightarrow> retR (map (\<lambda>p. if ur_pending p
                  then unitRestore_failed (Some (classifyTransportError ''restore_reload'' (unitName p) e)) p else p) plans)
            | None \<Rightarrow> mapR (stepPlan (\<lambda>p. verifyRestored bd (ur_identity p) (ur_restore p))) plans))
     (\<lambda>plans'. rec_inv (pendingIds plans')) (\<lambda>_. rec_inv {})"
  proof (rule triple_bind [OF reload_keeps [where J = ?J and u = "ui_Name j"]])
    show "triple (rec_inv ?J) (case failure of
              Some e \<Rightarrow> retR (map (\<lambda>p. if ur_pending p
                  then unitRestore_failed (Some (classifyTransportError ''restore_reload'' (unitName p) e)) p else p) plans)
            | None \<Rightarrow> mapR (stepPlan (\<lambda>p. verifyRestored bd (ur_identity p) (ur_restore p))) plans)
      (\<lambda>plans'. rec_inv (pendingIds plans')) (\<lambda>_. rec_inv {})" for failure
      by (rule triple_case_option, rule verify) (auto intro!: triple_ret simp: failed elim: rec_inv_mono)
  qed (use j in \<open>auto simp: phaseInv_def\<close>)
  show ?thesis
    unfolding reloadPending_def Let_def
    by (intro triple_if triple_ret triple_bind [OF staged] triple_case_sum)
      (use False reloaded in \<open>auto elim: rec_inv_mono\<close>)
qed

lemma removePending_keeps:
  "triple (rec_inv (pendingIds plans)) (removePending bd plans) (\<lambda>_. rec_inv {}) (\<lambda>_. rec_inv {})"
proof -
  have stage: "triple (rec_inv (pendingIds plans)) (stageDurably bd (fold removeUnitLease us)) (\<lambda>_ m. rec_inv {} m \<and> synced bd m \<and> True) (\<lambda>_. rec_inv {})" for us
    by (rule triple_weaken [OF stageDurably_triple [where P = "rec_inv (pendingIds plans)" and J' = "{}" and Q = "\<lambda>_. True"]])
      (use removeUnitLeases_base in \<open>auto dest: rec_invD(2) elim: rec_inv_mono\<close>)
  have remove: "triple (rec_inv (pendingIds plans)) (tryR (removeUnitLeasesDurably bd us)) (\<lambda>_. rec_inv {}) (\<lambda>_. rec_inv {})" for us
    unfolding removeUnitLeasesDurably_def by (rule triple_try, rule triple_weaken [OF stage]) auto
  show ?thesis
    unfolding removePending_def Let_def
    by (intro triple_if triple_ret triple_bind [OF remove] triple_case_sum) (auto elim: rec_inv_mono)
qed

lemma restoreUnits_keeps: "keeps (rec_inv {}) (restoreUnits bd ids)"
proof -
  have finish: "triple (rec_inv (pendingIds plans)) (finishUnitRestores bd plans) (\<lambda>_. rec_inv {}) (\<lambda>_. rec_inv {})" for plans
    unfolding finishUnitRestores_def
    by (intro triple_if triple_ret triple_bind [OF revertPending_keeps] triple_bind [OF reloadPending_keeps] removePending_keeps)
      (auto elim: rec_inv_mono)
  have prepare: "triple (rec_inv {}) (prepareUnitRestores bd [] ids) (\<lambda>plans. rec_inv (pendingIds plans)) (\<lambda>_. rec_inv {})"
    using prepareUnitRestores_keeps [of "{}" "[]" bd ids] by simp
  show ?thesis unfolding restoreUnits_def by (rule triple_bind [OF prepare triple_bind [OF finish triple_ret]])
qed

lemma RestoreUnits_keeps: "keeps adapter_inv (RestoreUnits bd ids)"
  unfolding RestoreUnits_def rec_inv_empty [symmetric]
  by (intro keeps_rules restoreUnits_keeps look [OF _ looksKeep_rec] emits_looks)

lemma Restore_keeps: "keeps adapter_inv (Restore bd i)"
  unfolding Restore_def rec_inv_empty [symmetric]
  by (intro keeps_bind look [OF _ looksKeep_rec] emits_looks restoreUnits_keeps keeps_simple)

lemma ConfirmApplied_keeps: "keeps adapter_inv (ConfirmApplied bd i as)"
  by (rule look [OF emits_ConfirmApplied looksKeep_inv])

end
