(* ===== verification/Lease_Recovery.thy ===== *)
theory Lease_Recovery
  imports Unit_Adapter
begin

text \<open>
  Recovery of property leases (\<^verbatim>\<open>src/internal/systemdunit/recovery.go\<close>): what startup makes of the journal a
  previous process left, and what \<open>ReconcileOwned\<close> does about units that were recreated, left or were
  interrupted in the middle of a change. Nothing is forced: values, identities and files that are not
  the recorded ones end in a conflict that blocks the unit.
\<close>

section \<open>Changes of the lease state\<close>

definition recordRecovery :: "string \<Rightarrow> lease_recovery_state \<Rightarrow> machine \<Rightarrow> machine" where
  "recordRecovery unit state m = m\<lparr> recovery := recovery m @ [(unit, state)] \<rparr>"

definition recordRecoveryConflict :: "string \<Rightarrow> adapter_error \<Rightarrow> machine \<Rightarrow> machine" where
  "recordRecoveryConflict unit e m =
     (recordRecovery unit LeaseRecoveryConflict m)\<lparr> blocked := AList.update unit e (blocked m) \<rparr>"

definition recordInactiveRecoveryFailure :: "string \<Rightarrow> adapter_error \<Rightarrow> machine \<Rightarrow> machine" where
  "recordInactiveRecoveryFailure unit e m =
     (recordRecovery unit (if errorReason e = Some ReasonExternalConflict then LeaseRecoveryConflict else LeaseRecoveryPending) m)
       \<lparr> blocked := AList.update unit e (blocked m) \<rparr>"

text \<open>The leases move to the new identity of the unit.\<close>

definition rebindUnit :: "unit_identity \<Rightarrow> unit_identity \<Rightarrow> machine \<Rightarrow> machine" where
  "rebindUnit old new m =
     (if old = new then m
      else m\<lparr> overrides := AList.update new (overrideOf m old) (AList.delete old (overrides m)),
              leases := fold (\<lambda>(k, s) ls. AList.update (new, snd k) s (AList.delete k ls)) (unitLeases m old) (leases m) \<rparr>)"

definition restoredLease :: "property_name \<Rightarrow> property_lease_state \<Rightarrow> property_lease_state" where
  "restoredLease p s =
     s\<lparr> ls_previousApplied := ls_lastApplied s, ls_previousIOWeightTargets := ls_ioWeightTargets s,
        ls_lastApplied := clonePropertyValue p (ls_baseline s),
        ls_lease := publicPropertyLease p (ls_baseline s) (clonePropertyValue p (ls_baseline s)),
        ls_uncertain := True, ls_newLease := False \<rparr>"

definition stageUnitRestore :: "string \<Rightarrow> machine \<Rightarrow> machine" where
  "stageUnitRestore unit m =
     (case unitLeaseState m unit of
        None \<Rightarrow> m
      | Some (identity, _, _) \<Rightarrow>
          (mapLeases identity restoredLease m)\<lparr> phases := AList.update unit leasePhaseRestoring (phases m) \<rparr>)"

definition rolledBackLease :: "property_name \<Rightarrow> property_lease_state \<Rightarrow> property_lease_state" where
  "rolledBackLease p s =
     (if ls_uncertain s then
        s\<lparr> ls_lastApplied := clonePropertyValue p (ls_previousApplied s), ls_ioWeightTargets := ls_previousIOWeightTargets s,
           ls_previousIOWeightTargets := [], ls_pendingIOWeightResets := [],
           ls_lease := publicPropertyLease p (ls_baseline s) (clonePropertyValue p (ls_previousApplied s)),
           ls_uncertain := False, ls_newLease := False \<rparr>
      else s)"

text \<open>The change was never dispatched: new leases go, the others are what they were before it.\<close>

definition rollbackLeases :: "string \<Rightarrow> machine \<Rightarrow> machine" where
  "rollbackLeases unit m =
     (let identity = ownedIdentity m unit;
          override = ownedOverride m unit;
          kept = mapLeases identity rolledBackLease
                   (m\<lparr> leases := filter (\<lambda>(k, s). \<not> (fst k = identity \<and> ls_uncertain s \<and> ls_newLease s)) (leases m) \<rparr>)
      in if unitLeases kept identity = []
         then kept\<lparr> overrides := AList.delete identity (overrides m), phases := AList.delete unit (phases m) \<rparr>
         else kept\<lparr> overrides := AList.update identity
                      \<lparr> uo_managedPaths = map uf_path (uo_previousFingerprint override),
                        uo_fingerprints = uo_previousFingerprint override, uo_previousFingerprint = [] \<rparr> (overrides m),
                    phases := AList.update unit leasePhaseApplied (phases m) \<rparr>)"

definition rollbackUndispatchedApply :: "boundary \<Rightarrow> string \<Rightarrow> unit adapter_op" where
  "rollbackUndispatchedApply bd unit = stageDurably bd (rollbackLeases unit)"

definition leaseAssignments :: "(property_lease_state \<Rightarrow> property_value) \<Rightarrow> string \<Rightarrow> 'z adapter_scheme \<Rightarrow> property_assignment list" where
  "leaseAssignments want unit m =
     map (\<lambda>(k, s). \<lparr> pa_name = snd k, pa_value = clonePropertyValue (snd k) (want s), pa_targets = ls_ioWeightTargets s \<rparr>)
       (filter (\<lambda>(k, s). ui_Name (fst k) = unit) (leases m))"

definition baselineAssignments :: "string \<Rightarrow> 'z adapter_scheme \<Rightarrow> property_assignment list" where
  "baselineAssignments = leaseAssignments ls_baseline"

definition lastAppliedAssignments :: "string \<Rightarrow> 'z adapter_scheme \<Rightarrow> property_assignment list" where
  "lastAppliedAssignments = leaseAssignments ls_lastApplied"

section \<open>Interrupted restores\<close>

text \<open>After the files are gone and systemd was reloaded: the baselines hold, and the lease ends.\<close>

definition finishRestored :: "boundary \<Rightarrow> string \<Rightarrow> string \<Rightarrow> unit adapter_op" where
  "finishRestored bd unit objectPath =
     bindR (readUnit bd unit objectPath) (\<lambda>refreshed.
     bindR (readR (propertiesMatch unit ls_baseline refreshed)) (\<lambda>same.
     bindR (checkR same (externalRecoveryConflict unit)) (\<lambda>_.
     bindR (readR (baselineAssignments unit)) (\<lambda>as.
     bindR (verifyRestored bd (us_Identity refreshed) as) (\<lambda>_.
     bindR (removeUnitLeaseDurably bd unit) (\<lambda>_.
     writeR (recordRecovery unit LeaseRecoveryReclaimed)))))))"

definition reloadUnit :: "boundary \<Rightarrow> string \<Rightarrow> unit adapter_op" where
  "reloadUnit bd unit =
     bindR (reload bd) (\<lambda>failure. case failure of
       Some e \<Rightarrow> failR (classifyTransportError ''recover_restore_reload'' unit e)
     | None \<Rightarrow> retR ())"

definition resumeRestore :: "boundary \<Rightarrow> string \<Rightarrow> unit_snapshot \<Rightarrow> unit_file_fingerprint list \<Rightarrow> unit adapter_op" where
  "resumeRestore bd unit current actual =
     bindR (readR (\<lambda>m. phaseOf m unit = leasePhaseRestoring \<and> unitLeaseState m unit \<noteq> None \<and>
                       actual = uo_fingerprints (ownedOverride m unit) \<and>
                       propertiesMatch unit ls_previousApplied current m)) (\<lambda>resumable.
     bindR (checkR resumable (externalRecoveryConflict unit)) (\<lambda>_.
     bindR (revertUnitFiles bd ''recover_restore_revert'' unit) (\<lambda>_.
     bindR (stageDurably bd (setPhase leasePhaseReloading unit)) (\<lambda>_.
     bindR (reloadUnit bd unit) (\<lambda>_.
     finishRestored bd unit (ui_ObjectPath (us_Identity current)))))))"

definition finishResetUnit :: "boundary \<Rightarrow> string \<Rightarrow> unit_snapshot \<Rightarrow> unit_file_fingerprint list \<Rightarrow> unit adapter_op" where
  "finishResetUnit bd unit current actual =
     bindR (readR (\<lambda>m. ownedOverride m unit)) (\<lambda>override.
     bindR (requireManagedUnitFileFootprint bd ''recover_reset'' current override True) (\<lambda>_.
     bindR (stageDurably bd (stageUnitRestore unit)) (\<lambda>_.
     resumeRestore bd unit current actual)))"

definition recoverActiveRestore :: "boundary \<Rightarrow> string \<Rightarrow> string \<Rightarrow> unit adapter_op" where
  "recoverActiveRestore bd unit objectPath =
     bindR (captureDiskFootprint bd unit) (\<lambda>actual.
       if actual = [] then
         bindR (reloadUnit bd unit) (\<lambda>_. finishRestored bd unit objectPath)
       else
         bindR (readUnit bd unit objectPath) (\<lambda>current. resumeRestore bd unit current actual))"

section \<open>Interrupted applies\<close>

definition ioDeviceWeightValueRemoved :: "property_value \<Rightarrow> property_value \<Rightarrow> bool" where
  "ioDeviceWeightValueRemoved previous desired \<longleftrightarrow>
     list_ex (\<lambda>d. dl_Path d \<notin> dl_Path ` set (pv_devices desired)) (pv_devices previous)"

definition needsReset :: "property_lease_state \<Rightarrow> bool" where
  "needsReset s \<longleftrightarrow> ls_uncertain s \<and> ls_pendingIOWeightResets s = [] \<and> ls_previousIOWeightTargets s = [] \<and>
     ioDeviceWeightValueRemoved (ls_previousApplied s) (ls_lastApplied s)"

definition needsLegacyIODeviceWeightResetIntent :: "string \<Rightarrow> 'z adapter_scheme \<Rightarrow> bool" where
  "needsLegacyIODeviceWeightResetIntent unit m \<longleftrightarrow>
     list_ex (\<lambda>(k, s). ui_Name (fst k) = unit \<and> snd k = PropertyIODeviceWeight \<and> needsReset s) (leases m)"

text \<open>
  At most one lease has the key of the unit's device weights, so the loop over all leases stages at
  most one and an error leaves nothing staged.
\<close>

definition stageLegacyIODeviceWeightResetIntent :: "boundary \<Rightarrow> unit_snapshot \<Rightarrow> unit adapter_op" where
  "stageLegacyIODeviceWeightResetIntent bd snapshot =
     (let identity = us_Identity snapshot;
          key = (identity, PropertyIODeviceWeight);
          conflict = AdapterError ReasonExternalConflict ''recover_keyed_reset_upgrade'' (ui_Name identity) PropertyIODeviceWeight
      in bindR (readR (\<lambda>m. map_of (leases m) key)) (\<lambda>lease. case lease of
           None \<Rightarrow> retR ()
         | Some s \<Rightarrow>
             if \<not> needsReset s then retR ()
             else
               let asg = (\<lambda>v. \<lparr> pa_name = PropertyIODeviceWeight, pa_value = clonePropertyValue PropertyIODeviceWeight v,
                                pa_targets = ls_ioWeightTargets s \<rparr>)
               in bindR (callR (\<lambda>t. bd_prepareResets bd t identity (asg (ls_previousApplied s)) (asg (ls_lastApplied s)))
                           (\<lambda>_. CallPrepareResets (ui_Name identity))
                           (\<lambda>r. case r of Some (x # xs) \<Rightarrow> Inr (x # xs) | _ \<Rightarrow> Inl conflict)) (\<lambda>resets.
                  stageDurably bd (setLease key (s\<lparr> ls_previousIOWeightTargets := ls_ioWeightTargets s,
                                                    ls_pendingIOWeightResets := resets \<rparr>)))))"

text \<open>The outcome that is recorded for a unit whose values are still the recorded ones.\<close>

definition reclaimed :: "bool \<Rightarrow> lease_recovery_state" where
  "reclaimed sameIdentity = (if sameIdentity then LeaseRecoveryReclaimed else LeaseRecoveryOrphaned)"

definition recoverApplied ::
  "boundary \<Rightarrow> string \<Rightarrow> unit_identity \<Rightarrow> unit_override_lease \<Rightarrow> unit_snapshot \<Rightarrow> unit_file_fingerprint list \<Rightarrow> unit adapter_op" where
  "recoverApplied bd unit identity override current actual =
     (let same = (identity = us_Identity current) in
      bindR (readR (propertiesMatch unit ls_lastApplied current)) (\<lambda>applied.
      bindR (checkR (applied \<and> actual = uo_fingerprints override) (externalRecoveryConflict unit)) (\<lambda>_.
      bindR (writeR (rebindUnit identity (us_Identity current))) (\<lambda>_.
      bindR (readR (propertiesMatch unit ls_baseline current)) (\<lambda>atBaseline.
        if atBaseline then finishResetUnit bd unit current actual
        else
          bindR (if same then retR ()
                 else bindR (tryR (persistLeaseState bd)) (\<lambda>r. case r of
                     Inl e \<Rightarrow> bindR (writeR (rebindUnit (us_Identity current) identity)) (\<lambda>_. failR e)
                   | Inr _ \<Rightarrow> retR ())) (\<lambda>_.
          writeR (recordRecovery unit (reclaimed same))))))))"

text \<open>A pending reset is completed and everything is read again before the apply is confirmed.\<close>

definition completeRecoveredResets ::
  "boundary \<Rightarrow> string \<Rightarrow> unit_identity \<Rightarrow> unit_override_lease \<Rightarrow> unit_snapshot \<Rightarrow>
   (unit_snapshot \<times> unit_file_fingerprint list) adapter_op" where
  "completeRecoveredResets bd unit identity override current =
     bindR (completePendingIODeviceWeightResets bd current ''recover_apply'') (\<lambda>_.
     bindR (readUnit bd unit (ui_ObjectPath (us_Identity current))) (\<lambda>again.
     bindR (requireSameIdentity ''recover_apply_reset_confirmation'' identity (us_Identity again)) (\<lambda>_.
     bindR (readR (propertiesMatch unit ls_lastApplied again)) (\<lambda>same.
     bindR (checkR same (externalRecoveryConflict unit)) (\<lambda>_.
     bindR (captureFootprint bd again) (\<lambda>actual.
     bindR (checkR (pendingFootprintMatches actual override) (externalRecoveryConflict unit)) (\<lambda>_.
     bindR (readR (lastAppliedAssignments unit)) (\<lambda>as.
     bindR (verifyKernel bd again as) (\<lambda>failure.
     bindR (checkR (failure = None) (AdapterError ReasonKernelVerification ''recover_apply_readback'' unit [])) (\<lambda>_.
     retR (again, actual)))))))))))"

definition confirmRecovered ::
  "boundary \<Rightarrow> string \<Rightarrow> unit_identity \<Rightarrow> unit_snapshot \<Rightarrow> unit_file_fingerprint list \<Rightarrow> unit adapter_op" where
  "confirmRecovered bd unit identity current actual =
     bindR (stageDurably bd (confirmAppliedUnit unit actual \<circ> rebindUnit identity (us_Identity current))) (\<lambda>_.
     bindR (readR (propertiesMatch unit ls_baseline current)) (\<lambda>atBaseline.
       if atBaseline then finishResetUnit bd unit current actual
       else writeR (recordRecovery unit (reclaimed (identity = us_Identity current)))))"

definition hasPendingIODeviceWeightResets :: "string \<Rightarrow> 'z adapter_scheme \<Rightarrow> bool" where
  "hasPendingIODeviceWeightResets unit m \<longleftrightarrow>
     list_ex (\<lambda>(k, s). ui_Name (fst k) = unit \<and> ls_pendingIOWeightResets s \<noteq> []) (leases m)"

definition recoverDispatched ::
  "boundary \<Rightarrow> string \<Rightarrow> unit_identity \<Rightarrow> unit_override_lease \<Rightarrow> unit_snapshot \<Rightarrow> unit_file_fingerprint list \<Rightarrow> unit adapter_op" where
  "recoverDispatched bd unit identity override current actual =
     (let same = (identity = us_Identity current) in
      bindR (readR (needsLegacyIODeviceWeightResetIntent unit)) (\<lambda>legacy.
      bindR (checkR (same \<or> \<not> legacy) (externalRecoveryConflict unit)) (\<lambda>_.
      bindR (if same then stageLegacyIODeviceWeightResetIntent bd current else retR ()) (\<lambda>_.
      bindR (readR (hasPendingIODeviceWeightResets unit)) (\<lambda>pending.
      bindR (checkR (same \<or> \<not> pending) (externalRecoveryConflict unit)) (\<lambda>_.
      bindR (if pending then completeRecoveredResets bd unit identity override current else retR (current, actual)) (\<lambda>(current', actual').
      confirmRecovered bd unit identity current' actual')))))))"

definition recoverApplying ::
  "boundary \<Rightarrow> string \<Rightarrow> unit_identity \<Rightarrow> unit_override_lease \<Rightarrow> unit_snapshot \<Rightarrow> unit_file_fingerprint list \<Rightarrow> unit adapter_op" where
  "recoverApplying bd unit identity override current actual =
     bindR (readR (\<lambda>m. (propertiesMatch unit ls_lastApplied current m, propertiesMatch unit ls_previousApplied current m)))
       (\<lambda>(dispatched, untouched).
       if dispatched \<and> pendingFootprintMatches actual override then recoverDispatched bd unit identity override current actual
       else if identity = us_Identity current \<and> untouched \<and> actual = uo_previousFingerprint override
       then rollbackUndispatchedApply bd unit
       else failR (externalRecoveryConflict unit))"

definition recoverActive :: "boundary \<Rightarrow> string \<Rightarrow> unit_snapshot \<Rightarrow> unit adapter_op" where
  "recoverActive bd unit current =
     bindR (readR (\<lambda>m. unitLeaseState m unit)) (\<lambda>lease. case lease of
       None \<Rightarrow> failR (PlainError ''durable unit has no in-memory lease state'')
     | Some (identity, override, phase) \<Rightarrow>
         bindR (captureFootprint bd current) (\<lambda>actual.
           if phase = leasePhaseApplied then recoverApplied bd unit identity override current actual
           else if phase = leasePhaseApplying then recoverApplying bd unit identity override current actual
           else failR (PlainError ''unit has unsupported recovery phase'')))"

section \<open>Departed units\<close>

record inactive_recovery =
  ir_unit :: string
  ir_revert :: bool
  ir_pending :: bool
  ir_err :: "adapter_error option"

definition inactiveRecovery_failed :: "adapter_error \<Rightarrow> inactive_recovery \<Rightarrow> inactive_recovery" where
  "inactiveRecovery_failed e r = r\<lparr> ir_err := Some e, ir_pending := False \<rparr>"

definition newInactiveRecovery :: "string \<Rightarrow> inactive_recovery" where
  "newInactiveRecovery unit = \<lparr> ir_unit = unit, ir_revert = False, ir_pending = False, ir_err = None \<rparr>"

definition prepareInactive :: "boundary \<Rightarrow> string \<Rightarrow> inactive_recovery adapter_op" where
  "prepareInactive bd unit =
     bindR (readR (\<lambda>m. unitLeaseState m unit)) (\<lambda>lease. case lease of
       None \<Rightarrow> failR (PlainError ''durable inactive unit has no in-memory lease state'')
     | Some (_, override, phase) \<Rightarrow>
         bindR (mutablePaths bd ''recover_inactive'' unit) (\<lambda>paths.
         bindR (fingerprints bd ''recover_inactive'' unit paths) (\<lambda>actual.
           if actual = [] \<and> phase = leasePhaseApplying \<and> uo_previousFingerprint override = [] then
             bindR (rollbackUndispatchedApply bd unit) (\<lambda>_.
             bindR (writeR (recordRecovery unit LeaseRecoveryInactive)) (\<lambda>_. retR (newInactiveRecovery unit)))
           else if actual = [] \<and> isCapabilityProbeUnit unit \<and> (phase = leasePhaseApplied \<or> phase = leasePhaseApplying) then
             bindR (removeUnitLeaseDurably bd unit) (\<lambda>_.
             bindR (writeR (recordRecovery unit LeaseRecoveryInactive)) (\<lambda>_. retR (newInactiveRecovery unit)))
           else if actual = [] \<and> (phase = leasePhaseRestoring \<or> phase = leasePhaseReloading) then
             retR ((newInactiveRecovery unit)\<lparr> ir_pending := True \<rparr>)
           else
             bindR (checkR (actual = uo_fingerprints override \<or>
                            phase = leasePhaseApplying \<and> pendingFootprintMatches actual override)
                      (externalRecoveryConflict unit)) (\<lambda>_.
             bindR (checkR (phase \<noteq> leasePhaseReloading) (externalRecoveryConflict unit)) (\<lambda>_.
             retR ((newInactiveRecovery unit)\<lparr> ir_pending := True, ir_revert := True \<rparr>))))))"

definition prepareInactiveRecovery :: "boundary \<Rightarrow> string \<Rightarrow> inactive_recovery adapter_op" where
  "prepareInactiveRecovery bd unit =
     bindR (tryR (prepareInactive bd unit)) (\<lambda>r. retR (case r of
       Inl e \<Rightarrow> inactiveRecovery_failed e (newInactiveRecovery unit) | Inr p \<Rightarrow> p))"

definition failWhere :: "(inactive_recovery \<Rightarrow> bool) \<Rightarrow> adapter_error \<Rightarrow> inactive_recovery list \<Rightarrow> inactive_recovery list" where
  "failWhere P e rs = map (\<lambda>r. if P r then inactiveRecovery_failed e r else r) rs"

definition pendingInactive :: "inactive_recovery list \<Rightarrow> inactive_recovery list" where
  "pendingInactive rs = filter ir_pending rs"

text \<open>Whether a recovery still has to announce its restore; the phases are those before any of them.\<close>

definition announcesRestore :: "'z adapter_scheme \<Rightarrow> inactive_recovery \<Rightarrow> bool" where
  "announcesRestore m r \<longleftrightarrow> ir_pending r \<and> ir_revert r \<and>
     (phaseOf m (ir_unit r) = leasePhaseApplied \<or> phaseOf m (ir_unit r) = leasePhaseApplying)"

definition stageInactive :: "boundary \<Rightarrow> inactive_recovery list \<Rightarrow> inactive_recovery list adapter_op" where
  "stageInactive bd rs =
     bindR (readR announcesRestore) (\<lambda>announces.
       let staged = filter announces rs in
       if staged = [] then retR rs
       else bindR (tryR (stageDurably bd (fold (stageUnitRestore \<circ> ir_unit) staged))) (\<lambda>r. retR (case r of
           Inl e \<Rightarrow> failWhere announces e rs
         | Inr _ \<Rightarrow> rs)))"

definition revertInactive :: "boundary \<Rightarrow> inactive_recovery \<Rightarrow> inactive_recovery adapter_op" where
  "revertInactive bd r =
     (if ir_pending r \<and> ir_revert r then
        bindR (tryR (revertUnitFiles bd ''recover_inactive_revert'' (ir_unit r))) (\<lambda>x. retR (case x of
          Inl e \<Rightarrow> inactiveRecovery_failed e r | Inr _ \<Rightarrow> r))
      else retR r)"

definition reloadingInactive :: "boundary \<Rightarrow> inactive_recovery list \<Rightarrow> inactive_recovery list adapter_op" where
  "reloadingInactive bd rs =
     (let reverted = filter (\<lambda>r. ir_pending r \<and> ir_revert r) rs in
      if reverted = [] then retR rs
      else bindR (tryR (stageDurably bd (fold (setPhase leasePhaseReloading \<circ> ir_unit) reverted))) (\<lambda>x. retR (case x of
          Inl e \<Rightarrow> failWhere (\<lambda>r. ir_pending r \<and> ir_revert r) e rs
        | Inr _ \<Rightarrow> rs)))"

text \<open>After the shared reload the files of a reverted unit must be gone.\<close>

definition checkInactive :: "boundary \<Rightarrow> inactive_recovery \<Rightarrow> inactive_recovery adapter_op" where
  "checkInactive bd r =
     (if ir_pending r \<and> ir_revert r then
        bindR (tryR (mutablePaths bd ''recover_inactive_readback'' (ir_unit r))) (\<lambda>x. retR (case x of
          Inl e \<Rightarrow> inactiveRecovery_failed e r
        | Inr paths \<Rightarrow> if paths \<noteq> [] then inactiveRecovery_failed (externalRecoveryConflict (ir_unit r)) r else r))
      else retR r)"

definition removeInactive :: "boundary \<Rightarrow> inactive_recovery list \<Rightarrow> inactive_recovery list adapter_op" where
  "removeInactive bd rs =
     (let units = map ir_unit (pendingInactive rs) in
      if units = [] then retR rs
      else bindR (tryR (removeUnitLeasesDurably bd units)) (\<lambda>x. case x of
          Inl e \<Rightarrow> retR (failWhere ir_pending e rs)
        | Inr _ \<Rightarrow>
            bindR (writeR (fold (\<lambda>u. recordRecovery u LeaseRecoveryInactive) units)) (\<lambda>_.
            retR (map (\<lambda>r. if ir_pending r then r\<lparr> ir_pending := False \<rparr> else r) rs))))"

definition reloadInactive :: "boundary \<Rightarrow> inactive_recovery list \<Rightarrow> inactive_recovery list adapter_op" where
  "reloadInactive bd rs =
     (if pendingInactive rs = [] then retR rs
      else bindR (reload bd) (\<lambda>failure. case failure of
          Some e \<Rightarrow> retR (map (\<lambda>r. if ir_pending r
              then inactiveRecovery_failed (classifyTransportError ''recover_inactive_reload'' (ir_unit r) e) r else r) rs)
        | None \<Rightarrow> bindR (mapR (checkInactive bd) rs) (removeInactive bd)))"

definition finishInactiveRecoveries :: "boundary \<Rightarrow> inactive_recovery list \<Rightarrow> inactive_recovery list adapter_op" where
  "finishInactiveRecoveries bd rs =
     bindR (stageInactive bd rs) (\<lambda>staged.
     bindR (mapR (revertInactive bd) staged) (\<lambda>reverted.
     bindR (reloadingInactive bd reverted) (\<lambda>reloading.
     reloadInactive bd reloading)))"

definition recoverInactiveUnits :: "boundary \<Rightarrow> string list \<Rightarrow> adapter_error option list adapter_op" where
  "recoverInactiveUnits bd units =
     bindR (mapR (prepareInactiveRecovery bd) units) (\<lambda>rs.
     bindR (finishInactiveRecoveries bd rs) (\<lambda>rs'. retR (map ir_err rs')))"

section \<open>The passes\<close>

text \<open>What a pass does about one recorded unit: nothing more, an error, or left for the batch of departed units.\<close>

datatype pass_outcome = PassDone | PassFailed adapter_error | PassInactive

definition recoverUnit ::
  "boundary \<Rightarrow> (string \<Rightarrow> unit_snapshot \<Rightarrow> unit adapter_op) \<Rightarrow> (string \<Rightarrow> listed_unit option) \<Rightarrow> string \<Rightarrow> pass_outcome adapter_op" where
  "recoverUnit bd recover active unit =
     (case active unit of
        None \<Rightarrow> retR PassInactive
      | Some listed \<Rightarrow>
          bindR (readR (\<lambda>m. phaseOf m unit)) (\<lambda>phase.
            if phase = leasePhaseRestoring \<or> phase = leasePhaseReloading then
              bindR (tryR (recoverActiveRestore bd unit (lu_objectPath listed))) (\<lambda>r. retR (case r of
                Inl e \<Rightarrow> PassFailed e | Inr _ \<Rightarrow> PassDone))
            else
              bindR (tryR (readUnit bd unit (lu_objectPath listed))) (\<lambda>r. case r of
                Inl e \<Rightarrow> retR (if errorReason e = Some ReasonUnitMissing then PassInactive else PassFailed e)
              | Inr current \<Rightarrow>
                  bindR (tryR (recover unit current)) (\<lambda>r. retR (case r of
                    Inl e \<Rightarrow> PassFailed e | Inr _ \<Rightarrow> PassDone)))))"

text \<open>A settled lease of the same unit is only compared in a later pass; startup recovers it too.\<close>

definition reconcileUnit :: "boundary \<Rightarrow> string \<Rightarrow> unit_snapshot \<Rightarrow> unit adapter_op" where
  "reconcileUnit bd unit current =
     bindR (readR (\<lambda>m. phaseOf m unit = leasePhaseApplied \<and> unitLeaseState m unit \<noteq> None \<and>
                       ownedIdentity m unit = us_Identity current)) (\<lambda>settled.
       if settled then
         bindR (captureFootprint bd current) (\<lambda>actual.
         bindR (readR (\<lambda>m. propertiesMatch unit ls_lastApplied current m \<and> actual = uo_fingerprints (ownedOverride m unit))) (\<lambda>same.
         checkR same (externalRecoveryConflict unit)))
       else recoverActive bd unit current)"

fun recoverUnits ::
  "boundary \<Rightarrow> bool \<Rightarrow> (string \<Rightarrow> unit_snapshot \<Rightarrow> unit adapter_op) \<Rightarrow> (string \<Rightarrow> listed_unit option) \<Rightarrow> string list \<Rightarrow>
   (adapter_error list \<times> string list) adapter_op" where
  "recoverUnits bd unblock recover active [] = retR ([], [])"
| "recoverUnits bd unblock recover active (u # us) =
     bindR (if unblock then writeR (\<lambda>m. m\<lparr> blocked := AList.delete u (blocked m) \<rparr>) else retR ()) (\<lambda>_.
     bindR (recoverUnit bd recover active u) (\<lambda>outcome.
     bindR (case outcome of PassFailed e \<Rightarrow> writeR (recordRecoveryConflict u e) | _ \<Rightarrow> retR ()) (\<lambda>_.
     bindR (recoverUnits bd unblock recover active us) (\<lambda>(errors, inactive).
     retR (case outcome of
         PassDone \<Rightarrow> (errors, inactive)
       | PassFailed e \<Rightarrow> (e # errors, inactive)
       | PassInactive \<Rightarrow> (errors, u # inactive))))))"

definition recordFailures :: "(string \<times> adapter_error option) list \<Rightarrow> machine \<Rightarrow> machine" where
  "recordFailures es m = fold (\<lambda>(u, e). case e of None \<Rightarrow> id | Some e \<Rightarrow> recordInactiveRecoveryFailure u e) es m"

definition activeUnits :: "listed_unit list \<Rightarrow> string \<Rightarrow> listed_unit option" where
  "activeUnits listed = map_of (rev (map (\<lambda>u. (lu_name u, u)) listed))"

definition ReconcileOwned :: "boundary \<Rightarrow> adapter_error list adapter_op" where
  "ReconcileOwned bd =
     bindR (requireOpen ''reconcile_owned'') (\<lambda>_.
     bindR (listUserSlices bd ''reconcile_owned'') (\<lambda>listed.
     bindR (readR (\<lambda>m. sort (remdups (map fst (phases m))))) (\<lambda>units.
     bindR (recoverUnits bd True (reconcileUnit bd) (activeUnits listed) units) (\<lambda>(errors, inactive).
     bindR (recoverInactiveUnits bd inactive) (\<lambda>outcomes.
     bindR (writeR (recordFailures (zip inactive outcomes))) (\<lambda>_.
     retR (errors @ List.map_filter id outcomes)))))))"

text \<open>
  \<^verbatim>\<open>fileLeaseJournalStore.Load\<close>: the answer is the decoded journal, the empty one when the file does not
  exist, and None when it cannot be trusted, read or decoded; the journal is validated here.
\<close>

definition loadJournal :: "boundary \<Rightarrow> durable_lease_journal adapter_op" where
  "loadJournal bd =
     callR (\<lambda>t. Option.bind (bd_load bd t) (\<lambda>j. if validateDurableLeaseJournal (bd_devFits bd) j then Some j else None)) CallLoad
       (\<lambda>r. case r of None \<Rightarrow> Inl (leaseStoreError ''load'') | Some j \<Rightarrow> Inr j)"

definition loadAndReconcile :: "boundary \<Rightarrow> unit adapter_op" where
  "loadAndReconcile bd =
     bindR (loadJournal bd) (\<lambda>journal.
     bindR (writeR (\<lambda>m. m\<lparr> generation := dj_Generation journal \<rparr>)) (\<lambda>_.
     bindR (readR (importJournal journal)) (\<lambda>imported. case imported of
       None \<Rightarrow> failR (leaseStoreError ''load'')
     | Some m \<Rightarrow>
         bindR (writeR (\<lambda>_. m)) (\<lambda>_.
         if dj_Units journal = [] then retR ()
         else
           bindR (listUserSlices bd ''recover_discover'') (\<lambda>listed.
           bindR (recoverUnits bd False (recoverActive bd) (activeUnits listed) (map du_Unit (dj_Units journal))) (\<lambda>(_, inactive).
           bindR (recoverInactiveUnits bd inactive) (\<lambda>outcomes.
           writeR (recordFailures (zip inactive outcomes)))))))))"

text \<open>A new process: nothing in memory, then the journal.\<close>

definition newAdapter :: "boundary \<Rightarrow> unit adapter_op" where
  "newAdapter bd =
     bindR (writeR (\<lambda>m. m\<lparr> leases := [], overrides := [], phases := [], generation := 0, recovery := [], blocked := [], closed := False \<rparr>)) (\<lambda>_.
     loadAndReconcile bd)"

end
