(* ===== verification/Write_Ahead_Recovery.thy ===== *)
theory Write_Ahead_Recovery
  imports Write_Ahead_Restore Lease_Recovery
begin

text \<open>
  Recovery keeps the write-ahead rule: restarting from the journal, \<open>ReconcileOwned\<close>, and with them every
  sequence of operations of the adapter.
\<close>

section \<open>Changes of the lease state\<close>

lemma rec_inv_marks [simp]:
  "rec_inv J (m\<lparr> recovery := r \<rparr>) = rec_inv J m" "rec_inv J (m\<lparr> blocked := b \<rparr>) = rec_inv J m"
  "rec_inv J (m\<lparr> closed := c \<rparr>) = rec_inv J m" "rec_inv J (m\<lparr> generation := g \<rparr>) = rec_inv J m"
  by (simp_all add: rec_inv_def base_inv_def leases_owned_def phased_def phase_ok_def covered_def phaseOf_def)

lemma rec_inv_record [simp]:
  "rec_inv J (recordRecovery u s m) = rec_inv J m" "rec_inv J (recordRecoveryConflict u e m) = rec_inv J m"
  "rec_inv J (recordInactiveRecoveryFailure u e m) = rec_inv J m"
  by (simp_all add: recordRecovery_def recordRecoveryConflict_def recordInactiveRecoveryFailure_def)

lemma rec_inv_records [simp]:
  "rec_inv J (fold (\<lambda>u. recordRecovery u s) us m) = rec_inv J m" "rec_inv J (recordFailures es m) = rec_inv J m"
proof -
  show "rec_inv J (fold (\<lambda>u. recordRecovery u s) us m) = rec_inv J m" by (induction us arbitrary: m) simp_all
  show "rec_inv J (recordFailures es m) = rec_inv J m"
  proof (induction es arbitrary: m)
    case (Cons e es)
    have "recordFailures (e # es) m = recordFailures es (case snd e of None \<Rightarrow> m | Some x \<Rightarrow> recordInactiveRecoveryFailure (fst e) x m)"
      by (cases e) (simp add: recordFailures_def split: option.split)
    then show ?case using Cons.IH by (simp split: option.split)
  qed (simp add: recordFailures_def)
qed

text \<open>The leases move with the identity of their unit.\<close>

lemma rebound_leases:
  assumes "(k', s') \<in> set (fold (\<lambda>(k, s) ls. AList.update (new, snd k) s (AList.delete k ls)) us ls)"
  shows "(\<exists>k. (k, s') \<in> set us \<and> k' = (new, snd k)) \<or> (k', s') \<in> set ls \<and> k' \<notin> fst ` set us"
  using assms
proof (induction us arbitrary: ls)
  case (Cons u us)
  obtain k s where u: "u = (k, s)" by (cases u)
  let ?ls = "AList.update (new, snd k) s (AList.delete k ls)"
  have "(\<exists>k. (k, s') \<in> set us \<and> k' = (new, snd k)) \<or> (k', s') \<in> set ?ls \<and> k' \<notin> fst ` set us"
    using Cons.prems by (intro Cons.IH) (simp add: u)
  then consider "\<exists>k. (k, s') \<in> set us \<and> k' = (new, snd k)" | "(k', s') = ((new, snd k), s)"
    | "(k', s') \<in> set ls" "k' \<noteq> k" "k' \<notin> fst ` set us"
    by (auto simp: AList.delete_eq dest!: subsetD [OF set_update_subset])
  then show ?case
  proof cases
    case 1
    then show ?thesis by auto
  next
    case 2
    then show ?thesis by (intro disjI1 exI [of _ k]) (simp add: u)
  next
    case 3
    then show ?thesis by (simp add: u)
  qed
qed simp

lemma rebound_distinct:
  "distinct (map fst ls) \<Longrightarrow> distinct (map fst (fold (\<lambda>(k, s) ls. AList.update (new, snd k) s (AList.delete k ls)) us ls))"
  by (induction us arbitrary: ls) (auto simp: distinct_update distinct_delete)

lemma rebindUnit_fields [simp]:
  "trace (rebindUnit old new m) = trace m" "phases (rebindUnit old new m) = phases m"
  "phaseOf (rebindUnit old new m) u = phaseOf m u"
  by (simp_all add: rebindUnit_def phaseOf_def)

lemma rebindUnit_dom:
  "old \<noteq> new \<Longrightarrow> fst ` set (overrides (rebindUnit old new m)) = insert new (fst ` set (overrides m) - {old})"
  by (simp add: rebindUnit_def dom_update dom_delete)

lemma rebindUnit_rec:
  assumes "rec_inv {old} m" "ui_Name old = ui_Name new"
  shows "rec_inv {new} (rebindUnit old new m)"
proof (cases "old = new")
  case False
  let ?m = "rebindUnit old new m"
  have owned: "leases_owned m" and old: "old \<in> fst ` set (overrides m)" and "phased m" "phase_ok m" "covered m" "writeAhead (trace m)"
    using assms(1) by (auto simp: rec_inv_def base_inv_def)
  have entry: "(\<exists>k. (k, s) \<in> set (leases m) \<and> fst k = old \<and> k' = (new, snd k)) \<or> (k', s) \<in> set (leases m) \<and> fst k' \<noteq> old"
    if "(k', s) \<in> set (leases ?m)" for k' s
  proof -
    have "(\<exists>k. (k, s) \<in> set (unitLeases m old) \<and> k' = (new, snd k)) \<or> (k', s) \<in> set (leases m) \<and> k' \<notin> fst ` set (unitLeases m old)"
      using that False by (intro rebound_leases) (simp add: rebindUnit_def)
    then show ?thesis by (force simp: unitLeases_def)
  qed
  have "leases_owned ?m"
  proof (rule leases_ownedI)
    show "distinct (map fst (leases ?m))" using owned rebound_distinct False by (auto simp: rebindUnit_def leases_owned_def)
    show "pl_Property (ls_lease s) = snd k \<and> fst k \<in> fst ` set (overrides ?m)" if "(k, s) \<in> set (leases ?m)" for k s
      using entry [OF that] leases_ownedD [OF owned] unfolding rebindUnit_dom [OF False] by fastforce
  qed
  moreover have names: "ui_Name ` fst ` set (overrides m) \<subseteq> ui_Name ` fst ` set (overrides ?m)"
    unfolding rebindUnit_dom [OF False] using assms(2) by auto
  moreover have "phased ?m" using \<open>phased m\<close> names unfolding phased_def rebindUnit_fields by blast
  moreover have "phase_ok ?m"
    using \<open>phase_ok m\<close> old assms(2) unfolding phase_ok_def rebindUnit_fields rebindUnit_dom [OF False] by (metis DiffD1 insertE)
  moreover have "covered ?m"
  proof -
    have "covered (m\<lparr> leases := leases ?m \<rparr>)"
      by (rule covered_leases [OF \<open>covered m\<close>]) (use entry assms(2) in fastforce)
    then show ?thesis by (simp add: covered_def)
  qed
  moreover have "new \<in> fst ` set (overrides ?m)" unfolding rebindUnit_dom [OF False] by simp
  ultimately show ?thesis using \<open>writeAhead (trace m)\<close> by (simp add: rec_inv_def base_inv_def)
qed (use assms(1) in \<open>simp add: rebindUnit_def\<close>)

text \<open>Announcing the restore of one unit, or of several.\<close>

lemma stageUnitRestore_fields [simp]:
  "trace (stageUnitRestore u m) = trace m" "overrides (stageUnitRestore u m) = overrides m"
  by (simp_all add: stageUnitRestore_def mapLeases_def split: option.splits)

lemma unitLeaseState_None: "unitLeaseState m u = None \<longleftrightarrow> u \<notin> ui_Name ` fst ` set (overrides m)"
  by (force simp: unitLeaseState_def find_None_iff)

lemma stageUnitRestore_phase:
  "phaseOf (stageUnitRestore u m) v = (if v = u \<and> u \<in> ui_Name ` fst ` set (overrides m) then leasePhaseRestoring else phaseOf m v)"
proof (cases "unitLeaseState m u")
  case None
  then show ?thesis using unitLeaseState_None [of m u] by (auto simp: stageUnitRestore_def)
next
  case (Some x)
  then have "u \<in> ui_Name ` fst ` set (overrides m)" using unitLeaseState_None [of m u] by simp
  then show ?thesis using Some by (cases x) (simp add: stageUnitRestore_def phaseOf_def update_conv')
qed

lemma stageUnitRestore_owned: "leases_owned m \<Longrightarrow> leases_owned (stageUnitRestore u m)"
  by (auto simp: stageUnitRestore_def restoredLease_def publicPropertyLease_def intro!: mapLeases_owned split: option.splits)

lemma stageUnitRestores:
  "leases_owned m \<Longrightarrow> leases_owned (fold (stageUnitRestore \<circ> f) rs m)" "trace (fold (stageUnitRestore \<circ> f) rs m) = trace m"
  "overrides (fold (stageUnitRestore \<circ> f) rs m) = overrides m"
  "phaseOf (fold (stageUnitRestore \<circ> f) rs m) u =
     (if u \<in> f ` set rs \<and> u \<in> ui_Name ` fst ` set (overrides m) then leasePhaseRestoring else phaseOf m u)"
  by (induction rs arbitrary: m) (auto simp: stageUnitRestore_owned stageUnitRestore_phase)

text \<open>Rolling back an apply that never reached systemd.\<close>

lemma rollbackLeases_base:
  assumes m: "base_inv J m" and state: "unitLeaseState m u \<noteq> None"
  shows "base_inv (J - {j. ui_Name j = u}) (rollbackLeases u m)"
    and "ui_Name ` fst ` set (overrides m) - {u} \<subseteq> ui_Name ` fst ` set (overrides (rollbackLeases u m))"
    and "v \<noteq> u \<Longrightarrow> phaseOf (rollbackLeases u m) v = phaseOf m v"
    and "trace (rollbackLeases u m) = trace m"
proof -
  let ?i = "ownedIdentity m u" and ?m = "rollbackLeases u m"
  let ?f = "m\<lparr> leases := filter (\<lambda>(k, s). \<not> (fst k = ?i \<and> ls_uncertain s \<and> ls_newLease s)) (leases m) \<rparr>"
  let ?kept = "mapLeases ?i rolledBackLease ?f"
  have i: "ui_Name ?i = u" "?i \<in> fst ` set (overrides m)"
  proof -
    obtain x where x: "find (\<lambda>(i, u'). ui_Name i = u) (overrides m) = Some x" using state by (auto simp: unitLeaseState_def)
    then have "ui_Name (fst x) = u" "x \<in> set (overrides m)" by (auto simp: find_Some_iff) (metis nth_mem)
    moreover have "?i = fst x" using x by (simp add: ownedIdentity_def unitLeaseState_def split: prod.split)
    ultimately show "ui_Name ?i = u" "?i \<in> fst ` set (overrides m)" by simp_all
  qed
  have owned: "leases_owned m" "phased m" "J \<subseteq> fst ` set (overrides m)" "writeAhead (trace m)" using m by (simp_all add: base_inv_def)
  have kept: "leases_owned ?kept"
  proof (rule mapLeases_owned)
    show "leases_owned ?f" using owned(1) by (auto simp: leases_owned_def distinct_map_filter)
    show "pl_Property (ls_lease (rolledBackLease p s)) = p" if "pl_Property (ls_lease s) = p" for p s
      using that by (simp add: rolledBackLease_def publicPropertyLease_def)
  qed
  have leases: "leases ?m = leases ?kept" by (simp add: rollbackLeases_def Let_def)
  have dom: "fst ` set (overrides ?m) = fst ` set (overrides m) - (if unitLeases ?kept ?i = [] then {?i} else {})"
    using i(2) by (auto simp: rollbackLeases_def Let_def dom_update dom_delete)
  show phase: "phaseOf ?m v = phaseOf m v" if "v \<noteq> u" for v
    using that by (simp add: rollbackLeases_def Let_def phaseOf_def update_conv' delete_conv')
  have own: "phaseOf ?m u \<notin> {leasePhaseRestoring, leasePhaseReloading}"
    by (simp add: rollbackLeases_def Let_def phaseOf_def update_conv' delete_conv' lease_phases)
  show names: "ui_Name ` fst ` set (overrides m) - {u} \<subseteq> ui_Name ` fst ` set (overrides ?m)" unfolding dom using i(1) by auto
  have "leases_owned ?m"
  proof (rule leases_ownedI)
    show "distinct (map fst (leases ?m))" using kept by (simp add: leases leases_owned_def)
    fix k s assume ks: "(k, s) \<in> set (leases ?m)"
    then have "pl_Property (ls_lease s) = snd k" "fst k \<in> fst ` set (overrides m)"
      using leases_ownedD [OF kept, of k s] by (simp_all add: leases)
    moreover have "fst k \<noteq> ?i" if "unitLeases ?kept ?i = []" using ks that by (force simp: leases unitLeases_def filter_empty_conv)
    ultimately show "pl_Property (ls_lease s) = snd k \<and> fst k \<in> fst ` set (overrides ?m)" unfolding dom by auto
  qed
  moreover have "phased ?m" unfolding phased_def
  proof (intro allI impI)
    fix v assume v: "phaseOf ?m v \<in> {leasePhaseRestoring, leasePhaseReloading}"
    then have "v \<noteq> u" using own by auto
    then show "v \<in> ui_Name ` fst ` set (overrides ?m)" using v phase names owned(2) by (auto simp: phased_def)
  qed
  moreover have "J - {j. ui_Name j = u} \<subseteq> fst ` set (overrides ?m)" unfolding dom using owned(3) i(1) by auto
  moreover show tr: "trace ?m = trace m" by (simp add: rollbackLeases_def Let_def)
  ultimately show "base_inv (J - {j. ui_Name j = u}) ?m" using owned(4) by (simp add: base_inv_def)
qed

section \<open>Interrupted restores\<close>

lemmas looked = emits_looks [THEN look [OF _ looksKeep_rec]] emits_verifyRestored [THEN look [OF _ looksKeep_rec]]

lemma emits_disk: "emits looks (captureDiskFootprint bd u)" "emits looks (mutablePaths bd op u)" "emits looks (fingerprints bd op u ps)"
  by (auto simp: captureDiskFootprint_def mutablePaths_def fingerprints_def intro!: emits_rules)

lemma finishRestored_keeps: "keeps (rec_inv {}) (finishRestored bd u path)"
  unfolding finishRestored_def
  by (intro keeps_bind keeps_simple looked removeUnitLeaseDurably_keeps triple_write) simp_all

lemma reloadUnit_keeps:
  assumes "\<And>m. P m \<Longrightarrow> rec_inv J m" "\<And>m. P m \<Longrightarrow> phaseOf m u \<in> {leasePhaseRestoring, leasePhaseReloading}"
  shows "triple P (reloadUnit bd u) (\<lambda>_. rec_inv J) (\<lambda>_. rec_inv J)"
  unfolding reloadUnit_def
  by (rule triple_bind [OF reload_keeps [where J = J and u = u, OF assms]]) (auto intro: triple_case_option triple_ret triple_fail)

text \<open>The unit is in one of the given phases and on record.\<close>

definition inPhase :: "lease_phase set \<Rightarrow> string \<Rightarrow> machine \<Rightarrow> bool" where
  "inPhase A u m \<longleftrightarrow> u \<in> ui_Name ` fst ` set (overrides m) \<and> phaseOf m u \<in> A"

lemma looksKeep_inPhase [kept]: "looksKeep (inPhase A u)"
  by (simp add: looksKeep_def inPhase_def)

lemma inPhase_emit [simp]: "inPhase A u (emit c m) = inPhase A u m"
  by (simp add: inPhase_def emit_def)

lemma restoring_onRecord: "rec_inv J m \<Longrightarrow> phaseOf m u \<in> {leasePhaseRestoring, leasePhaseReloading} \<Longrightarrow> u \<in> ui_Name ` fst ` set (overrides m)"
  unfolding rec_inv_def base_inv_def phased_def by blast

lemma stageReloading:
  assumes "\<And>m. P m \<Longrightarrow> rec_inv J m" "\<And>m. P m \<Longrightarrow> f ` set rs \<subseteq> ui_Name ` fst ` set (overrides m)"
  shows "triple P (stageDurably bd (fold (setPhase leasePhaseReloading \<circ> f) rs))
     (\<lambda>_ m. rec_inv J m \<and> (\<forall>u \<in> f ` set rs. phaseOf m u = leasePhaseReloading)) (\<lambda>_. rec_inv J)"
proof (rule stagePhase [where P = P and U = "f ` set rs"])
  fix m assume m: "P m"
  show "leases_owned (fold (setPhase leasePhaseReloading \<circ> f) rs m) \<and>
      trace (fold (setPhase leasePhaseReloading \<circ> f) rs m) = trace m \<and> overrides (fold (setPhase leasePhaseReloading \<circ> f) rs m) = overrides m"
    by (auto simp: setPhases intro: leases_owned_cong [OF rec_invD(1) [OF assms(1) [OF m]]])
qed (simp_all add: assms setPhases)

lemma resumeRestore_keeps: "keeps (rec_inv {}) (resumeRestore bd u current actual)"
  unfolding resumeRestore_def
proof (rule triple_bind [OF triple_read [where Q = "\<lambda>resumable m. rec_inv {} m \<and> (resumable \<longrightarrow> phaseOf m u = leasePhaseRestoring)"]])
  let ?P = "\<lambda>m. rec_inv {} m \<and> phaseOf m u = leasePhaseRestoring"
  have stage: "triple ?P (stageDurably bd (setPhase leasePhaseReloading u))
     (\<lambda>_ m. rec_inv {} m \<and> phaseOf m u = leasePhaseReloading) (\<lambda>_. rec_inv {})"
  proof -
    have "fold (setPhase leasePhaseReloading \<circ> id) [u] = setPhase leasePhaseReloading u" by simp
    then show ?thesis using stageReloading [where P = ?P and J = "{}" and f = id and rs = "[u]" and bd = bd] restoring_onRecord [where J = "{}" and u = u]
      by simp
  qed
  have revert: "keeps ?P (revertUnitFiles bd op u)" for op
    by (rule revert_keeps [where J = "{}"]) (simp_all add: emit_def)
  have rest: "triple ?P
     (bindR (revertUnitFiles bd ''recover_restore_revert'' u) (\<lambda>_.
      bindR (stageDurably bd (setPhase leasePhaseReloading u)) (\<lambda>_.
      bindR (reloadUnit bd u) (\<lambda>_. finishRestored bd u path)))) (\<lambda>_. rec_inv {}) (\<lambda>_. rec_inv {})" for path
    by (rule triple_first [OF revert], simp, rule triple_bind [OF stage], rule triple_bind [OF reloadUnit_keeps finishRestored_keeps])
      simp_all
  fix resumable
  show "triple (\<lambda>m. rec_inv {} m \<and> (resumable \<longrightarrow> phaseOf m u = leasePhaseRestoring))
     (bindR (checkR resumable (externalRecoveryConflict u)) (\<lambda>_.
      bindR (revertUnitFiles bd ''recover_restore_revert'' u) (\<lambda>_.
      bindR (stageDurably bd (setPhase leasePhaseReloading u)) (\<lambda>_.
      bindR (reloadUnit bd u) (\<lambda>_. finishRestored bd u (ui_ObjectPath (us_Identity current)))))))
     (\<lambda>_. rec_inv {}) (\<lambda>_. rec_inv {})"
    by (rule triple_bind [OF triple_check rest]) simp_all
qed simp

lemma stageUnitRestores_base:
  assumes "base_inv J m"
  shows "base_inv J (fold (stageUnitRestore \<circ> f) rs m)"
  using assms by (auto simp: base_inv_def phased_def stageUnitRestores split: if_splits)

lemma finishResetUnit_keeps: "keeps (rec_inv {}) (finishResetUnit bd u current actual)"
proof -
  have "base_inv {} (stageUnitRestore u m)" if "rec_inv {} m" for m
    using stageUnitRestores_base [of "{}" m id "[u]"] rec_invD(2) [OF that] by simp
  then have "keeps (rec_inv {}) (stageDurably bd (stageUnitRestore u))"
    by (intro triple_weaken [OF stageDurably_triple [where P = "rec_inv {}" and J' = "{}" and Q = "\<lambda>_. True"]]) auto
  then show ?thesis
    unfolding finishResetUnit_def
    by (intro keeps_bind keeps_simple looked resumeRestore_keeps)
qed

lemma recoverActiveRestore_keeps:
  "triple (\<lambda>m. rec_inv {} m \<and> phaseOf m u \<in> {leasePhaseRestoring, leasePhaseReloading}) (recoverActiveRestore bd u path)
     (\<lambda>_. rec_inv {}) (\<lambda>_. rec_inv {})"
  (is "triple ?P _ _ _")
proof -
  have "looksKeep ?P"
    by (intro looksKeep_conj looksKeep_rec) (simp add: looksKeep_def)
  then have disk: "keeps ?P (captureDiskFootprint bd u)" by (intro look emits_disk)
  have reloaded: "triple ?P (bindR (reloadUnit bd u) (\<lambda>_. finishRestored bd u path)) (\<lambda>_. rec_inv {}) (\<lambda>_. rec_inv {})"
    by (rule triple_bind [OF reloadUnit_keeps finishRestored_keeps]) simp_all
  have resumed: "triple ?P (bindR (readUnit bd u path) (\<lambda>current. resumeRestore bd u current actual)) (\<lambda>_. rec_inv {}) (\<lambda>_. rec_inv {})" for actual
    by (rule triple_pre [where P' = "rec_inv {}"], intro keeps_bind look [OF emits_readUnit looksKeep_rec] resumeRestore_keeps) simp
  show ?thesis unfolding recoverActiveRestore_def
    by (rule keeps_first [OF disk], simp, rule triple_if [OF reloaded resumed])
qed

section \<open>Interrupted applies\<close>

lemma persist_keeps: "keeps (rec_inv J) (persistLeaseState bd)"
proof (rule tripleI)
  fix m x m' assume m: "rec_inv J m" and run: "persistLeaseState bd m = (Inr x, m')"
  have saved: "triple (unsaved J (lastSaved (trace m))) (persistLeaseState bd) (\<lambda>_ m. rec_inv J m \<and> synced bd m \<and> True) (\<lambda>_. unsaved J (lastSaved (trace m)))"
    by (rule persist_triple) auto
  show "rec_inv J m'" using triple_value [OF saved _ run] m by (auto simp: unsaved_def dest: rec_invD)
next
  fix m e m' assume m: "rec_inv J m" and "persistLeaseState bd m = (Inl e, m')"
  then consider "m' = m" | k where "m' = emit (CallSave k False) m"
    by (auto simp: persistLeaseState_def callR_def op_defs Let_def split: option.splits if_splits)
  then show "rec_inv J m'"
  proof cases
    case (2 k)
    then show ?thesis using m covered_saved [of "CallSave k False # trace m" m] by (simp add: rec_inv_def base_inv_def emit_def)
  qed (simp add: m)
qed

lemma stageLegacy_keeps: "keeps (rec_inv J) (stageLegacyIODeviceWeightResetIntent bd snapshot)"
proof -
  let ?i = "us_Identity snapshot" and ?k = "(us_Identity snapshot, PropertyIODeviceWeight)"
  have stage: "triple (\<lambda>m. rec_inv J m \<and> map_of (leases m) ?k = Some s) (stageDurably bd (setLease ?k (s\<lparr> ls_previousIOWeightTargets := t,
        ls_pendingIOWeightResets := rs \<rparr>))) (\<lambda>_. rec_inv J) (\<lambda>_. rec_inv J)" for s t rs
  proof (rule triple_weaken [OF stageDurably_triple [where J = J and J' = J and Q = "\<lambda>_. True"]])
    fix m assume m: "rec_inv J m \<and> map_of (leases m) ?k = Some s"
    let ?s = "s\<lparr> ls_previousIOWeightTargets := t, ls_pendingIOWeightResets := rs \<rparr>"
    have "leases_owned (setLease ?k ?s m)"
      by (rule setLease_owned) (use m owned_lease [of m ?i PropertyIODeviceWeight s] in \<open>auto simp: onRecord_def dest: rec_invD\<close>)
    then show "base_inv J (setLease ?k ?s m)" using m by (simp add: rec_inv_def base_inv_def)
  qed auto
  have looks: "looksKeep (\<lambda>m. rec_inv J m \<and> map_of (leases m) ?k = s)" for s
    by (intro looksKeep_conj looksKeep_rec) (simp add: looksKeep_def)
  have prepared: "keeps (\<lambda>m. rec_inv J m \<and> map_of (leases m) ?k = s)
      (callR answer (\<lambda>_. CallPrepareResets n) result)" for s answer n and result :: "'x \<Rightarrow> adapter_error + 'y"
    by (rule look [OF _ looks]) (rule emits_call, simp)
  show ?thesis
    unfolding stageLegacyIODeviceWeightResetIntent_def Let_def
    by (rule triple_bind [OF triple_read [where Q = "\<lambda>lease m. rec_inv J m \<and> map_of (leases m) ?k = lease"]], simp,
        rule triple_case_option, rule triple_ret, simp, rule triple_if, rule triple_ret, simp,
        rule triple_first [OF prepared], simp, simp, rule stage)
qed

lemma completeRecovered_keeps:
  "triple (rec_inv J) (completeRecoveredResets bd u identity override current)
     (\<lambda>(again, _) m. rec_inv J m \<and> us_Identity again = identity) (\<lambda>_. rec_inv J)"
proof -
  have same: "triple (rec_inv J) (requireSameIdentity op i i') (\<lambda>_ m. rec_inv J m \<and> i' = i) (\<lambda>_. rec_inv J)" for op i i'
    unfolding requireSameIdentity_def by (rule triple_check) simp_all
  have looks: "looksKeep (\<lambda>m. rec_inv J m \<and> b)" for b by (intro kept)
  have rest: "triple (\<lambda>m. rec_inv J m \<and> us_Identity again = identity)
     (bindR (readR (propertiesMatch u ls_lastApplied again)) (\<lambda>same.
     bindR (checkR same (externalRecoveryConflict u)) (\<lambda>_.
     bindR (captureFootprint bd again) (\<lambda>actual.
     bindR (checkR (pendingFootprintMatches actual override) (externalRecoveryConflict u)) (\<lambda>_.
     bindR (readR (lastAppliedAssignments u)) (\<lambda>as.
     bindR (verifyKernel bd again as) (\<lambda>failure.
     bindR (checkR (failure = None) (AdapterError ReasonKernelVerification ''recover_apply_readback'' u [])) (\<lambda>_.
     retR (again, actual))))))))) (\<lambda>(again, _) m. rec_inv J m \<and> us_Identity again = identity) (\<lambda>_. rec_inv J)" for again
    by (intro keeps_first [where I = "\<lambda>m. rec_inv J m \<and> us_Identity again = identity" and J = "rec_inv J"] keeps_simple
        emits_looks [THEN look [OF _ looks]] triple_ret) simp_all
  show ?thesis
    unfolding completeRecoveredResets_def
    by (intro triple_bind [OF complete_resets] triple_bind [OF look [OF emits_readUnit looksKeep_rec]] triple_bind [OF same rest])
qed

lemma confirmRecovered_keeps:
  assumes "ui_Name identity = ui_Name (us_Identity current)"
  shows "triple (rec_inv {identity}) (confirmRecovered bd u identity current actual) (\<lambda>_. rec_inv {}) (\<lambda>_. rec_inv {})"
proof -
  let ?f = "confirmAppliedUnit u actual \<circ> rebindUnit identity (us_Identity current)"
  have stage: "triple (rec_inv {identity}) (stageDurably bd ?f) (\<lambda>_. rec_inv {}) (\<lambda>_. rec_inv {})"
  proof (rule triple_weaken [OF stageDurably_triple [where P = "rec_inv {identity}" and J = "{identity}" and J' = "{us_Identity current}" and Q = "\<lambda>_. True"]])
    fix m assume m: "rec_inv {identity} m"
    show "base_inv {us_Identity current} (?f m)"
      using confirmAppliedUnit_keeps(2) [OF rec_invD(2) [OF rebindUnit_rec [OF m assms]]] by simp
  qed (auto simp: confirmAppliedUnit_keeps elim: rec_inv_mono)
  show ?thesis
    unfolding confirmRecovered_def
    by (rule triple_bind [OF stage]) (intro keeps_bind keeps_simple triple_if finishResetUnit_keeps triple_write, simp)
qed

lemma rollback_keeps:
  "triple (\<lambda>m. rec_inv {} m \<and> unitLeaseState m u \<noteq> None) (rollbackUndispatchedApply bd u) (\<lambda>_. rec_inv {}) (\<lambda>_. rec_inv {})"
  unfolding rollbackUndispatchedApply_def
proof (rule triple_weaken [OF stageDurably_triple [where J = "{}" and J' = "{}" and Q = "\<lambda>_. True"]])
  fix m assume m: "rec_inv {} m \<and> unitLeaseState m u \<noteq> None"
  then have base: "base_inv {} m" and state: "unitLeaseState m u \<noteq> None" by (auto dest: rec_invD)
  show "base_inv {} (rollbackLeases u m)" "trace (rollbackLeases u m) = trace m"
    using rollbackLeases_base(1,4) [OF base state] by simp_all
qed auto

lemma recoverDispatched_keeps:
  assumes "ui_Name identity = ui_Name (us_Identity current)"
  shows "triple (rec_inv {identity}) (recoverDispatched bd u identity override current actual) (\<lambda>_. rec_inv {}) (\<lambda>_. rec_inv {})"
proof -
  have completed: "triple (rec_inv {identity})
     (if pending then completeRecoveredResets bd u identity override current else retR (current, actual))
     (\<lambda>(current', _) m. rec_inv {identity} m \<and> ui_Name (us_Identity current') = ui_Name identity) (\<lambda>_. rec_inv {})" for pending
    by (rule triple_if, rule triple_weaken [OF completeRecovered_keeps [where J = "{identity}"]])
      (use assms in \<open>auto intro!: triple_ret elim: rec_inv_mono\<close>)
  have confirm: "triple (\<lambda>m. rec_inv {identity} m \<and> ui_Name (us_Identity current') = ui_Name identity)
     (confirmRecovered bd u identity current' actual') (\<lambda>_. rec_inv {}) (\<lambda>_. rec_inv {})" for current' actual'
    by (rule triple_const, rule confirmRecovered_keeps) simp
  have rest: "triple (rec_inv {identity})
     (bindR (if pending then completeRecoveredResets bd u identity override current else retR (current, actual)) (\<lambda>(current', actual').
      confirmRecovered bd u identity current' actual')) (\<lambda>_. rec_inv {}) (\<lambda>_. rec_inv {})" for pending
  proof (rule triple_bind [OF completed])
    fix x :: "unit_snapshot \<times> unit_file_fingerprint list"
    show "triple (case x of (current', _) \<Rightarrow> \<lambda>m. rec_inv {identity} m \<and> ui_Name (us_Identity current') = ui_Name identity)
      (case x of (current', actual') \<Rightarrow> confirmRecovered bd u identity current' actual') (\<lambda>_. rec_inv {}) (\<lambda>_. rec_inv {})"
      by (cases x) (simp add: confirm)
  qed
  show ?thesis
    unfolding recoverDispatched_def Let_def
    by (intro keeps_first [where I = "rec_inv {identity}" and J = "rec_inv {}"] keeps_simple triple_if stageLegacy_keeps rest)
      (auto elim: rec_inv_mono)
qed

lemma recoverApplied_keeps:
  assumes names: "ui_Name identity = ui_Name (us_Identity current)"
  shows "triple (rec_inv {identity}) (recoverApplied bd u identity override current actual) (\<lambda>_. rec_inv {}) (\<lambda>_. rec_inv {})"
proof -
  let ?i = "us_Identity current"
  have rebind: "triple (rec_inv {identity}) (writeR (rebindUnit identity ?i)) (\<lambda>_. rec_inv {?i}) (\<lambda>_. rec_inv {})"
    by (rule triple_write) (rule rebindUnit_rec [OF _ names])
  have undo: "triple (rec_inv {?i}) (bindR (writeR (rebindUnit ?i identity)) (\<lambda>_. failR e)) (\<lambda>_. rec_inv {?i}) (\<lambda>_. rec_inv {})" for e
    by (rule triple_bind [where R = "\<lambda>_. rec_inv {identity}"], rule triple_write, erule rebindUnit_rec, simp add: names, rule triple_fail)
      (auto elim: rec_inv_mono)
  have persist: "triple (rec_inv {?i}) (bindR (tryR (persistLeaseState bd)) (\<lambda>r. case r of
      Inl e \<Rightarrow> bindR (writeR (rebindUnit ?i identity)) (\<lambda>_. failR e) | Inr _ \<Rightarrow> retR ())) (\<lambda>_. rec_inv {?i}) (\<lambda>_. rec_inv {})"
    by (rule triple_bind [OF triple_try [OF persist_keeps]], rule triple_case_sum, rule undo, rule triple_ret)
  have finish: "triple (rec_inv {?i}) (finishResetUnit bd u current actual) (\<lambda>_. rec_inv {}) (\<lambda>_. rec_inv {})"
    by (rule triple_pre [OF finishResetUnit_keeps]) (auto elim: rec_inv_mono)
  have mark: "triple (rec_inv {?i}) (writeR (recordRecovery u s)) (\<lambda>_. rec_inv {}) (\<lambda>_. rec_inv {})" for s
    by (rule triple_write) (auto elim: rec_inv_mono)
  have settle: "triple (rec_inv {?i})
     (bindR (readR (propertiesMatch u ls_baseline current)) (\<lambda>atBaseline.
        if atBaseline then finishResetUnit bd u current actual
        else
          bindR (if b then retR ()
                 else bindR (tryR (persistLeaseState bd)) (\<lambda>r. case r of
                     Inl e \<Rightarrow> bindR (writeR (rebindUnit ?i identity)) (\<lambda>_. failR e)
                   | Inr _ \<Rightarrow> retR ())) (\<lambda>_.
          writeR (recordRecovery u s)))) (\<lambda>_. rec_inv {}) (\<lambda>_. rec_inv {})" for b s
    by (rule keeps_first [OF keeps_simple(5)], erule rec_inv_mono, simp, rule triple_if [OF finish],
        rule triple_bind [OF triple_if [OF triple_ret persist] mark])
  show ?thesis
    unfolding recoverApplied_def Let_def
    by (intro keeps_first [where I = "rec_inv {identity}" and J = "rec_inv {}"] keeps_simple triple_bind [OF rebind settle])
      (auto elim: rec_inv_mono)
qed

lemma unitLeaseState_record: "unitLeaseState m u = Some (i, ov, ph) \<Longrightarrow> ui_Name i = u \<and> i \<in> fst ` set (overrides m) \<and> phaseOf m u = ph"
  unfolding unitLeaseState_def by (auto simp: find_Some_iff image_iff) (metis fst_conv nth_mem)

lemma recoverActive_keeps:
  assumes name: "ui_Name (us_Identity current) = u"
  shows "keeps (rec_inv {}) (recoverActive bd u current)"
proof -
  let ?P = "\<lambda>lease m. rec_inv {} m \<and> unitLeaseState m u = lease"
  have looks: "looksKeep (?P lease)" for lease
    by (intro looksKeep_conj looksKeep_rec) (simp add: looksKeep_def unitLeaseState_def)
  have capture: "keeps (?P lease) (captureFootprint bd current)" for lease
    by (rule emits_looks(3) [THEN look [OF _ looks]])
  have onrec: "ui_Name i = u \<and> rec_inv {i} m" if "?P (Some (i, ov, ph)) m" for i ov ph m
    using that unitLeaseState_record [of m u i ov ph] by (auto simp: rec_inv_def base_inv_def)
  have applied: "triple (?P (Some (i, ov, ph))) (recoverApplied bd u i ov current actual) (\<lambda>_. rec_inv {}) (\<lambda>_. rec_inv {})" for i ov ph actual
  proof (cases "ui_Name i = u")
    case True
    then show ?thesis using onrec by (intro triple_pre [OF recoverApplied_keeps]) (auto simp: name)
  qed (use onrec in \<open>fastforce simp: triple_def\<close>)
  have applying: "triple (?P (Some (i, ov, ph))) (recoverApplying bd u i ov current actual) (\<lambda>_. rec_inv {}) (\<lambda>_. rec_inv {})" for i ov ph actual
  proof (cases "ui_Name i = u")
    case True
    have dispatched: "triple (?P (Some (i, ov, ph))) (recoverDispatched bd u i ov current actual) (\<lambda>_. rec_inv {}) (\<lambda>_. rec_inv {})"
      by (rule triple_pre [OF recoverDispatched_keeps]) (use True onrec in \<open>auto simp: name\<close>)
    have rollback: "triple (?P (Some (i, ov, ph))) (rollbackUndispatchedApply bd u) (\<lambda>_. rec_inv {}) (\<lambda>_. rec_inv {})"
      by (rule triple_pre [OF rollback_keeps]) simp
    show ?thesis
      unfolding recoverApplying_def
      by (rule keeps_first [OF keeps_simple(5)], simp) (intro triple_case_prod triple_if dispatched rollback triple_fail, simp)
  qed (use onrec in \<open>fastforce simp: triple_def\<close>)
  show ?thesis
    unfolding recoverActive_def
  proof (rule triple_bind [OF triple_read [where Q = ?P]])
    fix lease
    show "triple (?P lease) (case lease of
       None \<Rightarrow> failR (PlainError ''durable unit has no in-memory lease state'')
     | Some (identity, override, phase) \<Rightarrow>
         bindR (captureFootprint bd current) (\<lambda>actual.
           if phase = leasePhaseApplied then recoverApplied bd u identity override current actual
           else if phase = leasePhaseApplying then recoverApplying bd u identity override current actual
           else failR (PlainError ''unit has unsupported recovery phase''))) (\<lambda>_. rec_inv {}) (\<lambda>_. rec_inv {})"
    proof (cases lease)
      case (Some x)
      obtain i ov ph where x: "x = (i, ov, ph)" by (cases x)
      show ?thesis unfolding Some x option.case prod.case
        by (rule keeps_first [OF capture], simp) (intro triple_if applied applying triple_fail, simp)
    qed (auto intro: triple_fail)
  qed simp
qed

section \<open>Departed units\<close>

text \<open>A staged change leaves the record of other units alone, saved or undone.\<close>

lemma stageDurably_record:
  assumes "\<And>m. P (overrides m) (phases m) \<Longrightarrow> R m \<Longrightarrow> P (overrides (f m)) (phases (f m))"
  shows "triple (\<lambda>m. P (overrides m) (phases m) \<and> R m) (stageDurably bd f) (\<lambda>_ m. P (overrides m) (phases m)) (\<lambda>_ m. P (overrides m) (phases m))"
  by (rule tripleI) (auto simp: stageDurably_run restoreLeaseState_def assms split: option.splits if_splits)

lemma inPhase_record: "inPhase A v = (\<lambda>m. (\<lambda>os ps. v \<in> ui_Name ` fst ` set os \<and> (case map_of ps v of Some p \<Rightarrow> p | None \<Rightarrow> []) \<in> A) (overrides m) (phases m))"
  by (simp add: fun_eq_iff inPhase_def phaseOf_def)

lemma stageDurably_inPhase:
  assumes "\<And>m. inPhase A v m \<Longrightarrow> R m \<Longrightarrow> inPhase A v (f m)"
  shows "triple (\<lambda>m. inPhase A v m \<and> R m) (stageDurably bd f) (\<lambda>_. inPhase A v) (\<lambda>_. inPhase A v)"
  unfolding inPhase_record by (rule stageDurably_record) (use assms in \<open>simp add: inPhase_record\<close>)

lemma rollback_other:
  assumes "v \<noteq> u"
  shows "triple (\<lambda>m. inPhase A v m \<and> rec_inv {} m \<and> unitLeaseState m u \<noteq> None) (rollbackUndispatchedApply bd u) (\<lambda>_. inPhase A v) (\<lambda>_. inPhase A v)"
  unfolding rollbackUndispatchedApply_def
proof (rule stageDurably_inPhase)
  fix m assume m: "inPhase A v m" "rec_inv {} m \<and> unitLeaseState m u \<noteq> None"
  then have base: "base_inv {} m" "unitLeaseState m u \<noteq> None" by (auto dest: rec_invD)
  show "inPhase A v (rollbackLeases u m)"
    using m(1) rollbackLeases_base(2,3) [OF base] assms by (simp add: inPhase_def) blast
qed

lemma removed_other: "v \<noteq> u \<Longrightarrow> inPhase A v m \<Longrightarrow> leases_owned m \<Longrightarrow> inPhase A v (removeUnitLease u m)"
  using removeUnitLease_keeps(3) [of m u]
  by (auto simp: inPhase_def removeUnitLease_def phaseOf_def delete_conv' dom_delete split: option.splits dest!: unitLeaseState_name)

lemma remove_other:
  assumes "v \<noteq> u"
  shows "triple (\<lambda>m. inPhase A v m \<and> rec_inv {} m) (removeUnitLeaseDurably bd u) (\<lambda>_. inPhase A v) (\<lambda>_. inPhase A v)"
  unfolding removeUnitLeaseDurably_def removeUnitLeasesDurably_def
  by (rule stageDurably_inPhase) (use removed_other [OF assms] in \<open>auto dest: rec_invD(1)\<close>)

text \<open>A pending recovery's unit is on record, in a phase its next step may start from.\<close>

definition ready :: "lease_phase set \<Rightarrow> inactive_recovery \<Rightarrow> machine \<Rightarrow> bool" where
  "ready A r m \<longleftrightarrow>
     (ir_pending r \<longrightarrow> inPhase (if ir_revert r then A else {leasePhaseRestoring, leasePhaseReloading}) (ir_unit r) m)"

definition readyAll :: "lease_phase set \<Rightarrow> inactive_recovery list \<Rightarrow> machine \<Rightarrow> bool" where
  "readyAll A rs m \<longleftrightarrow> rec_inv {} m \<and> (\<forall>r \<in> set rs. ready A r m)"

lemma ready_fields [simp]:
  "ready A (inactiveRecovery_failed e r) m" "ir_unit (inactiveRecovery_failed e r) = ir_unit r"
  "ir_unit (newInactiveRecovery u) = u" "ready A (newInactiveRecovery u) m"
  by (simp_all add: ready_def inactiveRecovery_failed_def newInactiveRecovery_def)

lemma looksKeep_ready [kept]: "looksKeep (ready A r)"
  by (simp add: looksKeep_def ready_def inPhase_def)

lemma looksKeep_readyAll [kept]: "looksKeep (readyAll A rs)"
  using looksKeep_rec [of "{}"] by (simp add: looksKeep_def readyAll_def ready_def inPhase_def)

abbreviation beforeRevert :: "lease_phase set" where
  "beforeRevert \<equiv> {leasePhaseApplied, leasePhaseApplying, leasePhaseRestoring}"

text \<open>What a preparation does besides looking, and what it says about the other units.\<close>

lemma prepareInactive_triple:
  assumes rollback: "triple (\<lambda>m. P m \<and> rec_inv {} m \<and> unitLeaseState m u \<noteq> None) (rollbackUndispatchedApply bd u) (\<lambda>_. P) (\<lambda>_. P)"
    and remove: "triple (\<lambda>m. P m \<and> rec_inv {} m) (removeUnitLeaseDurably bd u) (\<lambda>_. P) (\<lambda>_. P)"
    and looks: "looksKeep P" and marks: "\<And>m s. P m \<Longrightarrow> P (recordRecovery u s m)"
    and Q: "\<And>m. P m \<Longrightarrow> rec_inv {} m \<Longrightarrow> Q (newInactiveRecovery u) m"
      "\<And>m. P m \<Longrightarrow> rec_inv {} m \<Longrightarrow> phaseOf m u \<in> {leasePhaseRestoring, leasePhaseReloading} \<Longrightarrow> Q ((newInactiveRecovery u)\<lparr> ir_pending := True \<rparr>) m"
      "\<And>m. P m \<Longrightarrow> rec_inv {} m \<Longrightarrow> unitLeaseState m u \<noteq> None \<Longrightarrow> phaseOf m u \<noteq> leasePhaseReloading \<Longrightarrow>
         Q ((newInactiveRecovery u)\<lparr> ir_pending := True, ir_revert := True \<rparr>) m"
  shows "triple (\<lambda>m. P m \<and> rec_inv {} m) (prepareInactive bd u) Q (\<lambda>_ m. P m \<and> rec_inv {} m)"
  unfolding prepareInactive_def
proof (rule triple_bind [OF triple_read [where Q = "\<lambda>lease m. (P m \<and> rec_inv {} m) \<and> unitLeaseState m u = lease"]], simp)
  fix lease
  let ?I = "\<lambda>m. (P m \<and> rec_inv {} m) \<and> unitLeaseState m u = lease" and ?E = "\<lambda>(_ :: adapter_error) m. P m \<and> rec_inv {} m"
  have I: "looksKeep ?I"
    by (intro looksKeep_conj looksKeep_rec looks) (simp add: looksKeep_def unitLeaseState_def)
  have finished: "triple (\<lambda>m. P m \<and> rec_inv {} m) (bindR (writeR (recordRecovery u LeaseRecoveryInactive)) (\<lambda>_. retR (newInactiveRecovery u))) Q ?E"
    by (rule triple_bind [where R = "\<lambda>_ m. P m \<and> rec_inv {} m"], rule triple_write, simp add: marks, rule triple_ret, simp add: Q)
  have rolled: "triple (\<lambda>m. P m \<and> rec_inv {} m \<and> unitLeaseState m u \<noteq> None) (rollbackUndispatchedApply bd u) (\<lambda>_ m. P m \<and> rec_inv {} m) ?E"
    by (rule triple_weaken [OF triple_conj [OF rollback rollback_keeps]]) auto
  have removed: "triple (\<lambda>m. P m \<and> rec_inv {} m) (removeUnitLeaseDurably bd u) (\<lambda>_ m. P m \<and> rec_inv {} m) ?E"
    by (rule triple_weaken [OF triple_conj [OF remove removeUnitLeaseDurably_keeps [where J = "{}"]]]) auto
  show "triple ?I (case lease of
       None \<Rightarrow> failR (PlainError ''durable inactive unit has no in-memory lease state'')
     | Some (_, override, phase) \<Rightarrow>
         bindR (mutablePaths bd ''recover_inactive'' u) (\<lambda>paths.
         bindR (fingerprints bd ''recover_inactive'' u paths) (\<lambda>actual.
           if actual = [] \<and> phase = leasePhaseApplying \<and> uo_previousFingerprint override = [] then
             bindR (rollbackUndispatchedApply bd u) (\<lambda>_.
             bindR (writeR (recordRecovery u LeaseRecoveryInactive)) (\<lambda>_. retR (newInactiveRecovery u)))
           else if actual = [] \<and> isCapabilityProbeUnit u \<and> (phase = leasePhaseApplied \<or> phase = leasePhaseApplying) then
             bindR (removeUnitLeaseDurably bd u) (\<lambda>_.
             bindR (writeR (recordRecovery u LeaseRecoveryInactive)) (\<lambda>_. retR (newInactiveRecovery u)))
           else if actual = [] \<and> (phase = leasePhaseRestoring \<or> phase = leasePhaseReloading) then
             retR ((newInactiveRecovery u)\<lparr> ir_pending := True \<rparr>)
           else
             bindR (checkR (actual = uo_fingerprints override \<or>
                            phase = leasePhaseApplying \<and> pendingFootprintMatches actual override)
                      (externalRecoveryConflict u)) (\<lambda>_.
             bindR (checkR (phase \<noteq> leasePhaseReloading) (externalRecoveryConflict u)) (\<lambda>_.
             retR ((newInactiveRecovery u)\<lparr> ir_pending := True, ir_revert := True \<rparr>)))))) Q ?E"
  proof (cases lease)
    case (Some x)
    obtain i ov ph where x: "x = (i, ov, ph)" by (cases x)
    have ph: "phaseOf m u = ph" if "?I m" for m using that unitLeaseState_record [of m u i ov ph] by (simp add: Some x)
    have checked: "triple ?I (checkR (ph \<noteq> leasePhaseReloading) e) (\<lambda>_ m. ?I m \<and> phaseOf m u \<noteq> leasePhaseReloading) ?E" for e
      by (rule triple_check) (use ph in auto)
    have pending: "triple ?I (retR ((newInactiveRecovery u)\<lparr> ir_pending := True \<rparr>)) Q ?E" if "ph = leasePhaseRestoring \<or> ph = leasePhaseReloading"
      by (rule triple_ret) (use ph Q(2) that in auto)
    have revert: "triple ?I (bindR (checkR b e) (\<lambda>_. bindR (checkR (ph \<noteq> leasePhaseReloading) e) (\<lambda>_.
        retR ((newInactiveRecovery u)\<lparr> ir_pending := True, ir_revert := True \<rparr>)))) Q ?E" for b e
      by (rule keeps_first [OF keeps_simple(4)], simp, rule triple_bind [OF checked triple_ret]) (use Q(3) Some x in auto)
    have roll: "triple ?I (rollbackUndispatchedApply bd u) (\<lambda>_ m. P m \<and> rec_inv {} m) ?E" by (rule triple_pre [OF rolled]) (simp add: Some)
    have rem: "triple ?I (removeUnitLeaseDurably bd u) (\<lambda>_ m. P m \<and> rec_inv {} m) ?E" by (rule triple_pre [OF removed]) simp
    have paths: "triple ?I (mutablePaths bd op u) (\<lambda>_. ?I) (\<lambda>_. ?I)" for op by (rule look [OF emits_disk(2) I])
    have prints: "triple ?I (fingerprints bd op u ps) (\<lambda>_. ?I) (\<lambda>_. ?I)" for op ps by (rule look [OF emits_disk(3) I])
    show ?thesis
      unfolding Some x option.case prod.case
      by (rule keeps_first [OF paths [unfolded Some x]], simp, rule keeps_first [OF prints [unfolded Some x]], simp)
        (intro triple_if triple_bind [OF roll [unfolded Some x] finished] triple_bind [OF rem [unfolded Some x] finished]
          pending [unfolded Some x] revert [unfolded Some x], blast)
  qed (auto intro: triple_fail)
qed

lemma prepareInactive_ready:
  "triple (rec_inv {}) (prepareInactive bd u) (\<lambda>r m. readyAll beforeRevert [r] m \<and> ir_unit r = u) (\<lambda>_. rec_inv {})"
proof (rule triple_weaken [OF prepareInactive_triple [where P = "rec_inv {}"]])
  show "triple (\<lambda>m. rec_inv {} m \<and> rec_inv {} m \<and> unitLeaseState m u \<noteq> None) (rollbackUndispatchedApply bd u) (\<lambda>_. rec_inv {}) (\<lambda>_. rec_inv {})"
    by (rule triple_pre [OF rollback_keeps]) simp
  show "triple (\<lambda>m. rec_inv {} m \<and> rec_inv {} m) (removeUnitLeaseDurably bd u) (\<lambda>_. rec_inv {}) (\<lambda>_. rec_inv {})"
    by (rule triple_pre [OF removeUnitLeaseDurably_keeps]) simp_all
  fix m assume m: "rec_inv {} m"
  show "readyAll beforeRevert [newInactiveRecovery u] m \<and> ir_unit (newInactiveRecovery u) = u" using m by (simp add: readyAll_def)
  show "readyAll beforeRevert [(newInactiveRecovery u)\<lparr> ir_pending := True \<rparr>] m \<and> ir_unit ((newInactiveRecovery u)\<lparr> ir_pending := True \<rparr>) = u"
    if "phaseOf m u \<in> {leasePhaseRestoring, leasePhaseReloading}"
    using m that restoring_onRecord [OF m that] by (simp add: readyAll_def ready_def inPhase_def newInactiveRecovery_def)
  show "readyAll beforeRevert [(newInactiveRecovery u)\<lparr> ir_pending := True, ir_revert := True \<rparr>] m \<and>
      ir_unit ((newInactiveRecovery u)\<lparr> ir_pending := True, ir_revert := True \<rparr>) = u"
    if on: "unitLeaseState m u \<noteq> None" and ph: "phaseOf m u \<noteq> leasePhaseReloading"
  proof -
    have rec: "u \<in> ui_Name ` fst ` set (overrides m)" using on unitLeaseState_None [of m u] by simp
    moreover have "phase_ok m" using m by (simp add: rec_inv_def)
    ultimately have "phaseOf m u \<in> beforeRevert" using ph by (auto simp: phase_ok_def)
    then show ?thesis using m rec by (simp add: readyAll_def ready_def inPhase_def newInactiveRecovery_def)
  qed
qed (auto intro: looksKeep_rec)

lemma prepareInactive_other:
  assumes "ir_unit r \<noteq> u"
  shows "triple (\<lambda>m. ready A r m \<and> rec_inv {} m) (prepareInactive bd u) (\<lambda>_. ready A r) (\<lambda>_. ready A r)"
proof (cases "ir_pending r")
  case True
  let ?P = "inPhase (if ir_revert r then A else {leasePhaseRestoring, leasePhaseReloading}) (ir_unit r)"
  have eq: "ready A r = ?P" using True by (simp add: fun_eq_iff ready_def)
  have prepared: "triple (\<lambda>m. ?P m \<and> rec_inv {} m) (prepareInactive bd u) (\<lambda>_. ?P) (\<lambda>_ m. ?P m \<and> rec_inv {} m)"
    by (rule prepareInactive_triple [OF rollback_other [OF assms] remove_other [OF assms] looksKeep_inPhase])
      (auto simp: inPhase_def recordRecovery_def phaseOf_def)
  show ?thesis unfolding eq by (rule triple_weaken [OF prepared]) simp_all
qed (simp add: ready_def triple_def split: prod.splits sum.splits)

lemma readyAll_simps [simp]:
  "readyAll A [] m \<longleftrightarrow> rec_inv {} m" "readyAll A (r # rs) m \<longleftrightarrow> ready A r m \<and> readyAll A rs m"
  by (auto simp: readyAll_def)

lemma prepareInactiveRecovery_keeps:
  assumes "u \<notin> ir_unit ` set rs"
  shows "triple (readyAll beforeRevert rs) (prepareInactiveRecovery bd u) (\<lambda>r m. readyAll beforeRevert (r # rs) m \<and> ir_unit r = u) E"
proof -
  let ?R = "\<lambda>m. \<forall>r \<in> set rs. ready beforeRevert r m"
  have others: "triple (\<lambda>m. ?R m \<and> rec_inv {} m) (prepareInactive bd u) (\<lambda>_. ?R) (\<lambda>_. ?R)"
    using assms
  proof (induction rs)
    case (Cons r rs)
    then have one: "triple (\<lambda>m. ready beforeRevert r m \<and> rec_inv {} m) (prepareInactive bd u) (\<lambda>_. ready beforeRevert r) (\<lambda>_. ready beforeRevert r)"
      by (intro prepareInactive_other) auto
    show ?case by (rule triple_weaken [OF triple_conj [OF one Cons.IH]]) (use Cons.prems in auto)
  qed (simp add: triple_def split: prod.splits sum.splits)
  have "triple (readyAll beforeRevert rs) (prepareInactive bd u) (\<lambda>r m. readyAll beforeRevert (r # rs) m \<and> ir_unit r = u) (\<lambda>_. readyAll beforeRevert rs)"
    by (rule triple_weaken [OF triple_conj [OF others prepareInactive_ready]]) (auto simp: readyAll_def)
  then have "triple (readyAll beforeRevert rs) (tryR (prepareInactive bd u))
      (\<lambda>x m. case x of Inl e \<Rightarrow> readyAll beforeRevert rs m | Inr r \<Rightarrow> readyAll beforeRevert (r # rs) m \<and> ir_unit r = u) E"
    by (intro triple_try) simp
  then show ?thesis unfolding prepareInactiveRecovery_def by (rule triple_bind) (auto intro!: triple_ret split: sum.splits)
qed

lemma prepareAll_keeps:
  assumes "distinct us" "set us \<inter> ir_unit ` set rs = {}"
  shows "triple (readyAll beforeRevert rs) (mapR (prepareInactiveRecovery bd) us) (\<lambda>rs' m. readyAll beforeRevert (rs' @ rs) m) E"
  using assms
proof (induction us arbitrary: rs)
  case (Cons u us)
  have rest: "triple (\<lambda>m. readyAll beforeRevert (r # rs) m \<and> ir_unit r = u) (bindR (mapR (prepareInactiveRecovery bd) us) (\<lambda>ys. retR (r # ys)))
      (\<lambda>rs' m. readyAll beforeRevert (rs' @ rs) m) E" for r
  proof (rule triple_const, rule triple_bind [OF Cons.IH])
    show "triple (readyAll beforeRevert (ys @ r # rs)) (retR (r # ys)) (\<lambda>rs'. readyAll beforeRevert (rs' @ rs)) E" for ys
      by (rule triple_ret) (auto simp: readyAll_def)
  qed (use Cons.prems in auto)
  show ?case unfolding mapR.simps by (rule triple_bind [OF prepareInactiveRecovery_keeps rest]) (use Cons.prems in auto)
qed (simp add: triple_ret)

text \<open>Each step of the batch fails some recoveries and leaves the others.\<close>

lemma readyAll_failWhere: "readyAll A rs m \<Longrightarrow> readyAll A (failWhere Pr e rs) m"
  by (auto simp: readyAll_def failWhere_def)

lemma announced_ready:
  assumes "readyAll beforeRevert rs m"
  shows "readyAll {leasePhaseRestoring} (failWhere (announcesRestore m) e rs) m"
    and "filter (announcesRestore m) rs = [] \<Longrightarrow> readyAll {leasePhaseRestoring} rs m"
  using assms by (auto simp: readyAll_def ready_def inPhase_def failWhere_def announcesRestore_def filter_empty_conv inactiveRecovery_failed_def) fastforce

lemma ready_memory: "overrides m' = overrides m \<Longrightarrow> phases m' = phases m \<Longrightarrow> ready A r m' = ready A r m"
  by (simp add: ready_def inPhase_def phaseOf_def)

lemma ready_saved [simp]: "ready A r (m\<lparr> trace := t, generation := g \<rparr>) = ready A r m"
  by (rule ready_memory) simp_all

text \<open>A batch is announced for all of its units, or memory is what it was.\<close>

lemma stageBatch:
  assumes "\<And>m. P m \<Longrightarrow> rec_inv {} m" "\<And>m. P m \<Longrightarrow> trace (f m) = trace m" "\<And>m. P m \<Longrightarrow> base_inv {} (f m)"
    "\<And>m. P m \<Longrightarrow> \<forall>r \<in> set rs. ready A r (f m)"
  shows "triple P (stageDurably bd f) (\<lambda>_. readyAll A rs) (\<lambda>_ m'. rec_inv {} m' \<and> (\<exists>m. P m \<and> overrides m' = overrides m \<and> phases m' = phases m))"
proof -
  have "triple P (stageDurably bd f) (\<lambda>_ m. rec_inv {} m \<and> synced bd m \<and> (\<forall>r \<in> set rs. ready A r m)) (\<lambda>_. rec_inv {})"
    by (rule stageDurably_triple) (use assms in auto)
  moreover have "triple P (stageDurably bd f) (\<lambda>_ _. True) (\<lambda>_ m'. \<exists>m. P m \<and> overrides m' = overrides m \<and> phases m' = phases m)"
    by (rule tripleI) (auto simp: stageDurably_run restoreLeaseState_def split: option.splits if_splits)
  ultimately have "triple (\<lambda>m. P m \<and> P m) (stageDurably bd f) (\<lambda>_ m. (rec_inv {} m \<and> synced bd m \<and> (\<forall>r \<in> set rs. ready A r m)) \<and> True)
      (\<lambda>_ m'. rec_inv {} m' \<and> (\<exists>m. P m \<and> overrides m' = overrides m \<and> phases m' = phases m))" by (rule triple_conj)
  then show ?thesis by (rule triple_weaken) (auto simp: readyAll_def)
qed

lemma stageInactive_keeps:
  "triple (readyAll beforeRevert rs) (stageInactive bd rs) (\<lambda>rs'. readyAll {leasePhaseRestoring} rs') E"
  unfolding stageInactive_def Let_def
proof (rule triple_bind [OF triple_read [where Q = "\<lambda>announces m. readyAll beforeRevert rs m \<and> announcesRestore m = announces"]], simp)
  fix announces
  let ?P = "\<lambda>m. readyAll beforeRevert rs m \<and> announcesRestore m = announces" and ?s = "filter announces rs"
  have saved: "triple ?P (stageDurably bd (fold (stageUnitRestore \<circ> ir_unit) ?s)) (\<lambda>_. readyAll {leasePhaseRestoring} rs) (\<lambda>_. ?P)"
  proof (rule triple_weaken [OF stageBatch [where P = ?P and rs = rs and A = "{leasePhaseRestoring}"]])
    fix m assume m: "?P m"
    then have "rec_inv {} m" by (simp add: readyAll_def)
    then show "rec_inv {} m" "trace (fold (stageUnitRestore \<circ> ir_unit) ?s m) = trace m" "base_inv {} (fold (stageUnitRestore \<circ> ir_unit) ?s m)"
      by (auto simp: stageUnitRestores intro: stageUnitRestores_base dest: rec_invD(2))
    show "\<forall>r \<in> set rs. ready {leasePhaseRestoring} r (fold (stageUnitRestore \<circ> ir_unit) ?s m)"
    proof
      fix r assume "r \<in> set rs"
      moreover have "ready beforeRevert r m" using m calculation by (simp add: readyAll_def)
      ultimately show "ready {leasePhaseRestoring} r (fold (stageUnitRestore \<circ> ir_unit) ?s m)"
        using m by (auto simp: ready_def inPhase_def stageUnitRestores announcesRestore_def split: if_splits)
    qed
  next
    fix m' assume "rec_inv {} m' \<and> (\<exists>m. ?P m \<and> overrides m' = overrides m \<and> phases m' = phases m)"
    then obtain m where "rec_inv {} m'" "?P m" "overrides m' = overrides m" "phases m' = phases m" by blast
    moreover from this have "announcesRestore m' = announces" by (auto simp: fun_eq_iff announcesRestore_def phaseOf_def)
    ultimately show "?P m'" using ready_memory [of m' m] by (simp add: readyAll_def)
  qed simp_all
  show "triple ?P (if ?s = [] then retR rs
       else bindR (tryR (stageDurably bd (fold (stageUnitRestore \<circ> ir_unit) ?s))) (\<lambda>r. retR (case r of
           Inl e \<Rightarrow> failWhere announces e rs | Inr _ \<Rightarrow> rs))) (\<lambda>rs'. readyAll {leasePhaseRestoring} rs') E"
  proof (rule triple_if)
    show "triple ?P (retR rs) (\<lambda>rs'. readyAll {leasePhaseRestoring} rs') E" if "?s = []"
      by (rule triple_ret) (use announced_ready(2) that in auto)
    have "triple ?P (tryR (stageDurably bd (fold (stageUnitRestore \<circ> ir_unit) ?s)))
       (\<lambda>x m. case x of Inl e \<Rightarrow> ?P m | Inr _ \<Rightarrow> readyAll {leasePhaseRestoring} rs m) E"
      by (rule triple_try) (simp add: saved)
    then show "triple ?P (bindR (tryR (stageDurably bd (fold (stageUnitRestore \<circ> ir_unit) ?s))) (\<lambda>r. retR (case r of
           Inl e \<Rightarrow> failWhere announces e rs | Inr _ \<Rightarrow> rs))) (\<lambda>rs'. readyAll {leasePhaseRestoring} rs') E"
      by (rule triple_bind) (use announced_ready(1) in \<open>auto intro!: triple_ret split: sum.splits\<close>)
  qed
qed

text \<open>Reverting keeps what the other recoveries are ready for.\<close>

definition outcomeOf :: "inactive_recovery \<Rightarrow> inactive_recovery \<Rightarrow> bool" where
  "outcomeOf r r' \<longleftrightarrow> r' = r \<or> \<not> ir_pending r'"

lemma outcomes_ready: "list_all2 outcomeOf rs rs' \<Longrightarrow> readyAll A rs m \<Longrightarrow> readyAll A rs' m"
  by (induction rule: list_all2_induct) (auto simp: outcomeOf_def ready_def)

lemma failed_outcome [simp]: "outcomeOf r (inactiveRecovery_failed e r)" "outcomeOf r r"
  by (simp_all add: outcomeOf_def inactiveRecovery_failed_def)

lemma outcomes_triple:
  assumes "\<And>r. r \<in> set rs \<Longrightarrow> triple (readyAll A rs) (f r) (\<lambda>r' m. readyAll A rs m \<and> outcomeOf r r') E"
  shows "triple (readyAll A rs) (mapR f rs) (\<lambda>rs'. readyAll A rs') E"
  by (rule triple_weaken [OF triple_map_all [where R = outcomeOf, OF assms]]) (auto dest: outcomes_ready)

lemma revertInactive_keeps:
  assumes "r \<in> set rs"
  shows "triple (readyAll {leasePhaseRestoring} rs) (revertInactive bd r) (\<lambda>r' m. readyAll {leasePhaseRestoring} rs m \<and> outcomeOf r r') E"
proof -
  have "keeps (readyAll {leasePhaseRestoring} rs) (revertUnitFiles bd ''recover_inactive_revert'' (ir_unit r))" if "ir_pending r" "ir_revert r"
    by (rule revert_keeps [where J = "{}"]) (use assms that in \<open>auto simp: readyAll_def ready_def inPhase_def emit_def\<close>)
  then have tried: "triple (readyAll {leasePhaseRestoring} rs) (tryR (revertUnitFiles bd ''recover_inactive_revert'' (ir_unit r)))
      (\<lambda>_. readyAll {leasePhaseRestoring} rs) E" if "ir_pending r" "ir_revert r"
    using that by (intro triple_try) simp
  show ?thesis
    unfolding revertInactive_def by (intro triple_if triple_bind [OF tried] triple_ret) (auto split: sum.splits)
qed

lemma reloadingInactive_keeps:
  "triple (readyAll {leasePhaseRestoring} rs) (reloadingInactive bd rs) (\<lambda>rs'. readyAll {leasePhaseReloading} rs') E"
proof -
  let ?s = "filter (\<lambda>r. ir_pending r \<and> ir_revert r) rs" and ?P = "readyAll {leasePhaseRestoring} rs"
  let ?f = "fold (setPhase leasePhaseReloading \<circ> ir_unit) ?s"
  have failed: "readyAll {leasePhaseReloading} (failWhere (\<lambda>r. ir_pending r \<and> ir_revert r) e rs) m" if "?P m" for e m
    using that by (auto simp: readyAll_def ready_def inPhase_def failWhere_def inactiveRecovery_failed_def)
  have saved: "triple ?P (stageDurably bd ?f) (\<lambda>_. readyAll {leasePhaseReloading} rs) (\<lambda>_. ?P)"
  proof (rule triple_weaken [OF stageBatch [where P = ?P and rs = rs and A = "{leasePhaseReloading}"]])
    fix m assume m: "?P m"
    then have inv: "rec_inv {} m" by (simp add: readyAll_def)
    then show "rec_inv {} m" "trace (?f m) = trace m" by (simp_all add: setPhases)
    have "leases_owned (?f m)" by (rule leases_owned_cong [OF rec_invD(1) [OF inv]]) (simp_all add: setPhases)
    moreover have "phased (?f m)"
      using m inv by (auto simp: phased_def setPhases readyAll_def ready_def inPhase_def rec_inv_def base_inv_def split: if_splits)
    ultimately show "base_inv {} (?f m)" using inv by (simp add: rec_inv_def base_inv_def setPhases)
    show "\<forall>r \<in> set rs. ready {leasePhaseReloading} r (?f m)"
    proof
      fix r assume "r \<in> set rs"
      moreover have "ready {leasePhaseRestoring} r m" using m calculation by (simp add: readyAll_def)
      ultimately show "ready {leasePhaseReloading} r (?f m)" by (auto simp: ready_def inPhase_def setPhases split: if_splits)
    qed
  next
    fix m' assume "rec_inv {} m' \<and> (\<exists>m. ?P m \<and> overrides m' = overrides m \<and> phases m' = phases m)"
    then obtain m where "rec_inv {} m'" "?P m" "overrides m' = overrides m" "phases m' = phases m" by blast
    then show "?P m'" using ready_memory [of m' m] by (simp add: readyAll_def)
  qed simp_all
  show ?thesis
    unfolding reloadingInactive_def Let_def
  proof (rule triple_if)
    show "triple ?P (retR rs) (\<lambda>rs'. readyAll {leasePhaseReloading} rs') E" if "?s = []"
      by (rule triple_ret) (use that in \<open>auto simp: readyAll_def ready_def filter_empty_conv\<close>)
    have "triple ?P (tryR (stageDurably bd ?f)) (\<lambda>x m. case x of Inl e \<Rightarrow> ?P m | Inr _ \<Rightarrow> readyAll {leasePhaseReloading} rs m) E"
      by (rule triple_try) (simp add: saved)
    then show "triple ?P (bindR (tryR (stageDurably bd ?f)) (\<lambda>x. retR (case x of
          Inl e \<Rightarrow> failWhere (\<lambda>r. ir_pending r \<and> ir_revert r) e rs | Inr _ \<Rightarrow> rs))) (\<lambda>rs'. readyAll {leasePhaseReloading} rs') E"
      by (rule triple_bind) (use failed in \<open>auto intro!: triple_ret split: sum.splits\<close>)
  qed
qed

lemma removeInactive_keeps: "triple (rec_inv {}) (removeInactive bd rs) (\<lambda>_. rec_inv {}) (\<lambda>_. rec_inv {})"
proof -
  have "keeps (rec_inv {}) (removeUnitLeasesDurably bd us)" for us
    unfolding removeUnitLeasesDurably_def
    by (rule triple_weaken [OF stageDurably_triple [where P = "rec_inv {}" and J = "{}" and J' = "{}" and Q = "\<lambda>_. True"]])
      (use removeUnitLeases_base in \<open>auto dest: rec_invD(2)\<close>)
  then show ?thesis
    unfolding removeInactive_def Let_def
    by (intro triple_if keeps_bind keeps_try keeps_case_sum keeps_simple triple_write) simp_all
qed

lemma reloadInactive_keeps:
  "triple (readyAll {leasePhaseReloading} rs) (reloadInactive bd rs) (\<lambda>_. rec_inv {}) (\<lambda>_. rec_inv {})"
proof (cases "pendingInactive rs = []")
  case True
  then show ?thesis by (auto simp: reloadInactive_def readyAll_def intro: triple_ret)
next
  case False
  then obtain r where r: "r \<in> set rs" "ir_pending r" by (auto simp: pendingInactive_def filter_empty_conv)
  have reloaded: "triple (readyAll {leasePhaseReloading} rs) (reload bd) (\<lambda>_. rec_inv {}) (\<lambda>_. rec_inv {})"
    by (rule reload_keeps [where u = "ir_unit r"]) (use r in \<open>auto simp: readyAll_def ready_def inPhase_def split: if_splits\<close>)
  have checked: "keeps (rec_inv {}) (checkInactive bd r)" for r
    unfolding checkInactive_def by (intro triple_if keeps_bind keeps_try keeps_simple look [OF _ looksKeep_rec] emits_disk)
  show ?thesis
    using False unfolding reloadInactive_def
    by (simp add: triple_bind [OF reloaded] triple_case_option triple_ret keeps_bind keeps_map checked removeInactive_keeps)
qed

lemma recoverInactiveUnits_keeps:
  assumes "distinct us"
  shows "keeps (rec_inv {}) (recoverInactiveUnits bd us)"
proof -
  have prepare: "triple (rec_inv {}) (mapR (prepareInactiveRecovery bd) us) (\<lambda>rs. readyAll beforeRevert rs) (\<lambda>_. rec_inv {})"
    by (rule triple_weaken [OF prepareAll_keeps [OF assms, where rs = "[]" and E = "\<lambda>_. rec_inv {}"]]) simp_all
  have "triple (readyAll beforeRevert rs) (finishInactiveRecoveries bd rs) (\<lambda>_. rec_inv {}) (\<lambda>_. rec_inv {})" for rs
    unfolding finishInactiveRecoveries_def
    by (intro triple_bind [OF stageInactive_keeps] triple_bind [OF outcomes_triple [OF revertInactive_keeps]]
        triple_bind [OF reloadingInactive_keeps] reloadInactive_keeps)
  then show ?thesis
    unfolding recoverInactiveUnits_def by (intro triple_bind [OF prepare] triple_bind triple_ret)
qed

section \<open>The passes\<close>

lemma readUnit_name: "triple P (readUnit bd u path) (\<lambda>s _. ui_Name (us_Identity s) = u) (\<lambda>_ _. True)"
proof (rule tripleI)
  fix m s m' assume "readUnit bd u path m = (Inr s, m')"
  then obtain up sp k i where "parseUnitIdentity u path up sp k = Inr i" "us_Identity s = i"
    unfolding readUnit_def bindR_Inr by (auto simp: liftR_def checkR_def retR_def failR_def split: if_splits)
  moreover have "ui_Name i = u" if "parseUnitIdentity u path up sp k = Inr i" for up sp k i
    using that by (auto simp: parseUnitIdentity_def Let_def split: if_splits option.splits dbus.splits)
  ultimately show "ui_Name (us_Identity s) = u" by blast
qed simp

lemma readUnit_named:
  assumes "looksKeep P"
  shows "triple P (readUnit bd u path) (\<lambda>s m. P m \<and> ui_Name (us_Identity s) = u) (\<lambda>_. P)"
  by (rule triple_weaken [OF triple_conj [OF look [OF emits_readUnit assms] readUnit_name [where P = P]]]) auto

lemma reconcileUnit_keeps: "ui_Name (us_Identity current) = u \<Longrightarrow> keeps (rec_inv {}) (reconcileUnit bd u current)"
  unfolding reconcileUnit_def by (intro keeps_bind triple_if keeps_simple looked recoverActive_keeps)

lemma recoverUnit_keeps:
  assumes recover: "\<And>current. ui_Name (us_Identity current) = u \<Longrightarrow> keeps (rec_inv {}) (recover u current)"
  shows "keeps (rec_inv {}) (recoverUnit bd recover active u)"
proof -
  have restoring: "triple (\<lambda>m. rec_inv {} m \<and> phaseOf m u = phase) (bindR (tryR (recoverActiveRestore bd u path)) (\<lambda>r. retR (h r)))
     (\<lambda>_. rec_inv {}) (\<lambda>_. rec_inv {})" if "phase = leasePhaseRestoring \<or> phase = leasePhaseReloading" for phase path and h :: "adapter_error + unit \<Rightarrow> pass_outcome"
    by (rule triple_bind [OF triple_try triple_ret], rule triple_pre [OF recoverActiveRestore_keeps]) (use that in auto)
  have named: "triple (rec_inv {}) (tryR (readUnit bd u path))
      (\<lambda>r m. case r of Inl _ \<Rightarrow> rec_inv {} m | Inr s \<Rightarrow> rec_inv {} m \<and> ui_Name (us_Identity s) = u) (\<lambda>_. rec_inv {})" for path
    by (rule triple_try) (simp add: readUnit_named [OF looksKeep_rec])
  have current: "triple (rec_inv {}) (bindR (tryR (readUnit bd u path)) (\<lambda>r. case r of
                Inl e \<Rightarrow> retR (g e)
              | Inr current \<Rightarrow> bindR (tryR (recover u current)) (\<lambda>r. retR (h r)))) (\<lambda>_. rec_inv {}) (\<lambda>_. rec_inv {})"
    for path g and h :: "adapter_error + unit \<Rightarrow> pass_outcome"
  proof (rule triple_bind [OF named])
    fix r :: "adapter_error + unit_snapshot"
    show "triple (\<lambda>m. case r of Inl _ \<Rightarrow> rec_inv {} m | Inr s \<Rightarrow> rec_inv {} m \<and> ui_Name (us_Identity s) = u)
      (case r of Inl e \<Rightarrow> retR (g e) | Inr current \<Rightarrow> bindR (tryR (recover u current)) (\<lambda>r. retR (h r))) (\<lambda>_. rec_inv {}) (\<lambda>_. rec_inv {})"
      by (cases r) (simp_all add: keeps_simple triple_const keeps_bind keeps_try recover)
  qed
  have pass: "keeps (rec_inv {}) (bindR (readR (\<lambda>m. phaseOf m u)) (\<lambda>phase.
            if phase = leasePhaseRestoring \<or> phase = leasePhaseReloading then
              bindR (tryR (recoverActiveRestore bd u path)) (\<lambda>r. retR (h r))
            else
              bindR (tryR (readUnit bd u path)) (\<lambda>r. case r of
                Inl e \<Rightarrow> retR (g e)
              | Inr current \<Rightarrow> bindR (tryR (recover u current)) (\<lambda>r. retR (h r)))))" for path g and h :: "adapter_error + unit \<Rightarrow> pass_outcome"
    by (rule triple_bind [OF triple_read [where Q = "\<lambda>phase m. rec_inv {} m \<and> phaseOf m u = phase"]], simp,
        rule triple_if, erule restoring, rule triple_pre [OF current]) simp
  show ?thesis unfolding recoverUnit_def by (rule keeps_case_option [OF keeps_simple(1) pass])
qed

lemma recoverUnits_keeps:
  assumes "\<And>u current. ui_Name (us_Identity current) = u \<Longrightarrow> keeps (rec_inv {}) (recover u current)" "distinct us"
  shows "triple (rec_inv {}) (recoverUnits bd b recover active us)
     (\<lambda>(errors, inactive) m. rec_inv {} m \<and> distinct inactive \<and> set inactive \<subseteq> set us) (\<lambda>_. rec_inv {})"
  using assms(2)
proof (induction us)
  case (Cons u us)
  let ?Q = "\<lambda>us (errors, inactive) m. rec_inv {} m \<and> distinct inactive \<and> set inactive \<subseteq> set us"
  have IH: "triple (rec_inv {}) (recoverUnits bd b recover active us) (?Q us) (\<lambda>_. rec_inv {})" using Cons by simp
  have unblock: "keeps (rec_inv {}) (if b then writeR (\<lambda>m. m\<lparr> blocked := AList.delete u (blocked m) \<rparr>) else retR ())"
    by (intro triple_if triple_write triple_ret) simp_all
  have mark: "keeps (rec_inv {}) (case outcome of PassFailed e \<Rightarrow> writeR (recordRecoveryConflict u e) | _ \<Rightarrow> retR ())" for outcome
    by (cases outcome) (simp_all add: keeps_simple triple_write)
  have last: "triple (?Q us x) (case x of (errors, inactive) \<Rightarrow> retR (case outcome of
         PassDone \<Rightarrow> (errors, inactive) | PassFailed e \<Rightarrow> (e # errors, inactive) | PassInactive \<Rightarrow> (errors, u # inactive)))
      (?Q (u # us)) (\<lambda>_. rec_inv {})" for x outcome
    using Cons.prems by (cases x; cases outcome) (auto intro!: triple_ret)
  show ?case
    unfolding recoverUnits.simps
    by (rule triple_bind [OF unblock triple_bind [OF recoverUnit_keeps [OF assms(1)] triple_bind [OF mark triple_bind [OF IH last]]]])
qed (auto intro: triple_ret)

lemma ReconcileOwned_keeps: "keeps adapter_inv (ReconcileOwned bd)"
proof -
  have opened: "keeps (rec_inv {}) (requireOpen op)" for op by (rule looked)
  have listed: "keeps (rec_inv {}) (listUserSlices bd op)" for op
    by (rule look [OF _ looksKeep_rec]) (simp add: listUserSlices_def emits_call)
  have units: "triple (rec_inv {}) (readR (\<lambda>m. sort (remdups (map fst (phases m))))) (\<lambda>us m. rec_inv {} m \<and> distinct us) (\<lambda>_. rec_inv {})"
    by (rule triple_read) simp
  have rest: "triple (case x of (errors, inactive) \<Rightarrow> \<lambda>m. rec_inv {} m \<and> distinct inactive \<and> set inactive \<subseteq> set us)
     (case x of (errors, inactive) \<Rightarrow> bindR (recoverInactiveUnits bd inactive) (\<lambda>outcomes.
       bindR (writeR (recordFailures (zip inactive outcomes))) (\<lambda>_. retR (errors @ List.map_filter id outcomes))))
     (\<lambda>_. rec_inv {}) (\<lambda>_. rec_inv {})" for x us
    by (cases x) (auto intro!: triple_const keeps_bind recoverInactiveUnits_keeps triple_write triple_ret)
  have pass: "triple (\<lambda>m. rec_inv {} m \<and> distinct us) (recoverUnits bd True (reconcileUnit bd) active us)
     (\<lambda>(errors, inactive) m. rec_inv {} m \<and> distinct inactive \<and> set inactive \<subseteq> set us) (\<lambda>_. rec_inv {})" for us active
    by (rule triple_const, rule recoverUnits_keeps) (rule reconcileUnit_keeps)
  show ?thesis
    unfolding ReconcileOwned_def rec_inv_empty [symmetric]
    by (intro triple_bind [OF opened] triple_bind [OF listed] triple_bind [OF units] triple_bind [OF pass rest])
qed

section \<open>Restart\<close>

text \<open>What an import leaves in memory is what the journal says.\<close>

definition imported :: "durable_unit_lease set \<Rightarrow> machine \<Rightarrow> bool" where
  "imported U m \<longleftrightarrow>
     distinct (map fst (leases m)) \<and>
     (\<forall>(k, s) \<in> set (leases m). fst k \<in> fst ` set (overrides m) \<and>
        (\<exists>u \<in> U. ui_Name (fst k) = du_Unit u \<and> (\<exists>p \<in> set (du_Properties u). snd k = dp_Property p \<and> s = propertyFromDurable p))) \<and>
     (\<forall>v. phaseOf m v \<noteq> [] \<longrightarrow> v \<in> ui_Name ` fst ` set (overrides m)) \<and>
     (\<forall>i \<in> fst ` set (overrides m). \<exists>u \<in> U. du_Unit u = ui_Name i \<and> phaseOf m (ui_Name i) = du_Phase u)"

lemma imported_leases:
  "distinct (map fst ls) \<Longrightarrow> distinct (map fst (fold (\<lambda>p. AList.update (i, dp_Property p) (propertyFromDurable p)) ps ls))"
  "(k, s) \<in> set (fold (\<lambda>p. AList.update (i, dp_Property p) (propertyFromDurable p)) ps ls) \<Longrightarrow>
     (k, s) \<in> set ls \<or> (\<exists>p \<in> set ps. k = (i, dp_Property p) \<and> s = propertyFromDurable p)"
  by (induction ps arbitrary: ls) (auto simp: distinct_update dest!: subsetD [OF set_update_subset])

lemma importUnit_imported:
  assumes m: "imported U m" and run: "importUnit u m = Some m'" and u: "u \<in> U"
  shows "imported U m'" "trace m' = trace m"
proof -
  obtain i ov where i: "ui_Name i = du_Unit u"
    and m': "m' = m\<lparr> overrides := AList.update i ov (overrides m), phases := AList.update (du_Unit u) (du_Phase u) (phases m),
      leases := fold (\<lambda>p. AList.update (i, dp_Property p) (propertyFromDurable p)) (du_Properties u) (leases m) \<rparr>"
  proof -
    obtain i where i: "identityFromDurable (du_Unit u) (du_Identity u) = Some i" using run by (auto simp: importUnit_def split: option.splits)
    then have "ui_Name i = du_Unit u" by (auto simp: identityFromDurable_def split: option.splits if_splits)
    then show ?thesis by (rule that [of _ "importedOverride u"]) (use run i in \<open>auto simp: importUnit_def importedOverride_def\<close>)
  qed
  have dom: "fst ` set (overrides m') = insert i (fst ` set (overrides m))" by (simp add: m' dom_update)
  have phase: "phaseOf m' v = (if v = du_Unit u then du_Phase u else phaseOf m v)" for v by (simp add: m' phaseOf_def update_conv')
  show "trace m' = trace m" by (simp add: m')
  have lease: "fst k \<in> fst ` set (overrides m') \<and> (\<exists>u \<in> U. ui_Name (fst k) = du_Unit u \<and> (\<exists>p \<in> set (du_Properties u). snd k = dp_Property p \<and> s = propertyFromDurable p))"
    if "(k, s) \<in> set (leases m')" for k s
  proof -
    have "(k, s) \<in> set (leases m) \<or> (\<exists>p \<in> set (du_Properties u). k = (i, dp_Property p) \<and> s = propertyFromDurable p)"
      using that imported_leases(2) [of k s i "du_Properties u" "leases m"] by (simp add: m')
    then show ?thesis
    proof
      assume "(k, s) \<in> set (leases m)"
      then show ?thesis using m unfolding imported_def dom by fastforce
    next
      assume "\<exists>p \<in> set (du_Properties u). k = (i, dp_Property p) \<and> s = propertyFromDurable p"
      then show ?thesis using i u unfolding dom by (intro conjI bexI [of _ u]) auto
    qed
  qed
  have "distinct (map fst (leases m'))" using m imported_leases(1) [of "leases m" i "du_Properties u"] by (simp add: m' imported_def)
  moreover have "v \<in> ui_Name ` fst ` set (overrides m')" if "phaseOf m' v \<noteq> []" for v
    using m that i unfolding imported_def dom by (auto simp: phase split: if_splits)
  moreover have "\<exists>u \<in> U. du_Unit u = ui_Name j \<and> phaseOf m' (ui_Name j) = du_Phase u" if "j \<in> fst ` set (overrides m')" for j
    using m that i u unfolding imported_def dom by (auto simp: phase)
  ultimately show "imported U m'" using lease unfolding imported_def by blast
qed

lemma importUnits_imported:
  "imported U m \<Longrightarrow> importUnits us m = Some m' \<Longrightarrow> set us \<subseteq> U \<Longrightarrow> imported U m' \<and> trace m' = trace m"
proof (induction us arbitrary: m)
  case (Cons u us)
  obtain m1 where m1: "importUnit u m = Some m1" "importUnits us m1 = Some m'" using Cons.prems(2) by (auto split: option.splits)
  then show ?case using importUnit_imported [OF Cons.prems(1) m1(1)] Cons.IH [of m1] Cons.prems(3) by auto
qed simp

text \<open>A valid journal permits what memory holds after its import.\<close>

lemma imported_inv:
  assumes "imported (set (dj_Units j)) m" "lastSaved (trace m) = Some j" "writeAhead (trace m)" "validateDurableLeaseJournal fits j"
  shows "rec_inv {} m"
proof -
  have valid: "validDurableUnit fits u" if "u \<in> set (dj_Units j)" for u
    using that assms(4) by (simp add: validateDurableLeaseJournal_def list_all_iff)
  have unit: "\<exists>u \<in> set (dj_Units j). du_Unit u = v \<and> du_Phase u = phaseOf m v" if "phaseOf m v \<noteq> []" for v
    using assms(1) that unfolding imported_def by (metis (no_types, lifting) imageE)
  have phases: "ph \<noteq> []" if "ph \<in> {leasePhaseRestoring, leasePhaseReloading}" for ph using that by (auto simp: lease_phases)
  have uncertain: "list_all dp_Uncertain (du_Properties u)" if "u \<in> set (dj_Units j)" "du_Phase u = leasePhaseRestoring" for u
  proof -
    have "length (filter dp_Uncertain (du_Properties u)) = length (du_Properties u)"
      using valid [OF that(1)] that(2) by (simp add: validDurableUnit_def Let_def)
    then show ?thesis by (metis length_filter_less list_all_iff nat_less_le)
  qed
  have revert: "permittedRevert (trace m) v" if "phaseOf m v = leasePhaseRestoring" for v
    using unit [of v] phases [of leasePhaseRestoring] uncertain that assms(2) unfolding permittedRevert_def by fastforce
  have reload: "permittedReload (trace m)" if "phaseOf m v \<in> {leasePhaseRestoring, leasePhaseReloading}" for v
    using unit [of v] phases [OF that] that assms(2) unfolding permittedReload_def by metis
  have lease: "pl_Property (ls_lease s) = snd k \<and> fst k \<in> fst ` set (overrides m) \<and>
      (ls_pendingIOWeightResets s = [] \<or> permittedReset (trace m) (ui_Name (fst k)) (ls_pendingIOWeightResets s))"
    if "(k, s) \<in> set (leases m)" for k s
  proof -
    obtain u p where u: "u \<in> set (dj_Units j)" "ui_Name (fst k) = du_Unit u" "p \<in> set (du_Properties u)" "snd k = dp_Property p"
      "s = propertyFromDurable p" "fst k \<in> fst ` set (overrides m)"
    proof -
      have "\<forall>(k, s) \<in> set (leases m). fst k \<in> fst ` set (overrides m) \<and> (\<exists>u \<in> set (dj_Units j). ui_Name (fst k) = du_Unit u \<and>
          (\<exists>p \<in> set (du_Properties u). snd k = dp_Property p \<and> s = propertyFromDurable p))" using assms(1) by (simp add: imported_def)
      from bspec [OF this \<open>(k, s) \<in> set (leases m)\<close>] that show ?thesis by auto
    qed
    have "validDurableProperty fits (du_Phase u) p"
      using valid [OF u(1)] u(3) by (simp add: validDurableUnit_def Let_def list_all_iff)
    then have "permittedReset (trace m) (du_Unit u) (dp_PendingIODeviceWeightResets p)" if "dp_PendingIODeviceWeightResets p \<noteq> []"
      using that u(1,3) assms(2) by (auto simp: permittedReset_def validDurableProperty_def)
    then show ?thesis using u by (auto simp: propertyFromDurable_def publicPropertyLease_def Let_def)
  qed
  have "covered m" using revert reload lease unfolding covered_def by blast
  moreover have "phase_ok m"
    using assms(1) valid unfolding phase_ok_def imported_def validDurableUnit_def Let_def by metis
  moreover have "phased m" using assms(1) phases unfolding phased_def imported_def by blast
  moreover have "leases_owned m" using assms(1) lease by (intro leases_ownedI) (auto simp: imported_def)
  ultimately show ?thesis using assms(3) by (simp add: rec_inv_def base_inv_def)
qed

lemma emptied_inv:
  "writeAhead (trace m) \<Longrightarrow> leases m = [] \<Longrightarrow> overrides m = [] \<Longrightarrow> phases m = [] \<Longrightarrow> rec_inv J m \<longleftrightarrow> J = {}"
  by (auto simp: rec_inv_def base_inv_def leases_owned_def phased_def phase_ok_def covered_def phaseOf_def lease_phases)

definition emptied :: "machine \<Rightarrow> bool" where
  "emptied m \<longleftrightarrow> writeAhead (trace m) \<and> leases m = [] \<and> overrides m = [] \<and> phases m = []"

lemma emptied_imported: "emptied m \<Longrightarrow> imported U m"
  by (simp add: emptied_def imported_def phaseOf_def)

lemma loadJournal_keeps:
  "triple emptied (loadJournal bd)
     (\<lambda>j m. emptied m \<and> lastSaved (trace m) = Some j \<and> validateDurableLeaseJournal (bd_devFits bd) j) (\<lambda>_. rec_inv {})"
proof (rule tripleI)
  fix m j m' assume m: "emptied m" and "loadJournal bd m = (Inr j, m')"
  then have "m' = emit (CallLoad (Some j)) m" "validateDurableLeaseJournal (bd_devFits bd) j"
    by (auto simp: loadJournal_def callR_def Let_def Option.bind_eq_Some_conv split: option.splits if_splits)
  then show "emptied m' \<and> lastSaved (trace m') = Some j \<and> validateDurableLeaseJournal (bd_devFits bd) j"
    using m by (simp add: emptied_def emit_def)
next
  fix m e m' assume m: "emptied m" and "loadJournal bd m = (Inl e, m')"
  then have "m' = emit (CallLoad None) m" by (auto simp: loadJournal_def callR_def Let_def split: option.splits)
  then show "rec_inv {} m'" using m by (simp add: emptied_def emit_def emptied_inv)
qed

lemma loadAndReconcile_keeps: "triple emptied (loadAndReconcile bd) (\<lambda>_. rec_inv {}) (\<lambda>_. rec_inv {})"
proof -
  have listed: "keeps (rec_inv {}) (listUserSlices bd op)" for op
    by (rule look [OF _ looksKeep_rec]) (simp add: listUserSlices_def emits_call)
  have rest: "triple (case x of (errors, inactive) \<Rightarrow> \<lambda>m. rec_inv {} m \<and> distinct inactive \<and> set inactive \<subseteq> set us)
     (case x of (_, inactive) \<Rightarrow> bindR (recoverInactiveUnits bd inactive) (\<lambda>outcomes. writeR (recordFailures (zip inactive outcomes))))
     (\<lambda>_. rec_inv {}) (\<lambda>_. rec_inv {})" for x us
    by (cases x) (auto intro!: triple_const keeps_bind recoverInactiveUnits_keeps triple_write)
  have pass: "triple (rec_inv {}) (bindR (listUserSlices bd ''recover_discover'') (\<lambda>listed.
           bindR (recoverUnits bd False (recoverActive bd) (activeUnits listed) (map du_Unit (dj_Units j))) (\<lambda>(_, inactive).
           bindR (recoverInactiveUnits bd inactive) (\<lambda>outcomes. writeR (recordFailures (zip inactive outcomes))))))
     (\<lambda>_. rec_inv {}) (\<lambda>_. rec_inv {})" if "validateDurableLeaseJournal (bd_devFits bd) j" for j
  proof (rule triple_bind [OF listed triple_bind [OF recoverUnits_keeps rest]])
    show "distinct (map du_Unit (dj_Units j))" using that by (simp add: validateDurableLeaseJournal_def)
  qed (rule recoverActive_keeps)
  let ?L = "\<lambda>j m. emptied m \<and> lastSaved (trace m) = Some j \<and> validateDurableLeaseJournal (bd_devFits bd) j"
  let ?I = "\<lambda>j x m. case x of None \<Rightarrow> rec_inv {} m | Some m1 \<Rightarrow> rec_inv {} m1 \<and> validateDurableLeaseJournal (bd_devFits bd) j"
  have numbered: "triple (?L j) (writeR (\<lambda>m. m\<lparr> generation := dj_Generation j \<rparr>)) (\<lambda>_. ?L j) (\<lambda>_. rec_inv {})" for j
    by (rule triple_write) (simp add: emptied_def)
  have imported: "triple (?L j) (readR (importJournal j)) (?I j) (\<lambda>_. rec_inv {})" for j
  proof (rule triple_read)
    fix m assume m: "?L j m"
    show "?I j (importJournal j m) m"
    proof (cases "importJournal j m")
      case None
      then show ?thesis using m by (simp add: emptied_def emptied_inv)
    next
      case (Some m1)
      then have "imported (set (dj_Units j)) m1" "trace m1 = trace m"
        using importUnits_imported [of "set (dj_Units j)" m "dj_Units j" m1] emptied_imported m by (auto simp: importJournal_def)
      then have "rec_inv {} m1" using imported_inv [of j m1 "bd_devFits bd"] m by (simp add: emptied_def)
      then show ?thesis using Some m by simp
    qed
  qed
  have finish: "triple (?I j x) (case x of
       None \<Rightarrow> failR (leaseStoreError ''load'')
     | Some m \<Rightarrow>
         bindR (writeR (\<lambda>_. m)) (\<lambda>_.
         if dj_Units j = [] then retR ()
         else
           bindR (listUserSlices bd ''recover_discover'') (\<lambda>listed.
           bindR (recoverUnits bd False (recoverActive bd) (activeUnits listed) (map du_Unit (dj_Units j))) (\<lambda>(_, inactive).
           bindR (recoverInactiveUnits bd inactive) (\<lambda>outcomes.
           writeR (recordFailures (zip inactive outcomes)))))))
     (\<lambda>_. rec_inv {}) (\<lambda>_. rec_inv {})" for j x
  proof (cases x)
    case (Some m)
    have "triple (\<lambda>_. rec_inv {} m \<and> validateDurableLeaseJournal (bd_devFits bd) j)
      (writeR (\<lambda>_. m)) (\<lambda>_ m. rec_inv {} m \<and> validateDurableLeaseJournal (bd_devFits bd) j) (\<lambda>_. rec_inv {})"
      by (rule triple_write) simp
    then show ?thesis unfolding Some option.case by (rule triple_bind) (intro triple_const triple_if keeps_simple pass)
  qed (auto intro: triple_fail)
  show ?thesis
    unfolding loadAndReconcile_def
    by (intro triple_bind [OF loadJournal_keeps] triple_bind [OF numbered] triple_bind [OF imported finish])
qed

lemma newAdapter_keeps: "keeps adapter_inv (newAdapter bd)"
  unfolding newAdapter_def rec_inv_empty [symmetric]
  by (rule triple_bind [OF triple_write loadAndReconcile_keeps]) (simp add: emptied_def rec_inv_def base_inv_def)

section \<open>Every history\<close>

text \<open>What a caller can do with the adapter; a restart is a new process with the journal of the old one.\<close>

datatype adapter_call =
    CallApply unit_identity "property_assignment list"
  | CallConfirmApplied unit_identity "property_assignment list"
  | CallRestoreProperties unit_identity "property_name list"
  | CallRestore unit_identity
  | CallRestoreUnits "unit_identity list"
  | CallReconcileOwned
  | CallClose
  | CallRestart

fun runCall :: "boundary \<Rightarrow> adapter_call \<Rightarrow> machine \<Rightarrow> machine" where
  "runCall bd (CallApply i as) m = snd (Apply bd i as m)"
| "runCall bd (CallConfirmApplied i as) m = snd (ConfirmApplied bd i as m)"
| "runCall bd (CallRestoreProperties i ps) m = snd (RestoreProperties bd i ps m)"
| "runCall bd (CallRestore i) m = snd (Restore bd i m)"
| "runCall bd (CallRestoreUnits is) m = snd (RestoreUnits bd is m)"
| "runCall bd CallReconcileOwned m = snd (ReconcileOwned bd m)"
| "runCall bd CallClose m = Close m"
| "runCall bd CallRestart m = snd (newAdapter bd m)"

definition newMachine :: machine where
  "newMachine = \<lparr> leases = [], overrides = [], phases = [], generation = 0, recovery = [], blocked = [], closed = False, trace = [] \<rparr>"

lemma runCall_inv: "adapter_inv m \<Longrightarrow> adapter_inv (runCall bd c m)"
proof (cases c)
  case CallClose
  then show "adapter_inv m \<Longrightarrow> ?thesis" by (simp add: Close_def adapter_inv_def)
qed (simp_all add: keeps_run [OF Apply_keeps] keeps_run [OF ConfirmApplied_keeps] keeps_run [OF RestoreProperties_keeps]
    keeps_run [OF Restore_keeps] keeps_run [OF RestoreUnits_keeps] keeps_run [OF ReconcileOwned_keeps] keeps_run [OF newAdapter_keeps])

lemma runCalls_inv: "adapter_inv m \<Longrightarrow> adapter_inv (fold (runCall bd) cs m)"
  by (induction cs arbitrary: m) (simp_all add: runCall_inv)

text \<open>
  Property C1: whatever systemd, the unit files, the kernel and the disk answer, in every history of
  operations, failures and restarts no call changes systemd, a unit's files or a kernel file before
  the journal that announces it was saved: values are set only when the saved journal has the unit
  in the applying phase with the value last read as the previous one and the value set as the next one;
  files are reverted only in the restoring phase, systemd is reloaded only while a unit is restored,
  and device weights are reset only as recorded.
\<close>

theorem write_ahead_kept: "writeAhead (trace (fold (runCall bd) cs newMachine))"
proof -
  have "adapter_inv newMachine" by (simp add: adapter_inv_def newMachine_def emptied_inv)
  from runCalls_inv [OF this] show ?thesis by (simp add: adapter_inv_def rec_inv_def base_inv_def)
qed

end
