(* ===== verification/Go_Numeric.thy ===== *)
theory Go_Numeric
  imports Resman_Prelude
begin

text \<open>
  The parts of Go's numeric run time that the control loop computes with.

  \<^item> \<open>f64\<close> is \<^verbatim>\<open>float64\<close>: IEEE 754 binary64 with rounding to nearest, ties to even, gradual
    underflow, overflow to an infinity and unordered NaN. Finite values are rationals. The sign
    of a zero is not kept: it can only be seen by dividing by it, and no modelled expression
    divides by a zero.
  \<^item> \<open>gotime\<close> is \<^verbatim>\<open>time.Time\<close>: \<open>None\<close> is the zero time (year 1), \<open>Some t\<close> an instant in
    nanoseconds. \<^verbatim>\<open>time.Duration\<close> is an int64 number of nanoseconds: \<open>goSub\<close> saturates as
    \<^verbatim>\<open>Time.Sub\<close> does, products wrap.

  The main facts: rounding is monotone and exact on integers up to \<open>2^53\<close>, so a comparison of a
  rounded quotient with a configured percentage errs in one known direction only.
\<close>

section \<open>Rounding to binary64\<close>

text \<open>The number of binary digits of a natural number given as an integer.\<close>

function blen :: "int \<Rightarrow> int" where
  "blen n = (if n \<le> 0 then 0 else 1 + blen (n div 2))"
  by auto
termination by (relation "measure nat") auto

declare blen.simps [simp del]

text \<open>The exponent \<open>e\<close> with \<open>2^e \<le> q < 2^(e+1)\<close> of a positive rational.\<close>

definition expo :: "rat \<Rightarrow> int" where
  "expo q = (case quotient_of q of (a, b) \<Rightarrow>
     let e = blen a - blen b in if 2 powi e \<le> q then e else e - 1)"

definition roundEven :: "rat \<Rightarrow> int" where
  "roundEven q =
     (let f = \<lfloor>q\<rfloor>; d = q - of_int f
      in if d < 1 / 2 then f else if d > 1 / 2 then f + 1 else if even f then f else f + 1)"

text \<open>The unit in the last place of a value: 53 significant bits, subnormals below \<open>2^-1022\<close>.\<close>

definition ulp :: "rat \<Rightarrow> rat" where
  "ulp q = 2 powi (max (expo \<bar>q\<bar>) (- 1022) - 52)"

definition rnd :: "rat \<Rightarrow> rat" where
  "rnd q = (if q = 0 then 0 else of_int (roundEven (q / ulp q)) * ulp q)"

datatype f64 = Fin rat | PosInf | NegInf | NaN

definition fl :: "rat \<Rightarrow> f64" where
  "fl q = (let r = rnd q in
     if r \<ge> 2 ^ 1024 then PosInf else if r \<le> - (2 ^ 1024) then NegInf else Fin r)"

section \<open>Arithmetic and comparison\<close>

definition f_zero :: f64 where "f_zero = Fin 0"

text \<open>\<^verbatim>\<open>float64(i)\<close> for an \<^verbatim>\<open>int\<close> or \<^verbatim>\<open>uint64\<close>.\<close>

definition f_of_int :: "int \<Rightarrow> f64" where "f_of_int i = fl (of_int i)"
definition f_of_u64 :: "u64 \<Rightarrow> f64" where "f_of_u64 w = fl (of_nat (unat w))"

text \<open>The infinity with the sign of a non-zero rational.\<close>

definition f_inf :: "rat \<Rightarrow> f64" where
  "f_inf s = (if s > 0 then PosInf else if s < 0 then NegInf else NaN)"

fun f_add :: "f64 \<Rightarrow> f64 \<Rightarrow> f64" where
  "f_add (Fin a) (Fin b) = fl (a + b)"
| "f_add NaN y = NaN"
| "f_add x NaN = NaN"
| "f_add PosInf NegInf = NaN"
| "f_add NegInf PosInf = NaN"
| "f_add (Fin a) y = y"
| "f_add x y = x"

fun f_neg :: "f64 \<Rightarrow> f64" where
  "f_neg (Fin a) = Fin (- a)"
| "f_neg PosInf = NegInf"
| "f_neg NegInf = PosInf"
| "f_neg NaN = NaN"

definition f_sub :: "f64 \<Rightarrow> f64 \<Rightarrow> f64" where "f_sub x y = f_add x (f_neg y)"

text \<open>The sign of a value that is not a NaN, as a rational.\<close>

fun f_sgn :: "f64 \<Rightarrow> rat" where
  "f_sgn (Fin a) = sgn a"
| "f_sgn PosInf = 1"
| "f_sgn NegInf = - 1"
| "f_sgn NaN = 0"

fun f_mul :: "f64 \<Rightarrow> f64 \<Rightarrow> f64" where
  "f_mul (Fin a) (Fin b) = fl (a * b)"
| "f_mul x y = f_inf (f_sgn x * f_sgn y)"

fun f_div :: "f64 \<Rightarrow> f64 \<Rightarrow> f64" where
  "f_div (Fin a) (Fin b) = (if b = 0 then f_inf (sgn a) else fl (a / b))"
| "f_div NaN y = NaN"
| "f_div x NaN = NaN"
| "f_div (Fin a) y = Fin 0"
| "f_div x (Fin b) = f_inf (f_sgn x * (if b < 0 then - 1 else 1))"
| "f_div x y = NaN"

text \<open>Go's \<^verbatim>\<open><\<close>, \<^verbatim>\<open>>=\<close> and \<^verbatim>\<open>==\<close> on floats: every comparison with a NaN is false.\<close>

fun f_lt :: "f64 \<Rightarrow> f64 \<Rightarrow> bool" where
  "f_lt (Fin a) (Fin b) \<longleftrightarrow> a < b"
| "f_lt NaN y \<longleftrightarrow> False"
| "f_lt x NaN \<longleftrightarrow> False"
| "f_lt NegInf y \<longleftrightarrow> y \<noteq> NegInf"
| "f_lt x PosInf \<longleftrightarrow> x \<noteq> PosInf"
| "f_lt x y \<longleftrightarrow> False"

definition f_eq :: "f64 \<Rightarrow> f64 \<Rightarrow> bool" where
  "f_eq x y \<longleftrightarrow> x = y \<and> x \<noteq> NaN"

definition f_le :: "f64 \<Rightarrow> f64 \<Rightarrow> bool" where
  "f_le x y \<longleftrightarrow> f_lt x y \<or> f_eq x y"

abbreviation (input) f_ge :: "f64 \<Rightarrow> f64 \<Rightarrow> bool" where "f_ge x y \<equiv> f_le y x"
abbreviation (input) f_gt :: "f64 \<Rightarrow> f64 \<Rightarrow> bool" where "f_gt x y \<equiv> f_lt y x"

section \<open>Times and durations\<close>

type_synonym gotime = "int option"

definition maxDuration :: int where "maxDuration = 9223372036854775807"
definition minDuration :: int where "minDuration = - 9223372036854775808"

text \<open>\<^verbatim>\<open>t.Sub(u)\<close>: the distance from the zero time is beyond the range of a duration.\<close>

definition goSub :: "gotime \<Rightarrow> gotime \<Rightarrow> int" where
  "goSub t u = (case (t, u) of
     (None, None) \<Rightarrow> 0
   | (Some a, None) \<Rightarrow> maxDuration
   | (None, Some b) \<Rightarrow> minDuration
   | (Some a, Some b) \<Rightarrow> max minDuration (min maxDuration (a - b)))"

definition goBefore :: "gotime \<Rightarrow> gotime \<Rightarrow> bool" where
  "goBefore t u \<longleftrightarrow> (case (t, u) of
     (_, None) \<Rightarrow> False | (None, Some b) \<Rightarrow> True | (Some a, Some b) \<Rightarrow> a < b)"

abbreviation (input) goAfter :: "gotime \<Rightarrow> gotime \<Rightarrow> bool" where "goAfter t u \<equiv> goBefore u t"

text \<open>An int64 product, with its wrap-around.\<close>

definition wrap64 :: "int \<Rightarrow> int" where
  "wrap64 i = signed_take_bit 63 i"

text \<open>Go's integer division truncates towards zero.\<close>

definition goQuot :: "int \<Rightarrow> int \<Rightarrow> int" where
  "goQuot a b = sgn a * sgn b * (\<bar>a\<bar> div \<bar>b\<bar>)"

definition goRem :: "int \<Rightarrow> int \<Rightarrow> int" where
  "goRem a b = a - goQuot a b * b"

definition seconds :: "int \<Rightarrow> int" where
  "seconds n = wrap64 (n * 1000000000)"

lemma wrap64_small [simp]: "minDuration \<le> i \<Longrightarrow> i \<le> maxDuration \<Longrightarrow> wrap64 i = i"
  by (simp add: wrap64_def minDuration_def maxDuration_def signed_take_bit_int_eq_self_iff)

lemma goSub_Some [simp]:
  "minDuration \<le> a - b \<Longrightarrow> a - b \<le> maxDuration \<Longrightarrow> goSub (Some a) (Some b) = a - b"
  by (simp add: goSub_def)

section \<open>Facts about rounding\<close>

lemma powi_add_1: "(2::rat) powi (e + 1) = 2 * 2 powi e"
  by (simp add: power_int_add)

lemma powi_mono: "i \<le> j \<Longrightarrow> (2::rat) powi i \<le> 2 powi j"
  by (rule power_int_increasing) auto

lemma powi_pos [simp]: "0 < (2::rat) powi e"
  by simp

lemma powi_of_nat_mult: "0 \<le> i \<Longrightarrow> (2::rat) powi i = of_int (2 ^ nat i)"
  by (simp add: power_int_def)

lemma blen_bounds: "0 < n \<Longrightarrow> 0 < blen n \<and> (2::int) ^ nat (blen n - 1) \<le> n \<and> n < 2 ^ nat (blen n)"
proof (induction n rule: blen.induct)
  case (1 n)
  show ?case
  proof (cases "n div 2 = 0")
    case True
    then have "n = 1" using 1(2) by auto
    then show ?thesis by (simp add: blen.simps)
  next
    case False
    then have p: "0 < n div 2" using 1(2) by linarith
    have IH: "0 < blen (n div 2)" "(2::int) ^ nat (blen (n div 2) - 1) \<le> n div 2"
      "n div 2 < 2 ^ nat (blen (n div 2))"
      using 1 p by auto
    obtain k where k: "blen (n div 2) = int k + 1" using IH(1) by (metis int_ops(2) zero_less_imp_eq_int of_nat_Suc add.commute gr0_implies_Suc of_nat_0_less_iff)
    have b: "blen n = int k + 2" using 1(2) k by (simp add: blen.simps)
    have "(2::int) ^ k \<le> n div 2" "n div 2 < 2 ^ (k + 1)" using IH k by (auto simp: nat_add_distrib)
    then show ?thesis using b by (auto simp: nat_add_distrib)
  qed
qed

lemma expo_bounds:
  assumes "0 < q"
  shows "2 powi expo q \<le> q \<and> q < 2 powi (expo q + 1)"
proof -
  obtain a b where ab: "quotient_of q = (a, b)" by fastforce
  have q: "q = of_int a / of_int b" by (rule quotient_of_div [OF ab])
  have b: "0 < b" by (rule quotient_of_denom_pos [OF ab])
  have a: "0 < a" using assms q b by (simp add: zero_less_divide_iff)
  obtain k where k: "blen a = int k + 1" using blen_bounds [OF a]
    by (metis add.commute gr0_implies_Suc of_nat_0_less_iff of_nat_Suc zero_less_imp_eq_int)
  obtain l where l: "blen b = int l + 1" using blen_bounds [OF b]
    by (metis add.commute gr0_implies_Suc of_nat_0_less_iff of_nat_Suc zero_less_imp_eq_int)
  have A: "(2::int) ^ k \<le> a" "a < 2 ^ (k + 1)" using blen_bounds [OF a] k by (auto simp: nat_add_distrib)
  have B: "(2::int) ^ l \<le> b" "b < 2 ^ (l + 1)" using blen_bounds [OF b] l by (auto simp: nat_add_distrib)
  have A': "(2::rat) ^ k \<le> of_int a" "of_int a < (2::rat) ^ (k + 1)"
    using A by (metis of_int_le_iff of_int_numeral of_int_power, metis of_int_less_iff of_int_numeral of_int_power)
  have B': "(2::rat) ^ l \<le> of_int b" "of_int b < (2::rat) ^ (l + 1)"
    using B by (metis of_int_le_iff of_int_numeral of_int_power, metis of_int_less_iff of_int_numeral of_int_power)
  have b0: "(0::rat) < of_int b" using b by simp
  let ?e = "int k - int l"
  have e: "(2::rat) powi ?e = 2 ^ k / 2 ^ l" by (simp add: power_int_diff)
  have up: "q < 2 powi (?e + 1)"
  proof -
    have "of_int a * 2 ^ l < (2::rat) ^ (k + 1) * of_int b"
      using mult_left_mono [OF B'(1), of "of_int a"] mult_strict_right_mono [OF A'(2) b0] a by linarith
    then show ?thesis unfolding powi_add_1 e q using b0 by (simp add: field_simps)
  qed
  have lo: "2 powi (?e - 1) \<le> q"
  proof -
    have "(2::rat) ^ k * of_int b \<le> of_int a * (2 * 2 ^ l)"
      by (rule mult_mono) (use A' B' b0 a in auto)
    moreover have h: "(2::rat) powi (?e - 1) = 2 ^ k / 2 ^ l / 2" using powi_add_1 [of "?e - 1"] e by simp
    ultimately show ?thesis unfolding h q using b0 by (simp add: field_simps)
  qed
  have "expo q = (if 2 powi ?e \<le> q then ?e else ?e - 1)" by (simp add: expo_def ab k l Let_def)
  then show ?thesis using up lo by (auto split: if_splits)
qed

lemma roundEven_near: "roundEven q = \<lfloor>q\<rfloor> \<or> roundEven q = \<lfloor>q\<rfloor> + 1"
  by (simp add: roundEven_def Let_def)

lemma roundEven_of_int [simp]: "roundEven (of_int i) = i"
  by (simp add: roundEven_def)

lemma roundEven_mono: "p \<le> q \<Longrightarrow> roundEven p \<le> roundEven q"
proof (cases "\<lfloor>p\<rfloor> = \<lfloor>q\<rfloor>")
  case True
  assume "p \<le> q"
  then show ?thesis using True by (auto simp: roundEven_def Let_def split: if_splits)
next
  case False
  assume "p \<le> q"
  then have "\<lfloor>p\<rfloor> + 1 \<le> \<lfloor>q\<rfloor>" using False floor_mono [of p q] by linarith
  then show ?thesis using roundEven_near [of p] roundEven_near [of q] by linarith
qed

lemma roundEven_neg: "roundEven (- q) = - roundEven q"
proof (cases "q = of_int \<lfloor>q\<rfloor>")
  case True
  then show ?thesis by (metis of_int_minus roundEven_of_int)
next
  case False
  then have f: "\<lfloor>- q\<rfloor> = - \<lfloor>q\<rfloor> - 1" by linarith
  show ?thesis unfolding roundEven_def Let_def f by (auto simp: field_simps)
qed

lemma roundEven_ge: "of_int i \<le> q \<Longrightarrow> i \<le> roundEven q"
  using roundEven_mono [of "of_int i" q] by simp

lemma roundEven_le: "q \<le> of_int i \<Longrightarrow> roundEven q \<le> i"
  using roundEven_mono [of q "of_int i"] by simp

lemma ulp_pos [simp]: "0 < ulp q"
  by (simp add: ulp_def)

lemma rnd_neg: "rnd (- q) = - rnd q"
  by (simp add: rnd_def ulp_def roundEven_neg)

lemma expo_mono:
  assumes "0 < p" "p \<le> q"
  shows "expo p \<le> expo q"
proof (rule ccontr)
  assume "\<not> expo p \<le> expo q"
  then have "(2::rat) powi (expo q + 1) \<le> 2 powi expo p" by (intro powi_mono) simp
  then show False using expo_bounds [of p] expo_bounds [of q] assms by linarith
qed

text \<open>A power of two at or above the unit in the last place is a multiple of it, so rounding does
  not cross it.\<close>

lemma powi_multiple:
  "k \<le> e \<Longrightarrow> (2::rat) powi e = of_int (2 ^ nat (e - k)) * 2 powi k"
proof -
  assume "k \<le> e"
  then have "(2::rat) powi (e - k) = of_int (2 ^ nat (e - k))" by (intro powi_of_nat_mult) simp
  then show "(2::rat) powi e = of_int (2 ^ nat (e - k)) * 2 powi k" by (metis power_int_add diff_add_cancel zero_neq_numeral)
qed

lemma rnd_le_powi:
  assumes "0 < q" "q \<le> 2 powi e" "max (expo q) (- 1022) - 52 \<le> e"
  shows "rnd q \<le> 2 powi e"
proof -
  let ?k = "max (expo \<bar>q\<bar>) (- 1022) - 52"
  have k: "?k \<le> e" using assms by simp
  have "q / ulp q \<le> of_int (2 ^ nat (e - ?k))"
    using assms(2) powi_multiple [OF k] by (simp add: ulp_def divide_le_eq)
  then have "roundEven (q / ulp q) \<le> 2 ^ nat (e - ?k)" by (rule roundEven_le)
  then have "of_int (roundEven (q / ulp q)) \<le> (of_int (2 ^ nat (e - ?k)) :: rat)" by (simp only: of_int_le_iff)
  then have "of_int (roundEven (q / ulp q)) * ulp q \<le> of_int (2 ^ nat (e - ?k)) * ulp q"
    by (rule mult_right_mono) (simp add: less_imp_le)
  then show ?thesis using assms(1) powi_multiple [OF k] by (simp add: rnd_def ulp_def)
qed

lemma rnd_ge_powi:
  assumes "0 < q" "2 powi e \<le> q" "max (expo q) (- 1022) - 52 \<le> e"
  shows "2 powi e \<le> rnd q"
proof -
  let ?k = "max (expo \<bar>q\<bar>) (- 1022) - 52"
  have k: "?k \<le> e" using assms by simp
  have "of_int (2 ^ nat (e - ?k)) \<le> q / ulp q"
    using assms(2) powi_multiple [OF k] by (simp add: ulp_def le_divide_eq)
  then have "2 ^ nat (e - ?k) \<le> roundEven (q / ulp q)" by (rule roundEven_ge)
  then have "(of_int (2 ^ nat (e - ?k)) :: rat) \<le> of_int (roundEven (q / ulp q))" by (simp only: of_int_le_iff)
  then have "of_int (2 ^ nat (e - ?k)) * ulp q \<le> of_int (roundEven (q / ulp q)) * ulp q"
    by (rule mult_right_mono) (simp add: less_imp_le)
  then show ?thesis using assms(1) powi_multiple [OF k] by (simp add: rnd_def ulp_def)
qed

lemma rnd_nonneg: "0 \<le> q \<Longrightarrow> 0 \<le> rnd q"
  using roundEven_ge [of 0 "q / ulp q"] by (auto simp: rnd_def less_imp_le)

lemma rnd_mono_pos:
  assumes "0 < p" "p \<le> q"
  shows "rnd p \<le> rnd q"
proof (cases "max (expo p) (- 1022) = max (expo q) (- 1022)")
  case True
  then have u: "ulp p = ulp q" using assms by (simp add: ulp_def)
  have "p / ulp p \<le> q / ulp p" using assms by (simp add: divide_right_mono less_imp_le)
  then have "roundEven (p / ulp p) \<le> roundEven (q / ulp q)" using roundEven_mono u by simp
  then show ?thesis using assms u by (simp add: rnd_def mult_right_mono less_imp_le)
next
  case False
  have "rnd p \<le> 2 powi expo q"
  proof (rule rnd_le_powi)
    have "p \<le> 2 powi (expo p + 1)" using expo_bounds [of p] assms by simp
    also have "\<dots> \<le> 2 powi expo q" using False expo_mono [OF assms] by (intro powi_mono) auto
    finally show "p \<le> 2 powi expo q" .
  qed (use False assms expo_mono [OF assms] in auto)
  also have "\<dots> \<le> rnd q"
    using assms False expo_bounds [of q] expo_mono [OF assms] by (intro rnd_ge_powi) auto
  finally show ?thesis .
qed

lemma rnd_mono: "p \<le> q \<Longrightarrow> rnd p \<le> rnd q"
proof -
  assume pq: "p \<le> q"
  consider "0 < p" | "p \<le> 0" "0 \<le> q" | "q < 0" by linarith
  then show ?thesis
  proof cases
    case 1
    then show ?thesis using pq by (rule rnd_mono_pos)
  next
    case 2
    then have "0 \<le> rnd (- p)" "0 \<le> rnd q" by (auto intro: rnd_nonneg)
    then show ?thesis by (simp add: rnd_neg)
  next
    case 3
    then have "rnd (- q) \<le> rnd (- p)" using pq by (intro rnd_mono_pos) auto
    then show ?thesis by (simp add: rnd_neg)
  qed
qed

lemma rnd_of_int:
  assumes "\<bar>i\<bar> \<le> 2 ^ 53"
  shows "rnd (of_int i) = of_int i"
proof (cases "i = 0")
  case True
  then show ?thesis by (simp add: rnd_def)
next
  case False
  define q :: rat where "q = of_int i"
  let ?k = "max (expo \<bar>q\<bar>) (- 1022) - 52"
  have q: "0 < \<bar>q\<bar>" "1 \<le> \<bar>q\<bar>" using False by (auto simp: q_def)
  show ?thesis
  proof (cases "?k \<le> 0")
    case True
    have "q / ulp q = of_int (i * 2 ^ nat (0 - ?k))"
      using powi_multiple [OF True] by (simp add: q_def ulp_def field_simps)
    then show ?thesis using False unfolding q_def [symmetric]
      by (simp only: rnd_def roundEven_of_int) (simp add: q_def ulp_def field_simps)
  next
    case k: False
    then have "53 \<le> expo \<bar>q\<bar>" by linarith
    then have "(2::rat) powi 53 \<le> \<bar>q\<bar>" using expo_bounds [OF q(1)] powi_mono [of 53 "expo \<bar>q\<bar>"] by linarith
    moreover have "\<bar>q\<bar> \<le> 2 ^ 53" using assms unfolding q_def
      by (metis of_int_abs of_int_le_iff of_int_numeral of_int_power)
    ultimately have e: "\<bar>q\<bar> = 2 powi 53" by (simp add: power_int_def)
    have "expo \<bar>q\<bar> \<le> 53"
    proof (rule ccontr)
      assume "\<not> expo \<bar>q\<bar> \<le> 53"
      then have "(2::rat) powi 54 \<le> 2 powi expo \<bar>q\<bar>" by (intro powi_mono) simp
      then show False using expo_bounds [OF q(1)] e by (simp add: power_int_def)
    qed
    then have "rnd \<bar>q\<bar> \<le> 2 powi 53" "2 powi 53 \<le> rnd \<bar>q\<bar>"
      using e q by (auto intro!: rnd_le_powi rnd_ge_powi simp del: power_int_numeral)
    then have "rnd \<bar>q\<bar> = \<bar>q\<bar>" using e by linarith
    then show ?thesis by (cases "0 \<le> q") (auto simp: rnd_neg q_def [symmetric])
  qed
qed

section \<open>Comparing rounded values with configured integers\<close>

lemma fl_of_int: "\<bar>i\<bar> \<le> 2 ^ 53 \<Longrightarrow> fl (of_int i) = Fin (of_int i)"
proof -
  assume i: "\<bar>i\<bar> \<le> 2 ^ 53"
  then have "\<bar>of_int i :: rat\<bar> \<le> 2 ^ 53" by (metis of_int_abs of_int_le_iff of_int_numeral of_int_power)
  then have "of_int i < (2 ^ 1024 :: rat)" "- (2 ^ 1024) < (of_int i :: rat)"
    by (simp_all add: abs_le_iff)
  then show ?thesis using rnd_of_int [OF i] by (simp add: fl_def)
qed

lemma f_of_int_exact [simp]: "\<bar>i\<bar> \<le> 2 ^ 53 \<Longrightarrow> f_of_int i = Fin (of_int i)"
  by (simp add: f_of_int_def fl_of_int)

text \<open>Rounding never moves a value to the other side of a small integer.\<close>

lemma f_ge_of_int:
  assumes "\<bar>i\<bar> \<le> 2 ^ 53" "of_int i \<le> q"
  shows "f_le (f_of_int i) (fl q)"
proof -
  have r: "of_int i \<le> rnd q" using rnd_mono [OF assms(2)] rnd_of_int [OF assms(1)] by simp
  have "\<bar>of_int i :: rat\<bar> \<le> 2 ^ 53" using assms(1) by (metis of_int_abs of_int_le_iff of_int_numeral of_int_power)
  then have "- (2 ^ 1024) < (of_int i :: rat)" by (simp add: abs_le_iff)
  then show ?thesis using r assms(1) by (auto simp: fl_def Let_def f_le_def f_eq_def)
qed

lemma f_le_of_int:
  assumes "\<bar>i\<bar> \<le> 2 ^ 53" "q \<le> of_int i"
  shows "f_le (fl q) (f_of_int i)"
proof -
  have r: "rnd q \<le> of_int i" using rnd_mono [OF assms(2)] rnd_of_int [OF assms(1)] by simp
  have "\<bar>of_int i :: rat\<bar> \<le> 2 ^ 53" using assms(1) by (metis of_int_abs of_int_le_iff of_int_numeral of_int_power)
  then have "(of_int i :: rat) < 2 ^ 1024" by (simp add: abs_le_iff)
  then show ?thesis using r assms(1) by (auto simp: fl_def Let_def f_le_def f_eq_def)
qed

lemma f_lt_not_ge: "f_lt x y \<Longrightarrow> \<not> f_le y x"
  by (cases x; cases y) (auto simp: f_le_def f_eq_def)

lemma f_lt_imp_le: "f_lt x y \<Longrightarrow> f_le x y"
  by (simp add: f_le_def)

lemma f_le_trans: "f_le x y \<Longrightarrow> f_le y z \<Longrightarrow> f_le x z"
  by (cases x; cases y; cases z) (auto simp: f_le_def f_eq_def)

lemma f_lt_of_int_exact: "\<bar>i\<bar> \<le> 2 ^ 53 \<Longrightarrow> f_lt (fl q) (f_of_int i) \<Longrightarrow> q < of_int i"
  using f_ge_of_int [of i q] f_lt_not_ge not_le by blast

lemma f_le_Fin [simp]: "f_le (Fin a) (Fin b) \<longleftrightarrow> a \<le> b"
  by (auto simp: f_le_def f_eq_def)

lemma f_nan [simp]: "\<not> f_le NaN x" "\<not> f_le x NaN"
  by (cases x; simp add: f_le_def f_eq_def)+

lemma fl_numeral [simp]:
  "(numeral n :: int) \<le> 2 ^ 53 \<Longrightarrow> fl (numeral n) = Fin (numeral n)" "fl 0 = Fin 0" "fl 1 = Fin 1"
  using fl_of_int [of "numeral n"] fl_of_int [of 0] fl_of_int [of 1] by simp_all

end
