(* ===== verification/Enforcement_Mode.thy ===== *)
theory Enforcement_Mode
  imports Safe_File
begin

text \<open>
  \<^verbatim>\<open>src/cgroup/enforcement_mode.go\<close>: the vocabulary of enforcement modes, intents, actions and
  block reasons, the normalization that keeps the public state inside it, and the detection of
  the host's ownership boundary. The Go types are string types, so any string can occur in a
  state before it is normalized; they are strings here as well.
\<close>

section \<open>Vocabulary\<close>

type_synonym enforcement_mode = string
type_synonym policy_intent = string
type_synonym applied_action = string
type_synonym block_reason = string

record enforcement_cycle_state =
  cs_Mode :: enforcement_mode
  cs_RequestedIntent :: policy_intent
  cs_AppliedAction :: applied_action
  cs_BlockReason :: block_reason

definition EnforcementModeObservationOnly :: enforcement_mode where
  "EnforcementModeObservationOnly = ''observation_only''"
definition EnforcementModeSystemdNative :: enforcement_mode where
  "EnforcementModeSystemdNative = ''systemd_native''"

definition EnforcementPolicyIntentNone :: policy_intent where "EnforcementPolicyIntentNone = ''none''"
definition EnforcementPolicyIntentActivate :: policy_intent where "EnforcementPolicyIntentActivate = ''activate''"
definition EnforcementPolicyIntentDeactivate :: policy_intent where "EnforcementPolicyIntentDeactivate = ''deactivate''"
definition EnforcementPolicyIntentMaintain :: policy_intent where "EnforcementPolicyIntentMaintain = ''maintain''"

definition AppliedEnforcementActionNone :: applied_action where "AppliedEnforcementActionNone = ''none''"
definition AppliedEnforcementActionActivate :: applied_action where "AppliedEnforcementActionActivate = ''activate''"
definition AppliedEnforcementActionDeactivate :: applied_action where "AppliedEnforcementActionDeactivate = ''deactivate''"
definition AppliedEnforcementActionMaintain :: applied_action where "AppliedEnforcementActionMaintain = ''maintain''"

definition EnforcementBlockReasonNone :: block_reason where
  "EnforcementBlockReasonNone = ''none''"
definition EnforcementBlockReasonSystemdRuntimeAbsent :: block_reason where
  "EnforcementBlockReasonSystemdRuntimeAbsent = ''systemd_runtime_absent''"
definition EnforcementBlockReasonSystemdOwnsWorkloads :: block_reason where
  "EnforcementBlockReasonSystemdOwnsWorkloads = ''systemd_owns_host_workloads''"
definition EnforcementBlockReasonSystemdRuntimeUnreachable :: block_reason where
  "EnforcementBlockReasonSystemdRuntimeUnreachable = ''systemd_runtime_unreachable''"
definition EnforcementBlockReasonAuthorityUnverifiable :: block_reason where
  "EnforcementBlockReasonAuthorityUnverifiable = ''systemd_authority_unverifiable''"
definition EnforcementBlockReasonMandatoryCapability :: block_reason where
  "EnforcementBlockReasonMandatoryCapability = ''mandatory_capability_unavailable''"
definition EnforcementBlockReasonOperatorObservation :: block_reason where
  "EnforcementBlockReasonOperatorObservation = ''operator_requested_observation''"
definition EnforcementBlockReasonRealtimeAdmissionProtected :: block_reason where
  "EnforcementBlockReasonRealtimeAdmissionProtected = ''realtime_admission_protected''"

record enforcement_status =
  st_Mode :: enforcement_mode
  st_Reason :: string

definition EnforcementReasonSystemdRuntimeAbsent :: string where
  "EnforcementReasonSystemdRuntimeAbsent = ''systemd_runtime_absent''"
definition EnforcementReasonSystemdOwnsHostWorkloads :: string where
  "EnforcementReasonSystemdOwnsHostWorkloads = ''systemd_owns_host_workloads''"
definition EnforcementReasonSystemdRuntimeUnreachable :: string where
  "EnforcementReasonSystemdRuntimeUnreachable = ''systemd_runtime_unreachable''"
definition EnforcementReasonAuthorityUnverifiable :: string where
  "EnforcementReasonAuthorityUnverifiable = ''systemd_authority_unverifiable''"
definition EnforcementReasonSystemdNativeAdapter :: string where
  "EnforcementReasonSystemdNativeAdapter = ''systemd_native_adapter''"
definition EnforcementReasonMandatoryCapabilityUnavailable :: string where
  "EnforcementReasonMandatoryCapabilityUnavailable = ''mandatory_capability_unavailable''"
definition EnforcementReasonOperatorObservationOnly :: string where
  "EnforcementReasonOperatorObservationOnly = ''operator_requested_observation''"
definition EnforcementReasonRealtimeAdmissionProtected :: string where
  "EnforcementReasonRealtimeAdmissionProtected = ''realtime_admission_protected''"

lemmas mode_defs =
  EnforcementModeObservationOnly_def EnforcementModeSystemdNative_def
lemmas intent_defs =
  EnforcementPolicyIntentNone_def EnforcementPolicyIntentActivate_def
  EnforcementPolicyIntentDeactivate_def EnforcementPolicyIntentMaintain_def
lemmas action_defs =
  AppliedEnforcementActionNone_def AppliedEnforcementActionActivate_def
  AppliedEnforcementActionDeactivate_def AppliedEnforcementActionMaintain_def
lemmas block_defs =
  EnforcementBlockReasonNone_def EnforcementBlockReasonSystemdRuntimeAbsent_def
  EnforcementBlockReasonSystemdOwnsWorkloads_def EnforcementBlockReasonSystemdRuntimeUnreachable_def
  EnforcementBlockReasonAuthorityUnverifiable_def EnforcementBlockReasonMandatoryCapability_def
  EnforcementBlockReasonOperatorObservation_def EnforcementBlockReasonRealtimeAdmissionProtected_def
lemmas reason_defs =
  EnforcementReasonSystemdRuntimeAbsent_def EnforcementReasonSystemdOwnsHostWorkloads_def
  EnforcementReasonSystemdRuntimeUnreachable_def EnforcementReasonAuthorityUnverifiable_def
  EnforcementReasonSystemdNativeAdapter_def EnforcementReasonMandatoryCapabilityUnavailable_def
  EnforcementReasonOperatorObservationOnly_def EnforcementReasonRealtimeAdmissionProtected_def

section \<open>Normalization\<close>

definition validEnforcementMode :: "enforcement_mode \<Rightarrow> bool" where
  "validEnforcementMode mode \<longleftrightarrow>
     mode = EnforcementModeObservationOnly \<or> mode = EnforcementModeSystemdNative"

definition normalizedEnforcementMode :: "enforcement_mode \<Rightarrow> enforcement_mode" where
  "normalizedEnforcementMode mode =
     (if mode = EnforcementModeObservationOnly \<or> mode = EnforcementModeSystemdNative then mode
      else EnforcementModeObservationOnly)"

definition validPolicyIntent :: "policy_intent \<Rightarrow> bool" where
  "validPolicyIntent intent \<longleftrightarrow>
     intent \<in> {EnforcementPolicyIntentNone, EnforcementPolicyIntentActivate,
       EnforcementPolicyIntentDeactivate, EnforcementPolicyIntentMaintain}"

definition validAppliedAction :: "applied_action \<Rightarrow> bool" where
  "validAppliedAction action \<longleftrightarrow>
     action \<in> {AppliedEnforcementActionNone, AppliedEnforcementActionActivate,
       AppliedEnforcementActionDeactivate, AppliedEnforcementActionMaintain}"

definition validBlockReason :: "block_reason \<Rightarrow> bool" where
  "validBlockReason reason \<longleftrightarrow>
     reason \<in> {EnforcementBlockReasonNone, EnforcementBlockReasonSystemdRuntimeAbsent,
       EnforcementBlockReasonSystemdOwnsWorkloads, EnforcementBlockReasonSystemdRuntimeUnreachable,
       EnforcementBlockReasonAuthorityUnverifiable, EnforcementBlockReasonMandatoryCapability,
       EnforcementBlockReasonOperatorObservation, EnforcementBlockReasonRealtimeAdmissionProtected}"

definition InitialEnforcementCycleState :: "enforcement_status \<Rightarrow> enforcement_cycle_state" where
  "InitialEnforcementCycleState status =
     \<lparr> cs_Mode = normalizedEnforcementMode (st_Mode status),
       cs_RequestedIntent = EnforcementPolicyIntentNone,
       cs_AppliedAction = AppliedEnforcementActionNone,
       cs_BlockReason = EnforcementBlockReasonNone \<rparr>"

definition BoundedEnforcementBlockReason :: "string \<Rightarrow> block_reason" where
  "BoundedEnforcementBlockReason reason =
     (if reason = EnforcementReasonSystemdRuntimeAbsent then EnforcementBlockReasonSystemdRuntimeAbsent
      else if reason = EnforcementReasonSystemdOwnsHostWorkloads then EnforcementBlockReasonSystemdOwnsWorkloads
      else if reason = EnforcementReasonSystemdRuntimeUnreachable then EnforcementBlockReasonSystemdRuntimeUnreachable
      else if reason = EnforcementReasonAuthorityUnverifiable then EnforcementBlockReasonAuthorityUnverifiable
      else if reason = EnforcementReasonMandatoryCapabilityUnavailable then EnforcementBlockReasonMandatoryCapability
      else if reason = EnforcementReasonOperatorObservationOnly then EnforcementBlockReasonOperatorObservation
      else if reason = EnforcementReasonRealtimeAdmissionProtected then EnforcementBlockReasonRealtimeAdmissionProtected
      else EnforcementBlockReasonAuthorityUnverifiable)"

definition NormalizedEnforcementCycleState ::
  "enforcement_cycle_state \<Rightarrow> enforcement_status \<Rightarrow> enforcement_cycle_state" where
  "NormalizedEnforcementCycleState state fallback =
     (let s1 = (if \<not> validEnforcementMode (cs_Mode state)
                then state\<lparr> cs_Mode := normalizedEnforcementMode (st_Mode fallback) \<rparr> else state);
          s2 = (if \<not> validPolicyIntent (cs_RequestedIntent s1)
                then s1\<lparr> cs_RequestedIntent := EnforcementPolicyIntentNone \<rparr> else s1);
          s3 = (if \<not> validAppliedAction (cs_AppliedAction s2)
                then s2\<lparr> cs_AppliedAction := AppliedEnforcementActionNone \<rparr> else s2)
      in (if \<not> validBlockReason (cs_BlockReason s3)
          then s3\<lparr> cs_BlockReason := EnforcementBlockReasonNone \<rparr> else s3))"

text \<open>A state inside the public vocabulary.\<close>

definition wf_cycle_state :: "enforcement_cycle_state \<Rightarrow> bool" where
  "wf_cycle_state s \<longleftrightarrow> validEnforcementMode (cs_Mode s) \<and> validPolicyIntent (cs_RequestedIntent s) \<and>
     validAppliedAction (cs_AppliedAction s) \<and> validBlockReason (cs_BlockReason s)"

section \<open>Detection of the ownership boundary\<close>

definition defaultSystemdRuntimePath :: string where
  "defaultSystemdRuntimePath = ''/run/systemd/system''"

text \<open>The answer of \<^verbatim>\<open>os.Stat\<close>: file information, a missing file, or another error.\<close>

datatype stat_answer = StatInfo file_info | StatNotExist | StatFailed string

definition detectEnforcementStatus ::
  "(string \<Rightarrow> stat_answer) \<Rightarrow> (string \<Rightarrow> (string, string) res) \<Rightarrow> string \<Rightarrow> string \<Rightarrow> enforcement_status" where
  "detectEnforcementStatus osStat readFile systemdRuntimePath procRoot =
     (let path = (if systemdRuntimePath = [] then defaultSystemdRuntimePath else systemdRuntimePath);
          observed = (\<lambda>reason. \<lparr> st_Mode = EnforcementModeObservationOnly, st_Reason = reason \<rparr>)
      in case osStat path of
        StatInfo info \<Rightarrow>
          if Mode_IsDir (fi_Mode info) then observed EnforcementReasonSystemdOwnsHostWorkloads
          else observed EnforcementReasonAuthorityUnverifiable
      | StatNotExist \<Rightarrow>
          (case readFile (procRoot @ ''/1/comm'') of
             Inl e \<Rightarrow> observed EnforcementReasonAuthorityUnverifiable
           | Inr pidOneComm \<Rightarrow>
               if trimSpace pidOneComm = ''systemd'' then observed EnforcementReasonSystemdRuntimeUnreachable
               else observed EnforcementReasonSystemdRuntimeAbsent)
      | StatFailed e \<Rightarrow> observed EnforcementReasonAuthorityUnverifiable)"

definition DetectEnforcementStatus ::
  "(string \<Rightarrow> stat_answer) \<Rightarrow> (string \<Rightarrow> (string, string) res) \<Rightarrow> string \<Rightarrow> enforcement_status" where
  "DetectEnforcementStatus osStat readFile systemdRuntimePath =
     detectEnforcementStatus osStat readFile systemdRuntimePath ''/proc''"

section \<open>Facts\<close>

lemma NormalizedEnforcementCycleState_fields [simp]:
  "cs_Mode (NormalizedEnforcementCycleState s f) =
     (if validEnforcementMode (cs_Mode s) then cs_Mode s else normalizedEnforcementMode (st_Mode f))"
  "cs_RequestedIntent (NormalizedEnforcementCycleState s f) =
     (if validPolicyIntent (cs_RequestedIntent s) then cs_RequestedIntent s else EnforcementPolicyIntentNone)"
  "cs_AppliedAction (NormalizedEnforcementCycleState s f) =
     (if validAppliedAction (cs_AppliedAction s) then cs_AppliedAction s else AppliedEnforcementActionNone)"
  "cs_BlockReason (NormalizedEnforcementCycleState s f) =
     (if validBlockReason (cs_BlockReason s) then cs_BlockReason s else EnforcementBlockReasonNone)"
  by (simp_all add: NormalizedEnforcementCycleState_def Let_def)

lemma valid_defaults [simp]:
  "validEnforcementMode (normalizedEnforcementMode m)"
  "validPolicyIntent EnforcementPolicyIntentNone"
  "validAppliedAction AppliedEnforcementActionNone"
  "validBlockReason EnforcementBlockReasonNone"
  "validBlockReason (BoundedEnforcementBlockReason r)"
  by (auto simp: validEnforcementMode_def normalizedEnforcementMode_def validPolicyIntent_def
      validAppliedAction_def validBlockReason_def BoundedEnforcementBlockReason_def)

lemma wf_NormalizedEnforcementCycleState [simp]: "wf_cycle_state (NormalizedEnforcementCycleState s f)"
  by (simp add: wf_cycle_state_def)

lemma NormalizedEnforcementCycleState_id: "wf_cycle_state s \<Longrightarrow> NormalizedEnforcementCycleState s f = s"
  by (simp add: wf_cycle_state_def NormalizedEnforcementCycleState_def)

text \<open>
  \<open>NormalizedEnforcementCycleState\<close> always yields a state of the public vocabulary and is
  the identity on such states; the initial state is one of them; detection grants no enforcement
  on any answer of the file system (the mode is always observation only), and the block reason
  derived from the detected reason names that very reason, so nothing is lost in the public label.
\<close>

theorem enforcement_state_bounded:
  "wf_cycle_state (NormalizedEnforcementCycleState s f) \<and>
   (wf_cycle_state s \<longleftrightarrow> NormalizedEnforcementCycleState s f = s) \<and>
   wf_cycle_state (InitialEnforcementCycleState f) \<and>
   st_Mode (DetectEnforcementStatus osStat readFile path) = EnforcementModeObservationOnly \<and>
   BoundedEnforcementBlockReason (st_Reason (DetectEnforcementStatus osStat readFile path)) =
     st_Reason (DetectEnforcementStatus osStat readFile path)"
proof -
  have "st_Mode (DetectEnforcementStatus osStat readFile path) = EnforcementModeObservationOnly"
    by (simp add: DetectEnforcementStatus_def detectEnforcementStatus_def Let_def
        split: stat_answer.split sum.split)
  moreover have "st_Reason (DetectEnforcementStatus osStat readFile path) \<in>
     {EnforcementReasonSystemdRuntimeAbsent, EnforcementReasonSystemdOwnsHostWorkloads,
      EnforcementReasonSystemdRuntimeUnreachable, EnforcementReasonAuthorityUnverifiable}"
    by (simp add: DetectEnforcementStatus_def detectEnforcementStatus_def Let_def
        split: stat_answer.split sum.split)
  then have "BoundedEnforcementBlockReason (st_Reason (DetectEnforcementStatus osStat readFile path)) =
     st_Reason (DetectEnforcementStatus osStat readFile path)"
    by (auto simp: BoundedEnforcementBlockReason_def reason_defs block_defs)
  moreover have "wf_cycle_state (InitialEnforcementCycleState f)"
    by (simp add: wf_cycle_state_def InitialEnforcementCycleState_def)
  ultimately show ?thesis
    using NormalizedEnforcementCycleState_id wf_NormalizedEnforcementCycleState by metis
qed

end
