(* ===== verification/Decision_Engine.thy ===== *)
theory Decision_Engine
  imports Go_Numeric Enforcement_Mode
begin

text \<open>
  \<^verbatim>\<open>src/state/decision_engine.go\<close> and \<^verbatim>\<open>src/state/io_pressure.go\<close>: the decision of one control
  cycle. \<open>makeDecision\<close> compares one metrics sample with the activation and release thresholds of
  CPU, RAM and I/O, threads the two activation trackers and the release stability tracker, and
  answers activate, maintain or deactivate with a reason.

  The configuration getters read one field each, so the configuration is a record of the values
  they return. Every call of \<^verbatim>\<open>time.Now\<close> or \<^verbatim>\<open>time.Since\<close> reads the clock anew: \<open>clock\<close> has one field
  per call. Reasons are values of a datatype that keeps what the Go format strings print.
\<close>

section \<open>Configuration and samples\<close>

record decision_config =
  MinActiveTime :: int
  CPUThreshold :: int
  CPUReleaseThreshold :: int
  CPUThresholdDuration :: int
  IgnoreSystemLoad :: bool
  PollingInterval :: int
  RAMEnabled :: bool
  RAMThreshold :: int
  RAMReleaseThreshold :: int
  IOEnabled :: bool
  IOThreshold :: int
  IOReleaseThreshold :: int
  IOThresholdDuration :: int
  IOReadBPS :: string
  IOWriteBPS :: string
  IOReadIOPS :: int
  IOWriteIOPS :: int

record io_decision_policy =
  iop_Enabled :: bool
  iop_Threshold :: int
  iop_ReleaseThreshold :: int
  iop_ThresholdDuration :: int
  iop_ReadBPS :: string
  iop_WriteBPS :: string
  iop_ReadIOPS :: int
  iop_WriteIOPS :: int

definition GetIODecisionPolicy :: "decision_config \<Rightarrow> io_decision_policy" where
  "GetIODecisionPolicy c =
     \<lparr> iop_Enabled = IOEnabled c, iop_Threshold = IOThreshold c,
       iop_ReleaseThreshold = IOReleaseThreshold c, iop_ThresholdDuration = IOThresholdDuration c,
       iop_ReadBPS = IOReadBPS c, iop_WriteBPS = IOWriteBPS c,
       iop_ReadIOPS = IOReadIOPS c, iop_WriteIOPS = IOWriteIOPS c \<rparr>"

text \<open>The field of \<^verbatim>\<open>UserMetrics\<close> that decisions read: \<^verbatim>\<open>EnforceableUsage.CPUUsageEMA\<close>.\<close>

record user_metrics =
  um_CPUUsageEMA :: f64

text \<open>The fields of \<^verbatim>\<open>SystemMetrics\<close> that decisions read; \<open>UserMetrics\<close> may hold nil pointers.\<close>

record system_metrics =
  TotalCores :: int
  TotalCPUUsage :: f64
  HostCPUUsageAvailable :: bool
  CPUEligibleCPUUsage :: f64
  IOEligibleUsersCount :: int
  RAMEligibleUsageBytes :: u64
  IOEligibleReadBPS :: f64
  IOEligibleWriteBPS :: f64
  IOEligibleReadBlockIOPS :: f64
  IOEligibleWriteBlockIOPS :: f64
  IOBlockIOPSUnavailableUsers :: int
  IOEligibleUnavailableProcesses :: int
  TotalMemoryMB :: f64
  SystemUnderLoad :: bool
  UserMetrics :: "(int \<times> user_metrics option) list"
  CPUEligibleUsers :: "int list"
  RAMEligibleUsers :: "int list"
  IOEligibleUsers :: "int list"

section \<open>Byte quotas\<close>

datatype quota_error = QuotaEmpty | QuotaBadNumber string | QuotaOverflow string | QuotaBadFormat string

text \<open>The multiplier of a suffix, after \<^verbatim>\<open>strings.ToUpper\<close> of the last byte.\<close>

definition quotaMultiplier :: "char \<Rightarrow> u64 option" where
  "quotaMultiplier c =
     (if c = CHR ''K'' \<or> c = CHR ''k'' then Some 1024
      else if c = CHR ''M'' \<or> c = CHR ''m'' then Some 1048576
      else if c = CHR ''G'' \<or> c = CHR ''g'' then Some 1073741824
      else if c = CHR ''T'' \<or> c = CHR ''t'' then Some 1099511627776
      else None)"

definition ParseByteQuota :: "string \<Rightarrow> (quota_error, u64) res" where
  "ParseByteQuota quota =
     (if quota = [] then Inl QuotaEmpty
      else case quotaMultiplier (last quota) of
        Some multiplier \<Rightarrow>
          (case parseUint 64 (butlast quota) of
             None \<Rightarrow> Inl (QuotaBadNumber (butlast quota))
           | Some n \<Rightarrow>
               (let v = (of_nat n :: u64)
                in if v > (- 1) div multiplier then Inl (QuotaOverflow quota)
                   else Inr (v * multiplier)))
      | None \<Rightarrow>
          (case parseUint 64 quota of
             None \<Rightarrow> Inl (QuotaBadFormat quota)
           | Some n \<Rightarrow> Inr (of_nat n)))"

definition byteRateLimit :: "string \<Rightarrow> f64" where
  "byteRateLimit v =
     (if v = [] \<or> v = ''max'' then f_zero
      else case ParseByteQuota v of Inl e \<Rightarrow> f_zero | Inr limit \<Rightarrow> f_of_u64 limit)"

section \<open>I/O pressure\<close>

record io_pressure =
  maxPercent :: f64
  exceededDimensions :: "string list"

definition pressureExceeded :: "io_pressure \<Rightarrow> bool" where
  "pressureExceeded p \<longleftrightarrow> length (exceededDimensions p) > 0"

record io_dimension =
  dim_name :: string
  dim_rate :: f64
  dim_perUserLimit :: f64

definition ioDimensions :: "io_decision_policy \<Rightarrow> system_metrics \<Rightarrow> io_dimension list" where
  "ioDimensions policy metrics =
     [ \<lparr> dim_name = ''read_bps'', dim_rate = IOEligibleReadBPS metrics, dim_perUserLimit = byteRateLimit (iop_ReadBPS policy) \<rparr>,
       \<lparr> dim_name = ''write_bps'', dim_rate = IOEligibleWriteBPS metrics, dim_perUserLimit = byteRateLimit (iop_WriteBPS policy) \<rparr>,
       \<lparr> dim_name = ''read_iops'', dim_rate = IOEligibleReadBlockIOPS metrics, dim_perUserLimit = f_of_int (iop_ReadIOPS policy) \<rparr>,
       \<lparr> dim_name = ''write_iops'', dim_rate = IOEligibleWriteBlockIOPS metrics, dim_perUserLimit = f_of_int (iop_WriteIOPS policy) \<rparr> ]"

text \<open>The percentage of one dimension's limit for all eligible users together.\<close>

definition dimensionPercent :: "system_metrics \<Rightarrow> io_dimension \<Rightarrow> f64" where
  "dimensionPercent metrics d =
     (if IOEligibleUsersCount metrics > 0
      then f_mul (f_div (dim_rate d) (f_mul (dim_perUserLimit d) (f_of_int (IOEligibleUsersCount metrics)))) (f_of_int 100)
      else f_zero)"

fun addDimensions :: "system_metrics \<Rightarrow> int \<Rightarrow> io_pressure \<Rightarrow> io_dimension list \<Rightarrow> io_pressure" where
  "addDimensions metrics threshold p [] = p"
| "addDimensions metrics threshold p (d # ds) =
     (if f_le (dim_perUserLimit d) f_zero then addDimensions metrics threshold p ds
      else
        let percent = dimensionPercent metrics d;
            p1 = (if f_gt percent (maxPercent p) then p\<lparr> maxPercent := percent \<rparr> else p);
            p2 = (if f_ge percent (f_of_int threshold)
                  then p1\<lparr> exceededDimensions := exceededDimensions p1 @ [dim_name d] \<rparr> else p1)
        in addDimensions metrics threshold p2 ds)"

definition evaluateIOPressure :: "io_decision_policy \<Rightarrow> system_metrics \<Rightarrow> int \<Rightarrow> io_pressure" where
  "evaluateIOPressure policy metrics threshold =
     (let pressure = \<lparr> maxPercent = f_zero, exceededDimensions = [] \<rparr>
      in if \<not> iop_Enabled policy \<or> threshold \<le> 0 then pressure
         else addDimensions metrics threshold pressure (ioDimensions policy metrics))"

section \<open>Trackers\<close>

record threshold_tracker =
  firstOverThresholdTime :: gotime
  overThresholdCycles :: int
  totalCycles :: int

definition newThresholdTracker :: threshold_tracker where
  "newThresholdTracker = \<lparr> firstOverThresholdTime = None, overThresholdCycles = 0, totalCycles = 0 \<rparr>"

definition ThresholdTracker_Reset :: "threshold_tracker \<Rightarrow> threshold_tracker" where
  "ThresholdTracker_Reset t =
     t\<lparr> firstOverThresholdTime := None, overThresholdCycles := 0, totalCycles := 0 \<rparr>"

text \<open>\<open>now1\<close> and \<open>now2\<close> are the readings of \<^verbatim>\<open>time.Now\<close> and \<^verbatim>\<open>time.Since\<close>.\<close>

definition ShouldActivateLimits ::
  "int \<Rightarrow> int \<Rightarrow> f64 \<Rightarrow> f64 \<Rightarrow> int \<Rightarrow> threshold_tracker \<Rightarrow> threshold_tracker \<times> bool" where
  "ShouldActivateLimits now1 now2 currentCPU threshold requiredDuration t =
     (if f_ge currentCPU threshold then
        let t1 = t\<lparr> overThresholdCycles := overThresholdCycles t + 1 \<rparr>;
            t2 = (if firstOverThresholdTime t1 = None then t1\<lparr> firstOverThresholdTime := Some now1 \<rparr> else t1);
            elapsed = goSub (Some now2) (firstOverThresholdTime t2);
            t3 = t2\<lparr> totalCycles := totalCycles t2 + 1 \<rparr>
        in (t3, elapsed \<ge> requiredDuration)
      else (t\<lparr> firstOverThresholdTime := None, overThresholdCycles := 0 \<rparr>, False))"

definition GetElapsed :: "int \<Rightarrow> threshold_tracker \<Rightarrow> int" where
  "GetElapsed now t =
     (if firstOverThresholdTime t = None then 0 else goSub (Some now) (firstOverThresholdTime t))"

record stability_tracker =
  belowThresholdSince :: "(int \<times> gotime) list"

definition newUserStabilityTracker :: stability_tracker where
  "newUserStabilityTracker = \<lparr> belowThresholdSince = [] \<rparr>"

definition UserStabilityTracker_Reset :: "stability_tracker \<Rightarrow> stability_tracker" where
  "UserStabilityTracker_Reset t = t\<lparr> belowThresholdSince := [] \<rparr>"

definition ForgetUsers :: "int list \<Rightarrow> stability_tracker \<Rightarrow> stability_tracker" where
  "ForgetUsers users t = t\<lparr> belowThresholdSince := fold AList.delete users (belowThresholdSince t) \<rparr>"

text \<open>Whether a user's sample is missing or at least the threshold.\<close>

definition notBelow :: "(int \<times> user_metrics option) list \<Rightarrow> f64 \<Rightarrow> int \<Rightarrow> bool" where
  "notBelow userMetrics threshold uid \<longleftrightarrow> (case map_of userMetrics uid of
     None \<Rightarrow> True | Some None \<Rightarrow> True | Some (Some um) \<Rightarrow> f_ge (um_CPUUsageEMA um) threshold)"

definition stabilityStep ::
  "(int \<times> user_metrics option) list \<Rightarrow> f64 \<Rightarrow> int \<Rightarrow> gotime \<Rightarrow> int \<Rightarrow>
   (int \<times> gotime) list \<times> bool \<Rightarrow> (int \<times> gotime) list \<times> bool" where
  "stabilityStep userMetrics threshold requiredDuration now uid st =
     (case st of (since, isStable) \<Rightarrow>
        if notBelow userMetrics threshold uid then (AList.delete uid since, False)
        else case map_of since uid of
          None \<Rightarrow> (AList.update uid now since, False)
        | Some s \<Rightarrow>
            if goBefore now s then (AList.update uid now since, False)
            else if goSub now s < requiredDuration then (since, False)
            else (since, isStable))"

definition AllBelowThreshold ::
  "int list \<Rightarrow> (int \<times> user_metrics option) list \<Rightarrow> f64 \<Rightarrow> int \<Rightarrow> gotime \<Rightarrow> stability_tracker \<Rightarrow>
   stability_tracker \<times> bool" where
  "AllBelowThreshold users userMetrics threshold requiredDuration now t =
     (case fold (stabilityStep userMetrics threshold requiredDuration now) users (belowThresholdSince t, True) of
        (since, isStable) \<Rightarrow>
          (t\<lparr> belowThresholdSince := filter (\<lambda>e. fst e \<in> set users) since \<rparr>, isStable))"

section \<open>Measurements\<close>

definition eligibleHostCPUPercent :: "system_metrics option \<Rightarrow> f64 \<times> bool" where
  "eligibleHostCPUPercent metrics =
     (case metrics of None \<Rightarrow> (f_zero, False)
      | Some sm \<Rightarrow>
          if TotalCores sm \<le> 0 then (f_zero, False)
          else (f_div (CPUEligibleCPUUsage sm) (f_of_int (TotalCores sm)), True))"

record cpu_load_attribution =
  measurable :: bool
  eligibleShare :: f64

text \<open>\<^verbatim>\<open>minimumEligibleCPUShareForLoadOwnership\<close>.\<close>

definition minimumEligibleCPUShare :: f64 where "minimumEligibleCPUShare = Fin (1 / 2)"

definition measureCPULoadAttribution :: "system_metrics option \<Rightarrow> cpu_load_attribution" where
  "measureCPULoadAttribution metrics =
     (case metrics of None \<Rightarrow> \<lparr> measurable = False, eligibleShare = f_zero \<rparr>
      | Some sm \<Rightarrow>
          if TotalCores sm \<le> 0 \<or> \<not> HostCPUUsageAvailable sm then \<lparr> measurable = False, eligibleShare = f_zero \<rparr>
          else
            let hostAggregate = f_mul (TotalCPUUsage sm) (f_of_int (TotalCores sm))
            in if f_eq hostAggregate f_zero then \<lparr> measurable = True, eligibleShare = f_of_int 1 \<rparr>
               else
                 let e0 = CPUEligibleCPUUsage sm;
                     e1 = (if f_lt e0 f_zero then f_zero else e0);
                     e2 = (if f_gt e1 hostAggregate then hostAggregate else e1)
                 in \<lparr> measurable = True, eligibleShare = f_div e2 hostAggregate \<rparr>)"

section \<open>Reasons\<close>

datatype coverage_gap =
    BlockIOPSAndProcesses int int | BlockIOPSOnly int | ProcessesOnly int

definition ioCoverageGap :: "system_metrics \<Rightarrow> bool \<Rightarrow> coverage_gap" where
  "ioCoverageGap metrics blockIOPSIncomplete =
     (if blockIOPSIncomplete \<and> IOEligibleUnavailableProcesses metrics > 0
      then BlockIOPSAndProcesses (IOBlockIOPSUnavailableUsers metrics) (IOEligibleUnavailableProcesses metrics)
      else if blockIOPSIncomplete then BlockIOPSOnly (IOBlockIOPSUnavailableUsers metrics)
      else ProcessesOnly (IOEligibleUnavailableProcesses metrics))"

datatype exceeded_part = CPUPart f64 int | RAMPart int | IOPart "string list" int f64

datatype decision_reason =
    IOThresholdWaiting int f64 int
  | WaitingMinimumActivation
  | IOCoverageIncomplete coverage_gap string
  | BelowReleaseThresholds f64 int
  | WaitingStability
  | BelowButUnderLoad
  | CPUUnmeasurable
  | StillAboveRelease
  | AttributionUnavailable
  | ExternalLoad f64
  | CPUThresholdWaiting int f64 int
  | ThresholdExceeded "exceeded_part list"
  | WithinNormalRange

definition ioCoverageReason :: "system_metrics \<Rightarrow> bool \<Rightarrow> string \<Rightarrow> decision_reason" where
  "ioCoverageReason metrics blockIOPSIncomplete consequence =
     IOCoverageIncomplete (ioCoverageGap metrics blockIOPSIncomplete) consequence"

definition buildActivateReason ::
  "decision_config \<Rightarrow> bool \<Rightarrow> bool \<Rightarrow> bool \<Rightarrow> f64 \<Rightarrow> int \<Rightarrow> io_pressure \<Rightarrow> int \<Rightarrow> decision_reason" where
  "buildActivateReason cfg cpuExceeded ramExceeded ioExceeded cpuHostPercent cpuThreshold ioActivationPressure ioThreshold =
     ThresholdExceeded
       ((if cpuExceeded then [CPUPart cpuHostPercent cpuThreshold] else []) @
        (if ramExceeded then [RAMPart (RAMThreshold cfg)] else []) @
        (if ioExceeded then [IOPart (exceededDimensions ioActivationPressure) ioThreshold (maxPercent ioActivationPressure)] else []))"

definition buildDeactivateReason :: "f64 \<Rightarrow> int \<Rightarrow> decision_reason" where
  "buildDeactivateReason cpuHostPercent cpuReleaseThreshold = BelowReleaseThresholds cpuHostPercent cpuReleaseThreshold"

section \<open>The decision\<close>

definition decisionActivate :: string where "decisionActivate = ''ACTIVATE_LIMITS''"
definition decisionMaintain :: string where "decisionMaintain = ''MAINTAIN_CURRENT_STATE''"
definition decisionDeactivate :: string where "decisionDeactivate = ''DEACTIVATE_LIMITS''"

text \<open>The readings of the clock in one decision, in the order the code takes them.\<close>

record clock =
  ck_ioNow :: int
  ck_ioSince :: int
  ck_ioElapsed :: int
  ck_appliedSince :: int
  ck_stabilityNow :: int
  ck_cpuNow :: int
  ck_cpuSince :: int
  ck_cpuElapsed :: int

text \<open>The fields of \<^verbatim>\<open>Manager\<close> the decision reads and writes.\<close>

record decision_state =
  limitsActive :: bool
  limitsAppliedTime :: gotime
  resourceLimitsActive :: bool
  resourceLimitsAppliedTime :: gotime
  activeUsers :: "(int \<times> bool) list"
  thresholdTracker :: threshold_tracker
  ioThresholdTracker :: threshold_tracker
  stabilityTracker :: "stability_tracker option"

text \<open>The eligible users' RAM as a percentage of the host's memory.\<close>

definition ramPercent :: "system_metrics \<Rightarrow> f64" where
  "ramPercent metrics =
     f_mul (f_div (f_div (f_of_u64 (RAMEligibleUsageBytes metrics)) (f_of_int 1048576)) (TotalMemoryMB metrics)) (f_of_int 100)"

definition ramExceeded :: "decision_config \<Rightarrow> system_metrics \<Rightarrow> bool" where
  "ramExceeded cfg metrics \<longleftrightarrow>
     (if RAMEnabled cfg \<and> RAMThreshold cfg > 0 \<and> f_gt (TotalMemoryMB metrics) f_zero
      then f_ge (ramPercent metrics) (f_of_int (RAMThreshold cfg)) else False)"

definition ramBelow :: "decision_config \<Rightarrow> system_metrics \<Rightarrow> bool" where
  "ramBelow cfg metrics \<longleftrightarrow>
     (if RAMEnabled cfg \<and> RAMReleaseThreshold cfg > 0 \<and> f_gt (TotalMemoryMB metrics) f_zero
      then f_lt (ramPercent metrics) (f_of_int (RAMReleaseThreshold cfg)) else True)"

definition blockIOPSCoverageIncomplete :: "io_decision_policy \<Rightarrow> system_metrics \<Rightarrow> bool" where
  "blockIOPSCoverageIncomplete p metrics \<longleftrightarrow>
     (iop_ReadIOPS p > 0 \<or> iop_WriteIOPS p > 0) \<and> IOBlockIOPSUnavailableUsers metrics > 0"

definition ioCoverageIncomplete :: "io_decision_policy \<Rightarrow> system_metrics \<Rightarrow> bool" where
  "ioCoverageIncomplete p metrics \<longleftrightarrow>
     iop_Enabled p \<and> iop_Threshold p > 0 \<and>
     (((f_gt (byteRateLimit (iop_ReadBPS p)) f_zero \<or> f_gt (byteRateLimit (iop_WriteBPS p)) f_zero) \<and>
       IOEligibleUnavailableProcesses metrics > 0) \<or>
      blockIOPSCoverageIncomplete p metrics)"

text \<open>The I/O duration guard: the tracker, whether I/O counts as exceeded, whether it is pending.\<close>

definition ioDurationGuard ::
  "clock \<Rightarrow> io_decision_policy \<Rightarrow> io_pressure \<Rightarrow> threshold_tracker \<Rightarrow> threshold_tracker \<times> bool \<times> bool" where
  "ioDurationGuard ck p pressure t =
     (if iop_ThresholdDuration p > 0 \<and> pressureExceeded pressure then
        case ShouldActivateLimits (ck_ioNow ck) (ck_ioSince ck) (maxPercent pressure) (f_of_int (iop_Threshold p))
               (seconds (iop_ThresholdDuration p)) t of
          (t', ready) \<Rightarrow> if \<not> ready then (t', False, True) else (t', True, False)
      else (ThresholdTracker_Reset t, pressureExceeded pressure, False))"

definition resetStability :: "('a decision_state_scheme) \<Rightarrow> 'a decision_state_scheme" where
  "resetStability m = (case stabilityTracker m of None \<Rightarrow> m
     | Some t \<Rightarrow> m\<lparr> stabilityTracker := Some (UserStabilityTracker_Reset t) \<rparr>)"

definition resetActivation :: "('a decision_state_scheme) \<Rightarrow> 'a decision_state_scheme" where
  "resetActivation m = m\<lparr> thresholdTracker := ThresholdTracker_Reset (thresholdTracker m),
     ioThresholdTracker := ThresholdTracker_Reset (ioThresholdTracker m) \<rparr>"

text \<open>The branch taken while limits are active.\<close>

definition decideActive ::
  "decision_config \<Rightarrow> clock \<Rightarrow> gotime \<Rightarrow> system_metrics \<Rightarrow> f64 \<Rightarrow> bool \<Rightarrow> bool \<Rightarrow>
   'a decision_state_scheme \<Rightarrow> 'a decision_state_scheme \<times> string \<times> decision_reason" where
  "decideActive cfg ck appliedTime metrics cpuHostPercent cpuMeasurable allBelow m =
     (let p = GetIODecisionPolicy cfg in
      if goSub (Some (ck_appliedSince ck)) appliedTime < seconds (MinActiveTime cfg)
      then (m, decisionMaintain, WaitingMinimumActivation)
      else if ioCoverageIncomplete p metrics
      then (resetStability m, decisionMaintain,
            ioCoverageReason metrics (blockIOPSCoverageIncomplete p metrics) ''current limits cannot be released safely'')
      else if allBelow then
        let tracker = (case stabilityTracker m of None \<Rightarrow> newUserStabilityTracker | Some t \<Rightarrow> t)
        in case AllBelowThreshold (map fst (activeUsers m)) (UserMetrics metrics)
                  (f_mul (f_of_int (CPUReleaseThreshold cfg)) (f_of_int (TotalCores metrics)))
                  (wrap64 (wrap64 (3 * PollingInterval cfg) * 1000000000)) (Some (ck_stabilityNow ck)) tracker of
             (tracker', isStable) \<Rightarrow>
               let m1 = m\<lparr> stabilityTracker := Some tracker' \<rparr>
               in if \<not> SystemUnderLoad metrics \<and> isStable
                  then (resetActivation m1, decisionDeactivate, buildDeactivateReason cpuHostPercent (CPUReleaseThreshold cfg))
                  else if \<not> isStable then (m1, decisionMaintain, WaitingStability)
                  else (m1, decisionMaintain, BelowButUnderLoad)
      else (resetStability m, decisionMaintain,
            if \<not> cpuMeasurable then CPUUnmeasurable else StillAboveRelease))"

text \<open>The branch taken while no limits are active.\<close>

definition decideInactive ::
  "decision_config \<Rightarrow> clock \<Rightarrow> system_metrics \<Rightarrow> f64 \<Rightarrow> bool \<Rightarrow> bool \<Rightarrow> bool \<Rightarrow> bool \<Rightarrow> io_pressure \<Rightarrow>
   'a decision_state_scheme \<Rightarrow> 'a decision_state_scheme \<times> string \<times> decision_reason" where
  "decideInactive cfg ck metrics cpuHostPercent cpuMeasurable cpuEx ramEx ioEx pressure m =
     (let p = GetIODecisionPolicy cfg; attribution = measureCPULoadAttribution (Some metrics) in
      if cpuEx \<or> ramEx \<or> ioEx then
        if \<not> IgnoreSystemLoad cfg \<and> SystemUnderLoad metrics \<and> \<not> measurable attribution
        then (m, decisionMaintain, AttributionUnavailable)
        else if \<not> IgnoreSystemLoad cfg \<and> SystemUnderLoad metrics \<and>
                f_lt (eligibleShare attribution) minimumEligibleCPUShare
        then (m, decisionMaintain, ExternalLoad (f_mul (eligibleShare attribution) (f_of_int 100)))
        else
          let guarded = cpuEx \<and> CPUThresholdDuration cfg > 0;
              answer = ShouldActivateLimits (ck_cpuNow ck) (ck_cpuSince ck) cpuHostPercent
                         (f_of_int (CPUThreshold cfg)) (seconds (CPUThresholdDuration cfg)) (thresholdTracker m);
              m1 = (if guarded then m\<lparr> thresholdTracker := fst answer \<rparr> else m)
          in if guarded \<and> \<not> snd answer \<and> \<not> ramEx \<and> \<not> ioEx
             then (m1, decisionMaintain,
                   CPUThresholdWaiting
                     (wrap64 (seconds (CPUThresholdDuration cfg) - GetElapsed (ck_cpuElapsed ck) (thresholdTracker m1)))
                     cpuHostPercent (CPUThreshold cfg))
             else (m1, decisionActivate,
                   buildActivateReason cfg cpuEx ramEx ioEx cpuHostPercent (CPUThreshold cfg) pressure (iop_Threshold p))
      else if ioCoverageIncomplete p metrics
      then (resetActivation m, decisionMaintain,
            ioCoverageReason metrics (blockIOPSCoverageIncomplete p metrics) ''zero pressure is not established'')
      else (resetActivation m, decisionMaintain,
            if \<not> cpuMeasurable then CPUUnmeasurable else WithinNormalRange))"

definition makeDecision ::
  "decision_config \<Rightarrow> clock \<Rightarrow> 'a decision_state_scheme \<Rightarrow> system_metrics \<Rightarrow>
   'a decision_state_scheme \<times> string \<times> decision_reason" where
  "makeDecision cfg ck m metrics =
     (let active = limitsActive m \<or> resourceLimitsActive m;
          appliedTime = (if goAfter (resourceLimitsAppliedTime m) (limitsAppliedTime m)
                         then resourceLimitsAppliedTime m else limitsAppliedTime m)
      in case eligibleHostCPUPercent (Some metrics) of (cpuHostPercent, cpuMeasurable) \<Rightarrow>
        let cpuEx = cpuMeasurable \<and> f_ge cpuHostPercent (f_of_int (CPUThreshold cfg));
            ramEx = ramExceeded cfg metrics;
            p = GetIODecisionPolicy cfg;
            pressure = evaluateIOPressure p metrics (iop_Threshold p)
        in case ioDurationGuard ck p pressure (ioThresholdTracker m) of (ioTracker, ioEx, ioPending) \<Rightarrow>
          let m1 = m\<lparr> ioThresholdTracker := ioTracker \<rparr>
          in if \<not> (cpuEx \<or> ramEx \<or> ioEx) \<and> ioPending
             then (m1\<lparr> thresholdTracker := ThresholdTracker_Reset (thresholdTracker m1) \<rparr>, decisionMaintain,
                   IOThresholdWaiting
                     (wrap64 (seconds (iop_ThresholdDuration p) - GetElapsed (ck_ioElapsed ck) ioTracker))
                     (maxPercent pressure) (iop_Threshold p))
             else
               let cpuBelow = (cpuMeasurable \<and> f_lt cpuHostPercent (f_of_int (CPUReleaseThreshold cfg)));
                   ioBelow = (\<not> ioCoverageIncomplete p metrics \<and>
                              \<not> pressureExceeded (evaluateIOPressure p metrics (iop_ReleaseThreshold p)));
                   allBelow = (cpuBelow \<and> ramBelow cfg metrics \<and> ioBelow)
               in if active then decideActive cfg ck appliedTime metrics cpuHostPercent cpuMeasurable allBelow m1
                  else decideInactive cfg ck metrics cpuHostPercent cpuMeasurable cpuEx ramEx ioEx pressure m1)"

section \<open>Validation of the thresholds\<close>

text \<open>The checks of \<^verbatim>\<open>validateConfig\<close> on the values a decision compares, with their messages.\<close>

definition checkThreshold :: "string \<Rightarrow> int \<Rightarrow> int \<Rightarrow> string list" where
  "checkThreshold key activation release =
     (if activation < 1 \<or> activation > 100 then [key @ ''_THRESHOLD must be between 1 and 100''] else []) @
     (if release < 1 \<or> release > 100 then [key @ ''_RELEASE_THRESHOLD must be between 1 and 100''] else []) @
     (if activation \<le> release then [key @ ''_THRESHOLD must be greater than '' @ key @ ''_RELEASE_THRESHOLD''] else [])"

definition validateDecisionThresholds :: "decision_config \<Rightarrow> string list" where
  "validateDecisionThresholds cfg =
     checkThreshold ''CPU'' (CPUThreshold cfg) (CPUReleaseThreshold cfg) @
     (if CPUThresholdDuration cfg < 0 then [''CPU_THRESHOLD_DURATION cannot be negative''] else []) @
     (if PollingInterval cfg < 5 then [''POLLING_INTERVAL must be at least 5 seconds''] else []) @
     (if RAMEnabled cfg then checkThreshold ''RAM'' (RAMThreshold cfg) (RAMReleaseThreshold cfg) else []) @
     (if IOEnabled cfg then checkThreshold ''IO'' (IOThreshold cfg) (IOReleaseThreshold cfg) else [])"

lemma checkThreshold_ok:
  "checkThreshold key a r = [] \<longleftrightarrow> 1 \<le> r \<and> r < a \<and> a \<le> 100"
  by (auto simp: checkThreshold_def)

lemma validated_thresholds:
  "validateDecisionThresholds cfg = [] \<longleftrightarrow>
     1 \<le> CPUReleaseThreshold cfg \<and> CPUReleaseThreshold cfg < CPUThreshold cfg \<and> CPUThreshold cfg \<le> 100 \<and>
     0 \<le> CPUThresholdDuration cfg \<and> 5 \<le> PollingInterval cfg \<and>
     (RAMEnabled cfg \<longrightarrow> 1 \<le> RAMReleaseThreshold cfg \<and> RAMReleaseThreshold cfg < RAMThreshold cfg \<and> RAMThreshold cfg \<le> 100) \<and>
     (IOEnabled cfg \<longrightarrow> 1 \<le> IOReleaseThreshold cfg \<and> IOReleaseThreshold cfg < IOThreshold cfg \<and> IOThreshold cfg \<le> 100)"
  by (auto simp: validateDecisionThresholds_def checkThreshold_ok)

section \<open>What each decision needs\<close>

lemma decision_distinct [simp]:
  "decisionActivate \<noteq> decisionMaintain" "decisionActivate \<noteq> decisionDeactivate"
  "decisionMaintain \<noteq> decisionActivate" "decisionMaintain \<noteq> decisionDeactivate"
  "decisionDeactivate \<noteq> decisionActivate" "decisionDeactivate \<noteq> decisionMaintain"
  by (simp_all add: decisionActivate_def decisionMaintain_def decisionDeactivate_def)

text \<open>The names the code gives to the values it compares.\<close>

definition cpuExceeded :: "decision_config \<Rightarrow> system_metrics \<Rightarrow> bool" where
  "cpuExceeded cfg sm \<longleftrightarrow> TotalCores sm > 0 \<and>
     f_ge (f_div (CPUEligibleCPUUsage sm) (f_of_int (TotalCores sm))) (f_of_int (CPUThreshold cfg))"

definition cpuBelow :: "decision_config \<Rightarrow> system_metrics \<Rightarrow> bool" where
  "cpuBelow cfg sm \<longleftrightarrow> TotalCores sm > 0 \<and>
     f_lt (f_div (CPUEligibleCPUUsage sm) (f_of_int (TotalCores sm))) (f_of_int (CPUReleaseThreshold cfg))"

definition ioActivationPressure :: "decision_config \<Rightarrow> system_metrics \<Rightarrow> io_pressure" where
  "ioActivationPressure cfg sm = evaluateIOPressure (GetIODecisionPolicy cfg) sm (IOThreshold cfg)"

definition ioBelow :: "decision_config \<Rightarrow> system_metrics \<Rightarrow> bool" where
  "ioBelow cfg sm \<longleftrightarrow> \<not> ioCoverageIncomplete (GetIODecisionPolicy cfg) sm \<and>
     \<not> pressureExceeded (evaluateIOPressure (GetIODecisionPolicy cfg) sm (IOReleaseThreshold cfg))"

text \<open>The instant from which the minimum activation time runs.\<close>

definition lastAppliedTime :: "'a decision_state_scheme \<Rightarrow> gotime" where
  "lastAppliedTime m = (if goAfter (resourceLimitsAppliedTime m) (limitsAppliedTime m)
     then resourceLimitsAppliedTime m else limitsAppliedTime m)"

definition stabilityDuration :: "decision_config \<Rightarrow> int" where
  "stabilityDuration cfg = wrap64 (wrap64 (3 * PollingInterval cfg) * 1000000000)"

definition userReleaseThreshold :: "decision_config \<Rightarrow> system_metrics \<Rightarrow> f64" where
  "userReleaseThreshold cfg sm = f_mul (f_of_int (CPUReleaseThreshold cfg)) (f_of_int (TotalCores sm))"

definition stabilityAnswer ::
  "decision_config \<Rightarrow> clock \<Rightarrow> 'a decision_state_scheme \<Rightarrow> system_metrics \<Rightarrow> stability_tracker \<times> bool" where
  "stabilityAnswer cfg ck m sm =
     AllBelowThreshold (map fst (activeUsers m)) (UserMetrics sm) (userReleaseThreshold cfg sm)
       (stabilityDuration cfg) (Some (ck_stabilityNow ck))
       (case stabilityTracker m of None \<Rightarrow> newUserStabilityTracker | Some t \<Rightarrow> t)"

lemma GetIODecisionPolicy_sel [simp]:
  "iop_Enabled (GetIODecisionPolicy c) = IOEnabled c" "iop_Threshold (GetIODecisionPolicy c) = IOThreshold c"
  "iop_ReleaseThreshold (GetIODecisionPolicy c) = IOReleaseThreshold c"
  "iop_ThresholdDuration (GetIODecisionPolicy c) = IOThresholdDuration c"
  "iop_ReadBPS (GetIODecisionPolicy c) = IOReadBPS c" "iop_WriteBPS (GetIODecisionPolicy c) = IOWriteBPS c"
  "iop_ReadIOPS (GetIODecisionPolicy c) = IOReadIOPS c" "iop_WriteIOPS (GetIODecisionPolicy c) = IOWriteIOPS c"
  by (simp_all add: GetIODecisionPolicy_def)

lemma eligibleHostCPUPercent_Some:
  "eligibleHostCPUPercent (Some sm) =
     (if TotalCores sm > 0 then f_div (CPUEligibleCPUUsage sm) (f_of_int (TotalCores sm)) else f_zero,
      TotalCores sm > 0)"
  by (simp add: eligibleHostCPUPercent_def)

text \<open>The decision in these terms.\<close>

lemma makeDecision_eq:
  "makeDecision cfg ck m sm =
     (let p = GetIODecisionPolicy cfg;
          pct = (if TotalCores sm > 0 then f_div (CPUEligibleCPUUsage sm) (f_of_int (TotalCores sm)) else f_zero)
      in case ioDurationGuard ck p (ioActivationPressure cfg sm) (ioThresholdTracker m) of (t, ioEx, pending) \<Rightarrow>
        let m1 = m\<lparr> ioThresholdTracker := t \<rparr>
        in if \<not> (cpuExceeded cfg sm \<or> ramExceeded cfg sm \<or> ioEx) \<and> pending
           then (m1\<lparr> thresholdTracker := ThresholdTracker_Reset (thresholdTracker m1) \<rparr>, decisionMaintain,
                 IOThresholdWaiting (wrap64 (seconds (IOThresholdDuration cfg) - GetElapsed (ck_ioElapsed ck) t))
                   (maxPercent (ioActivationPressure cfg sm)) (IOThreshold cfg))
           else if limitsActive m \<or> resourceLimitsActive m
           then decideActive cfg ck (lastAppliedTime m) sm pct (TotalCores sm > 0)
                  (cpuBelow cfg sm \<and> ramBelow cfg sm \<and> ioBelow cfg sm) m1
           else decideInactive cfg ck sm pct (TotalCores sm > 0) (cpuExceeded cfg sm) (ramExceeded cfg sm) ioEx
                  (ioActivationPressure cfg sm) m1)"
  unfolding makeDecision_def Let_def eligibleHostCPUPercent_Some lastAppliedTime_def [symmetric]
  by (cases "0 < TotalCores sm"; cases "ioDurationGuard ck (GetIODecisionPolicy cfg)
         (evaluateIOPressure (GetIODecisionPolicy cfg) sm (IOThreshold cfg)) (ioThresholdTracker m)")
    (simp_all add: cpuExceeded_def cpuBelow_def ioActivationPressure_def ioBelow_def cong: if_cong)

lemma decideActive_decision:
  "decideActive cfg ck a sm pct ms allBelow m = (m', d, r) \<Longrightarrow> d = decisionMaintain \<or> d = decisionDeactivate"
  by (auto simp: decideActive_def Let_def split: prod.splits if_splits)

lemma decideInactive_decision:
  "decideInactive cfg ck sm pct ms a b c pr m = (m', d, r) \<Longrightarrow> d = decisionMaintain \<or> d = decisionActivate"
  by (auto simp: decideInactive_def Let_def split: if_splits)

lemma decideActive_release:
  assumes "decideActive cfg ck a sm pct ms allBelow m = (m', decisionDeactivate, r)"
  shows "goSub (Some (ck_appliedSince ck)) a \<ge> seconds (MinActiveTime cfg) \<and>
     \<not> ioCoverageIncomplete (GetIODecisionPolicy cfg) sm \<and> allBelow \<and> \<not> SystemUnderLoad sm \<and>
     snd (stabilityAnswer cfg ck m sm)"
  using assms
  by (auto simp: decideActive_def Let_def stabilityAnswer_def userReleaseThreshold_def stabilityDuration_def
      split: prod.splits if_splits)

lemma decideInactive_activate:
  assumes "decideInactive cfg ck sm pct ms a b c pr m = (m', decisionActivate, r)"
  shows "(a \<or> b \<or> c) \<and>
     (IgnoreSystemLoad cfg \<or> \<not> SystemUnderLoad sm \<or>
      measurable (measureCPULoadAttribution (Some sm)) \<and>
      \<not> f_lt (eligibleShare (measureCPULoadAttribution (Some sm))) minimumEligibleCPUShare) \<and>
     (b \<or> c \<or> CPUThresholdDuration cfg \<le> 0 \<or>
      snd (ShouldActivateLimits (ck_cpuNow ck) (ck_cpuSince ck) pct (f_of_int (CPUThreshold cfg))
             (seconds (CPUThresholdDuration cfg)) (thresholdTracker m))) \<and>
     r = buildActivateReason cfg a b c pct (CPUThreshold cfg) pr (IOThreshold cfg)"
  using assms by (auto simp: decideInactive_def Let_def split: if_splits)

lemma stabilityAnswer_io [simp]:
  "stabilityAnswer cfg ck (m\<lparr> ioThresholdTracker := t \<rparr>) sm = stabilityAnswer cfg ck m sm"
  by (simp add: stabilityAnswer_def)

lemma makeDecision_release:
  assumes "makeDecision cfg ck m sm = (m', decisionDeactivate, r)"
  shows "(limitsActive m \<or> resourceLimitsActive m) \<and>
     goSub (Some (ck_appliedSince ck)) (lastAppliedTime m) \<ge> seconds (MinActiveTime cfg) \<and>
     cpuBelow cfg sm \<and> ramBelow cfg sm \<and> ioBelow cfg sm \<and> \<not> SystemUnderLoad sm \<and>
     snd (stabilityAnswer cfg ck m sm)"
  using assms unfolding makeDecision_eq Let_def
  by (auto split: prod.splits if_splits dest!: decideActive_release dest: decideInactive_decision)

section \<open>The trackers over a sequence of samples\<close>

text \<open>The samples of the uninterrupted run of samples with a property that ends with the last one.\<close>

definition currentRun :: "('a \<Rightarrow> bool) \<Rightarrow> 'a list \<Rightarrow> 'a list" where
  "currentRun P xs = rev (takeWhile P (rev xs))"

lemma currentRun_Nil [simp]: "currentRun P [] = []"
  by (simp add: currentRun_def)

lemma currentRun_snoc [simp]: "currentRun P (xs @ [x]) = (if P x then currentRun P xs @ [x] else [])"
  by (simp add: currentRun_def)

lemma currentRun_suffix: "\<exists>ys. xs = ys @ currentRun P xs \<and> (ys = [] \<or> \<not> P (last ys)) \<and> (\<forall>x \<in> set (currentRun P xs). P x)"
proof -
  have "rev xs = takeWhile P (rev xs) @ dropWhile P (rev xs)" by simp
  then have "xs = rev (dropWhile P (rev xs)) @ currentRun P xs" by (metis currentRun_def rev_append rev_rev_ident)
  moreover have "dropWhile P (rev xs) = [] \<or> \<not> P (hd (dropWhile P (rev xs)))" using hd_dropWhile by blast
  ultimately show ?thesis
    by (intro exI [of _ "rev (dropWhile P (rev xs))"]) (auto simp: currentRun_def last_rev dest: set_takeWhileD)
qed

text \<open>
  The contract both trackers share. A tracker remembers when the current run of good samples
  started: a good sample keeps the start or sets it, another one clears it. \<open>ok\<close> relates the time
  of a sample to an earlier start for which the contract holds.
\<close>

locale run_tracker =
  fixes call :: "'x \<Rightarrow> 't \<Rightarrow> 't" and startOf :: "'t \<Rightarrow> 's option"
    and good :: "'x \<Rightarrow> bool" and stamp :: "'x \<Rightarrow> 's" and ok :: "'s \<Rightarrow> 's \<Rightarrow> bool"
  assumes step: "(\<And>s. startOf t = Some s \<Longrightarrow> ok (stamp x) s) \<Longrightarrow>
    startOf (call x t) = (if good x then Some (case startOf t of None \<Rightarrow> stamp x | Some s \<Rightarrow> s) else None)"
begin

lemma start_of_run:
  assumes "startOf t0 = None" "sorted_wrt (\<lambda>a b. ok (stamp b) (stamp a)) xs"
  shows "startOf (fold call xs t0) =
    (if currentRun good xs = [] then None else Some (stamp (hd (currentRun good xs))))"
  using assms(2)
proof (induction xs rule: rev_induct)
  case (snoc x xs)
  have mem: "currentRun good xs \<noteq> [] \<Longrightarrow> hd (currentRun good xs) \<in> set xs"
    using currentRun_suffix [of xs good] by (metis Un_iff hd_in_set set_append)
  have IH: "startOf (fold call xs t0) =
    (if currentRun good xs = [] then None else Some (stamp (hd (currentRun good xs))))"
    using snoc by (simp add: sorted_wrt_append)
  have old: "startOf (fold call xs t0) = Some s \<Longrightarrow> ok (stamp x) s" for s
    using IH mem snoc.prems by (auto simp: sorted_wrt_append split: if_splits)
  have "startOf (call x (fold call xs t0)) =
    (if good x then Some (case startOf (fold call xs t0) of None \<Rightarrow> stamp x | Some s \<Rightarrow> s) else None)"
    by (rule step [OF old])
  then show ?case using IH by (auto simp: hd_append)
qed (simp add: assms(1))

lemma start_runs_good:
  assumes "startOf t0 = None" "sorted_wrt (\<lambda>a b. ok (stamp b) (stamp a)) xs" "startOf (fold call xs t0) = Some s"
  shows "\<exists>ys z zs. xs = ys @ z # zs \<and> s = stamp z \<and> (\<forall>x \<in> set (z # zs). good x) \<and> (ys = [] \<or> \<not> good (last ys))"
proof -
  have ne: "currentRun good xs \<noteq> []" and s: "s = stamp (hd (currentRun good xs))"
    using start_of_run [OF assms(1,2)] assms(3) by (auto split: if_splits)
  then obtain z zs where z: "currentRun good xs = z # zs" by (cases "currentRun good xs") auto
  obtain ys where "xs = ys @ currentRun good xs" "ys = [] \<or> \<not> good (last ys)"
    "\<forall>x \<in> set (currentRun good xs). good x"
    using currentRun_suffix [of xs good] by blast
  then show ?thesis using z s by (intro exI [of _ ys] exI [of _ z] exI [of _ zs]) auto
qed

end

text \<open>One call of \<open>AllBelowThreshold\<close>: the limited users, the sample, the threshold and the time.\<close>

record stability_sample =
  ss_users :: "int list"
  ss_metrics :: "(int \<times> user_metrics option) list"
  ss_threshold :: f64
  ss_now :: int

definition belowIn :: "int \<Rightarrow> stability_sample \<Rightarrow> bool" where
  "belowIn uid x \<longleftrightarrow> uid \<in> set (ss_users x) \<and> \<not> notBelow (ss_metrics x) (ss_threshold x) uid"

definition stabilityCall :: "int \<Rightarrow> stability_sample \<Rightarrow> stability_tracker \<Rightarrow> stability_tracker \<times> bool" where
  "stabilityCall d x t = AllBelowThreshold (ss_users x) (ss_metrics x) (ss_threshold x) d (Some (ss_now x)) t"

definition stabilityRun :: "int \<Rightarrow> stability_sample list \<Rightarrow> stability_tracker \<Rightarrow> stability_tracker" where
  "stabilityRun d xs t = fold (\<lambda>x t. fst (stabilityCall d x t)) xs t"

text \<open>One user's step does not touch another user's entry.\<close>

lemma stabilityStep_other:
  "u \<noteq> v \<Longrightarrow> map_of (fst (stabilityStep um th d now v st)) u = map_of (fst st) u"
  by (auto simp: stabilityStep_def split: prod.splits option.splits)

lemma stabilityFold_other:
  "u \<notin> set us \<Longrightarrow> map_of (fst (fold (stabilityStep um th d now) us st)) u = map_of (fst st) u"
proof (induction us arbitrary: st)
  case (Cons v us)
  then show ?case using stabilityStep_other [of u v] by simp
qed simp

text \<open>A stable answer needs an entry of sufficient age for every user, kept from before the call.\<close>

lemma stabilityStep_stable:
  assumes "snd (stabilityStep um th d now u st)"
  shows "snd st \<and> \<not> notBelow um th u \<and>
     (\<exists>s. map_of (fst st) u = Some s \<and> \<not> goBefore now s \<and> d \<le> goSub now s) \<and>
     stabilityStep um th d now u st = st"
  using assms by (auto simp: stabilityStep_def not_less split: prod.splits option.splits if_splits)

lemma stabilityFold_stable:
  assumes "snd (fold (stabilityStep um th d now) us st)"
  shows "snd st \<and> fold (stabilityStep um th d now) us st = st \<and>
     (\<forall>u \<in> set us. \<not> notBelow um th u \<and>
       (\<exists>s. map_of (fst st) u = Some s \<and> \<not> goBefore now s \<and> d \<le> goSub now s))"
  using assms
proof (induction us arbitrary: st)
  case (Cons v us)
  then have IH: "snd (stabilityStep um th d now v st)" by simp
  note v = stabilityStep_stable [OF IH]
  then show ?case using Cons by auto
qed simp

lemma map_of_filter_key: "map_of (filter (\<lambda>e. fst e \<in> A) al) u = (if u \<in> A then map_of al u else None)"
  by (induction al) auto

text \<open>The same for the activation tracker: one call of \<open>ShouldActivateLimits\<close>.\<close>

record threshold_sample =
  ts_current :: f64
  ts_threshold :: f64
  ts_now :: int
  ts_since :: int

definition thresholdCall :: "int \<Rightarrow> threshold_sample \<Rightarrow> threshold_tracker \<Rightarrow> threshold_tracker \<times> bool" where
  "thresholdCall d x t = ShouldActivateLimits (ts_now x) (ts_since x) (ts_current x) (ts_threshold x) d t"

definition thresholdRun :: "int \<Rightarrow> threshold_sample list \<Rightarrow> threshold_tracker \<Rightarrow> threshold_tracker" where
  "thresholdRun d xs t = fold (\<lambda>x t. fst (thresholdCall d x t)) xs t"

abbreviation overIn :: "threshold_sample \<Rightarrow> bool" where
  "overIn x \<equiv> f_ge (ts_current x) (ts_threshold x)"

lemma thresholdCall_first:
  "firstOverThresholdTime (fst (thresholdCall d x t)) =
     (if overIn x then (if firstOverThresholdTime t = None then Some (ts_now x) else firstOverThresholdTime t) else None)"
  by (simp add: thresholdCall_def ShouldActivateLimits_def Let_def)

lemma thresholdCall_ready:
  "snd (thresholdCall d x t) \<longleftrightarrow> overIn x \<and>
     d \<le> goSub (Some (ts_since x)) (firstOverThresholdTime (fst (thresholdCall d x t)))"
  by (simp add: thresholdCall_def ShouldActivateLimits_def Let_def)

interpretation threshold_run: run_tracker "\<lambda>x t. fst (thresholdCall d x t)"
  firstOverThresholdTime overIn ts_now "\<lambda>a b. True"
  by unfold_locales (simp add: thresholdCall_first split: option.split)

lemma stabilityStep_since:
  "map_of (fst (stabilityStep um th d now u st)) u =
     (if notBelow um th u then None
      else case map_of (fst st) u of None \<Rightarrow> Some now | Some s \<Rightarrow> Some (if goBefore now s then now else s))"
  by (auto simp: stabilityStep_def split: prod.splits option.splits)

lemma goBefore_irrefl [simp]: "\<not> goBefore t t"
  by (cases t) (simp_all add: goBefore_def)

lemma stabilityFold_since:
  "u \<in> set us \<Longrightarrow> map_of (fst (fold (stabilityStep um th d now) us st)) u =
     (if notBelow um th u then None
      else case map_of (fst st) u of None \<Rightarrow> Some now | Some s \<Rightarrow> Some (if goBefore now s then now else s))"
proof (induction us arbitrary: st)
  case (Cons v us)
  show ?case
  proof (cases "u \<in> set us")
    case True
    then show ?thesis using Cons.IH [OF True, of "stabilityStep um th d now v st"] stabilityStep_other [of u v]
        stabilityStep_since [of um th d now u st] by (cases "u = v") (auto split: option.splits)
  next
    case False
    then have "u = v" using Cons.prems by simp
    then show ?thesis using stabilityFold_other [OF False] stabilityStep_since [of um th d now u st] by simp
  qed
qed simp

lemma stabilityCall_since:
  "map_of (belowThresholdSince (fst (stabilityCall d x t))) u =
     (if belowIn u x then
        (case map_of (belowThresholdSince t) u of None \<Rightarrow> Some (Some (ss_now x))
         | Some s \<Rightarrow> Some (if goBefore (Some (ss_now x)) s then Some (ss_now x) else s))
      else None)"
  using stabilityFold_since [of u "ss_users x" "ss_metrics x" "ss_threshold x" d "Some (ss_now x)" "(belowThresholdSince t, True)"]
  by (auto simp: stabilityCall_def AllBelowThreshold_def map_of_filter_key belowIn_def split: prod.splits)

text \<open>The stability tracker keeps a start only while the clock does not run backwards.\<close>

interpretation stability_run: run_tracker "\<lambda>x t. fst (stabilityCall d x t)"
  "\<lambda>t. map_of (belowThresholdSince t) u" "belowIn u" "\<lambda>x. Some (ss_now x)" "\<lambda>a b. \<not> goBefore a b"
  by unfold_locales (auto simp: stabilityCall_since split: option.split)

lemma stabilityFold_stable_iff:
  "snd (fold (stabilityStep um th d now) us st) \<longleftrightarrow> snd st \<and>
     (\<forall>u \<in> set us. \<not> notBelow um th u \<and>
       (\<exists>s. map_of (fst st) u = Some s \<and> \<not> goBefore now s \<and> d \<le> goSub now s))"
proof
  assume "snd st \<and> (\<forall>u \<in> set us. \<not> notBelow um th u \<and>
     (\<exists>s. map_of (fst st) u = Some s \<and> \<not> goBefore now s \<and> d \<le> goSub now s))"
  then show "snd (fold (stabilityStep um th d now) us st)"
  proof (induction us)
    case (Cons v us)
    have "stabilityStep um th d now v st = st"
      using Cons.prems by (auto simp: stabilityStep_def split: prod.splits)
    then show ?case using Cons by simp
  qed simp
qed (use stabilityFold_stable in blast)

lemma stabilityCall_stable_iff:
  "snd (stabilityCall d x t) \<longleftrightarrow>
     (\<forall>u \<in> set (ss_users x). belowIn u x \<and> (\<exists>s. map_of (belowThresholdSince t) u = Some s \<and>
        \<not> goBefore (Some (ss_now x)) s \<and> d \<le> goSub (Some (ss_now x)) s))"
proof -
  have "snd (stabilityCall d x t) = snd (fold (stabilityStep (ss_metrics x) (ss_threshold x) d (Some (ss_now x)))
     (ss_users x) (belowThresholdSince t, True))"
    by (simp add: stabilityCall_def AllBelowThreshold_def split: prod.splits)
  then show ?thesis unfolding stabilityFold_stable_iff by (auto simp: belowIn_def)
qed

section \<open>Properties of the trackers\<close>

text \<open>
  Property C11: the activation guard is a wall-clock guard. After any sequence of samples from a reset
  tracker, \<open>ShouldActivateLimits\<close> answers yes exactly when the sample is at or above the threshold
  and the uninterrupted run of such samples that it ends began at least the required duration
  before the clock reading of this call.
\<close>

theorem activation_guard_exact:
  "snd (thresholdCall d x (thresholdRun d xs (ThresholdTracker_Reset t))) \<longleftrightarrow>
     overIn x \<and> d \<le> goSub (Some (ts_since x)) (Some (ts_now (hd (currentRun overIn (xs @ [x])))))"
proof -
  have "firstOverThresholdTime (fst (thresholdCall d x (thresholdRun d xs (ThresholdTracker_Reset t)))) =
     (if overIn x then Some (ts_now (hd (currentRun overIn (xs @ [x])))) else None)"
    using threshold_run.start_of_run [of "ThresholdTracker_Reset t" "xs @ [x]" d]
    by (simp add: thresholdRun_def ThresholdTracker_Reset_def)
  then show ?thesis unfolding thresholdCall_ready by auto
qed

text \<open>
  Property C12: the release guard is a wall-clock guard per user. With a clock that does not run
  backwards, from a fresh or reset tracker, \<open>AllBelowThreshold\<close> answers yes exactly when every listed
  user is below the threshold in this sample and the uninterrupted run of samples in which it was
  listed and below began at least the required duration ago, in an earlier sample.
\<close>

theorem release_guard_exact:
  assumes "sorted (map ss_now (xs @ [x]))"
  shows "snd (stabilityCall d x (stabilityRun d xs (UserStabilityTracker_Reset t))) \<longleftrightarrow>
     (\<forall>u \<in> set (ss_users x). belowIn u x \<and> currentRun (belowIn u) xs \<noteq> [] \<and>
        d \<le> goSub (Some (ss_now x)) (Some (ss_now (hd (currentRun (belowIn u) xs)))))"
proof -
  have srt: "sorted_wrt (\<lambda>a b. \<not> goBefore (Some (ss_now b)) (Some (ss_now a))) (xs @ [x])"
    using assms unfolding sorted_map by (simp add: goBefore_def not_less)
  have since: "map_of (belowThresholdSince (stabilityRun d xs (UserStabilityTracker_Reset t))) u =
     (if currentRun (belowIn u) xs = [] then None else Some (Some (ss_now (hd (currentRun (belowIn u) xs)))))" for u
    using stability_run.start_of_run [of "UserStabilityTracker_Reset t" u xs d] srt
    by (simp add: stabilityRun_def UserStabilityTracker_Reset_def sorted_wrt_append)
  have mem: "currentRun (belowIn u) xs \<noteq> [] \<Longrightarrow> hd (currentRun (belowIn u) xs) \<in> set xs" for u
    using currentRun_suffix [of xs "belowIn u"] by (metis Un_iff hd_in_set set_append)
  have "currentRun (belowIn u) xs \<noteq> [] \<Longrightarrow>
     \<not> goBefore (Some (ss_now x)) (Some (ss_now (hd (currentRun (belowIn u) xs))))" for u
    using srt mem by (auto simp: sorted_wrt_append)
  then show ?thesis unfolding stabilityCall_stable_iff since by auto
qed

definition sampleBelow :: "int \<Rightarrow> stability_sample" where
  "sampleBelow now = \<lparr> ss_users = [1000], ss_metrics = [(1000, Some \<lparr> um_CPUUsageEMA = Fin 10 \<rparr>)],
     ss_threshold = Fin 40, ss_now = now \<rparr>"

theorem release_guard_exact_witness:
  "snd (stabilityCall 90 (sampleBelow 100) (stabilityRun 90 [sampleBelow 10, sampleBelow 50] (UserStabilityTracker_Reset newUserStabilityTracker)))"
  using release_guard_exact [of "[sampleBelow 10, sampleBelow 50]" "sampleBelow 100" 90 newUserStabilityTracker]
  by (simp add: sampleBelow_def belowIn_def notBelow_def currentRun_def minDuration_def maxDuration_def)

section \<open>Properties of the decision\<close>

lemma goSub_antimono: "\<not> goBefore a b \<Longrightarrow> goSub (Some t) a \<le> goSub (Some t) b"
  by (auto simp: goSub_def goBefore_def maxDuration_def minDuration_def split: option.splits)

lemma lastAppliedTime_le:
  "goSub (Some t) (lastAppliedTime m) \<le> goSub (Some t) (limitsAppliedTime m)"
  "goSub (Some t) (lastAppliedTime m) \<le> goSub (Some t) (resourceLimitsAppliedTime m)"
proof -
  have "\<not> goBefore (lastAppliedTime m) (limitsAppliedTime m)" "\<not> goBefore (lastAppliedTime m) (resourceLimitsAppliedTime m)"
    by (auto simp: lastAppliedTime_def goBefore_def split: option.splits)
  then show "goSub (Some t) (lastAppliedTime m) \<le> goSub (Some t) (limitsAppliedTime m)"
    "goSub (Some t) (lastAppliedTime m) \<le> goSub (Some t) (resourceLimitsAppliedTime m)"
    by (simp_all add: goSub_antimono)
qed

text \<open>Whether I/O pressure has lasted as long as the configuration asks.\<close>

definition ioReady :: "decision_config \<Rightarrow> clock \<Rightarrow> 'a decision_state_scheme \<Rightarrow> system_metrics \<Rightarrow> bool" where
  "ioReady cfg ck m sm \<longleftrightarrow> pressureExceeded (ioActivationPressure cfg sm) \<and>
     (IOThresholdDuration cfg \<le> 0 \<or>
      snd (ShouldActivateLimits (ck_ioNow ck) (ck_ioSince ck) (maxPercent (ioActivationPressure cfg sm))
        (f_of_int (IOThreshold cfg)) (seconds (IOThresholdDuration cfg)) (ioThresholdTracker m)))"

text \<open>Whether CPU pressure has lasted as long as the configuration asks.\<close>

definition cpuReady :: "decision_config \<Rightarrow> clock \<Rightarrow> 'a decision_state_scheme \<Rightarrow> system_metrics \<Rightarrow> bool" where
  "cpuReady cfg ck m sm \<longleftrightarrow> cpuExceeded cfg sm \<and>
     (CPUThresholdDuration cfg \<le> 0 \<or>
      snd (ShouldActivateLimits (ck_cpuNow ck) (ck_cpuSince ck)
        (f_div (CPUEligibleCPUUsage sm) (f_of_int (TotalCores sm))) (f_of_int (CPUThreshold cfg))
        (seconds (CPUThresholdDuration cfg)) (thresholdTracker m)))"

text \<open>Whether the host's load is not to be blamed on others.\<close>

definition loadAllows :: "decision_config \<Rightarrow> system_metrics \<Rightarrow> bool" where
  "loadAllows cfg sm \<longleftrightarrow> IgnoreSystemLoad cfg \<or> \<not> SystemUnderLoad sm \<or>
     measurable (measureCPULoadAttribution (Some sm)) \<and>
     \<not> f_lt (eligibleShare (measureCPULoadAttribution (Some sm))) minimumEligibleCPUShare"

lemma ioDurationGuard_snd:
  "snd (ioDurationGuard ck (GetIODecisionPolicy cfg) (ioActivationPressure cfg sm) (ioThresholdTracker m)) =
     (ioReady cfg ck m sm, pressureExceeded (ioActivationPressure cfg sm) \<and> \<not> ioReady cfg ck m sm)"
  by (auto simp: ioDurationGuard_def ioReady_def not_le split: prod.splits)

lemma ioDurationGuard_eq:
  obtains t where "ioDurationGuard ck (GetIODecisionPolicy cfg) (ioActivationPressure cfg sm) (ioThresholdTracker m) =
     (t, ioReady cfg ck m sm, pressureExceeded (ioActivationPressure cfg sm) \<and> \<not> ioReady cfg ck m sm)"
  using ioDurationGuard_snd by (metis prod.collapse)

lemma decideInactive_exact:
  "fst (snd (decideInactive cfg ck sm (f_div (CPUEligibleCPUUsage sm) (f_of_int (TotalCores sm))) ms
      (cpuExceeded cfg sm) b c pr m)) = decisionActivate \<longleftrightarrow>
     loadAllows cfg sm \<and> (b \<or> c \<or> cpuReady cfg ck m sm)"
  by (auto simp: decideInactive_def Let_def loadAllows_def cpuReady_def)

lemma cpuReady_io [simp]: "cpuReady cfg ck (m\<lparr> ioThresholdTracker := t \<rparr>) sm = cpuReady cfg ck m sm"
  by (simp add: cpuReady_def)

lemma makeDecision_activate_iff:
  "fst (snd (makeDecision cfg ck m sm)) = decisionActivate \<longleftrightarrow>
     \<not> limitsActive m \<and> \<not> resourceLimitsActive m \<and> loadAllows cfg sm \<and>
     (cpuReady cfg ck m sm \<or> ramExceeded cfg sm \<or> ioReady cfg ck m sm)"
proof -
  obtain t where g: "ioDurationGuard ck (GetIODecisionPolicy cfg) (ioActivationPressure cfg sm) (ioThresholdTracker m) =
     (t, ioReady cfg ck m sm, pressureExceeded (ioActivationPressure cfg sm) \<and> \<not> ioReady cfg ck m sm)"
    by (rule ioDurationGuard_eq)
  have act: "fst (snd (decideActive cfg ck a sm pct ms ab m1)) \<noteq> decisionActivate" for a pct ms ab and m1 :: "'a decision_state_scheme"
    using decideActive_decision [of cfg ck a sm pct ms ab m1] by (metis decision_distinct(1,2) prod.collapse)
  have no: "\<not> cpuReady cfg ck m sm" if "\<not> cpuExceeded cfg sm" using that by (simp add: cpuReady_def)
  show ?thesis
  proof (cases "TotalCores sm > 0")
    case True
    then show ?thesis unfolding makeDecision_eq Let_def g using act no
      by (auto simp: decideInactive_exact)
  next
    case False
    then have "\<not> cpuExceeded cfg sm" by (simp add: cpuExceeded_def)
    then show ?thesis unfolding makeDecision_eq Let_def g using act no False
      by (auto simp: decideInactive_def loadAllows_def Let_def)
  qed
qed


lemma f_of_int_bounded [simp]: "1 \<le> i \<Longrightarrow> i \<le> 1099511627776 \<Longrightarrow> f_of_int i = Fin (of_int i)"
  by (rule f_of_int_exact) simp

lemma userReleaseThreshold_exact:
  assumes "1 \<le> CPUReleaseThreshold cfg" "CPUReleaseThreshold cfg \<le> 100" "0 < TotalCores sm" "TotalCores sm \<le> 1099511627776"
  shows "userReleaseThreshold cfg sm = Fin (of_int (CPUReleaseThreshold cfg * TotalCores sm))"
proof -
  have "CPUReleaseThreshold cfg * TotalCores sm \<le> 100 * 1099511627776"
    using assms by (intro mult_mono) auto
  moreover have "0 \<le> CPUReleaseThreshold cfg * TotalCores sm" using assms by simp
  ultimately have "\<bar>CPUReleaseThreshold cfg * TotalCores sm\<bar> \<le> 2 ^ 53" by simp
  from fl_of_int [OF this] show ?thesis using assms by (simp add: userReleaseThreshold_def)
qed

lemma host_percent_below:
  assumes "CPUEligibleCPUUsage sm = Fin q" "0 < TotalCores sm" "TotalCores sm \<le> 1099511627776"
    "f_lt (f_div (CPUEligibleCPUUsage sm) (f_of_int (TotalCores sm))) (f_of_int k)" "1 \<le> k" "k \<le> 100"
  shows "q < of_int (k * TotalCores sm)"
proof -
  have "f_lt (fl (q / of_int (TotalCores sm))) (f_of_int k)" using assms by simp
  then have "q / of_int (TotalCores sm) < of_int k" using assms by (intro f_lt_of_int_exact) auto
  then show ?thesis using assms by (simp add: divide_less_eq)
qed

lemma host_percent_over:
  assumes "CPUEligibleCPUUsage sm = Fin q" "0 < TotalCores sm" "TotalCores sm \<le> 1099511627776"
    "of_int (k * TotalCores sm) \<le> q" "1 \<le> k" "k \<le> 100"
  shows "f_ge (f_div (CPUEligibleCPUUsage sm) (f_of_int (TotalCores sm))) (f_of_int k)"
proof -
  have "of_int k \<le> q / of_int (TotalCores sm)" using assms by (simp add: le_divide_eq)
  then have "f_ge (fl (q / of_int (TotalCores sm))) (f_of_int k)" using assms by (intro f_ge_of_int) auto
  then show ?thesis using assms by simp
qed

text \<open>
  Property C8: limits are released only when they are active, both enforcement families have been
  active for the minimum time, I/O coverage is complete, the host is not under load, and the
  eligible CPU usage is below the release threshold in exact arithmetic (floating-point rounding
  cannot release early); moreover every limited user has a sample that is not at the threshold
  and has been recorded as below it for three polling intervals.
\<close>

theorem release_sound:
  assumes dec: "fst (snd (makeDecision cfg ck m sm)) = decisionDeactivate"
    and valid: "validateDecisionThresholds cfg = []"
    and usage: "CPUEligibleCPUUsage sm = Fin q" and cores: "TotalCores sm \<le> 1099511627776"
  shows "(limitsActive m \<or> resourceLimitsActive m) \<and>
     seconds (MinActiveTime cfg) \<le> goSub (Some (ck_appliedSince ck)) (limitsAppliedTime m) \<and>
     seconds (MinActiveTime cfg) \<le> goSub (Some (ck_appliedSince ck)) (resourceLimitsAppliedTime m) \<and>
     q < of_int (CPUReleaseThreshold cfg * TotalCores sm) \<and>
     \<not> ioCoverageIncomplete (GetIODecisionPolicy cfg) sm \<and> \<not> SystemUnderLoad sm \<and>
     (\<forall>u \<in> fst ` set (activeUsers m). \<exists>um t s.
        map_of (UserMetrics sm) u = Some (Some um) \<and>
        \<not> f_ge (um_CPUUsageEMA um) (Fin (of_int (CPUReleaseThreshold cfg * TotalCores sm))) \<and>
        stabilityTracker m = Some t \<and> map_of (belowThresholdSince t) u = Some s \<and>
        stabilityDuration cfg \<le> goSub (Some (ck_stabilityNow ck)) s)"
proof -
  obtain m' r where "makeDecision cfg ck m sm = (m', decisionDeactivate, r)"
    using dec by (metis prod.collapse)
  note rel = makeDecision_release [OF this]
  have v: "1 \<le> CPUReleaseThreshold cfg" "CPUReleaseThreshold cfg \<le> 100"
    using valid by (auto simp: validated_thresholds)
  have c: "0 < TotalCores sm" using rel by (simp add: cpuBelow_def)
  have q: "q < of_int (CPUReleaseThreshold cfg * TotalCores sm)"
    using rel usage cores v c host_percent_below [of sm q "CPUReleaseThreshold cfg"] by (simp add: cpuBelow_def)
  note thr = userReleaseThreshold_exact [OF v c cores]
  let ?t0 = "case stabilityTracker m of None \<Rightarrow> newUserStabilityTracker | Some t \<Rightarrow> t"
  let ?x = "\<lparr> ss_users = map fst (activeUsers m), ss_metrics = UserMetrics sm,
     ss_threshold = userReleaseThreshold cfg sm, ss_now = ck_stabilityNow ck \<rparr>"
  have stable: "snd (stabilityCall (stabilityDuration cfg) ?x ?t0)"
    using rel by (simp add: stabilityAnswer_def stabilityCall_def)
  have users: "\<exists>um t s. map_of (UserMetrics sm) u = Some (Some um) \<and>
        \<not> f_ge (um_CPUUsageEMA um) (Fin (of_int (CPUReleaseThreshold cfg * TotalCores sm))) \<and>
        stabilityTracker m = Some t \<and> map_of (belowThresholdSince t) u = Some s \<and>
        stabilityDuration cfg \<le> goSub (Some (ck_stabilityNow ck)) s"
    if "u \<in> fst ` set (activeUsers m)" for u
  proof -
    have "belowIn u ?x \<and> (\<exists>s. map_of (belowThresholdSince ?t0) u = Some s \<and>
        stabilityDuration cfg \<le> goSub (Some (ck_stabilityNow ck)) s)"
      using stable that unfolding stabilityCall_stable_iff by auto
    then show ?thesis unfolding belowIn_def notBelow_def
      by (auto simp: thr newUserStabilityTracker_def split: option.splits)
  qed
  show ?thesis using rel q users lastAppliedTime_le [of "ck_appliedSince ck" m] by (auto simp: ioBelow_def intro: order_trans)
qed

text \<open>
  No activation is missed by rounding: with no limits active, a positive core count and
  an exact eligible usage at or above the threshold times the cores, a configuration without a CPU
  duration and a host whose load does not count, the decision is to activate.
\<close>

theorem activation_complete:
  assumes valid: "validateDecisionThresholds cfg = []" and dur: "CPUThresholdDuration cfg = 0"
    and load: "IgnoreSystemLoad cfg \<or> \<not> SystemUnderLoad sm"
    and off: "\<not> limitsActive m" "\<not> resourceLimitsActive m"
    and usage: "CPUEligibleCPUUsage sm = Fin q" "of_int (CPUThreshold cfg * TotalCores sm) \<le> q"
    and cores: "0 < TotalCores sm" "TotalCores sm \<le> 1099511627776"
  shows "fst (snd (makeDecision cfg ck m sm)) = decisionActivate"
proof -
  have "cpuExceeded cfg sm"
    using host_percent_over [OF usage(1) cores usage(2)] valid cores by (simp add: cpuExceeded_def validated_thresholds)
  then show ?thesis unfolding makeDecision_eq using off load dur
    by (auto simp: decideInactive_def Let_def split: prod.splits)
qed

lemma addDimensions_exceeded:
  "exceededDimensions (addDimensions sm thr p ds) = exceededDimensions p @
     map dim_name (filter (\<lambda>d. \<not> f_le (dim_perUserLimit d) f_zero \<and> f_ge (dimensionPercent sm d) (f_of_int thr)) ds)"
  by (induction ds arbitrary: p) (auto simp: Let_def)

lemma pressureExceeded_iff:
  "pressureExceeded (evaluateIOPressure p sm thr) \<longleftrightarrow> iop_Enabled p \<and> 0 < thr \<and>
     (\<exists>d \<in> set (ioDimensions p sm). \<not> f_le (dim_perUserLimit d) f_zero \<and> f_ge (dimensionPercent sm d) (f_of_int thr))"
  by (auto simp: pressureExceeded_def evaluateIOPressure_def addDimensions_exceeded filter_empty_conv Let_def split: if_splits)

lemma f_of_int_mono: "\<bar>i\<bar> \<le> 2 ^ 53 \<Longrightarrow> \<bar>j\<bar> \<le> 2 ^ 53 \<Longrightarrow> i \<le> j \<Longrightarrow> f_le (f_of_int i) (f_of_int j)"
  by simp

lemma hysteresis:
  assumes "f_lt x (f_of_int r)" "1 \<le> r" "r < a" "a \<le> 100"
  shows "\<not> f_ge x (f_of_int a)"
proof
  assume "f_ge x (f_of_int a)"
  moreover have "f_le (f_of_int r) (f_of_int a)" using assms by (intro f_of_int_mono) auto
  ultimately have "f_le (f_of_int r) x" using f_le_trans by blast
  then show False using f_lt_not_ge assms(1) by blast
qed

text \<open>
  Property C10: hysteresis: with validated thresholds, a sample on which limits are released cannot
  activate them, whatever the state and the clock of the cycle that sees it again.
\<close>

theorem released_sample_does_not_activate:
  assumes dec: "fst (snd (makeDecision cfg ck m sm)) = decisionDeactivate"
    and valid: "validateDecisionThresholds cfg = []"
  shows "fst (snd (makeDecision cfg ck' m' sm)) \<noteq> decisionActivate"
proof -
  obtain m1 r where "makeDecision cfg ck m sm = (m1, decisionDeactivate, r)"
    using dec by (metis prod.collapse)
  note rel = makeDecision_release [OF this]
  have v: "1 \<le> CPUReleaseThreshold cfg" "CPUReleaseThreshold cfg < CPUThreshold cfg" "CPUThreshold cfg \<le> 100"
    "RAMEnabled cfg \<Longrightarrow> 1 \<le> RAMReleaseThreshold cfg \<and> RAMReleaseThreshold cfg < RAMThreshold cfg \<and> RAMThreshold cfg \<le> 100"
    "IOEnabled cfg \<Longrightarrow> 1 \<le> IOReleaseThreshold cfg \<and> IOReleaseThreshold cfg < IOThreshold cfg \<and> IOThreshold cfg \<le> 100"
    using valid by (auto simp: validated_thresholds)
  have cpu: "\<not> cpuExceeded cfg sm"
    using rel v hysteresis by (auto simp: cpuBelow_def cpuExceeded_def)
  have ram: "\<not> ramExceeded cfg sm"
    using rel v hysteresis by (auto simp: ramBelow_def ramExceeded_def split: if_splits)
  have io: "\<not> pressureExceeded (ioActivationPressure cfg sm)"
  proof
    assume "pressureExceeded (ioActivationPressure cfg sm)"
    then obtain d where d: "IOEnabled cfg" "d \<in> set (ioDimensions (GetIODecisionPolicy cfg) sm)"
      "\<not> f_le (dim_perUserLimit d) f_zero" "f_ge (dimensionPercent sm d) (f_of_int (IOThreshold cfg))"
      by (auto simp: ioActivationPressure_def pressureExceeded_iff)
    have "f_le (f_of_int (IOReleaseThreshold cfg)) (f_of_int (IOThreshold cfg))"
      using v(5) d(1) by (intro f_of_int_mono) auto
    then have "f_ge (dimensionPercent sm d) (f_of_int (IOReleaseThreshold cfg))" using d(4) f_le_trans by blast
    then show False using rel d v(5) by (auto simp: ioBelow_def pressureExceeded_iff)
  qed
  show ?thesis unfolding makeDecision_activate_iff using cpu ram io by (simp add: cpuReady_def ioReady_def)
qed

section \<open>Concrete runs\<close>

definition sampleConfig :: decision_config where
  "sampleConfig = \<lparr> MinActiveTime = 60, CPUThreshold = 75, CPUReleaseThreshold = 40, CPUThresholdDuration = 0,
     IgnoreSystemLoad = False, PollingInterval = 30, RAMEnabled = True, RAMThreshold = 50, RAMReleaseThreshold = 30,
     IOEnabled = False, IOThreshold = 80, IOReleaseThreshold = 50, IOThresholdDuration = 0,
     IOReadBPS = [], IOWriteBPS = [], IOReadIOPS = 0, IOWriteIOPS = 0 \<rparr>"

text \<open>A one-core host on which user 1000 uses \<open>cpu\<close> percent of CPU and \<open>ram\<close> bytes.\<close>

definition sampleMetrics :: "rat \<Rightarrow> u64 \<Rightarrow> bool \<Rightarrow> system_metrics" where
  "sampleMetrics cpu ram load = \<lparr> TotalCores = 1, TotalCPUUsage = Fin 100, HostCPUUsageAvailable = True,
     CPUEligibleCPUUsage = Fin cpu, IOEligibleUsersCount = 0, RAMEligibleUsageBytes = ram,
     IOEligibleReadBPS = Fin 0, IOEligibleWriteBPS = Fin 0, IOEligibleReadBlockIOPS = Fin 0,
     IOEligibleWriteBlockIOPS = Fin 0, IOBlockIOPSUnavailableUsers = 0, IOEligibleUnavailableProcesses = 0,
     TotalMemoryMB = Fin 1, SystemUnderLoad = load,
     UserMetrics = [(1000, Some \<lparr> um_CPUUsageEMA = Fin cpu \<rparr>)],
     CPUEligibleUsers = [1000], RAMEligibleUsers = [], IOEligibleUsers = [] \<rparr>"

text \<open>Every reading of the clock in one decision, at a number of seconds.\<close>

definition clockAt :: "int \<Rightarrow> clock" where
  "clockAt n = (let t = n * 1000000000 in
     \<lparr> ck_ioNow = t, ck_ioSince = t, ck_ioElapsed = t, ck_appliedSince = t, ck_stabilityNow = t,
       ck_cpuNow = t, ck_cpuSince = t, ck_cpuElapsed = t \<rparr>)"

definition idleState :: decision_state where
  "idleState = \<lparr> limitsActive = False, limitsAppliedTime = None, resourceLimitsActive = False,
     resourceLimitsAppliedTime = None, activeUsers = [], thresholdTracker = newThresholdTracker,
     ioThresholdTracker = newThresholdTracker, stabilityTracker = Some newUserStabilityTracker \<rparr>"

text \<open>What executing a decision does to the fields the next decision reads.\<close>

definition executed :: "int \<Rightarrow> string \<Rightarrow> decision_state \<Rightarrow> decision_state" where
  "executed n d m =
     (if d = decisionActivate
      then m\<lparr> limitsActive := True, limitsAppliedTime := Some (n * 1000000000), activeUsers := [(1000, True)] \<rparr>
      else if d = decisionDeactivate
      then m\<lparr> limitsActive := False, limitsAppliedTime := None, activeUsers := [] \<rparr>
      else m)"

fun decisionRun :: "decision_config \<Rightarrow> decision_state \<Rightarrow> (int \<times> system_metrics) list \<Rightarrow> string list" where
  "decisionRun cfg m [] = []"
| "decisionRun cfg m ((n, sm) # xs) =
     (case makeDecision cfg (clockAt n) m sm of (m', d, r) \<Rightarrow> d # decisionRun cfg (executed n d m') xs)"

lemmas run_defs =
  makeDecision_eq decideActive_def decideInactive_def ioDurationGuard_def Let_def sampleConfig_def
  sampleMetrics_def clockAt_def idleState_def executed_def cpuExceeded_def cpuBelow_def ioActivationPressure_def
  ioBelow_def ramExceeded_def ramBelow_def ramPercent_def evaluateIOPressure_def pressureExceeded_def
  GetIODecisionPolicy_def ioCoverageIncomplete_def blockIOPSCoverageIncomplete_def lastAppliedTime_def
  measureCPULoadAttribution_def f_zero_def f_of_u64_def f_eq_def minimumEligibleCPUShare_def
  ShouldActivateLimits_def ThresholdTracker_Reset_def resetActivation_def resetStability_def
  UserStabilityTracker_Reset_def newUserStabilityTracker_def newThresholdTracker_def
  AllBelowThreshold_def stabilityStep_def notBelow_def goSub_def goBefore_def seconds_def
  maxDuration_def minDuration_def GetElapsed_def

definition guardedConfig :: decision_config where
  "guardedConfig = sampleConfig\<lparr> CPUThresholdDuration := 90 \<rparr>"

lemma sample_configs_valid [simp]:
  "validateDecisionThresholds sampleConfig = []" "validateDecisionThresholds guardedConfig = []"
  by (simp_all add: validated_thresholds sampleConfig_def guardedConfig_def)

text \<open>
  The release stability of one limiting epoch carries over into the next. User 1000 is
  limited, stays below the release threshold from second 100 to 200 and is released. It then
  drives the host to 80 percent at seconds 300 and 330, so limits are activated again; at second
  360 its first sample below the threshold releases them at once, although three polling
  intervals (90 seconds) below it are asked for and 30 seconds before it was at 80 percent. The
  release does not reset the stability tracker and neither does the wait for the minimum time.
\<close>

theorem stability_survives_release:
  "decisionRun sampleConfig idleState
     [(0, sampleMetrics 80 0 False), (100, sampleMetrics 10 0 False), (200, sampleMetrics 10 0 False),
      (300, sampleMetrics 80 0 False), (330, sampleMetrics 80 0 False), (360, sampleMetrics 10 0 False)] =
   [decisionActivate, decisionMaintain, decisionDeactivate, decisionActivate, decisionMaintain, decisionDeactivate]"
  by (simp add: run_defs)

text \<open>
  The CPU duration guard can be satisfied without uninterrupted CPU pressure. At second 50
  the eligible users use no CPU at all, but RAM is over its threshold and the host's load belongs
  to others: that cycle maintains without resetting the CPU tracker, so at second 90 limits are
  activated although CPU has been over its threshold for this one sample only. Without the cycle
  at second 50 being suppressed, the same CPU samples wait.
\<close>

theorem cpu_guard_survives_dip:
  "decisionRun guardedConfig idleState
     [(0, sampleMetrics 80 0 False), (50, sampleMetrics 0 1048576 True), (90, sampleMetrics 80 0 False)] =
     [decisionMaintain, decisionMaintain, decisionActivate] \<and>
   decisionRun guardedConfig idleState
     [(0, sampleMetrics 80 0 False), (50, sampleMetrics 0 0 True), (90, sampleMetrics 80 0 False)] =
     [decisionMaintain, decisionMaintain, decisionMaintain]"
  by (simp add: run_defs guardedConfig_def)

lemma sample_release:
  "fst (snd (makeDecision sampleConfig (clockAt 200)
     (executed 0 decisionActivate idleState\<lparr> stabilityTracker := Some \<lparr> belowThresholdSince = [(1000, Some 100000000000)] \<rparr> \<rparr>)
     (sampleMetrics 10 0 False))) = decisionDeactivate"
  by (simp add: run_defs)

theorem release_sound_witness:
  "(10::rat) < of_int (40 * 1) \<and> seconds 60 \<le> goSub (Some 200000000000) (Some 0)"
  using release_sound [OF sample_release sample_configs_valid(1), of 10]
  by (simp add: sampleMetrics_def sampleConfig_def executed_def clockAt_def idleState_def)

theorem released_sample_does_not_activate_witness:
  "fst (snd (makeDecision sampleConfig (clockAt 300) idleState (sampleMetrics 10 0 False))) \<noteq> decisionActivate"
  by (rule released_sample_does_not_activate [OF sample_release sample_configs_valid(1)])

theorem activation_complete_witness:
  "fst (snd (makeDecision sampleConfig (clockAt 300) idleState (sampleMetrics 80 0 False))) = decisionActivate"
  by (rule activation_complete [where q = 80])
    (simp_all add: sampleConfig_def [THEN arg_cong [where f = CPUThresholdDuration]]
      sampleConfig_def [THEN arg_cong [where f = CPUThreshold]] sampleMetrics_def idleState_def)

end
