(* ===== verification/Control_Cycle.thy ===== *)
theory Control_Cycle
  imports Decision_Engine
begin

text \<open>
  The control cycle of \<^verbatim>\<open>src/state\<close>: the stages of \<^verbatim>\<open>control_cycle.go\<close> that decide and execute, the
  pipeline that runs them, the bookkeeping of \<^verbatim>\<open>limits_applier.go\<close>, the observation-only execution
  of \<^verbatim>\<open>decision_engine.go\<close>, the history of cycles and the recognition of cancellation in
  \<^verbatim>\<open>cycle_cancellation.go\<close>.

  The manager is \<open>decision_state\<close> extended by the fields these operations read and write. The
  operations of the systemd-native back end and the stages that only collect or publish are
  arguments (\<open>systemd_ops\<close>, \<open>other_stages\<close>): they are functions on the manager and the cycle's
  context, about which nothing is assumed.
\<close>

section \<open>Errors\<close>

text \<open>
  Go errors as trees: \<open>Wrapped\<close> has a method \<^verbatim>\<open>Unwrap() error\<close>, \<open>Joined\<close> a method \<^verbatim>\<open>Unwrap() []error\<close>;
  a leaf that is not \<^verbatim>\<open>context.Canceled\<close> keeps its message.
\<close>

datatype go_error = Failure string | Canceled | Wrapped string "go_error option" | Joined "go_error list"

text \<open>\<^verbatim>\<open>errors.Join\<close>: nil values are dropped, and nothing is left of no error at all.\<close>

definition joinErrors :: "go_error option list \<Rightarrow> go_error option" where
  "joinErrors es = (let fs = List.map_filter id es in if fs = [] then None else Some (Joined fs))"

fun onlyCancellation :: "go_error \<Rightarrow> bool" where
  "onlyCancellation (Joined children) = (children \<noteq> [] \<and> list_all onlyCancellation children)"
| "onlyCancellation (Wrapped msg inner) = (case inner of None \<Rightarrow> False | Some e \<Rightarrow> onlyCancellation e)"
| "onlyCancellation Canceled = True"
| "onlyCancellation (Failure msg) = False"

text \<open>The first argument is \<^verbatim>\<open>ctx.Err()\<close> of a context that is not nil; a nil context never is cancelled.\<close>

definition IsControlCycleCancellation :: "go_error option \<Rightarrow> go_error option \<Rightarrow> bool" where
  "IsControlCycleCancellation ctxErr err \<longleftrightarrow>
     ctxErr = Some Canceled \<and> (case err of None \<Rightarrow> False | Some e \<Rightarrow> onlyCancellation e)"

section \<open>The manager\<close>

record resource_authority =
  ra_Resource :: string
  ra_State :: string
  ra_Reason :: string

record user_resource_limit_state =
  rl_ram :: bool
  rl_ramApplied :: bool
  rl_swap :: bool
  rl_io :: bool
  rl_ioApplied :: bool
  rl_ramAuthority :: resource_authority
  rl_ioAuthority :: resource_authority

text \<open>Go's zero value, read from a map for a missing key.\<close>

definition zeroResourceLimit :: user_resource_limit_state where
  "zeroResourceLimit =
     (let a = \<lparr> ra_Resource = [], ra_State = [], ra_Reason = [] \<rparr> in
      \<lparr> rl_ram = False, rl_ramApplied = False, rl_swap = False, rl_io = False, rl_ioApplied = False,
        rl_ramAuthority = a, rl_ioAuthority = a \<rparr>)"

definition CPUPointsLifecycleEligibleInactive :: string where
  "CPUPointsLifecycleEligibleInactive = ''eligible_inactive''"

record control_cycle_entry =
  ce_Timestamp :: gotime
  ce_Decision :: string
  ce_Reason :: "decision_reason option"
  ce_TotalCPUUsage :: f64
  ce_CPUEligibleCPUUsage :: f64
  ce_ObservedUsersCount :: nat
  ce_CPUActivelyLimitedUsersCount :: nat
  ce_CPULimitsActive :: bool
  ce_DurationMs :: int

record control_history =
  ch_entries :: "control_cycle_entry list"
  ch_maxSize :: nat

record manager = decision_state +
  m_cfg :: decision_config
  requestedCPUUsers :: "(int \<times> bool) list"
  userLimitedAt :: "(int \<times> gotime) list"
  resourceLimits :: "(int \<times> user_resource_limit_state) list"
  cpuPointsLifecycleEvents :: "(int \<times> string) list"
  enforcementStatus :: enforcement_status
  enforcementCycleState :: enforcement_cycle_state
  systemdResourcesRequested :: bool
  ioWeightProgrammed :: bool
  controlHist :: control_history

text \<open>The context of one cycle.\<close>

record cycle_context =
  rc_cfg :: decision_config
  rc_startTime :: int
  rc_metrics :: "system_metrics option"
  rc_decision :: string
  rc_reason :: "decision_reason option"
  rc_enforcementState :: enforcement_cycle_state
  rc_duration :: int
  rc_ingressRefusedCount :: int
  rc_stopWithoutError :: bool
  rc_deferredErrors :: "go_error list"
  rc_degradedErrors :: "go_error list"

section \<open>Bookkeeping of applied limits\<close>

definition hasObservedResourceEnforcementLocked :: "manager \<Rightarrow> bool" where
  "hasObservedResourceEnforcementLocked m \<longleftrightarrow>
     list_ex (\<lambda>(uid, st). rl_ramApplied st \<or> rl_ioApplied st) (resourceLimits m)"

definition refreshResourceLimitsActiveLocked :: "gotime \<Rightarrow> manager \<Rightarrow> manager" where
  "refreshResourceLimitsActiveLocked now m =
     (let active = hasObservedResourceEnforcementLocked m;
          m1 = (if active \<and> \<not> resourceLimitsActive m then m\<lparr> resourceLimitsAppliedTime := now \<rparr> else m);
          m2 = (if \<not> active then m1\<lparr> resourceLimitsAppliedTime := None \<rparr> else m1)
      in m2\<lparr> resourceLimitsActive := active \<rparr>)"

section \<open>Observation-only execution\<close>

text \<open>The update of one observed user, which reads the user's current state.\<close>

definition observeActivate ::
  "decision_config \<Rightarrow> int list \<Rightarrow> int list \<Rightarrow> int \<Rightarrow> (int \<times> user_resource_limit_state) list \<Rightarrow>
   (int \<times> user_resource_limit_state) list" where
  "observeActivate cfg ramEligible ioEligible uid limits =
     (let current0 = (case map_of limits uid of Some st \<Rightarrow> st | None \<Rightarrow> zeroResourceLimit);
          current = current0\<lparr> rl_ram := RAMEnabled cfg \<and> uid \<in> set ramEligible,
                              rl_io := IOEnabled cfg \<and> uid \<in> set ioEligible \<rparr>
      in if \<not> rl_ram current \<and> \<not> rl_io current \<and> \<not> rl_ramApplied current \<and> \<not> rl_ioApplied current \<and> \<not> rl_swap current
         then AList.delete uid limits else AList.update uid current limits)"

definition observeDeactivate ::
  "int \<times> user_resource_limit_state \<Rightarrow> (int \<times> user_resource_limit_state) list \<Rightarrow>
   (int \<times> user_resource_limit_state) list" where
  "observeDeactivate entry limits =
     (case entry of (uid, st) \<Rightarrow>
        let current = st\<lparr> rl_ram := False, rl_io := False \<rparr>
        in if \<not> rl_ramApplied current \<and> \<not> rl_ioApplied current \<and> \<not> rl_swap current
           then AList.delete uid limits else AList.update uid current limits)"

definition recordObservationOnlyIntent :: "string \<Rightarrow> system_metrics \<Rightarrow> manager \<Rightarrow> manager \<times> int" where
  "recordObservationOnlyIntent decision metrics m =
     (if decision = ''ACTIVATE_LIMITS'' then
        (m\<lparr> requestedCPUUsers := fold (\<lambda>uid. AList.update uid True) (CPUEligibleUsers metrics) [],
            cpuPointsLifecycleEvents :=
              fold (\<lambda>uid. AList.update uid CPUPointsLifecycleEligibleInactive) (CPUEligibleUsers metrics)
                (cpuPointsLifecycleEvents m),
            resourceLimits :=
              fold (observeActivate (m_cfg m) (RAMEligibleUsers metrics) (IOEligibleUsers metrics))
                (map fst (UserMetrics metrics)) (resourceLimits m) \<rparr>, 0)
      else if decision = ''DEACTIVATE_LIMITS'' then
        (m\<lparr> requestedCPUUsers := [],
            resourceLimits := fold observeDeactivate (resourceLimits m) (resourceLimits m) \<rparr>, 0)
      else (m, 0))"

section \<open>Executing a decision\<close>

definition enforcementPolicyIntent :: "string \<Rightarrow> (string, policy_intent) res" where
  "enforcementPolicyIntent decision =
     (if decision = decisionActivate then Inr EnforcementPolicyIntentActivate
      else if decision = decisionDeactivate then Inr EnforcementPolicyIntentDeactivate
      else if decision = decisionMaintain then Inr EnforcementPolicyIntentMaintain
      else Inl decision)"

definition appliedEnforcementAction :: "policy_intent \<Rightarrow> applied_action" where
  "appliedEnforcementAction intent =
     (if intent = EnforcementPolicyIntentActivate then AppliedEnforcementActionActivate
      else if intent = EnforcementPolicyIntentDeactivate then AppliedEnforcementActionDeactivate
      else if intent = EnforcementPolicyIntentMaintain then AppliedEnforcementActionMaintain
      else AppliedEnforcementActionNone)"

text \<open>The state is published before it is logged; \<open>logged\<close> is the answer of \<^verbatim>\<open>InfoChecked\<close>.\<close>

definition publishEnforcementCycleState ::
  "go_error option \<Rightarrow> enforcement_cycle_state \<Rightarrow> manager \<Rightarrow> manager \<times> go_error option" where
  "publishEnforcementCycleState logged st m =
     (let st' = NormalizedEnforcementCycleState st (enforcementStatus m);
          changed = (st' \<noteq> enforcementCycleState m);
          m' = m\<lparr> enforcementCycleState := st' \<rparr>
      in if \<not> changed then (m', None) else (m', logged))"

text \<open>The operations of the systemd-native back end.\<close>

record systemd_ops =
  activateSystemdEnforcement :: "system_metrics \<Rightarrow> manager \<Rightarrow> manager \<times> go_error option"
  restoreSystemdCPUPoints :: "manager \<Rightarrow> manager \<times> go_error option"
  reconcileSystemdResources :: "system_metrics \<Rightarrow> manager \<Rightarrow> manager \<times> go_error option"

definition executeDecision ::
  "systemd_ops \<Rightarrow> string \<Rightarrow> system_metrics \<Rightarrow> manager \<Rightarrow> manager \<times> go_error option" where
  "executeDecision ops decision metrics m =
     (if st_Mode (enforcementStatus m) = EnforcementModeObservationOnly
      then (fst (recordObservationOnlyIntent decision metrics m), None)
      else if st_Mode (enforcementStatus m) = EnforcementModeSystemdNative then
        if decision = ''ACTIVATE_LIMITS'' then activateSystemdEnforcement ops metrics m
        else if decision = ''DEACTIVATE_LIMITS'' then restoreSystemdCPUPoints ops m
        else if decision = ''MAINTAIN_CURRENT_STATE'' then
          (if systemdResourcesRequested m then reconcileSystemdResources ops metrics m else (m, None))
        else (m, Some (Failure ''unknown decision''))
      else (m, Some (Failure ''unsupported enforcement mode'')))"

definition activateLimits :: "systemd_ops \<Rightarrow> system_metrics \<Rightarrow> manager \<Rightarrow> manager \<times> go_error option" where
  "activateLimits ops metrics m =
     (if st_Mode (enforcementStatus m) = EnforcementModeSystemdNative then activateSystemdEnforcement ops metrics m
      else if st_Mode (enforcementStatus m) = EnforcementModeObservationOnly
      then (fst (recordObservationOnlyIntent ''ACTIVATE_LIMITS'' metrics m), None)
      else (m, Some (Failure ''refusing enforcement with unsupported mode'')))"

definition deactivateLimits :: "systemd_ops \<Rightarrow> manager \<Rightarrow> manager \<times> go_error option" where
  "deactivateLimits ops m =
     (if st_Mode (enforcementStatus m) = EnforcementModeSystemdNative then restoreSystemdCPUPoints ops m
      else if st_Mode (enforcementStatus m) = EnforcementModeObservationOnly
      then (m\<lparr> requestedCPUUsers := [], activeUsers := [], userLimitedAt := [], resourceLimits := [],
               limitsActive := False, resourceLimitsActive := False, limitsAppliedTime := None,
               resourceLimitsAppliedTime := None \<rparr>, None)
      else (m, Some (Failure ''refusing deactivation with unsupported mode'')))"

definition ForceActivateLimits ::
  "systemd_ops \<Rightarrow> (go_error, system_metrics) res \<Rightarrow> manager \<Rightarrow> manager \<times> go_error option" where
  "ForceActivateLimits ops collected m =
     (case collected of Inl e \<Rightarrow> (m, Some e) | Inr metrics \<Rightarrow> activateLimits ops metrics m)"

definition ForceDeactivateLimits :: "systemd_ops \<Rightarrow> manager \<Rightarrow> manager \<times> go_error option" where
  "ForceDeactivateLimits ops m =
     (case deactivateLimits ops m of (m', err) \<Rightarrow>
        let tracker = (case stabilityTracker m' of None \<Rightarrow> newUserStabilityTracker | Some t \<Rightarrow> t)
        in (m'\<lparr> stabilityTracker := Some (UserStabilityTracker_Reset tracker) \<rparr>, err))"

section \<open>Stages\<close>

text \<open>\<open>blackoutEnd\<close> is the answer of \<^verbatim>\<open>GetNextBlackoutEnd\<close>.\<close>

definition stageCheckBlackout ::
  "systemd_ops \<Rightarrow> gotime \<Rightarrow> manager \<Rightarrow> cycle_context \<Rightarrow> manager \<times> cycle_context \<times> go_error option" where
  "stageCheckBlackout ops blackoutEnd m run =
     (case blackoutEnd of None \<Rightarrow> (m, run, None)
      | Some nextEnd \<Rightarrow>
          if limitsActive m \<or> resourceLimitsActive m \<or> activeUsers m \<noteq> [] \<or> resourceLimits m \<noteq> [] \<or> ioWeightProgrammed m
          then (case deactivateLimits ops m of
                  (m', Some e) \<Rightarrow> (m', run, Some (Wrapped ''failed to deactivate limits for blackout'' (Some e)))
                | (m', None) \<Rightarrow> (m', run\<lparr> rc_stopWithoutError := True \<rparr>, None))
          else (m, run\<lparr> rc_stopWithoutError := True \<rparr>, None))"

text \<open>The stages below run after metrics were collected; \<open>metrics\<close> is what \<^verbatim>\<open>run.metrics\<close> points to.\<close>

definition stageMakeDecision ::
  "clock \<Rightarrow> system_metrics \<Rightarrow> manager \<Rightarrow> cycle_context \<Rightarrow> manager \<times> cycle_context \<times> go_error option" where
  "stageMakeDecision ck metrics m run =
     (case makeDecision (m_cfg m) ck m metrics of
        (m', decision, reason) \<Rightarrow> (m', run\<lparr> rc_decision := decision, rc_reason := Some reason \<rparr>, None))"

definition stageExecuteDecision ::
  "systemd_ops \<Rightarrow> go_error option \<Rightarrow> system_metrics \<Rightarrow> manager \<Rightarrow> cycle_context \<Rightarrow>
   manager \<times> cycle_context \<times> go_error option" where
  "stageExecuteDecision ops logged metrics m run =
     (case enforcementPolicyIntent (rc_decision run) of
        Inl d \<Rightarrow> (m, run, Some (Failure ''unknown decision''))
      | Inr intent \<Rightarrow>
          let st0 = \<lparr> cs_Mode = st_Mode (enforcementStatus m), cs_RequestedIntent = intent,
                      cs_AppliedAction = AppliedEnforcementActionNone, cs_BlockReason = EnforcementBlockReasonNone \<rparr>
          in if st_Mode (enforcementStatus m) = EnforcementModeObservationOnly then
               (case recordObservationOnlyIntent (rc_decision run) metrics m of (m1, refused) \<Rightarrow>
                  let st1 = (if intent = EnforcementPolicyIntentActivate \<or> intent = EnforcementPolicyIntentDeactivate
                             then st0\<lparr> cs_BlockReason := BoundedEnforcementBlockReason (st_Reason (enforcementStatus m1)) \<rparr>
                             else st0);
                      (m2, err) = publishEnforcementCycleState logged st1 m1
                  in (m2, run\<lparr> rc_enforcementState := st1, rc_ingressRefusedCount := refused \<rparr>, err))
             else
               (case executeDecision ops (rc_decision run) metrics m of
                  (m1, Some executionErr) \<Rightarrow>
                    let (m2, publishErr) = publishEnforcementCycleState logged st0 m1
                    in (m2, run\<lparr> rc_enforcementState := st0 \<rparr>,
                        joinErrors [Some (Wrapped ''failed to execute decision'' (Some executionErr)), publishErr])
                | (m1, None) \<Rightarrow>
                    let st1 = st0\<lparr> cs_AppliedAction := appliedEnforcementAction intent \<rparr>;
                        (m2, err) = publishEnforcementCycleState logged st1 m1
                    in (m2, run\<lparr> rc_enforcementState := st1 \<rparr>, err)))"

definition addControlHistoryEntry :: "control_cycle_entry \<Rightarrow> control_history \<Rightarrow> control_history" where
  "addControlHistoryEntry entry h =
     (let entries = ch_entries h @ [entry]
      in if length entries > ch_maxSize h
         then h\<lparr> ch_entries := drop (length entries - ch_maxSize h) entries \<rparr>
         else h\<lparr> ch_entries := entries \<rparr>)"

definition GetControlHistory :: "int \<Rightarrow> control_history \<Rightarrow> control_cycle_entry list" where
  "GetControlHistory limit h =
     (let n = length (ch_entries h);
          wanted = (if limit \<le> 0 \<or> limit > int n then n else nat limit);
          start = n - wanted
      in take wanted (drop start (ch_entries h)))"

text \<open>\<open>now\<close> is the time of the entry, \<open>ms\<close> the duration in milliseconds.\<close>

definition recordControlCycle ::
  "int \<Rightarrow> int \<Rightarrow> string \<Rightarrow> decision_reason option \<Rightarrow> system_metrics \<Rightarrow> manager \<Rightarrow> manager" where
  "recordControlCycle now ms decision reason metrics m =
     m\<lparr> controlHist := addControlHistoryEntry
          \<lparr> ce_Timestamp = Some now, ce_Decision = decision, ce_Reason = reason,
            ce_TotalCPUUsage = TotalCPUUsage metrics, ce_CPUEligibleCPUUsage = CPUEligibleCPUUsage metrics,
            ce_ObservedUsersCount = length (UserMetrics metrics),
            ce_CPUActivelyLimitedUsersCount = length (activeUsers m),
            ce_CPULimitsActive = limitsActive m, ce_DurationMs = ms \<rparr> (controlHist m) \<rparr>"

definition stageRecordHistory ::
  "int \<Rightarrow> int \<Rightarrow> system_metrics \<Rightarrow> manager \<Rightarrow> cycle_context \<Rightarrow> manager \<times> cycle_context \<times> go_error option" where
  "stageRecordHistory since now metrics m run =
     (let duration = goSub (Some since) (Some (rc_startTime run))
      in (recordControlCycle now (goQuot duration 1000000) (rc_decision run) (rc_reason run) metrics m,
          run\<lparr> rc_duration := duration \<rparr>, None))"

section \<open>The pipeline\<close>

record control_cycle_stage =
  sg_name :: string
  sg_run :: "manager \<Rightarrow> cycle_context \<Rightarrow> manager \<times> cycle_context \<times> go_error option"
  sg_continueAfterError :: bool

definition joinCycle :: "go_error list \<Rightarrow> cycle_context \<Rightarrow> go_error option list \<Rightarrow> go_error option" where
  "joinCycle cycleErrors run extra =
     joinErrors ([joinErrors (map Some cycleErrors), joinErrors (map Some (rc_degradedErrors run))] @ extra)"

text \<open>\<open>ctxErr i\<close> is \<^verbatim>\<open>ctx.Err()\<close> as read before the stage number \<open>i\<close>.\<close>

fun runStages ::
  "(nat \<Rightarrow> go_error option) \<Rightarrow> nat \<Rightarrow> go_error list \<Rightarrow> manager \<Rightarrow> cycle_context \<Rightarrow> control_cycle_stage list \<Rightarrow>
   manager \<times> cycle_context \<times> go_error option" where
  "runStages ctxErr i cycleErrors m run [] = (m, run, joinCycle cycleErrors run [])"
| "runStages ctxErr i cycleErrors m run (stage # stages) =
     (if ctxErr i \<noteq> None then (m, run, joinCycle cycleErrors run [ctxErr i])
      else case sg_run stage m run of
        (m', run', Some err) \<Rightarrow>
          if \<not> sg_continueAfterError stage then (m', run', joinCycle (cycleErrors @ [err]) run' [])
          else
            let run'' = run'\<lparr> rc_deferredErrors := rc_deferredErrors run' @ [err] \<rparr>
            in if rc_stopWithoutError run'' then (m', run'', joinCycle (cycleErrors @ [err]) run'' [])
               else runStages ctxErr (Suc i) (cycleErrors @ [err]) m' run'' stages
      | (m', run', None) \<Rightarrow>
          if rc_stopWithoutError run' then (m', run', joinCycle cycleErrors run' [])
          else runStages ctxErr (Suc i) cycleErrors m' run' stages)"

definition runControlCyclePipeline ::
  "(nat \<Rightarrow> go_error option) \<Rightarrow> manager \<Rightarrow> cycle_context \<Rightarrow> control_cycle_stage list \<Rightarrow>
   manager \<times> cycle_context \<times> go_error option" where
  "runControlCyclePipeline ctxErr m run stages = runStages ctxErr 0 [] m run stages"

text \<open>The stages that only collect, publish or log, and those of the systemd-native back end.\<close>

record other_stages =
  stageReconcileCPUPoints :: "manager \<Rightarrow> cycle_context \<Rightarrow> manager \<times> cycle_context \<times> go_error option"
  stageCollectMetrics :: "manager \<Rightarrow> cycle_context \<Rightarrow> manager \<times> cycle_context \<times> go_error option"
  stageReconcileIODeviceWeights :: "manager \<Rightarrow> cycle_context \<Rightarrow> manager \<times> cycle_context \<times> go_error option"
  stageFinalizeEnforcementObservation :: "manager \<Rightarrow> cycle_context \<Rightarrow> manager \<times> cycle_context \<times> go_error option"
  stageDispatchLimitHooks :: "manager \<Rightarrow> cycle_context \<Rightarrow> manager \<times> cycle_context \<times> go_error option"
  stageUpdatePrometheus :: "manager \<Rightarrow> cycle_context \<Rightarrow> manager \<times> cycle_context \<times> go_error option"
  stageWriteDatabase :: "manager \<Rightarrow> cycle_context \<Rightarrow> manager \<times> cycle_context \<times> go_error option"
  stageWorkloadPatternDetection :: "manager \<Rightarrow> cycle_context \<Rightarrow> manager \<times> cycle_context \<times> go_error option"
  stageLogCompletion :: "manager \<Rightarrow> cycle_context \<Rightarrow> manager \<times> cycle_context \<times> go_error option"

text \<open>The environment's answers in one cycle.\<close>

record cycle_env =
  ev_blackoutEnd :: gotime
  ev_clock :: clock
  ev_logged :: "go_error option"
  ev_since :: int
  ev_now :: int

text \<open>A stage that reads \<^verbatim>\<open>run.metrics\<close>; the pipeline runs it only after metrics were collected.\<close>

definition withMetrics ::
  "(system_metrics \<Rightarrow> manager \<Rightarrow> cycle_context \<Rightarrow> manager \<times> cycle_context \<times> go_error option) \<Rightarrow>
   manager \<Rightarrow> cycle_context \<Rightarrow> manager \<times> cycle_context \<times> go_error option" where
  "withMetrics f m run =
     (case rc_metrics run of Some metrics \<Rightarrow> f metrics m run
      | None \<Rightarrow> (m, run, Some (Failure ''nil pointer dereference'')))"

definition mkStage ::
  "string \<Rightarrow> (manager \<Rightarrow> cycle_context \<Rightarrow> manager \<times> cycle_context \<times> go_error option) \<Rightarrow> bool \<Rightarrow> control_cycle_stage" where
  "mkStage name f goOn = \<lparr> sg_name = name, sg_run = f, sg_continueAfterError = goOn \<rparr>"

definition defaultControlCyclePipeline :: "systemd_ops \<Rightarrow> other_stages \<Rightarrow> cycle_env \<Rightarrow> control_cycle_stage list" where
  "defaultControlCyclePipeline ops other env =
     [ mkStage ''reconcile_cpu_points'' (stageReconcileCPUPoints other) True,
       mkStage ''check_blackout'' (stageCheckBlackout ops (ev_blackoutEnd env)) False,
       mkStage ''collect_metrics'' (stageCollectMetrics other) False,
       mkStage ''reconcile_io_weights'' (stageReconcileIODeviceWeights other) True,
       mkStage ''make_decision'' (withMetrics (stageMakeDecision (ev_clock env))) False,
       mkStage ''execute_decision'' (withMetrics (stageExecuteDecision ops (ev_logged env))) True,
       mkStage ''finalize_enforcement_observation'' (stageFinalizeEnforcementObservation other) False,
       mkStage ''dispatch_limit_hooks'' (stageDispatchLimitHooks other) True,
       mkStage ''update_prometheus'' (stageUpdatePrometheus other) False,
       mkStage ''write_database'' (stageWriteDatabase other) False,
       mkStage ''record_history'' (withMetrics (stageRecordHistory (ev_since env) (ev_now env))) False,
       mkStage ''workload_pattern_detection'' (stageWorkloadPatternDetection other) True,
       mkStage ''log_completion'' (stageLogCompletion other) False ]"

section \<open>What was published and recorded\<close>

text \<open>The limits observed as applied to a user: RAM, swap and I/O.\<close>

definition appliedLimits :: "manager \<Rightarrow> int \<Rightarrow> bool \<times> bool \<times> bool" where
  "appliedLimits m uid = (case map_of (resourceLimits m) uid of
     None \<Rightarrow> (False, False, False) | Some st \<Rightarrow> (rl_ramApplied st, rl_swap st, rl_ioApplied st))"

text \<open>The limits requested for a user: RAM and I/O.\<close>

definition requestedLimits :: "manager \<Rightarrow> int \<Rightarrow> bool \<times> bool" where
  "requestedLimits m uid = (case map_of (resourceLimits m) uid of
     None \<Rightarrow> (False, False) | Some st \<Rightarrow> (rl_ram st, rl_io st))"

definition appliedOf :: "user_resource_limit_state option \<Rightarrow> bool \<times> bool \<times> bool" where
  "appliedOf x = (case x of None \<Rightarrow> (False, False, False) | Some st \<Rightarrow> (rl_ramApplied st, rl_swap st, rl_ioApplied st))"

definition requestedOf :: "user_resource_limit_state option \<Rightarrow> bool \<times> bool" where
  "requestedOf x = (case x of None \<Rightarrow> (False, False) | Some st \<Rightarrow> (rl_ram st, rl_io st))"

lemma limits_of: "appliedLimits m u = appliedOf (map_of (resourceLimits m) u)"
  "requestedLimits m u = requestedOf (map_of (resourceLimits m) u)"
  by (simp_all add: appliedLimits_def requestedLimits_def appliedOf_def requestedOf_def)

lemma observeActivate_other [simp]: "v \<noteq> u \<Longrightarrow> map_of (observeActivate cfg re ie u l) v = map_of l v"
  by (simp add: observeActivate_def Let_def)

lemma observeActivate_applied: "appliedOf (map_of (observeActivate cfg re ie u l) v) = appliedOf (map_of l v)"
  by (cases "v = u") (auto simp: observeActivate_def Let_def appliedOf_def zeroResourceLimit_def split: option.split)

lemma observeActivate_requested:
  "requestedOf (map_of (observeActivate cfg re ie u l) v) =
     (if v = u then (RAMEnabled cfg \<and> u \<in> set re, IOEnabled cfg \<and> u \<in> set ie) else requestedOf (map_of l v))"
  by (cases "v = u") (auto simp: observeActivate_def Let_def requestedOf_def)

lemma observeActivate_applied_all:
  "appliedOf (map_of (fold (observeActivate cfg re ie) us l) v) = appliedOf (map_of l v)"
  by (induction us arbitrary: l) (simp_all add: observeActivate_applied)

lemma observeActivate_requested_all:
  "requestedOf (map_of (fold (observeActivate cfg re ie) us l) v) =
     (if v \<in> set us then (RAMEnabled cfg \<and> v \<in> set re, IOEnabled cfg \<and> v \<in> set ie) else requestedOf (map_of l v))"
  by (induction us arbitrary: l) (simp_all add: observeActivate_requested)

text \<open>One step of the release loop, for a key whose entry the step knows.\<close>

lemma observeDeactivate_one:
  "map_of (observeDeactivate (u, st) l) v =
     (if v \<noteq> u then map_of l v
      else if \<not> rl_ramApplied st \<and> \<not> rl_ioApplied st \<and> \<not> rl_swap st then None
      else Some (st\<lparr> rl_ram := False, rl_io := False \<rparr>))"
  by (simp add: observeDeactivate_def Let_def)

lemma observeDeactivate_all:
  assumes "distinct (map fst es)"
  shows "map_of (fold observeDeactivate es l) v =
     (case map_of es v of None \<Rightarrow> map_of l v
      | Some st \<Rightarrow> if \<not> rl_ramApplied st \<and> \<not> rl_ioApplied st \<and> \<not> rl_swap st then None
                   else Some (st\<lparr> rl_ram := False, rl_io := False \<rparr>))"
  using assms
proof (induction es arbitrary: l)
  case (Cons e es)
  obtain u st where e: "e = (u, st)" by force
  show ?case
  proof (cases "v = u")
    case True
    then have "map_of es v = None" using Cons.prems e by (auto simp: map_of_eq_None_iff)
    then show ?thesis using Cons e True by (simp add: observeDeactivate_one)
  next
    case False
    then show ?thesis using Cons e by (simp add: observeDeactivate_one split: option.split)
  qed
qed simp

lemma requested_users: "map_of (fold (\<lambda>uid. AList.update uid True) us l) u = (if u \<in> set us then Some True else map_of l u)"
  by (induction us arbitrary: l) auto

lemma recordObservationOnlyIntent_keeps:
  "fst (recordObservationOnlyIntent d metrics m) =
     m\<lparr> requestedCPUUsers := requestedCPUUsers (fst (recordObservationOnlyIntent d metrics m)),
        cpuPointsLifecycleEvents := cpuPointsLifecycleEvents (fst (recordObservationOnlyIntent d metrics m)),
        resourceLimits := resourceLimits (fst (recordObservationOnlyIntent d metrics m)) \<rparr>"
  by (simp add: recordObservationOnlyIntent_def)


lemma mode_distinct [simp]:
  "EnforcementModeObservationOnly \<noteq> EnforcementModeSystemdNative" "EnforcementModeSystemdNative \<noteq> EnforcementModeObservationOnly"
  by (simp_all add: mode_defs)

lemma publish_fields [simp]:
  "enforcementCycleState (fst (publishEnforcementCycleState l st m)) = NormalizedEnforcementCycleState st (enforcementStatus m)"
  by (simp add: publishEnforcementCycleState_def Let_def)

lemma enforcementPolicyIntent_total:
  "d \<in> {decisionActivate, decisionMaintain, decisionDeactivate} \<Longrightarrow>
   \<exists>i. enforcementPolicyIntent d = Inr i \<and> validPolicyIntent i \<and> validAppliedAction (appliedEnforcementAction i) \<and>
     appliedEnforcementAction i = i \<and> i \<noteq> AppliedEnforcementActionNone \<and>
     (i = EnforcementPolicyIntentActivate \<or> i = EnforcementPolicyIntentDeactivate \<longleftrightarrow> d \<noteq> decisionMaintain)"
  by (auto simp: enforcementPolicyIntent_def validPolicyIntent_def validAppliedAction_def appliedEnforcementAction_def
      intent_defs action_defs)

lemma blockReason_not_none: "BoundedEnforcementBlockReason r \<noteq> EnforcementBlockReasonNone"
  by (simp add: BoundedEnforcementBlockReason_def block_defs)

text \<open>
  Property C20: the published state tells the truth about the cycle: the intent is that of the decision, an
  action is acknowledged exactly when the systemd back end executed the decision without an error
  and then it is the intended one, and a block reason is given exactly for an activation or release
  that observation-only mode did not execute.
\<close>

theorem published_state_truthful:
  assumes d: "rc_decision run \<in> {decisionActivate, decisionMaintain, decisionDeactivate}"
    and mode: "validEnforcementMode (st_Mode (enforcementStatus m))"
    and res: "stageExecuteDecision ops logged metrics m run = (m', run', err)"
  shows "wf_cycle_state (enforcementCycleState m') \<and>
     enforcementPolicyIntent (rc_decision run) = Inr (cs_RequestedIntent (enforcementCycleState m')) \<and>
     cs_AppliedAction (enforcementCycleState m') =
       (if st_Mode (enforcementStatus m) = EnforcementModeSystemdNative \<and> snd (executeDecision ops (rc_decision run) metrics m) = None
        then cs_RequestedIntent (enforcementCycleState m') else AppliedEnforcementActionNone) \<and>
     (cs_BlockReason (enforcementCycleState m') \<noteq> EnforcementBlockReasonNone \<longleftrightarrow>
        st_Mode (enforcementStatus m) = EnforcementModeObservationOnly \<and> rc_decision run \<noteq> decisionMaintain)"
proof -
  obtain i where i: "enforcementPolicyIntent (rc_decision run) = Inr i" "validPolicyIntent i"
    "validAppliedAction (appliedEnforcementAction i)" "appliedEnforcementAction i = i" "i \<noteq> AppliedEnforcementActionNone"
    "i = EnforcementPolicyIntentActivate \<or> i = EnforcementPolicyIntentDeactivate \<longleftrightarrow> rc_decision run \<noteq> decisionMaintain"
    using enforcementPolicyIntent_total [OF d] by blast
  let ?st0 = "\<lparr> cs_Mode = st_Mode (enforcementStatus m), cs_RequestedIntent = i,
     cs_AppliedAction = AppliedEnforcementActionNone, cs_BlockReason = EnforcementBlockReasonNone \<rparr>"
  show ?thesis
  proof (cases "st_Mode (enforcementStatus m) = EnforcementModeObservationOnly")
    case True
    let ?m1 = "fst (recordObservationOnlyIntent (rc_decision run) metrics m)"
    let ?st1 = "if rc_decision run \<noteq> decisionMaintain
       then ?st0\<lparr> cs_BlockReason := BoundedEnforcementBlockReason (st_Reason (enforcementStatus ?m1)) \<rparr> else ?st0"
    have "enforcementCycleState m' = NormalizedEnforcementCycleState ?st1 (enforcementStatus ?m1)"
      using res True i(1,6) unfolding stageExecuteDecision_def
      by (auto simp: Let_def publishEnforcementCycleState_def split: prod.splits if_splits)
    then show ?thesis using True i mode blockReason_not_none by simp
  next
    case False
    let ?r = "executeDecision ops (rc_decision run) metrics m"
    let ?st1 = "if snd ?r = None then ?st0\<lparr> cs_AppliedAction := appliedEnforcementAction i \<rparr> else ?st0"
    have "enforcementCycleState m' = NormalizedEnforcementCycleState ?st1 (enforcementStatus (fst ?r))"
      using res False i(1) unfolding stageExecuteDecision_def
      by (auto simp: Let_def publishEnforcementCycleState_def split: prod.splits option.splits if_splits)
    moreover have "st_Mode (enforcementStatus m) = EnforcementModeSystemdNative"
      using False mode by (simp add: validEnforcementMode_def)
    ultimately show ?thesis using False i mode by simp
  qed
qed

section \<open>History\<close>

lemma drop_suffix_snoc: "drop (length xs - k) xs @ [x] = drop (length xs - k) (xs @ [x])"
  by simp

lemma history_entries:
  "0 < k \<Longrightarrow> fold addControlHistoryEntry xs \<lparr> ch_entries = [], ch_maxSize = k \<rparr> =
     \<lparr> ch_entries = drop (length xs - k) xs, ch_maxSize = k \<rparr>"
proof (induction xs rule: rev_induct)
  case (snoc x xs)
  show ?case
  proof (cases "length xs < k")
    case True
    then show ?thesis using snoc by (simp add: addControlHistoryEntry_def)
  next
    case False
    then have "length (drop (length xs - k) xs @ [x]) = Suc k" using snoc.prems by simp
    moreover have "Suc (length xs - k) = length (xs @ [x]) - k" using False by simp
    ultimately show ?thesis using snoc False by (simp add: addControlHistoryEntry_def Let_def)
  qed
qed simp

text \<open>
  After any number of cycles the history holds the most recent ones, up to its size, in order,
  and \<open>GetControlHistory\<close> returns the last of them that were asked for: all when the limit is not
  positive or exceeds what is there.
\<close>

theorem history_keeps_most_recent:
  assumes "0 < k"
  shows "GetControlHistory limit (fold addControlHistoryEntry xs \<lparr> ch_entries = [], ch_maxSize = k \<rparr>) =
     drop (length xs - (if limit \<le> 0 \<or> int (min k (length xs)) < limit then k else nat limit)) xs"
proof -
  have n: "length (drop (length xs - k) xs) = min k (length xs)" by auto
  show ?thesis
  proof (cases "limit \<le> 0 \<or> int (min k (length xs)) < limit")
    case True
    then show ?thesis unfolding history_entries [OF assms] GetControlHistory_def Let_def control_history.simps n by auto
  next
    case False
    then have "nat limit \<le> min k (length xs)" by linarith
    moreover from this have "min k (length xs) - nat limit + (length xs - k) = length xs - nat limit" by auto
    ultimately show ?thesis using False
      unfolding history_entries [OF assms] GetControlHistory_def Let_def control_history.simps n by simp
  qed
qed

theorem history_keeps_most_recent_witness:
  "\<forall>x y. GetControlHistory 0 (fold addControlHistoryEntry [x, y] \<lparr> ch_entries = [], ch_maxSize = 1 \<rparr>) = [y]"
proof (intro allI)
  fix x y
  show "GetControlHistory 0 (fold addControlHistoryEntry [x, y] \<lparr> ch_entries = [], ch_maxSize = 1 \<rparr>) = [y]"
    using history_keeps_most_recent [of 1 0 "[x, y]"] by simp
qed

section \<open>The pipeline runs a prefix\<close>

text \<open>Running stages one after the other, whatever they answer, with the errors they return.\<close>

definition stageStep ::
  "control_cycle_stage \<Rightarrow> manager \<times> cycle_context \<times> go_error list \<Rightarrow> manager \<times> cycle_context \<times> go_error list" where
  "stageStep stage s =
     (case s of (m, run, es) \<Rightarrow> case sg_run stage m run of
        (m', run', None) \<Rightarrow> (m', run', es)
      | (m', run', Some e) \<Rightarrow>
          (m', if sg_continueAfterError stage then run'\<lparr> rc_deferredErrors := rc_deferredErrors run' @ [e] \<rparr> else run', es @ [e]))"

text \<open>Why a pipeline may stop before its end: the stage before failed for good or asked to stop.\<close>

definition stageStops :: "control_cycle_stage \<Rightarrow> manager \<times> cycle_context \<times> go_error list \<Rightarrow> bool" where
  "stageStops stage s =
     (case s of (m, run, es) \<Rightarrow> case sg_run stage m run of
        (m', run', err) \<Rightarrow> (err \<noteq> None \<and> \<not> sg_continueAfterError stage) \<or> rc_stopWithoutError run')"

definition stateAfter ::
  "control_cycle_stage list \<Rightarrow> manager \<times> cycle_context \<times> go_error list \<Rightarrow> nat \<Rightarrow> manager \<times> cycle_context \<times> go_error list" where
  "stateAfter stages s k = fold stageStep (take k stages) s"

definition stoppedAt :: "control_cycle_stage list \<Rightarrow> manager \<times> cycle_context \<times> go_error list \<Rightarrow> nat \<Rightarrow> bool" where
  "stoppedAt stages s k \<longleftrightarrow> 0 < k \<and> stageStops (stages ! (k - 1)) (stateAfter stages s (k - 1))"

lemma stateAfter_simps [simp]:
  "stateAfter stages s 0 = s"
  "stateAfter (st # stages) s (Suc k) = stateAfter stages (stageStep st s) k"
  by (simp_all add: stateAfter_def)

lemma stoppedAt_simps [simp]:
  "\<not> stoppedAt stages s 0"
  "stoppedAt (st # stages) s (Suc 0) = stageStops st s"
  "stoppedAt (st # stages) s (Suc (Suc k)) = stoppedAt stages (stageStep st s) (Suc k)"
  by (simp_all add: stoppedAt_def)

text \<open>The pipeline's answer from the state in which it stopped.\<close>

definition pipelineAnswer ::
  "go_error option list \<Rightarrow> manager \<times> cycle_context \<times> go_error list \<Rightarrow> manager \<times> cycle_context \<times> go_error option" where
  "pipelineAnswer extra s = (case s of (m, run, es) \<Rightarrow> (m, run, joinCycle es run extra))"

lemma runStages_unfold:
  assumes "ctxErr i = None"
  shows "runStages ctxErr i es m run (st # stages) =
     (if stageStops st (m, run, es) then pipelineAnswer [] (stageStep st (m, run, es))
      else case stageStep st (m, run, es) of (m', run', es') \<Rightarrow> runStages ctxErr (Suc i) es' m' run' stages)"
proof -
  obtain m' run' err where r: "sg_run st m run = (m', run', err)" by (cases "sg_run st m run") auto
  show ?thesis using assms by (cases err) (auto simp: r stageStops_def stageStep_def pipelineAnswer_def Let_def)
qed

text \<open>The first index at which the pipeline stops.\<close>

definition firstHalt ::
  "(nat \<Rightarrow> go_error option) \<Rightarrow> control_cycle_stage list \<Rightarrow> manager \<times> cycle_context \<times> go_error list \<Rightarrow> nat \<Rightarrow> bool" where
  "firstHalt ctxErr stages s k \<longleftrightarrow>
     k \<le> length stages \<and> (\<forall>j < k. ctxErr j = None \<and> \<not> stoppedAt stages s j) \<and>
     (k = length stages \<or> ctxErr k \<noteq> None \<or> stoppedAt stages s k)"

lemma firstHalt_Suc:
  "ctxErr 0 = None \<Longrightarrow> \<not> stageStops st s \<Longrightarrow>
   firstHalt (\<lambda>j. ctxErr (Suc j)) stages (stageStep st s) k \<Longrightarrow> firstHalt ctxErr (st # stages) s (Suc k)"
  unfolding firstHalt_def
  by (auto simp: less_Suc_eq_0_disj gr0_conv_Suc) (metis not0_implies_Suc stoppedAt_simps)+

lemma runStages_prefix:
  "\<exists>k. firstHalt (\<lambda>j. ctxErr (i + j)) stages (m, run, es) k \<and>
     runStages ctxErr i es m run stages =
       pipelineAnswer (if k < length stages \<and> \<not> stoppedAt stages (m, run, es) k then [ctxErr (i + k)] else [])
         (stateAfter stages (m, run, es) k)"
proof (induction stages arbitrary: m run es i)
  case Nil
  show ?case by (rule exI [of _ 0]) (simp add: firstHalt_def pipelineAnswer_def)
next
  case (Cons st stages)
  let ?s = "(m, run, es)"
  consider "ctxErr i \<noteq> None" | "ctxErr i = None" "stageStops st ?s" | "ctxErr i = None" "\<not> stageStops st ?s" by blast
  then show ?case
  proof cases
    case 1
    then show ?thesis by (intro exI [of _ 0]) (auto simp: firstHalt_def pipelineAnswer_def)
  next
    case 2
    then show ?thesis by (intro exI [of _ 1]) (auto simp: firstHalt_def runStages_unfold simp del: runStages.simps)
  next
    case 3
    obtain m' run' es' where s': "stageStep st ?s = (m', run', es')" by (cases "stageStep st ?s") auto
    obtain k where k: "firstHalt (\<lambda>j. ctxErr (Suc i + j)) stages (m', run', es') k"
      "runStages ctxErr (Suc i) es' m' run' stages =
        pipelineAnswer (if k < length stages \<and> \<not> stoppedAt stages (m', run', es') k then [ctxErr (Suc i + k)] else [])
         (stateAfter stages (m', run', es') k)"
      using Cons.IH [where i = "Suc i"] by blast
    have h: "firstHalt (\<lambda>j. ctxErr (i + j)) (st # stages) ?s (Suc k)"
      by (rule firstHalt_Suc) (use 3 k(1) s' in auto)
    have "stoppedAt (st # stages) ?s (Suc k) = stoppedAt stages (m', run', es') k"
      using 3 s' by (cases k) simp_all
    then show ?thesis using h k(2) 3 s' by (intro exI [of _ "Suc k"]) (simp add: runStages_unfold del: runStages.simps)
  qed
qed

lemma firstHalt_unique: "firstHalt c st s k \<Longrightarrow> firstHalt c st s k' \<Longrightarrow> k = k'"
  unfolding firstHalt_def by (metis linorder_neqE_nat not_le)

text \<open>
  The pipeline runs a prefix of its stages in order and stops at the first index where the
  list ends, the context is cancelled or the stage before failed for good or asked to stop. What
  it leaves is the state after exactly these stages, and its error joins every error they returned,
  the degraded errors and, when it was cancelled, the cancellation.
\<close>

theorem pipeline_runs_prefix:
  assumes "firstHalt ctxErr stages (m, run, []) k"
  shows "runControlCyclePipeline ctxErr m run stages =
     pipelineAnswer (if k < length stages \<and> \<not> stoppedAt stages (m, run, []) k then [ctxErr k] else [])
       (stateAfter stages (m, run, []) k)"
  using runStages_prefix [of ctxErr 0 stages m run "[]"] firstHalt_unique [OF assms]
  by (auto simp: runControlCyclePipeline_def)

theorem pipeline_runs_prefix_witness:
  "\<forall>m run. runControlCyclePipeline (\<lambda>_. None) m run [mkStage ''a'' (\<lambda>m run. (m, run, Some Canceled)) False, mkStage ''b'' (\<lambda>m run. (m, run, None)) False] =
     (m, run, joinCycle [Canceled] run [])"
proof (intro allI)
  fix m run
  let ?st = "[mkStage ''a'' (\<lambda>m run. (m, run, Some Canceled)) False, mkStage ''b'' (\<lambda>m run. (m, run, None)) False]"
  have "firstHalt (\<lambda>_. None) ?st (m, run, []) 1"
    by (simp add: firstHalt_def stageStops_def mkStage_def)
  from pipeline_runs_prefix [OF this]
  show "runControlCyclePipeline (\<lambda>_. None) m run ?st = (m, run, joinCycle [Canceled] run [])"
    by (simp add: pipelineAnswer_def stageStops_def stageStep_def mkStage_def)
qed

lemma joinErrors_Some: "joinErrors es = Some e \<longleftrightarrow> e = Joined (List.map_filter id es) \<and> List.map_filter id es \<noteq> []"
  by (auto simp: joinErrors_def Let_def)

lemma map_filter_id_Some [simp]: "List.map_filter id (map Some xs) = xs"
  by (induction xs) (simp_all add: List.map_filter_def)

lemma joinErrors_None: "joinErrors es = None \<longleftrightarrow> (\<forall>e \<in> set es. e = None)"
  by (auto simp: joinErrors_def Let_def List.map_filter_def filter_empty_conv)

text \<open>Everything inside a joined error is an error, and is inspected.\<close>

lemma onlyCancellation_join:
  "joinErrors es = Some e \<Longrightarrow> onlyCancellation e \<longleftrightarrow> (\<forall>x. Some x \<in> set es \<longrightarrow> onlyCancellation x)"
  by (auto simp: joinErrors_Some List.map_filter_def list_all_iff filter_empty_conv)

lemma onlyCancellation_joinCycle:
  assumes "joinCycle es run extra = Some e"
  shows "onlyCancellation e \<longleftrightarrow> (\<forall>x \<in> set es. onlyCancellation x) \<and>
     (\<forall>x \<in> set (rc_degradedErrors run). onlyCancellation x) \<and> (\<forall>x. Some x \<in> set extra \<longrightarrow> onlyCancellation x)"
proof -
  have part: "(\<forall>x. joinErrors (map Some xs) = Some x \<longrightarrow> onlyCancellation x) \<longleftrightarrow> (\<forall>x \<in> set xs. onlyCancellation x)" for xs
    by (cases "joinErrors (map Some xs)") (auto simp: joinErrors_None onlyCancellation_join)
  show ?thesis using onlyCancellation_join [OF assms [unfolded joinCycle_def]] part [of es] part [of "rc_degradedErrors run"]
    by auto
qed

text \<open>
  Shutdown hides no failure. The error of a pipeline counts as mere cancellation only when
  every error its stages returned and every degraded error is itself a cancellation; with no such
  error, a pipeline stopped by its cancelled context counts as cancelled.
\<close>

theorem cancellation_hides_no_failure:
  assumes halt: "firstHalt ctxErr stages (m, run, []) k"
    and res: "runControlCyclePipeline ctxErr m run stages = (m', run', err)"
    and final: "stateAfter stages (m, run, []) k = (m1, run1, es)"
  shows "(IsControlCycleCancellation c err \<longrightarrow>
       (\<forall>e \<in> set es. onlyCancellation e) \<and> (\<forall>e \<in> set (rc_degradedErrors run'). onlyCancellation e)) \<and>
     (k < length stages \<and> \<not> stoppedAt stages (m, run, []) k \<and> ctxErr k = Some Canceled \<and> es = [] \<and> rc_degradedErrors run' = []
        \<longrightarrow> IsControlCycleCancellation (ctxErr k) err)"
proof -
  have "runControlCyclePipeline ctxErr m run stages =
     pipelineAnswer (if k < length stages \<and> \<not> stoppedAt stages (m, run, []) k then [ctxErr k] else [])
       (stateAfter stages (m, run, []) k)"
    using runStages_prefix [of ctxErr 0 stages m run "[]"] firstHalt_unique [OF halt]
    by (auto simp: runControlCyclePipeline_def)
  then have e: "run' = run1" "err = joinCycle es run1 (if k < length stages \<and> \<not> stoppedAt stages (m, run, []) k then [ctxErr k] else [])"
    using res final by (auto simp: pipelineAnswer_def)
  show ?thesis
  proof (cases err)
    case None
    then show ?thesis using e by (auto simp: IsControlCycleCancellation_def joinCycle_def joinErrors_None)
  next
    case (Some x)
    note j = onlyCancellation_joinCycle [OF e(2) [symmetric, unfolded Some]]
    show ?thesis using j Some e(1) by (auto simp: IsControlCycleCancellation_def)
  qed
qed

text \<open>
  A blackout suspends the cycle. When the blackout stage is reached and a blackout is active,
  no later stage runs: metrics are not collected and no decision is made, and in observation-only
  mode nothing is limited or requested any more.
\<close>

theorem blackout_suspends_cycle:
  assumes ctx: "ctxErr 0 = None" "ctxErr 1 = None" and black: "ev_blackoutEnd env = Some t"
    and first: "stageReconcileCPUPoints other m run = (m1, run1, e1)" "\<not> rc_stopWithoutError run1"
    and res: "runControlCyclePipeline ctxErr m run (defaultControlCyclePipeline ops other env) = (m', run', err)"
  shows "rc_decision run' = rc_decision run1 \<and> rc_metrics run' = rc_metrics run1 \<and>
     (st_Mode (enforcementStatus m1) = EnforcementModeObservationOnly \<longrightarrow>
        \<not> limitsActive m' \<and> \<not> resourceLimitsActive m' \<and> activeUsers m' = [] \<and> resourceLimits m' = [] \<and>
        rc_stopWithoutError run')"
proof -
  let ?s0 = "(m, run, [])"
  let ?st = "defaultControlCyclePipeline ops other env"
  let ?black = "mkStage ''check_blackout'' (stageCheckBlackout ops (ev_blackoutEnd env)) False"
  obtain rest where st: "?st = mkStage ''reconcile_cpu_points'' (stageReconcileCPUPoints other) True # ?black # rest"
    by (simp add: defaultControlCyclePipeline_def)
  obtain run2 es2 where s1: "stageStep (mkStage ''reconcile_cpu_points'' (stageReconcileCPUPoints other) True) ?s0 = (m1, run2, es2)"
    and keep: "rc_decision run2 = rc_decision run1" "rc_metrics run2 = rc_metrics run1" "\<not> rc_stopWithoutError run2"
    using first by (cases e1) (auto simp: stageStep_def mkStage_def)
  have go: "\<not> stageStops (mkStage ''reconcile_cpu_points'' (stageReconcileCPUPoints other) True) ?s0"
    using first by (simp add: stageStops_def mkStage_def)
  have stop: "stageStops ?black (m1, run2, es2)"
    using black by (auto simp: stageStops_def mkStage_def stageCheckBlackout_def split: prod.splits option.splits)
  have "runControlCyclePipeline ctxErr m run ?st = pipelineAnswer [] (stageStep ?black (m1, run2, es2))"
    unfolding runControlCyclePipeline_def st using ctx s1 go stop by (simp add: runStages_unfold del: runStages.simps)
  then have r: "(m', run', err) = pipelineAnswer [] (stageStep ?black (m1, run2, es2))" using res by simp
  have "rc_decision run' = rc_decision run1 \<and> rc_metrics run' = rc_metrics run1"
    using r keep black
    by (auto simp: pipelineAnswer_def stageStep_def mkStage_def stageCheckBlackout_def split: prod.splits option.splits if_splits)
  moreover have "st_Mode (enforcementStatus m1) = EnforcementModeObservationOnly \<Longrightarrow>
      \<not> limitsActive m' \<and> \<not> resourceLimitsActive m' \<and> activeUsers m' = [] \<and> resourceLimits m' = [] \<and> rc_stopWithoutError run'"
    using r black
    by (auto simp: pipelineAnswer_def stageStep_def mkStage_def stageCheckBlackout_def deactivateLimits_def split: if_splits)
  ultimately show ?thesis by blast
qed

section \<open>Witnesses\<close>

definition sampleManager :: manager where
  "sampleManager = \<lparr> limitsActive = True, limitsAppliedTime = Some 0, resourceLimitsActive = False,
     resourceLimitsAppliedTime = None, activeUsers = [(1000, True)], thresholdTracker = newThresholdTracker,
     ioThresholdTracker = newThresholdTracker, stabilityTracker = None,
     m_cfg = sampleConfig, requestedCPUUsers = [], userLimitedAt = [],
     resourceLimits = [(1000, zeroResourceLimit\<lparr> rl_ramApplied := True \<rparr>)], cpuPointsLifecycleEvents = [],
     enforcementStatus = \<lparr> st_Mode = EnforcementModeObservationOnly, st_Reason = EnforcementReasonSystemdRuntimeAbsent \<rparr>,
     enforcementCycleState = \<lparr> cs_Mode = [], cs_RequestedIntent = [], cs_AppliedAction = [], cs_BlockReason = [] \<rparr>,
     systemdResourcesRequested = False, ioWeightProgrammed = False,
     controlHist = \<lparr> ch_entries = [], ch_maxSize = 100 \<rparr> \<rparr>"

definition sampleRun :: cycle_context where
  "sampleRun = \<lparr> rc_cfg = sampleConfig, rc_startTime = 0, rc_metrics = None, rc_decision = decisionActivate, rc_reason = None,
     rc_enforcementState = \<lparr> cs_Mode = [], cs_RequestedIntent = [], cs_AppliedAction = [], cs_BlockReason = [] \<rparr>,
     rc_duration = 0, rc_ingressRefusedCount = 0, rc_stopWithoutError = False, rc_deferredErrors = [], rc_degradedErrors = [] \<rparr>"

definition idleOps :: systemd_ops where
  "idleOps = \<lparr> activateSystemdEnforcement = (\<lambda>sm m. (m, None)), restoreSystemdCPUPoints = (\<lambda>m. (m, None)),
     reconcileSystemdResources = (\<lambda>sm m. (m, None)) \<rparr>"

definition idleStages :: other_stages where
  "idleStages = (let f = (\<lambda>m run. (m, run, None)) in
     \<lparr> stageReconcileCPUPoints = f, stageCollectMetrics = f, stageReconcileIODeviceWeights = f,
       stageFinalizeEnforcementObservation = f, stageDispatchLimitHooks = f, stageUpdatePrometheus = f,
       stageWriteDatabase = f, stageWorkloadPatternDetection = f, stageLogCompletion = f \<rparr>)"


theorem published_state_truthful_witness:
  "cs_AppliedAction (enforcementCycleState (fst (stageExecuteDecision idleOps None (sampleMetrics 80 0 False)
       (sampleManager\<lparr> enforcementStatus := \<lparr> st_Mode = EnforcementModeSystemdNative, st_Reason = [] \<rparr> \<rparr>) sampleRun))) =
     EnforcementPolicyIntentActivate"
proof -
  let ?m = "sampleManager\<lparr> enforcementStatus := \<lparr> st_Mode = EnforcementModeSystemdNative, st_Reason = [] \<rparr> \<rparr>"
  obtain m' run' err where r: "stageExecuteDecision idleOps None (sampleMetrics 80 0 False) ?m sampleRun = (m', run', err)"
    by (cases "stageExecuteDecision idleOps None (sampleMetrics 80 0 False) ?m sampleRun") auto
  have x: "snd (executeDecision idleOps decisionActivate (sampleMetrics 80 0 False) ?m) = None"
    by (simp add: executeDecision_def idleOps_def decisionActivate_def mode_defs)
  have d: "rc_decision sampleRun \<in> {decisionActivate, decisionMaintain, decisionDeactivate}" by (simp add: sampleRun_def)
  have v: "validEnforcementMode (st_Mode (enforcementStatus ?m))" by (simp add: validEnforcementMode_def)
  show ?thesis using published_state_truthful [OF d v r] x r
    by (simp add: sampleRun_def enforcementPolicyIntent_def)
qed

theorem cancellation_hides_no_failure_witness:
  "\<not> IsControlCycleCancellation (Some Canceled)
     (snd (snd (runControlCyclePipeline (\<lambda>_. None) sampleManager sampleRun [mkStage ''a'' (\<lambda>m run. (m, run, Some (Failure ''x''))) True])))"
proof -
  let ?st = "[mkStage ''a'' (\<lambda>m run. (m, run, Some (Failure ''x''))) True]"
  have h: "firstHalt (\<lambda>_. None) ?st (sampleManager, sampleRun, []) 1" by (simp add: firstHalt_def)
  obtain m' run' err where r: "runControlCyclePipeline (\<lambda>_. None) sampleManager sampleRun ?st = (m', run', err)"
    by (cases "runControlCyclePipeline (\<lambda>_. None) sampleManager sampleRun ?st") auto
  have f: "stateAfter ?st (sampleManager, sampleRun, []) 1 =
     (sampleManager, sampleRun\<lparr> rc_deferredErrors := [Failure ''x''] \<rparr>, [Failure ''x''])"
    by (simp add: stageStep_def mkStage_def sampleRun_def)
  show ?thesis using cancellation_hides_no_failure [OF h r f, of "Some Canceled"] r by auto
qed

theorem blackout_suspends_cycle_witness:
  "\<not> limitsActive (fst (runControlCyclePipeline (\<lambda>_. None) sampleManager sampleRun (defaultControlCyclePipeline idleOps idleStages
       \<lparr> ev_blackoutEnd = Some 5, ev_clock = clockAt 0, ev_logged = None, ev_since = 0, ev_now = 0 \<rparr>)))"
proof -
  let ?env = "\<lparr> ev_blackoutEnd = Some 5, ev_clock = clockAt 0, ev_logged = None, ev_since = 0, ev_now = 0 \<rparr>"
  let ?st = "defaultControlCyclePipeline idleOps idleStages ?env"
  obtain m' run' err where r: "runControlCyclePipeline (\<lambda>_. None) sampleManager sampleRun ?st = (m', run', err)"
    by (cases "runControlCyclePipeline (\<lambda>_. None) sampleManager sampleRun ?st") auto
  have "stageReconcileCPUPoints idleStages sampleManager sampleRun = (sampleManager, sampleRun, None)"
    by (simp add: idleStages_def Let_def)
  from blackout_suspends_cycle [OF _ _ _ this _ r, of 5] show ?thesis
    by (simp add: r) (simp add: sampleManager_def sampleRun_def)
qed

end
