(* ===== verification/Cpu_Reconcile.thy ===== *)
theory Cpu_Reconcile
  imports Write_Ahead_Recovery CpuPoints_FlatPlan CpuPoints_Capacity Control_Cycle
begin

text \<open>
  The state manager's CPU Points back end (\<^verbatim>\<open>src/state/systemd_cpu_points.go\<close> and
  \<^verbatim>\<open>src/state/cpu_points_reload.go\<close>): discover the topology, plan the weights for the live capacity,
  apply them through the unit adapter, read everything back and only then publish the plan; and the
  release of what was applied. The user eligibility of \<^verbatim>\<open>src/config/config.go\<close> decides who takes part.
\<close>

section \<open>Who may be limited\<close>

text \<open>
  The include and exclude lists are regular expressions; \<open>regexp p\<close> is what the regular-expression
  package makes of the pattern \<open>p\<close>: nothing when it does not compile, else the strings it matches.
\<close>

record eligibility_config =
  UserIncludeList :: "string list"
  UserExcludeList :: "string list"
  RAMUserIncludeList :: "string list"
  RAMUserExcludeList :: "string list"
  IOUserIncludeList :: "string list"
  IOUserExcludeList :: "string list"

record user_eligibility =
  EligibleForCPU :: bool
  EligibleForRAM :: bool
  EligibleForIO :: bool

type_synonym regexp_compile = "string \<Rightarrow> (string \<Rightarrow> bool) option"

definition matchPattern :: "regexp_compile \<Rightarrow> string \<Rightarrow> string \<Rightarrow> bool" where
  "matchPattern regexp pattern s = (case regexp pattern of None \<Rightarrow> False | Some matches \<Rightarrow> matches s)"

text \<open>
  The source keeps the compiled patterns in a cache, which answers as the compiler does as long as it holds
  only what was compiled: \<open>cached\<close> is the look through the cache, with the cache it leaves behind.
\<close>

definition matchCached ::
  "regexp_compile \<Rightarrow> (string \<times> (string \<Rightarrow> bool)) list \<Rightarrow> string \<Rightarrow> string \<Rightarrow> bool \<times> (string \<times> (string \<Rightarrow> bool)) list" where
  "matchCached regexp cache pattern s =
     (case map_of cache pattern of
        Some matches \<Rightarrow> (matches s, cache)
      | None \<Rightarrow>
          (case regexp pattern of
             None \<Rightarrow> (False, cache)
           | Some matches \<Rightarrow> (matches s, AList.update pattern matches cache)))"

definition cacheSound :: "regexp_compile \<Rightarrow> (string \<times> (string \<Rightarrow> bool)) list \<Rightarrow> bool" where
  "cacheSound regexp cache \<longleftrightarrow> (\<forall>p f. map_of cache p = Some f \<longrightarrow> regexp p = Some f)"

lemma matchCached_transparent:
  "cacheSound regexp cache \<Longrightarrow>
   fst (matchCached regexp cache p s) = matchPattern regexp p s \<and> cacheSound regexp (snd (matchCached regexp cache p s))"
  by (auto simp: cacheSound_def matchCached_def matchPattern_def update_conv' split: option.splits)

fun matchesAny :: "regexp_compile \<Rightarrow> string list \<Rightarrow> string \<Rightarrow> bool" where
  "matchesAny regexp [] s = False"
| "matchesAny regexp (p # ps) s = (if matchPattern regexp p s then True else matchesAny regexp ps s)"

definition isUserIncludedLocked :: "regexp_compile \<Rightarrow> eligibility_config \<Rightarrow> string \<Rightarrow> bool" where
  "isUserIncludedLocked regexp c u = (if UserIncludeList c = [] then False else matchesAny regexp (UserIncludeList c) u)"

definition isUserExcludedLocked :: "regexp_compile \<Rightarrow> eligibility_config \<Rightarrow> string \<Rightarrow> bool" where
  "isUserExcludedLocked regexp c u = (if UserExcludeList c = [] then False else matchesAny regexp (UserExcludeList c) u)"

definition isUserIncludedForRAMLocked :: "regexp_compile \<Rightarrow> eligibility_config \<Rightarrow> string \<Rightarrow> bool" where
  "isUserIncludedForRAMLocked regexp c u = (if RAMUserIncludeList c = [] then True else matchesAny regexp (RAMUserIncludeList c) u)"

definition isUserExcludedForRAMLocked :: "regexp_compile \<Rightarrow> eligibility_config \<Rightarrow> string \<Rightarrow> bool" where
  "isUserExcludedForRAMLocked regexp c u = (if RAMUserExcludeList c = [] then False else matchesAny regexp (RAMUserExcludeList c) u)"

definition isUserIncludedForIOLocked :: "regexp_compile \<Rightarrow> eligibility_config \<Rightarrow> string \<Rightarrow> bool" where
  "isUserIncludedForIOLocked regexp c u = (if IOUserIncludeList c = [] then True else matchesAny regexp (IOUserIncludeList c) u)"

definition isUserExcludedForIOLocked :: "regexp_compile \<Rightarrow> eligibility_config \<Rightarrow> string \<Rightarrow> bool" where
  "isUserExcludedForIOLocked regexp c u = (if IOUserExcludeList c = [] then False else matchesAny regexp (IOUserExcludeList c) u)"

definition EvaluateUserEligibility :: "regexp_compile \<Rightarrow> eligibility_config \<Rightarrow> string \<Rightarrow> user_eligibility" where
  "EvaluateUserEligibility regexp c u =
     \<lparr> EligibleForCPU = isUserIncludedLocked regexp c u \<and> \<not> isUserExcludedLocked regexp c u,
       EligibleForRAM = isUserIncludedForRAMLocked regexp c u \<and> \<not> isUserExcludedForRAMLocked regexp c u,
       EligibleForIO = isUserIncludedForIOLocked regexp c u \<and> \<not> isUserExcludedForIOLocked regexp c u \<rparr>"

section \<open>The manager's systemd state\<close>

text \<open>Of the weighted I/O status, what the release changes; whether weights are programmed is in the manager.\<close>

record io_device_weight_status =
  iw_ProgrammedState :: string
  iw_ReadBack :: bool
  iw_ReadBackState :: string
  iw_PartialUsers :: int
  iw_CompleteUsers :: int
  iw_UnavailableUsers :: int
  iw_AuthorityCoverage :: string
  iw_SiblingSlices :: int
  iw_TotalPoints :: int
  iw_Values :: "string list"

text \<open>
  The last four fields are not the manager's own: the two maps of resource authorities belong to the metrics
  of the running cycle, the two counters to the exporter.
\<close>

record systemd_manager = manager +
  systemdUnitsInstalled :: bool
  units :: machine
  cpuCapacity :: live_capacity_provider
  cpuPointsPolicy :: policy_snapshot
  pendingCPUPointsPolicy :: "policy_snapshot option"
  cpuPointsDegraded :: bool
  systemdCPURequested :: bool
  systemdCPUComplete :: bool
  systemdCPUParent :: unit_identity
  systemdCPUSlices :: "(int \<times> unit_identity) list"
  systemdCPUPlan :: "flat_plan option"
  systemdCPUPlanSignature :: string
  systemdCPUVerifiedAt :: gotime
  systemdResourceUnits :: "(int \<times> unit_identity) list"
  ioWeightUnits :: "(int \<times> unit_identity) list"
  ioWeightStatus :: io_device_weight_status
  pendingLimitHookUIDs :: "int list"
  systemdRAMAuthority :: "(int \<times> resource_authority option) list"
  systemdIOAuthority :: "(int \<times> resource_authority option) list"
  cpuLimitsActivated :: nat
  cpuLimitsDeactivated :: nat

text \<open>
  What the manager asks the outside besides the adapter: the file of online CPUs, the user names, the
  clock and whether the context is done. Answers may change from call to call.
\<close>

record reconcile_env =
  en_bd :: boundary
  en_online :: "call list \<Rightarrow> (string, string) res"
  en_now :: "call list \<Rightarrow> gotime"
  en_done :: "call list \<Rightarrow> bool"
  en_username :: "int \<Rightarrow> string"
  en_regexp :: regexp_compile
  en_config :: eligibility_config

text \<open>
  The errors: what the adapter returned (several when joined), for which user, or what the capacity
  and the planner returned.
\<close>

datatype reconcile_failure =
    AdapterUnavailable
  | AdapterFailure "adapter_error list"
  | UserFailure int adapter_error
  | CapacityFailure capacity_reason
  | PlanFailure flat_plan_failure
  | CapacityMoved

type_synonym 'a manager_op = "(systemd_manager, reconcile_failure, 'a) op"

text \<open>\<^verbatim>\<open>errors.As\<close> finds the first error of the tree that has the method; every adapter error has it.\<close>

definition firstRetryable :: "adapter_error list \<Rightarrow> bool" where
  "firstRetryable es = (case filter (\<lambda>e. errorReason e \<noteq> None) es of [] \<Rightarrow> False | e # _ \<Rightarrow> RetryableReconciliation e)"

fun IsRetryableReconciliation :: "reconcile_failure \<Rightarrow> bool" where
  "IsRetryableReconciliation (AdapterFailure es) = firstRetryable es"
| "IsRetryableReconciliation (UserFailure _ e) = firstRetryable [e]"
| "IsRetryableReconciliation CapacityMoved = True"
| "IsRetryableReconciliation _ = False"

section \<open>Starting with what is owned\<close>

definition systemdUserSliceUID :: "string \<Rightarrow> int option" where
  "systemdUserSliceUID name =
     (if \<not> hasPrefix name ''user-'' \<or> \<not> hasSuffix name ''.slice'' then None
      else let v = take (length name - 11) (drop 5 name) in
        (case parseUint 31 v of
           Some n \<Rightarrow> if formatUint n = v then Some (int n) else None
         | None \<Rightarrow> None))"

text \<open>One lease found by the adapter's recovery: what it says about the limits still in force.\<close>

definition adoptLease :: "unit_identity \<Rightarrow> property_lease \<Rightarrow> systemd_manager \<Rightarrow> systemd_manager" where
  "adoptLease identity lease s =
     (if \<not> PropertyLease_Active lease then s
      else
        let s1 = (if PropertyName_IsCPU (pl_Property lease) then
                    let s0 = s\<lparr> systemdCPURequested := True \<rparr> in
                    if ui_Name identity = parentUserSlice then s0\<lparr> systemdCPUParent := identity \<rparr>
                    else (case systemdUserSliceUID (ui_Name identity) of
                        Some uid \<Rightarrow> s0\<lparr> systemdCPUSlices := AList.update uid identity (systemdCPUSlices s0) \<rparr> | None \<Rightarrow> s0)
                  else s)
        in if PropertyName_Resource (pl_Property lease) \<in> {Some ResourceMemory, Some ResourceIO} then
             let s2 = s1\<lparr> systemdResourcesRequested := True \<rparr> in
             (case systemdUserSliceUID (ui_Name identity) of
                Some uid \<Rightarrow> s2\<lparr> systemdResourceUnits := AList.update uid identity (systemdResourceUnits s2) \<rparr> | None \<Rightarrow> s2)
           else s1)"

definition WithSystemdCPUEnforcement :: "machine option \<Rightarrow> systemd_manager \<Rightarrow> systemd_manager option" where
  "WithSystemdCPUEnforcement adapter s =
     (case adapter of
        None \<Rightarrow> None
      | Some m \<Rightarrow>
          Some (fold (\<lambda>identity. fold (adoptLease identity) (Leases identity m)) (OwnedUnits m)
            (s\<lparr> systemdUnitsInstalled := True, units := m,
                enforcementStatus := \<lparr> st_Mode = EnforcementModeSystemdNative, st_Reason = EnforcementReasonSystemdNativeAdapter \<rparr> \<rparr>)))"

text \<open>A call of the adapter.\<close>

definition unitsR :: "(adapter_error \<Rightarrow> 'e) \<Rightarrow> 'a adapter_op \<Rightarrow> (systemd_manager, 'e, 'a) op" where
  "unitsR fail oper = (\<lambda>s. case oper (units s) of
     (Inl e, m) \<Rightarrow> (Inl (fail e), s\<lparr> units := m \<rparr>) | (Inr x, m) \<Rightarrow> (Inr x, s\<lparr> units := m \<rparr>))"

definition refreshR :: "reconcile_env \<Rightarrow> parent_pool_points \<Rightarrow> capacity_state manager_op" where
  "refreshR env pts = (\<lambda>s.
     case Refresh (OnlineCPUs (en_online env (trace (units s)))) pts (cpuCapacity s) of
       (p, state, err) \<Rightarrow>
         (case err of Some reason \<Rightarrow> Inl (CapacityFailure reason) | None \<Rightarrow> Inr state, s\<lparr> cpuCapacity := p \<rparr>))"

section \<open>Publishing a plan\<close>

definition recordCPUTransitions :: "bool \<Rightarrow> bool \<Rightarrow> systemd_manager \<Rightarrow> systemd_manager" where
  "recordCPUTransitions activated deactivated s =
     (let s1 = (if activated then s\<lparr> cpuLimitsActivated := cpuLimitsActivated s + 1 \<rparr> else s)
      in if deactivated then s1\<lparr> cpuLimitsDeactivated := cpuLimitsDeactivated s1 + 1 \<rparr> else s1)"

definition InvocationIDString :: "unit_identity \<Rightarrow> string" where
  "InvocationIDString i = hexEncode (ui_InvocationID i)"

definition className :: "flat_allocation_class \<Rightarrow> string" where
  "className c = (case c of FlatAllocationRoot \<Rightarrow> ''root'' | FlatAllocationGuaranteed \<Rightarrow> ''guaranteed''
                  | FlatAllocationBestEffort \<Rightarrow> ''best_effort'')"

definition formatU64 :: "u64 \<Rightarrow> string" where
  "formatU64 v = formatUint (unat v)"

definition formatInt :: "int \<Rightarrow> string" where
  "formatInt v = (if v < 0 then CHR ''-'' # formatUint (nat (- v)) else formatUint (nat v))"

definition identityOf :: "(int \<times> unit_identity) list \<Rightarrow> int \<Rightarrow> unit_identity" where
  "identityOf us uid = (case map_of us uid of Some i \<Rightarrow> i | None \<Rightarrow> zeroIdentity)"

definition sliceSignature :: "(int \<times> unit_identity) list \<Rightarrow> flat_slice_plan \<Rightarrow> string" where
  "sliceSignature us sl =
     (let i = identityOf us (fs_uid sl) in
      ''|'' @ formatInt (fs_uid sl) @ '':'' @ ui_Name i @ '':'' @ InvocationIDString i @ '':'' @ formatU64 (ui_ControlGroupID i) @
      '':'' @ className (fs_class sl) @ '':'' @ formatInt (KernelCPUWeight_Value (fs_weight sl)))"

definition systemdCPUPointsPlanSummary :: "unit_identity \<Rightarrow> (int \<times> unit_identity) list \<Rightarrow> flat_plan \<Rightarrow> string \<times> nat \<times> nat \<times> nat" where
  "systemdCPUPointsPlanSummary parent us plan =
     (ui_Name parent @ '':'' @ InvocationIDString parent @ '':'' @ formatU64 (ui_ControlGroupID parent) @ '':'' @
      formatU64 (pq_quota (fp_parentQuota plan)) @ '':'' @ formatU64 (pq_period (fp_parentQuota plan)) @ '':'' @ formatU64 (fp_scale plan) @
      concat (map (sliceSignature us) (fp_slices plan)),
      length (filter (\<lambda>sl. fs_class sl = FlatAllocationGuaranteed) (fp_slices plan)),
      length (filter (\<lambda>sl. fs_class sl = FlatAllocationBestEffort) (fp_slices plan)),
      length (filter (\<lambda>sl. fs_class sl = FlatAllocationRoot) (fp_slices plan)))"

text \<open>One planned slice: an eligible user becomes active; a newly active one gets its time and its hook.\<close>

definition publishSlice :: "gotime \<Rightarrow> (int \<times> bool) list \<Rightarrow> flat_slice_plan \<Rightarrow> systemd_manager \<Rightarrow> systemd_manager" where
  "publishSlice now previouslyActive sl s =
     (if \<not> fs_eligible sl then s
      else
        let uid = fs_uid sl;
            s1 = s\<lparr> requestedCPUUsers := AList.update uid True (requestedCPUUsers s),
                    activeUsers := AList.update uid True (activeUsers s) \<rparr>
        in if map_of previouslyActive uid = Some True then s1
           else s1\<lparr> userLimitedAt := AList.update uid now (userLimitedAt s1),
                    pendingLimitHookUIDs := List.insert uid (pendingLimitHookUIDs s1) \<rparr>)"

definition publishSystemdCPUPointsPlan ::
  "gotime \<Rightarrow> unit_identity \<Rightarrow> (int \<times> unit_identity) list \<Rightarrow> flat_plan \<Rightarrow> systemd_manager \<Rightarrow> systemd_manager" where
  "publishSystemdCPUPointsPlan now parent us plan s =
     (let wasActive = limitsActive s;
          s1 = fold (publishSlice now (activeUsers s)) (fp_slices plan) (s\<lparr> activeUsers := [], requestedCPUUsers := [] \<rparr>);
          active = (activeUsers s1 \<noteq> []);
          s2 = s1\<lparr> userLimitedAt := filter (\<lambda>(uid, t). map_of (activeUsers s1) uid = Some True) (userLimitedAt s1),
                   systemdCPUParent := parent, systemdCPUSlices := us,
                   systemdCPUPlanSignature := fst (systemdCPUPointsPlanSummary parent us plan),
                   systemdCPUPlan := Some plan, systemdCPUComplete := True, systemdCPUVerifiedAt := now,
                   cpuPointsDegraded := False, pendingCPUPointsPolicy := None, limitsActive := active,
                   limitsAppliedTime := (if \<not> active then None else if \<not> wasActive then now else limitsAppliedTime s1) \<rparr>
      in recordCPUTransitions (active \<and> \<not> wasActive) (\<not> active \<and> wasActive) s2)"

section \<open>Releasing CPU properties\<close>

definition hasActiveNonCPUProperty :: "property_lease list \<Rightarrow> bool" where
  "hasActiveNonCPUProperty ls = list_ex (\<lambda>l. PropertyLease_Active l \<and> \<not> PropertyName_IsCPU (pl_Property l)) ls"

definition ownedR :: "reconcile_env \<Rightarrow> unit manager_op" where
  "ownedR env =
     bindR (unitsR (\<lambda>e. AdapterFailure [e]) (ReconcileOwned (en_bd env))) (\<lambda>errors.
     checkR (errors = []) (AdapterFailure errors))"

text \<open>
  The loop over the planned slices in the order of the user IDs: slices that keep other leases give
  up their CPU weight alone, the others are collected for the complete restore.
\<close>

fun restoreSlices ::
  "reconcile_env \<Rightarrow> string list \<Rightarrow> (int \<times> unit_identity) list \<Rightarrow> (int \<times> user_resource_limit_state) list \<Rightarrow> int list \<Rightarrow>
   (unit_identity list \<times> adapter_error list) manager_op" where
  "restoreSlices env owned slices resources [] = retR ([], [])"
| "restoreSlices env owned slices resources (uid # uids) =
     (let identity = identityOf slices uid;
          state = (case map_of resources uid of Some st \<Rightarrow> st | None \<Rightarrow> zeroResourceLimit)
      in if ui_Name identity \<notin> set owned then restoreSlices env owned slices resources uids
         else
           bindR (readR (\<lambda>s. hasActiveNonCPUProperty (Leases identity (units s)))) (\<lambda>other.
             if \<not> rl_ramApplied state \<and> \<not> rl_ioApplied state \<and> \<not> other then
               bindR (restoreSlices env owned slices resources uids) (\<lambda>(complete, errors). retR (identity # complete, errors))
             else
               bindR (tryR (unitsR (\<lambda>e. AdapterFailure [e]) (RestoreProperties (en_bd env) identity [PropertyCPUWeight]))) (\<lambda>r.
               bindR (restoreSlices env owned slices resources uids) (\<lambda>(complete, errors).
               retR (complete, (case r of Inl (AdapterFailure es) \<Rightarrow> es | Inl _ \<Rightarrow> [] | Inr (_, Some e) \<Rightarrow> [e] | Inr (_, None) \<Rightarrow> []) @ errors)))))"

definition restoreUnitBatch :: "reconcile_env \<Rightarrow> unit_identity list \<Rightarrow> unit_restore list manager_op" where
  "restoreUnitBatch env identities =
     (if identities = [] then retR [] else unitsR (\<lambda>e. AdapterFailure [e]) (RestoreUnits (en_bd env) identities))"

definition releaseCPU :: "systemd_manager \<Rightarrow> systemd_manager" where
  "releaseCPU s =
     recordCPUTransitions False (limitsActive s)
       (s\<lparr> systemdCPURequested := False, systemdCPUComplete := False, systemdCPUParent := zeroIdentity, systemdCPUSlices := [],
           systemdCPUPlanSignature := [], requestedCPUUsers := [], activeUsers := [], userLimitedAt := [],
           limitsActive := False, limitsAppliedTime := None, cpuPointsDegraded := False \<rparr>)"

definition restoreSystemdCPUProperties :: "reconcile_env \<Rightarrow> unit manager_op" where
  "restoreSystemdCPUProperties env =
     bindR (readR systemdUnitsInstalled) (\<lambda>installed.
     bindR (checkR installed AdapterUnavailable) (\<lambda>_.
     bindR (ownedR env) (\<lambda>_.
     bindR (readR (\<lambda>s. (map ui_Name (OwnedUnits (units s)), systemdCPUParent s, systemdCPUSlices s, resourceLimits s)))
       (\<lambda>(owned, parent, slices, resources).
     bindR (restoreSlices env owned slices resources (sort (map fst slices))) (\<lambda>(complete, errors).
     bindR (restoreUnitBatch env (complete @ (if ui_Name parent \<noteq> [] \<and> ui_Name parent \<in> set owned then [parent] else []))) (\<lambda>outcomes.
     let allErrors = errors @ List.map_filter ur_err outcomes in
     bindR (checkR (allErrors = []) (AdapterFailure allErrors)) (\<lambda>_.
     writeR releaseCPU)))))))"

text \<open>The full release orders every leaf before the parent.\<close>

definition leafBefore :: "unit_identity \<Rightarrow> unit_identity \<Rightarrow> bool" where
  "leafBefore left right =
     (if ui_Name left = parentUserSlice then False else if ui_Name right = parentUserSlice then True else ui_Name left < ui_Name right)"

fun insertStable :: "unit_identity \<Rightarrow> unit_identity list \<Rightarrow> unit_identity list" where
  "insertStable x [] = [x]"
| "insertStable x (y # ys) = (if leafBefore y x then y # insertStable x ys else x # y # ys)"

definition leavesFirst :: "unit_identity list \<Rightarrow> unit_identity list" where
  "leavesFirst us = foldr insertStable us []"

text \<open>An outcome with conflicts and no error counts as a failure too.\<close>

definition outcomeFailures :: "unit_restore list \<Rightarrow> adapter_error list" where
  "outcomeFailures os = concat (map (\<lambda>r. case ur_err r of
      Some e \<Rightarrow> [e]
    | None \<Rightarrow> if rr_Conflicts (ur_result r) \<noteq> [] then [PlainError ''restore preserved external property conflicts''] else []) os)"

definition releaseAll :: "systemd_manager \<Rightarrow> systemd_manager" where
  "releaseAll s =
     recordCPUTransitions False (limitsActive s)
       (s\<lparr> systemdCPURequested := False, systemdCPUComplete := False, systemdCPUParent := zeroIdentity, systemdCPUSlices := [],
           systemdCPUPlanSignature := [], systemdResourcesRequested := False, systemdResourceUnits := [], ioWeightUnits := [],
           ioWeightProgrammed := False,
           ioWeightStatus := \<lparr> iw_ProgrammedState = ''released'', iw_ReadBack = False, iw_ReadBackState = ''released'',
             iw_PartialUsers = 0, iw_CompleteUsers = 0, iw_UnavailableUsers = 0, iw_AuthorityCoverage = ''unavailable'',
             iw_SiblingSlices = 0, iw_TotalPoints = 0, iw_Values = [] \<rparr>,
           requestedCPUUsers := [], activeUsers := [], userLimitedAt := [], resourceLimits := [], limitsActive := False,
           resourceLimitsActive := False, limitsAppliedTime := None, resourceLimitsAppliedTime := None, cpuPointsDegraded := False \<rparr>)"

definition restoreSystemdCPUPoints :: "reconcile_env \<Rightarrow> unit manager_op" where
  "restoreSystemdCPUPoints env =
     bindR (readR systemdUnitsInstalled) (\<lambda>installed.
     bindR (checkR installed AdapterUnavailable) (\<lambda>_.
     bindR (tryR (ownedR env)) (\<lambda>reconciled.
     bindR (readR (\<lambda>s. leavesFirst (OwnedUnits (units s)))) (\<lambda>owned.
     bindR (restoreUnitBatch env owned) (\<lambda>outcomes.
     let errors = (case reconciled of Inl (AdapterFailure es) \<Rightarrow> es | _ \<Rightarrow> []) @ outcomeFailures outcomes in
     if errors \<noteq> [] then
       bindR (writeR (\<lambda>s. s\<lparr> systemdCPUComplete := False, cpuPointsDegraded := True \<rparr>)) (\<lambda>_. failR (AdapterFailure errors))
     else writeR releaseAll)))))"

section \<open>Reconciling the plan\<close>

definition stepR :: "string \<Rightarrow> 'a manager_op \<Rightarrow> (systemd_manager, string \<times> reconcile_failure, 'a) op" where
  "stepR step oper = (\<lambda>s. case oper s of (Inl e, s') \<Rightarrow> (Inl (step, e), s') | (Inr x, s') \<Rightarrow> (Inr x, s'))"

definition participantsOf :: "reconcile_env \<Rightarrow> topology_snapshot \<Rightarrow> active_user_slice list" where
  "participantsOf env topology =
     map (\<lambda>u. \<lparr> au_UID = uint (ss_UID u),
                au_Eligible = EligibleForCPU (EvaluateUserEligibility (en_regexp env) (en_config env) (en_username env (uint (ss_UID u)))) \<rparr>)
       (ts_Users topology)"

definition unitsOf :: "topology_snapshot \<Rightarrow> (int \<times> unit_identity) list" where
  "unitsOf topology = fold (\<lambda>u. AList.update (uint (ss_UID u)) (us_Identity (ss_Unit u))) (ts_Users topology) []"

definition weightAssignment :: "flat_slice_plan \<Rightarrow> (adapter_error, property_assignment) res" where
  "weightAssignment sl = NewPropertyAssignment PropertyCPUWeight (of_int (KernelCPUWeight_Value (fs_weight sl)))"

text \<open>The weight of one slice, handed to \<open>Apply\<close> or to \<open>ConfirmApplied\<close>.\<close>

definition withWeight ::
  "(unit_identity \<Rightarrow> property_assignment list \<Rightarrow> unit_snapshot adapter_op) \<Rightarrow> (int \<times> unit_identity) list \<Rightarrow> flat_slice_plan \<Rightarrow> unit manager_op" where
  "withWeight oper us sl =
     (case weightAssignment sl of
        Inl e \<Rightarrow> failR (AdapterFailure [e])
      | Inr a \<Rightarrow> bindR (unitsR (UserFailure (fs_uid sl)) (oper (identityOf us (fs_uid sl)) [a])) (\<lambda>_. retR ()))"

definition programPlan ::
  "reconcile_env \<Rightarrow> policy_snapshot \<Rightarrow> topology_snapshot \<Rightarrow> capacity_state \<Rightarrow> flat_plan \<Rightarrow> property_assignment list \<Rightarrow>
   (systemd_manager, string \<times> reconcile_failure, unit) op" where
  "programPlan env policy topology capacity plan parentAssignments =
     (let bd = en_bd env; us = unitsOf topology; parent = us_Identity (ts_Parent topology); failed = (\<lambda>e. AdapterFailure [e]) in
      bindR (stepR ''pre_mutation_identity'' (unitsR failed (ConfirmTopology bd topology))) (\<lambda>_.
      bindR (writeR (\<lambda>s. s\<lparr> systemdCPUComplete := False \<rparr>)) (\<lambda>_.
      bindR (stepR ''parent_quota'' (unitsR failed (Apply bd parent parentAssignments))) (\<lambda>_.
      bindR (stepR ''leaf_weight'' (forR (withWeight (Apply bd) us) (fp_slices plan))) (\<lambda>_.
      bindR (stepR ''pre_acknowledgement_parent'' (unitsR failed (ConfirmApplied bd parent parentAssignments))) (\<lambda>_.
      bindR (stepR ''pre_acknowledgement_leaf'' (forR (withWeight (ConfirmApplied bd) us) (fp_slices plan))) (\<lambda>_.
      bindR (stepR ''pre_acknowledgement_capacity'' (refreshR env (sn_pool policy))) (\<lambda>confirmed.
      bindR (checkR (cs_Available confirmed \<and> cs_LastVerified confirmed = cs_LastVerified capacity) (''pre_acknowledgement_capacity'', CapacityMoved)) (\<lambda>_.
      bindR (stepR ''pre_acknowledgement_identity'' (unitsR failed (ConfirmTopology bd topology))) (\<lambda>_.
      writeR (\<lambda>s. publishSystemdCPUPointsPlan (en_now env (trace (units s))) parent us plan s)))))))))))"

definition reconcileSystemdCPUPointsAttempt ::
  "reconcile_env \<Rightarrow> policy_snapshot \<Rightarrow> (systemd_manager, string \<times> reconcile_failure, unit) op" where
  "reconcileSystemdCPUPointsAttempt env policy =
     bindR (readR systemdUnitsInstalled) (\<lambda>installed.
     bindR (checkR installed (''adapter'', AdapterUnavailable)) (\<lambda>_.
     bindR (stepR ''owned_leases'' (ownedR env)) (\<lambda>_.
     bindR (stepR ''discover'' (unitsR (\<lambda>e. AdapterFailure [e]) (Discover (en_bd env)))) (\<lambda>topology.
       if \<not> list_ex (\<lambda>p. au_UID p \<noteq> 0 \<and> au_Eligible p) (participantsOf env topology)
       then stepR ''restore'' (restoreSystemdCPUProperties env)
       else
         bindR (stepR ''capacity'' (refreshR env (sn_pool policy))) (\<lambda>capacity.
         bindR (liftR (case PlanFlatTopology policy (pq_onlineCPUs (cs_LastVerified capacity)) (participantsOf env topology) of
                  Inl e \<Rightarrow> Inl (''plan'', PlanFailure e) | Inr plan \<Rightarrow> Inr plan)) (\<lambda>plan.
         bindR (liftR (case NewCPUQuotaAssignmentsFromCgroupMax (pq_quota (fp_parentQuota plan)) (pq_period (fp_parentQuota plan)) of
                  Inl e \<Rightarrow> Inl (''parent_quota'', AdapterFailure [e]) | Inr as \<Rightarrow> Inr as)) (\<lambda>parentAssignments.
         programPlan env policy topology capacity plan parentAssignments)))))))"

text \<open>The error with its step, as it is returned and recorded.\<close>

definition deferSystemdCPUPointsError :: "string \<times> reconcile_failure \<Rightarrow> (systemd_manager, string \<times> reconcile_failure, unit) op" where
  "deferSystemdCPUPointsError e =
     bindR (writeR (\<lambda>s. s\<lparr> systemdCPUComplete := False, cpuPointsDegraded := True \<rparr>)) (\<lambda>_.
     failR (''systemd_'' @ fst e, snd e))"

text \<open>At most two attempts; the context is looked at after the first.\<close>

fun reconcileAttempts :: "nat \<Rightarrow> reconcile_env \<Rightarrow> policy_snapshot \<Rightarrow> (systemd_manager, string \<times> reconcile_failure, unit) op" where
  "reconcileAttempts n env policy =
     bindR (tryR (reconcileSystemdCPUPointsAttempt env policy)) (\<lambda>r. case r of
       Inr _ \<Rightarrow> retR ()
     | Inl (step, e) \<Rightarrow>
         bindR (if IsRetryableReconciliation e then writeR (\<lambda>s. s\<lparr> systemdCPUComplete := False \<rparr>) else retR ()) (\<lambda>_.
         bindR (readR (\<lambda>s. en_done env (trace (units s)))) (\<lambda>done.
           if done \<or> \<not> IsRetryableReconciliation e then deferSystemdCPUPointsError (step, e)
           else (case n of 0 \<Rightarrow> deferSystemdCPUPointsError (step, e) | Suc k \<Rightarrow> reconcileAttempts k env policy))))"

declare reconcileAttempts.simps [simp del]

definition reconcileSystemdCPUPoints :: "reconcile_env \<Rightarrow> policy_snapshot \<Rightarrow> (systemd_manager, string \<times> reconcile_failure, unit) op" where
  "reconcileSystemdCPUPoints env policy = reconcileAttempts 1 env policy"

definition activateSystemdCPUPoints :: "reconcile_env \<Rightarrow> system_metrics \<Rightarrow> (systemd_manager, string \<times> reconcile_failure, unit) op" where
  "activateSystemdCPUPoints env metrics =
     bindR (readR systemdCPURequested) (\<lambda>wasRequested.
     bindR (writeR (\<lambda>s. s\<lparr> systemdCPURequested := (CPUEligibleUsers metrics \<noteq> []) \<rparr>)) (\<lambda>_.
       if CPUEligibleUsers metrics = [] then (if wasRequested then stepR [] (restoreSystemdCPUProperties env) else retR ())
       else bindR (readR cpuPointsPolicy) (reconcileSystemdCPUPoints env)))"

section \<open>A new policy\<close>

definition clearCPUPointsRetryLocked :: "systemd_manager \<Rightarrow> systemd_manager" where
  "clearCPUPointsRetryLocked s = s\<lparr> pendingCPUPointsPolicy := None, cpuPointsDegraded := False \<rparr>"

definition PublishCPUPointsPolicy :: "policy_snapshot \<Rightarrow> systemd_manager \<Rightarrow> systemd_manager" where
  "PublishCPUPointsPolicy candidate s =
     s\<lparr> cpuPointsPolicy := candidate, pendingCPUPointsPolicy := None, cpuPointsDegraded := False \<rparr>"

definition reconcileCPUPointsPolicyLocked ::
  "reconcile_env \<Rightarrow> policy_snapshot \<Rightarrow> policy_snapshot \<Rightarrow> (systemd_manager, string \<times> reconcile_failure, unit) op" where
  "reconcileCPUPointsPolicyLocked env candidate fallback =
     bindR (readR systemdCPURequested) (\<lambda>requested.
       if \<not> requested then writeR clearCPUPointsRetryLocked
       else
         bindR (tryR (reconcileSystemdCPUPoints env candidate)) (\<lambda>r. case r of
           Inl e \<Rightarrow> bindR (writeR (\<lambda>s. s\<lparr> pendingCPUPointsPolicy := Some fallback, cpuPointsDegraded := True \<rparr>)) (\<lambda>_. failR e)
         | Inr _ \<Rightarrow> writeR clearCPUPointsRetryLocked))"

end
