(* ===== verification/Cpu_Acknowledgement.thy ===== *)
theory Cpu_Acknowledgement
  imports Cpu_Reconcile
begin

text \<open>
  What a reconciliation of the CPU Points promises: a plan is acknowledged only when every value of it
  was read back from systemd after the last change, a failure never leaves an acknowledgement behind,
  and everything it does to the adapter keeps what the adapter's operations keep.
\<close>

section \<open>Manager operations\<close>

lemma stepR_triple: "triple P oper Q (\<lambda>e. E (step, e)) \<Longrightarrow> triple P (stepR step oper) Q E"
  unfolding triple_def stepR_def by (fastforce split: prod.splits sum.splits)

lemma unitsR_triple:
  assumes "triple P oper Q E'" "\<And>e m. E' e m \<Longrightarrow> E (fail e) m"
  shows "triple (\<lambda>s. P (units s)) (unitsR fail oper) (\<lambda>x s. Q x (units s)) (\<lambda>e s. E e (units s))"
  using assms unfolding triple_def unitsR_def by (fastforce split: prod.splits sum.splits)

text \<open>A predicate on the manager that survives calls that only look.\<close>

definition looksKeepM :: "(systemd_manager \<Rightarrow> bool) \<Rightarrow> bool" where
  "looksKeepM P \<longleftrightarrow> (\<forall>s cs. P s \<longrightarrow> list_all looks cs \<longrightarrow> P (s\<lparr> units := (units s)\<lparr> trace := cs @ trace (units s) \<rparr> \<rparr>))"

lemma lookM:
  assumes "emits looks oper" "looksKeepM P"
  shows "keeps P (unitsR fail oper)"
  unfolding triple_def
proof (intro allI impI)
  fix s assume "P s"
  obtain cs where "list_all looks cs" "snd (oper (units s)) = (units s)\<lparr> trace := cs @ trace (units s) \<rparr>"
    using assms(1) by (auto simp: emits_def)
  then have "P (s\<lparr> units := snd (oper (units s)) \<rparr>)" using assms(2) \<open>P s\<close> by (simp add: looksKeepM_def)
  then show "case unitsR fail oper s of (Inr x, s') \<Rightarrow> P s' | (Inl e, s') \<Rightarrow> P s'"
    by (cases "oper (units s)"; cases "fst (oper (units s))") (auto simp: unitsR_def)
qed

lemma triple_constant: "triple (\<lambda>_. b) oper (\<lambda>_ _. b) (\<lambda>_ _. True)"
  by (auto simp: triple_def split: prod.splits sum.splits)

text \<open>A loop whose steps each establish their own part and keep the parts of the others.\<close>

lemma triple_for_all:
  assumes each: "\<And>x. triple (\<lambda>_. True) (f x) (\<lambda>_. R x) (\<lambda>_ _. True)"
    and others: "\<And>x y. triple (R x) (f y) (\<lambda>_. R x) (\<lambda>_ _. True)"
  shows "triple (\<lambda>_. True) (forR f xs) (\<lambda>_ s. \<forall>x \<in> set xs. R x s) (\<lambda>_ _. True)"
proof (induction xs)
  case (Cons x xs)
  have "triple (\<lambda>s. R x s \<and> True) (forR f xs) (\<lambda>_ s. R x s \<and> (\<forall>y \<in> set xs. R y s)) (\<lambda>_ s. True \<and> True)"
    by (rule triple_conj [OF triple_for Cons.IH]) (rule others)
  then have "triple (R x) (forR f xs) (\<lambda>_ s. \<forall>y \<in> set (x # xs). R y s) (\<lambda>_ _. True)" by simp
  then show ?case unfolding forR.simps by (rule triple_bind [OF each])
qed (simp add: triple_ret)

section \<open>Reading back\<close>

text \<open>The property of the unit was read with this value and nothing was changed since.\<close>

definition readBack :: "call list \<Rightarrow> string \<Rightarrow> property_name \<Rightarrow> u64 \<Rightarrow> bool" where
  "readBack t unit p v \<longleftrightarrow>
     (\<exists>sp. CallSliceProperties unit (Some sp) \<in> set (takeWhile looks t) \<and> map_of sp p = Some (DUint64 v))"

lemma readBack_looks: "list_all looks cs \<Longrightarrow> readBack t unit p v \<Longrightarrow> readBack (cs @ t) unit p v"
  by (auto simp: readBack_def list_all_iff takeWhile_append2)

lemma readProperty_scalar:
  "readProperty sp p = Some v \<Longrightarrow> \<not> isDeviceProperty p \<Longrightarrow> map_of sp p = Some (DUint64 (pv_scalar v))"
  by (auto simp: readProperty_def scalarPropertyValue_def split: option.splits dbus.splits if_splits)

text \<open>The properties of the snapshot are in a reply since the last change.\<close>

definition seenSince :: "unit_snapshot \<Rightarrow> string \<Rightarrow> machine \<Rightarrow> bool" where
  "seenSince snapshot unit m \<longleftrightarrow>
     (\<exists>sp. CallSliceProperties unit (Some sp) \<in> set (takeWhile looks (trace m)) \<and>
        (\<forall>p v. PropertySet_propertyValue (us_Properties snapshot) p = Some v \<longrightarrow> readProperty sp p = Some v))"

lemma looksKeep_seenSince [kept]: "looksKeep (seenSince snapshot unit)"
  by (auto simp: looksKeep_def seenSince_def list_all_iff takeWhile_append2)

lemma readUnit_seenSince: "triple (\<lambda>_. True) (readUnit bd unit path) (\<lambda>snapshot m. seenSince snapshot unit m) (\<lambda>_ _. True)"
  by (rule triple_weaken [OF readUnit_justRead]) (auto simp: justRead_def seenSince_def quiet_looks)

definition confirmedBy :: "unit_snapshot \<Rightarrow> property_assignment \<Rightarrow> bool" where
  "confirmedBy snapshot a \<longleftrightarrow>
     (\<exists>v. PropertySet_propertyValue (us_Properties snapshot) (pa_name a) = Some v \<and> propertyValuesEqual (pa_name a) v (pa_value a))"

lemma confirmAssignment_value: "triple P (confirmAssignment i snapshot a) (\<lambda>_ _. confirmedBy snapshot a) (\<lambda>_ _. True)"
  unfolding confirmAssignment_def
  by (rule tripleI) (auto simp: bindR_Inr op_defs propertyValuesEqual_def confirmedBy_def split: option.splits if_splits)

lemma confirmed_readBack:
  assumes "seenSince snapshot unit m" "confirmedBy snapshot a" "\<not> isDeviceProperty (pa_name a)"
  shows "readBack (trace m) unit (pa_name a) (pv_scalar (pa_value a))"
proof -
  obtain v where v: "PropertySet_propertyValue (us_Properties snapshot) (pa_name a) = Some v" "pv_scalar v = pv_scalar (pa_value a)"
    using assms(2,3) by (auto simp: confirmedBy_def propertyValuesEqual_def)
  obtain sp where "CallSliceProperties unit (Some sp) \<in> set (takeWhile looks (trace m))" "readProperty sp (pa_name a) = Some v"
    using assms(1) v(1) by (auto simp: seenSince_def)
  then show ?thesis using readProperty_scalar assms(3) v(2) unfolding readBack_def by metis
qed

lemma validated_assignment:
  "validateAssignments as = Inr vs \<Longrightarrow> a \<in> set as \<Longrightarrow> clonePropertyAssignment a \<in> set vs"
  by (auto simp: validateAssignments_def Let_def split: if_splits option.splits)

lemma ConfirmApplied_readBack:
  "triple (\<lambda>_. True) (ConfirmApplied bd i as)
     (\<lambda>_ m. \<forall>a \<in> set as. \<not> isDeviceProperty (pa_name a) \<longrightarrow> readBack (trace m) (ui_Name i) (pa_name a) (pv_scalar (pa_value a)))
     (\<lambda>_ _. True)"
proof -
  let ?V = "\<lambda>vs. validateAssignments as = Inr vs"
  let ?S = "\<lambda>vs snapshot m. seenSince snapshot (ui_Name i) m \<and> ?V vs"
  let ?C = "\<lambda>vs snapshot m. ?S vs snapshot m \<and> (\<forall>a \<in> set vs. confirmedBy snapshot a)"
  have validated: "triple (\<lambda>_. True) (liftR (validateAssignments as)) (\<lambda>vs _. ?V vs) (\<lambda>_ _. True)" by (rule triple_lift) auto
  have snapped: "triple (\<lambda>_. ?V vs) (readUnit bd u path) (\<lambda>snapshot m. seenSince snapshot u m \<and> ?V vs) (\<lambda>_ _. True)" for vs u path
    by (rule triple_pre [OF triple_conj_const [OF readUnit_seenSince]]) simp
  have looked: "triple (?S vs snapshot) oper (\<lambda>_. ?S vs snapshot) (\<lambda>_ _. True)" if "emits looks oper" for vs snapshot and oper :: "'x adapter_op"
    by (rule triple_weaken [OF look [OF that, of "?S vs snapshot"]]) (intro kept | simp)+
  have confirms: "triple (?S vs snapshot) (forR (confirmAssignment i snapshot) vs) (\<lambda>_. ?C vs snapshot) (\<lambda>_ _. True)" for vs snapshot
  proof -
    have "triple (\<lambda>_. True) (forR (confirmAssignment i snapshot) vs) (\<lambda>_ _. \<forall>a \<in> set vs. confirmedBy snapshot a) (\<lambda>_ _. True)"
      by (rule triple_for_all [where R = "\<lambda>a _. confirmedBy snapshot a", OF confirmAssignment_value])
        (rule triple_constant)
    from triple_conj [OF looked this] show ?thesis
      by (rule triple_weaken) (auto simp: confirmAssignment_def intro!: emits_rules emits_looks)
  qed
  have kernel: "triple (?C vs snapshot) (verifyKernel bd snapshot vs) (\<lambda>_. ?C vs snapshot) (\<lambda>_ _. True)" for vs snapshot
    by (rule triple_weaken [OF look [OF _, of "verifyKernel bd snapshot vs" "?C vs snapshot"]]) (intro kept emits_looks | simp)+
  have final: "triple (?C vs snapshot) (bindR (checkR b e) (\<lambda>_. retR snapshot))
     (\<lambda>_ m. \<forall>a \<in> set as. \<not> isDeviceProperty (pa_name a) \<longrightarrow> readBack (trace m) (ui_Name i) (pa_name a) (pv_scalar (pa_value a))) (\<lambda>_ _. True)"
    for vs snapshot b and e :: adapter_error
  proof (rule triple_bind [where R = "\<lambda>_. ?C vs snapshot"])
    show "triple (?C vs snapshot) (retR snapshot)
     (\<lambda>_ m. \<forall>a \<in> set as. \<not> isDeviceProperty (pa_name a) \<longrightarrow> readBack (trace m) (ui_Name i) (pa_name a) (pv_scalar (pa_value a))) (\<lambda>_ _. True)"
      by (rule triple_ret) (use confirmed_readBack validated_assignment in \<open>fastforce simp: clonePropertyAssignment_def clonePropertyValue_def scalarPropertyValue_def\<close>)
  qed (rule triple_check, auto)
  show ?thesis
    unfolding ConfirmApplied_def
    by (intro triple_bind [OF triple_constant [of True]] triple_bind [OF validated] triple_bind [OF snapped] triple_bind [OF looked]
        triple_bind [OF confirms] triple_bind [OF kernel] final emits_rules emits_looks)
qed

section \<open>What an acknowledgement means\<close>

definition plannedWeight :: "flat_slice_plan \<Rightarrow> u64" where
  "plannedWeight sl = of_int (KernelCPUWeight_Value (fs_weight sl))"

text \<open>
  The plan in force is the one computed for the policy, for the users found eligible among the slices
  on record and for the capacity verified last; and every weight and both quota properties of the
  parent were read back with the planned value after the last change.
\<close>

definition acknowledged :: "reconcile_env \<Rightarrow> policy_snapshot \<Rightarrow> systemd_manager \<Rightarrow> bool" where
  "acknowledged env policy s \<longleftrightarrow>
     systemdCPUComplete s \<and> \<not> cpuPointsDegraded s \<and> cs_Available (State (cpuCapacity s)) \<and>
     (\<exists>plan topology.
        systemdCPUPlan s = Some plan \<and> systemdCPUSlices s = unitsOf topology \<and> systemdCPUParent s = us_Identity (ts_Parent topology) \<and>
        PlanFlatTopology policy (pq_onlineCPUs (cs_LastVerified (State (cpuCapacity s)))) (participantsOf env topology) = Inr plan \<and>
        (\<forall>sl \<in> set (fp_slices plan).
           readBack (trace (units s)) (ui_Name (identityOf (systemdCPUSlices s) (fs_uid sl))) PropertyCPUWeight (plannedWeight sl)) \<and>
        readBack (trace (units s)) (ui_Name (systemdCPUParent s)) PropertyCPUQuotaPerSecUSec
          (pq_quota (fp_parentQuota plan) * (1000000 div pq_period (fp_parentQuota plan))) \<and>
        readBack (trace (units s)) (ui_Name (systemdCPUParent s)) PropertyCPUQuotaPeriodUSec (pq_period (fp_parentQuota plan)))"

lemma quota_assignments:
  "NewCPUQuotaAssignmentsFromCgroupMax quota period = Inr as \<Longrightarrow>
   as = [\<lparr> pa_name = PropertyCPUQuotaPerSecUSec, pa_value = scalarPropertyValue (quota * (1000000 div period)), pa_targets = [] \<rparr>,
         \<lparr> pa_name = PropertyCPUQuotaPeriodUSec, pa_value = scalarPropertyValue period, pa_targets = [] \<rparr>]"
  by (auto simp: NewCPUQuotaAssignmentsFromCgroupMax_def NewPropertyAssignment_def Let_def split: if_splits)

lemma scalar_properties:
  "\<not> isDeviceProperty PropertyCPUWeight" "\<not> isDeviceProperty PropertyCPUQuotaPerSecUSec" "\<not> isDeviceProperty PropertyCPUQuotaPeriodUSec"
  by code_simp+

lemma ConfirmAppliedM:
  "triple (\<lambda>_. True) (unitsR fail (ConfirmApplied bd i as))
     (\<lambda>_ s. \<forall>a \<in> set as. \<not> isDeviceProperty (pa_name a) \<longrightarrow> readBack (trace (units s)) (ui_Name i) (pa_name a) (pv_scalar (pa_value a)))
     (\<lambda>_ _. True)"
  by (rule unitsR_triple [OF ConfirmApplied_readBack, of "\<lambda>_ _. True"]) simp

lemma looksKeepM_readBack: "looksKeepM (\<lambda>s. readBack (trace (units s)) u p v)"
  by (simp add: looksKeepM_def readBack_looks)

lemma withWeight_readBack:
  "triple (\<lambda>_. True) (withWeight (ConfirmApplied bd) us sl)
     (\<lambda>_ s. readBack (trace (units s)) (ui_Name (identityOf us (fs_uid sl))) PropertyCPUWeight (plannedWeight sl)) (\<lambda>_ _. True)"
proof (cases "weightAssignment sl")
  case (Inr a)
  then have a: "pa_name a = PropertyCPUWeight" "pv_scalar (pa_value a) = plannedWeight sl"
    by (auto simp: weightAssignment_def NewPropertyAssignment_def plannedWeight_def scalarPropertyValue_def split: if_splits)
  show ?thesis
    unfolding withWeight_def Inr sum.case
    by (rule triple_bind [OF ConfirmAppliedM triple_ret]) (simp add: a scalar_properties)
qed (simp add: withWeight_def triple_fail)

lemma withWeight_looks: "looksKeepM P \<Longrightarrow> keeps P (withWeight (ConfirmApplied bd) us sl)"
  unfolding withWeight_def by (intro keeps_case_sum keeps_rules lookM emits_ConfirmApplied)

lemma emits_snapshotListed: "emits looks (snapshotListed bd names parent users cs)"
  by (induction bd names parent users cs rule: snapshotListed.induct)
    (auto intro!: emits_rules emits_looks split: option.splits sum.splits)

lemma emits_topology: "emits looks (Discover bd)" "emits looks (ConfirmTopology bd topology)"
  unfolding Discover_def ConfirmTopology_def discover_def snapshotTopology_def listUserSlices_def
  by (intro emits_rules emits_looks emits_snapshotListed | simp)+

lemma Refresh_state: "Refresh answer pts p = (p', state, err) \<Longrightarrow> state = State p'"
  by (auto simp: Refresh_def State_def Let_def split: if_splits)

text \<open>Everything after the last change: the confirmations, the second look at the capacity and the publication.\<close>

lemma recordCPUTransitions_fields [simp]:
  "units (recordCPUTransitions a d s) = units s" "cpuCapacity (recordCPUTransitions a d s) = cpuCapacity s"
  "systemdCPUPlan (recordCPUTransitions a d s) = systemdCPUPlan s" "systemdCPUSlices (recordCPUTransitions a d s) = systemdCPUSlices s"
  "systemdCPUParent (recordCPUTransitions a d s) = systemdCPUParent s" "systemdCPUComplete (recordCPUTransitions a d s) = systemdCPUComplete s"
  "cpuPointsDegraded (recordCPUTransitions a d s) = cpuPointsDegraded s" "activeUsers (recordCPUTransitions a d s) = activeUsers s"
  "limitsActive (recordCPUTransitions a d s) = limitsActive s" "resourceLimits (recordCPUTransitions a d s) = resourceLimits s"
  "systemdCPURequested (recordCPUTransitions a d s) = systemdCPURequested s" "userLimitedAt (recordCPUTransitions a d s) = userLimitedAt s"
  by (simp_all add: recordCPUTransitions_def Let_def)

lemma publishSlices_fields [simp]:
  "units (fold (publishSlice now prev) sls s) = units s" "cpuCapacity (fold (publishSlice now prev) sls s) = cpuCapacity s"
  by (induction sls arbitrary: s) (auto simp: publishSlice_def Let_def)

lemma publishPlan_fields [simp]:
  "units (publishSystemdCPUPointsPlan now parent us plan s) = units s"
  "cpuCapacity (publishSystemdCPUPointsPlan now parent us plan s) = cpuCapacity s"
  "systemdCPUPlan (publishSystemdCPUPointsPlan now parent us plan s) = Some plan"
  "systemdCPUSlices (publishSystemdCPUPointsPlan now parent us plan s) = us"
  "systemdCPUParent (publishSystemdCPUPointsPlan now parent us plan s) = parent"
  "systemdCPUComplete (publishSystemdCPUPointsPlan now parent us plan s)"
  "\<not> cpuPointsDegraded (publishSystemdCPUPointsPlan now parent us plan s)"
  by (simp_all add: publishSystemdCPUPointsPlan_def Let_def)

lemma refreshR_triple:
  assumes "\<And>s p. P s \<Longrightarrow> P (s\<lparr> cpuCapacity := p \<rparr>)"
  shows "triple P (refreshR env pts) (\<lambda>c s. P s \<and> State (cpuCapacity s) = c) (\<lambda>_. P)"
  unfolding refreshR_def triple_def using assms Refresh_state by (fastforce split: prod.splits option.splits)

lemma programPlan_acknowledged:
  assumes plan: "PlanFlatTopology policy (pq_onlineCPUs (cs_LastVerified capacity)) (participantsOf env topology) = Inr plan"
    and quota: "NewCPUQuotaAssignmentsFromCgroupMax (pq_quota (fp_parentQuota plan)) (pq_period (fp_parentQuota plan)) = Inr as"
  shows "triple (\<lambda>_. True) (programPlan env policy topology capacity plan as) (\<lambda>_. acknowledged env policy) (\<lambda>_ _. True)"
proof -
  let ?us = "unitsOf topology" and ?parent = "us_Identity (ts_Parent topology)" and ?bd = "en_bd env"
  let ?Q = "\<lambda>s. \<forall>a \<in> set as. \<not> isDeviceProperty (pa_name a) \<longrightarrow> readBack (trace (units s)) (ui_Name ?parent) (pa_name a) (pv_scalar (pa_value a))"
  let ?W = "\<lambda>sl s. readBack (trace (units s)) (ui_Name (identityOf ?us (fs_uid sl))) PropertyCPUWeight (plannedWeight sl)"
  let ?R = "\<lambda>s. ?Q s \<and> (\<forall>sl \<in> set (fp_slices plan). ?W sl s)"
  let ?C = "\<lambda>c s. ?R s \<and> State (cpuCapacity s) = c"
  let ?D = "\<lambda>s. ?C (State (cpuCapacity s)) s \<and> cs_Available (State (cpuCapacity s)) \<and> cs_LastVerified (State (cpuCapacity s)) = cs_LastVerified capacity"
  have Q: "looksKeepM ?Q" by (auto simp: looksKeepM_def readBack_looks)
  have leaves: "triple ?Q (stepR step (forR (withWeight (ConfirmApplied ?bd) ?us) (fp_slices plan))) (\<lambda>_. ?R) (\<lambda>_ _. True)" for step
  proof -
    have "triple (\<lambda>_. True) (forR (withWeight (ConfirmApplied ?bd) ?us) (fp_slices plan)) (\<lambda>_ s. \<forall>sl \<in> set (fp_slices plan). ?W sl s) (\<lambda>_ _. True)"
      by (rule triple_for_all [OF withWeight_readBack]) (rule triple_weaken [OF withWeight_looks [OF looksKeepM_readBack]], auto)
    note both = triple_conj [OF keeps_for [OF withWeight_looks [OF Q]] this]
    show ?thesis by (rule stepR_triple [OF triple_weaken [OF both]]) auto
  qed
  have parent: "triple (\<lambda>_. True) (stepR step (unitsR fail (ConfirmApplied ?bd ?parent as))) (\<lambda>_. ?Q) (\<lambda>_ _. True)" for step fail
    by (intro stepR_triple ConfirmAppliedM)
  have capacity: "triple ?R (stepR step (refreshR env pts)) ?C (\<lambda>_ _. True)" for step pts
    by (intro stepR_triple) (rule triple_weaken [OF refreshR_triple [of ?R]], auto)
  have checked: "triple (?C c) (checkR (cs_Available c \<and> cs_LastVerified c = cs_LastVerified capacity) e) (\<lambda>_. ?D) (\<lambda>_ _. True)" for c and e :: "string \<times> reconcile_failure"
    by (rule triple_check) auto
  have confirmed: "triple ?D (stepR step (unitsR fail (ConfirmTopology ?bd topology))) (\<lambda>_. ?D) (\<lambda>_ _. True)" for step fail
    by (intro stepR_triple) (rule triple_weaken [OF lookM [OF emits_topology(2), of ?D]], auto simp: looksKeepM_def readBack_looks)
  have published: "triple ?D (writeR (\<lambda>s. publishSystemdCPUPointsPlan (now s) ?parent ?us plan s)) (\<lambda>_. acknowledged env policy) (\<lambda>_ _. True)" for now
    by (rule triple_write) (auto simp: acknowledged_def plan quota_assignments [OF quota] scalar_properties scalarPropertyValue_def)
  show ?thesis
    unfolding programPlan_def Let_def
    by (intro triple_bind [OF triple_constant [of True]] triple_bind [OF parent] triple_bind [OF leaves] triple_bind [OF capacity]
        triple_bind [OF checked] triple_bind [OF confirmed] published)
qed

text \<open>Nothing is governed any more.\<close>

definition released :: "systemd_manager \<Rightarrow> bool" where
  "released s \<longleftrightarrow>
     \<not> systemdCPURequested s \<and> \<not> systemdCPUComplete s \<and> \<not> cpuPointsDegraded s \<and> \<not> limitsActive s \<and>
     systemdCPUSlices s = [] \<and> activeUsers s = [] \<and> userLimitedAt s = []"

definition unacknowledged :: "systemd_manager \<Rightarrow> bool" where
  "unacknowledged s \<longleftrightarrow> \<not> systemdCPUComplete s \<and> cpuPointsDegraded s"

lemma restoreSystemdCPUProperties_released:
  "triple (\<lambda>_. True) (restoreSystemdCPUProperties env) (\<lambda>_. released) (\<lambda>_ _. True)"
proof -
  have "triple (\<lambda>_. True) (writeR releaseCPU) (\<lambda>_. released) (\<lambda>_ _. True)"
    by (rule triple_write) (simp add: releaseCPU_def released_def)
  then show ?thesis
    unfolding restoreSystemdCPUProperties_def Let_def
    by (intro triple_bind [OF triple_constant [of True]] triple_case_prod)
qed

lemma reconcileAttempt_acknowledged:
  "triple (\<lambda>_. True) (reconcileSystemdCPUPointsAttempt env policy) (\<lambda>_ s. acknowledged env policy s \<or> released s) (\<lambda>_ _. True)"
proof -
  have restored: "triple (\<lambda>_. True) (stepR step (restoreSystemdCPUProperties env)) (\<lambda>_ s. acknowledged env policy s \<or> released s) (\<lambda>_ _. True)" for step
    by (intro stepR_triple) (rule triple_weaken [OF restoreSystemdCPUProperties_released], auto)
  have planned: "triple (\<lambda>_. True) (liftR (case r of Inl e \<Rightarrow> Inl (f e) | Inr x \<Rightarrow> Inr x)) (\<lambda>x _. r = Inr x) (\<lambda>_ _. True)"
    for r :: "('e, 'x) res" and f :: "'e \<Rightarrow> string \<times> reconcile_failure"
    by (rule triple_lift) (auto split: sum.splits)
  have quota: "triple (\<lambda>_. q) (liftR (case r of Inl e \<Rightarrow> Inl (f e) | Inr x \<Rightarrow> Inr x)) (\<lambda>x _. q \<and> r = Inr x) (\<lambda>_ _. True)"
    for r :: "('e, 'x) res" and f :: "'e \<Rightarrow> string \<times> reconcile_failure" and q
    by (rule triple_lift) (auto split: sum.splits)
  have program: "triple (\<lambda>_. PlanFlatTopology policy (pq_onlineCPUs (cs_LastVerified capacity)) (participantsOf env topology) = Inr plan \<and>
      NewCPUQuotaAssignmentsFromCgroupMax (pq_quota (fp_parentQuota plan)) (pq_period (fp_parentQuota plan)) = Inr as)
    (programPlan env policy topology capacity plan as) (\<lambda>_ s. acknowledged env policy s \<or> released s) (\<lambda>_ _. True)" for topology capacity plan as
    using triple_weaken [OF programPlan_acknowledged [of policy capacity env topology plan as]] by (auto simp: triple_def)
  show ?thesis
    unfolding reconcileSystemdCPUPointsAttempt_def
    by (intro triple_bind [OF triple_constant [of True]] triple_if restored triple_bind [OF planned] triple_bind [OF quota] program)
qed

lemma reconcileAttempts_acknowledged:
  "triple (\<lambda>_. True) (reconcileAttempts n env policy) (\<lambda>_ s. acknowledged env policy s \<or> released s) (\<lambda>_. unacknowledged)"
proof (induction n)
  have deferred: "triple (\<lambda>_. True) (deferSystemdCPUPointsError e) Q (\<lambda>_. unacknowledged)" for e and Q :: "unit \<Rightarrow> systemd_manager \<Rightarrow> bool"
    unfolding deferSystemdCPUPointsError_def by (rule triple_bind [OF triple_write triple_fail]) (auto simp: unacknowledged_def)
  let ?A = "\<lambda>r s. case r of Inr _ \<Rightarrow> acknowledged env policy s \<or> released s | Inl _ \<Rightarrow> True"
  have tried: "triple (\<lambda>_. True) (tryR (reconcileSystemdCPUPointsAttempt env policy)) ?A (\<lambda>_. unacknowledged)"
    by (rule triple_try) (use reconcileAttempt_acknowledged in simp)
  have settle: "triple (?A r) (case r of
       Inr _ \<Rightarrow> retR ()
     | Inl (step, e) \<Rightarrow>
         bindR (if IsRetryableReconciliation e then writeR (\<lambda>s. s\<lparr> systemdCPUComplete := False \<rparr>) else retR ()) (\<lambda>_.
         bindR (readR (\<lambda>s. en_done env (trace (units s)))) (\<lambda>done.
           if done \<or> \<not> IsRetryableReconciliation e then deferSystemdCPUPointsError (step, e) else again step e)))
     (\<lambda>_ s. acknowledged env policy s \<or> released s) (\<lambda>_. unacknowledged)"
    if "\<And>step e. triple (\<lambda>_. True) (again step e) (\<lambda>_ s. acknowledged env policy s \<or> released s) (\<lambda>_. unacknowledged)" for r again
  proof (cases r)
    case (Inl e)
    have marked: "triple (\<lambda>_. True) (if b then writeR g else retR ()) (\<lambda>_ _. True) (\<lambda>_. unacknowledged)" for b and g :: "systemd_manager \<Rightarrow> systemd_manager"
      by (auto intro: triple_write triple_ret)
    have asked: "triple (\<lambda>_. True) (readR f) (\<lambda>_ _. True) (\<lambda>_. unacknowledged)" for f :: "systemd_manager \<Rightarrow> bool"
      by (auto intro: triple_read)
    show ?thesis
      by (cases e) (simp add: Inl triple_bind [OF marked triple_bind [OF asked triple_if [OF deferred that]]])
  qed (auto intro: triple_ret)
  {
    case 0
    show ?case unfolding reconcileAttempts.simps [of 0] nat.case by (rule triple_bind [OF tried settle]) (rule deferred)
  next
    case (Suc n)
    show ?case unfolding reconcileAttempts.simps [of "Suc n"] nat.case by (rule triple_bind [OF tried settle]) (rule Suc.IH)
  }
qed

text \<open>
  Property C3: reconciling the CPU Points ends in one of three ways, whatever systemd, the kernel and
  the disk answer and however the two attempts go: the plan computed for the policy is acknowledged,
  with every weight and the quota of the parent read back from systemd after the last change and the
  capacity verified again; or nobody is eligible and everything is released; or an error is returned
  with the manager marked degraded and no acknowledgement left, not even that of the plan before.
\<close>

theorem reconcile_acknowledges:
  "case reconcileSystemdCPUPoints env policy s of
     (Inr _, s') \<Rightarrow> acknowledged env policy s' \<or> released s'
   | (Inl e, s') \<Rightarrow> \<not> systemdCPUComplete s' \<and> cpuPointsDegraded s'"
  using reconcileAttempts_acknowledged [of 1 env policy] unfolding triple_def reconcileSystemdCPUPoints_def unacknowledged_def by simp

section \<open>What every operation of the manager keeps\<close>

text \<open>
  The manager changes its state by the operations of \<^verbatim>\<open>SystemdCPUUnitAdapter\<close> and by a handful of updates of
  its own. A predicate that they keep is kept by everything composed of them.
\<close>

locale manager_state =
  fixes bd :: boundary and K :: "systemd_manager \<Rightarrow> bool"
  assumes apply_law: "K s \<Longrightarrow> K (s\<lparr> units := snd (Apply bd i as (units s)) \<rparr>)"
    and confirm_law: "K s \<Longrightarrow> K (s\<lparr> units := snd (ConfirmApplied bd i as (units s)) \<rparr>)"
    and discover_law: "K s \<Longrightarrow> K (s\<lparr> units := snd (Discover bd (units s)) \<rparr>)"
    and topology_law: "K s \<Longrightarrow> K (s\<lparr> units := snd (ConfirmTopology bd topology (units s)) \<rparr>)"
    and owned_law: "K s \<Longrightarrow> K (s\<lparr> units := snd (ReconcileOwned bd (units s)) \<rparr>)"
    and restore_law: "K s \<Longrightarrow> K (s\<lparr> units := snd (RestoreProperties bd i ps (units s)) \<rparr>)"
    and batch_law: "K s \<Longrightarrow> K (s\<lparr> units := snd (RestoreUnits bd is (units s)) \<rparr>)"
    and capacity_law: "K s \<Longrightarrow> K (s\<lparr> cpuCapacity := p \<rparr>)"
    and request_law: "K s \<Longrightarrow> K (s\<lparr> systemdCPURequested := b \<rparr>)"
    and complete_law: "K s \<Longrightarrow> K (s\<lparr> systemdCPUComplete := b \<rparr>)"
    and degraded_law: "K s \<Longrightarrow> K (s\<lparr> cpuPointsDegraded := b \<rparr>)"
    and pending_law: "K s \<Longrightarrow> K (s\<lparr> pendingCPUPointsPolicy := q \<rparr>)"
    and publish_law: "K s \<Longrightarrow> K (publishSystemdCPUPointsPlan now parent us plan s)"
    and release_law: "K s \<Longrightarrow> K (releaseCPU s)"
    and release_all_law: "K s \<Longrightarrow> K (releaseAll s)"
begin

lemma unitsR_keeps: "(\<And>s. K s \<Longrightarrow> K (s\<lparr> units := snd (oper (units s)) \<rparr>)) \<Longrightarrow> keeps K (unitsR fail oper)"
  unfolding triple_def unitsR_def by (auto split: prod.splits sum.splits) (metis snd_conv)+

lemma writeR_keeps: "(\<And>s. K s \<Longrightarrow> K (g s)) \<Longrightarrow> keeps K (writeR g)"
  by (rule triple_write)

lemma stepR_keeps: "keeps K oper \<Longrightarrow> keeps K (stepR step oper)"
  by (rule stepR_triple)

lemma refreshR_keeps: "keeps K (refreshR env pts)"
  by (rule triple_weaken [OF refreshR_triple [of K]]) (auto intro: capacity_law)

lemma unacknowledge_law: "K s \<Longrightarrow> K (s\<lparr> systemdCPUComplete := b, cpuPointsDegraded := d \<rparr>)"
  using degraded_law [OF complete_law] .

lemma retry_law: "K s \<Longrightarrow> K (s\<lparr> pendingCPUPointsPolicy := q, cpuPointsDegraded := d \<rparr>)"
  using degraded_law [OF pending_law] .

lemmas updates = capacity_law request_law complete_law degraded_law pending_law publish_law release_law release_all_law
  unacknowledge_law retry_law

lemmas client_rules = keeps_rules stepR_keeps refreshR_keeps
  unitsR_keeps [OF apply_law] unitsR_keeps [OF confirm_law] unitsR_keeps [OF discover_law] unitsR_keeps [OF topology_law]
  unitsR_keeps [OF owned_law] unitsR_keeps [OF restore_law] unitsR_keeps [OF batch_law] triple_case_prod
  writeR_keeps [OF complete_law] writeR_keeps [OF request_law] writeR_keeps [OF publish_law] writeR_keeps [OF release_law]
  writeR_keeps [OF release_all_law] writeR_keeps [OF unacknowledge_law] writeR_keeps [OF retry_law]

lemma restoreSlices_keeps:
  assumes "en_bd env = bd"
  shows "keeps K (restoreSlices env owned slices resources uids)"
proof (induction uids)
  case (Cons uid uids)
  show ?case unfolding restoreSlices.simps Let_def assms by (intro client_rules Cons.IH)
qed (simp add: keeps_simple)

lemma restoreCPU_keeps:
  assumes "en_bd env = bd"
  shows "keeps K (restoreSystemdCPUProperties env)"
  unfolding restoreSystemdCPUProperties_def ownedR_def restoreUnitBatch_def Let_def assms
  by (intro client_rules restoreSlices_keeps assms)

lemma restoreAll_keeps:
  assumes "en_bd env = bd"
  shows "keeps K (restoreSystemdCPUPoints env)"
  unfolding restoreSystemdCPUPoints_def ownedR_def restoreUnitBatch_def Let_def assms
  by (intro client_rules)

lemma programPlan_keeps:
  assumes "en_bd env = bd"
  shows "keeps K (programPlan env policy topology capacity plan as)"
  unfolding programPlan_def withWeight_def Let_def assms by (intro client_rules)

lemma attempt_keeps:
  assumes "en_bd env = bd"
  shows "keeps K (reconcileSystemdCPUPointsAttempt env policy)"
  unfolding reconcileSystemdCPUPointsAttempt_def ownedR_def assms
  by (intro client_rules restoreCPU_keeps programPlan_keeps assms)

lemma attempts_keeps: "en_bd env = bd \<Longrightarrow> keeps K (reconcileAttempts n env policy)"
proof (induction n)
  have deferred: "keeps K (deferSystemdCPUPointsError e)" for e
    unfolding deferSystemdCPUPointsError_def by (intro client_rules)
  have step: "keeps K (case r of Inl (step, e) \<Rightarrow> f step e | Inr x \<Rightarrow> g x)"
    if "\<And>step e. keeps K (f step e)" "\<And>x. keeps K (g x)" for r :: "(string \<times> reconcile_failure) + unit"
     and f :: "string \<Rightarrow> reconcile_failure \<Rightarrow> (systemd_manager, string \<times> reconcile_failure, unit) op" and g
    using that by (auto split: sum.splits)
  {
    case 0
    then show ?case unfolding reconcileAttempts.simps [of 0] nat.case by (intro client_rules attempt_keeps step deferred)
  next
    case (Suc n)
    then show ?case unfolding reconcileAttempts.simps [of "Suc n"] nat.case by (intro client_rules attempt_keeps step deferred Suc.IH)
  }
qed

lemma activate_keeps: "en_bd env = bd \<Longrightarrow> keeps K (activateSystemdCPUPoints env metrics)"
  unfolding activateSystemdCPUPoints_def reconcileSystemdCPUPoints_def by (intro client_rules restoreCPU_keeps attempts_keeps)

lemma policy_keeps: "en_bd env = bd \<Longrightarrow> keeps K (reconcileCPUPointsPolicyLocked env candidate fallback)"
  unfolding reconcileCPUPointsPolicyLocked_def reconcileSystemdCPUPoints_def clearCPUPointsRetryLocked_def
  by (intro client_rules attempts_keeps)

end

text \<open>A predicate on the adapter alone is such a predicate when the adapter's operations keep it.\<close>

locale unit_adapter =
  fixes bd :: boundary and I :: "machine \<Rightarrow> bool"
  assumes apply_unit: "keeps I (Apply bd i as)"
    and confirm_unit: "keeps I (ConfirmApplied bd i as)"
    and discover_unit: "keeps I (Discover bd)"
    and topology_unit: "keeps I (ConfirmTopology bd topology)"
    and owned_unit: "keeps I (ReconcileOwned bd)"
    and restore_unit: "keeps I (RestoreProperties bd i ps)"
    and batch_unit: "keeps I (RestoreUnits bd is)"

lemma releases_units [simp]: "units (releaseCPU s) = units s" "units (releaseAll s) = units s"
  by (simp_all add: releaseCPU_def releaseAll_def)

sublocale unit_adapter \<subseteq> manager_state bd "\<lambda>s. I (units s)"
  by unfold_locales
    (simp_all add: keeps_run [OF apply_unit] keeps_run [OF confirm_unit] keeps_run [OF discover_unit] keeps_run [OF topology_unit]
      keeps_run [OF owned_unit] keeps_run [OF restore_unit] keeps_run [OF batch_unit])

interpretation written_ahead: unit_adapter bd adapter_inv for bd
  by unfold_locales (intro Apply_keeps ConfirmApplied_keeps ReconcileOwned_keeps RestoreProperties_keeps RestoreUnits_keeps
      look [OF emits_topology(1) looksKeep_inv] look [OF emits_topology(2) looksKeep_inv])+

section \<open>Releasing everything\<close>

text \<open>The batch as the code orders it: leaves by name, then the parent.\<close>

definition leavesThenParent :: "unit_identity list \<Rightarrow> bool" where
  "leavesThenParent us \<longleftrightarrow>
     (\<exists>leaves parents. us = leaves @ parents \<and> sorted (map ui_Name leaves) \<and>
        list_all (\<lambda>i. ui_Name i \<noteq> parentUserSlice) leaves \<and> list_all (\<lambda>i. ui_Name i = parentUserSlice) parents)"

lemma insertStable_mset: "mset (insertStable x ys) = add_mset x (mset ys)"
  by (induction ys) auto

lemma insertStable_parent:
  "ui_Name x = parentUserSlice \<Longrightarrow> list_all (\<lambda>i. ui_Name i \<noteq> parentUserSlice) leaves \<Longrightarrow>
   list_all (\<lambda>i. ui_Name i = parentUserSlice) parents \<Longrightarrow> insertStable x (leaves @ parents) = leaves @ x # parents"
  by (induction leaves) (cases parents; auto simp: leafBefore_def)+

lemma insertStable_leaf:
  "ui_Name x \<noteq> parentUserSlice \<Longrightarrow> list_all (\<lambda>i. ui_Name i \<noteq> parentUserSlice) leaves \<Longrightarrow>
   list_all (\<lambda>i. ui_Name i = parentUserSlice) parents \<Longrightarrow>
   insertStable x (leaves @ parents) = insertStable x leaves @ parents"
  by (induction leaves) (cases parents; auto simp: leafBefore_def)+

lemma insertStable_sorted:
  assumes "ui_Name x \<noteq> parentUserSlice" "list_all (\<lambda>i. ui_Name i \<noteq> parentUserSlice) leaves" "sorted (map ui_Name leaves)"
  shows "sorted (map ui_Name (insertStable x leaves)) \<and> list_all (\<lambda>i. ui_Name i \<noteq> parentUserSlice) (insertStable x leaves)"
proof -
  have elements: "set (insertStable x ys) = insert x (set ys)" for ys
    using arg_cong [OF insertStable_mset [of x ys], of set_mset] by simp
  show ?thesis using assms
    by (induction leaves) (auto simp: elements leafBefore_def list_all_iff not_less split: if_splits)
qed

lemma insertStable_ordered: "leavesThenParent us \<Longrightarrow> leavesThenParent (insertStable x us)"
proof -
  assume "leavesThenParent us"
  then obtain leaves parents where us: "us = leaves @ parents" "sorted (map ui_Name leaves)"
     "list_all (\<lambda>i. ui_Name i \<noteq> parentUserSlice) leaves" "list_all (\<lambda>i. ui_Name i = parentUserSlice) parents"
    unfolding leavesThenParent_def by blast
  show ?thesis
  proof (cases "ui_Name x = parentUserSlice")
    case True
    then have "insertStable x us = leaves @ (x # parents)" using insertStable_parent us by simp
    then show ?thesis using us True unfolding leavesThenParent_def
      by (intro exI [of _ leaves] exI [of _ "x # parents"]) simp
  next
    case False
    then have "insertStable x us = insertStable x leaves @ parents" using insertStable_leaf us by simp
    then show ?thesis using us insertStable_sorted [OF False us(3,2)] unfolding leavesThenParent_def by blast
  qed
qed

lemma leavesFirst_ordered: "leavesThenParent (leavesFirst us)"
  unfolding leavesFirst_def by (induction us) (auto simp: insertStable_ordered, simp add: leavesThenParent_def)

lemma leavesFirst_mset: "mset (leavesFirst us) = mset us"
  unfolding leavesFirst_def by (induction us) (simp_all add: insertStable_mset)

text \<open>What the manager remembers of the limits in force.\<close>

definition sameLimitRecords :: "systemd_manager \<Rightarrow> systemd_manager \<Rightarrow> bool" where
  "sameLimitRecords s s' \<longleftrightarrow>
     activeUsers s' = activeUsers s \<and> limitsActive s' = limitsActive s \<and> userLimitedAt s' = userLimitedAt s \<and>
     systemdCPUSlices s' = systemdCPUSlices s \<and> systemdCPUParent s' = systemdCPUParent s \<and>
     resourceLimits s' = resourceLimits s \<and> resourceLimitsActive s' = resourceLimitsActive s"

definition releasedAll :: "systemd_manager \<Rightarrow> bool" where
  "releasedAll s \<longleftrightarrow>
     released s \<and> resourceLimits s = [] \<and> \<not> resourceLimitsActive s \<and> \<not> systemdResourcesRequested s \<and>
     systemdResourceUnits s = [] \<and> ioWeightUnits s = [] \<and> \<not> ioWeightProgrammed s"

text \<open>
  What the adapter has answered when a release counts as done: its records were reconciled, every unit it
  then owned has an outcome, and no outcome carries an error or a conflict.
\<close>

definition everyUnitRestored :: "reconcile_env \<Rightarrow> systemd_manager \<Rightarrow> bool" where
  "everyUnitRestored env s =
     (case ownedR env s of
        (Inl _, _) \<Rightarrow> False
      | (Inr _, s1) \<Rightarrow>
          (case restoreUnitBatch env (leavesFirst (OwnedUnits (units s1))) s1 of
             (Inl _, _) \<Rightarrow> False
           | (Inr outcomes, _) \<Rightarrow>
               map ur_identity outcomes = leavesFirst (OwnedUnits (units s1)) \<and>
               list_all (\<lambda>r. ur_err r = None \<and> rr_Conflicts (ur_result r) = []) outcomes))"

text \<open>The batch reports failures in its outcomes and returns none itself.\<close>

definition neverFails :: "('s, 'e, 'a) op \<Rightarrow> bool" where
  "neverFails oper \<longleftrightarrow> triple (\<lambda>_. True) oper (\<lambda>_ _. True) (\<lambda>_ _. False)"

lemma neverFails_bind: "neverFails m \<Longrightarrow> (\<And>x. neverFails (f x)) \<Longrightarrow> neverFails (bindR m f)"
  unfolding neverFails_def by (rule triple_bind)

lemma neverFails_simple: "neverFails (retR x)" "neverFails (readR f)" "neverFails (writeR g)" "neverFails (tryR m)"
  by (auto simp: neverFails_def triple_def op_defs split: prod.splits)

lemma neverFails_call: "(\<And>r. \<exists>x. result r = Inr x) \<Longrightarrow> neverFails (callR answer rec result)"
  unfolding neverFails_def triple_def callR_def Let_def
  by (auto split: sum.splits) (metis Inl_Inr_False)

lemma neverFails_map: "(\<And>x. neverFails (f x)) \<Longrightarrow> neverFails (mapR f xs)"
  by (induction xs) (auto intro!: neverFails_bind neverFails_simple)

lemma neverFails_if: "(b \<Longrightarrow> neverFails m) \<Longrightarrow> (\<not> b \<Longrightarrow> neverFails n) \<Longrightarrow> neverFails (if b then m else n)"
  by simp

lemma neverFails_case:
  "(\<And>e. r = Inl e \<Longrightarrow> neverFails (f e)) \<Longrightarrow> (\<And>x. r = Inr x \<Longrightarrow> neverFails (g x)) \<Longrightarrow> neverFails (case r of Inl e \<Rightarrow> f e | Inr x \<Rightarrow> g x)"
  "(o' = None \<Longrightarrow> neverFails f') \<Longrightarrow> (\<And>x. o' = Some x \<Longrightarrow> neverFails (g' x)) \<Longrightarrow> neverFails (case o' of None \<Rightarrow> f' | Some x \<Rightarrow> g' x)"
  "(\<And>x y. neverFails (h x y)) \<Longrightarrow> neverFails (case p of (x, y) \<Rightarrow> h x y)"
  by (auto split: sum.splits option.splits prod.splits)

lemmas neverFails_rules = neverFails_bind neverFails_simple neverFails_map neverFails_if neverFails_case

lemma neverFails_prepare: "neverFails (prepareUnitRestore bd i)"
  unfolding prepareUnitRestore_def planUnitRestore_def Let_def by (intro neverFails_rules)

lemma neverFails_prepares: "neverFails (prepareUnitRestores bd requested is)"
  by (induction "is" arbitrary: requested) (auto intro!: neverFails_rules neverFails_prepare)

lemma neverFails_RestoreUnits: "neverFails (RestoreUnits bd is)"
  unfolding RestoreUnits_def restoreUnits_def finishUnitRestores_def revertPending_def reloadPending_def removePending_def
    stepPlan_def reload_def Let_def
  by (intro neverFails_rules neverFails_prepares neverFails_call) auto

text \<open>What a result is, whatever the state: the outcomes of a batch are those of the units asked for, in their order.\<close>

definition yields :: "('s, 'e, 'a) op \<Rightarrow> ('a \<Rightarrow> bool) \<Rightarrow> bool" where
  "yields oper Q \<longleftrightarrow> triple (\<lambda>_. True) oper (\<lambda>x _. Q x) (\<lambda>_ _. True)"

lemma yields_any: "yields m (\<lambda>_. True)"
  by (auto simp: yields_def triple_def split: prod.splits sum.splits)

lemma yields_ret: "Q x \<Longrightarrow> yields (retR x) Q"
  unfolding yields_def by (rule triple_ret)

lemma yields_bind: "yields m R \<Longrightarrow> (\<And>x. R x \<Longrightarrow> yields (f x) Q) \<Longrightarrow> yields (bindR m f) Q"
  unfolding yields_def triple_def bindR_def by (fastforce split: prod.splits sum.splits)

lemmas yields_after = yields_bind [OF yields_any]

lemma yields_if: "(b \<Longrightarrow> yields m Q) \<Longrightarrow> (\<not> b \<Longrightarrow> yields n Q) \<Longrightarrow> yields (if b then m else n) Q"
  by simp

lemma yields_case:
  "(\<And>e. yields (f e) Q) \<Longrightarrow> (\<And>x. yields (g x) Q) \<Longrightarrow> yields (case r of Inl e \<Rightarrow> f e | Inr x \<Rightarrow> g x) Q"
  "yields f' Q \<Longrightarrow> (\<And>x. yields (g' x) Q) \<Longrightarrow> yields (case o' of None \<Rightarrow> f' | Some x \<Rightarrow> g' x) Q"
  "(\<And>x y. yields (h x y) Q) \<Longrightarrow> yields (case p of (x, y) \<Rightarrow> h x y) Q"
  by (auto split: sum.splits option.splits prod.splits)

lemma yields_map:
  assumes "\<And>x. yields (f x) (\<lambda>y. h y = k x)"
  shows "yields (mapR f xs) (\<lambda>ys. map h ys = map k xs)"
  by (induction xs) (auto intro!: yields_ret yields_bind [OF assms] yields_bind)

lemmas yields_rules = yields_if yields_case yields_after

lemma ur_identity_failed [simp]: "ur_identity (unitRestore_failed e p) = ur_identity p" "ur_identity (newUnitRestore i) = i"
  "ur_identity (finishedPlan p) = ur_identity p"
  by (simp_all add: unitRestore_failed_def newUnitRestore_def finishedPlan_def)

lemma yields_prepare: "yields (prepareUnitRestore bd i) (\<lambda>p. ur_identity p = i)"
  unfolding prepareUnitRestore_def planUnitRestore_def Let_def by (intro yields_rules yields_ret) simp_all

lemma yields_prepares: "yields (prepareUnitRestores bd requested is) (\<lambda>ps. map ur_identity ps = is)"
proof (induction "is" arbitrary: requested)
  case (Cons i "is")
  have "yields (if b then retR (unitRestore_failed e (newUnitRestore i)) else prepareUnitRestore bd i) (\<lambda>p. ur_identity p = i)" for b e
    by (intro yields_if yields_prepare yields_ret) simp
  then show ?case
    unfolding prepareUnitRestores.simps by (rule yields_bind) (auto intro!: yields_bind [OF Cons.IH] yields_ret)
qed (simp add: yields_ret)

abbreviation sameUnits :: "unit_restore list \<Rightarrow> unit_restore list \<Rightarrow> bool" where
  "sameUnits ps qs \<equiv> map ur_identity qs = map ur_identity ps"

lemma yields_steps: "yields (mapR (stepPlan f) ps) (sameUnits ps)"
  unfolding stepPlan_def by (intro yields_map yields_rules yields_ret) (auto split: sum.splits)

lemma yields_failed: "yields (retR (failUnitRestores e ps)) (sameUnits ps)"
  by (rule yields_ret) (simp add: failUnitRestores_def)

lemma yields_finish: "yields (finishUnitRestores bd ps) (sameUnits ps)"
proof -
  have revert: "yields (revertPending bd qs) (sameUnits qs)" for qs
    unfolding revertPending_def by (intro yields_rules yields_steps yields_failed)
  have reload: "yields (reloadPending bd qs) (sameUnits qs)" for qs
    unfolding reloadPending_def Let_def by (intro yields_rules yields_steps yields_failed yields_ret) simp_all
  have remove: "yields (removePending bd qs) (sameUnits qs)" for qs
    unfolding removePending_def Let_def by (intro yields_rules yields_failed yields_ret) simp_all
  have "yields (bindR (revertPending bd ps) (\<lambda>qs. bindR (reloadPending bd qs) (removePending bd))) (sameUnits ps)"
    by (rule yields_bind [OF revert], rule yields_bind [OF reload]) (metis remove)
  then show ?thesis unfolding finishUnitRestores_def by (intro yields_if yields_ret) simp_all
qed

lemma yields_RestoreUnits: "yields (RestoreUnits bd is) (\<lambda>os. map ur_identity os = is)"
  unfolding RestoreUnits_def restoreUnits_def
  by (rule yields_after, rule yields_case)
    (auto intro!: yields_ret yields_bind [OF yields_prepares] yields_bind [OF yields_finish] simp: comp_def)

lemma same_records_keeps: "keeps (sameLimitRecords s) (unitsR fail oper)"
  by (rule tripleI) (auto simp: unitsR_def sameLimitRecords_def split: prod.splits sum.splits)

lemma restoreUnitBatch_records: "triple (sameLimitRecords s) (restoreUnitBatch env us) (\<lambda>_. sameLimitRecords s) (\<lambda>_ _. False)"
proof (cases "us = []")
  case False
  let ?r = "unitsR (\<lambda>e. AdapterFailure [e]) (RestoreUnits (en_bd env) us)"
  have "triple (\<lambda>_. True) ?r (\<lambda>_ _. True) (\<lambda>_ _. False)"
    using neverFails_RestoreUnits [of "en_bd env" us] unfolding neverFails_def triple_def unitsR_def
    by (auto split: prod.splits sum.splits)
  note both = triple_conj [OF same_records_keeps this]
  show ?thesis unfolding restoreUnitBatch_def by (simp add: False, rule triple_weaken [OF both]) auto
qed (simp add: restoreUnitBatch_def triple_ret)

lemma ownedR_records: "keeps (sameLimitRecords s) (ownedR env)"
  unfolding ownedR_def by (intro keeps_rules same_records_keeps)

lemma restoreSystemdCPUPoints_spec:
  "triple (sameLimitRecords s) (restoreSystemdCPUPoints env) (\<lambda>_. releasedAll)
     (\<lambda>e s'. sameLimitRecords s s' \<and> (e = AdapterUnavailable \<or> unacknowledged s'))"
proof -
  let ?E = "\<lambda>e s'. sameLimitRecords s s' \<and> (e = AdapterUnavailable \<or> unacknowledged s')"
  have installed: "triple (sameLimitRecords s) (readR systemdUnitsInstalled) (\<lambda>_. sameLimitRecords s) ?E"
    by (rule triple_read)
  have checked: "triple (sameLimitRecords s) (checkR b AdapterUnavailable) (\<lambda>_. sameLimitRecords s) ?E" for b
    by (rule triple_check) auto
  have owned: "triple (sameLimitRecords s) (tryR (ownedR env)) (\<lambda>_. sameLimitRecords s) ?E"
    by (rule triple_try [OF ownedR_records])
  have ordered: "triple (sameLimitRecords s) (readR f) (\<lambda>_. sameLimitRecords s) ?E" for f :: "systemd_manager \<Rightarrow> unit_identity list"
    by (rule triple_read)
  have batch: "triple (sameLimitRecords s) (restoreUnitBatch env us) (\<lambda>_. sameLimitRecords s) ?E" for us
    by (rule triple_weaken [OF restoreUnitBatch_records]) auto
  have marked: "triple (sameLimitRecords s) (bindR (writeR (\<lambda>s. s\<lparr> systemdCPUComplete := False, cpuPointsDegraded := True \<rparr>)) (\<lambda>_. failR e)) (\<lambda>_. releasedAll) ?E" for e
    by (rule triple_bind [where R = "\<lambda>_. ?E e"]) (auto intro!: triple_write triple_fail simp: sameLimitRecords_def unacknowledged_def)
  have freed: "triple (sameLimitRecords s) (writeR releaseAll) (\<lambda>_. releasedAll) ?E"
    by (rule triple_write) (simp add: releaseAll_def releasedAll_def released_def recordCPUTransitions_def Let_def)
  show ?thesis
    unfolding restoreSystemdCPUPoints_def Let_def
    by (intro triple_bind [OF installed] triple_bind [OF checked] triple_bind [OF owned] triple_bind [OF ordered] triple_bind [OF batch] triple_if marked freed)
qed

text \<open>A failed reconciliation of the records names its errors, and outcomes without failures are clean.\<close>

lemma ownedR_errors: "ownedR env s = (Inl e, s') \<Longrightarrow> \<exists>es. e = AdapterFailure es \<and> es \<noteq> []"
  by (auto simp: ownedR_def unitsR_def op_defs split: prod.splits sum.splits if_splits)

lemma no_outcomeFailures: "outcomeFailures os = [] \<longleftrightarrow> list_all (\<lambda>r. ur_err r = None \<and> rr_Conflicts (ur_result r) = []) os"
  by (induction os) (auto simp: outcomeFailures_def split: option.splits if_splits)

lemma restoreUnitBatch_units: "restoreUnitBatch env us s = (Inr os, s') \<Longrightarrow> map ur_identity os = us"
  using yields_RestoreUnits [of "en_bd env" us, unfolded yields_def, THEN triple_value, OF TrueI]
  by (auto simp: restoreUnitBatch_def unitsR_def retR_def split: if_splits prod.splits sum.splits)

lemma release_needs_every_unit:
  assumes "restoreSystemdCPUPoints env s = (Inr x, s')"
  shows "everyUnitRestored env s"
proof -
  obtain r s1 where r: "ownedR env s = (r, s1)" by fastforce
  let ?us = "leavesFirst (OwnedUnits (units s1))"
  let ?fs = "case r of Inl (AdapterFailure es) \<Rightarrow> es | _ \<Rightarrow> []"
  obtain os s2 where os: "restoreUnitBatch env ?us s1 = (Inr os, s2)" and "?fs @ outcomeFailures os = []"
    using assms by (auto simp: restoreSystemdCPUPoints_def bindR_Inr tryR_def readR_def checkR_def retR_def failR_def r Let_def
        split: if_splits)
  moreover have "\<exists>y. r = Inr y" using calculation(2) ownedR_errors [of env s _ s1] r by (cases r) fastforce+
  ultimately show ?thesis using r restoreUnitBatch_units [OF os] by (auto simp: everyUnitRestored_def no_outcomeFailures)
qed

text \<open>
  Property C5: releasing everything is all or nothing for the records of the manager: a success means that
  every unit the adapter owned has been restored without an error or a conflict, and then no limit is
  recorded any more and nothing is requested; with an error every record of the limits in
  force is kept, so that the release is tried again, and the acknowledgement is gone unless there was
  no adapter to ask at all.
\<close>

theorem release_all_or_nothing:
  "case restoreSystemdCPUPoints env s of
     (Inr _, s') \<Rightarrow> releasedAll s' \<and> everyUnitRestored env s
   | (Inl e, s') \<Rightarrow> sameLimitRecords s s' \<and> (e = AdapterUnavailable \<or> unacknowledged s')"
proof -
  have "sameLimitRecords s s" by (simp add: sameLimitRecords_def)
  from restoreSystemdCPUPoints_spec [of s env, unfolded triple_def, rule_format, OF this] release_needs_every_unit [of env s]
  show ?thesis by (auto split: prod.splits sum.splits)
qed

text \<open>
  The batch of a full release is the owned units, each once, with every leaf before the
  parent slice and the leaves in the order of their names, so that the finite quota of the parent is the
  last thing to be given up.
\<close>

theorem release_leaves_first: "leavesThenParent (leavesFirst us) \<and> mset (leavesFirst us) = mset us"
  by (simp add: leavesFirst_ordered leavesFirst_mset)

section \<open>Eligibility\<close>

lemma matchesAny_iff: "matchesAny regexp ps u = list_ex (\<lambda>p. matchPattern regexp p u) ps"
  by (induction ps) auto

text \<open>
  A user may be limited in CPU when a pattern of the include list matches and none of the
  exclude list does; an empty include list makes nobody eligible for CPU limits but everybody who is not
  excluded eligible for memory and I/O limits, and a pattern that does not compile matches nobody.
\<close>

theorem eligibility_rule:
  "EvaluateUserEligibility regexp c u =
     \<lparr> EligibleForCPU = list_ex (\<lambda>p. matchPattern regexp p u) (UserIncludeList c) \<and> \<not> list_ex (\<lambda>p. matchPattern regexp p u) (UserExcludeList c),
       EligibleForRAM = (RAMUserIncludeList c = [] \<or> list_ex (\<lambda>p. matchPattern regexp p u) (RAMUserIncludeList c)) \<and>
         \<not> list_ex (\<lambda>p. matchPattern regexp p u) (RAMUserExcludeList c),
       EligibleForIO = (IOUserIncludeList c = [] \<or> list_ex (\<lambda>p. matchPattern regexp p u) (IOUserIncludeList c)) \<and>
         \<not> list_ex (\<lambda>p. matchPattern regexp p u) (IOUserExcludeList c) \<rparr>"
  by (auto simp: EvaluateUserEligibility_def isUserIncludedLocked_def isUserExcludedLocked_def isUserIncludedForRAMLocked_def
      isUserExcludedForRAMLocked_def isUserIncludedForIOLocked_def isUserExcludedForIOLocked_def matchesAny_iff)

end
