(* ===== verification/Resource_Coverage.thy ===== *)
theory Resource_Coverage
  imports Write_Ahead_Recovery Control_Cycle
begin

text \<open>
  The process-authority inventory of \<^verbatim>\<open>src/internal/systemdunit/coverage.go\<close>: one pass over the process
  table decides for every user slice whether it covers the user's processes for CPU limits and, in
  detail, whether memory and I/O limits on the slice are authoritative; and the check of resource
  plans against a captured inventory (\<^verbatim>\<open>CheckCapturedResourceAuthorities\<close> of \<^verbatim>\<open>adapter.go\<close>).
\<close>

section \<open>Vocabulary\<close>

definition resourceName :: "resource_kind \<Rightarrow> string" where
  "resourceName r = (case r of ResourceMemory \<Rightarrow> ''memory'' | ResourceIO \<Rightarrow> ''io'' | ResourceIOWeight \<Rightarrow> ''io_weight'')"

definition ResourceCoverageComplete :: string where "ResourceCoverageComplete = ''complete''"
definition ResourceCoveragePartial :: string where "ResourceCoveragePartial = ''partial''"
definition ResourceCoverageRefused :: string where "ResourceCoverageRefused = ''refused''"

definition ResourceCoverageVerified :: string where "ResourceCoverageVerified = ''verified''"
definition ResourceCoverageAuthoritySplit :: string where "ResourceCoverageAuthoritySplit = ''authority_split''"
definition ResourceCoverageRuntimeDescendant :: string where "ResourceCoverageRuntimeDescendant = ''runtime_owned_descendant''"
definition ResourceCoverageInspectionFailed :: string where "ResourceCoverageInspectionFailed = ''inspection_unavailable''"
definition ResourceCoverageControllerMissing :: string where "ResourceCoverageControllerMissing = ''controller_unavailable''"
definition ResourceCoverageApplyFailed :: string where "ResourceCoverageApplyFailed = ''apply_failed''"
definition ResourceCoverageTopologyChanged :: string where "ResourceCoverageTopologyChanged = ''sample_topology_changed''"

lemmas coverage_states = ResourceCoverageComplete_def ResourceCoveragePartial_def ResourceCoverageRefused_def

text \<open>The authority before the resource is filled in.\<close>

definition authorityOf :: "string \<Rightarrow> string \<Rightarrow> resource_authority" where
  "authorityOf state reason = \<lparr> ra_Resource = [], ra_State = state, ra_Reason = reason \<rparr>"

record resource_coverage_target =
  ct_uid :: u32
  ct_controlGroup :: string

record resource_coverage_inspection =
  ci_authority :: resource_authority
  ci_err :: "string option"

record process_authority_capture =
  pc_cpuCoverage :: "(u32 \<times> bool) list"
  pc_resources :: "resource_coverage_inspection list"
  pc_err :: "string option"

record process_authority_observation =
  ob_UID :: u32
  ob_Identity :: unit_identity
  ob_CPUCoverage :: bool
  ob_ResourceAuthority :: resource_authority
  ob_ResourceError :: "string option"

record process_authority_inventory =
  iv_sampleEpochID :: int
  iv_topologyFingerprint :: string
  iv_resourceDetail :: bool
  iv_observations :: "process_authority_observation list"

section \<open>Paths of control groups\<close>

definition refusedAuthority :: "string \<Rightarrow> string option \<Rightarrow> resource_coverage_inspection" where
  "refusedAuthority reason err = \<lparr> ci_authority = authorityOf ResourceCoverageRefused reason, ci_err = err \<rparr>"

text \<open>\<^verbatim>\<open>filepath.Clean\<close> of an absolute path: elements that are empty or a dot go, two dots take one back.\<close>

fun cleanElements :: "string list \<Rightarrow> string list \<Rightarrow> string list" where
  "cleanElements kept [] = rev kept"
| "cleanElements kept (e # es) =
     (if e = [] \<or> e = ''.'' then cleanElements kept es
      else if e = ''..'' then cleanElements (tl kept) es
      else cleanElements (e # kept) es)"

definition cleanAbs :: "string \<Rightarrow> string" where
  "cleanAbs p = CHR ''/'' # joinWith (CHR ''/'') (cleanElements [] (splitOn (CHR ''/'') p))"

definition controlGroupContains :: "string \<Rightarrow> string \<Rightarrow> bool" where
  "controlGroupContains parent child \<longleftrightarrow>
     cleanAbs child = cleanAbs parent \<or> hasPrefix (cleanAbs child) (cleanAbs parent @ ''/'')"

definition runtimeScopeComponent :: "string \<Rightarrow> string \<Rightarrow> bool" where
  "runtimeScopeComponent component prefix =
     (if \<not> hasPrefix component prefix \<or> \<not> hasSuffix component ''.scope'' then False
      else let stem = drop (length prefix) component;
               ident = (if hasSuffix stem ''.scope'' then take (length stem - 6) stem else stem)
           in 12 \<le> length ident \<and> length ident \<le> 64 \<and> list_all isHexDigit ident)"

definition runtimeOwnedComponent :: "string \<Rightarrow> bool" where
  "runtimeOwnedComponent c \<longleftrightarrow>
     runtimeScopeComponent c ''libpod-'' \<or> runtimeScopeComponent c ''docker-'' \<or> runtimeScopeComponent c ''cri-containerd-'' \<or>
     c = ''docker'' \<or> c = ''kubepods.slice'' \<or> c = ''kubepods'' \<or>
     hasPrefix c ''kubepods-'' \<or> hasPrefix c ''kubepods_''"

definition runtimeOwnedCgroupPath :: "string \<Rightarrow> bool" where
  "runtimeOwnedCgroupPath path \<longleftrightarrow> list_ex runtimeOwnedComponent (splitOn (CHR ''/'') (cleanAbs path))"

section \<open>The process table\<close>

text \<open>
  What the file system answers about a process: it may have vanished, which is no error. A PID
  namespace is the identity that \<^verbatim>\<open>os.SameFile\<close> compares; \<open>px_done\<close> is the context's error before the
  entry with that index.
\<close>

datatype 'a proc_answer = Vanished | ProcError string | Found 'a

record proc_view =
  px_entries :: "(string, (string \<times> bool) list) res"
  px_hostNamespace :: "(string, nat) res"
  px_owner :: "string \<Rightarrow> u32 proc_answer"
  px_cgroup :: "string \<Rightarrow> string proc_answer"
  px_namespace :: "string \<Rightarrow> nat proc_answer"
  px_done :: "nat \<Rightarrow> string option"

text \<open>\<^verbatim>\<open>strconv.Atoi\<close> gives a positive number.\<close>

definition positivePID :: "string \<Rightarrow> bool" where
  "positivePID name =
     (case parseUint 63 (if hasPrefix name ''+'' then tl name else name) of Some n \<Rightarrow> 0 < n | None \<Rightarrow> False)"

text \<open>\<^verbatim>\<open>strings.SplitN(line, ":", 3)\<close> has three parts, the first \<^verbatim>\<open>0\<close>, the second empty and the third a control group.\<close>

definition unifiedEntry :: "string \<Rightarrow> string option" where
  "unifiedEntry line =
     (case cutAt (CHR '':'') line of
        (first, rest, found) \<Rightarrow>
          if \<not> found then None
          else (case cutAt (CHR '':'') rest of
              (second, third, found2) \<Rightarrow>
                if found2 \<and> first = ''0'' \<and> second = [] \<and> validAbsolutePath third then Some (cleanAbs third) else None))"

fun firstUnified :: "string list \<Rightarrow> string option" where
  "firstUnified [] = None"
| "firstUnified (l # ls) = (case unifiedEntry l of Some g \<Rightarrow> Some g | None \<Rightarrow> firstUnified ls)"

definition readUnifiedProcessCgroup :: "string proc_answer \<Rightarrow> string proc_answer" where
  "readUnifiedProcessCgroup content =
     (case content of
        Found data \<Rightarrow>
          (case firstUnified (splitOn LF (trimSpace data)) of
             Some g \<Rightarrow> Found g | None \<Rightarrow> ProcError ''unified cgroup v2 entry is absent'')
      | _ \<Rightarrow> content)"

section \<open>The detailed pass\<close>

text \<open>One target against one process of the table.\<close>

definition inspectTarget ::
  "nat proc_answer \<Rightarrow> nat \<Rightarrow> u32 \<Rightarrow> string \<Rightarrow> resource_coverage_target \<Rightarrow> resource_coverage_inspection \<Rightarrow> resource_coverage_inspection" where
  "inspectTarget namespace host uid cgroup target r =
     (if ra_State (ci_authority r) \<noteq> ResourceCoverageComplete then r
      else if \<not> controlGroupContains (ct_controlGroup target) cgroup then
        (if uid = ct_uid target then r\<lparr> ci_authority := authorityOf ResourceCoveragePartial ResourceCoverageAuthoritySplit \<rparr> else r)
      else if runtimeOwnedCgroupPath cgroup then refusedAuthority ResourceCoverageRuntimeDescendant None
      else (case namespace of
          Vanished \<Rightarrow> r
        | ProcError e \<Rightarrow> refusedAuthority ResourceCoverageInspectionFailed (Some e)
        | Found ns \<Rightarrow> if ns \<noteq> host then refusedAuthority ResourceCoverageRuntimeDescendant None else r))"

text \<open>A failure of the pass refuses every target.\<close>

definition refuseAll :: "string \<Rightarrow> process_authority_capture \<Rightarrow> process_authority_capture" where
  "refuseAll err c =
     c\<lparr> pc_err := Some err, pc_resources := map (\<lambda>_. refusedAuthority ResourceCoverageInspectionFailed (Some err)) (pc_resources c) \<rparr>"

definition targetPaths :: "resource_coverage_target list \<Rightarrow> (u32 \<times> string) list" where
  "targetPaths targets = fold (\<lambda>t. AList.update (ct_uid t) (ct_controlGroup t)) targets []"

definition newCoverage :: "resource_coverage_target list \<Rightarrow> (u32 \<times> bool) list" where
  "newCoverage targets = fold (\<lambda>t. AList.update (ct_uid t) True) targets []"

definition observeProcess ::
  "proc_view \<Rightarrow> nat \<Rightarrow> resource_coverage_target list \<Rightarrow> string \<Rightarrow> u32 \<Rightarrow> string \<Rightarrow> process_authority_capture \<Rightarrow> process_authority_capture" where
  "observeProcess view host targets name uid cgroup c =
     c\<lparr> pc_cpuCoverage := (case map_of (targetPaths targets) uid of
            Some parent \<Rightarrow> if \<not> controlGroupContains parent cgroup then AList.update uid False (pc_cpuCoverage c) else pc_cpuCoverage c
          | None \<Rightarrow> pc_cpuCoverage c),
        pc_resources := map (\<lambda>(t, r). inspectTarget (px_namespace view name) host uid cgroup t r) (zip targets (pc_resources c)) \<rparr>"

fun captureEntries ::
  "proc_view \<Rightarrow> nat \<Rightarrow> resource_coverage_target list \<Rightarrow> nat \<Rightarrow> (string \<times> bool) list \<Rightarrow> process_authority_capture \<Rightarrow> process_authority_capture" where
  "captureEntries view host targets i [] c = c"
| "captureEntries view host targets i ((name, isDir) # es) c =
     (case px_done view i of
        Some e \<Rightarrow> refuseAll e c
      | None \<Rightarrow>
          if \<not> positivePID name \<or> \<not> isDir then captureEntries view host targets (Suc i) es c
          else (case px_owner view name of
              Vanished \<Rightarrow> captureEntries view host targets (Suc i) es c
            | ProcError e \<Rightarrow> refuseAll e c
            | Found uid \<Rightarrow>
                (case readUnifiedProcessCgroup (px_cgroup view name) of
                   Vanished \<Rightarrow> captureEntries view host targets (Suc i) es c
                 | ProcError e \<Rightarrow> refuseAll e c
                 | Found cgroup \<Rightarrow>
                     captureEntries view host targets (Suc i) es (observeProcess view host targets name uid cgroup c))))"

section \<open>The CPU-only pass\<close>

fun lastUnified :: "string \<Rightarrow> string list \<Rightarrow> string" where
  "lastUnified member [] = member"
| "lastUnified member (l # ls) = lastUnified (if hasPrefix l ''0::'' then drop 3 l else member) ls"

definition trimSlash :: "string \<Rightarrow> string" where
  "trimSlash p = (if hasSuffix p ''/'' then butlast p else p)"

fun captureCPUEntries ::
  "proc_view \<Rightarrow> (u32 \<times> string) list \<Rightarrow> nat \<Rightarrow> (string \<times> bool) list \<Rightarrow> (u32 \<times> bool) list \<Rightarrow> (u32 \<times> bool) list \<times> string option" where
  "captureCPUEntries view paths i [] result = (result, None)"
| "captureCPUEntries view paths i ((name, isDir) # es) result =
     (case px_done view i of
        Some e \<Rightarrow> (result, Some e)
      | None \<Rightarrow>
          if parseUint 32 name = None then captureCPUEntries view paths (Suc i) es result
          else (case px_owner view name of
              Vanished \<Rightarrow> captureCPUEntries view paths (Suc i) es result
            | ProcError e \<Rightarrow> (result, Some e)
            | Found uid \<Rightarrow>
                (case map_of paths uid of
                   None \<Rightarrow> captureCPUEntries view paths (Suc i) es result
                 | Some parent \<Rightarrow>
                     (case px_cgroup view name of
                        Vanished \<Rightarrow> captureCPUEntries view paths (Suc i) es result
                      | ProcError e \<Rightarrow> (result, Some e)
                      | Found data \<Rightarrow>
                          let member = lastUnified [] (splitOn LF data) in
                          if member = [] then (result, Some ''CPU authority process has no unified cgroup'')
                          else if member \<noteq> parent \<and> \<not> hasPrefix member (trimSlash parent @ ''/'')
                          then captureCPUEntries view paths (Suc i) es (AList.update uid False result)
                          else captureCPUEntries view paths (Suc i) es result))))"

definition captureCPUOnly :: "proc_view \<Rightarrow> resource_coverage_target list \<Rightarrow> process_authority_capture" where
  "captureCPUOnly view targets =
     (case px_entries view of
        Inl e \<Rightarrow> \<lparr> pc_cpuCoverage = newCoverage targets, pc_resources = [], pc_err = Some e \<rparr>
      | Inr entries \<Rightarrow>
          (case captureCPUEntries view (targetPaths targets) 0 entries (newCoverage targets) of
             (result, err) \<Rightarrow> \<lparr> pc_cpuCoverage = result, pc_resources = [], pc_err = err \<rparr>))"

definition newCapture :: "resource_coverage_target list \<Rightarrow> process_authority_capture" where
  "newCapture targets =
     \<lparr> pc_cpuCoverage = newCoverage targets,
       pc_resources = map (\<lambda>_. \<lparr> ci_authority = authorityOf ResourceCoverageComplete ResourceCoverageVerified, ci_err = None \<rparr>) targets,
       pc_err = None \<rparr>"

definition capture :: "proc_view \<Rightarrow> resource_coverage_target list \<Rightarrow> bool \<Rightarrow> process_authority_capture" where
  "capture view targets includeResourceDetail =
     (if \<not> includeResourceDetail then captureCPUOnly view targets
      else if targets = [] then newCapture targets
      else (case px_entries view of
          Inl e \<Rightarrow> refuseAll e (newCapture targets)
        | Inr entries \<Rightarrow>
            (case px_hostNamespace view of
               Inl e \<Rightarrow> refuseAll e (newCapture targets)
             | Inr host \<Rightarrow> captureEntries view host targets 0 entries (newCapture targets))))"

section \<open>The inventory of a sample\<close>

definition NewProcessAuthorityInventory ::
  "int \<Rightarrow> string \<Rightarrow> bool \<Rightarrow> process_authority_observation list \<Rightarrow> process_authority_inventory" where
  "NewProcessAuthorityInventory epoch fingerprint detail obs =
     \<lparr> iv_sampleEpochID = epoch, iv_topologyFingerprint = fingerprint, iv_resourceDetail = detail, iv_observations = obs \<rparr>"

definition CPUCoverage :: "process_authority_inventory \<Rightarrow> (u32 \<times> bool) list" where
  "CPUCoverage i = fold (\<lambda>ob. AList.update (ob_UID ob) (ob_CPUCoverage ob)) (iv_observations i) []"

definition Observation :: "process_authority_inventory \<Rightarrow> u32 \<Rightarrow> unit_identity \<Rightarrow> process_authority_observation option" where
  "Observation i uid identity = find (\<lambda>ob. ob_UID ob = uid \<and> ob_Identity ob = identity) (iv_observations i)"

definition identityKey :: "unit_identity \<Rightarrow> string" where
  "identityKey i = ui_Name i @ '':'' @ hexEncode (ui_InvocationID i) @ '':'' @ formatUint (unat (ui_ControlGroupID i))"

definition TopologyFingerprint :: "topology_snapshot \<Rightarrow> string" where
  "TopologyFingerprint topology =
     joinWith (char_of (0::nat)) (sort ((''parent:'' @ identityKey (us_Identity (ts_Parent topology))) #
       map (\<lambda>u. ''uid:'' @ formatUint (unat (ss_UID u)) @ '':'' @ identityKey (us_Identity (ss_Unit u))) (ts_Users topology)))"

definition coverageTargetFor :: "u32 \<Rightarrow> unit_snapshot \<Rightarrow> resource_coverage_target" where
  "coverageTargetFor uid snapshot = \<lparr> ct_uid = uid, ct_controlGroup = us_ControlGroup snapshot \<rparr>"

definition observationFor ::
  "bool \<Rightarrow> process_authority_capture \<Rightarrow> nat \<Rightarrow> user_slice_snapshot \<Rightarrow> process_authority_observation" where
  "observationFor detail captured index user =
     \<lparr> ob_UID = ss_UID user, ob_Identity = us_Identity (ss_Unit user),
       ob_CPUCoverage = (map_of (pc_cpuCoverage captured) (ss_UID user) = Some True),
       ob_ResourceAuthority = (if detail then ci_authority (pc_resources captured ! index) else authorityOf [] []),
       ob_ResourceError = (if detail then ci_err (pc_resources captured ! index) else None) \<rparr>"

definition CaptureProcessAuthorityInventory ::
  "proc_view \<Rightarrow> topology_snapshot \<Rightarrow> int \<Rightarrow> bool \<Rightarrow> process_authority_inventory adapter_op" where
  "CaptureProcessAuthorityInventory view topology epoch detail =
     bindR (requireOpen ''capture_process_authority_inventory'') (\<lambda>_.
     let targets = map (\<lambda>u. coverageTargetFor (ss_UID u) (ss_Unit u)) (ts_Users topology);
         captured = capture view targets detail
     in case pc_err captured of
          Some e \<Rightarrow> failR (PlainError e)
        | None \<Rightarrow>
            retR (NewProcessAuthorityInventory epoch (TopologyFingerprint topology) detail
              (map (\<lambda>(i, u). observationFor detail captured i u) (enumerate 0 (ts_Users topology)))))"

definition ObserveCPUCoverage :: "proc_view \<Rightarrow> topology_snapshot \<Rightarrow> (u32 \<times> bool) list adapter_op" where
  "ObserveCPUCoverage view topology =
     bindR (CaptureProcessAuthorityInventory view topology 0 False) (\<lambda>inventory. retR (CPUCoverage inventory))"

section \<open>Checking plans against the inventory\<close>

record resource_authority_request =
  rq_Identity :: unit_identity
  rq_UID :: u32
  rq_Resource :: resource_kind
  rq_Assignments :: "property_assignment list"

text \<open>
  An error of a check: of the adapter, or a \<^verbatim>\<open>ResourceAuthorityError\<close> with its user, its authority and the error it wraps.
\<close>

datatype authority_error =
    CheckError adapter_error
  | ResourceAuthorityError u32 resource_authority "adapter_error option"

record resource_authority_result =
  rt_Authority :: resource_authority
  rt_Err :: "authority_error option"

definition refusedResult :: "resource_authority_request \<Rightarrow> string \<Rightarrow> string \<Rightarrow> resource_authority_result" where
  "refusedResult request reason why =
     (let authority = \<lparr> ra_Resource = resourceName (rq_Resource request), ra_State = ResourceCoverageRefused, ra_Reason = reason \<rparr>
      in \<lparr> rt_Authority = authority, rt_Err = Some (ResourceAuthorityError (rq_UID request) authority (Some (PlainError why))) \<rparr>)"

definition adapterResult :: "adapter_error \<Rightarrow> resource_authority_result" where
  "adapterResult e = \<lparr> rt_Authority = authorityOf [] [], rt_Err = Some (CheckError e) \<rparr>"

definition preflightResource :: "boundary \<Rightarrow> unit_snapshot \<Rightarrow> property_assignment list \<Rightarrow> bool adapter_op" where
  "preflightResource bd snapshot validated =
     callR (\<lambda>t. bd_preflightApply bd t snapshot validated) (\<lambda>_. CallPreflight (ui_Name (us_Identity snapshot))) Inr"

definition checkObserved ::
  "boundary \<Rightarrow> process_authority_inventory \<Rightarrow> resource_authority_request \<Rightarrow> property_assignment list \<Rightarrow> unit_snapshot \<Rightarrow>
   resource_authority_result adapter_op" where
  "checkObserved bd inventory request validated snapshot =
     (if \<not> iv_resourceDetail inventory then
        retR (refusedResult request ResourceCoverageInspectionFailed ''sample inventory has no RAM/I/O authority detail'')
      else (case Observation inventory (rq_UID request) (us_Identity snapshot) of
          None \<Rightarrow> retR (refusedResult request ResourceCoverageTopologyChanged ''unit is absent from the sample authority inventory'')
        | Some observation \<Rightarrow>
            let authority = (ob_ResourceAuthority observation)\<lparr> ra_Resource := resourceName (rq_Resource request) \<rparr> in
            if ob_ResourceError observation \<noteq> None \<or> ra_State authority \<noteq> ResourceCoverageComplete then
              retR \<lparr> rt_Authority = authority, rt_Err = Some (ResourceAuthorityError (rq_UID request) authority (map_option PlainError (ob_ResourceError observation))) \<rparr>
            else bindR (preflightResource bd snapshot validated) (\<lambda>ok.
              retR (if ok then \<lparr> rt_Authority = authority, rt_Err = None \<rparr>
                    else refusedResult request ResourceCoverageControllerMissing ''preflight''))))"

definition checkRequest ::
  "boundary \<Rightarrow> process_authority_inventory \<Rightarrow> resource_authority_request \<Rightarrow> resource_authority_result adapter_op" where
  "checkRequest bd inventory request =
     (case validateResourceAssignments (rq_Resource request) (rq_Assignments request) of
        Inl e \<Rightarrow> retR (adapterResult e)
      | Inr validated \<Rightarrow>
          bindR (tryR (bindR (readUnit bd (ui_Name (rq_Identity request)) (ui_ObjectPath (rq_Identity request))) (\<lambda>snapshot.
                       bindR (requireSameIdentity ''check_captured_resource_authorities'' (rq_Identity request) (us_Identity snapshot)) (\<lambda>_.
                       retR snapshot)))) (\<lambda>r. case r of
            Inl e \<Rightarrow> retR (adapterResult e)
          | Inr snapshot \<Rightarrow> checkObserved bd inventory request validated snapshot))"

definition CheckCapturedResourceAuthorities ::
  "boundary \<Rightarrow> process_authority_inventory \<Rightarrow> resource_authority_request list \<Rightarrow> resource_authority_result list adapter_op" where
  "CheckCapturedResourceAuthorities bd inventory requests =
     bindR (requireOpen ''check_captured_resource_authorities'') (\<lambda>_. mapR (checkRequest bd inventory) requests)"

section \<open>What a complete authority means\<close>

text \<open>The processes of the table that a pass gets to see: listed, not vanished, with an owner and a control group.\<close>

definition listedProcess :: "proc_view \<Rightarrow> string \<Rightarrow> u32 \<Rightarrow> string \<Rightarrow> bool" where
  "listedProcess view name uid cgroup \<longleftrightarrow>
     (\<exists>entries. px_entries view = Inr entries \<and> (name, True) \<in> set entries) \<and> positivePID name \<and>
     px_owner view name = Found uid \<and> readUnifiedProcessCgroup (px_cgroup view name) = Found cgroup"

definition governable :: "nat proc_answer \<Rightarrow> nat \<Rightarrow> u32 \<Rightarrow> string \<Rightarrow> resource_coverage_target \<Rightarrow> bool" where
  "governable namespace host uid cgroup target \<longleftrightarrow>
     (uid = ct_uid target \<longrightarrow> controlGroupContains (ct_controlGroup target) cgroup) \<and>
     (controlGroupContains (ct_controlGroup target) cgroup \<longrightarrow>
        \<not> runtimeOwnedCgroupPath cgroup \<and> namespace \<in> {Vanished, Found host})"

abbreviation complete :: "resource_coverage_inspection \<Rightarrow> bool" where
  "complete r \<equiv> ra_State (ci_authority r) = ResourceCoverageComplete"

lemma inspectTarget_complete:
  "complete (inspectTarget namespace host uid cgroup target r) \<longleftrightarrow> complete r \<and> governable namespace host uid cgroup target"
  by (auto simp: inspectTarget_def governable_def refusedAuthority_def authorityOf_def coverage_states split: proc_answer.splits)

lemma refuseAll_resources [simp]: "length (pc_resources (refuseAll e c)) = length (pc_resources c)"
  by (simp add: refuseAll_def)

lemma refuseAll_incomplete: "i < length (pc_resources c) \<Longrightarrow> \<not> complete (pc_resources (refuseAll e c) ! i)"
  by (simp add: refuseAll_def refusedAuthority_def authorityOf_def coverage_states)

lemma captureEntries_complete:
  assumes "length (pc_resources c) = length targets" "j < length targets"
    "complete (pc_resources (captureEntries view host targets i es c) ! j)"
  shows "complete (pc_resources c ! j) \<and>
    (\<forall>(name, isDir) \<in> set es. \<forall>uid cgroup. isDir \<and> positivePID name \<and> px_owner view name = Found uid \<and>
        readUnifiedProcessCgroup (px_cgroup view name) = Found cgroup \<longrightarrow> governable (px_namespace view name) host uid cgroup (targets ! j))"
  using assms
proof (induction view host targets i es c rule: captureEntries.induct)
  case (2 view host targets i name isDir es c)
  show ?case
  proof (cases "px_done view i")
    case (Some e)
    then show ?thesis using 2 refuseAll_incomplete by auto
  next
    case None
    note quiet = None
    show ?thesis
    proof (cases "\<not> positivePID name \<or> \<not> isDir")
      case True
      then show ?thesis using 2 quiet by auto
    next
      case False
      show ?thesis
      proof (cases "px_owner view name")
        case Vanished
        then show ?thesis using 2 quiet False by auto
      next
        case (ProcError e)
        then show ?thesis using 2 quiet False refuseAll_incomplete by auto
      next
        case (Found uid)
        show ?thesis
        proof (cases "readUnifiedProcessCgroup (px_cgroup view name)")
          case Vanished
          then show ?thesis using 2 quiet False Found by auto
        next
          case (ProcError e)
          then show ?thesis using 2 quiet False Found refuseAll_incomplete by auto
        next
          case cg: (Found cgroup)
          show ?thesis using 2 quiet False Found cg by (auto simp: observeProcess_def inspectTarget_complete)
        qed
      qed
    qed
  qed
qed auto

lemma capture_complete:
  assumes "j < length targets" "complete (pc_resources (capture view targets True) ! j)" "listedProcess view name uid cgroup"
  shows "\<exists>host. px_hostNamespace view = Inr host \<and> governable (px_namespace view name) host uid cgroup (targets ! j)"
proof -
  have new: "length (pc_resources (newCapture targets)) = length targets" by (simp add: newCapture_def)
  obtain entries where entries: "px_entries view = Inr entries" "(name, True) \<in> set entries" "positivePID name"
    "px_owner view name = Found uid" "readUnifiedProcessCgroup (px_cgroup view name) = Found cgroup"
    using assms(3) by (auto simp: listedProcess_def)
  have "targets \<noteq> []" using assms(1) by auto
  show ?thesis
  proof (cases "px_hostNamespace view")
    case (Inl e)
    then show ?thesis using assms(1,2) entries \<open>targets \<noteq> []\<close> refuseAll_incomplete [of j "newCapture targets" e] new by (simp add: capture_def)
  next
    case (Inr host)
    then have "complete (pc_resources (captureEntries view host targets 0 entries (newCapture targets)) ! j)"
      using assms(2) entries(1) \<open>targets \<noteq> []\<close> by (simp add: capture_def)
    from captureEntries_complete [OF new assms(1) this] entries Inr show ?thesis by blast
  qed
qed

text \<open>
  Property C24: a complete authority is trustworthy: when the detailed pass calls the slice of a user
  completely covered, then every process that the process table shows with that owner is inside the
  slice, and every process inside the slice, whoever owns it, is outside every container-runtime control
  group and in the PID namespace of the host or already gone.
\<close>

theorem complete_authority_sound:
  assumes "j < length targets" "ra_State (ci_authority (pc_resources (capture view targets True) ! j)) = ResourceCoverageComplete"
    "listedProcess view name uid cgroup"
  shows "(uid \<noteq> ct_uid (targets ! j) \<or> controlGroupContains (ct_controlGroup (targets ! j)) cgroup) \<and>
    (\<not> controlGroupContains (ct_controlGroup (targets ! j)) cgroup \<or>
      \<not> runtimeOwnedCgroupPath cgroup \<and>
      (px_namespace view name = Vanished \<or> (\<exists>host. px_hostNamespace view = Inr host \<and> px_namespace view name = Found host)))"
  using capture_complete [OF assms] by (auto simp: governable_def)

text \<open>A table with one process of user 1000 in its slice.\<close>

definition sampleView :: proc_view where
  "sampleView = \<lparr> px_entries = Inr [(''1'', True), (''42'', True), (''self'', False)], px_hostNamespace = Inr 7,
     px_owner = (\<lambda>name. if name = ''42'' then Found 1000 else Found 0),
     px_cgroup = (\<lambda>name. if name = ''42'' then Found ''0::/user.slice/user-1000.slice/session-1.scope'' else Found ''0::/init.scope''),
     px_namespace = (\<lambda>_. Found 7), px_done = (\<lambda>_. None) \<rparr>"

definition sampleTargets :: "resource_coverage_target list" where
  "sampleTargets = [\<lparr> ct_uid = 1000, ct_controlGroup = ''/user.slice/user-1000.slice'' \<rparr>]"

lemma sample_capture:
  "ra_State (ci_authority (pc_resources (capture sampleView sampleTargets True) ! 0)) = ResourceCoverageComplete"
  "listedProcess sampleView ''42'' 1000 ''/user.slice/user-1000.slice/session-1.scope''"
  "controlGroupContains ''/user.slice/user-1000.slice'' ''/user.slice/user-1000.slice/session-1.scope''"
  unfolding listedProcess_def sampleTargets_def
  by (code_simp, simp add: sampleView_def, code_simp, code_simp)

theorem complete_authority_sound_witness:
  "controlGroupContains ''/user.slice/user-1000.slice'' ''/user.slice/user-1000.slice/session-1.scope'' \<and>
   \<not> runtimeOwnedCgroupPath ''/user.slice/user-1000.slice/session-1.scope'' \<and>
   ra_State (ci_authority (pc_resources (capture sampleView sampleTargets True) ! 0)) = ResourceCoverageComplete"
  using complete_authority_sound [of 0 sampleTargets sampleView "''42''" 1000] sample_capture by (simp add: sampleTargets_def)

end
