(* ===== verification/Resource_Reconcile.thy ===== *)
theory Resource_Reconcile
  imports Cpu_Acknowledgement Resource_Coverage
begin

text \<open>
  The memory and I/O back end of the state manager (\<^verbatim>\<open>src/state/systemd_resources.go\<close>): plan the limits of
  every eligible user, check each plan against the process-authority inventory of the sample, apply,
  read back and publish; withdraw what is refused or no longer desired.
\<close>

section \<open>Configuration and sample\<close>

record resource_config = decision_config +
  RAMQuotaPerUser :: string
  RAMHighRatio :: f64
  DisableSwap :: bool
  IODeviceFilter :: string

definition GetRAMHighRatio :: "resource_config \<Rightarrow> f64" where
  "GetRAMHighRatio c =
     (if f_lt (RAMHighRatio c) f_zero \<or> f_lt (f_of_int 1) (RAMHighRatio c) then fl (8 / 10) else RAMHighRatio c)"

text \<open>
  Of the metrics of the cycle: who is eligible, the captured inventory or why there is none (the failed
  step and its error), the epoch of the sample and its time.
\<close>

record resource_sample =
  rs_RAMEligibleUsers :: "int list"
  rs_IOEligibleUsers :: "int list"
  rs_inventory :: "process_authority_inventory option"
  rs_inventoryErr :: "(string \<times> adapter_error) option"
  rs_sampleEpochID :: int
  rs_timestamp :: int

text \<open>
  What the outside contributes besides the CPU back end's: the block devices a filter names, the page
  size, and what a conversion to \<^verbatim>\<open>uint64\<close> makes of a float outside its range.
\<close>

record resource_env =
  re_env :: reconcile_env
  re_devices :: "string \<Rightarrow> (string, string list) res"
  re_pageSize :: u64
  re_outside :: "f64 \<Rightarrow> u64"

section \<open>Errors\<close>

datatype resource_failure =
    PlainResourceFailure string "adapter_error list"
  | SystemdResourceReconciliationError int "resource_kind option" string authority_error

fun failureErrors :: "resource_failure \<Rightarrow> adapter_error list" where
  "failureErrors (PlainResourceFailure _ es) = es"
| "failureErrors (SystemdResourceReconciliationError _ _ _ (CheckError e)) = [e]"
| "failureErrors (SystemdResourceReconciliationError _ _ _ (ResourceAuthorityError _ _ e)) = (case e of Some e' \<Rightarrow> [e'] | None \<Rightarrow> [])"

definition retryableFailures :: "resource_failure list \<Rightarrow> bool" where
  "retryableFailures fs = firstRetryable (concat (map failureErrors fs))"

type_synonym 'a resource_op = "(systemd_manager, resource_failure list, 'a) op"

definition failAt :: "int \<Rightarrow> resource_kind option \<Rightarrow> string \<Rightarrow> adapter_error \<Rightarrow> resource_failure list" where
  "failAt uid resource step e = [SystemdResourceReconciliationError uid resource step (CheckError e)]"

section \<open>Who is desired\<close>

definition desiredResourceUsers :: "bool \<Rightarrow> int list \<Rightarrow> int list" where
  "desiredResourceUsers enabled us = (if \<not> enabled then [] else remdups (filter (\<lambda>uid. 0 < uid) us))"

definition unionResourceUIDs :: "int list \<Rightarrow> int list \<Rightarrow> int list" where
  "unionResourceUIDs left right = sort (remdups (left @ right))"

definition ramDesired :: "resource_config \<Rightarrow> resource_sample \<Rightarrow> int list" where
  "ramDesired cfg sample = desiredResourceUsers (RAMEnabled cfg) (rs_RAMEligibleUsers sample)"

definition ioDesired :: "resource_config \<Rightarrow> resource_sample \<Rightarrow> int list" where
  "ioDesired cfg sample = desiredResourceUsers (IOEnabled cfg) (rs_IOEligibleUsers sample)"

definition desires :: "resource_config \<Rightarrow> resource_sample \<Rightarrow> resource_kind \<Rightarrow> int \<Rightarrow> bool" where
  "desires cfg sample r uid = (if r = ResourceMemory then uid \<in> set (ramDesired cfg sample) else uid \<in> set (ioDesired cfg sample))"

section \<open>Authorities of the cycle\<close>

definition resetCycleResourceAuthorities :: "resource_config \<Rightarrow> resource_sample \<Rightarrow> systemd_manager \<Rightarrow> systemd_manager" where
  "resetCycleResourceAuthorities cfg sample s =
     s\<lparr> systemdRAMAuthority := map (\<lambda>uid. (uid, None)) (ramDesired cfg sample),
        systemdIOAuthority := map (\<lambda>uid. (uid, None)) (ioDesired cfg sample) \<rparr>"

definition recordCycleResourceAuthority :: "int \<Rightarrow> resource_kind \<Rightarrow> resource_authority \<Rightarrow> systemd_manager \<Rightarrow> systemd_manager" where
  "recordCycleResourceAuthority uid resource authority s =
     (if resource = ResourceMemory then s\<lparr> systemdRAMAuthority := AList.update uid (Some authority) (systemdRAMAuthority s) \<rparr>
      else s\<lparr> systemdIOAuthority := AList.update uid (Some authority) (systemdIOAuthority s) \<rparr>)"

definition invalidateCycleResourceAuthorities :: "systemd_manager \<Rightarrow> systemd_manager" where
  "invalidateCycleResourceAuthorities s =
     s\<lparr> systemdRAMAuthority := map (\<lambda>(uid, _). (uid, None)) (systemdRAMAuthority s),
        systemdIOAuthority := map (\<lambda>(uid, _). (uid, None)) (systemdIOAuthority s) \<rparr>"

section \<open>Records of applied limits\<close>

definition limitState :: "systemd_manager \<Rightarrow> int \<Rightarrow> user_resource_limit_state" where
  "limitState s uid = (case map_of (resourceLimits s) uid of Some st \<Rightarrow> st | None \<Rightarrow> zeroResourceLimit)"

definition setLimitState :: "int \<Rightarrow> user_resource_limit_state \<Rightarrow> systemd_manager \<Rightarrow> systemd_manager" where
  "setLimitState uid st s = s\<lparr> resourceLimits := AList.update uid st (resourceLimits s) \<rparr>"

definition forgetUser :: "int \<Rightarrow> systemd_manager \<Rightarrow> systemd_manager" where
  "forgetUser uid s = s\<lparr> resourceLimits := AList.delete uid (resourceLimits s), systemdResourceUnits := AList.delete uid (systemdResourceUnits s) \<rparr>"

definition publishSystemdResource ::
  "int \<Rightarrow> unit_identity \<Rightarrow> resource_kind \<Rightarrow> bool \<Rightarrow> resource_authority \<Rightarrow> systemd_manager \<Rightarrow> systemd_manager" where
  "publishSystemdResource uid identity resource swap authority s =
     (let st = limitState s uid;
          st' = (if resource = ResourceMemory
                 then st\<lparr> rl_ram := True, rl_ramApplied := True, rl_swap := swap, rl_ramAuthority := authority \<rparr>
                 else st\<lparr> rl_io := True, rl_ioApplied := True, rl_ioAuthority := authority \<rparr>)
      in (setLimitState uid st' s)\<lparr> systemdResourceUnits := AList.update uid identity (systemdResourceUnits s) \<rparr>)"

definition recordSystemdResourceAuthority :: "int \<Rightarrow> resource_kind \<Rightarrow> resource_authority \<Rightarrow> systemd_manager \<Rightarrow> systemd_manager" where
  "recordSystemdResourceAuthority uid resource authority s =
     (let st = limitState s uid in
      setLimitState uid (if resource = ResourceMemory then st\<lparr> rl_ram := True, rl_ramAuthority := authority \<rparr>
                         else st\<lparr> rl_io := True, rl_ioAuthority := authority \<rparr>) s)"

definition recordSystemdResourceUnapplied :: "int \<Rightarrow> resource_kind \<Rightarrow> resource_authority \<Rightarrow> systemd_manager \<Rightarrow> systemd_manager" where
  "recordSystemdResourceUnapplied uid resource authority s =
     (let st = limitState s uid in
      setLimitState uid (if resource = ResourceMemory
                         then st\<lparr> rl_ram := True, rl_ramApplied := False, rl_swap := False, rl_ramAuthority := authority \<rparr>
                         else st\<lparr> rl_io := True, rl_ioApplied := False, rl_ioAuthority := authority \<rparr>) s)"

text \<open>What a successful restore of one resource leaves of the user's record.\<close>

definition clearedLimitState :: "resource_kind \<Rightarrow> user_resource_limit_state \<Rightarrow> user_resource_limit_state" where
  "clearedLimitState resource st =
     (let none = \<lparr> ra_Resource = [], ra_State = [], ra_Reason = [] \<rparr> in
      if resource = ResourceMemory then st\<lparr> rl_ram := False, rl_ramApplied := False, rl_swap := False, rl_ramAuthority := none \<rparr>
      else st\<lparr> rl_io := False, rl_ioApplied := False, rl_ioAuthority := none \<rparr>)"

definition clearSystemdResource :: "int \<Rightarrow> resource_kind \<Rightarrow> systemd_manager \<Rightarrow> systemd_manager" where
  "clearSystemdResource uid resource s =
     (let st = clearedLimitState resource (limitState s uid) in
      if \<not> rl_ram st \<and> \<not> rl_io st \<and> \<not> rl_ramApplied st \<and> \<not> rl_ioApplied st then forgetUser uid s else setLimitState uid st s)"

text \<open>The activity of the leases of one tracked user, and its record after the leases were looked at.\<close>

definition activeResource :: "resource_kind \<Rightarrow> property_lease list \<Rightarrow> bool" where
  "activeResource r ls = list_ex (\<lambda>l. PropertyName_Resource (pl_Property l) = Some r \<and> PropertyLease_Active l) ls"

definition pruneUser :: "(int \<times> unit_identity) list \<Rightarrow> int \<times> unit_identity \<times> bool \<times> bool \<Rightarrow> systemd_manager \<Rightarrow> systemd_manager" where
  "pruneUser current observed s =
     (case observed of (uid, identity, activeMemory, activeIO) \<Rightarrow>
        if map_of (systemdResourceUnits s) uid \<noteq> Some identity then s
        else
          let st0 = limitState s uid;
              st1 = (if \<not> activeMemory then st0\<lparr> rl_ram := False, rl_ramApplied := False, rl_swap := False \<rparr> else st0);
              st2 = (if \<not> activeIO then st1\<lparr> rl_io := False, rl_ioApplied := False \<rparr> else st1)
          in if \<not> activeMemory \<and> \<not> activeIO \<and> map_of current uid \<noteq> Some identity then forgetUser uid s
             else setLimitState uid st2 s)"

definition pruneReleasedSystemdResourceState :: "(int \<times> unit_identity) list \<Rightarrow> systemd_manager \<Rightarrow> systemd_manager" where
  "pruneReleasedSystemdResourceState current s =
     fold (pruneUser current)
       (map (\<lambda>(uid, identity). (uid, identity, activeResource ResourceMemory (Leases identity (units s)),
                                activeResource ResourceIO (Leases identity (units s)))) (systemdResourceUnits s)) s"

section \<open>Plans\<close>

text \<open>\<^verbatim>\<open>uint64(f)\<close>: the integer part where it fits, else what the machine makes of it.\<close>

definition uint64OfFloat :: "(f64 \<Rightarrow> u64) \<Rightarrow> f64 \<Rightarrow> u64" where
  "uint64OfFloat outside f =
     (case f of Fin q \<Rightarrow> if 0 \<le> q \<and> q < 2 ^ 64 then of_int \<lfloor>q\<rfloor> else outside f | _ \<Rightarrow> outside f)"

fun mapRes :: "('x \<Rightarrow> ('e, 'y) res) \<Rightarrow> 'x list \<Rightarrow> ('e, 'y list) res" where
  "mapRes f [] = Inr []"
| "mapRes f (x # xs) = (case f x of Inl e \<Rightarrow> Inl e | Inr y \<Rightarrow> (case mapRes f xs of Inl e \<Rightarrow> Inl e | Inr ys \<Rightarrow> Inr (y # ys)))"

definition newAssignments :: "(property_name \<times> u64) list \<Rightarrow> (adapter_error, property_assignment list) res" where
  "newAssignments vs = mapRes (\<lambda>(p, v). NewPropertyAssignment p v) vs"

definition memoryValues :: "resource_config \<Rightarrow> u64 \<Rightarrow> u64 \<Rightarrow> (property_name \<times> u64) list" where
  "memoryValues cfg highBytes maxBytes =
     (if f_lt f_zero (GetRAMHighRatio cfg) then [(PropertyMemoryHigh, highBytes)] else []) @ [(PropertyMemoryMax, maxBytes)] @
     (if DisableSwap cfg then [(PropertyMemorySwapMax, 0)] else [])"

definition systemdMemoryAssignments :: "resource_env \<Rightarrow> resource_config \<Rightarrow> (adapter_error, property_assignment list) res" where
  "systemdMemoryAssignments env cfg =
     (case ParseByteQuota (RAMQuotaPerUser cfg) of
        Inl _ \<Rightarrow> Inl (PlainError ''invalid RAM quota'')
      | Inr quota \<Rightarrow>
          if quota = 0 then Inl (PlainError ''invalid RAM quota'')
          else
            let high = uint64OfFloat (re_outside env) (f_mul (f_of_u64 quota) (GetRAMHighRatio cfg));
                maxBytes = quota - quota mod re_pageSize env;
                highBytes = high - high mod re_pageSize env
            in if maxBytes = 0 then Inl (PlainError ''RAM quota is smaller than the host page size'')
               else newAssignments (memoryValues cfg highBytes maxBytes))"

definition bandwidthLimit :: "resource_env \<Rightarrow> f64 \<Rightarrow> property_name \<times> string \<Rightarrow> (adapter_error, (property_name \<times> u64) list) res" where
  "bandwidthLimit env multiplier candidate =
     (let v = trimSpace (snd candidate) in
      if v = [] \<or> v = ''0'' \<or> v = ''max'' then Inr []
      else (case ParseByteQuota v of
          Inl _ \<Rightarrow> Inl (PlainError ''invalid value'')
        | Inr parsed \<Rightarrow>
            if parsed = 0 then Inl (PlainError ''invalid value'')
            else Inr [(fst candidate, uint64OfFloat (re_outside env) (f_mul (f_of_u64 parsed) multiplier))]))"

definition iopsLimit :: "resource_env \<Rightarrow> f64 \<Rightarrow> property_name \<times> int \<Rightarrow> (property_name \<times> u64) list" where
  "iopsLimit env multiplier candidate =
     (if 0 < snd candidate then [(fst candidate, uint64OfFloat (re_outside env) (f_mul (f_of_int (snd candidate)) multiplier))] else [])"

definition deviceAssignment :: "string list \<Rightarrow> property_name \<times> u64 \<Rightarrow> (adapter_error, property_assignment) res" where
  "deviceAssignment devices limit = NewDevicePropertyAssignment (fst limit) (map (\<lambda>d. \<lparr> dl_Path = d, dl_Value = snd limit \<rparr>) devices)"

definition systemdIOAssignments :: "resource_env \<Rightarrow> resource_config \<Rightarrow> f64 \<Rightarrow> (adapter_error, property_assignment list) res" where
  "systemdIOAssignments env cfg multiplier =
     (case re_devices env (IODeviceFilter cfg) of
        Inl e \<Rightarrow> Inl (PlainError e)
      | Inr devices \<Rightarrow>
          (case mapRes (bandwidthLimit env multiplier) [(PropertyIOReadBandwidthMax, IOReadBPS cfg), (PropertyIOWriteBandwidthMax, IOWriteBPS cfg)] of
             Inl e \<Rightarrow> Inl e
           | Inr bandwidths \<Rightarrow>
               let limits = concat bandwidths @ iopsLimit env multiplier (PropertyIOReadIOPSMax, IOReadIOPS cfg) @
                            iopsLimit env multiplier (PropertyIOWriteIOPSMax, IOWriteIOPS cfg)
               in if limits = [] then Inl (PlainError ''I/O limiting is enabled without a finite bandwidth or IOPS limit'')
                  else mapRes (deviceAssignment devices) limits))"

section \<open>Applying and withdrawing\<close>

definition resourceRestoreProperties :: "resource_kind \<Rightarrow> property_name list" where
  "resourceRestoreProperties resource =
     (if resource = ResourceIO
      then [PropertyIOWeight, PropertyIOReadBandwidthMax, PropertyIOWriteBandwidthMax, PropertyIOReadIOPSMax, PropertyIOWriteIOPSMax]
      else [PropertyMemoryHigh, PropertyMemoryMax, PropertyMemorySwapMax])"

definition restoreSystemdResource :: "resource_env \<Rightarrow> int \<Rightarrow> unit_identity \<Rightarrow> resource_kind \<Rightarrow> unit resource_op" where
  "restoreSystemdResource env uid identity resource =
     bindR (unitsR (failAt uid (Some resource) ''restore'') (RestoreProperties (en_bd (re_env env)) identity (resourceRestoreProperties resource)))
       (\<lambda>(_, err). case err of
          Some e \<Rightarrow> failR (failAt uid (Some resource) ''restore'' e)
        | None \<Rightarrow> writeR (clearSystemdResource uid resource))"

text \<open>The errors of a step that goes on.\<close>

definition errorsOf :: "unit resource_op \<Rightarrow> resource_failure list resource_op" where
  "errorsOf oper = bindR (tryR oper) (\<lambda>r. retR (case r of Inl fs \<Rightarrow> fs | Inr _ \<Rightarrow> []))"

definition refuseSystemdResource ::
  "resource_env \<Rightarrow> int \<Rightarrow> unit_identity \<Rightarrow> resource_kind \<Rightarrow> resource_authority \<Rightarrow> authority_error \<Rightarrow> resource_failure list resource_op" where
  "refuseSystemdResource env uid identity resource authority authorityErr =
     bindR (readR (\<lambda>s. (if resource = ResourceIO then rl_ioApplied (limitState s uid) else rl_ramApplied (limitState s uid)) \<and>
                       map_of (systemdResourceUnits s) uid = Some identity)) (\<lambda>applied.
     bindR (if applied then errorsOf (restoreSystemdResource env uid identity resource) else retR []) (\<lambda>restoreErrs.
     bindR (writeR (recordSystemdResourceAuthority uid resource authority)) (\<lambda>_.
     retR (SystemdResourceReconciliationError uid (Some resource) ''authority'' authorityErr # restoreErrs))))"

definition splitAuthority :: "resource_kind \<Rightarrow> resource_authority" where
  "splitAuthority resource =
     \<lparr> ra_Resource = resourceName resource, ra_State = ResourceCoveragePartial, ra_Reason = ResourceCoverageAuthoritySplit \<rparr>"

definition recordMissingSystemdResourceAuthority :: "int \<Rightarrow> resource_kind \<Rightarrow> resource_failure list resource_op" where
  "recordMissingSystemdResourceAuthority uid resource =
     bindR (writeR (recordSystemdResourceAuthority uid resource (splitAuthority resource))) (\<lambda>_.
     retR [SystemdResourceReconciliationError uid (Some resource) ''authority''
       (ResourceAuthorityError (of_int uid) (splitAuthority resource) (Some (PlainError ''no authoritative slice'')))])"

section \<open>The inventory of the sample\<close>

definition systemdAuthorityInventoryDiscoveryFailed :: string where
  "systemdAuthorityInventoryDiscoveryFailed = ''topology_discovery_failed''"

text \<open>The inventory, or the reason, whether the discovery of the sample failed, and the error.\<close>

definition processAuthorityInventoryForSample ::
  "resource_sample \<Rightarrow> (string \<times> bool \<times> adapter_error, process_authority_inventory) res" where
  "processAuthorityInventoryForSample sample =
     (case rs_inventory sample of
        None \<Rightarrow>
          (case rs_inventoryErr sample of
             Some (failure, e) \<Rightarrow> Inl (ResourceCoverageInspectionFailed, failure = systemdAuthorityInventoryDiscoveryFailed, e)
           | None \<Rightarrow> Inl (ResourceCoverageInspectionFailed, False, PlainError ''decision sample has no process-authority inventory''))
      | Some inventory \<Rightarrow>
          let epoch = (if rs_sampleEpochID sample = 0 then rs_timestamp sample else rs_sampleEpochID sample) in
          if iv_sampleEpochID inventory \<noteq> epoch
          then Inl (ResourceCoverageTopologyChanged, False, PlainError ''process-authority inventory sample epoch does not match decision sample'')
          else if \<not> iv_resourceDetail inventory
          then Inl (ResourceCoverageInspectionFailed, False, PlainError ''decision sample inventory has no RAM/I/O authority detail'')
          else Inr inventory)"

text \<open>Without an inventory every desired resource is refused.\<close>

definition refuseDesired ::
  "resource_env \<Rightarrow> resource_config \<Rightarrow> resource_sample \<Rightarrow> (int \<times> unit_identity) list \<Rightarrow> string \<Rightarrow> adapter_error \<Rightarrow>
   int \<times> resource_kind \<Rightarrow> resource_failure list resource_op" where
  "refuseDesired env cfg sample us reason err wanted =
     (case wanted of (uid, resource) \<Rightarrow>
        if \<not> desires cfg sample resource uid then retR []
        else
          let authority = \<lparr> ra_Resource = resourceName resource, ra_State = ResourceCoverageRefused, ra_Reason = reason \<rparr>;
              authorityErr = ResourceAuthorityError (of_int uid) authority (Some err)
          in bindR (writeR (recordCycleResourceAuthority uid resource authority)) (\<lambda>_.
             case map_of us uid of
               Some identity \<Rightarrow> refuseSystemdResource env uid identity resource authority authorityErr
             | None \<Rightarrow>
                 bindR (writeR (recordSystemdResourceAuthority uid resource authority)) (\<lambda>_.
                 retR [SystemdResourceReconciliationError uid (Some resource) ''authority'' authorityErr])))"

section \<open>One attempt\<close>

record planned_resource =
  pr_uid :: int
  pr_identity :: unit_identity
  pr_resource :: resource_kind
  pr_assignments :: "property_assignment list"
  pr_swap :: bool
  pr_authority :: resource_authority

definition newPlanned :: "int \<Rightarrow> unit_identity \<Rightarrow> resource_kind \<Rightarrow> property_assignment list \<Rightarrow> bool \<Rightarrow> planned_resource" where
  "newPlanned uid identity resource as swap =
     \<lparr> pr_uid = uid, pr_identity = identity, pr_resource = resource, pr_assignments = as, pr_swap = swap, pr_authority = authorityOf [] [] \<rparr>"

text \<open>The plans of one user: nothing but records and errors when no slice of the user was found.\<close>

definition planUser ::
  "resource_env \<Rightarrow> resource_config \<Rightarrow> resource_sample \<Rightarrow> (int \<times> unit_identity) list \<Rightarrow> property_assignment list \<Rightarrow> int \<Rightarrow>
   (planned_resource list \<times> resource_failure list) resource_op" where
  "planUser env cfg sample us ioAssignments uid =
     (let missing = (\<lambda>resource. if \<not> desires cfg sample resource uid then retR []
            else bindR (writeR (recordCycleResourceAuthority uid resource (splitAuthority resource))) (\<lambda>_.
                 recordMissingSystemdResourceAuthority uid resource))
      in case map_of us uid of
           None \<Rightarrow> bindR (missing ResourceMemory) (\<lambda>e1. bindR (missing ResourceIO) (\<lambda>e2. retR ([], e1 @ e2)))
         | Some identity \<Rightarrow>
             let memory = (if \<not> desires cfg sample ResourceMemory uid then ([], [])
                   else (case systemdMemoryAssignments env cfg of
                       Inl e \<Rightarrow> ([], failAt uid (Some ResourceMemory) ''plan'' e)
                     | Inr as \<Rightarrow> ([newPlanned uid identity ResourceMemory as (DisableSwap cfg)], [])));
                 io = (if \<not> desires cfg sample ResourceIO uid then [] else [newPlanned uid identity ResourceIO ioAssignments False])
             in retR (fst memory @ io, snd memory))"

definition verifiedAuthority :: "resource_authority_result \<Rightarrow> bool" where
  "verifiedAuthority r \<longleftrightarrow>
     rt_Err r = None \<and> ra_State (rt_Authority r) = ResourceCoverageComplete \<and> ra_Reason (rt_Authority r) = ResourceCoverageVerified"

text \<open>Apply the plans whose authority is complete, refuse the others.\<close>

definition mutatePlan ::
  "resource_env \<Rightarrow> planned_resource \<times> resource_authority_result \<Rightarrow> (planned_resource list \<times> resource_failure list) resource_op" where
  "mutatePlan env pr =
     (case pr of (plan, result) \<Rightarrow>
        let uid = pr_uid plan; resource = pr_resource plan in
        if \<not> verifiedAuthority result then
          bindR (writeR (recordCycleResourceAuthority uid resource (rt_Authority result))) (\<lambda>_.
          let err = (case rt_Err result of
                Some e \<Rightarrow> e
              | None \<Rightarrow> ResourceAuthorityError (of_int uid) (rt_Authority result) (Some (PlainError ''adapter did not confirm complete resource authority'')))
          in bindR (refuseSystemdResource env uid (pr_identity plan) resource (rt_Authority result) err) (\<lambda>fs. retR ([], fs)))
        else
          bindR (tryR (unitsR (failAt uid (Some resource) ''apply'') (Apply (en_bd (re_env env)) (pr_identity plan) (pr_assignments plan)))) (\<lambda>r.
            case r of
              Inl fs \<Rightarrow>
                bindR (writeR (recordCycleResourceAuthority uid resource
                  \<lparr> ra_Resource = resourceName resource, ra_State = ResourceCoverageRefused, ra_Reason = ResourceCoverageApplyFailed \<rparr>)) (\<lambda>_.
                retR ([], fs))
            | Inr _ \<Rightarrow> retR ([plan\<lparr> pr_authority := rt_Authority result \<rparr>], [])))"

text \<open>Read an applied plan back; what a later attempt can repair ends the attempt.\<close>

definition confirmPlan ::
  "resource_env \<Rightarrow> resource_failure list \<Rightarrow> planned_resource \<Rightarrow> (planned_resource list \<times> resource_failure list) resource_op" where
  "confirmPlan env errs plan =
     (let uid = pr_uid plan; resource = pr_resource plan; step = ''pre_acknowledgement_readback'' in
      bindR (tryR (unitsR (\<lambda>e. e) (ConfirmApplied (en_bd (re_env env)) (pr_identity plan) (pr_assignments plan)))) (\<lambda>r. case r of
        Inr _ \<Rightarrow> retR ([plan], [])
      | Inl e \<Rightarrow>
          if firstRetryable [e] then
            bindR (writeR invalidateCycleResourceAuthorities) (\<lambda>_. failR (errs @ failAt uid (Some resource) step e))
          else
            let unavailable = \<lparr> ra_Resource = resourceName resource, ra_State = ResourceCoverageRefused, ra_Reason = ResourceCoverageInspectionFailed \<rparr> in
            bindR (writeR (recordCycleResourceAuthority uid resource unavailable)) (\<lambda>_.
            bindR (writeR (recordSystemdResourceUnapplied uid resource unavailable)) (\<lambda>_.
            retR ([], failAt uid (Some resource) step e)))))"

text \<open>A loop that collects plans and errors; the errors so far are given to every step.\<close>

fun collectR ::
  "(resource_failure list \<Rightarrow> 'x \<Rightarrow> (planned_resource list \<times> resource_failure list) resource_op) \<Rightarrow> resource_failure list \<Rightarrow> 'x list \<Rightarrow>
   (planned_resource list \<times> resource_failure list) resource_op" where
  "collectR f errs [] = retR ([], errs)"
| "collectR f errs (x # xs) =
     bindR (f errs x) (\<lambda>(ps, es).
     bindR (collectR f (errs @ es) xs) (\<lambda>(qs, fs). retR (ps @ qs, fs)))"

definition publishPlan :: "planned_resource \<Rightarrow> systemd_manager \<Rightarrow> systemd_manager" where
  "publishPlan plan s =
     publishSystemdResource (pr_uid plan) (pr_identity plan) (pr_resource plan) (pr_swap plan) (pr_authority plan)
       (recordCycleResourceAuthority (pr_uid plan) (pr_resource plan) (pr_authority plan) s)"

definition acknowledgePlans ::
  "resource_env \<Rightarrow> topology_snapshot \<Rightarrow> resource_failure list \<Rightarrow> planned_resource list \<Rightarrow> resource_failure list resource_op" where
  "acknowledgePlans env topology errs applied =
     (if applied = [] then retR errs
      else
        bindR (collectR (confirmPlan env) errs applied) (\<lambda>(confirmed, errs2).
        bindR (tryR (unitsR (\<lambda>e. e) (ConfirmTopology (en_bd (re_env env)) topology))) (\<lambda>r. case r of
          Inl e \<Rightarrow> bindR (writeR invalidateCycleResourceAuthorities) (\<lambda>_. failR (errs2 @ failAt 0 None ''pre_acknowledgement_identity'' e))
        | Inr _ \<Rightarrow> bindR (writeR (fold publishPlan confirmed)) (\<lambda>_. retR errs2))))"

text \<open>Restore what is tracked and no longer desired.\<close>

definition restoreUndesired ::
  "resource_env \<Rightarrow> resource_config \<Rightarrow> resource_sample \<Rightarrow> int \<times> unit_identity \<Rightarrow> resource_failure list resource_op" where
  "restoreUndesired env cfg sample tracked =
     (case tracked of (uid, identity) \<Rightarrow>
        bindR (if desires cfg sample ResourceMemory uid then retR [] else errorsOf (restoreSystemdResource env uid identity ResourceMemory)) (\<lambda>e1.
        bindR (if desires cfg sample ResourceIO uid then retR [] else errorsOf (restoreSystemdResource env uid identity ResourceIO)) (\<lambda>e2.
        retR (e1 @ e2))))"

text \<open>\<^verbatim>\<open>refreshResourceLimitsActiveLocked\<close> on the whole manager.\<close>

definition refreshActive :: "gotime \<Rightarrow> systemd_manager \<Rightarrow> systemd_manager" where
  "refreshActive now s =
     (let active = list_ex (\<lambda>(uid, st). rl_ramApplied st \<or> rl_ioApplied st) (resourceLimits s);
          s1 = (if active \<and> \<not> resourceLimitsActive s then s\<lparr> resourceLimitsAppliedTime := now \<rparr> else s);
          s2 = (if \<not> active then s1\<lparr> resourceLimitsAppliedTime := None \<rparr> else s1)
      in s2\<lparr> resourceLimitsActive := active \<rparr>)"

definition checkPlans ::
  "resource_env \<Rightarrow> topology_snapshot \<Rightarrow> process_authority_inventory \<Rightarrow> planned_resource list \<Rightarrow> resource_authority_result list resource_op" where
  "checkPlans env topology inventory plans =
     (let bd = en_bd (re_env env); plain = ''inspect systemd resource authority'';
          requests = map (\<lambda>p. \<lparr> rq_Identity = pr_identity p, rq_UID = of_int (pr_uid p), rq_Resource = pr_resource p,
                               rq_Assignments = pr_assignments p \<rparr>) plans;
          invalidated = (\<lambda>fs. bindR (writeR invalidateCycleResourceAuthorities) (\<lambda>_. failR fs))
      in bindR (if plans = [] then retR (Inr []) else tryR (unitsR (\<lambda>e. e) (CheckCapturedResourceAuthorities bd inventory requests))) (\<lambda>r.
         case r of
           Inl e \<Rightarrow> invalidated [PlainResourceFailure plain [e]]
         | Inr authorities \<Rightarrow>
             if length authorities \<noteq> length plans then invalidated [PlainResourceFailure plain []]
             else bindR (tryR (unitsR (\<lambda>e. e) (ConfirmTopology bd topology))) (\<lambda>t. case t of
                 Inl e \<Rightarrow> invalidated (failAt 0 None ''pre_mutation_identity'' e)
               | Inr _ \<Rightarrow> retR authorities)))"

definition applyDesired ::
  "resource_env \<Rightarrow> resource_config \<Rightarrow> resource_sample \<Rightarrow> topology_snapshot \<Rightarrow> process_authority_inventory \<Rightarrow> unit resource_op" where
  "applyDesired env cfg sample topology inventory =
     (let us = unitsOf topology in
      bindR (if ioDesired cfg sample = [] then retR []
             else liftR (case systemdIOAssignments env cfg (f_of_int 1) of
                 Inl e \<Rightarrow> Inl (failAt 0 (Some ResourceIO) ''plan'' e) | Inr as \<Rightarrow> Inr as)) (\<lambda>ioAssignments.
      bindR (collectR (\<lambda>_. planUser env cfg sample us ioAssignments) [] (unionResourceUIDs (ramDesired cfg sample) (ioDesired cfg sample)))
        (\<lambda>(plans, errs).
      bindR (checkPlans env topology inventory plans) (\<lambda>authorities.
      bindR (collectR (\<lambda>_. mutatePlan env) errs (zip plans authorities)) (\<lambda>(applied, errs1).
      bindR (acknowledgePlans env topology errs1 applied) (\<lambda>errs2.
      bindR (readR systemdResourceUnits) (\<lambda>tracked.
      bindR (mapR (restoreUndesired env cfg sample) tracked) (\<lambda>restoreErrs.
      bindR (writeR (\<lambda>s. refreshActive (en_now (re_env env) (trace (units s)))
               (s\<lparr> systemdResourcesRequested := ramDesired cfg sample \<noteq> [] \<or> ioDesired cfg sample \<noteq> [] \<rparr>))) (\<lambda>_.
      let errors = errs2 @ concat restoreErrs in
      checkR (errors = []) errors)))))))))"

definition emptyInventory :: process_authority_inventory where
  "emptyInventory = NewProcessAuthorityInventory 0 [] False []"

definition reconcileSystemdResourcesAttempt :: "resource_env \<Rightarrow> resource_config \<Rightarrow> resource_sample \<Rightarrow> unit resource_op" where
  "reconcileSystemdResourcesAttempt env cfg sample =
     (let bd = en_bd (re_env env); uids = unionResourceUIDs (ramDesired cfg sample) (ioDesired cfg sample) in
      bindR (readR systemdUnitsInstalled) (\<lambda>installed.
      bindR (checkR installed [PlainResourceFailure ''adapter is unavailable'' []]) (\<lambda>_.
      bindR (unitsR (\<lambda>e. [PlainResourceFailure ''reconcile owned'' [e]]) (ReconcileOwned bd)) (\<lambda>errors.
      bindR (checkR (errors = []) [PlainResourceFailure ''reconcile owned'' errors]) (\<lambda>_.
      bindR (unitsR (\<lambda>e. [PlainResourceFailure ''discover systemd resource topology'' [e]]) (Discover bd)) (\<lambda>topology.
      bindR (writeR (pruneReleasedSystemdResourceState (unitsOf topology))) (\<lambda>_.
        if uids = [] then applyDesired env cfg sample topology emptyInventory
        else (case processAuthorityInventoryForSample sample of
            Inr inventory \<Rightarrow> applyDesired env cfg sample topology inventory
          | Inl (reason, discoveryFailed, err) \<Rightarrow>
              if discoveryFailed then
                bindR (writeR invalidateCycleResourceAuthorities) (\<lambda>_. failR (failAt 0 None ''sample_discovery'' err))
              else
                bindR (mapR (refuseDesired env cfg sample (unitsOf topology) reason err)
                         (concat (map (\<lambda>uid. [(uid, ResourceMemory), (uid, ResourceIO)]) uids))) (\<lambda>fs.
                checkR (concat fs = []) (concat fs))))))))))"

text \<open>At most two attempts, as for the CPU.\<close>

fun reconcileResourceAttempts :: "nat \<Rightarrow> resource_env \<Rightarrow> resource_config \<Rightarrow> resource_sample \<Rightarrow> unit resource_op" where
  "reconcileResourceAttempts n env cfg sample =
     bindR (writeR (resetCycleResourceAuthorities cfg sample)) (\<lambda>_.
     bindR (tryR (reconcileSystemdResourcesAttempt env cfg sample)) (\<lambda>r. case r of
       Inr _ \<Rightarrow> retR ()
     | Inl fs \<Rightarrow>
         bindR (readR (\<lambda>s. en_done (re_env env) (trace (units s)))) (\<lambda>cancelled.
           if cancelled \<or> \<not> retryableFailures fs then failR fs
           else (case n of 0 \<Rightarrow> failR fs | Suc k \<Rightarrow> reconcileResourceAttempts k env cfg sample))))"

declare reconcileResourceAttempts.simps [simp del]

definition reconcileSystemdResources :: "resource_env \<Rightarrow> resource_config \<Rightarrow> resource_sample \<Rightarrow> unit resource_op" where
  "reconcileSystemdResources env cfg sample =
     bindR (writeR (\<lambda>s. s\<lparr> systemdRAMAuthority := [], systemdIOAuthority := [] \<rparr>)) (\<lambda>_.
     reconcileResourceAttempts 1 env cfg sample)"

definition restoreAllSystemdResourceProperties :: "resource_env \<Rightarrow> unit resource_op" where
  "restoreAllSystemdResourceProperties env =
     bindR (readR systemdResourceUnits) (\<lambda>tracked.
     bindR (mapR (\<lambda>(uid, identity).
              bindR (errorsOf (restoreSystemdResource env uid identity ResourceMemory)) (\<lambda>e1.
              bindR (errorsOf (restoreSystemdResource env uid identity ResourceIO)) (\<lambda>e2. retR (e1 @ e2)))) tracked) (\<lambda>errs.
     if concat errs \<noteq> [] then failR (concat errs)
     else writeR (\<lambda>s. refreshActive (en_now (re_env env) (trace (units s))) (s\<lparr> systemdResourcesRequested := False \<rparr>))))"

text \<open>The activation of both back ends; a failure of one does not stop the other.\<close>

datatype enforcement_failure = CPUFailure "string \<times> reconcile_failure" | ResourceFailures "resource_failure list"

definition asEnforcement :: "('e \<Rightarrow> enforcement_failure) \<Rightarrow> (systemd_manager, 'e, unit) op \<Rightarrow> (systemd_manager, enforcement_failure list, enforcement_failure list) op" where
  "asEnforcement wrap oper = bindR (tryR oper) (\<lambda>r. retR (case r of Inl e \<Rightarrow> [wrap e] | Inr _ \<Rightarrow> []))"

definition activateSystemdEnforcement ::
  "resource_env \<Rightarrow> resource_config \<Rightarrow> system_metrics \<Rightarrow> resource_sample \<Rightarrow> (systemd_manager, enforcement_failure list, unit) op" where
  "activateSystemdEnforcement env cfg metrics sample =
     (let cpu = (CPUEligibleUsers metrics \<noteq> []);
          resources = (RAMEnabled cfg \<and> rs_RAMEligibleUsers sample \<noteq> [] \<or> IOEnabled cfg \<and> rs_IOEligibleUsers sample \<noteq> []) in
      bindR (writeR (\<lambda>s. s\<lparr> systemdCPURequested := cpu, systemdResourcesRequested := resources \<rparr>)) (\<lambda>_.
      bindR (if cpu then bindR (readR cpuPointsPolicy) (\<lambda>policy. asEnforcement CPUFailure (reconcileSystemdCPUPoints (re_env env) policy))
             else asEnforcement CPUFailure (stepR [] (restoreSystemdCPUProperties (re_env env)))) (\<lambda>e1.
      bindR (asEnforcement ResourceFailures (if resources then reconcileSystemdResources env cfg sample
                                             else restoreAllSystemdResourceProperties env)) (\<lambda>e2.
      checkR (e1 @ e2 = []) (e1 @ e2)))))"

end
