(* ===== verification/Resource_Laws.thy ===== *)
theory Resource_Laws
  imports Resource_Reconcile
begin

text \<open>
  The laws of the memory and I/O back end, and those of the manager as a whole: the write-ahead rule in
  every history of both back ends, the record of every applied limit, the authority behind a limit,
  the bounds of the memory limits, and a limit that is forgotten.
\<close>

section \<open>The adapter as the whole manager uses it\<close>

lemma emits_checkRequest: "emits looks (checkRequest bd inventory request)"
  unfolding checkRequest_def checkObserved_def preflightResource_def Let_def
  by (auto split: sum.splits intro!: emits_rules emits_looks)

lemma emits_check: "emits looks (CheckCapturedResourceAuthorities bd inventory requests)"
  unfolding CheckCapturedResourceAuthorities_def by (intro emits_rules emits_looks emits_checkRequest)

locale resource_state = manager_state +
  assumes check_law: "K s \<Longrightarrow> K (s\<lparr> units := snd (CheckCapturedResourceAuthorities bd inventory requests (units s)) \<rparr>)"
    and clear_law: "K s \<Longrightarrow> K (clearSystemdResource uid resource s)"
    and authority_law: "K s \<Longrightarrow> K (recordSystemdResourceAuthority uid resource authority s)"
    and unapplied_law: "K s \<Longrightarrow> K (recordSystemdResourceUnapplied uid resource authority s)"
    and applied_law: "K s \<Longrightarrow> K (publishSystemdResource uid identity resource swap authority s)"
    and prune_law: "K s \<Longrightarrow> K (pruneReleasedSystemdResourceState us s)"
    and active_law: "K s \<Longrightarrow> K (refreshActive now s)"
    and requested_law: "K s \<Longrightarrow> K (s\<lparr> systemdResourcesRequested := b \<rparr>)"
    and sample_law: "K s \<Longrightarrow> K (s\<lparr> systemdRAMAuthority := ra, systemdIOAuthority := ia \<rparr>)"
begin

lemma cycle_law: "K s \<Longrightarrow> K (recordCycleResourceAuthority uid resource authority s)"
  using sample_law [where ra = "systemdRAMAuthority s" and ia = "AList.update uid (Some authority) (systemdIOAuthority s)", of s]
    sample_law [where ra = "AList.update uid (Some authority) (systemdRAMAuthority s)" and ia = "systemdIOAuthority s", of s]
  by (simp add: recordCycleResourceAuthority_def)

lemma invalidate_law: "K s \<Longrightarrow> K (invalidateCycleResourceAuthorities s)"
  unfolding invalidateCycleResourceAuthorities_def by (rule sample_law)

lemma reset_law: "K s \<Longrightarrow> K (resetCycleResourceAuthorities cfg sample s)"
  unfolding resetCycleResourceAuthorities_def by (rule sample_law)

lemma plans_law: "K s \<Longrightarrow> K (fold publishPlan plans s)"
  by (induction plans arbitrary: s) (auto simp: publishPlan_def intro: applied_law cycle_law)

lemma settle_law: "K s \<Longrightarrow> K (refreshActive (now s) (s\<lparr> systemdResourcesRequested := b \<rparr>))"
  by (intro active_law requested_law)

lemma requests_law: "K s \<Longrightarrow> K (s\<lparr> systemdCPURequested := b, systemdResourcesRequested := d \<rparr>)"
  using requested_law [OF request_law] .

lemmas resource_rules = client_rules unitsR_keeps [OF check_law]
  writeR_keeps [OF clear_law] writeR_keeps [OF authority_law] writeR_keeps [OF unapplied_law] writeR_keeps [OF prune_law]
  writeR_keeps [OF cycle_law] writeR_keeps [OF invalidate_law] writeR_keeps [OF reset_law] writeR_keeps [OF plans_law]
  writeR_keeps [OF settle_law] writeR_keeps [OF sample_law] writeR_keeps [OF requests_law]

lemma restoreResource_keeps:
  assumes "en_bd (re_env env) = bd"
  shows "keeps K (restoreSystemdResource env uid identity resource)"
  unfolding restoreSystemdResource_def assms
  by (intro resource_rules)

lemma errorsOf_keeps: "keeps K oper \<Longrightarrow> keeps K (errorsOf oper)"
  unfolding errorsOf_def by (intro resource_rules)

lemma refuse_keeps: "en_bd (re_env env) = bd \<Longrightarrow> keeps K (refuseSystemdResource env uid identity resource authority e)"
  unfolding refuseSystemdResource_def by (intro resource_rules errorsOf_keeps restoreResource_keeps)

lemma collect_keeps: "(\<And>errs x. keeps K (f errs x)) \<Longrightarrow> keeps K (collectR f errs xs)"
  by (induction xs arbitrary: errs) (auto intro!: resource_rules)

lemma refuseDesired_keeps: "en_bd (re_env env) = bd \<Longrightarrow> keeps K (refuseDesired env cfg sample us reason err wanted)"
  unfolding refuseDesired_def Let_def by (intro resource_rules refuse_keeps)

lemma planUser_keeps: "keeps K (planUser env cfg sample us as uid)"
  unfolding planUser_def recordMissingSystemdResourceAuthority_def Let_def by (intro resource_rules)

lemma mutatePlan_keeps:
  assumes "en_bd (re_env env) = bd"
  shows "keeps K (mutatePlan env pr)"
  unfolding mutatePlan_def Let_def assms by (intro resource_rules refuse_keeps assms)

lemma confirmPlan_keeps:
  assumes "en_bd (re_env env) = bd"
  shows "keeps K (confirmPlan env errs plan)"
  unfolding confirmPlan_def Let_def assms by (intro resource_rules)

lemma acknowledge_keeps:
  assumes "en_bd (re_env env) = bd"
  shows "keeps K (acknowledgePlans env topology errs applied)"
  unfolding acknowledgePlans_def assms by (intro resource_rules collect_keeps confirmPlan_keeps assms)

lemma undesired_keeps: "en_bd (re_env env) = bd \<Longrightarrow> keeps K (restoreUndesired env cfg sample tracked)"
  unfolding restoreUndesired_def by (intro resource_rules errorsOf_keeps restoreResource_keeps)

lemma checkPlans_keeps:
  assumes "en_bd (re_env env) = bd"
  shows "keeps K (checkPlans env topology inventory plans)"
  unfolding checkPlans_def Let_def assms by (intro resource_rules)

lemma applyDesired_keeps: "en_bd (re_env env) = bd \<Longrightarrow> keeps K (applyDesired env cfg sample topology inventory)"
  unfolding applyDesired_def Let_def
  by (intro resource_rules collect_keeps planUser_keeps mutatePlan_keeps acknowledge_keeps undesired_keeps checkPlans_keeps)

lemma resourceAttempt_keeps:
  assumes "en_bd (re_env env) = bd"
  shows "keeps K (reconcileSystemdResourcesAttempt env cfg sample)"
proof -
  have inventory: "keeps K (case r of Inl (reason, failed, err) \<Rightarrow> f reason failed err | Inr found \<Rightarrow> g found)"
    if "\<And>reason failed err. keeps K (f reason failed err)" "\<And>found. keeps K (g found)"
    for r :: "(string \<times> bool \<times> adapter_error) + process_authority_inventory" and f :: "string \<Rightarrow> bool \<Rightarrow> adapter_error \<Rightarrow> unit resource_op" and g
    using that by (auto split: sum.splits)
  show ?thesis
    unfolding reconcileSystemdResourcesAttempt_def Let_def assms
    by (intro inventory resource_rules applyDesired_keeps refuseDesired_keeps assms)
qed

lemma resourceAttempts_keeps:
  assumes "en_bd (re_env env) = bd"
  shows "keeps K (reconcileResourceAttempts n env cfg sample)"
proof (induction n)
  case 0
  show ?case unfolding reconcileResourceAttempts.simps [of 0] nat.case
    by (intro resource_rules resourceAttempt_keeps assms)
next
  case (Suc n)
  show ?case unfolding reconcileResourceAttempts.simps [of "Suc n"] nat.case
    by (intro resource_rules resourceAttempt_keeps assms Suc.IH)
qed

lemma restoreAllResources_keeps: "en_bd (re_env env) = bd \<Longrightarrow> keeps K (restoreAllSystemdResourceProperties env)"
  unfolding restoreAllSystemdResourceProperties_def
  by (intro resource_rules errorsOf_keeps restoreResource_keeps)

lemma resources_keeps: "en_bd (re_env env) = bd \<Longrightarrow> keeps K (reconcileSystemdResources env cfg sample)"
  unfolding reconcileSystemdResources_def by (intro resource_rules resourceAttempts_keeps)

lemma enforcement_keeps: "en_bd (re_env env) = bd \<Longrightarrow> keeps K (activateSystemdEnforcement env cfg metrics sample)"
  unfolding activateSystemdEnforcement_def asEnforcement_def reconcileSystemdResources_def reconcileSystemdCPUPoints_def Let_def
  by (intro resource_rules resourceAttempts_keeps restoreAllResources_keeps restoreCPU_keeps attempts_keeps)

end

text \<open>The updates of the records leave the adapter alone.\<close>

lemma record_units [simp]:
  "units (clearSystemdResource uid resource s) = units s" "units (recordSystemdResourceAuthority uid resource authority s) = units s"
  "units (recordSystemdResourceUnapplied uid resource authority s) = units s"
  "units (publishSystemdResource uid identity resource swap authority s) = units s" "units (refreshActive now s) = units s"
  by (simp_all add: clearSystemdResource_def recordSystemdResourceAuthority_def recordSystemdResourceUnapplied_def
      publishSystemdResource_def refreshActive_def forgetUser_def setLimitState_def Let_def)

lemma prune_units [simp]: "units (pruneReleasedSystemdResourceState us s) = units s"
proof -
  have "units (fold (pruneUser us) os s) = units s" for os s
    by (induction os arbitrary: s) (auto simp: pruneUser_def forgetUser_def setLimitState_def Let_def)
  then show ?thesis by (simp add: pruneReleasedSystemdResourceState_def)
qed

locale resource_adapter = unit_adapter +
  assumes check_unit: "keeps I (CheckCapturedResourceAuthorities bd inventory requests)"

sublocale resource_adapter \<subseteq> resource_state bd "\<lambda>s. I (units s)"
  by unfold_locales (simp_all add: keeps_run [OF check_unit])

interpretation writes_ahead: resource_adapter bd adapter_inv for bd
  by unfold_locales (rule look [OF emits_check looksKeep_inv])

section \<open>Every history of the manager\<close>

text \<open>The operations of the manager's back ends, and a history of them; a restart makes the manager and the adapter anew.\<close>

datatype manager_call =
    ManagerActivate system_metrics
  | ManagerReconcilePolicy policy_snapshot policy_snapshot
  | ManagerPublishPolicy policy_snapshot
  | ManagerEnforce resource_config system_metrics resource_sample
  | ManagerReconcileResources resource_config resource_sample
  | ManagerRestoreResources
  | ManagerRestoreCPU
  | ManagerRestoreAll
  | ManagerRestart

fun runManager :: "resource_env \<Rightarrow> systemd_manager \<Rightarrow> manager_call \<Rightarrow> systemd_manager \<Rightarrow> systemd_manager" where
  "runManager env s0 (ManagerActivate metrics) s = snd (activateSystemdCPUPoints (re_env env) metrics s)"
| "runManager env s0 (ManagerReconcilePolicy candidate fallback) s = snd (reconcileCPUPointsPolicyLocked (re_env env) candidate fallback s)"
| "runManager env s0 (ManagerPublishPolicy candidate) s = PublishCPUPointsPolicy candidate s"
| "runManager env s0 (ManagerEnforce cfg metrics sample) s = snd (activateSystemdEnforcement env cfg metrics sample s)"
| "runManager env s0 (ManagerReconcileResources cfg sample) s = snd (reconcileSystemdResources env cfg sample s)"
| "runManager env s0 ManagerRestoreResources s = snd (restoreAllSystemdResourceProperties env s)"
| "runManager env s0 ManagerRestoreCPU s = snd (restoreSystemdCPUProperties (re_env env) s)"
| "runManager env s0 ManagerRestoreAll s = snd (restoreSystemdCPUPoints (re_env env) s)"
| "runManager env s0 ManagerRestart s =
     (case WithSystemdCPUEnforcement (Some (snd (newAdapter (en_bd (re_env env)) (units s)))) s0 of Some s' \<Rightarrow> s' | None \<Rightarrow> s)"

lemma adoptLeases_units [simp]: "units (fold (adoptLease i) ls s) = units s"
  by (induction ls arbitrary: s) (auto simp: adoptLease_def Let_def split: option.splits)

lemma adoptUnits_units [simp]: "units (fold (\<lambda>i. fold (adoptLease i) (ls i)) is s) = units s"
  by (induction "is" arbitrary: s) simp_all

lemma runManager_inv: "adapter_inv (units s) \<Longrightarrow> adapter_inv (units (runManager env s0 c s))"
  by (cases c)
    (simp_all add: keeps_run [OF written_ahead.activate_keeps] keeps_run [OF written_ahead.policy_keeps]
      keeps_run [OF written_ahead.restoreCPU_keeps] keeps_run [OF written_ahead.restoreAll_keeps] keeps_run [OF writes_ahead.enforcement_keeps]
      keeps_run [OF writes_ahead.resources_keeps] keeps_run [OF writes_ahead.restoreAllResources_keeps] PublishCPUPointsPolicy_def
      WithSystemdCPUEnforcement_def keeps_run [OF newAdapter_keeps])

lemma runManagers_inv: "adapter_inv (units s) \<Longrightarrow> adapter_inv (units (fold (runManager env s0) cs s))"
  by (induction cs arbitrary: s) (simp_all add: runManager_inv)


section \<open>Every applied limit is on record\<close>

text \<open>
  A user with an applied memory or I/O limit is tracked with the slice the limit is on: it is from the
  tracked slices that limits are withdrawn.
\<close>

definition appliedTracked :: "systemd_manager \<Rightarrow> bool" where
  "appliedTracked s \<longleftrightarrow>
     (\<forall>uid. rl_ramApplied (limitState s uid) \<or> rl_ioApplied (limitState s uid) \<longrightarrow> uid \<in> dom (map_of (systemdResourceUnits s)))"

lemma limitState_updates [simp]:
  "limitState (setLimitState uid st s) v = (if v = uid then st else limitState s v)"
  "limitState (forgetUser uid s) v = (if v = uid then zeroResourceLimit else limitState s v)"
  "systemdResourceUnits (setLimitState uid st s) = systemdResourceUnits s"
  "map_of (systemdResourceUnits (forgetUser uid s)) v = (if v = uid then None else map_of (systemdResourceUnits s) v)"
  by (simp_all add: limitState_def setLimitState_def forgetUser_def update_conv' delete_conv')

lemma zero_not_applied [simp]: "\<not> rl_ramApplied zeroResourceLimit" "\<not> rl_ioApplied zeroResourceLimit"
  by (simp_all add: zeroResourceLimit_def Let_def)

lemma tracked_frame:
  "appliedTracked s \<Longrightarrow> resourceLimits s' = resourceLimits s \<Longrightarrow> systemdResourceUnits s' = systemdResourceUnits s \<Longrightarrow> appliedTracked s'"
  by (simp add: appliedTracked_def limitState_def)

text \<open>Weakening one user's record keeps the invariant, and so does forgetting a user.\<close>

lemma tracked_weaken:
  assumes "appliedTracked s" "rl_ramApplied st \<longrightarrow> rl_ramApplied (limitState s uid)" "rl_ioApplied st \<longrightarrow> rl_ioApplied (limitState s uid)"
  shows "appliedTracked (setLimitState uid st s)"
  using assms unfolding appliedTracked_def dom_def by (auto split: if_splits)

lemma tracked_forget: "appliedTracked s \<Longrightarrow> appliedTracked (forgetUser uid s)"
  unfolding appliedTracked_def dom_def by (auto split: if_splits)

lemma prune_tracked: "appliedTracked s \<Longrightarrow> appliedTracked (pruneReleasedSystemdResourceState us s)"
proof -
  have "appliedTracked s \<Longrightarrow> appliedTracked (fold (pruneUser us) os s)" for os s
    by (induction os arbitrary: s) (auto simp: pruneUser_def Let_def tracked_weaken tracked_forget split: prod.splits)
  then show "appliedTracked s \<Longrightarrow> ?thesis" by (simp add: pruneReleasedSystemdResourceState_def)
qed

lemma publish_tracked: "appliedTracked s \<Longrightarrow> appliedTracked (publishSystemdResource uid identity resource swap authority s)"
  by (simp add: publishSystemdResource_def appliedTracked_def Let_def update_conv' dom_def)
    (auto simp: limitState_def setLimitState_def update_conv' split: if_splits)

lemma recordCPU_frame:
  "resourceLimits (recordCPUTransitions a d s) = resourceLimits s" "systemdResourceUnits (recordCPUTransitions a d s) = systemdResourceUnits s"
  by (simp_all add: recordCPUTransitions_def Let_def)

lemma publishPlan_frame:
  "resourceLimits (publishSystemdCPUPointsPlan now parent us plan s) = resourceLimits s \<and>
   systemdResourceUnits (publishSystemdCPUPointsPlan now parent us plan s) = systemdResourceUnits s"
proof -
  have "resourceLimits (fold (publishSlice now prev) sls s) = resourceLimits s \<and>
    systemdResourceUnits (fold (publishSlice now prev) sls s) = systemdResourceUnits s" for prev sls s
    by (induction sls arbitrary: s) (auto simp: publishSlice_def Let_def)
  then show ?thesis by (simp add: publishSystemdCPUPointsPlan_def recordCPU_frame Let_def)
qed

interpretation applied: resource_state bd appliedTracked for bd
proof unfold_locales
  fix s assume s: "appliedTracked s"
  show "appliedTracked (clearSystemdResource uid resource s)" "appliedTracked (recordSystemdResourceAuthority uid resource authority s)"
    "appliedTracked (recordSystemdResourceUnapplied uid resource authority s)" for uid resource authority
    using s by (auto simp: clearSystemdResource_def recordSystemdResourceAuthority_def recordSystemdResourceUnapplied_def
        clearedLimitState_def Let_def intro!: tracked_weaken tracked_forget)
  show "appliedTracked (releaseAll s)" by (simp add: releaseAll_def appliedTracked_def limitState_def recordCPU_frame)
  show "appliedTracked (releaseCPU s)" by (rule tracked_frame [OF s]) (simp_all add: releaseCPU_def recordCPU_frame)
  show "appliedTracked (refreshActive now s)" for now by (rule tracked_frame [OF s]) (simp_all add: refreshActive_def Let_def)
  show "appliedTracked (publishSystemdCPUPointsPlan now parent us plan s)" for now parent us plan
    by (rule tracked_frame [OF s]) (simp_all add: publishPlan_frame)
qed (simp_all add: prune_tracked publish_tracked, (erule tracked_frame; simp)+)


lemma adoptLease_tracked: "appliedTracked s \<Longrightarrow> appliedTracked (adoptLease i l s)"
  unfolding appliedTracked_def limitState_def dom_def
  by (auto simp: adoptLease_def Let_def update_conv' split: option.splits)

lemma adoptLeases_tracked: "appliedTracked s \<Longrightarrow> appliedTracked (fold (adoptLease i) ls s)"
  by (induction ls arbitrary: s) (simp_all add: adoptLease_tracked)

lemma adoptUnits_tracked: "appliedTracked s \<Longrightarrow> appliedTracked (fold (\<lambda>i. fold (adoptLease i) (ls i)) is s)"
  by (induction "is" arbitrary: s) (simp_all add: adoptLeases_tracked)

lemma runManager_tracked:
  assumes "appliedTracked s0" "appliedTracked s"
  shows "appliedTracked (runManager env s0 c s)"
proof (cases c)
  case (ManagerPublishPolicy candidate)
  then show ?thesis using tracked_frame [OF assms(2)] by (simp add: PublishCPUPointsPolicy_def)
next
  case ManagerRestart
  have "appliedTracked (s0\<lparr> systemdUnitsInstalled := True, units := m, enforcementStatus := st \<rparr>)" for m st
    by (rule tracked_frame [OF assms(1)]) simp_all
  then show ?thesis using ManagerRestart by (simp add: WithSystemdCPUEnforcement_def adoptUnits_tracked)
qed (simp_all add: assms keeps_run [OF applied.activate_keeps [OF refl]] keeps_run [OF applied.policy_keeps [OF refl]]
    keeps_run [OF applied.restoreCPU_keeps [OF refl]] keeps_run [OF applied.restoreAll_keeps [OF refl]]
    keeps_run [OF applied.enforcement_keeps [OF refl]] keeps_run [OF applied.resources_keeps [OF refl]]
    keeps_run [OF applied.restoreAllResources_keeps [OF refl]])

text \<open>
  Property C25: in every history of activations, policy changes, memory and I/O reconciliations, releases and
  restarts of a manager that starts without records, every user the manager reports a memory or I/O limit for is
  tracked with a slice: a withdrawal of all resource limits, which goes through the tracked slices, misses no limit
  that is on record.
\<close>

theorem applied_limits_tracked:
  "appliedTracked (fold (runManager env (s0\<lparr> resourceLimits := [] \<rparr>)) cs (s0\<lparr> resourceLimits := [] \<rparr>))"
proof -
  let ?s0 = "s0\<lparr> resourceLimits := [] \<rparr>"
  have start: "appliedTracked ?s0" by (simp add: appliedTracked_def limitState_def)
  have "appliedTracked s \<Longrightarrow> appliedTracked (fold (runManager env ?s0) cs s)" for s
    by (induction cs arbitrary: s) (simp_all add: runManager_tracked [OF start])
  then show ?thesis using start .
qed

section \<open>A limit that is forgotten\<close>

lemma restoreAll_untracked: "restoreAllSystemdResourceProperties env s =
    (Inr (), refreshActive (en_now (re_env env) (trace (units s))) (s\<lparr> systemdResourcesRequested := False \<rparr>))"
  if "systemdResourceUnits s = []"
  using that by (simp add: restoreAllSystemdResourceProperties_def op_defs)

text \<open>
  The converse does not hold: a limit that systemd has taken and whose read-back fails for good is on nobody's
  record. When it was the first limit, the withdrawal of all resource limits succeeds without a call to systemd,
  and the limit stays in force.
\<close>

theorem unconfirmed_limit_forgotten:
  assumes "ConfirmApplied (en_bd (re_env env)) (pr_identity plan) (pr_assignments plan) (units s) = (Inl e, m)"
    and "\<not> firstRetryable [e]" and "systemdResourceUnits s = []"
  shows "\<exists>s'. restoreAllSystemdResourceProperties env (snd (confirmPlan env errs plan s)) = (Inr (), s') \<and> units s' = m"
proof -
  have "snd (confirmPlan env errs plan s) = recordSystemdResourceUnapplied (pr_uid plan) (pr_resource plan) a
      (recordCycleResourceAuthority (pr_uid plan) (pr_resource plan) a (s\<lparr> units := m \<rparr>))"
    if "a = \<lparr> ra_Resource = resourceName (pr_resource plan), ra_State = ResourceCoverageRefused, ra_Reason = ResourceCoverageInspectionFailed \<rparr>" for a
    using assms(1,2) that by (simp add: confirmPlan_def unitsR_def op_defs Let_def)
  moreover have "systemdResourceUnits (recordSystemdResourceUnapplied u r a (recordCycleResourceAuthority u r a (s\<lparr> units := m \<rparr>))) = []"
    "units (recordSystemdResourceUnapplied u r a (recordCycleResourceAuthority u r a (s\<lparr> units := m \<rparr>))) = m" for u r a
    using assms(3) by (simp_all add: recordSystemdResourceUnapplied_def recordCycleResourceAuthority_def setLimitState_def Let_def)
  ultimately show ?thesis by (simp add: restoreAll_untracked)
qed

end
