(* ===== verification/Resource_Plans.thy ===== *)
theory Resource_Plans
  imports Resource_Reconcile
begin

text \<open>
  The memory and I/O plans of \<^verbatim>\<open>src/state/systemd_resources.go\<close>: every plan is one the adapter accepts, and
  the memory limits are whole pages in their order.
\<close>

section \<open>Plans the adapter accepts\<close>

lemma mapRes_Inr: "mapRes f xs = Inr ys \<Longrightarrow> list_all2 (\<lambda>x y. f x = Inr y) xs ys"
  by (induction xs arbitrary: ys) (auto simp: list_all2_Cons1 split: sum.splits)

lemma checkAssignments_ok:
  "\<forall>a \<in> set as. checkAssignment a = None \<Longrightarrow> distinct (map pa_name as) \<Longrightarrow> set seen \<inter> set (map pa_name as) = {} \<Longrightarrow>
   checkAssignments seen as = None"
  by (induction as arbitrary: seen) auto

text \<open>An assignment made by a constructor is its own clone and passes the check of a call.\<close>

definition acceptable :: "property_assignment \<Rightarrow> bool" where
  "acceptable a \<longleftrightarrow> clonePropertyAssignment a = a \<and> checkAssignment a = None"

lemma scalar_acceptable: "NewPropertyAssignment p v = Inr a \<Longrightarrow> acceptable a \<and> pa_name a = p \<and> pa_value a = scalarPropertyValue v"
proof -
  assume made: "NewPropertyAssignment p v = Inr a"
  then have "p \<in> set approvedScalarProperties" by (simp add: NewPropertyAssignment_def split: if_splits)
  then have "\<not> isDeviceProperty p" "isApprovedProperty p"
    by (auto simp: isDeviceProperty_def isApprovedProperty_def approvedScalarProperties_def approvedDeviceProperties_def property_names)
  then show ?thesis using made
    by (auto simp: NewPropertyAssignment_def acceptable_def clonePropertyAssignment_def clonePropertyValue_def checkAssignment_def
        scalarPropertyValue_def split: if_splits)
qed

lemma device_acceptable: "NewDevicePropertyAssignment p vs = Inr a \<Longrightarrow> acceptable a \<and> pa_name a = p"
  by (auto simp: NewDevicePropertyAssignment_def acceptable_def clonePropertyAssignment_def clonePropertyValue_def checkAssignment_def
      isApprovedProperty_def isDeviceProperty_def devicePropertyValue_def validateIODeviceWeightAssignment_def Let_def split: if_splits)

lemma validate_acceptable:
  assumes "as \<noteq> []" "\<forall>a \<in> set as. acceptable a" "distinct (map pa_name as)" "set (map pa_name as) \<subseteq> set allowed"
    and "resourceProperties r = Some allowed" "length as \<le> 12"
  shows "validateResourceAssignments r as = Inr (sort_key pa_name as)"
proof -
  have "map clonePropertyAssignment as = as" using assms(2) by (simp add: acceptable_def map_idI)
  moreover have "checkAssignments [] as = None" using assms by (auto intro!: checkAssignments_ok simp: acceptable_def)
  ultimately have "validateAssignments as = Inr (sort_key pa_name as)"
    using assms(1,6) by (simp add: validateAssignments_def approvedScalarProperties_def approvedDeviceProperties_def Let_def)
  moreover have "find (\<lambda>a. pa_name a \<notin> set allowed) (sort_key pa_name as) = None" using assms(4) by (auto simp: find_None_iff)
  ultimately show ?thesis by (simp add: validateResourceAssignments_def assms(5))
qed

lemma newAssignments_shape:
  assumes "newAssignments vs = Inr as"
  shows "map (\<lambda>a. (pa_name a, pv_scalar (pa_value a))) as = vs" and "\<forall>a \<in> set as. acceptable a"
proof -
  have "list_all2 (\<lambda>x y. acceptable y \<and> (pa_name y, pv_scalar (pa_value y)) = x) vs as"
    using assms by (auto simp: newAssignments_def scalarPropertyValue_def dest!: scalar_acceptable mapRes_Inr elim!: list_all2_mono)
  then show "map (\<lambda>a. (pa_name a, pv_scalar (pa_value a))) as = vs" "\<forall>a \<in> set as. acceptable a"
    by (induction rule: list_all2_induct) auto
qed

lemma memory_shape:
  assumes "systemdMemoryAssignments env cfg = Inr as"
  obtains quota where "ParseByteQuota (RAMQuotaPerUser cfg) = Inr quota" "quota - quota mod re_pageSize env \<noteq> 0"
    "newAssignments (memoryValues cfg
       (let high = uint64OfFloat (re_outside env) (f_mul (f_of_u64 quota) (GetRAMHighRatio cfg)) in high - high mod re_pageSize env)
       (quota - quota mod re_pageSize env)) = Inr as"
  using assms by (auto simp: systemdMemoryAssignments_def Let_def split: sum.splits if_splits)

lemma memory_accepted:
  assumes "systemdMemoryAssignments env cfg = Inr as"
  shows "\<exists>bs. validateResourceAssignments ResourceMemory as = Inr bs"
proof -
  obtain high max where made: "newAssignments (memoryValues cfg high max) = Inr as" using assms by (rule memory_shape)
  have "map pa_name as = map fst (memoryValues cfg high max)" unfolding newAssignments_shape(1) [OF made, symmetric] by (simp add: comp_def)
  moreover have "length as = length (memoryValues cfg high max)" unfolding newAssignments_shape(1) [OF made, symmetric] by simp
  moreover have "length as \<noteq> 0 \<longrightarrow> as \<noteq> []" by auto
  ultimately have "validateResourceAssignments ResourceMemory as = Inr (sort_key pa_name as)"
    using newAssignments_shape(2) [OF made]
    by (intro validate_acceptable [where allowed = "[PropertyMemoryHigh, PropertyMemoryMax, PropertyMemorySwapMax]"])
      (auto simp: memoryValues_def resourceProperties_def property_names split: if_splits)
  then show ?thesis ..
qed

lemma bandwidth_shape: "bandwidthLimit env multiplier (p, v) = Inr ls \<Longrightarrow> map fst ls = [] \<or> map fst ls = [p]"
  by (auto simp: bandwidthLimit_def Let_def split: if_splits sum.splits)

lemma iops_shape: "map fst (iopsLimit env multiplier (p, v)) = [] \<or> map fst (iopsLimit env multiplier (p, v)) = [p]"
  by (simp add: iopsLimit_def)

lemma io_shape:
  assumes "systemdIOAssignments env cfg multiplier = Inr as"
  obtains devices limits where "limits \<noteq> []" "mapRes (deviceAssignment devices) limits = Inr as" "length limits \<le> 4" "distinct (map fst limits)"
    "set (map fst limits) \<subseteq> {PropertyIOReadBandwidthMax, PropertyIOWriteBandwidthMax, PropertyIOReadIOPSMax, PropertyIOWriteIOPSMax}"
proof -
  obtain devices r w where parts: "bandwidthLimit env multiplier (PropertyIOReadBandwidthMax, IOReadBPS cfg) = Inr r"
      "bandwidthLimit env multiplier (PropertyIOWriteBandwidthMax, IOWriteBPS cfg) = Inr w" and
    made: "r @ w @ iopsLimit env multiplier (PropertyIOReadIOPSMax, IOReadIOPS cfg) @ iopsLimit env multiplier (PropertyIOWriteIOPSMax, IOWriteIOPS cfg) \<noteq> []"
      "mapRes (deviceAssignment devices) (r @ w @ iopsLimit env multiplier (PropertyIOReadIOPSMax, IOReadIOPS cfg) @
        iopsLimit env multiplier (PropertyIOWriteIOPSMax, IOWriteIOPS cfg)) = Inr as" (is "mapRes _ ?ls = _")
    using assms by (auto simp: systemdIOAssignments_def Let_def split: sum.splits if_splits)
  have names: "distinct (map fst ?ls)" "length (map fst ?ls) \<le> 4"
    "set (map fst ?ls) \<subseteq> {PropertyIOReadBandwidthMax, PropertyIOWriteBandwidthMax, PropertyIOReadIOPSMax, PropertyIOWriteIOPSMax}"
    unfolding map_append
    using bandwidth_shape [OF parts(1)] bandwidth_shape [OF parts(2)]
      iops_shape [of env multiplier PropertyIOReadIOPSMax "IOReadIOPS cfg"] iops_shape [of env multiplier PropertyIOWriteIOPSMax "IOWriteIOPS cfg"]
    by (elim disjE; simp add: property_names)+
  show ?thesis by (rule that [OF made]) (use names in simp_all)
qed

lemma io_accepted:
  assumes "systemdIOAssignments env cfg multiplier = Inr as"
  shows "\<exists>bs. validateResourceAssignments ResourceIO as = Inr bs"
proof -
  obtain devices limits where limits: "limits \<noteq> []" "mapRes (deviceAssignment devices) limits = Inr as" "length limits \<le> 4" "distinct (map fst limits)"
    "set (map fst limits) \<subseteq> {PropertyIOReadBandwidthMax, PropertyIOWriteBandwidthMax, PropertyIOReadIOPSMax, PropertyIOWriteIOPSMax}"
    using assms by (rule io_shape)
  have made: "list_all2 (\<lambda>l a. acceptable a \<and> pa_name a = fst l) limits as"
    using limits(2) by (auto simp: deviceAssignment_def dest!: device_acceptable mapRes_Inr elim!: list_all2_mono)
  then have all: "(\<forall>a \<in> set as. acceptable a) \<and> map pa_name as = map fst limits \<and> length as = length limits"
    by (induction rule: list_all2_induct) auto
  then have "validateResourceAssignments ResourceIO as = Inr (sort_key pa_name as)"
    using limits
    by (intro validate_acceptable [where allowed = "[PropertyIOWeight, PropertyIOReadBandwidthMax, PropertyIOWriteBandwidthMax,
          PropertyIOReadIOPSMax, PropertyIOWriteIOPSMax]"]) (auto simp: resourceProperties_def)
  then show ?thesis ..
qed

text \<open>
  Property C26: every memory plan and every I/O plan the manager makes, from whatever configuration, is of the form the
  adapter demands of a request for that resource: known properties of the resource, each once, with values and devices in range.
\<close>

theorem planned_assignments_accepted:
  assumes "resource = ResourceMemory \<and> systemdMemoryAssignments env cfg = Inr assignments \<or>
    resource = ResourceIO \<and> systemdIOAssignments env cfg multiplier = Inr assignments"
  shows "\<exists>validated. validateResourceAssignments resource assignments = Inr validated"
  using assms memory_accepted io_accepted by auto

text \<open>A host with one disk and pages of 4096 bytes, and a configuration with two I/O limits.\<close>

definition sampleHost :: "resource_env \<Rightarrow> resource_env" where
  "sampleHost env = env\<lparr> re_devices := \<lambda>_. Inr [''/dev/sda''], re_pageSize := 4096 \<rparr>"

definition samplePlanConfig :: resource_config where
  "samplePlanConfig = decision_config.extend (sampleConfig\<lparr> IOReadBPS := ''10K'', IOWriteIOPS := 200 \<rparr>)
     (resource_config.fields ''18K'' (Fin (1 / 2)) True [])"

lemma sample_fields [simp]:
  "IOReadBPS samplePlanConfig = ''10K''" "IOWriteBPS samplePlanConfig = []" "IOReadIOPS samplePlanConfig = 0" "IOWriteIOPS samplePlanConfig = 200"
  "RAMQuotaPerUser samplePlanConfig = ''18K''" "RAMHighRatio samplePlanConfig = Fin (1 / 2)" "DisableSwap samplePlanConfig"
  by (simp_all add: samplePlanConfig_def sampleConfig_def decision_config.defs resource_config.defs)

lemma sample_quotas:
  "ParseByteQuota ''10K'' = Inr 10240" "ParseByteQuota ''18K'' = Inr 18432" "trimSpace ''10K'' = ''10K''"
  "trimSpace [] = []"
  by code_simp+

lemma sample_rates:
  "uint64OfFloat outside (f_mul (f_of_u64 10240) (Fin 1)) = 10240" "uint64OfFloat outside (Fin 200) = 200"
  "uint64OfFloat outside (f_mul (f_of_u64 18432) (Fin (1 / 2))) = 9216"
  by (simp_all add: f_of_u64_def uint64OfFloat_def)

lemma sample_devices:
  "NewDevicePropertyAssignment PropertyIOReadBandwidthMax [\<lparr> dl_Path = ''/dev/sda'', dl_Value = 10240 \<rparr>] =
     Inr \<lparr> pa_name = PropertyIOReadBandwidthMax, pa_value = devicePropertyValue [\<lparr> dl_Path = ''/dev/sda'', dl_Value = 10240 \<rparr>], pa_targets = [] \<rparr>"
  "NewDevicePropertyAssignment PropertyIOWriteIOPSMax [\<lparr> dl_Path = ''/dev/sda'', dl_Value = 200 \<rparr>] =
     Inr \<lparr> pa_name = PropertyIOWriteIOPSMax, pa_value = devicePropertyValue [\<lparr> dl_Path = ''/dev/sda'', dl_Value = 200 \<rparr>], pa_targets = [] \<rparr>"
  by code_simp+

lemma sample_io_plan:
  "systemdIOAssignments (sampleHost env) samplePlanConfig (f_of_int 1) =
     Inr [\<lparr> pa_name = PropertyIOReadBandwidthMax, pa_value = devicePropertyValue [\<lparr> dl_Path = ''/dev/sda'', dl_Value = 10240 \<rparr>], pa_targets = [] \<rparr>,
          \<lparr> pa_name = PropertyIOWriteIOPSMax, pa_value = devicePropertyValue [\<lparr> dl_Path = ''/dev/sda'', dl_Value = 200 \<rparr>], pa_targets = [] \<rparr>]"
  by (simp add: systemdIOAssignments_def sampleHost_def bandwidthLimit_def iopsLimit_def deviceAssignment_def sample_quotas sample_rates sample_devices)

theorem planned_assignments_accepted_witness:
  "\<forall>env. \<exists>assignments validated. systemdIOAssignments (sampleHost env) samplePlanConfig (f_of_int 1) = Inr assignments \<and>
     validateResourceAssignments ResourceIO assignments = Inr validated"
  using planned_assignments_accepted sample_io_plan by blast

section \<open>The memory limits\<close>

text \<open>Cutting a value down to whole pages.\<close>

lemma whole_pages:
  fixes v page :: u64
  shows "v - v mod page = (v div page) * page"
  by (metis add_diff_cancel_right' div_mult_mod_eq)

lemma whole_pages_nat:
  fixes v page :: u64
  shows "unat (v - v mod page) = unat v div unat page * unat page"
proof -
  have "v mod page \<le> v" by (simp add: word_le_nat_alt unat_mod)
  then have "unat (v - v mod page) = unat v - unat v mod unat page" by (simp add: unat_sub unat_mod)
  then show ?thesis by (simp add: minus_mod_eq_div_mult)
qed

lemma whole_pages_mono: "v \<le> w \<Longrightarrow> v - v mod page \<le> w - w mod page" for v w page :: u64
  by (simp add: word_le_nat_alt whole_pages_nat div_le_mono mult_le_mono1)

lemma whole_pages_le: "v - v mod page \<le> v" for v page :: u64
  by (simp add: word_le_nat_alt whole_pages_nat)

lemma whole_pages_mod: "(v - v mod page) mod page = 0" for v page :: u64
proof -
  have "unat ((v - v mod page) mod page) = 0" by (simp add: unat_mod whole_pages_nat)
  then show ?thesis by (simp add: unat_eq_0)
qed

text \<open>A share of at most one of a small quota is no more than the quota.\<close>

lemma rounded_share:
  assumes "n \<le> 2 ^ 53" "0 < r" "r \<le> 1"
  obtains p where "f_mul (fl (of_nat n)) (Fin r) = Fin p" "0 \<le> p" "p \<le> of_nat n"
proof -
  have exact: "fl (of_nat n) = Fin (of_nat n)" "f_of_int (int n) = Fin (of_nat n)"
    using fl_of_int [of "int n"] f_of_int_exact [of "int n"] assms(1) by simp_all
  let ?q = "of_nat n * r"
  have "f_le (fl ?q) (f_of_int (int n))" by (rule f_le_of_int) (use assms mult_left_le [of r "of_nat n"] in simp_all)
  moreover have "f_le (f_of_int 0) (fl ?q)" by (rule f_ge_of_int) (use assms in simp_all)
  ultimately show ?thesis using that exact by (cases "fl ?q") (auto simp: f_le_def f_eq_def)
qed

lemma share_le:
  assumes "unat quota \<le> 2 ^ 53" "f_lt f_zero ratio" "\<not> f_lt (f_of_int 1) ratio"
  shows "uint64OfFloat outside (f_mul (f_of_u64 quota) ratio) \<le> quota"
proof -
  obtain r where r: "ratio = Fin r" "0 < r" "r \<le> 1"
    using assms(2,3) by (cases ratio) (auto simp: f_zero_def)
  obtain p where p: "f_mul (f_of_u64 quota) (Fin r) = Fin p" "0 \<le> p" "p \<le> of_nat (unat quota)"
    using rounded_share [OF assms(1) r(2,3)] unfolding f_of_u64_def by blast
  have small: "p < 2 ^ 64"
  proof -
    have "p \<le> of_nat (2 ^ 53)" using p(3) assms(1) of_nat_mono order_trans by blast
    then show ?thesis by simp
  qed
  have "\<lfloor>p\<rfloor> \<le> int (unat quota)" using p(3) by (metis floor_mono floor_of_nat)
  then have "nat \<lfloor>p\<rfloor> \<le> unat quota" by linarith
  moreover have "(of_int \<lfloor>p\<rfloor> :: u64) = of_nat (nat \<lfloor>p\<rfloor>)" using p(2) by simp
  ultimately have "unat (of_int \<lfloor>p\<rfloor> :: u64) \<le> unat quota" by (metis le_trans unat_of_nat mod_less_eq_dividend)
  then show ?thesis using p small by (simp add: r(1) uint64OfFloat_def word_le_nat_alt)
qed

lemma GetRAMHighRatio_le: "\<not> f_lt (f_of_int 1) (GetRAMHighRatio cfg)"
proof -
  have "f_le (fl (8 / 10)) (f_of_int 1)" by (rule f_le_of_int) simp_all
  then show ?thesis using f_lt_not_ge by (auto simp: GetRAMHighRatio_def)
qed


lemma sample_memory_plan:
  "systemdMemoryAssignments (sampleHost env) samplePlanConfig =
     Inr [\<lparr> pa_name = PropertyMemoryHigh, pa_value = scalarPropertyValue 8192, pa_targets = [] \<rparr>,
          \<lparr> pa_name = PropertyMemoryMax, pa_value = scalarPropertyValue 16384, pa_targets = [] \<rparr>,
          \<lparr> pa_name = PropertyMemorySwapMax, pa_value = scalarPropertyValue 0, pa_targets = [] \<rparr>]"
  by (simp add: systemdMemoryAssignments_def sampleHost_def sample_quotas sample_rates memoryValues_def GetRAMHighRatio_def f_zero_def Let_def
      newAssignments_def NewPropertyAssignment_def approvedScalarProperties_def validatePropertyValue_def property_names)


end
