(* ===== verification/Kernel_Files.thy ===== *)
theory Kernel_Files
  imports Unit_Adapter Safe_File
begin

text \<open>
  The kernel side of the adapter (\<^verbatim>\<open>internal/systemdunit/kernel.go\<close>,
  \<^verbatim>\<open>internal/systemdunit/io_device_weight_cleanup.go\<close>): \<^verbatim>\<open>cgroupVerifier\<close> reads the control files of
  a slice and compares them with what systemd reports, before and after a change, and resets single
  device weights that systemd leaves behind. The files of one verification are an argument
  (\<open>kernel_fs\<close>), because each is read once; the reset, which reads, writes and reads again, runs on
  the trace of its own accesses, whose answers depend on everything done before. The theorems show
  that the parsers read what the kernel prints, that verification accepts exactly the kernel state
  systemd's values stand for, and that a reset only removes a weight that is the owned one at the
  moment of writing.
\<close>

unbundle bit_operations_syntax

section \<open>Files\<close>

datatype fs_error = ErrNotExist | ErrIO string

text \<open>The metadata of a device node has the number of the device it stands for.\<close>

record node_info = file_info +
  fi_Rdev :: u64

text \<open>\<open>kf_openDir\<close> opens a directory without following symbolic links and gives its inode.\<close>

record kernel_fs =
  kf_readFile :: "string \<Rightarrow> (fs_error, string) res"
  kf_stat :: "string \<Rightarrow> (fs_error, node_info) res"
  kf_openDir :: "string \<Rightarrow> (fs_error, u64) res"

text \<open>\<open>cv_devNumber\<close> stands for \<^verbatim>\<open>unix.Major\<close> and \<^verbatim>\<open>unix.Minor\<close> of golang.org/x/sys.\<close>

record cgroup_verifier =
  cv_root :: string
  cv_pageSize :: u64
  cv_devNumber :: "u64 \<Rightarrow> u32 \<times> u32"

definition ModeDevice :: u32 where "ModeDevice = 0x04000000"
definition ModeCharDevice :: u32 where "ModeCharDevice = 0x00200000"

text \<open>\<^verbatim>\<open>filepath.Join\<close> of a clean absolute directory and a clean relative path.\<close>

definition joinClean :: "string \<Rightarrow> string \<Rightarrow> string" where
  "joinClean dir rel = (if rel = [] then dir else if dir = ''/'' then dir @ rel else dir @ ''/'' @ rel)"

text \<open>\<^verbatim>\<open>strings.Fields\<close>: the longest pieces without a space; \<open>acc\<close> is the piece being read, reversed.\<close>

function fieldsFrom :: "string \<Rightarrow> string \<Rightarrow> string list" where
  "fieldsFrom acc s =
     (let w = spaceWidth (map byte_of s); piece = (if acc = [] then [] else [rev acc]) in
      if s = [] then piece
      else if 0 < w then piece @ fieldsFrom [] (drop w s)
      else fieldsFrom (hd s # acc) (tl s))"
  by pat_completeness auto
termination
  by (relation "measure (\<lambda>(acc, s). length s)") auto

declare fieldsFrom.simps [simp del]

definition fieldsOf :: "string \<Rightarrow> string list" where
  "fieldsOf s = fieldsFrom [] s"

definition containsWord :: "string \<Rightarrow> string \<Rightarrow> bool" where
  "containsWord text wanted \<longleftrightarrow> wanted \<in> set (fieldsOf text)"

section \<open>Parsing control files\<close>

definition parseKernelScalar :: "string \<Rightarrow> u64 option" where
  "parseKernelScalar text =
     (let trimmed = trimSpace text in
      if trimmed = ''max'' then Some (- 1)
      else if list_ex (\<lambda>c. byte_of c \<in> {32, 9, 13, 10}) trimmed \<or> trimmed = [] then None
      else map_option of_nat (parseUint 64 trimmed))"

fun defaultWeightIn :: "string list \<Rightarrow> u64 option" where
  "defaultWeightIn [] = None"
| "defaultWeightIn (line # ls) =
     (case fieldsOf line of
        [name, weight] \<Rightarrow> if name = ''default'' then map_option of_nat (parseUint 64 weight) else defaultWeightIn ls
      | _ \<Rightarrow> defaultWeightIn ls)"

definition parseKernelDefaultIOWeight :: "string \<Rightarrow> u64 option" where
  "parseKernelDefaultIOWeight text = defaultWeightIn (splitOn LF (trimSpace text))"

definition kernelDeviceField :: "string \<Rightarrow> bool" where
  "kernelDeviceField d \<longleftrightarrow>
     (case splitOn (CHR '':'') d of [a, b] \<Rightarrow> parseUint 32 a \<noteq> None \<and> parseUint 32 b \<noteq> None | _ \<Rightarrow> False)"

fun deviceWeightsIn :: "(string \<times> u64) list \<Rightarrow> string list \<Rightarrow> (string \<times> u64) list option" where
  "deviceWeightsIn result [] = Some result"
| "deviceWeightsIn result (line # ls) =
     (case fieldsOf line of
        [] \<Rightarrow> deviceWeightsIn result ls
      | [name, weight] \<Rightarrow>
          if name = ''default'' then (if parseUint 64 weight = None then None else deviceWeightsIn result ls)
          else if \<not> kernelDeviceField name \<or> map_of result name \<noteq> None then None
          else (case parseUint 64 weight of
              None \<Rightarrow> None
            | Some w \<Rightarrow> if w = 0 then None else deviceWeightsIn (result @ [(name, of_nat w)]) ls)
      | _ \<Rightarrow> None)"

definition parseKernelIODeviceWeights :: "string \<Rightarrow> (string \<times> u64) list option" where
  "parseKernelIODeviceWeights text = deviceWeightsIn [] (splitOn LF (trimSpace text))"

fun limitFieldsIn :: "(string \<times> string) list \<Rightarrow> string list \<Rightarrow> (string \<times> string) list option" where
  "limitFieldsIn result [] = Some result"
| "limitFieldsIn result (field # fs) =
     (let (name, v, found) = cutAt (CHR ''='') field in
      if \<not> found \<or> map_of result name \<notin> {None, Some []} then None
      else limitFieldsIn (AList.update name v result) fs)"

fun deviceLimitsIn :: "(string \<times> (string \<times> string) list) list \<Rightarrow> string list \<Rightarrow> (string \<times> (string \<times> string) list) list option" where
  "deviceLimitsIn result [] = Some result"
| "deviceLimitsIn result (line # ls) =
     (case fieldsOf line of
        [] \<Rightarrow> deviceLimitsIn result ls
      | device # fs \<Rightarrow>
          if CHR '':'' \<notin> set device then None
          else (case limitFieldsIn [] fs of
              None \<Rightarrow> None
            | Some limits \<Rightarrow> deviceLimitsIn (AList.update device limits result) ls))"

definition parseKernelIOMax :: "string \<Rightarrow> (string \<times> (string \<times> string) list) list option" where
  "parseKernelIOMax text = deviceLimitsIn [] (splitOn LF (trimSpace text))"

text \<open>The 128-bit product of \<^verbatim>\<open>bits.Mul64\<close> and its quotient by \<^verbatim>\<open>bits.Div64\<close>.\<close>

definition scalePerSecondQuota :: "u64 \<Rightarrow> u64 \<Rightarrow> u64 option" where
  "scalePerSecondQuota perSecond period =
     (let product = unat perSecond * unat period in
      if 1000000 \<le> product div 2 ^ 64 then None else Some (of_nat (product div 1000000)))"

section \<open>Verification\<close>

definition PropertySet_Value :: "property_set \<Rightarrow> property_name \<Rightarrow> u64 option" where
  "PropertySet_Value s name = (if isDeviceProperty name then None else map_option pv_scalar (map_of s name))"

definition PropertySet_DeviceLimits :: "property_set \<Rightarrow> property_name \<Rightarrow> device_limit list option" where
  "PropertySet_DeviceLimits s name = (if isDeviceProperty name then map_option pv_devices (map_of s name) else None)"

text \<open>
  The relative path of a clean absolute control group below the root never climbs out of it, so the
  code's last check never fails.
\<close>

definition controlGroupPath :: "cgroup_verifier \<Rightarrow> string \<Rightarrow> string option" where
  "controlGroupPath v cg = (if validAbsolutePath cg then Some (joinClean (cv_root v) (drop 1 cg)) else None)"

definition pageAlignedMemoryLimit :: "u64 \<Rightarrow> u64 \<Rightarrow> u64" where
  "pageAlignedMemoryLimit limit pageSize =
     (if limit = SystemdUnset \<or> pageSize = 0 then limit else limit - limit mod pageSize)"

definition memoryProperties :: "property_name list" where
  "memoryProperties = [PropertyMemoryHigh, PropertyMemoryMax, PropertyMemorySwapMax]"

definition kernelFileForProperty :: "property_name \<Rightarrow> string \<times> u64" where
  "kernelFileForProperty p =
     (if p = PropertyCPUWeight then (''cpu.weight'', 100)
      else if p = PropertyMemoryHigh then (''memory.high'', - 1)
      else if p = PropertyMemoryMax then (''memory.max'', - 1)
      else (''memory.swap.max'', - 1))"

definition verifyScalarFile :: "cgroup_verifier \<Rightarrow> kernel_fs \<Rightarrow> string \<Rightarrow> unit_snapshot \<Rightarrow> property_name \<Rightarrow> kernel_error option" where
  "verifyScalarFile v fs path snapshot property =
     (let (filename, defaultWhenUnset) = kernelFileForProperty property in
      case PropertySet_Value (us_Properties snapshot) property of
        None \<Rightarrow> Some KernelFailure
      | Some expected \<Rightarrow>
          (case kf_readFile fs (joinClean path filename) of
             Inl e \<Rightarrow> if expected = SystemdUnset \<and> e = ErrNotExist then None else Some KernelFailure
           | Inr text \<Rightarrow>
               (case parseKernelScalar text of
                  None \<Rightarrow> Some KernelFailure
                | Some actual \<Rightarrow>
                    let wanted = (if expected = SystemdUnset then defaultWhenUnset
                                  else if property \<in> set memoryProperties then pageAlignedMemoryLimit expected (cv_pageSize v)
                                  else expected)
                    in if actual \<noteq> wanted then Some KernelValueMismatch else None)))"

definition verifyIOWeight :: "kernel_fs \<Rightarrow> string \<Rightarrow> unit_snapshot \<Rightarrow> kernel_error option" where
  "verifyIOWeight fs path snapshot =
     (case PropertySet_Value (us_Properties snapshot) PropertyIOWeight of
        None \<Rightarrow> Some KernelFailure
      | Some reported \<Rightarrow>
          let expected = (if reported = SystemdUnset then 100 else reported);
              first = kf_readFile fs (joinClean path ''io.weight'');
              bfq = (first = Inl ErrNotExist);
              answer = (if bfq then kf_readFile fs (joinClean path ''io.bfq.weight'') else first)
          in case answer of
               Inl e \<Rightarrow> if reported = SystemdUnset \<and> e = ErrNotExist then None else Some KernelFailure
             | Inr text \<Rightarrow>
                 (case parseKernelDefaultIOWeight text of
                    None \<Rightarrow> Some KernelFailure
                  | Some actual \<Rightarrow>
                      let scaled = (if bfq then bfqWeight expected else expected)
                      in if actual \<noteq> expected \<and> actual \<noteq> scaled then Some KernelValueMismatch else None))"

definition verifyCPUQuota :: "kernel_fs \<Rightarrow> string \<Rightarrow> unit_snapshot \<Rightarrow> kernel_error option" where
  "verifyCPUQuota fs path snapshot =
     (case (PropertySet_Value (us_Properties snapshot) PropertyCPUQuotaPerSecUSec,
            PropertySet_Value (us_Properties snapshot) PropertyCPUQuotaPeriodUSec) of
        (Some perSecond, Some configuredPeriod) \<Rightarrow>
          (case kf_readFile fs (joinClean path ''cpu.max'') of
             Inl e \<Rightarrow> if perSecond = SystemdUnset \<and> configuredPeriod = SystemdUnset \<and> e = ErrNotExist then None
                      else Some KernelFailure
           | Inr text \<Rightarrow>
               (case fieldsOf text of
                  [quota, period] \<Rightarrow>
                    (case parseUint 64 period of
                       None \<Rightarrow> Some KernelFailure
                     | Some actualPeriod \<Rightarrow>
                         if actualPeriod = 0 then Some KernelFailure
                         else if configuredPeriod \<noteq> SystemdUnset \<and> of_nat actualPeriod \<noteq> configuredPeriod then Some KernelValueMismatch
                         else if perSecond = SystemdUnset then (if quota \<noteq> ''max'' then Some KernelValueMismatch else None)
                         else (case (parseUint 64 quota, scalePerSecondQuota perSecond (of_nat actualPeriod)) of
                             (Some actualQuota, Some scaled) \<Rightarrow>
                               let expectedQuota = (if scaled < 1000 then 1000 else scaled)
                               in if of_nat actualQuota \<noteq> expectedQuota then Some KernelValueMismatch else None
                           | _ \<Rightarrow> Some KernelFailure))
                | _ \<Rightarrow> Some KernelFailure))
      | _ \<Rightarrow> Some KernelFailure)"

definition deviceNumber :: "cgroup_verifier \<Rightarrow> kernel_fs \<Rightarrow> string \<Rightarrow> (fs_error, string) res" where
  "deviceNumber v fs path =
     (case kf_stat fs path of
        Inl e \<Rightarrow> Inl e
      | Inr info \<Rightarrow>
          if fi_Stat info = None \<or> fi_Mode info AND ModeDevice = 0 \<or> fi_Mode info AND ModeCharDevice \<noteq> 0
          then Inl (ErrIO ''path is not a block device'')
          else Inr (deviceNumberString (cv_devNumber v (fi_Rdev info))))"

definition ioMaxField :: "property_name \<Rightarrow> string" where
  "ioMaxField p =
     (if p = PropertyIOReadBandwidthMax then ''rbps''
      else if p = PropertyIOWriteBandwidthMax then ''wbps''
      else if p = PropertyIOReadIOPSMax then ''riops''
      else if p = PropertyIOWriteIOPSMax then ''wiops'' else [])"

fun wantedDevices :: "cgroup_verifier \<Rightarrow> kernel_fs \<Rightarrow> (string \<times> u64) list \<Rightarrow> device_limit list \<Rightarrow> (string \<times> u64) list option" where
  "wantedDevices v fs wanted [] = Some wanted"
| "wantedDevices v fs wanted (limit # ls) =
     (case deviceNumber v fs (dl_Path limit) of
        Inl _ \<Rightarrow> None
      | Inr device \<Rightarrow> wantedDevices v fs (AList.update device (dl_Value limit) wanted) ls)"

text \<open>The loop over the kernel's lines takes the devices it meets out of the wanted ones.\<close>

fun matchDevices :: "string \<Rightarrow> (string \<times> u64) list \<Rightarrow> (string \<times> (string \<times> string) list) list \<Rightarrow> kernel_error option" where
  "matchDevices field wanted [] = (if wanted \<noteq> [] then Some KernelValueMismatch else None)"
| "matchDevices field wanted ((device, limits) # rest) =
     (case map_of wanted device of
        Some w \<Rightarrow>
          if map_of limits field \<noteq> Some (formatUint (unat w)) then Some KernelValueMismatch
          else matchDevices field (AList.delete device wanted) rest
      | None \<Rightarrow>
          if map_of limits field \<notin> {None, Some ''max''} then Some KernelValueMismatch
          else matchDevices field wanted rest)"

definition verifyDeviceLimits :: "cgroup_verifier \<Rightarrow> kernel_fs \<Rightarrow> string \<Rightarrow> unit_snapshot \<Rightarrow> property_name \<Rightarrow> kernel_error option" where
  "verifyDeviceLimits v fs path snapshot property =
     (case PropertySet_DeviceLimits (us_Properties snapshot) property of
        None \<Rightarrow> Some KernelFailure
      | Some expected \<Rightarrow>
          (case kf_readFile fs (joinClean path ''io.max'') of
             Inl e \<Rightarrow> if expected = [] \<and> e = ErrNotExist then None else Some KernelFailure
           | Inr text \<Rightarrow>
               (case (parseKernelIOMax text, wantedDevices v fs [] expected) of
                  (Some actual, Some wanted) \<Rightarrow> matchDevices (ioMaxField property) wanted actual
                | _ \<Rightarrow> Some KernelFailure)))"

definition findAssignmentByProperty :: "property_assignment list \<Rightarrow> property_name \<Rightarrow> property_assignment" where
  "findAssignmentByProperty as property =
     (case find (\<lambda>a. pa_name a = property) as of
        Some a \<Rightarrow> a
      | None \<Rightarrow> \<lparr> pa_name = [], pa_value = \<lparr> pv_scalar = 0, pv_devices = [] \<rparr>, pa_targets = [] \<rparr>)"

definition ioDeviceWeightKernelFile :: "mechanism \<Rightarrow> string" where
  "ioDeviceWeightKernelFile m = (if m = IODeviceWeightMechanismBFQ then ''io.bfq.weight'' else ''io.weight'')"

text \<open>Later entries for a path overwrite earlier ones.\<close>

definition limitsByPath :: "device_limit list \<Rightarrow> string \<Rightarrow> u64 option" where
  "limitsByPath ls = map_of (rev (map (\<lambda>l. (dl_Path l, dl_Value l)) ls))"

definition ioDeviceWeightMechanismHasExpectedOverride ::
  "(string \<Rightarrow> u64 option) \<Rightarrow> io_device_weight_target list \<Rightarrow> mechanism \<Rightarrow> bool" where
  "ioDeviceWeightMechanismHasExpectedOverride byPath targets m \<longleftrightarrow>
     list_ex (\<lambda>t. tg_mechanism t = m \<and> byPath (tg_path t) \<noteq> None) targets"

text \<open>One weight file, read at most once: \<open>None\<close> when it is missing and nothing is expected in it.\<close>

definition loadWeights ::
  "kernel_fs \<Rightarrow> string \<Rightarrow> (string \<Rightarrow> u64 option) \<Rightarrow> io_device_weight_target list \<Rightarrow> mechanism \<Rightarrow>
     (kernel_error, (string \<times> u64) list option) res" where
  "loadWeights fs path byPath targets m =
     (case kf_readFile fs (joinClean path (ioDeviceWeightKernelFile m)) of
        Inl e \<Rightarrow>
          if e = ErrNotExist \<and> \<not> ioDeviceWeightMechanismHasExpectedOverride byPath targets m then Inr None
          else Inl KernelFailure
      | Inr text \<Rightarrow>
          (case parseKernelIODeviceWeights text of None \<Rightarrow> Inl KernelFailure | Some ws \<Rightarrow> Inr (Some ws)))"

definition compareWeight :: "(string \<Rightarrow> u64 option) \<Rightarrow> io_device_weight_target \<Rightarrow> string \<Rightarrow> (string \<times> u64) list \<Rightarrow> bool" where
  "compareWeight byPath t device actual =
     (case byPath (tg_path t) of
        None \<Rightarrow> map_of actual device = None
      | Some reported \<Rightarrow> map_of actual device = Some (kernelIODeviceWeight reported (tg_mechanism t)))"

fun verifyTargets ::
  "cgroup_verifier \<Rightarrow> kernel_fs \<Rightarrow> string \<Rightarrow> (string \<Rightarrow> u64 option) \<Rightarrow> io_device_weight_target list \<Rightarrow>
     (string \<times> (string \<times> u64) list) list \<Rightarrow> string list \<Rightarrow> io_device_weight_target list \<Rightarrow> kernel_error option" where
  "verifyTargets v fs path byPath targets parsed seen [] = None"
| "verifyTargets v fs path byPath targets parsed seen (t # ts) =
     (case deviceNumber v fs (tg_path t) of
        Inl _ \<Rightarrow> Some KernelFailure
      | Inr device \<Rightarrow>
          if device \<in> set seen then Some KernelFailure
          else let filename = ioDeviceWeightKernelFile (tg_mechanism t) in
            (case map_of parsed filename of
               Some actual \<Rightarrow>
                 if compareWeight byPath t device actual then verifyTargets v fs path byPath targets parsed (device # seen) ts
                 else Some KernelValueMismatch
             | None \<Rightarrow>
                 (case loadWeights fs path byPath targets (tg_mechanism t) of
                    Inl e \<Rightarrow> Some e
                  | Inr None \<Rightarrow> verifyTargets v fs path byPath targets ((filename, []) # parsed) (device # seen) ts
                  | Inr (Some actual) \<Rightarrow>
                      if compareWeight byPath t device actual
                      then verifyTargets v fs path byPath targets ((filename, actual) # parsed) (device # seen) ts
                      else Some KernelValueMismatch)))"

definition verifyIODeviceWeight ::
  "cgroup_verifier \<Rightarrow> kernel_fs \<Rightarrow> string \<Rightarrow> unit_snapshot \<Rightarrow> property_assignment \<Rightarrow> kernel_error option" where
  "verifyIODeviceWeight v fs path snapshot a =
     (case PropertySet_DeviceLimits (us_Properties snapshot) PropertyIODeviceWeight of
        None \<Rightarrow> Some KernelFailure
      | Some expected \<Rightarrow>
          if \<not> validateIODeviceWeightAssignment a then Some KernelFailure
          else verifyTargets v fs path (limitsByPath expected) (pa_targets a) [] [] (pa_targets a))"

text \<open>The first failure of a sequence of checks.\<close>

definition firstFailure :: "kernel_error option list \<Rightarrow> kernel_error option" where
  "firstFailure rs = foldr (\<lambda>r rest. case r of None \<Rightarrow> rest | Some e \<Rightarrow> Some e) rs None"

text \<open>The code goes through the device properties in no fixed order; the model takes the declared one.\<close>

definition verify :: "cgroup_verifier \<Rightarrow> kernel_fs \<Rightarrow> unit_snapshot \<Rightarrow> property_assignment list \<Rightarrow> kernel_error option" where
  "verify v fs snapshot as =
     (case controlGroupPath v (us_ControlGroup snapshot) of
        None \<Rightarrow> Some KernelFailure
      | Some path \<Rightarrow>
          let touched = pa_name ` set as in
          firstFailure
            (map (verifyScalarFile v fs path snapshot)
               (filter (\<lambda>p. p \<in> touched) [PropertyCPUWeight, PropertyMemoryHigh, PropertyMemoryMax, PropertyMemorySwapMax]) @
             (if PropertyIOWeight \<in> touched then [verifyIOWeight fs path snapshot] else []) @
             (if PropertyCPUQuotaPerSecUSec \<in> touched \<or> PropertyCPUQuotaPeriodUSec \<in> touched then [verifyCPUQuota fs path snapshot] else []) @
             map (\<lambda>p. if p = PropertyIODeviceWeight then verifyIODeviceWeight v fs path snapshot (findAssignmentByProperty as p)
                      else verifyDeviceLimits v fs path snapshot p)
               (filter (\<lambda>p. p \<in> touched) approvedDeviceProperties)))"

section \<open>Preflight\<close>

fun preflightTargets :: "cgroup_verifier \<Rightarrow> kernel_fs \<Rightarrow> string list \<Rightarrow> io_device_weight_target list \<Rightarrow> bool" where
  "preflightTargets v fs seen [] = True"
| "preflightTargets v fs seen (t # ts) =
     (case deviceNumber v fs (tg_path t) of
        Inl _ \<Rightarrow> False
      | Inr device \<Rightarrow> device \<notin> set seen \<and> preflightTargets v fs (device # seen) ts)"

definition requiredFiles :: "property_assignment \<Rightarrow> string list" where
  "requiredFiles a =
     (let p = pa_name a in
      if p = PropertyCPUQuotaPerSecUSec \<or> p = PropertyCPUQuotaPeriodUSec then [''cpu.max'']
      else if p = PropertyMemoryHigh then [''memory.high'']
      else if p = PropertyMemoryMax then [''memory.max'']
      else if p = PropertyMemorySwapMax then [''memory.swap.max'']
      else if p = PropertyIODeviceWeight then map (ioDeviceWeightKernelFile \<circ> tg_mechanism) (pa_targets a)
      else if p \<in> {PropertyIOReadBandwidthMax, PropertyIOWriteBandwidthMax, PropertyIOReadIOPSMax, PropertyIOWriteIOPSMax} then [''io.max'']
      else [])"

definition requiresIO :: "property_name \<Rightarrow> bool" where
  "requiresIO p \<longleftrightarrow>
     p \<in> {PropertyIOWeight, PropertyIODeviceWeight, PropertyIOReadBandwidthMax, PropertyIOWriteBandwidthMax,
          PropertyIOReadIOPSMax, PropertyIOWriteIOPSMax}"

definition requiredReadable :: "kernel_fs \<Rightarrow> string \<Rightarrow> bool \<Rightarrow> string \<Rightarrow> bool" where
  "requiredReadable fs path allowMissingIO filename =
     (case kf_readFile fs (joinClean path filename) of
        Inr _ \<Rightarrow> True
      | Inl e \<Rightarrow> allowMissingIO \<and> hasPrefix filename ''io.'' \<and> e = ErrNotExist)"

definition preflightWithMaterialization ::
  "cgroup_verifier \<Rightarrow> kernel_fs \<Rightarrow> unit_snapshot \<Rightarrow> property_assignment list \<Rightarrow> bool \<Rightarrow> bool" where
  "preflightWithMaterialization v fs snapshot as allowMissingIO =
     (case controlGroupPath v (us_ControlGroup snapshot) of
        None \<Rightarrow> False
      | Some path \<Rightarrow>
          list_all (\<lambda>a. pa_name a \<noteq> PropertyIODeviceWeight \<or> preflightTargets v fs [] (pa_targets a)) as \<and>
          list_all (requiredReadable fs path allowMissingIO) (concat (map requiredFiles as)) \<and>
          (list_ex (requiresIO \<circ> pa_name) as \<longrightarrow>
             (let owner = (if allowMissingIO then cv_root v else dirOf path) in
              case kf_readFile fs (joinClean owner ''cgroup.controllers'') of
                Inl _ \<Rightarrow> False
              | Inr controllers \<Rightarrow> containsWord controllers ''io'')))"

definition preflight :: "cgroup_verifier \<Rightarrow> kernel_fs \<Rightarrow> unit_snapshot \<Rightarrow> property_assignment list \<Rightarrow> bool" where
  "preflight v fs snapshot as = preflightWithMaterialization v fs snapshot as False"

definition preflightApplyKernel :: "cgroup_verifier \<Rightarrow> kernel_fs \<Rightarrow> unit_snapshot \<Rightarrow> property_assignment list \<Rightarrow> bool" where
  "preflightApplyKernel v fs snapshot as = preflightWithMaterialization v fs snapshot as True"

section \<open>The identity of a control group\<close>

fun openBeneath :: "kernel_fs \<Rightarrow> string \<Rightarrow> u64 \<Rightarrow> string list \<Rightarrow> (fs_error, u64) res" where
  "openBeneath fs dir inode [] = Inr inode"
| "openBeneath fs dir inode (c # cs) =
     (if c = [] then openBeneath fs dir inode cs
      else (case kf_openDir fs (joinClean dir c) of
          Inl e \<Rightarrow> Inl e
        | Inr i \<Rightarrow> openBeneath fs (joinClean dir c) i cs))"

definition openIODeviceWeightCgroup :: "cgroup_verifier \<Rightarrow> kernel_fs \<Rightarrow> string \<Rightarrow> u64 option" where
  "openIODeviceWeightCgroup v fs cg =
     (if \<not> validAbsolutePath cg then None
      else (case kf_openDir fs (cv_root v) of
          Inl _ \<Rightarrow> None
        | Inr below \<Rightarrow>
            (case openBeneath fs (cv_root v) below (splitOn (CHR ''/'') (drop 1 cg)) of Inl _ \<Rightarrow> None | Inr i \<Rightarrow> Some i)))"

definition verifierIdentity :: "cgroup_verifier \<Rightarrow> kernel_fs \<Rightarrow> string \<Rightarrow> u64 option" where
  "verifierIdentity v fs cg =
     (case openIODeviceWeightCgroup v fs cg of None \<Rightarrow> None | Some i \<Rightarrow> if i = 0 then None else Some i)"

section \<open>Keyed resets of device weights\<close>

fun collectResets ::
  "(string \<Rightarrow> (fs_error, string) res) \<Rightarrow> io_device_weight_target list \<Rightarrow> string list \<Rightarrow> io_device_weight_reset list \<Rightarrow>
     device_limit list \<Rightarrow> io_device_weight_reset list option" where
  "collectResets numberOf targets desired resets [] = Some resets"
| "collectResets numberOf targets desired resets (d # ds) =
     (if dl_Path d \<in> set desired then collectResets numberOf targets desired resets ds
      else (case find (\<lambda>t. tg_path t = dl_Path d) targets of
          None \<Rightarrow> None
        | Some t \<Rightarrow>
            if \<not> validIODeviceWeightMechanism (tg_mechanism t) then None
            else (case numberOf (dl_Path d) of
                Inl _ \<Rightarrow> None
              | Inr device \<Rightarrow>
                  if device \<in> rs_device ` set resets then None
                  else collectResets numberOf targets desired
                         (resets @ [\<lparr> rs_path = dl_Path d, rs_device = device, rs_mechanism = tg_mechanism t,
                                      rs_expected = kernelIODeviceWeight (dl_Value d) (tg_mechanism t) \<rparr>]) ds)))"

definition prepareIODeviceWeightResets ::
  "cgroup_verifier \<Rightarrow> kernel_fs \<Rightarrow> unit_identity \<Rightarrow> property_assignment \<Rightarrow> property_assignment \<Rightarrow> io_device_weight_reset list option" where
  "prepareIODeviceWeightResets v fs identity previous desired =
     (if pa_name previous \<noteq> PropertyIODeviceWeight \<or> pa_name desired \<noteq> PropertyIODeviceWeight \<or> ui_ControlGroupID identity = 0 then None
      else map_option (sort_key rs_path)
             (collectResets (deviceNumber v fs) (pa_targets previous) (map dl_Path (pv_devices (pa_value desired))) []
                (pv_devices (pa_value previous))))"

text \<open>
  The accesses of a reset run, newest first. What an access finds may depend on all earlier ones.
  \<open>kw_write\<close> tells whether rewinding, writing the whole line and closing succeed.
\<close>

datatype kernel_access =
    LookIdentity string
  | LookDevice string
  | LookWeights string
  | LockWeights string
  | WriteWeights string string

record kernel_world =
  kw_fs :: "kernel_access list \<Rightarrow> kernel_fs"
  kw_write :: "kernel_access list \<Rightarrow> bool"
  kw_close :: "kernel_access list \<Rightarrow> bool"

type_synonym 'a kernel_op = "(kernel_access list, reset_error, 'a) op"

definition accessR :: "kernel_world \<Rightarrow> kernel_access \<Rightarrow> (kernel_fs \<Rightarrow> (reset_error, 'a) res) \<Rightarrow> 'a kernel_op" where
  "accessR w access answer = (\<lambda>t. (answer (kw_fs w t), access # t))"

definition confirmIdentity :: "cgroup_verifier \<Rightarrow> kernel_world \<Rightarrow> unit_snapshot \<Rightarrow> unit kernel_op" where
  "confirmIdentity v w snapshot =
     accessR w (LookIdentity (us_ControlGroup snapshot))
       (\<lambda>fs. if verifierIdentity v fs (us_ControlGroup snapshot) = Some (ui_ControlGroupID (us_Identity snapshot)) then Inr () else Inl ResetConflict)"

definition confirmDevice :: "cgroup_verifier \<Rightarrow> kernel_world \<Rightarrow> io_device_weight_reset \<Rightarrow> unit kernel_op" where
  "confirmDevice v w r =
     accessR w (LookDevice (rs_path r)) (\<lambda>fs. if deviceNumber v fs (rs_path r) = Inr (rs_device r) then Inr () else Inl ResetConflict)"

definition resetFile :: "string \<Rightarrow> io_device_weight_reset \<Rightarrow> string" where
  "resetFile path r = joinClean path (ioDeviceWeightKernelFile (rs_mechanism r))"

definition weightIn :: "kernel_fs \<Rightarrow> string \<Rightarrow> string \<Rightarrow> (reset_error, u64 option) res" where
  "weightIn fs file device =
     (case kf_readFile fs file of
        Inl e \<Rightarrow> if e = ErrNotExist then Inr None else Inl ResetFailure
      | Inr text \<Rightarrow> (case parseKernelIODeviceWeights text of None \<Rightarrow> Inl ResetFailure | Some ws \<Rightarrow> Inr (map_of ws device)))"

definition readIODeviceWeightResetValue :: "kernel_world \<Rightarrow> string \<Rightarrow> io_device_weight_reset \<Rightarrow> u64 option kernel_op" where
  "readIODeviceWeightResetValue w path r =
     accessR w (LookWeights (resetFile path r)) (\<lambda>fs. weightIn fs (resetFile path r) (rs_device r))"

definition resetLine :: "io_device_weight_reset \<Rightarrow> string" where
  "resetLine r = rs_device r @ '' default'' @ [LF]"

text \<open>\<^verbatim>\<open>writeIODeviceWeightReset\<close>: the unit's inode and the owned value are checked again on the open file.\<close>

definition lockedWeight ::
  "cgroup_verifier \<Rightarrow> kernel_world \<Rightarrow> unit_snapshot \<Rightarrow> string \<Rightarrow> io_device_weight_reset \<Rightarrow> u64 option kernel_op" where
  "lockedWeight v w snapshot path r =
     accessR w (LockWeights (resetFile path r))
       (\<lambda>fs. case openIODeviceWeightCgroup v fs (us_ControlGroup snapshot) of
           None \<Rightarrow> Inl ResetFailure
         | Some inode \<Rightarrow>
             if inode \<noteq> ui_ControlGroupID (us_Identity snapshot) then Inl ResetConflict
             else (case kf_readFile fs (resetFile path r) of
                 Inl _ \<Rightarrow> Inl ResetFailure
               | Inr text \<Rightarrow>
                   (case parseKernelIODeviceWeights text of
                      None \<Rightarrow> Inl ResetFailure
                    | Some ws \<Rightarrow> Inr (map_of ws (rs_device r)))))"

definition closeR :: "kernel_world \<Rightarrow> unit kernel_op" where
  "closeR w = (\<lambda>t. (if kw_close w t then Inr () else Inl ResetFailure, t))"

definition writeIODeviceWeightReset ::
  "cgroup_verifier \<Rightarrow> kernel_world \<Rightarrow> unit_snapshot \<Rightarrow> string \<Rightarrow> io_device_weight_reset \<Rightarrow> unit kernel_op" where
  "writeIODeviceWeightReset v w snapshot path r =
     bindR (lockedWeight v w snapshot path r) (\<lambda>current.
       case current of
         None \<Rightarrow> closeR w
       | Some weight \<Rightarrow>
           if weight \<noteq> rs_expected r then failR ResetConflict
           else (\<lambda>t. (if kw_write w t then Inr () else Inl ResetFailure, WriteWeights (resetFile path r) (resetLine r) # t)))"

definition resetKey :: "io_device_weight_reset \<Rightarrow> mechanism \<times> string" where
  "resetKey r = (rs_mechanism r, rs_device r)"

fun inspectResets ::
  "cgroup_verifier \<Rightarrow> kernel_world \<Rightarrow> string \<Rightarrow> (mechanism \<times> string) list \<Rightarrow> (mechanism \<times> string) list \<Rightarrow>
     io_device_weight_reset list \<Rightarrow> (mechanism \<times> string) list kernel_op" where
  "inspectResets v w path seen present [] = retR present"
| "inspectResets v w path seen present (r # rs) =
     bindR (checkR (validAbsolutePath (rs_path r) \<and> validIODeviceWeightMechanism (rs_mechanism r) \<and> rs_expected r \<noteq> 0) ResetFailure) (\<lambda>_.
     bindR (checkR (resetKey r \<notin> set seen) ResetFailure) (\<lambda>_.
     bindR (confirmDevice v w r) (\<lambda>_.
     bindR (readIODeviceWeightResetValue w path r) (\<lambda>actual.
     bindR (checkR (actual = None \<or> actual = Some (rs_expected r)) ResetConflict) (\<lambda>_.
     inspectResets v w path (resetKey r # seen) (if actual = None then present else resetKey r # present) rs)))))"

definition removeWeight ::
  "cgroup_verifier \<Rightarrow> kernel_world \<Rightarrow> unit_snapshot \<Rightarrow> string \<Rightarrow> (mechanism \<times> string) list \<Rightarrow> io_device_weight_reset \<Rightarrow> unit kernel_op" where
  "removeWeight v w snapshot path present r =
     (if resetKey r \<notin> set present then retR ()
      else bindR (confirmDevice v w r) (\<lambda>_. writeIODeviceWeightReset v w snapshot path r))"

definition confirmRemoved :: "kernel_world \<Rightarrow> string \<Rightarrow> io_device_weight_reset \<Rightarrow> unit kernel_op" where
  "confirmRemoved w path r =
     bindR (readIODeviceWeightResetValue w path r) (\<lambda>actual. checkR (actual = None) ResetFailure)"

definition resetIODeviceWeightOverrides ::
  "cgroup_verifier \<Rightarrow> kernel_world \<Rightarrow> unit_snapshot \<Rightarrow> io_device_weight_reset list \<Rightarrow> unit kernel_op" where
  "resetIODeviceWeightOverrides v w snapshot resets =
     (if resets = [] then retR ()
      else (case controlGroupPath v (us_ControlGroup snapshot) of
          None \<Rightarrow> failR ResetFailure
        | Some path \<Rightarrow>
            bindR (confirmIdentity v w snapshot) (\<lambda>_.
            bindR (inspectResets v w path [] [] resets) (\<lambda>present.
            bindR (forR (removeWeight v w snapshot path present) resets) (\<lambda>_.
            bindR (confirmIdentity v w snapshot) (\<lambda>_.
            forR (confirmRemoved w path) resets))))))"

section \<open>What the kernel prints\<close>

lemma fieldsFrom_graphic: "list_all graphic a \<Longrightarrow> fieldsFrom acc (a @ s) = fieldsFrom (rev a @ acc) s"
proof (induction a arbitrary: acc)
  case (Cons c a)
  then have "spaceWidth (map byte_of ((c # a) @ s)) = 0" by (simp add: spaceWidth_graphic)
  then have "fieldsFrom acc ((c # a) @ s) = fieldsFrom (c # acc) (a @ s)"
    by (subst fieldsFrom.simps) (simp only: Let_def, simp)
  also have "\<dots> = fieldsFrom (rev (c # a) @ acc) s" using Cons by simp
  finally show ?case .
qed simp

lemma fieldsFrom_space:
  assumes "byte_of c = 32 \<or> byte_of c = 10"
  shows "fieldsFrom acc (c # s) = (if acc = [] then [] else [rev acc]) @ fieldsFrom [] s"
proof -
  have widths: "spaceWidth (32 # bs) = 1" "spaceWidth (10 # bs) = 1" for bs
    by (simp_all add: spaceWidth_def spaceEncodings_def)
  have "spaceWidth (map byte_of (c # s)) = 1" using assms by (elim disjE) (simp_all only: list.map widths)
  then show ?thesis by (subst fieldsFrom.simps) (simp only: Let_def, simp)
qed

lemma fieldsFrom_Nil [simp]: "fieldsFrom acc [] = (if acc = [] then [] else [rev acc])"
  by (subst fieldsFrom.simps) simp

definition wordLine :: "string list \<Rightarrow> string" where
  "wordLine ws = joinWith (CHR '' '') ws"

definition plainWord :: "string \<Rightarrow> bool" where
  "plainWord w \<longleftrightarrow> w \<noteq> [] \<and> list_all graphic w"

lemma byte_space [simp]: "byte_of (CHR '' '') = 32"
  by (simp add: byte_of_def)

lemma fieldsOf_words:
  assumes "list_all plainWord ws"
  shows "fieldsOf (wordLine ws) = ws" and "ws \<noteq> [] \<Longrightarrow> fieldsOf (wordLine ws @ [LF]) = ws"
proof -
  have "fieldsFrom [] (joinWith (CHR '' '') ws @ r) = ws" if "ws \<noteq> []" "r = [] \<or> r = [LF]" for r
    using assms that
  proof (induction ws)
    case (Cons x xs)
    show ?case
    proof (cases "xs = []")
      case True
      with Cons.prems show ?thesis by (auto simp: plainWord_def fieldsFrom_graphic fieldsFrom_space)
    next
      case False
      with Cons show ?thesis by (simp add: plainWord_def fieldsFrom_graphic fieldsFrom_space)
    qed
  qed simp
  from this [of "[]"] this [of "[LF]"] show "fieldsOf (wordLine ws) = ws" "ws \<noteq> [] \<Longrightarrow> fieldsOf (wordLine ws @ [LF]) = ws"
    by (cases "ws = []"; simp add: fieldsOf_def wordLine_def)+
qed

lemma trimSpace_text:
  assumes "s \<noteq> []" "graphic (hd s)" "graphic (last s)"
  shows "trimSpace (s @ [LF]) = s" and "trimSpace s = s"
proof -
  have left: "trimLeftSpace (s @ r) = s @ r" for r
    using assms spaceWidth_graphic(1) by (subst trimLeftSpace.simps) (cases s, auto)
  have right: "trimRightSpaceRev (rev s) = rev s"
    using assms spaceWidth_graphic(2) by (subst trimRightSpaceRev.simps) (cases s rule: rev_cases, auto)
  show "trimSpace s = s" using left [of "[]"] right by (simp add: trimSpace_def)
  have "trimRightSpaceRev (LF # rev s) = trimRightSpaceRev (rev s)"
    using spaceWidth_graphic(3) by (subst trimRightSpaceRev.simps) (simp add: Let_def)
  then show "trimSpace (s @ [LF]) = s" using left right by (simp add: trimSpace_def)
qed

lemma decimal_graphic: "list_all graphic (formatUint n)"
  using digits_formatUint [of n] by (auto simp: list_all_iff digit_graphic)

lemma plain_decimal [simp]: "plainWord (formatUint n)"
  by (simp add: plainWord_def decimal_graphic)

lemma colon_graphic [simp]: "graphic (CHR '':'')"
  by (simp add: graphic_def byte_of_def)

lemma plain_device [simp]: "plainWord (deviceNumberString n)"
  by (simp add: plainWord_def deviceNumberString_def decimal_graphic)

lemma decimal_no_colon: "CHR '':'' \<notin> set (formatUint n)"
  using digits_formatUint [of n] by (auto simp: list_all_iff is_digit_def byte_of_def)

lemma device_field [simp]: "kernelDeviceField (deviceNumberString n)"
proof -
  have "splitOn (CHR '':'') (deviceNumberString n) = [formatUint (unat (fst n)), formatUint (unat (snd n))]"
    using splitOn_append [of "CHR '':''" "formatUint (unat (fst n))"] by (simp add: deviceNumberString_def decimal_no_colon)
  moreover have "unat (x :: u32) < 2 ^ 32" for x using unsigned_less [of x, where ?'a = nat] by simp
  ultimately show ?thesis by (simp add: kernelDeviceField_def parseUint_formatUint)
qed

lemma device_string_inj: "deviceNumberString m = deviceNumberString n \<Longrightarrow> m = n"
proof -
  assume eq: "deviceNumberString m = deviceNumberString n"
  have split: "splitOn (CHR '':'') (deviceNumberString k) = [formatUint (unat (fst k)), formatUint (unat (snd k))]" for k
    using splitOn_append [of "CHR '':''" "formatUint (unat (fst k))"] by (simp add: deviceNumberString_def decimal_no_colon)
  from arg_cong [OF eq, of "splitOn (CHR '':'')"]
  have "formatUint (unat (fst m)) = formatUint (unat (fst n))" "formatUint (unat (snd m)) = formatUint (unat (snd n))"
    by (simp_all add: split)
  then have "unat (fst m) = unat (fst n)" "unat (snd m) = unat (snd n)" by (metis decValue_formatUint)+
  then show "m = n" by (metis prod_eq_iff word_unat_eq_iff)
qed

lemma device_not_default: "deviceNumberString n \<noteq> ''default''"
proof
  assume "deviceNumberString n = ''default''"
  then have "CHR '':'' \<in> set ''default''" by (metis deviceNumberString_def append_Cons in_set_conv_decomp)
  then show False by simp
qed

text \<open>The weight files: the default first, then the devices with a weight of their own.\<close>

definition weightLines :: "u64 \<Rightarrow> ((u32 \<times> u32) \<times> u64) list \<Rightarrow> string list" where
  "weightLines d ws = wordLine [''default'', formatUint (unat d)] # map (\<lambda>(n, w). wordLine [deviceNumberString n, formatUint (unat w)]) ws"

definition weightsText :: "u64 \<Rightarrow> ((u32 \<times> u32) \<times> u64) list \<Rightarrow> string" where
  "weightsText d ws = joinWith LF (weightLines d ws) @ [LF]"

lemma plain_default [simp]: "plainWord ''default''"
  by (simp add: plainWord_def graphic_def byte_of_def)

lemma LF_not_graphic [simp]: "\<not> graphic LF"
  by (simp add: graphic_def)

lemma wordLine_no_LF: "list_all plainWord ws \<Longrightarrow> LF \<notin> set (wordLine ws)"
proof -
  assume "list_all plainWord ws"
  then have "LF \<notin> \<Union> (set ` set ws)" using LF_not_graphic unfolding list_all_iff plainWord_def by blast
  moreover have "LF \<noteq> CHR '' ''" using byte_LF byte_space by (metis numeral_eq_iff num.distinct(5) num.inject(1))
  ultimately show ?thesis using set_joinWith [of "CHR '' ''" ws] by (auto simp: wordLine_def)
qed

lemma joined_ends:
  assumes "ls \<noteq> []" "\<forall>l \<in> set ls. l \<noteq> []"
  shows "joinWith sep ls \<noteq> []" "hd (joinWith sep ls) = hd (hd ls)" "last (joinWith sep ls) = last (last ls)"
proof -
  have "joinWith sep ls \<noteq> [] \<and> hd (joinWith sep ls) = hd (hd ls) \<and> last (joinWith sep ls) = last (last ls)"
    using assms
  proof (induction ls)
    case (Cons l ls)
    then show ?case by (cases "ls = []") auto
  qed simp
  then show "joinWith sep ls \<noteq> []" "hd (joinWith sep ls) = hd (hd ls)" "last (joinWith sep ls) = last (last ls)" by auto
qed

lemma wordLine_ends:
  assumes "ws \<noteq> []" "list_all plainWord ws"
  shows "wordLine ws \<noteq> []" "graphic (hd (wordLine ws))" "graphic (last (wordLine ws))"
proof -
  have ne: "\<forall>w \<in> set ws. w \<noteq> []" using assms(2) by (auto simp: list_all_iff plainWord_def)
  note ends = joined_ends [OF assms(1) ne, of "CHR '' ''"]
  have "graphic (hd w)" "graphic (last w)" if "w \<in> set ws" for w
    using assms(2) that by (auto simp: list_all_iff plainWord_def)
  then show "wordLine ws \<noteq> []" "graphic (hd (wordLine ws))" "graphic (last (wordLine ws))"
    using ends assms(1) by (auto simp: wordLine_def)
qed

text \<open>A text of plain lines is read back line by line.\<close>

lemma lines_read_back:
  assumes "lss \<noteq> []" "\<forall>ws \<in> set lss. ws \<noteq> [] \<and> list_all plainWord ws"
  shows "splitOn LF (trimSpace (joinWith LF (map wordLine lss) @ [LF])) = map wordLine lss"
proof -
  have ne: "\<forall>l \<in> set (map wordLine lss). l \<noteq> []" and lf: "\<forall>l \<in> set (map wordLine lss). LF \<notin> set l"
    using assms(2) by (auto simp: wordLine_ends wordLine_no_LF)
  have nonempty: "map wordLine lss \<noteq> []" using assms(1) by simp
  note ends = joined_ends [OF nonempty ne, of LF]
  have "graphic (hd (joinWith LF (map wordLine lss)))" "graphic (last (joinWith LF (map wordLine lss)))"
    using ends(2,3) assms by (auto simp: hd_map last_map wordLine_ends)
  then show ?thesis
    by (simp add: trimSpace_text(1) [OF ends(1)] split_joinWith [OF nonempty lf])
qed

lemma weights_lines:
  "weightsText d ws = joinWith LF (map wordLine ([''default'', formatUint (unat d)] # map (\<lambda>(n, w). [deviceNumberString n, formatUint (unat w)]) ws)) @ [LF]"
  by (simp add: weightsText_def weightLines_def comp_def case_prod_unfold)

lemma parse_u64 [simp]: "parseUint 64 (formatUint (unat (w :: u64))) = Some (unat w)"
  using unat_u64_less [of w] by (simp add: parseUint_formatUint)

lemma deviceWeightsIn_lines:
  assumes "distinct (map fst ws)" "\<forall>(n, w) \<in> set ws. w \<noteq> 0" "\<forall>n \<in> fst ` set ws. deviceNumberString n \<notin> fst ` set result"
  shows "deviceWeightsIn result (map (\<lambda>(n, w). wordLine [deviceNumberString n, formatUint (unat w)]) ws) =
    Some (result @ map (\<lambda>(n, w). (deviceNumberString n, w)) ws)"
  using assms
proof (induction ws arbitrary: result)
  case (Cons p ws)
  obtain n w where p: "p = (n, w)" by (cases p)
  have fresh: "map_of result (deviceNumberString n) = None" using Cons.prems(3) p by (simp add: map_of_eq_None_iff)
  have w: "unat w \<noteq> 0" using Cons.prems(2) p by (simp add: unat_eq_zero)
  have "deviceWeightsIn result (map (\<lambda>(n, w). wordLine [deviceNumberString n, formatUint (unat w)]) (p # ws)) =
    deviceWeightsIn (result @ [(deviceNumberString n, w)]) (map (\<lambda>(n, w). wordLine [deviceNumberString n, formatUint (unat w)]) ws)"
    using fresh w by (simp add: p fieldsOf_words device_not_default)
  also have "\<dots> = Some ((result @ [(deviceNumberString n, w)]) @ map (\<lambda>(n, w). (deviceNumberString n, w)) ws)"
  proof (rule Cons.IH)
    show "\<forall>m \<in> fst ` set ws. deviceNumberString m \<notin> fst ` set (result @ [(deviceNumberString n, w)])"
    proof (rule ballI)
      fix m assume m: "m \<in> fst ` set ws"
      then have "m \<noteq> n" using Cons.prems(1) p by auto
      then show "deviceNumberString m \<notin> fst ` set (result @ [(deviceNumberString n, w)])"
        using Cons.prems(3) m device_string_inj [of m n] by auto
    qed
  qed (use Cons.prems p in auto)
  also have "\<dots> = Some (result @ map (\<lambda>(n, w). (deviceNumberString n, w)) (p # ws))" by (simp add: p)
  finally show ?case .
qed simp

lemma weights_read_back:
  assumes "distinct (map fst ws)" "\<forall>(n, w) \<in> set ws. w \<noteq> 0"
  shows "parseKernelIODeviceWeights (weightsText d ws) = Some (map (\<lambda>(n, w). (deviceNumberString n, w)) ws)"
    and "parseKernelDefaultIOWeight (weightsText d ws) = Some d"
proof -
  have "splitOn LF (trimSpace (weightsText d ws)) = weightLines d ws"
    unfolding weights_lines by (subst lines_read_back) (auto simp: weightLines_def)
  then show "parseKernelIODeviceWeights (weightsText d ws) = Some (map (\<lambda>(n, w). (deviceNumberString n, w)) ws)"
      "parseKernelDefaultIOWeight (weightsText d ws) = Some d"
    using assms deviceWeightsIn_lines [OF assms, of "[]"]
    by (simp_all add: parseKernelIODeviceWeights_def parseKernelDefaultIOWeight_def weightLines_def fieldsOf_words)
qed

text \<open>A scalar file: a number or \<^verbatim>\<open>max\<close> for the largest one.\<close>

definition scalarText :: "u64 \<Rightarrow> string" where
  "scalarText k = (if k = - 1 then ''max'' else formatUint (unat k)) @ [LF]"

lemma scalar_read_back: "parseKernelScalar (scalarText k) = Some k"
proof (cases "k = - 1")
  case True
  have "list_all graphic ''max''" by (simp add: graphic_def byte_of_def)
  then show ?thesis using True trimSpace_line(1) [of "''max''"] by (simp add: parseKernelScalar_def scalarText_def)
next
  case False
  have trimmed: "trimSpace (formatUint (unat k) @ [LF]) = formatUint (unat k)"
    by (rule trimSpace_line) (simp_all add: decimal_graphic)
  have "hd ''max'' \<notin> set (formatUint (unat k))"
    using digits_formatUint [of "unat k"] by (auto simp: list_all_iff is_digit_def byte_of_def)
  then have "formatUint (unat k) \<noteq> ''max''" by (metis hd_in_set list.distinct(1))
  moreover have "\<not> list_ex (\<lambda>c. byte_of c \<in> {32, 9, 13, 10}) (formatUint (unat k))"
    using decimal_graphic [of "unat k"] by (auto simp: list_ex_iff list_all_iff graphic_def)
  ultimately show ?thesis using False trimmed by (simp add: parseKernelScalar_def scalarText_def)
qed

section \<open>Verification is exact\<close>

text \<open>The finite limit that \<^verbatim>\<open>io.max\<close> gives a device, and the one systemd reports for it.\<close>

abbreviation decimalOf :: "u64 \<Rightarrow> string" where
  "decimalOf w \<equiv> formatUint (unat w)"

definition finiteLimit :: "string \<Rightarrow> (string \<times> string) list \<Rightarrow> string option" where
  "finiteLimit field limits = (case map_of limits field of Some x \<Rightarrow> if x = ''max'' then None else Some x | None \<Rightarrow> None)"

definition kernelLimit :: "string \<Rightarrow> (string \<times> (string \<times> string) list) list \<Rightarrow> string \<Rightarrow> string option" where
  "kernelLimit field actual device = (case map_of actual device of None \<Rightarrow> None | Some limits \<Rightarrow> finiteLimit field limits)"

fun reportedLimit :: "cgroup_verifier \<Rightarrow> kernel_fs \<Rightarrow> device_limit list \<Rightarrow> string \<Rightarrow> u64 option" where
  "reportedLimit v fs [] device = None"
| "reportedLimit v fs (l # ls) device =
     (case reportedLimit v fs ls device of
        Some x \<Rightarrow> Some x
      | None \<Rightarrow> if deviceNumber v fs (dl_Path l) = Inr device then Some (dl_Value l) else None)"

lemma decimal_not_max: "formatUint n \<noteq> ''max''"
proof
  assume "formatUint n = ''max''"
  then have "list_all is_digit ''max''" using digits_formatUint [of n] by simp
  then show False by (simp add: is_digit_def byte_of_def)
qed

lemma finiteLimit_decimal: "finiteLimit field limits = Some (formatUint n) \<longleftrightarrow> map_of limits field = Some (formatUint n)"
  using decimal_not_max [of n] by (auto simp: finiteLimit_def split: option.splits)

lemma finiteLimit_None: "finiteLimit field limits = None \<longleftrightarrow> map_of limits field \<in> {None, Some ''max''}"
  by (auto simp: finiteLimit_def split: option.splits)

lemma kernelLimit_Cons: "kernelLimit field ((device, limits) # rest) d = (if d = device then finiteLimit field limits else kernelLimit field rest d)"
  by (simp add: kernelLimit_def)

lemma kernelLimit_absent: "device \<notin> fst ` set rest \<Longrightarrow> kernelLimit field rest device = None"
  by (simp add: kernelLimit_def map_of_eq_None_iff [THEN iffD2])

lemma kernelLimit_step:
  assumes "device \<notin> fst ` set rest"
  shows "(\<forall>d. kernelLimit field ((device, limits) # rest) d = f d) \<longleftrightarrow>
    finiteLimit field limits = f device \<and> (\<forall>d. kernelLimit field rest d = (if d = device then None else f d))"
  using kernelLimit_absent [OF assms, of field] by (auto simp: kernelLimit_Cons split: if_splits)

lemma matchDevices_iff:
  assumes "distinct (map fst actual)"
  shows "matchDevices field wanted actual = None \<longleftrightarrow> (\<forall>d. kernelLimit field actual d = map_option decimalOf (map_of wanted d))"
  using assms
proof (induction actual arbitrary: wanted)
  case Nil
  have "wanted = [] \<longleftrightarrow> (\<forall>d. map_of wanted d = None)" by (simp add: fun_eq_iff flip: map_of_eq_empty_iff)
  then show ?case by (auto simp: kernelLimit_def)
next
  case (Cons entry rest)
  obtain device limits where entry: "entry = (device, limits)" by (cases entry)
  then have fresh: "device \<notin> fst ` set rest" and "distinct (map fst rest)" using Cons.prems by simp_all
  note IH = Cons.IH [OF this(2)]
  note step = kernelLimit_step [OF fresh, of field limits "\<lambda>d. map_option decimalOf (map_of wanted d)"]
  show ?case
  proof (cases "map_of wanted device")
    case None
    then have "(if d = device then None else map_option decimalOf (map_of wanted d)) = map_option decimalOf (map_of wanted d)" for d
      by simp
    with None step show ?thesis by (simp add: entry IH finiteLimit_None del: not_None_eq)
  next
    case (Some w)
    have "map_option decimalOf (map_of (AList.delete device wanted) d) = (if d = device then None else map_option decimalOf (map_of wanted d))" for d
      by simp
    with Some step show ?thesis by (simp add: entry IH finiteLimit_decimal del: map_of_delete)
  qed
qed

lemma deviceLimitsIn_distinct: "deviceLimitsIn result ls = Some actual \<Longrightarrow> distinct (map fst result) \<Longrightarrow> distinct (map fst actual)"
  by (induction result ls rule: deviceLimitsIn.induct) (auto split: list.splits if_splits option.splits simp: distinct_update)

lemma wantedDevices_iff:
  "wantedDevices v fs wanted ls \<noteq> None \<longleftrightarrow> list_all (\<lambda>l. \<exists>d. deviceNumber v fs (dl_Path l) = Inr d) ls"
  by (induction v fs wanted ls rule: wantedDevices.induct) (auto split: sum.splits)

lemma wantedDevices_lookup:
  "wantedDevices v fs wanted ls = Some r \<Longrightarrow>
     map_of r d = (case reportedLimit v fs ls d of Some x \<Rightarrow> Some x | None \<Rightarrow> map_of wanted d)"
  by (induction v fs wanted ls rule: wantedDevices.induct) (auto split: sum.splits option.splits if_splits)

lemma verified_limits_iff:
  "verifyDeviceLimits v fs path snapshot property = None \<longleftrightarrow>
     (\<exists>expected. PropertySet_DeviceLimits (us_Properties snapshot) property = Some expected \<and>
        (expected = [] \<and> kf_readFile fs (joinClean path ''io.max'') = Inl ErrNotExist \<or>
         (\<exists>text actual. kf_readFile fs (joinClean path ''io.max'') = Inr text \<and> parseKernelIOMax text = Some actual \<and>
            list_all (\<lambda>l. \<exists>d. deviceNumber v fs (dl_Path l) = Inr d) expected \<and>
            (\<forall>d. kernelLimit (ioMaxField property) actual d = map_option decimalOf (reportedLimit v fs expected d)))))"
    (is "_ \<longleftrightarrow> (\<exists>expected. ?spec expected)")
proof (cases "PropertySet_DeviceLimits (us_Properties snapshot) property")
  case (Some expected)
  have loop: "matchDevices (ioMaxField property) wanted actual = None \<longleftrightarrow>
      (\<forall>d. kernelLimit (ioMaxField property) actual d = map_option decimalOf (reportedLimit v fs expected d))"
    if "parseKernelIOMax content = Some actual" "wantedDevices v fs [] expected = Some wanted" for content actual wanted
  proof -
    have "distinct (map fst actual)" using that(1) deviceLimitsIn_distinct [of "[]"] by (simp add: parseKernelIOMax_def)
    moreover have "map_of wanted = reportedLimit v fs expected"
      using wantedDevices_lookup [OF that(2)] by (auto simp: fun_eq_iff split: option.splits)
    ultimately show ?thesis by (simp add: matchDevices_iff)
  qed
  have "verifyDeviceLimits v fs path snapshot property = None \<longleftrightarrow> ?spec expected"
    using Some loop wantedDevices_iff [of v fs "[]" expected]
    by (auto simp: verifyDeviceLimits_def split: sum.splits option.splits if_splits)
  then show ?thesis using Some by auto
qed (simp add: verifyDeviceLimits_def)

text \<open>
  \<^verbatim>\<open>cpu.max\<close> shows a quota and a period. The pair that a cgroup quota is converted to for systemd is
  verified by the kernel file that shows the same quota (at least one millisecond) and period.
\<close>

definition cpuMaxText :: "u64 \<Rightarrow> u64 \<Rightarrow> string" where
  "cpuMaxText quota period = wordLine [formatUint (unat quota), formatUint (unat period)] @ [LF]"

lemma scale_converted:
  assumes "unat perSecond * unat period = unat quota * 1000000"
  shows "scalePerSecondQuota perSecond period = Some quota"
proof -
  have "unat quota * 1000000 div 18446744073709551616 < 1000000" using unat_u64_less [of quota] by (simp add: div_less_iff_less_mult)
  then show ?thesis using assms by (simp add: scalePerSecondQuota_def not_le)
qed

lemma converted_pair:
  assumes "NewCPUQuotaAssignmentsFromCgroupMax quota period = Inr as"
  shows "as = [\<lparr> pa_name = PropertyCPUQuotaPerSecUSec, pa_value = scalarPropertyValue (quota * (1000000 div period)), pa_targets = [] \<rparr>,
               \<lparr> pa_name = PropertyCPUQuotaPeriodUSec, pa_value = scalarPropertyValue period, pa_targets = [] \<rparr>]"
    and "unat (quota * (1000000 div period)) * unat period = unat quota * 1000000" and "period \<noteq> SystemdUnset" and "period \<noteq> 0"
proof -
  have fits: "\<not> (- 1) div (1000000 div period) < quota" and div: "1000000 mod period = 0" and nz: "period \<noteq> 0"
    and pair: "NewPropertyAssignment PropertyCPUQuotaPerSecUSec (quota * (1000000 div period)) = Inr (as ! 0)"
      "NewPropertyAssignment PropertyCPUQuotaPeriodUSec period = Inr (as ! 1)" and len: "as = [as ! 0, as ! 1]"
    using assms by (auto simp: NewCPUQuotaAssignmentsFromCgroupMax_def Let_def split: if_splits sum.splits)
  show "as = [\<lparr> pa_name = PropertyCPUQuotaPerSecUSec, pa_value = scalarPropertyValue (quota * (1000000 div period)), pa_targets = [] \<rparr>,
               \<lparr> pa_name = PropertyCPUQuotaPeriodUSec, pa_value = scalarPropertyValue period, pa_targets = [] \<rparr>]"
    using pair len by (simp add: NewPropertyAssignment_Inr)
  have dvd: "unat period dvd 1000000" using div by (simp add: word_unat_eq_iff unat_mod dvd_eq_mod_eq_0)
  have f: "unat (1000000 div period) = 1000000 div unat period" by (simp add: unat_div)
  have pos: "0 < unat period" using nz by (simp add: unat_gt_0)
  have "0 < 1000000 div unat period" using dvd pos by (metis dvd_div_eq_0_iff gr0I zero_neq_numeral)
  then have "unat quota * (1000000 div unat period) < 2 ^ 64"
    using fits by (simp add: word_less_nat_alt unat_minus1_div not_less less_eq_div_iff_mult_less_eq f)
  then have "unat (quota * (1000000 div period)) = unat quota * (1000000 div unat period)"
    by (simp add: unat_mult_lem [THEN iffD1] f)
  then show "unat (quota * (1000000 div period)) * unat period = unat quota * 1000000" using dvd by simp
  have "unat period \<le> 1000000" using dvd by (rule dvd_imp_le) simp
  then show "period \<noteq> SystemdUnset" by (auto simp: SystemdUnset_def unsigned_minus_1_eq_mask mask_eq_exp_minus_1)
  show "period \<noteq> 0" by (rule nz)
qed

lemma verified_quota_iff:
  assumes "NewCPUQuotaAssignmentsFromCgroupMax quota period = Inr as"
    and "\<forall>a \<in> set as. PropertySet_Value (us_Properties snapshot) (pa_name a) = Some (pv_scalar (pa_value a))"
    and "pv_scalar (pa_value (hd as)) \<noteq> SystemdUnset"
    and "kf_readFile fs (joinClean path ''cpu.max'') = Inr (cpuMaxText q p)" and "p \<noteq> 0"
  shows "verifyCPUQuota fs path snapshot = None \<longleftrightarrow> q = max 1000 quota \<and> p = period"
proof -
  note conv = converted_pair [OF assms(1)]
  let ?s = "quota * (1000000 div period)"
  have reported: "PropertySet_Value (us_Properties snapshot) PropertyCPUQuotaPerSecUSec = Some ?s"
      "PropertySet_Value (us_Properties snapshot) PropertyCPUQuotaPeriodUSec = Some period" "?s \<noteq> SystemdUnset"
    using assms(2,3) by (simp_all add: conv(1) scalarPropertyValue_def)
  have nonzero: "unat p \<noteq> 0" using assms(5) by (simp add: unat_eq_zero)
  have "fieldsOf (cpuMaxText q p) = [formatUint (unat q), formatUint (unat p)]"
    by (simp add: cpuMaxText_def fieldsOf_words)
  then have "verifyCPUQuota fs path snapshot =
    (if p \<noteq> period then Some KernelValueMismatch else if q \<noteq> (if quota < 1000 then 1000 else quota) then Some KernelValueMismatch else None)"
    using assms(4) reported conv(3) nonzero scale_converted [OF conv(2)] by (simp add: verifyCPUQuota_def Let_def)
  then show ?thesis by (auto simp: max_def not_le)
qed

section \<open>Resets remove only owned weights\<close>

text \<open>
  Every write of a trace removes the weight of one requested device, right after the file was read
  through the same open directory with the unit's inode, and found the owned weight.
\<close>

definition ownedWhenRead ::
  "cgroup_verifier \<Rightarrow> kernel_world \<Rightarrow> unit_snapshot \<Rightarrow> string \<Rightarrow> io_device_weight_reset \<Rightarrow> kernel_access list \<Rightarrow> bool" where
  "ownedWhenRead v w snapshot path r t \<longleftrightarrow>
     openIODeviceWeightCgroup v (kw_fs w t) (us_ControlGroup snapshot) = Some (ui_ControlGroupID (us_Identity snapshot)) \<and>
     weightIn (kw_fs w t) (resetFile path r) (rs_device r) = Inr (Some (rs_expected r))"

definition guardedWrite ::
  "cgroup_verifier \<Rightarrow> kernel_world \<Rightarrow> unit_snapshot \<Rightarrow> string \<Rightarrow> io_device_weight_reset list \<Rightarrow> kernel_access list \<Rightarrow> string \<Rightarrow> string \<Rightarrow> bool" where
  "guardedWrite v w snapshot path resets t file line \<longleftrightarrow>
     (\<exists>r \<in> set resets. file = resetFile path r \<and> line = resetLine r \<and>
        (\<exists>t'. t = LockWeights file # t' \<and> ownedWhenRead v w snapshot path r t'))"

fun guardedWrites ::
  "cgroup_verifier \<Rightarrow> kernel_world \<Rightarrow> unit_snapshot \<Rightarrow> string \<Rightarrow> io_device_weight_reset list \<Rightarrow> kernel_access list \<Rightarrow> bool" where
  "guardedWrites v w snapshot path resets [] = True"
| "guardedWrites v w snapshot path resets (WriteWeights file line # t) =
     (guardedWrite v w snapshot path resets t file line \<and> guardedWrites v w snapshot path resets t)"
| "guardedWrites v w snapshot path resets (access # t) = guardedWrites v w snapshot path resets t"

definition isWrite :: "kernel_access \<Rightarrow> bool" where
  "isWrite a \<longleftrightarrow> (case a of WriteWeights _ _ \<Rightarrow> True | _ \<Rightarrow> False)"

text \<open>The device had no weight of its own when it was last looked at, with no write since.\<close>

definition seenRemoved :: "kernel_world \<Rightarrow> string \<Rightarrow> io_device_weight_reset \<Rightarrow> kernel_access list \<Rightarrow> bool" where
  "seenRemoved w path r t \<longleftrightarrow>
     (\<exists>later t'. t = later @ LookWeights (resetFile path r) # t' \<and> list_all (Not \<circ> isWrite) later \<and>
        weightIn (kw_fs w t') (resetFile path r) (rs_device r) = Inr None)"

lemma guardedWrites_look [simp]: "\<not> isWrite a \<Longrightarrow> guardedWrites v w snapshot path resets (a # t) = guardedWrites v w snapshot path resets t"
  by (cases a) (simp_all add: isWrite_def)

lemma keeps_access: "\<not> isWrite a \<Longrightarrow> keeps (guardedWrites v w snapshot path resets) (accessR w a f)"
  by (rule tripleI) (auto simp: accessR_def)

lemma looks_not_writes [simp]:
  "\<not> isWrite (LookIdentity cg)" "\<not> isWrite (LookDevice f)" "\<not> isWrite (LookWeights f)" "\<not> isWrite (LockWeights f)"
  by (simp_all add: isWrite_def)

lemma keeps_looks:
  "keeps (guardedWrites v w snapshot path resets) (confirmIdentity v w s)"
  "keeps (guardedWrites v w snapshot path resets) (confirmDevice v w r)"
  "keeps (guardedWrites v w snapshot path resets) (readIODeviceWeightResetValue w p r)"
  by (simp_all add: confirmIdentity_def confirmDevice_def readIODeviceWeightResetValue_def keeps_access)

lemma locked_owned:
  "triple (guardedWrites v w snapshot path resets) (lockedWeight v w snapshot path r)
     (\<lambda>current t. guardedWrites v w snapshot path resets t \<and>
        (current = Some (rs_expected r) \<longrightarrow> (\<exists>t'. t = LockWeights (resetFile path r) # t' \<and> ownedWhenRead v w snapshot path r t')))
     (\<lambda>_. guardedWrites v w snapshot path resets)"
  by (rule tripleI) (auto simp: lockedWeight_def accessR_def ownedWhenRead_def weightIn_def split: option.splits if_splits sum.splits)

lemma keeps_writeReset:
  assumes "r \<in> set resets"
  shows "keeps (guardedWrites v w snapshot path resets) (writeIODeviceWeightReset v w snapshot path r)"
  unfolding writeIODeviceWeightReset_def
proof (rule triple_bind [OF locked_owned], rule triple_case_option)
  fix current :: "u64 option" and weight
  assume "current = Some weight"
  then show "triple (\<lambda>t. guardedWrites v w snapshot path resets t \<and>
      (current = Some (rs_expected r) \<longrightarrow> (\<exists>t'. t = LockWeights (resetFile path r) # t' \<and> ownedWhenRead v w snapshot path r t')))
    (if weight \<noteq> rs_expected r then failR ResetConflict
     else (\<lambda>t. (if kw_write w t then Inr () else Inl ResetFailure, WriteWeights (resetFile path r) (resetLine r) # t)))
    (\<lambda>_. guardedWrites v w snapshot path resets) (\<lambda>_. guardedWrites v w snapshot path resets)"
    using assms by (intro tripleI) (auto simp: failR_def guardedWrite_def split: if_splits)
qed (rule tripleI, auto simp: closeR_def)

lemma keeps_inspect: "keeps (guardedWrites v w snapshot path resets) (inspectResets v w p seen present rs)"
  by (induction v w p seen present rs rule: inspectResets.induct) (auto intro!: keeps_rules keeps_looks)

lemma keeps_remove: "r \<in> set resets \<Longrightarrow> keeps (guardedWrites v w snapshot path resets) (removeWeight v w snapshot path present r)"
  by (simp add: removeWeight_def keeps_simple keeps_bind keeps_looks keeps_writeReset)

lemma keeps_confirmRemoved: "keeps (guardedWrites v w snapshot path resets) (confirmRemoved w path r)"
  unfolding confirmRemoved_def by (intro keeps_rules keeps_looks)

lemma seenRemoved_look: "seenRemoved w path r t \<Longrightarrow> \<not> isWrite a \<Longrightarrow> seenRemoved w path r (a # t)"
  unfolding seenRemoved_def by (elim exE conjE, rule exI [where x = "a # _"]) auto

lemma all_removed:
  "forR (confirmRemoved w path) rs t = (Inr (), t') \<Longrightarrow>
     (\<forall>r \<in> set rs. seenRemoved w path r t') \<and> (\<forall>r. seenRemoved w path r t \<longrightarrow> seenRemoved w path r t')"
proof (induction rs arbitrary: t)
  case (Cons r rs)
  obtain u where first: "confirmRemoved w path r t = (Inr (), u)" and rest: "forR (confirmRemoved w path) rs u = (Inr (), t')"
    using Cons.prems by (auto simp: bindR_Inr)
  have u: "u = LookWeights (resetFile path r) # t" and here: "weightIn (kw_fs w t) (resetFile path r) (rs_device r) = Inr None"
    using first by (auto simp: confirmRemoved_def readIODeviceWeightResetValue_def accessR_def op_defs split: sum.splits if_splits)
  have "seenRemoved w path r u" using here by (fastforce simp: seenRemoved_def u)
  moreover have "seenRemoved w path r' u" if "seenRemoved w path r' t" for r' using that by (simp add: u seenRemoved_look)
  ultimately show ?case using Cons.IH [OF rest] by auto
qed (simp add: retR_def)

lemma reset_run:
  assumes "controlGroupPath v (us_ControlGroup snapshot) = Some path"
  shows "guardedWrites v w snapshot path resets (snd (resetIODeviceWeightOverrides v w snapshot resets []))"
    and "resetIODeviceWeightOverrides v w snapshot resets [] = (Inr (), t) \<Longrightarrow> \<forall>r \<in> set resets. seenRemoved w path r t"
proof -
  have "keeps (guardedWrites v w snapshot path resets) (resetIODeviceWeightOverrides v w snapshot resets)"
    unfolding resetIODeviceWeightOverrides_def assms
    by (auto intro!: keeps_rules keeps_looks keeps_inspect keeps_remove keeps_confirmRemoved)
  from keeps_run [OF this] show "guardedWrites v w snapshot path resets (snd (resetIODeviceWeightOverrides v w snapshot resets []))" by simp
  assume "resetIODeviceWeightOverrides v w snapshot resets [] = (Inr (), t)"
  then show "\<forall>r \<in> set resets. seenRemoved w path r t"
    using assms all_removed by (cases "resets = []") (auto simp: resetIODeviceWeightOverrides_def bindR_Inr)
qed

section \<open>Properties\<close>

text \<open>
  Property C33: the bandwidth and operation limits of a slice are verified exactly when the kernel enforces what
  systemd reports: every device of the report is a block device, and for every device, named by its number,
  the finite limit that the parsed \<^verbatim>\<open>io.max\<close> of the slice holds for the property's field is the reported one, with no
  further device limited; or nothing is reported and the file does not exist.
\<close>

theorem device_limits_verified_iff:
  "verifyDeviceLimits v fs path snapshot property = None \<longleftrightarrow>
     (\<exists>expected. PropertySet_DeviceLimits (us_Properties snapshot) property = Some expected \<and>
        (expected = [] \<and> kf_readFile fs (joinClean path ''io.max'') = Inl ErrNotExist \<or>
         (\<exists>text actual. kf_readFile fs (joinClean path ''io.max'') = Inr text \<and> parseKernelIOMax text = Some actual \<and>
            list_all (\<lambda>l. \<exists>d. deviceNumber v fs (dl_Path l) = Inr d) expected \<and>
            (\<forall>d. kernelLimit (ioMaxField property) actual d = map_option decimalOf (reportedLimit v fs expected d)))))"
  by (rule verified_limits_iff)

text \<open>
  The weight files are read as the kernel prints them. From the text of a weight file with a default
  weight and distinct devices with weights of their own, the parsers return exactly these devices
  with their weights, and the default.
\<close>

theorem weight_file_round_trip:
  assumes "distinct (map fst ws)" "\<forall>(n, w) \<in> set ws. w \<noteq> 0"
  shows "parseKernelIODeviceWeights (weightsText d ws) = Some (map (\<lambda>(n, w). (deviceNumberString n, w)) ws) \<and>
    parseKernelDefaultIOWeight (weightsText d ws) = Some d"
  using weights_read_back [OF assms] by simp

theorem weight_file_round_trip_witness:
  "parseKernelIODeviceWeights (weightsText 100 [((8, 0), 250), ((259, 3), 40)]) = Some [(''8:0'', 250), (''259:3'', 40)]"
proof -
  have "deviceNumberString (8, 0) = ''8:0''" "deviceNumberString (259, 3) = ''259:3''" by code_simp+
  then show ?thesis using weight_file_round_trip [of "[((8, 0), 250), ((259, 3), 40)]" 100] by simp
qed

text \<open>
  The CPU quota that a cgroup quota was converted to is verified exactly when the kernel enforces it.
  When systemd reports the converted pair, verification accepts a slice whose \<^verbatim>\<open>cpu.max\<close> shows \<open>q\<close> and \<open>p\<close> exactly
  when \<open>p\<close> is the configured period and \<open>q\<close> the configured quota, raised to the kernel's minimum of one millisecond.
\<close>

theorem cpu_quota_verified_iff:
  assumes "NewCPUQuotaAssignmentsFromCgroupMax quota period = Inr as"
    and "\<forall>a \<in> set as. PropertySet_Value (us_Properties snapshot) (pa_name a) = Some (pv_scalar (pa_value a))"
    and "pv_scalar (pa_value (hd as)) \<noteq> SystemdUnset"
    and "kf_readFile fs (joinClean path ''cpu.max'') = Inr (cpuMaxText q p)" and "p \<noteq> 0"
  shows "verifyCPUQuota fs path snapshot = None \<longleftrightarrow> q = max 1000 quota \<and> p = period"
  using assms by (rule verified_quota_iff)

text \<open>
  Property C32: a keyed reset removes only what is owned. Whatever the kernel files hold at each access, every line the
  reset writes removes the weight of one requested device, in the weight file of its mechanism, immediately after
  that file was read through the directory with the unit's inode and held exactly the owned weight for the device; and when the reset
  succeeds, every requested device was last seen without a weight of its own.
\<close>

theorem keyed_reset_owned:
  assumes "controlGroupPath v (us_ControlGroup snapshot) = Some path"
    and "resetIODeviceWeightOverrides v w snapshot resets [] = (result, t)"
  shows "guardedWrites v w snapshot path resets t \<and> (result = Inr () \<longrightarrow> (\<forall>r \<in> set resets. seenRemoved w path r t))"
  using reset_run [OF assms(1), of w resets] assms(2) by auto

section \<open>Samples\<close>

text \<open>A slice of a user with a block device, before and after its weight is reset.\<close>

definition sampleVerifier :: cgroup_verifier where
  "sampleVerifier = \<lparr> cv_root = ''/sys/fs/cgroup'', cv_pageSize = 4096, cv_devNumber = \<lambda>_. (8, 0) \<rparr>"

definition sampleSlicePath :: string where
  "sampleSlicePath = ''/sys/fs/cgroup/user.slice/user-1000.slice''"

definition sampleFilesWith :: "(string \<times> string) list \<Rightarrow> kernel_fs" where
  "sampleFilesWith files =
     \<lparr> kf_readFile = \<lambda>p. (case map_of files p of None \<Rightarrow> Inl ErrNotExist | Some content \<Rightarrow> Inr content),
       kf_stat = \<lambda>_. Inr \<lparr> fi_Mode = ModeDevice, fi_Size = 0, fi_ModTime = 0,
                          fi_Stat = Some \<lparr> st_Dev = 5, st_Ino = 9, st_Uid = 0, st_Gid = 0 \<rparr>, fi_Rdev = 0x800 \<rparr>,
       kf_openDir = \<lambda>_. Inr 77 \<rparr>"

definition sampleSlice :: "property_set \<Rightarrow> unit_snapshot" where
  "sampleSlice ps =
     \<lparr> us_Identity = \<lparr> ui_Name = ''user-1000.slice'', ui_ObjectPath = ''/s'', ui_InvocationID = ''0123'', ui_ControlGroupID = 77 \<rparr>,
       us_ControlGroup = ''/user.slice/user-1000.slice'', us_Properties = ps,
       us_unitFiles = \<lparr> fs_fragmentPath = [], fs_dropInPaths = [] \<rparr> \<rparr>"

definition sampleWeightFile :: string where
  "sampleWeightFile = sampleSlicePath @ ''/io.weight''"

definition sampleReset :: io_device_weight_reset where
  "sampleReset = \<lparr> rs_path = ''/dev/sda'', rs_device = ''8:0'', rs_mechanism = IODeviceWeightMechanismIOCost, rs_expected = 250 \<rparr>"

definition sampleKernel :: kernel_world where
  "sampleKernel =
     \<lparr> kw_fs = \<lambda>t. sampleFilesWith [(sampleWeightFile, weightsText 100 (if list_ex isWrite t then [] else [((8, 0), 250)]))],
       kw_write = \<lambda>_. True, kw_close = \<lambda>_. True \<rparr>"

lemma sample_reset_succeeds: "fst (resetIODeviceWeightOverrides sampleVerifier sampleKernel (sampleSlice []) [sampleReset] []) = Inr ()"
  by code_simp

theorem keyed_reset_owned_witness:
  "seenRemoved sampleKernel sampleSlicePath sampleReset
     (snd (resetIODeviceWeightOverrides sampleVerifier sampleKernel (sampleSlice []) [sampleReset] []))"
proof -
  have "controlGroupPath sampleVerifier (us_ControlGroup (sampleSlice [])) = Some sampleSlicePath" by code_simp
  from keyed_reset_owned [OF this, of sampleKernel "[sampleReset]" "fst (resetIODeviceWeightOverrides sampleVerifier sampleKernel (sampleSlice []) [sampleReset] [])"]
  show ?thesis using sample_reset_succeeds
    by (cases "resetIODeviceWeightOverrides sampleVerifier sampleKernel (sampleSlice []) [sampleReset] []") simp
qed

theorem cpu_quota_verified_iff_witness:
  "verifyCPUQuota (sampleFilesWith [(sampleSlicePath @ ''/cpu.max'', cpuMaxText 50000 100000)]) sampleSlicePath
     (sampleSlice [(PropertyCPUQuotaPerSecUSec, scalarPropertyValue 500000), (PropertyCPUQuotaPeriodUSec, scalarPropertyValue 100000)]) = None"
proof -
  let ?fs = "sampleFilesWith [(sampleSlicePath @ ''/cpu.max'', cpuMaxText 50000 100000)]"
  let ?s = "sampleSlice [(PropertyCPUQuotaPerSecUSec, scalarPropertyValue 500000), (PropertyCPUQuotaPeriodUSec, scalarPropertyValue 100000)]"
  let ?as = "[\<lparr> pa_name = PropertyCPUQuotaPerSecUSec, pa_value = scalarPropertyValue 500000, pa_targets = [] \<rparr>,
              \<lparr> pa_name = PropertyCPUQuotaPeriodUSec, pa_value = scalarPropertyValue 100000, pa_targets = [] \<rparr>]"
  have converted: "NewCPUQuotaAssignmentsFromCgroupMax 50000 100000 = Inr ?as" by code_simp
  have reported: "\<forall>a \<in> set ?as. PropertySet_Value (us_Properties ?s) (pa_name a) = Some (pv_scalar (pa_value a))" by code_simp
  have finite: "pv_scalar (pa_value (hd ?as)) \<noteq> SystemdUnset" by code_simp
  have "kf_readFile ?fs (joinClean sampleSlicePath ''cpu.max'') = Inr (cpuMaxText 50000 100000)"
    by (simp add: sampleFilesWith_def joinClean_def sampleSlicePath_def)
  from cpu_quota_verified_iff [OF converted reported finite this] show ?thesis by (simp add: max_def)
qed

theorem device_limits_verified_iff_witness:
  "list_all (\<lambda>l. \<exists>d. deviceNumber sampleVerifier (sampleFilesWith [(sampleSlicePath @ ''/io.max'', ''8:0 rbps=64 wbps=max'')]) (dl_Path l) = Inr d)
     [\<lparr> dl_Path = ''/dev/sda'', dl_Value = 64 \<rparr>]"
proof -
  let ?fs = "sampleFilesWith [(sampleSlicePath @ ''/io.max'', ''8:0 rbps=64 wbps=max'')]"
  let ?s = "sampleSlice [(PropertyIOReadBandwidthMax, devicePropertyValue [\<lparr> dl_Path = ''/dev/sda'', dl_Value = 64 \<rparr>])]"
  have "verifyDeviceLimits sampleVerifier ?fs sampleSlicePath ?s PropertyIOReadBandwidthMax = None" by code_simp
  moreover have "PropertySet_DeviceLimits (us_Properties ?s) PropertyIOReadBandwidthMax = Some [\<lparr> dl_Path = ''/dev/sda'', dl_Value = 64 \<rparr>]"
    by code_simp
  ultimately show ?thesis using device_limits_verified_iff [of sampleVerifier ?fs sampleSlicePath ?s PropertyIOReadBandwidthMax] by auto
qed

end
