(* ===== verification/Kernel_Effect.thy ===== *)
theory Kernel_Effect
  imports Cpu_Acknowledgement Kernel_Files
begin

text \<open>
  The adapter on the kernel files: \<open>kernelBoundary\<close> answers the adapter's kernel calls with
  \<^verbatim>\<open>cgroupVerifier\<close> of \<^verbatim>\<open>Kernel_Files\<close>, as \<^verbatim>\<open>Connect\<close> builds it. The theorem shows that what
  \<^verbatim>\<open>ConfirmApplied\<close> confirms is what the kernel enforces.
\<close>

definition kernelBoundary ::
  "cgroup_verifier \<Rightarrow> (call list \<Rightarrow> kernel_fs) \<Rightarrow> (call list \<Rightarrow> kernel_world) \<Rightarrow> boundary \<Rightarrow> boundary" where
  "kernelBoundary v files world bd = bd\<lparr>
     bd_identity := \<lambda>t cg. verifierIdentity v (files t) cg,
     bd_verify := \<lambda>t snapshot as. verify v (files t) snapshot as,
     bd_preflightApply := \<lambda>t snapshot as. preflightApplyKernel v (files t) snapshot as,
     bd_prepareResets := \<lambda>t identity previous desired. prepareIODeviceWeightResets v (files t) identity previous desired,
     bd_resetOverrides := \<lambda>t snapshot resets.
       (case fst (resetIODeviceWeightOverrides v (world t) snapshot resets []) of Inl e \<Rightarrow> Some e | Inr _ \<Rightarrow> None) \<rparr>"

lemma firstFailure_None: "firstFailure rs = None \<longleftrightarrow> (\<forall>r \<in> set rs. r = None)"
  by (induction rs) (auto simp: firstFailure_def split: option.splits)

lemma verify_scalar:
  assumes "verify v fs snapshot as = None" "a \<in> set as" "pa_name a \<in> set (PropertyCPUWeight # memoryProperties)"
  shows "\<exists>path. controlGroupPath v (us_ControlGroup snapshot) = Some path \<and> verifyScalarFile v fs path snapshot (pa_name a) = None"
proof -
  obtain path where path: "controlGroupPath v (us_ControlGroup snapshot) = Some path"
    using assms(1) by (auto simp: verify_def split: option.splits)
  have "\<forall>r \<in> set (map (verifyScalarFile v fs path snapshot)
      (filter (\<lambda>p. p \<in> pa_name ` set as) [PropertyCPUWeight, PropertyMemoryHigh, PropertyMemoryMax, PropertyMemorySwapMax])). r = None"
    using assms(1) unfolding verify_def path Let_def option.case firstFailure_None set_append by blast
  moreover have "pa_name a \<in> set (filter (\<lambda>p. p \<in> pa_name ` set as) [PropertyCPUWeight, PropertyMemoryHigh, PropertyMemoryMax, PropertyMemorySwapMax])"
    using assms(2,3) by (simp only: memoryProperties_def set_filter mem_Collect_eq image_eqI)
  ultimately show ?thesis using path by (simp only: set_map) blast
qed

lemma verifyScalarFile_set:
  assumes "verifyScalarFile v fs path snapshot p = None" "PropertySet_Value (us_Properties snapshot) p = Some x" "x \<noteq> SystemdUnset"
  shows "\<exists>content. kf_readFile fs (joinClean path (fst (kernelFileForProperty p))) = Inr content \<and>
    parseKernelScalar content = Some (if p \<in> set memoryProperties then pageAlignedMemoryLimit x (cv_pageSize v) else x)"
  using assms by (auto simp: verifyScalarFile_def Let_def split: sum.splits option.splits if_splits prod.splits)

lemma ConfirmApplied_verified:
  assumes "ConfirmApplied bd i as m = (Inr snapshot, m')"
  shows "\<exists>vs t. validateAssignments as = Inr vs \<and> trace m' = CallVerify (ui_Name (us_Identity snapshot)) # t \<and>
    bd_verify bd t snapshot vs = None \<and> (\<forall>a \<in> set vs. confirmedBy snapshot a)"
proof -
  obtain vs m1 m2 m3 where vs: "validateAssignments as = Inr vs"
    and confirms: "forR (confirmAssignment i snapshot) vs m1 = (Inr (), m2)"
    and verified: "verifyKernel bd snapshot vs m2 = (Inr None, m3)" and "m' = m3"
    using assms by (auto simp: ConfirmApplied_def bindR_Inr liftR_def checkR_def retR_def failR_def split: if_splits)
  have "triple (\<lambda>_. True) (forR (confirmAssignment i snapshot) vs) (\<lambda>_ _. \<forall>a \<in> set vs. confirmedBy snapshot a) (\<lambda>_ _. True)"
    by (rule triple_for_all [where R = "\<lambda>a _. confirmedBy snapshot a", OF confirmAssignment_value]) (rule triple_constant)
  from triple_value [OF this _ confirms] have "\<forall>a \<in> set vs. confirmedBy snapshot a" by simp
  moreover have "trace m' = CallVerify (ui_Name (us_Identity snapshot)) # trace m2" "bd_verify bd (trace m2) snapshot vs = None"
    using verified \<open>m' = m3\<close> by (auto simp: verifyKernel_def callR_def emit_def Let_def)
  ultimately show ?thesis using vs by blast
qed

lemma confirmed_value:
  "confirmedBy snapshot a \<Longrightarrow> \<not> isDeviceProperty (pa_name a) \<Longrightarrow> PropertySet_Value (us_Properties snapshot) (pa_name a) = Some (pv_scalar (pa_value a))"
  by (auto simp: confirmedBy_def PropertySet_Value_def PropertySet_propertyValue_def propertyValuesEqual_def clonePropertyValue_def scalarPropertyValue_def)

lemma scalar_not_device: "p \<in> set (PropertyCPUWeight # memoryProperties) \<Longrightarrow> \<not> isDeviceProperty p"
  by (auto simp: memoryProperties_def isDeviceProperty_def approvedDeviceProperties_def property_names)

lemma weight_not_memory: "PropertyCPUWeight \<notin> set memoryProperties"
  by (simp add: memoryProperties_def property_names)

text \<open>
  Property C31: what is confirmed is enforced by the kernel. When \<^verbatim>\<open>ConfirmApplied\<close> succeeds on the kernel files, then for each CPU
  weight and each finite memory limit of the request, the control file of the slice, as it stood when the last call of the
  operation verified it, holds a number that is the requested one: the weight itself, or the limit rounded down to whole pages.
\<close>

theorem confirmed_in_kernel:
  assumes "ConfirmApplied (kernelBoundary v files world bd) i as m = (Inr snapshot, m')"
    and "a \<in> set as" "pa_name a \<in> set (PropertyCPUWeight # memoryProperties)" "pv_scalar (pa_value a) \<noteq> SystemdUnset"
  shows "\<exists>path content. controlGroupPath v (us_ControlGroup snapshot) = Some path \<and>
    kf_readFile (files (tl (trace m'))) (joinClean path (fst (kernelFileForProperty (pa_name a)))) = Inr content \<and>
    parseKernelScalar content = Some (if pa_name a = PropertyCPUWeight then pv_scalar (pa_value a)
      else pageAlignedMemoryLimit (pv_scalar (pa_value a)) (cv_pageSize v))"
proof -
  obtain vs t where vs: "validateAssignments as = Inr vs" and t: "tl (trace m') = t"
    and verified: "verify v (files t) snapshot vs = None" and confirmed: "\<forall>b \<in> set vs. confirmedBy snapshot b"
    using ConfirmApplied_verified [OF assms(1)] by (auto simp: kernelBoundary_def)
  let ?a = "clonePropertyAssignment a"
  have a: "?a \<in> set vs" "pa_name ?a = pa_name a" using validated_assignment [OF vs assms(2)] by (simp_all add: clonePropertyAssignment_def)
  have kind: "pa_name ?a \<in> set (PropertyCPUWeight # memoryProperties)" using assms(3) by (simp only: a(2))
  have "pv_scalar (pa_value ?a) = pv_scalar (pa_value a)"
    using scalar_not_device [OF assms(3)] by (simp add: clonePropertyAssignment_def clonePropertyValue_def scalarPropertyValue_def)
  then have reported: "PropertySet_Value (us_Properties snapshot) (pa_name a) = Some (pv_scalar (pa_value a))"
    using confirmed_value [of snapshot ?a] confirmed a scalar_not_device [OF kind] by simp
  obtain path where path: "controlGroupPath v (us_ControlGroup snapshot) = Some path" "verifyScalarFile v (files t) path snapshot (pa_name a) = None"
    using verify_scalar [OF verified a(1) kind] a(2) by auto
  from verifyScalarFile_set [OF path(2) reported assms(4)] path(1) show ?thesis
    using assms(3) weight_not_memory by (auto simp: t)
qed

section \<open>A run\<close>

definition sampleConfirmed :: unit_identity where
  "sampleConfirmed = \<lparr> ui_Name = ''user-1000.slice'', ui_ObjectPath = ''/s'', ui_InvocationID = replicate 16 (CHR ''a''), ui_ControlGroupID = 77 \<rparr>"

definition sampleWeight :: property_assignment where
  "sampleWeight = \<lparr> pa_name = PropertyCPUWeight, pa_value = scalarPropertyValue 250, pa_targets = [] \<rparr>"

definition sampleReplies :: boundary where
  "sampleReplies = \<lparr>
     bd_unitProperties = \<lambda>_ u. Inr [(''Id'', DString u), (''ActiveState'', DString ''active''), (''InvocationID'', DBytes (replicate 16 (CHR ''a''))),
       (''FragmentPath'', DString []), (''DropInPaths'', DStrings [])],
     bd_sliceProperties = \<lambda>_ _. Inr ((''ControlGroup'', DString ''/user.slice/user-1000.slice'') # (PropertyCPUWeight, DUint64 250) #
       map (\<lambda>p. (p, DUint64 SystemdUnset)) approvedScalarProperties @ map (\<lambda>p. (p, DArray [])) approvedDeviceProperties),
     bd_listUserSlices = \<lambda>_. Inr [], bd_setUnitProperties = \<lambda>_ _ _ _. None, bd_revertUnitFiles = \<lambda>_ _. None, bd_reload = \<lambda>_. None,
     bd_identity = \<lambda>_ _. None, bd_verify = \<lambda>_ _ _. None, bd_preflightApply = \<lambda>_ _ _. False, bd_prepareResets = \<lambda>_ _ _ _. None,
     bd_resetOverrides = \<lambda>_ _ _. None, bd_mutablePaths = \<lambda>_ _. Some [], bd_fingerprints = \<lambda>_ _. Some [], bd_save = \<lambda>_ _. True,
     bd_load = \<lambda>_. None, bd_devFits = \<lambda>_ _. True, bd_attempts = \<lambda>_. 1 \<rparr>"

definition sampleConfirmFiles :: "call list \<Rightarrow> kernel_fs" where
  "sampleConfirmFiles = (\<lambda>_. sampleFilesWith [(sampleSlicePath @ ''/cpu.weight'', scalarText 250)])"

definition sampleOwned :: machine where
  "sampleOwned = newMachine\<lparr>
     leases := [((sampleConfirmed, PropertyCPUWeight), (newPropertyLeaseState PropertyCPUWeight (scalarPropertyValue SystemdUnset))
       \<lparr> ls_lastApplied := scalarPropertyValue 250 \<rparr>)],
     overrides := [(sampleConfirmed, emptyOverride)], phases := [(''user-1000.slice'', leasePhaseApplied)] \<rparr>"

theorem confirmed_in_kernel_witness:
  "\<exists>content. kf_readFile (sampleFilesWith [(sampleSlicePath @ ''/cpu.weight'', scalarText 250)]) (sampleSlicePath @ ''/cpu.weight'') = Inr content \<and>
     parseKernelScalar content = Some 250"
proof -
  let ?run = "ConfirmApplied (kernelBoundary sampleVerifier sampleConfirmFiles (\<lambda>_. sampleKernel) sampleReplies) sampleConfirmed [sampleWeight] sampleOwned"
  have "case ?run of (Inr s, _) \<Rightarrow> us_ControlGroup s = ''/user.slice/user-1000.slice'' | _ \<Rightarrow> False" by code_simp
  then obtain s m' where run: "?run = (Inr s, m')" and cg: "us_ControlGroup s = ''/user.slice/user-1000.slice''"
    by (auto split: prod.splits sum.splits)
  have "pa_name sampleWeight = PropertyCPUWeight" "pv_scalar (pa_value sampleWeight) = 250" "(250 :: u64) \<noteq> SystemdUnset"
    by (simp_all add: sampleWeight_def scalarPropertyValue_def SystemdUnset_def)
  moreover have "controlGroupPath sampleVerifier ''/user.slice/user-1000.slice'' = Some sampleSlicePath" by code_simp
  ultimately show ?thesis using confirmed_in_kernel [OF run, of sampleWeight] cg
    by (auto simp: sampleConfirmFiles_def kernelFileForProperty_def joinClean_def sampleSlicePath_def)
qed

end
