(* ===== verification/IoWeight_Classifier.thy ===== *)
theory IoWeight_Classifier
  imports Resource_Coverage Kernel_Files
begin

text \<open>
  Read-only discovery of block devices (\<^verbatim>\<open>internal/systemdunit/io_device_weight_classifier.go\<close>,
  \<^verbatim>\<open>internal/systemdunit/io_device_weight_devices.go\<close>, \<^verbatim>\<open>internal/systemdunit/block_devices.go\<close>):
  which devices may receive weights, and through which kernel mechanism. A device number is resolved to
  one device below \<^verbatim>\<open>/sys\<close> that is no partition and no stacked device; the scheduler and
  \<^verbatim>\<open>io.cost\<close> tell the mechanism; the outcome for a set of devices is all or nothing; and a later
  pass confirms that nothing relevant has changed. The file system during one pass is an argument. The
  errors are kept with their reason and device, their text is left out, and so is the description of
  the platform, which decides nothing.
\<close>

unbundle bit_operations_syntax

section \<open>Data\<close>

datatype capability_outcome =
    IODeviceWeightProbeCandidate
  | IODeviceWeightMechanismInactive
  | IODeviceWeightUnsupportedMechanism
  | IODeviceWeightEvidenceUnavailable
  | IODeviceWeightAmbiguousTopology
  | IODeviceWeightMechanismAmbiguous
  | OtherOutcome string

datatype capability_reason =
    IODeviceWeightReasonNone
  | IODeviceWeightReasonEmptySelector
  | IODeviceWeightReasonInvalidSelector
  | IODeviceWeightReasonDuplicateDevice
  | IODeviceWeightReasonDeviceMissing
  | IODeviceWeightReasonDeviceIdentityChanged
  | IODeviceWeightReasonEvidenceUnavailable
  | IODeviceWeightReasonAmbiguousTopology
  | IODeviceWeightReasonMechanismUnsupported
  | IODeviceWeightReasonNoActiveMechanism
  | IODeviceWeightReasonMechanismAmbiguous
  | IODeviceWeightReasonSchedulerChanged
  | IODeviceWeightReasonIOCostChanged
  | IODeviceWeightReasonCapabilityChanged

datatype mechanism_state =
    IODeviceWeightMechanismStateNone
  | IODeviceWeightMechanismStateActive
  | IODeviceWeightMechanismStateInactive
  | IODeviceWeightMechanismStateUnsupported
  | IODeviceWeightMechanismStateUnavailable

record capability_error =
  ce_Reason :: capability_reason
  ce_Device :: string

datatype evidence_error = FileEvidence fs_error | QosEvidence string

type_synonym device_number = "u32 \<times> u32"

record device_identity =
  di_Number :: device_number
  di_DeviceNode :: string
  di_SysfsPath :: string
  di_SysfsInode :: u64

record mechanism_evidence =
  me_Mechanism :: mechanism
  me_ControllerAvailable :: bool
  me_RuntimeAvailable :: bool
  me_SchedulerAvailable :: bool
  me_SchedulerSelected :: bool
  me_IOCostEnabled :: bool
  me_ObservedScheduler :: string
  me_State :: mechanism_state
  me_UnavailableEvidence :: "evidence_error option"

record device_capability =
  dc_Identity :: device_identity
  dc_Outcome :: capability_outcome
  dc_Reason :: capability_reason
  dc_Detail :: "capability_error option"
  dc_Mechanism :: mechanism
  dc_BFQ :: mechanism_evidence
  dc_IOCost :: mechanism_evidence

record probe_target =
  pt_Identity :: device_identity
  pt_Mechanism :: mechanism

record capability_snapshot =
  cs_selector :: string
  cs_outcome :: capability_outcome
  cs_reason :: capability_reason
  cs_detail :: "capability_error option"
  cs_devices :: "device_capability list"

text \<open>
  The files of one pass. \<open>ci_evalSymlinks\<close> gives absolute paths, as \<^verbatim>\<open>filepath.EvalSymlinks\<close> does for an
  absolute one; \<open>ci_devFits\<close> is the round trip of a number through \<^verbatim>\<open>unix.Mkdev\<close>.
\<close>

record classifier_io = kernel_fs +
  ci_readDir :: "string \<Rightarrow> (fs_error, string list) res"
  ci_evalSymlinks :: "string \<Rightarrow> (fs_error, string) res"

record classifier =
  cl_sysRoot :: string
  cl_sysDevBlockRoot :: string
  cl_cgroupRoot :: string
  cl_devRoot :: string
  cl_verifier :: cgroup_verifier
  cl_devFits :: "u32 \<Rightarrow> u32 \<Rightarrow> bool"

definition NewIODeviceWeightCapabilityClassifier :: "(u64 \<Rightarrow> device_number) \<Rightarrow> (u32 \<Rightarrow> u32 \<Rightarrow> bool) \<Rightarrow> classifier" where
  "NewIODeviceWeightCapabilityClassifier number fits =
     \<lparr> cl_sysRoot = ''/sys'', cl_sysDevBlockRoot = ''/sys/dev/block'', cl_cgroupRoot = ''/sys/fs/cgroup'', cl_devRoot = ''/dev'',
       cl_verifier = \<lparr> cv_root = ''/sys/fs/cgroup'', cv_pageSize = 0, cv_devNumber = number \<rparr>, cl_devFits = fits \<rparr>"

definition capabilityError :: "capability_reason \<Rightarrow> string \<Rightarrow> capability_error" where
  "capabilityError reason device = \<lparr> ce_Reason = reason, ce_Device = device \<rparr>"

definition readAt :: "('a classifier_io_scheme) \<Rightarrow> string \<Rightarrow> string \<Rightarrow> (fs_error, string) res" where
  "readAt fs dir name = kf_readFile fs (joinClean dir name)"

section \<open>Paths\<close>

definition pathWithin :: "string \<Rightarrow> string \<Rightarrow> bool" where
  "pathWithin rootPath candidate \<longleftrightarrow>
     (let r = cleanAbs rootPath; c = cleanAbs candidate in c = r \<or> hasPrefix c (if r = ''/'' then r else r @ ''/''))"

text \<open>\<^verbatim>\<open>filepath.Base\<close> of a clean absolute path.\<close>

definition baseOf :: "string \<Rightarrow> string" where
  "baseOf p = (if p = ''/'' then p else last (splitOn (CHR ''/'') p))"

text \<open>\<^verbatim>\<open>filepath.Clean(name) == name\<close> for a relative name: parent steps only in front.\<close>

definition cleanRelative :: "string \<Rightarrow> bool" where
  "cleanRelative name \<longleftrightarrow>
     name = ''.'' \<or> list_all (\<lambda>e. e \<notin> {[], ''.'', ''..''}) (dropWhile (\<lambda>e. e = ''..'') (splitOn (CHR ''/'') name))"

definition validDeviceName :: "string \<Rightarrow> bool" where
  "validDeviceName name \<longleftrightarrow> name \<noteq> [] \<and> \<not> isAbsPath name \<and> cleanRelative name \<and> \<not> hasPrefix name ''..''"

fun ueventLines :: "string \<Rightarrow> string list \<Rightarrow> string" where
  "ueventLines key [] = []"
| "ueventLines key (line # ls) =
     (let (name, v, found) = cutAt (CHR ''='') line in if found \<and> name = key then v else ueventLines key ls)"

definition ueventValue :: "string \<Rightarrow> string \<Rightarrow> string" where
  "ueventValue content key = ueventLines key (splitOn LF content)"

text \<open>
  \<^verbatim>\<open>strings.ToLower\<close>, of which only ASCII prefixes are tested: no rune outside ASCII has a lower case among
  their letters.
\<close>

definition lowerChar :: "char \<Rightarrow> char" where
  "lowerChar c = (if 65 \<le> byte_of c \<and> byte_of c \<le> 90 then char_of (byte_of c + 32) else c)"

definition toLower :: "string \<Rightarrow> string" where
  "toLower s = map lowerChar s"

section \<open>Devices that weights may be set on\<close>

definition hasPathComponent :: "string list \<Rightarrow> string \<Rightarrow> bool" where
  "hasPathComponent components wanted \<longleftrightarrow> wanted \<in> set components"

definition hasPathComponentPrefix :: "string list \<Rightarrow> string \<Rightarrow> bool" where
  "hasPathComponentPrefix components prefix \<longleftrightarrow> list_ex (\<lambda>c. hasPrefix c prefix) components"

definition directNVMeNamespace :: "string \<Rightarrow> string option" where
  "directNVMeNamespace name =
     (if \<not> hasPrefix name ''nvme'' then None
      else let remainder = drop 4 name; digits = takeWhile is_digit remainder; rest = drop (length digits) remainder in
        if digits = [] \<or> rest = [] \<or> hd rest \<noteq> CHR ''n'' then None
        else if tl rest = [] \<or> \<not> list_all is_digit (tl rest) then None
        else Some (''nvme'' @ digits))"

definition approvedDirectIODevice :: "string \<Rightarrow> string \<Rightarrow> bool" where
  "approvedDirectIODevice sysfsPath name =
     (if baseOf sysfsPath \<noteq> name \<or> CHR ''/'' \<in> set name then False
      else let components = splitOn (CHR ''/'') (cleanAbs sysfsPath) in
        if hasPrefix name ''vd'' then hasPathComponentPrefix components ''virtio''
        else if hasPrefix name ''sd'' then hasPathComponentPrefix components ''host'' \<and> hasPathComponentPrefix components ''target''
        else (case directNVMeNamespace name of
            None \<Rightarrow> False
          | Some controller \<Rightarrow> \<not> hasPathComponent components ''virtual'' \<and> \<not> hasPathComponentPrefix components ''nvme-subsys'' \<and>
              hasPathComponent components controller))"

text \<open>A terminal LVM mapping whose inputs are the device itself or partitions of it.\<close>

definition lvmSlave ::
  "classifier \<Rightarrow> classifier_io \<Rightarrow> string \<Rightarrow> string \<Rightarrow> string \<Rightarrow> string \<Rightarrow> (capability_error, unit) res" where
  "lvmSlave c fs holderPath devicePath requested slave =
     (case ci_evalSymlinks fs (joinClean (joinClean holderPath ''slaves'') slave) of
        Inl _ \<Rightarrow> Inl (capabilityError IODeviceWeightReasonEvidenceUnavailable requested)
      | Inr resolved \<Rightarrow>
          let slavePath = cleanAbs resolved in
          if \<not> pathWithin (cl_sysRoot c) slavePath then Inl (capabilityError IODeviceWeightReasonAmbiguousTopology requested)
          else if slavePath = devicePath then Inr ()
          else if dirOf slavePath \<noteq> devicePath then Inl (capabilityError IODeviceWeightReasonAmbiguousTopology requested)
          else (case readAt fs slavePath ''partition'' of
              Inr _ \<Rightarrow> Inr ()
            | Inl e \<Rightarrow>
                if e = ErrNotExist then Inl (capabilityError IODeviceWeightReasonAmbiguousTopology requested)
                else Inl (capabilityError IODeviceWeightReasonEvidenceUnavailable requested)))"

fun lvmSlaves ::
  "classifier \<Rightarrow> classifier_io \<Rightarrow> string \<Rightarrow> string \<Rightarrow> string \<Rightarrow> string list \<Rightarrow> (capability_error, unit) res" where
  "lvmSlaves c fs holderPath devicePath requested [] = Inr ()"
| "lvmSlaves c fs holderPath devicePath requested (s # ss) =
     (case lvmSlave c fs holderPath devicePath requested s of
        Inl e \<Rightarrow> Inl e
      | Inr _ \<Rightarrow> lvmSlaves c fs holderPath devicePath requested ss)"

definition listingError :: "fs_error \<Rightarrow> string \<Rightarrow> capability_error" where
  "listingError e requested =
     capabilityError (if e = ErrNotExist then IODeviceWeightReasonAmbiguousTopology else IODeviceWeightReasonEvidenceUnavailable) requested"

definition validateIODeviceWeightLVMHolder ::
  "classifier \<Rightarrow> classifier_io \<Rightarrow> string \<Rightarrow> string \<Rightarrow> string \<Rightarrow> (capability_error, unit) res" where
  "validateIODeviceWeightLVMHolder c fs holderPath devicePath requested =
     (case ci_readDir fs (joinClean holderPath ''slaves'') of
        Inl e \<Rightarrow> Inl (listingError e requested)
      | Inr slaves \<Rightarrow>
          if slaves = [] then Inl (capabilityError IODeviceWeightReasonAmbiguousTopology requested)
          else (case lvmSlaves c fs holderPath devicePath requested slaves of
              Inl e \<Rightarrow> Inl e
            | Inr _ \<Rightarrow>
                (case ci_readDir fs (joinClean holderPath ''holders'') of
                   Inl e \<Rightarrow> Inl (listingError e requested)
                 | Inr higher \<Rightarrow>
                     if higher \<noteq> [] then Inl (capabilityError IODeviceWeightReasonAmbiguousTopology requested) else Inr ())))"

definition holderKind :: "classifier_io \<Rightarrow> string \<Rightarrow> string \<Rightarrow> (capability_error, unit) res" where
  "holderKind fs holderPath requested =
     (case kf_stat fs (joinClean holderPath ''md'') of
        Inr _ \<Rightarrow> Inl (capabilityError IODeviceWeightReasonAmbiguousTopology requested)
      | Inl e \<Rightarrow>
          if e \<noteq> ErrNotExist then Inl (capabilityError IODeviceWeightReasonEvidenceUnavailable requested)
          else (case readAt fs holderPath ''dm/uuid'' of
              Inl e \<Rightarrow> Inl (listingError e requested)
            | Inr uuid \<Rightarrow>
                let normalized = toLower (trimSpace uuid) in
                if hasPrefix normalized ''mpath-'' \<or> \<not> hasPrefix normalized ''lvm-''
                then Inl (capabilityError IODeviceWeightReasonAmbiguousTopology requested) else Inr ()))"

text \<open>The holders of one source; \<open>seen\<close> are the holders inspected before.\<close>

fun inspectHolders ::
  "classifier \<Rightarrow> classifier_io \<Rightarrow> string \<Rightarrow> string \<Rightarrow> string \<Rightarrow> string list \<Rightarrow> string list \<Rightarrow> (capability_error, string list) res" where
  "inspectHolders c fs sourcePath devicePath requested seen [] = Inr seen"
| "inspectHolders c fs sourcePath devicePath requested seen (h # hs) =
     (case ci_evalSymlinks fs (joinClean (joinClean sourcePath ''holders'') h) of
        Inl _ \<Rightarrow> Inl (capabilityError IODeviceWeightReasonEvidenceUnavailable requested)
      | Inr resolved \<Rightarrow>
          let holderPath = cleanAbs resolved in
          if \<not> pathWithin (cl_sysRoot c) holderPath then Inl (capabilityError IODeviceWeightReasonAmbiguousTopology requested)
          else if holderPath \<in> set seen then inspectHolders c fs sourcePath devicePath requested seen hs
          else (case holderKind fs holderPath requested of
              Inl e \<Rightarrow> Inl e
            | Inr _ \<Rightarrow>
                (case validateIODeviceWeightLVMHolder c fs holderPath devicePath requested of
                   Inl e \<Rightarrow> Inl e
                 | Inr _ \<Rightarrow> inspectHolders c fs sourcePath devicePath requested (holderPath # seen) hs)))"

definition inspectIODeviceWeightHolders ::
  "classifier \<Rightarrow> classifier_io \<Rightarrow> string \<Rightarrow> string \<Rightarrow> string \<Rightarrow> string list \<Rightarrow> (capability_error, string list) res" where
  "inspectIODeviceWeightHolders c fs sourcePath devicePath requested seen =
     (case ci_readDir fs (joinClean sourcePath ''holders'') of
        Inl e \<Rightarrow> Inl (listingError e requested)
      | Inr holders \<Rightarrow> inspectHolders c fs sourcePath devicePath requested seen holders)"

fun holderSourcesIn :: "classifier_io \<Rightarrow> string \<Rightarrow> string \<Rightarrow> string list \<Rightarrow> string list \<Rightarrow> (capability_error, string list) res" where
  "holderSourcesIn fs devicePath requested sources [] = Inr sources"
| "holderSourcesIn fs devicePath requested sources (name # names) =
     (case kf_stat fs (joinClean devicePath name) of
        Inl _ \<Rightarrow> Inl (capabilityError IODeviceWeightReasonEvidenceUnavailable requested)
      | Inr info \<Rightarrow>
          if \<not> Mode_IsDir (fi_Mode info) then holderSourcesIn fs devicePath requested sources names
          else (case readAt fs (joinClean devicePath name) ''partition'' of
              Inr _ \<Rightarrow> holderSourcesIn fs devicePath requested (sources @ [joinClean devicePath name]) names
            | Inl e \<Rightarrow>
                if e = ErrNotExist then holderSourcesIn fs devicePath requested sources names
                else Inl (capabilityError IODeviceWeightReasonEvidenceUnavailable requested)))"

definition ioDeviceWeightHolderSources :: "classifier_io \<Rightarrow> string \<Rightarrow> string \<Rightarrow> (capability_error, string list) res" where
  "ioDeviceWeightHolderSources fs devicePath requested =
     (case ci_readDir fs devicePath of
        Inl _ \<Rightarrow> Inl (capabilityError IODeviceWeightReasonEvidenceUnavailable requested)
      | Inr names \<Rightarrow> holderSourcesIn fs devicePath requested [devicePath] names)"

fun inspectSources ::
  "classifier \<Rightarrow> classifier_io \<Rightarrow> string \<Rightarrow> string \<Rightarrow> string list \<Rightarrow> string list \<Rightarrow> (capability_error, unit) res" where
  "inspectSources c fs devicePath requested seen [] = Inr ()"
| "inspectSources c fs devicePath requested seen (s # ss) =
     (case inspectIODeviceWeightHolders c fs s devicePath requested seen of
        Inl e \<Rightarrow> Inl e
      | Inr seen' \<Rightarrow> inspectSources c fs devicePath requested seen' ss)"

definition rejectUnsupportedHolders :: "classifier \<Rightarrow> classifier_io \<Rightarrow> string \<Rightarrow> string \<Rightarrow> (capability_error, unit) res" where
  "rejectUnsupportedHolders c fs devicePath requested =
     (case ioDeviceWeightHolderSources fs devicePath requested of
        Inl e \<Rightarrow> Inl e
      | Inr sources \<Rightarrow> inspectSources c fs devicePath requested [] sources)"

text \<open>The part of \<^verbatim>\<open>resolveDevice\<close> that finds the device below \<^verbatim>\<open>/sys\<close> and refuses partitions and stacks.\<close>

definition markerAbsent :: "classifier_io \<Rightarrow> string \<Rightarrow> string \<Rightarrow> string \<Rightarrow> (capability_error, unit) res" where
  "markerAbsent fs resolved requested marker =
     (case kf_stat fs (joinClean resolved marker) of
        Inr _ \<Rightarrow> Inl (capabilityError IODeviceWeightReasonAmbiguousTopology requested)
      | Inl e \<Rightarrow> if e = ErrNotExist then Inr () else Inl (capabilityError IODeviceWeightReasonEvidenceUnavailable requested))"

definition wholeDevice :: "classifier_io \<Rightarrow> string \<Rightarrow> string \<Rightarrow> (capability_error, unit) res" where
  "wholeDevice fs resolved requested =
     (case readAt fs resolved ''dev'' of
        Inl _ \<Rightarrow> Inl (capabilityError IODeviceWeightReasonEvidenceUnavailable requested)
      | Inr content \<Rightarrow>
          if trimSpace content \<noteq> requested then Inl (capabilityError IODeviceWeightReasonAmbiguousTopology requested)
          else (case readAt fs resolved ''partition'' of
              Inr _ \<Rightarrow> Inl (capabilityError IODeviceWeightReasonAmbiguousTopology requested)
            | Inl e \<Rightarrow> if e = ErrNotExist then Inr () else Inl (capabilityError IODeviceWeightReasonEvidenceUnavailable requested)))"

definition noSlaves :: "classifier_io \<Rightarrow> string \<Rightarrow> string \<Rightarrow> (capability_error, unit) res" where
  "noSlaves fs resolved requested =
     (case ci_readDir fs (joinClean resolved ''slaves'') of
        Inl e \<Rightarrow> if e = ErrNotExist then Inr () else Inl (capabilityError IODeviceWeightReasonEvidenceUnavailable requested)
      | Inr slaves \<Rightarrow> if slaves \<noteq> [] then Inl (capabilityError IODeviceWeightReasonAmbiguousTopology requested) else Inr ())"

definition requestQueue :: "classifier_io \<Rightarrow> string \<Rightarrow> string \<Rightarrow> (capability_error, unit) res" where
  "requestQueue fs resolved requested =
     (case kf_stat fs (joinClean resolved ''queue'') of
        Inl e \<Rightarrow> Inl (listingError e requested)
      | Inr info \<Rightarrow>
          if Mode_IsDir (fi_Mode info) then Inr () else Inl (capabilityError IODeviceWeightReasonAmbiguousTopology requested))"

definition approvedName :: "classifier_io \<Rightarrow> string \<Rightarrow> string \<Rightarrow> (capability_error, string) res" where
  "approvedName fs resolved requested =
     (case readAt fs resolved ''uevent'' of
        Inl _ \<Rightarrow> Inl (capabilityError IODeviceWeightReasonEvidenceUnavailable requested)
      | Inr content \<Rightarrow>
          let name = ueventValue content ''DEVNAME'' in
          if \<not> validDeviceName name \<or> \<not> approvedDirectIODevice resolved name
          then Inl (capabilityError IODeviceWeightReasonAmbiguousTopology requested) else Inr name)"

text \<open>The node of the device has its number, and the device a stable inode.\<close>

definition confirmNode :: "classifier \<Rightarrow> classifier_io \<Rightarrow> string \<Rightarrow> string \<Rightarrow> (capability_error, unit) res" where
  "confirmNode c fs node requested =
     (case deviceNumber (cl_verifier c) (kernel_fs.truncate fs) node of
        Inl e \<Rightarrow> Inl (capabilityError (if e = ErrNotExist then IODeviceWeightReasonDeviceMissing else IODeviceWeightReasonEvidenceUnavailable) requested)
      | Inr actual \<Rightarrow> if actual \<noteq> requested then Inl (capabilityError IODeviceWeightReasonDeviceIdentityChanged requested) else Inr ())"

definition sysfsInode :: "classifier_io \<Rightarrow> string \<Rightarrow> string \<Rightarrow> (capability_error, u64) res" where
  "sysfsInode fs resolved requested =
     (case kf_stat fs resolved of
        Inl _ \<Rightarrow> Inl (capabilityError IODeviceWeightReasonEvidenceUnavailable requested)
      | Inr info \<Rightarrow>
          (case fi_Stat info of
             None \<Rightarrow> Inl (capabilityError IODeviceWeightReasonEvidenceUnavailable requested)
           | Some st \<Rightarrow> if st_Ino st = 0 then Inl (capabilityError IODeviceWeightReasonEvidenceUnavailable requested) else Inr (st_Ino st)))"

definition sysfsPath :: "classifier \<Rightarrow> classifier_io \<Rightarrow> string \<Rightarrow> (capability_error, string) res" where
  "sysfsPath c fs requested =
     (case ci_evalSymlinks fs (joinClean (cl_sysDevBlockRoot c) requested) of
        Inl e \<Rightarrow> Inl (capabilityError (if e = ErrNotExist then IODeviceWeightReasonDeviceMissing else IODeviceWeightReasonEvidenceUnavailable) requested)
      | Inr link \<Rightarrow>
          let resolved = cleanAbs link in
          if pathWithin (cl_sysRoot c) resolved then Inr resolved else Inl (capabilityError IODeviceWeightReasonAmbiguousTopology requested))"

text \<open>Errors as values: the first error, or the next step.\<close>

definition andThen :: "('e, 'a) res \<Rightarrow> ('a \<Rightarrow> ('e, 'b) res) \<Rightarrow> ('e, 'b) res" where
  "andThen r f = (case r of Inl e \<Rightarrow> Inl e | Inr x \<Rightarrow> f x)"

definition resolveDevice :: "classifier \<Rightarrow> classifier_io \<Rightarrow> device_number \<Rightarrow> (capability_error, device_identity) res" where
  "resolveDevice c fs number =
     (let requested = deviceNumberString number in
      andThen (sysfsPath c fs requested) (\<lambda>resolved.
      andThen (wholeDevice fs resolved requested) (\<lambda>_.
      andThen (markerAbsent fs resolved requested ''dm'') (\<lambda>_.
      andThen (markerAbsent fs resolved requested ''md'') (\<lambda>_.
      andThen (noSlaves fs resolved requested) (\<lambda>_.
      andThen (rejectUnsupportedHolders c fs resolved requested) (\<lambda>_.
      andThen (requestQueue fs resolved requested) (\<lambda>_.
      andThen (approvedName fs resolved requested) (\<lambda>name.
      andThen (confirmNode c fs (joinClean (cl_devRoot c) name) requested) (\<lambda>_.
      andThen (sysfsInode fs resolved requested) (\<lambda>inode.
      Inr \<lparr> di_Number = number, di_DeviceNode = joinClean (cl_devRoot c) name, di_SysfsPath = resolved, di_SysfsInode = inode \<rparr>)))))))))))"

section \<open>Mechanisms\<close>

record mechanism_environment =
  en_controllers :: "string option"
  en_controllersErr :: "fs_error option"
  en_ioCostQOS :: "string option"
  en_ioCostQOSErr :: "fs_error option"

definition readOptionalFile :: "classifier_io \<Rightarrow> string \<Rightarrow> string option \<times> fs_error option" where
  "readOptionalFile fs path =
     (case kf_readFile fs path of
        Inl e \<Rightarrow> if e = ErrNotExist then (None, None) else (None, Some e)
      | Inr content \<Rightarrow> (Some content, None))"

definition readMechanismEnvironment :: "classifier \<Rightarrow> classifier_io \<Rightarrow> mechanism_environment" where
  "readMechanismEnvironment c fs =
     (let (controllers, controllersErr) = readOptionalFile fs (joinClean (cl_cgroupRoot c) ''cgroup.controllers'');
          (qos, qosErr) = readOptionalFile fs (joinClean (cl_cgroupRoot c) ''io.cost.qos'')
      in \<lparr> en_controllers = controllers, en_controllersErr = controllersErr, en_ioCostQOS = qos, en_ioCostQOSErr = qosErr \<rparr>)"

definition noEvidence :: "mechanism \<Rightarrow> mechanism_evidence" where
  "noEvidence m = \<lparr> me_Mechanism = m, me_ControllerAvailable = False, me_RuntimeAvailable = False, me_SchedulerAvailable = False,
     me_SchedulerSelected = False, me_IOCostEnabled = False, me_ObservedScheduler = [], me_State = IODeviceWeightMechanismStateNone,
     me_UnavailableEvidence = None \<rparr>"

text \<open>\<^verbatim>\<open>strings.TrimPrefix\<close> and \<^verbatim>\<open>strings.TrimSuffix\<close>.\<close>

definition trimPrefix :: "string \<Rightarrow> string \<Rightarrow> string" where
  "trimPrefix s p = (if hasPrefix s p then drop (length p) s else s)"

definition trimSuffix :: "string \<Rightarrow> string \<Rightarrow> string" where
  "trimSuffix s p = (if hasSuffix s p then take (length s - length p) s else s)"

definition schedulerBFQState :: "string \<Rightarrow> bool \<times> bool" where
  "schedulerBFQState content =
     fold (\<lambda>field (available, selected).
         if trimSuffix (trimPrefix field ''['') '']'' \<noteq> ''bfq'' then (available, selected)
         else (True, hasPrefix field ''['' \<and> hasSuffix field '']'')) (fieldsOf content) (False, False)"

fun qosEnable :: "string list \<Rightarrow> (evidence_error, bool) res" where
  "qosEnable [] = Inl (QosEvidence [])"
| "qosEnable (field # fs) =
     (let (name, v, found) = cutAt (CHR ''='') field in
      if name \<noteq> ''enable'' \<or> \<not> found then qosEnable fs
      else if v = ''0'' then Inr False else if v = ''1'' then Inr True else Inl (QosEvidence v))"

fun qosLines :: "string \<Rightarrow> string list \<Rightarrow> (evidence_error, bool) res" where
  "qosLines device [] = Inr False"
| "qosLines device (line # ls) =
     (case fieldsOf line of
        [] \<Rightarrow> qosLines device ls
      | d # fs \<Rightarrow> if d \<noteq> device then qosLines device ls else qosEnable fs)"

definition ioCostEnabledForDevice :: "string \<Rightarrow> string \<Rightarrow> (evidence_error, bool) res" where
  "ioCostEnabledForDevice content device = qosLines device (splitOn LF (trimSpace content))"

definition ioController :: "mechanism_environment \<Rightarrow> bool" where
  "ioController env = (case en_controllers env of None \<Rightarrow> False | Some content \<Rightarrow> containsWord content ''io'')"

definition inspectBFQ :: "classifier_io \<Rightarrow> device_identity \<Rightarrow> mechanism_environment \<Rightarrow> mechanism_evidence" where
  "inspectBFQ fs resolved env =
     (let evidence = noEvidence IODeviceWeightMechanismBFQ in
      case readAt fs (joinClean (di_SysfsPath resolved) ''queue'') ''scheduler'' of
        Inl e \<Rightarrow>
          if e = ErrNotExist then evidence\<lparr> me_State := IODeviceWeightMechanismStateUnsupported \<rparr>
          else evidence\<lparr> me_State := IODeviceWeightMechanismStateUnavailable, me_UnavailableEvidence := Some (FileEvidence e) \<rparr>
      | Inr content \<Rightarrow>
          let observed = trimSpace content; (available, selected) = schedulerBFQState observed;
              found = evidence\<lparr> me_ObservedScheduler := observed, me_SchedulerAvailable := available, me_SchedulerSelected := selected,
                me_ControllerAvailable := ioController env, me_RuntimeAvailable := available \<rparr>
          in (case en_controllersErr env of
                Some e \<Rightarrow> found\<lparr> me_State := IODeviceWeightMechanismStateUnavailable, me_UnavailableEvidence := Some (FileEvidence e) \<rparr>
              | None \<Rightarrow>
                  found\<lparr> me_State :=
                    (if \<not> ioController env \<or> \<not> available then IODeviceWeightMechanismStateUnsupported
                     else if selected then IODeviceWeightMechanismStateActive else IODeviceWeightMechanismStateInactive) \<rparr>))"

definition firstErrorText :: "fs_error option list \<Rightarrow> evidence_error option" where
  "firstErrorText errs = (case find (\<lambda>e. e \<noteq> None) errs of Some (Some e) \<Rightarrow> Some (FileEvidence e) | _ \<Rightarrow> None)"

definition inspectIOCost :: "device_identity \<Rightarrow> mechanism_environment \<Rightarrow> mechanism_evidence" where
  "inspectIOCost resolved env =
     (let found = (noEvidence IODeviceWeightMechanismIOCost)\<lparr> me_ControllerAvailable := ioController env,
            me_RuntimeAvailable := en_ioCostQOS env \<noteq> None \<rparr> in
      if en_controllersErr env \<noteq> None \<or> en_ioCostQOSErr env \<noteq> None
      then found\<lparr> me_State := IODeviceWeightMechanismStateUnavailable,
                   me_UnavailableEvidence := firstErrorText [en_controllersErr env, en_ioCostQOSErr env] \<rparr>
      else (case en_ioCostQOS env of
          None \<Rightarrow> found\<lparr> me_State := IODeviceWeightMechanismStateUnsupported \<rparr>
        | Some content \<Rightarrow>
            if \<not> ioController env then found\<lparr> me_State := IODeviceWeightMechanismStateUnsupported \<rparr>
            else (case ioCostEnabledForDevice content (deviceNumberString (di_Number resolved)) of
                Inl e \<Rightarrow> found\<lparr> me_State := IODeviceWeightMechanismStateUnavailable, me_UnavailableEvidence := Some e \<rparr>
              | Inr enabled \<Rightarrow>
                  found\<lparr> me_IOCostEnabled := enabled,
                    me_State := (if enabled then IODeviceWeightMechanismStateActive else IODeviceWeightMechanismStateInactive) \<rparr>)))"

definition classifyResolvedDevice :: "classifier_io \<Rightarrow> device_identity \<Rightarrow> mechanism_environment \<Rightarrow> device_capability" where
  "classifyResolvedDevice fs resolved env =
     (let bfq = inspectBFQ fs resolved env; ioCost = inspectIOCost resolved env;
          bfqState = me_State bfq; ioCostState = me_State ioCost;
          result = (\<lambda>outcome reason m. \<lparr> dc_Identity = resolved, dc_Outcome = outcome, dc_Reason = reason, dc_Detail = None,
                      dc_Mechanism = m, dc_BFQ = bfq, dc_IOCost = ioCost \<rparr>)
      in if bfqState = IODeviceWeightMechanismStateUnavailable \<or> ioCostState = IODeviceWeightMechanismStateUnavailable
         then result IODeviceWeightEvidenceUnavailable IODeviceWeightReasonEvidenceUnavailable []
         else if bfqState = IODeviceWeightMechanismStateActive \<and> ioCostState = IODeviceWeightMechanismStateActive
         then result IODeviceWeightMechanismAmbiguous IODeviceWeightReasonMechanismAmbiguous []
         else if bfqState = IODeviceWeightMechanismStateActive
         then result IODeviceWeightProbeCandidate IODeviceWeightReasonNone IODeviceWeightMechanismBFQ
         else if ioCostState = IODeviceWeightMechanismStateActive
         then result IODeviceWeightProbeCandidate IODeviceWeightReasonNone IODeviceWeightMechanismIOCost
         else if bfqState = IODeviceWeightMechanismStateInactive \<or> ioCostState = IODeviceWeightMechanismStateInactive
         then result IODeviceWeightMechanismInactive IODeviceWeightReasonNoActiveMechanism []
         else result IODeviceWeightUnsupportedMechanism IODeviceWeightReasonMechanismUnsupported [])"

section \<open>Snapshots\<close>

definition unresolvedIdentity :: "device_number \<Rightarrow> device_identity" where
  "unresolvedIdentity number = \<lparr> di_Number = number, di_DeviceNode = [], di_SysfsPath = [], di_SysfsInode = 0 \<rparr>"

definition unresolvedCapability :: "device_number \<Rightarrow> capability_outcome \<Rightarrow> capability_reason \<Rightarrow> capability_error option \<Rightarrow> device_capability" where
  "unresolvedCapability number outcome reason detail =
     \<lparr> dc_Identity = unresolvedIdentity number, dc_Outcome = outcome, dc_Reason = reason, dc_Detail = detail, dc_Mechanism = [],
       dc_BFQ = noEvidence [], dc_IOCost = noEvidence [] \<rparr>"

text \<open>Every error of \<open>resolveDevice\<close> is a capability error, so only that branch is reached.\<close>

definition deviceCapabilityFromError :: "device_number \<Rightarrow> capability_error \<Rightarrow> device_capability" where
  "deviceCapabilityFromError number err =
     unresolvedCapability number
       (if ce_Reason err = IODeviceWeightReasonAmbiguousTopology then IODeviceWeightAmbiguousTopology else IODeviceWeightEvidenceUnavailable)
       (ce_Reason err) (Some err)"

definition aggregateOrder :: "capability_outcome list" where
  "aggregateOrder = [IODeviceWeightAmbiguousTopology, IODeviceWeightMechanismAmbiguous, IODeviceWeightUnsupportedMechanism,
     IODeviceWeightEvidenceUnavailable, IODeviceWeightMechanismInactive]"

fun aggregateFrom :: "capability_outcome list \<Rightarrow> device_capability list \<Rightarrow> capability_outcome \<times> capability_reason \<times> capability_error option" where
  "aggregateFrom [] devices = (IODeviceWeightProbeCandidate, IODeviceWeightReasonNone, None)"
| "aggregateFrom (candidate # cs) devices =
     (case find (\<lambda>d. dc_Outcome d = candidate) devices of
        Some d \<Rightarrow> (candidate, dc_Reason d, dc_Detail d)
      | None \<Rightarrow> aggregateFrom cs devices)"

definition aggregateIODeviceWeightCapability ::
  "device_capability list \<Rightarrow> capability_outcome \<times> capability_reason \<times> capability_error option" where
  "aggregateIODeviceWeightCapability devices = aggregateFrom aggregateOrder devices"

definition canonicalIODeviceWeightSelector :: "device_number list \<Rightarrow> string" where
  "canonicalIODeviceWeightSelector devices = joinWith (CHR '','') (map deviceNumberString devices)"

definition newIODeviceWeightCapabilitySnapshot :: "string \<Rightarrow> device_capability list \<Rightarrow> capability_snapshot" where
  "newIODeviceWeightCapabilitySnapshot selector devices =
     (let (outcome, reason, detail) = aggregateIODeviceWeightCapability devices in
      \<lparr> cs_selector = selector, cs_outcome = outcome, cs_reason = reason, cs_detail = detail, cs_devices = devices \<rparr>)"

text \<open>The zero value \<^verbatim>\<open>IODeviceWeightCapabilitySnapshot{}\<close>.\<close>

definition emptySnapshot :: capability_snapshot where
  "emptySnapshot = \<lparr> cs_selector = [], cs_outcome = OtherOutcome [], cs_reason = IODeviceWeightReasonNone, cs_detail = None, cs_devices = [] \<rparr>"

definition completeObservation :: "device_capability \<Rightarrow> bool" where
  "completeObservation d =
     (case dc_Outcome d of
        IODeviceWeightProbeCandidate \<Rightarrow>
          dc_Reason d = IODeviceWeightReasonNone \<and> validIODeviceWeightMechanism (dc_Mechanism d) \<and> di_DeviceNode (dc_Identity d) \<noteq> []
      | OtherOutcome _ \<Rightarrow> False
      | _ \<Rightarrow> dc_Reason d \<noteq> IODeviceWeightReasonNone)"

definition NewIODeviceWeightCapabilitySnapshot ::
  "(u32 \<Rightarrow> u32 \<Rightarrow> bool) \<Rightarrow> string \<Rightarrow> device_capability list \<Rightarrow> capability_snapshot option" where
  "NewIODeviceWeightCapabilitySnapshot fits selector devices =
     (case ParseIODeviceWeightDevices fits selector of
        None \<Rightarrow> None
      | Some parsed \<Rightarrow>
          if length parsed \<noteq> length devices \<or> map (di_Number \<circ> dc_Identity) devices \<noteq> parsed \<or> \<not> list_all completeObservation devices then None
          else Some (newIODeviceWeightCapabilitySnapshot (canonicalIODeviceWeightSelector parsed) devices))"

definition NewIODeviceWeightProbeCandidateSnapshot ::
  "(u32 \<Rightarrow> u32 \<Rightarrow> bool) \<Rightarrow> string \<Rightarrow> device_capability list \<Rightarrow> capability_snapshot option" where
  "NewIODeviceWeightProbeCandidateSnapshot fits selector devices =
     (case NewIODeviceWeightCapabilitySnapshot fits selector devices of
        None \<Rightarrow> None
      | Some s \<Rightarrow> if cs_outcome s \<noteq> IODeviceWeightProbeCandidate then None else Some s)"

definition probeTarget :: "device_capability \<Rightarrow> probe_target" where
  "probeTarget d = \<lparr> pt_Identity = dc_Identity d, pt_Mechanism = dc_Mechanism d \<rparr>"

definition ProbeTargets :: "capability_snapshot \<Rightarrow> probe_target list" where
  "ProbeTargets s =
     (if cs_outcome s \<noteq> IODeviceWeightProbeCandidate then []
      else if \<not> list_all (\<lambda>d. dc_Outcome d = IODeviceWeightProbeCandidate \<and> validIODeviceWeightMechanism (dc_Mechanism d)) (cs_devices s) then []
      else map probeTarget (cs_devices s))"

text \<open>\<open>cancelled n\<close> is \<^verbatim>\<open>ctx.Err() != nil\<close> before the device at position \<open>n\<close>.\<close>

definition classifyDevice :: "classifier \<Rightarrow> classifier_io \<Rightarrow> bool \<Rightarrow> device_number \<Rightarrow> device_capability" where
  "classifyDevice c fs cancelled number =
     (if cancelled then unresolvedCapability number IODeviceWeightEvidenceUnavailable IODeviceWeightReasonEvidenceUnavailable None
      else (case resolveDevice c fs number of
          Inl e \<Rightarrow> deviceCapabilityFromError number e
        | Inr resolved \<Rightarrow> classifyResolvedDevice fs resolved (readMechanismEnvironment c fs)))"

fun selectorFault :: "(u32 \<Rightarrow> u32 \<Rightarrow> bool) \<Rightarrow> device_number list \<Rightarrow> string list \<Rightarrow> capability_error" where
  "selectorFault fits seen [] = capabilityError IODeviceWeightReasonNone []"
| "selectorFault fits seen (p # ps) =
     (case parseDeviceNumber fits p of
        None \<Rightarrow> capabilityError IODeviceWeightReasonInvalidSelector (trimSpace p)
      | Some n \<Rightarrow> if n \<in> set seen then capabilityError IODeviceWeightReasonDuplicateDevice (deviceNumberString n) else selectorFault fits (n # seen) ps)"

definition selectorError :: "(u32 \<Rightarrow> u32 \<Rightarrow> bool) \<Rightarrow> string \<Rightarrow> capability_error" where
  "selectorError fits selector =
     (if trimSpace selector = [] then capabilityError IODeviceWeightReasonEmptySelector []
      else selectorFault fits [] (splitOn (CHR '','') (trimSpace selector)))"

definition Classify :: "classifier \<Rightarrow> classifier_io \<Rightarrow> (nat \<Rightarrow> bool) \<Rightarrow> string \<Rightarrow> (capability_error, capability_snapshot) res" where
  "Classify c fs cancelled selector =
     (case ParseIODeviceWeightDevices (cl_devFits c) selector of
        None \<Rightarrow> Inl (selectorError (cl_devFits c) selector)
      | Some devices \<Rightarrow>
          Inr (newIODeviceWeightCapabilitySnapshot (canonicalIODeviceWeightSelector devices)
            (map (\<lambda>(i, n). classifyDevice c fs (cancelled i) n) (enumerate 0 devices))))"

definition ioDeviceWeightMechanismEvidenceEquivalent :: "mechanism_evidence \<Rightarrow> mechanism_evidence \<Rightarrow> bool" where
  "ioDeviceWeightMechanismEvidenceEquivalent l r \<longleftrightarrow>
     me_Mechanism l = me_Mechanism r \<and> me_ControllerAvailable l = me_ControllerAvailable r \<and> me_RuntimeAvailable l = me_RuntimeAvailable r \<and>
     me_SchedulerAvailable l = me_SchedulerAvailable r \<and> me_SchedulerSelected l = me_SchedulerSelected r \<and>
     me_IOCostEnabled l = me_IOCostEnabled r \<and> me_State l = me_State r"

definition ioDeviceWeightDeviceCapabilitiesEquivalent :: "device_capability \<Rightarrow> device_capability \<Rightarrow> bool" where
  "ioDeviceWeightDeviceCapabilitiesEquivalent before after \<longleftrightarrow>
     dc_Identity before = dc_Identity after \<and> dc_Outcome before = dc_Outcome after \<and> dc_Reason before = dc_Reason after \<and>
     dc_Mechanism before = dc_Mechanism after \<and>
     (if dc_Mechanism before = IODeviceWeightMechanismBFQ then
        me_State (dc_BFQ before) = me_State (dc_BFQ after) \<and> me_SchedulerSelected (dc_BFQ before) = me_SchedulerSelected (dc_BFQ after) \<and>
        me_ControllerAvailable (dc_BFQ before) = me_ControllerAvailable (dc_BFQ after) \<and>
        me_RuntimeAvailable (dc_BFQ before) = me_RuntimeAvailable (dc_BFQ after)
      else if dc_Mechanism before = IODeviceWeightMechanismIOCost then
        me_State (dc_IOCost before) = me_State (dc_IOCost after) \<and> me_IOCostEnabled (dc_IOCost before) = me_IOCostEnabled (dc_IOCost after) \<and>
        me_ControllerAvailable (dc_IOCost before) = me_ControllerAvailable (dc_IOCost after) \<and>
        me_RuntimeAvailable (dc_IOCost before) = me_RuntimeAvailable (dc_IOCost after)
      else ioDeviceWeightMechanismEvidenceEquivalent (dc_BFQ before) (dc_BFQ after) \<and>
           ioDeviceWeightMechanismEvidenceEquivalent (dc_IOCost before) (dc_IOCost after))"

definition ioDeviceWeightSnapshotsEquivalent :: "capability_snapshot \<Rightarrow> capability_snapshot \<Rightarrow> bool" where
  "ioDeviceWeightSnapshotsEquivalent previous current \<longleftrightarrow>
     cs_selector previous = cs_selector current \<and> cs_outcome previous = cs_outcome current \<and> cs_reason previous = cs_reason current \<and>
     list_all2 ioDeviceWeightDeviceCapabilitiesEquivalent (cs_devices previous) (cs_devices current)"

definition deviceChange :: "device_capability \<Rightarrow> device_capability \<Rightarrow> capability_reason option" where
  "deviceChange before after =
     (if dc_Reason after = IODeviceWeightReasonDeviceMissing then Some IODeviceWeightReasonDeviceMissing
      else if dc_Identity before \<noteq> dc_Identity after then Some IODeviceWeightReasonDeviceIdentityChanged
      else if me_SchedulerSelected (dc_BFQ before) \<noteq> me_SchedulerSelected (dc_BFQ after) then Some IODeviceWeightReasonSchedulerChanged
      else if me_IOCostEnabled (dc_IOCost before) \<noteq> me_IOCostEnabled (dc_IOCost after) then Some IODeviceWeightReasonIOCostChanged
      else if \<not> ioDeviceWeightDeviceCapabilitiesEquivalent before after then Some IODeviceWeightReasonCapabilityChanged
      else None)"

fun firstChange :: "(device_capability \<times> device_capability) list \<Rightarrow> capability_error" where
  "firstChange [] = capabilityError IODeviceWeightReasonCapabilityChanged []"
| "firstChange ((before, after) # ds) =
     (case deviceChange before after of
        Some reason \<Rightarrow> capabilityError reason (deviceNumberString (di_Number (dc_Identity before)))
      | None \<Rightarrow> firstChange ds)"

definition classifyIODeviceWeightSnapshotChange :: "capability_snapshot \<Rightarrow> capability_snapshot \<Rightarrow> capability_error" where
  "classifyIODeviceWeightSnapshotChange previous current =
     (if length (cs_devices previous) \<noteq> length (cs_devices current) then capabilityError IODeviceWeightReasonCapabilityChanged []
      else firstChange (zip (cs_devices previous) (cs_devices current)))"

text \<open>The snapshot that comes with an error is the current one, or the zero value when the selector is refused.\<close>

definition Confirm :: "classifier \<Rightarrow> classifier_io \<Rightarrow> (nat \<Rightarrow> bool) \<Rightarrow> capability_snapshot \<Rightarrow> capability_snapshot \<times> capability_error option" where
  "Confirm c fs cancelled previous =
     (case Classify c fs cancelled (cs_selector previous) of
        Inl e \<Rightarrow> (emptySnapshot, Some e)
      | Inr current \<Rightarrow>
          if ioDeviceWeightSnapshotsEquivalent previous current then (current, None)
          else (current, Some (classifyIODeviceWeightSnapshotChange previous current)))"

section \<open>Block devices of a filter\<close>

fun nodesOf :: "classifier \<Rightarrow> classifier_io \<Rightarrow> string list \<Rightarrow> string list \<Rightarrow> string list option" where
  "nodesOf c fs result [] = Some result"
| "nodesOf c fs result (number # ns) =
     (case kf_readFile fs (cleanAbs (cl_sysDevBlockRoot c @ ''/'' @ number @ ''/uevent'')) of
        Inl _ \<Rightarrow> None
      | Inr content \<Rightarrow>
          let name = ueventValue content ''DEVNAME''; path = joinClean (cl_devRoot c) name in
          if \<not> validDeviceName name then None
          else (case kf_stat fs path of
              Inl _ \<Rightarrow> None
            | Inr info \<Rightarrow>
                if fi_Mode info AND ModeDevice = 0 \<or> fi_Mode info AND ModeCharDevice \<noteq> 0 then None
                else nodesOf c fs (if path \<in> set result then result else result @ [path]) ns))"

definition listedNumbers :: "classifier_io \<Rightarrow> string list \<Rightarrow> string list" where
  "listedNumbers fs names =
     concat (map (\<lambda>n. case readAt fs (joinClean ''/sys/block'' n) ''dev'' of
         Inl _ \<Rightarrow> []
       | Inr content \<Rightarrow> if trimSpace content = [] then [] else [trimSpace content]) names)"

definition resolveBlockDevices :: "classifier \<Rightarrow> classifier_io \<Rightarrow> string \<Rightarrow> string list option" where
  "resolveBlockDevices c fs deviceFilter =
     (let f = trimSpace deviceFilter in
      case (if f \<noteq> [] \<and> f \<noteq> ''all'' then Some [f] else (case ci_readDir fs ''/sys/block'' of Inl _ \<Rightarrow> None | Inr names \<Rightarrow> Some (listedNumbers fs names))) of
        None \<Rightarrow> None
      | Some numbers \<Rightarrow>
          (case nodesOf c fs [] (sort numbers) of
             None \<Rightarrow> None
           | Some result \<Rightarrow> if result = [] then None else Some (sort result)))"

section \<open>Classification is all or nothing\<close>

definition activeMechanism :: "mechanism_state \<Rightarrow> mechanism_state \<Rightarrow> mechanism option" where
  "activeMechanism bfq ioCost =
     (if bfq = IODeviceWeightMechanismStateActive \<and> ioCost \<notin> {IODeviceWeightMechanismStateActive, IODeviceWeightMechanismStateUnavailable}
      then Some IODeviceWeightMechanismBFQ
      else if ioCost = IODeviceWeightMechanismStateActive \<and> bfq \<notin> {IODeviceWeightMechanismStateActive, IODeviceWeightMechanismStateUnavailable}
      then Some IODeviceWeightMechanismIOCost else None)"

text \<open>The target of a device that resolves and has exactly one active mechanism, with nothing unavailable.\<close>

definition readyTarget :: "classifier \<Rightarrow> classifier_io \<Rightarrow> device_number \<Rightarrow> probe_target option" where
  "readyTarget c fs number =
     (case resolveDevice c fs number of
        Inl _ \<Rightarrow> None
      | Inr resolved \<Rightarrow>
          (let env = readMechanismEnvironment c fs in
           map_option (\<lambda>m. \<lparr> pt_Identity = resolved, pt_Mechanism = m \<rparr>)
             (activeMechanism (me_State (inspectBFQ fs resolved env)) (me_State (inspectIOCost resolved env)))))"

lemma mechanisms_valid [simp]: "validIODeviceWeightMechanism IODeviceWeightMechanismBFQ" "validIODeviceWeightMechanism IODeviceWeightMechanismIOCost"
  by (simp_all add: validIODeviceWeightMechanism_def)

lemma classified_ready:
  "(dc_Outcome (classifyDevice c fs False n) = IODeviceWeightProbeCandidate \<longleftrightarrow> readyTarget c fs n \<noteq> None) \<and>
   (\<forall>t. readyTarget c fs n = Some t \<longrightarrow> probeTarget (classifyDevice c fs False n) = t \<and> validIODeviceWeightMechanism (dc_Mechanism (classifyDevice c fs False n)))"
proof (cases "resolveDevice c fs n")
  case (Inl e)
  then show ?thesis by (simp add: classifyDevice_def readyTarget_def deviceCapabilityFromError_def unresolvedCapability_def)
next
  case (Inr resolved)
  then show ?thesis
    by (simp add: classifyDevice_def readyTarget_def classifyResolvedDevice_def Let_def activeMechanism_def probeTarget_def)
qed

lemma aggregate_candidate_iff:
  assumes "\<forall>d \<in> set ds. dc_Outcome d \<in> set os \<or> dc_Outcome d = IODeviceWeightProbeCandidate" "IODeviceWeightProbeCandidate \<notin> set os"
  shows "fst (aggregateFrom os ds) = IODeviceWeightProbeCandidate \<longleftrightarrow> (\<forall>d \<in> set ds. dc_Outcome d = IODeviceWeightProbeCandidate)"
  using assms
proof (induction os)
  case (Cons candidate os)
  show ?case
  proof (cases "find (\<lambda>d. dc_Outcome d = candidate) ds")
    case None
    then have "\<forall>d \<in> set ds. dc_Outcome d \<noteq> candidate" by (simp add: find_None_iff)
    then have "fst (aggregateFrom os ds) = IODeviceWeightProbeCandidate \<longleftrightarrow> (\<forall>d \<in> set ds. dc_Outcome d = IODeviceWeightProbeCandidate)"
      using Cons.prems by (intro Cons.IH) auto
    with None show ?thesis by simp
  next
    case (Some d)
    then have "d \<in> set ds" "dc_Outcome d = candidate" by (auto simp: find_Some_iff)
    with Cons.prems(2) Some show ?thesis by auto
  qed
qed simp

lemma classified_outcome: "dc_Outcome (classifyDevice c fs b n) \<in> set aggregateOrder \<or> dc_Outcome (classifyDevice c fs b n) = IODeviceWeightProbeCandidate"
  by (simp add: classifyDevice_def aggregateOrder_def unresolvedCapability_def deviceCapabilityFromError_def classifyResolvedDevice_def Let_def split: sum.split)

lemma cancelled_outcome: "dc_Outcome (classifyDevice c fs True n) \<noteq> IODeviceWeightProbeCandidate"
  by (simp add: classifyDevice_def unresolvedCapability_def)

definition readyTargets :: "classifier \<Rightarrow> classifier_io \<Rightarrow> (nat \<Rightarrow> bool) \<Rightarrow> device_number list \<Rightarrow> probe_target list" where
  "readyTargets c fs cancelled devices =
     (if list_all (\<lambda>(i, n). \<not> cancelled i \<and> readyTarget c fs n \<noteq> None) (enumerate 0 devices)
      then map (the \<circ> readyTarget c fs) devices else [])"

lemma candidate_ready:
  "dc_Outcome (classifyDevice c fs b n) = IODeviceWeightProbeCandidate \<longleftrightarrow> \<not> b \<and> readyTarget c fs n \<noteq> None"
  using classified_ready [of c fs n] cancelled_outcome [of c fs n] by (cases b) auto

lemma classified_targets:
  assumes "Classify c fs cancelled selector = Inr s" "ParseIODeviceWeightDevices (cl_devFits c) selector = Some devices"
  shows "ProbeTargets s = readyTargets c fs cancelled devices"
proof -
  let ?ds = "map (\<lambda>(i, n). classifyDevice c fs (cancelled i) n) (enumerate 0 devices)"
  have s: "cs_devices s = ?ds" "cs_outcome s = fst (aggregateFrom aggregateOrder ?ds)"
    using assms by (auto simp: Classify_def newIODeviceWeightCapabilitySnapshot_def aggregateIODeviceWeightCapability_def split: prod.splits)
  have "cs_outcome s = IODeviceWeightProbeCandidate \<longleftrightarrow> (\<forall>d \<in> set ?ds. dc_Outcome d = IODeviceWeightProbeCandidate)"
    unfolding s(2)
  proof (rule aggregate_candidate_iff)
    show "\<forall>d \<in> set ?ds. dc_Outcome d \<in> set aggregateOrder \<or> dc_Outcome d = IODeviceWeightProbeCandidate"
      using classified_outcome [of c fs] by auto
  qed (simp add: aggregateOrder_def)
  also have "\<dots> \<longleftrightarrow> list_all (\<lambda>(i, n). \<not> cancelled i \<and> readyTarget c fs n \<noteq> None) (enumerate 0 devices)"
    by (auto simp: list_all_iff candidate_ready)
  finally have outcome: "cs_outcome s = IODeviceWeightProbeCandidate \<longleftrightarrow> list_all (\<lambda>(i, n). \<not> cancelled i \<and> readyTarget c fs n \<noteq> None) (enumerate 0 devices)" .
  show ?thesis
  proof (cases "cs_outcome s = IODeviceWeightProbeCandidate")
    case False
    then show ?thesis using outcome by (simp add: ProbeTargets_def readyTargets_def)
  next
    case True
    then have ready: "\<not> cancelled i \<and> (\<exists>t. readyTarget c fs n = Some t)" if "(i, n) \<in> set (enumerate 0 devices)" for i n
      using outcome that by (auto simp: list_all_iff)
    have each: "dc_Outcome (classifyDevice c fs (cancelled i) n) = IODeviceWeightProbeCandidate \<and>
        validIODeviceWeightMechanism (dc_Mechanism (classifyDevice c fs (cancelled i) n)) \<and>
        probeTarget (classifyDevice c fs (cancelled i) n) = the (readyTarget c fs n)" if "(i, n) \<in> set (enumerate 0 devices)" for i n
      using ready [OF that] classified_ready [of c fs n] by auto
    then have "list_all (\<lambda>d. dc_Outcome d = IODeviceWeightProbeCandidate \<and> validIODeviceWeightMechanism (dc_Mechanism d)) ?ds"
      by (auto simp: list_all_iff)
    moreover have "map probeTarget ?ds = map (\<lambda>(i, n). the (readyTarget c fs n)) (enumerate 0 devices)"
      using each by auto
    moreover have "map (\<lambda>(i, n). the (readyTarget c fs n)) (enumerate 0 devices) = map (the \<circ> readyTarget c fs) (map snd (enumerate 0 devices))"
      by (simp only: case_prod_unfold map_map comp_def)
    ultimately show ?thesis using True outcome by (simp add: ProbeTargets_def s(1) readyTargets_def del: map_map)
  qed
qed

section \<open>Confirmation\<close>

lemma equivalent_devices:
  "list_all2 ioDeviceWeightDeviceCapabilitiesEquivalent ds es \<Longrightarrow>
     map dc_Outcome ds = map dc_Outcome es \<and> map dc_Mechanism ds = map dc_Mechanism es \<and> map probeTarget ds = map probeTarget es"
  by (induction rule: list_all2_induct) (auto simp: ioDeviceWeightDeviceCapabilitiesEquivalent_def probeTarget_def)

lemma equivalent_targets:
  assumes "ioDeviceWeightSnapshotsEquivalent previous current"
  shows "ProbeTargets current = ProbeTargets previous"
proof -
  let ?P = "\<lambda>ds. list_all (\<lambda>d. dc_Outcome d = IODeviceWeightProbeCandidate \<and> validIODeviceWeightMechanism (dc_Mechanism d)) ds"
  have all: "?P ds \<longleftrightarrow> list_all (\<lambda>x. x = IODeviceWeightProbeCandidate) (map dc_Outcome ds) \<and> list_all validIODeviceWeightMechanism (map dc_Mechanism ds)" for ds
    by (auto simp: list_all_iff)
  from assms have "cs_outcome previous = cs_outcome current" and "list_all2 ioDeviceWeightDeviceCapabilitiesEquivalent (cs_devices previous) (cs_devices current)"
    by (simp_all add: ioDeviceWeightSnapshotsEquivalent_def)
  with equivalent_devices [OF this(2)] show ?thesis by (simp add: ProbeTargets_def all)
qed

section \<open>Resolved devices\<close>

lemma andThen_Inr: "andThen r f = Inr y \<longleftrightarrow> (\<exists>x. r = Inr x \<and> f x = Inr y)"
  by (simp add: andThen_def split: sum.split)

text \<open>A holder that is a logical volume over this device only.\<close>

definition plainHolder :: "classifier \<Rightarrow> classifier_io \<Rightarrow> string \<Rightarrow> string \<Rightarrow> string \<Rightarrow> bool" where
  "plainHolder c fs devicePath requested holderPath \<longleftrightarrow>
     pathWithin (cl_sysRoot c) holderPath \<and> holderKind fs holderPath requested = Inr () \<and>
     validateIODeviceWeightLVMHolder c fs holderPath devicePath requested = Inr ()"

definition plainHolders :: "classifier \<Rightarrow> classifier_io \<Rightarrow> string \<Rightarrow> string \<Rightarrow> string \<Rightarrow> bool" where
  "plainHolders c fs devicePath requested sourcePath \<longleftrightarrow>
     (\<exists>holders. ci_readDir fs (joinClean sourcePath ''holders'') = Inr holders \<and>
        (\<forall>h \<in> set holders. \<exists>target. ci_evalSymlinks fs (joinClean (joinClean sourcePath ''holders'') h) = Inr target \<and>
           plainHolder c fs devicePath requested (cleanAbs target)))"

lemma inspectHolders_plain:
  assumes "inspectHolders c fs sourcePath devicePath requested seen hs = Inr seen'" "\<forall>h \<in> set seen. plainHolder c fs devicePath requested h"
  shows "(\<forall>h \<in> set seen'. plainHolder c fs devicePath requested h) \<and>
    (\<forall>h \<in> set hs. \<exists>target. ci_evalSymlinks fs (joinClean (joinClean sourcePath ''holders'') h) = Inr target \<and> plainHolder c fs devicePath requested (cleanAbs target))"
  using assms
proof (induction hs arbitrary: seen)
  case (Cons h hs)
  obtain target where target: "ci_evalSymlinks fs (joinClean (joinClean sourcePath ''holders'') h) = Inr target"
    using Cons.prems(1) by (auto split: sum.splits)
  let ?h = "cleanAbs target"
  have plain: "plainHolder c fs devicePath requested ?h \<and> (\<exists>seen2. inspectHolders c fs sourcePath devicePath requested seen2 hs = Inr seen' \<and>
      (\<forall>h \<in> set seen2. plainHolder c fs devicePath requested h))"
  proof (cases "?h \<in> set seen")
    case True
    with Cons.prems target show ?thesis by (auto simp: Let_def split: if_splits)
  next
    case False
    then have "plainHolder c fs devicePath requested ?h" "inspectHolders c fs sourcePath devicePath requested (?h # seen) hs = Inr seen'"
      using Cons.prems(1) target by (auto simp: Let_def plainHolder_def split: sum.splits if_splits)
    with Cons.prems(2) show ?thesis by (intro conjI exI [of _ "?h # seen"]) auto
  qed
  then obtain seen2 where "inspectHolders c fs sourcePath devicePath requested seen2 hs = Inr seen'"
    "\<forall>h \<in> set seen2. plainHolder c fs devicePath requested h" by blast
  from Cons.IH [OF this] plain target show ?case by auto
qed simp

lemma inspectSources_plain:
  "inspectSources c fs devicePath requested seen ss = Inr () \<Longrightarrow> \<forall>h \<in> set seen. plainHolder c fs devicePath requested h \<Longrightarrow>
     \<forall>s \<in> set ss. plainHolders c fs devicePath requested s"
proof (induction ss arbitrary: seen)
  case (Cons s ss)
  obtain holders seen' where h: "ci_readDir fs (joinClean s ''holders'') = Inr holders"
    "inspectHolders c fs s devicePath requested seen holders = Inr seen'" "inspectSources c fs devicePath requested seen' ss = Inr ()"
    using Cons.prems(1) by (auto simp: inspectIODeviceWeightHolders_def split: sum.splits)
  from inspectHolders_plain [OF h(2) Cons.prems(2)] Cons.IH [OF h(3)] h(1) show ?case by (simp add: plainHolders_def)
qed simp

lemma holderSourcesIn_keeps:
  "holderSourcesIn fs devicePath requested sources names = Inr ss \<Longrightarrow>
     set sources \<subseteq> set ss \<and> (\<forall>n \<in> set names. \<forall>info content. kf_stat fs (joinClean devicePath n) = Inr info \<longrightarrow> Mode_IsDir (fi_Mode info) \<longrightarrow>
       readAt fs (joinClean devicePath n) ''partition'' = Inr content \<longrightarrow> joinClean devicePath n \<in> set ss)"
proof (induction fs devicePath requested sources names rule: holderSourcesIn.induct)
  case (2 fs devicePath requested sources name names)
  then show ?case by (auto split: sum.splits if_splits)
qed simp

text \<open>A partition of a device: a directory below it with the marker.\<close>

definition isPartition :: "classifier_io \<Rightarrow> string \<Rightarrow> string \<Rightarrow> bool" where
  "isPartition fs devicePath name \<longleftrightarrow>
     (\<exists>info content. kf_stat fs (joinClean devicePath name) = Inr info \<and> Mode_IsDir (fi_Mode info) \<and>
        readAt fs (joinClean devicePath name) ''partition'' = Inr content)"

lemma accepted_holders:
  assumes "rejectUnsupportedHolders c fs devicePath requested = Inr ()"
  shows "plainHolders c fs devicePath requested devicePath \<and>
    (\<exists>names. ci_readDir fs devicePath = Inr names \<and>
       (\<forall>n \<in> set names. isPartition fs devicePath n \<longrightarrow> plainHolders c fs devicePath requested (joinClean devicePath n)))"
proof -
  obtain sources where src: "ioDeviceWeightHolderSources fs devicePath requested = Inr sources"
    and insp: "inspectSources c fs devicePath requested [] sources = Inr ()"
    using assms by (auto simp: rejectUnsupportedHolders_def split: sum.splits)
  then obtain names where names: "ci_readDir fs devicePath = Inr names" "holderSourcesIn fs devicePath requested [devicePath] names = Inr sources"
    by (auto simp: ioDeviceWeightHolderSources_def split: sum.splits)
  have plain: "\<forall>s \<in> set sources. plainHolders c fs devicePath requested s" using inspectSources_plain [OF insp] by simp
  from holderSourcesIn_keeps [OF names(2)] plain names(1) show ?thesis by (auto simp: isPartition_def)
qed

section \<open>Properties\<close>

text \<open>
  Weights are probed on all selected devices or on none. The targets of a classified selector are, in its order, the device
  and mechanism of every selected device when each of them resolves, was reached before any cancellation, and has exactly one
  active mechanism with the state of the other one known; in every other case there is no target at all.
\<close>

theorem probe_targets_all_or_nothing:
  assumes "Classify c fs cancelled selector = Inr s" "ParseIODeviceWeightDevices (cl_devFits c) selector = Some devices"
  shows "ProbeTargets s = readyTargets c fs cancelled devices"
  using assms by (rule classified_targets)

text \<open>
  A confirmed capability is the one that was probed: when the second pass over the files confirms a snapshot, it hands out exactly the
  same targets (device, node, inode and mechanism), whatever the files held in the meantime.
\<close>

theorem confirmed_targets_unchanged:
  assumes "Confirm c fs cancelled previous = (current, None)"
  shows "ProbeTargets current = ProbeTargets previous"
  using assms equivalent_targets by (auto simp: Confirm_def split: sum.splits if_splits)


section \<open>A sample device\<close>

definition sampleSysfs :: string where "sampleSysfs = ''/sys/virtio0/vda''"

definition sampleBlockFiles :: classifier_io where
  "sampleBlockFiles =
     (let dirInfo = \<lparr> fi_Mode = ModeDir, fi_Size = 0, fi_ModTime = 0, fi_Stat = Some \<lparr> st_Dev = 5, st_Ino = 31, st_Uid = 0, st_Gid = 0 \<rparr>, fi_Rdev = 0 \<rparr> in
      \<lparr> kf_readFile = \<lambda>p. (case map_of [(sampleSysfs @ ''/dev'', ''8:0''), (sampleSysfs @ ''/uevent'', ''DEVNAME=vda''),
            (sampleSysfs @ ''/queue/scheduler'', ''none [bfq]''), (''/sys/fs/cgroup/cgroup.controllers'', ''cpu io'')] p of
            None \<Rightarrow> Inl ErrNotExist | Some content \<Rightarrow> Inr content),
        kf_stat = \<lambda>p. (if p = ''/dev/vda'' then Inr (dirInfo\<lparr> fi_Mode := ModeDevice \<rparr>)
            else if p = sampleSysfs \<or> p = sampleSysfs @ ''/queue'' then Inr dirInfo else Inl ErrNotExist),
        kf_openDir = \<lambda>_. Inl ErrNotExist,
        ci_readDir = \<lambda>p. (if p = sampleSysfs then Inr [''queue''] else if p = sampleSysfs @ ''/holders'' then Inr [] else Inl ErrNotExist),
        ci_evalSymlinks = \<lambda>p. (if p = ''/sys/dev/block/8:0'' then Inr sampleSysfs else Inl ErrNotExist) \<rparr>)"

definition sampleClassifier :: classifier where
  "sampleClassifier = NewIODeviceWeightCapabilityClassifier (\<lambda>_. (8, 0)) (\<lambda>_ _. True)"

definition sampleDevice :: device_identity where
  "sampleDevice = \<lparr> di_Number = (8, 0), di_DeviceNode = ''/dev/vda'', di_SysfsPath = sampleSysfs, di_SysfsInode = 31 \<rparr>"

lemma classifier_sample_steps:
  "deviceNumberString (8, 0) = ''8:0''" "sysfsPath sampleClassifier sampleBlockFiles ''8:0'' = Inr sampleSysfs"
  "wholeDevice sampleBlockFiles sampleSysfs ''8:0'' = Inr ()"
  "markerAbsent sampleBlockFiles sampleSysfs ''8:0'' ''dm'' = Inr ()" "markerAbsent sampleBlockFiles sampleSysfs ''8:0'' ''md'' = Inr ()"
  "noSlaves sampleBlockFiles sampleSysfs ''8:0'' = Inr ()" "rejectUnsupportedHolders sampleClassifier sampleBlockFiles sampleSysfs ''8:0'' = Inr ()"
  "requestQueue sampleBlockFiles sampleSysfs ''8:0'' = Inr ()" "approvedName sampleBlockFiles sampleSysfs ''8:0'' = Inr ''vda''"
  "confirmNode sampleClassifier sampleBlockFiles ''/dev/vda'' ''8:0'' = Inr ()" "sysfsInode sampleBlockFiles sampleSysfs ''8:0'' = Inr 31"
  by code_simp+

lemma sample_node: "joinClean (cl_devRoot sampleClassifier) ''vda'' = ''/dev/vda''"
  by (simp add: sampleClassifier_def NewIODeviceWeightCapabilityClassifier_def joinClean_def)

lemma sample_resolved: "resolveDevice sampleClassifier sampleBlockFiles (8, 0) = Inr sampleDevice"
  by (simp add: resolveDevice_def classifier_sample_steps sample_node andThen_def sampleDevice_def)


lemma sample_parsed: "ParseIODeviceWeightDevices (cl_devFits sampleClassifier) ''8:0'' = Some [(8, 0)]"
proof -
  have "trimSpace ''8:0'' = ''8:0''" "splitOn (CHR '','') ''8:0'' = [''8:0'']" by code_simp+
  moreover have "parseDeviceNumbers (cl_devFits sampleClassifier) [] [''8:0''] = Some [(8, 0)]" by code_simp
  ultimately show ?thesis by (simp add: ParseIODeviceWeightDevices_def)
qed

definition sampleTarget :: probe_target where
  "sampleTarget = \<lparr> pt_Identity = sampleDevice, pt_Mechanism = IODeviceWeightMechanismBFQ \<rparr>"

lemma sample_ready: "readyTargets sampleClassifier sampleBlockFiles (\<lambda>_. False) [(8, 0)] = [sampleTarget]"
proof -
  have "me_State (inspectBFQ sampleBlockFiles sampleDevice (readMechanismEnvironment sampleClassifier sampleBlockFiles)) = IODeviceWeightMechanismStateActive"
    by code_simp
  moreover have "me_State (inspectIOCost sampleDevice (readMechanismEnvironment sampleClassifier sampleBlockFiles)) = IODeviceWeightMechanismStateUnsupported"
    by code_simp
  ultimately show ?thesis
    by (simp add: readyTargets_def readyTarget_def sample_resolved activeMechanism_def sampleTarget_def)
qed

theorem probe_targets_all_or_nothing_witness:
  "map_option ProbeTargets (case Classify sampleClassifier sampleBlockFiles (\<lambda>_. False) ''8:0'' of Inl _ \<Rightarrow> None | Inr s \<Rightarrow> Some s) = Some [sampleTarget]"
proof -
  obtain s where s: "Classify sampleClassifier sampleBlockFiles (\<lambda>_. False) ''8:0'' = Inr s"
    using sample_parsed by (simp add: Classify_def)
  show ?thesis using probe_targets_all_or_nothing [OF s sample_parsed] s sample_ready by simp
qed

theorem confirmed_targets_unchanged_witness:
  "\<exists>previous. Confirm sampleClassifier sampleBlockFiles (\<lambda>_. False) previous = (previous, None) \<and> ProbeTargets previous \<noteq> []"
proof -
  obtain s where s: "Classify sampleClassifier sampleBlockFiles (\<lambda>_. False) ''8:0'' = Inr s"
    using sample_parsed by (simp add: Classify_def)
  have sel: "cs_selector s = ''8:0''"
  proof -
    have "canonicalIODeviceWeightSelector [(8, 0)] = ''8:0''" by code_simp
    then show ?thesis using s sample_parsed by (auto simp: Classify_def newIODeviceWeightCapabilitySnapshot_def split: prod.splits)
  qed
  have "list_all2 ioDeviceWeightDeviceCapabilitiesEquivalent ds ds" for ds
    by (rule list_all2_refl) (simp add: ioDeviceWeightDeviceCapabilitiesEquivalent_def ioDeviceWeightMechanismEvidenceEquivalent_def)
  then have confirm: "Confirm sampleClassifier sampleBlockFiles (\<lambda>_. False) s = (s, None)"
    using s sel by (simp add: Confirm_def ioDeviceWeightSnapshotsEquivalent_def)
  have "ProbeTargets s \<noteq> []" using classified_targets [OF s sample_parsed] sample_ready by simp
  moreover from confirmed_targets_unchanged [OF confirm] have "ProbeTargets s = ProbeTargets s" .
  ultimately show ?thesis using confirm by blast
qed

end
