(* ===== verification/Capability_Probe.thy ===== *)
theory Capability_Probe
  imports IoWeight_Classifier Write_Ahead_Recovery
begin

text \<open>
  Proving capabilities before they are relied on (\<^verbatim>\<open>internal/systemdunit/capabilities.go\<close>,
  \<^verbatim>\<open>internal/systemdunit/realtime_admission.go\<close> and the calls of \<^verbatim>\<open>internal/systemdunit/transport.go\<close> they
  need). At start the guard for realtime services decides first, then every mandatory capability is
  tried on \<^verbatim>\<open>user.slice\<close> itself with the adapter's own \<open>Apply\<close>, \<open>ConfirmApplied\<close> and \<open>Restore\<close>; the
  weighted I/O probe uses a transient slice that is stopped again. The theorems say that the guard
  decides before anything is touched, that a successful start leaves no lease on \<^verbatim>\<open>user.slice\<close>, that every
  transient unit that was started is stopped before the probe returns, and that a capability is
  reported missing only when the kernel refused it.
\<close>

section \<open>What the kernel says about realtime scheduling\<close>

definition realtimeGroupSchedulingEnabled :: string where "realtimeGroupSchedulingEnabled = ''enabled''"
definition realtimeGroupSchedulingDisabled :: string where "realtimeGroupSchedulingDisabled = ''disabled''"
definition realtimeGroupSchedulingUnreadable :: string where "realtimeGroupSchedulingUnreadable = ''unreadable''"

definition RealtimeProtectionConfigured :: string where "RealtimeProtectionConfigured = ''configured''"
definition RealtimeProtectionCPUSchedulingPolicy :: string where "RealtimeProtectionCPUSchedulingPolicy = ''cpu_scheduling_policy''"

record realtime_kernel_facts =
  rk_groupScheduling :: string
  rk_runtimeUnlimited :: bool
  rk_rootDelegatesCPU :: bool

definition revocationPossible :: "realtime_kernel_facts \<Rightarrow> bool" where
  "revocationPossible f \<longleftrightarrow>
     \<not> rk_rootDelegatesCPU f \<and> rk_groupScheduling f \<noteq> realtimeGroupSchedulingDisabled \<and> \<not> rk_runtimeUnlimited f"

text \<open>
  A stream as \<^verbatim>\<open>bufio.Scanner\<close> sees it: the bytes and whether they ended without a read error. A line
  of 64 KiB or more ends the scan with an error.
\<close>

type_synonym byte_stream = "string \<times> bool"

definition MaxScanTokenSize :: nat where "MaxScanTokenSize = 65536"

fun scanConfiguration :: "bool \<Rightarrow> bool \<Rightarrow> string list \<Rightarrow> string option" where
  "scanConfiguration ended saw [] = (if \<not> ended \<or> \<not> saw then None else Some realtimeGroupSchedulingDisabled)"
| "scanConfiguration ended saw (l # ls) =
     (if length l \<ge> MaxScanTokenSize then None
      else let line = trimSpace l in
        if line = ''CONFIG_RT_GROUP_SCHED=y'' then Some realtimeGroupSchedulingEnabled
        else if line = ''# CONFIG_RT_GROUP_SCHED is not set'' then Some realtimeGroupSchedulingDisabled
        else scanConfiguration ended (saw \<or> hasPrefix line ''CONFIG_'') ls)"

text \<open>A final line feed does not start another line; an empty line decides nothing in any case.\<close>

definition scanRealtimeGroupScheduling :: "byte_stream \<Rightarrow> string option" where
  "scanRealtimeGroupScheduling r = scanConfiguration (snd r) False (splitOn LF (fst r))"

text \<open>
  The files of \<^verbatim>\<open>realtimeKernelPaths\<close>, each None when it cannot be read; the configuration below
  \<^verbatim>\<open>/boot\<close> is found by the name of the release, the one of \<^verbatim>\<open>/proc\<close> is given decompressed.
\<close>

record realtime_kernel_files =
  rf_release :: "string option"
  rf_bootConfig :: "string \<Rightarrow> byte_stream option"
  rf_procConfig :: "byte_stream option"
  rf_runtimeSysctl :: "string option"
  rf_subtreeControl :: "string option"

definition scanned :: "byte_stream option \<Rightarrow> string option" where
  "scanned f = Option.bind f scanRealtimeGroupScheduling"

definition readRealtimeGroupScheduling :: "realtime_kernel_files \<Rightarrow> string" where
  "readRealtimeGroupScheduling fs =
     (case Option.bind (rf_release fs) (\<lambda>release. scanned (rf_bootConfig fs (''config-'' @ trimSpace release))) of
        Some state \<Rightarrow> state
      | None \<Rightarrow> (case scanned (rf_procConfig fs) of Some state \<Rightarrow> state | None \<Rightarrow> realtimeGroupSchedulingUnreadable))"

text \<open>\<^verbatim>\<open>strconv.ParseInt\<close> gives a negative number exactly for a minus sign and digits up to 2^63.\<close>

definition parsesNegative :: "string \<Rightarrow> bool" where
  "parsesNegative v =
     (case v of [] \<Rightarrow> False
      | c # ds \<Rightarrow> c = CHR ''-'' \<and> (case parseUint 64 ds of Some n \<Rightarrow> 0 < n \<and> n \<le> 2 ^ 63 | None \<Rightarrow> False))"

definition readRealtimeKernelFacts :: "realtime_kernel_files \<Rightarrow> realtime_kernel_facts" where
  "readRealtimeKernelFacts fs =
     \<lparr> rk_groupScheduling = readRealtimeGroupScheduling fs,
       rk_runtimeUnlimited = (case rf_runtimeSysctl fs of Some v \<Rightarrow> parsesNegative (trimSpace v) | None \<Rightarrow> False),
       rk_rootDelegatesCPU = (case rf_subtreeControl fs of Some v \<Rightarrow> ''cpu'' \<in> set (fieldsOf v) | None \<Rightarrow> False) \<rparr>"

section \<open>Errors\<close>

record missing_capability =
  mc_Feature :: string
  mc_Controller :: string
  mc_InterfaceName :: string
  mc_Property :: property_name

definition Complete :: "missing_capability \<Rightarrow> bool" where
  "Complete c \<longleftrightarrow> mc_Feature c \<noteq> [] \<and> mc_Controller c \<noteq> [] \<and> mc_InterfaceName c \<noteq> [] \<and> mc_Property c \<noteq> []"

record realtime_protection =
  rp_Unit :: string
  rp_Source :: string
  rp_KernelGroupScheduling :: string
  rp_RootCPUDelegationState :: string

text \<open>
  The tree of a returned error: an error of the adapter, an \<^verbatim>\<open>AdapterError\<close> made here with its reason,
  property and cause, the two typed refusals, the end of a context, a text, \<^verbatim>\<open>fmt.Errorf\<close> around
  another error and \<^verbatim>\<open>errors.Join\<close>.
\<close>

datatype context_error = ContextDeadlineExceeded | ContextCanceled

datatype probe_error =
    OfAdapter adapter_error
  | ProbeFault error_reason property_name probe_error
  | RequiredCapabilityError missing_capability
  | RealtimeProtectionError realtime_protection
  | ContextEnded context_error
  | TextError string
  | WrappedError string probe_error
  | JoinedErrors "probe_error list"

fun firstSome :: "'a option list \<Rightarrow> 'a option" where
  "firstSome [] = None"
| "firstSome (x # xs) = (case x of Some y \<Rightarrow> Some y | None \<Rightarrow> firstSome xs)"

text \<open>\<^verbatim>\<open>errors.As\<close> for an \<^verbatim>\<open>AdapterError\<close>, before the error's own cause.\<close>

fun adapterReason :: "adapter_error \<Rightarrow> error_reason option" where
  "adapterReason (AdapterError r _ _ _) = Some r"
| "adapterReason (JoinedError es) = firstSome (map adapterReason es)"
| "adapterReason _ = None"

fun probeReason :: "probe_error \<Rightarrow> error_reason option" where
  "probeReason (OfAdapter e) = adapterReason e"
| "probeReason (ProbeFault r _ _) = Some r"
| "probeReason (WrappedError _ e) = probeReason e"
| "probeReason (JoinedErrors es) = firstSome (map probeReason es)"
| "probeReason _ = None"

text \<open>\<^verbatim>\<open>errors.Is\<close> for the end of a context; the cause of an adapter error is not kept, \<open>ended\<close> says it of one.\<close>

type_synonym context_causes = "context_error \<Rightarrow> adapter_error \<Rightarrow> bool"

fun contextIs :: "context_causes \<Rightarrow> context_error \<Rightarrow> probe_error \<Rightarrow> bool" where
  "contextIs ended c (OfAdapter e) = ended c e"
| "contextIs ended c (ProbeFault _ _ e) = contextIs ended c e"
| "contextIs ended c (ContextEnded c') = (c' = c)"
| "contextIs ended c (WrappedError _ e) = contextIs ended c e"
| "contextIs ended c (JoinedErrors es) = list_ex (contextIs ended c) es"
| "contextIs ended c _ = False"

text \<open>\<^verbatim>\<open>errors.As\<close> for the two typed refusals.\<close>

fun refusalOf :: "probe_error \<Rightarrow> missing_capability option" where
  "refusalOf (RequiredCapabilityError c) = Some c"
| "refusalOf (ProbeFault _ _ e) = refusalOf e"
| "refusalOf (WrappedError _ e) = refusalOf e"
| "refusalOf (JoinedErrors es) = firstSome (map refusalOf es)"
| "refusalOf _ = None"

fun RealtimeProtectionFromError :: "probe_error \<Rightarrow> realtime_protection option" where
  "RealtimeProtectionFromError (RealtimeProtectionError p) = Some p"
| "RealtimeProtectionFromError (ProbeFault _ _ e) = RealtimeProtectionFromError e"
| "RealtimeProtectionFromError (WrappedError _ e) = RealtimeProtectionFromError e"
| "RealtimeProtectionFromError (JoinedErrors es) =
     firstSome (map RealtimeProtectionFromError es)"
| "RealtimeProtectionFromError _ = None"

definition MissingCapabilityFromError :: "probe_error \<Rightarrow> missing_capability option" where
  "MissingCapabilityFromError e = (case refusalOf e of Some c \<Rightarrow> if Complete c then Some c else None | None \<Rightarrow> None)"

definition IsRequiredCapabilityError :: "probe_error \<Rightarrow> bool" where
  "IsRequiredCapabilityError e \<longleftrightarrow> probeReason e = Some ReasonRequiredCapability"

definition IsCapabilityProbeError :: "probe_error \<Rightarrow> bool" where
  "IsCapabilityProbeError e \<longleftrightarrow> probeReason e = Some ReasonCapabilityProbe"

section \<open>The capabilities to prove\<close>

record startup_requirements =
  sr_Memory :: bool
  sr_IO :: bool
  sr_IODeviceWeights :: "io_device_weight_request list"
  sr_RealtimeProtectedUnits :: "string list"
  sr_realtimeKernel :: "realtime_kernel_facts option"

definition noRequirements :: startup_requirements where
  "noRequirements = \<lparr> sr_Memory = False, sr_IO = False, sr_IODeviceWeights = [], sr_RealtimeProtectedUnits = [], sr_realtimeKernel = None \<rparr>"

definition withRealtimeKernelFacts :: "startup_requirements \<Rightarrow> realtime_kernel_files \<Rightarrow> startup_requirements" where
  "withRealtimeKernelFacts r fs = r\<lparr> sr_realtimeKernel := Some (readRealtimeKernelFacts fs) \<rparr>"

record startup_capability =
  sc_feature :: string
  sc_controller :: string
  sc_interfaceName :: string
  sc_initialAssignments :: "property_assignment list"
  sc_probeAssignments :: "property_assignment list"
  sc_requiredAssignments :: "property_assignment list"

definition requiredCapabilityError :: "string \<Rightarrow> string \<Rightarrow> string \<Rightarrow> property_name \<Rightarrow> probe_error" where
  "requiredCapabilityError feature controller interfaceName property =
     ProbeFault ReasonRequiredCapability property
       (RequiredCapabilityError \<lparr> mc_Feature = feature, mc_Controller = controller, mc_InterfaceName = interfaceName, mc_Property = property \<rparr>)"

text \<open>The refusal of a capability; the code reads the first of its required assignments.\<close>

definition refused :: "startup_capability \<Rightarrow> probe_error" where
  "refused c = requiredCapabilityError (sc_feature c) (sc_controller c) (sc_interfaceName c) (pa_name (hd (sc_requiredAssignments c)))"

definition orElse :: "('e \<Rightarrow> 'f) \<Rightarrow> ('e, 'a) res \<Rightarrow> ('a \<Rightarrow> ('f, 'b) res) \<Rightarrow> ('f, 'b) res" where
  "orElse fail r f = (case r of Inl e \<Rightarrow> Inl (fail e) | Inr x \<Rightarrow> f x)"

definition cpuCapability :: "property_assignment \<Rightarrow> property_assignment list \<Rightarrow> startup_capability" where
  "cpuCapability activation cpuProbe =
     \<lparr> sc_feature = ''CPU limiting'', sc_controller = ''cpu'', sc_interfaceName = ''cpu.max'',
       sc_initialAssignments = [activation], sc_probeAssignments = cpuProbe, sc_requiredAssignments = cpuProbe \<rparr>"

definition memoryCapability :: "property_assignment \<Rightarrow> string \<times> property_name \<Rightarrow> (probe_error, startup_capability) res" where
  "memoryCapability activation candidate =
     orElse OfAdapter (NewPropertyAssignment (snd candidate) (2 ^ 30)) (\<lambda>a.
       Inr \<lparr> sc_feature = ''RAM limiting'', sc_controller = ''memory'', sc_interfaceName = fst candidate,
             sc_initialAssignments = [activation], sc_probeAssignments = [a], sc_requiredAssignments = [a] \<rparr>)"

definition memoryCapabilities :: "property_assignment \<Rightarrow> (probe_error, startup_capability list) res" where
  "memoryCapabilities activation =
     orElse id (memoryCapability activation (''memory.high'', PropertyMemoryHigh)) (\<lambda>high.
     orElse id (memoryCapability activation (''memory.max'', PropertyMemoryMax)) (\<lambda>maximum. Inr [high, maximum]))"

definition ioCapability :: "property_assignment \<Rightarrow> (probe_error, startup_capability list) res" where
  "ioCapability activation =
     (let failed = (\<lambda>_. requiredCapabilityError ''I/O limiting'' ''io'' ''io.max'' PropertyIOWeight) in
      orElse failed (NewPropertyAssignment PropertyIOWeight 100) (\<lambda>ioActivation.
      orElse failed (NewPropertyAssignment PropertyIOWeight 1000) (\<lambda>ioProbe.
        Inr [\<lparr> sc_feature = ''I/O limiting'', sc_controller = ''io'', sc_interfaceName = ''io.max'',
               sc_initialAssignments = [activation, ioActivation], sc_probeAssignments = [ioProbe],
               sc_requiredAssignments = [ioProbe,
                 \<lparr> pa_name = PropertyIOReadBandwidthMax, pa_value = \<lparr> pv_scalar = 0, pv_devices = [] \<rparr>, pa_targets = [] \<rparr>] \<rparr>])))"

definition probeRequest :: "io_device_weight_request \<Rightarrow> io_device_weight_request" where
  "probeRequest r = r\<lparr> rq_Weight := (if rq_Mechanism r = IODeviceWeightMechanismBFQ then 121 else 333) \<rparr>"

definition weightCapability :: "property_assignment \<Rightarrow> io_device_weight_request list \<Rightarrow> (probe_error, startup_capability list) res" where
  "weightCapability activation requests =
     orElse OfAdapter (NewPropertyAssignment PropertyIOWeight 100) (\<lambda>ioActivation.
     orElse OfAdapter (NewIODeviceWeightAssignment (map probeRequest requests)) (\<lambda>deviceWeights.
       Inr [\<lparr> sc_feature = ''weighted I/O'', sc_controller = ''io'', sc_interfaceName = ''qualified per-device weight interface'',
              sc_initialAssignments = [activation, ioActivation], sc_probeAssignments = [deviceWeights],
              sc_requiredAssignments = [deviceWeights] \<rparr>]))"

definition startupCapabilities :: "startup_requirements \<Rightarrow> (probe_error, startup_capability list) res" where
  "startupCapabilities r =
     orElse OfAdapter (NewPropertyAssignment PropertyCPUWeight 100) (\<lambda>activation.
     orElse OfAdapter (NewCPUQuotaAssignmentsFromCgroupMax 50000 100000) (\<lambda>cpuProbe.
     orElse id (if sr_Memory r then memoryCapabilities activation else Inr []) (\<lambda>memory.
     orElse id (if sr_IO r then ioCapability activation else Inr []) (\<lambda>io.
     orElse id (if sr_IODeviceWeights r \<noteq> [] then weightCapability activation (sr_IODeviceWeights r) else Inr []) (\<lambda>weights.
       Inr (cpuCapability activation cpuProbe # memory @ io @ weights))))))"

section \<open>The world of a probe\<close>

text \<open>
  The calls a probe makes besides those of the adapter: a transient unit is started, with the answer
  whether systemd took the job, and units are stopped. Each carries the length of the adapter's trace,
  so that the order of all calls is on record. What the world answers may depend on everything that
  happened; the adapter's own boundary changes with the calls of the probe.
\<close>

datatype probe_call = StartProbe string "property_assignment list" bool | StopUnit string

record probe_state =
  ps_machine :: machine
  ps_calls :: "(nat \<times> probe_call) list"

type_synonym probe_view = "call list \<times> (nat \<times> probe_call) list"

definition view :: "probe_state \<Rightarrow> probe_view" where
  "view s = (trace (ps_machine s), ps_calls s)"

record probe_world =
  pw_bd :: "(nat \<times> probe_call) list \<Rightarrow> boundary"
  pw_random :: "probe_view \<Rightarrow> string option"
  pw_startTransient :: "probe_view \<Rightarrow> string \<Rightarrow> string \<Rightarrow> property_assignment list \<Rightarrow> transport_error option"
  pw_startResult :: "probe_view \<Rightarrow> string option"
  pw_ended :: "probe_view \<Rightarrow> context_error"
  pw_listProbe :: "probe_view \<Rightarrow> string \<Rightarrow> (transport_error, listed_unit list) res"
  pw_stopUnit :: "probe_view \<Rightarrow> string \<Rightarrow> transport_error option"
  pw_stopResult :: "probe_view \<Rightarrow> string \<Rightarrow> string option"
  pw_files :: "probe_view \<Rightarrow> kernel_fs"
  pw_verifier :: cgroup_verifier
  pw_unitsByNames :: "probe_view \<Rightarrow> string list \<Rightarrow> (transport_error, (string \<times> string) list) res"
  pw_services :: "probe_view \<Rightarrow> (transport_error, (string \<times> string) list) res"
  pw_schedulingPolicy :: "probe_view \<Rightarrow> string \<Rightarrow> (transport_error, int option) res"

type_synonym 'a probe_op = "(probe_state, probe_error, 'a) op"

definition machineR :: "probe_world \<Rightarrow> (boundary \<Rightarrow> 'a adapter_op) \<Rightarrow> 'a probe_op" where
  "machineR w oper = (\<lambda>s. case oper (pw_bd w (ps_calls s)) (ps_machine s) of
     (Inl e, m) \<Rightarrow> (Inl (OfAdapter e), s\<lparr> ps_machine := m \<rparr>) | (Inr x, m) \<Rightarrow> (Inr x, s\<lparr> ps_machine := m \<rparr>))"

definition callProbe :: "probe_call \<Rightarrow> probe_state \<Rightarrow> probe_state" where
  "callProbe c s = s\<lparr> ps_calls := (length (trace (ps_machine s)), c) # ps_calls s \<rparr>"

text \<open>\<^verbatim>\<open>fmt.Errorf\<close> around the error of a step.\<close>

definition wrapR :: "string \<Rightarrow> 'a probe_op \<Rightarrow> 'a probe_op" where
  "wrapR msg oper = (\<lambda>s. case oper s of (Inl e, s') \<Rightarrow> (Inl (WrappedError msg e), s') | (Inr x, s') \<Rightarrow> (Inr x, s'))"

section \<open>Starting and stopping a transient unit\<close>

definition capabilityProbeServiceUnit :: "string \<Rightarrow> string" where
  "capabilityProbeServiceUnit parent = trimSuffix (trimPrefix parent ''user-'') ''.slice'' @ ''.service''"

definition zeroListed :: listed_unit where
  "zeroListed = \<lparr> lu_name = [], lu_objectPath = [], lu_loadState = [], lu_activeState = [] \<rparr>"

text \<open>After systemd took the job: the job ends, and exactly the one active unit is listed.\<close>

definition probeStarted :: "probe_world \<Rightarrow> probe_view \<Rightarrow> string \<Rightarrow> (probe_error, listed_unit) res" where
  "probeStarted w v unit =
     (case pw_startResult w v of
        None \<Rightarrow> Inl (ContextEnded (pw_ended w v))
      | Some outcome \<Rightarrow>
          if outcome \<noteq> ''done'' then Inl (TextError outcome)
          else (case pw_listProbe w v unit of
              Inl e \<Rightarrow> Inl (OfAdapter (classifyTransportError ''list_capability_probe'' unit e))
            | Inr [u] \<Rightarrow>
                if lu_name u = unit \<and> lu_loadState u = ''loaded'' \<and> lu_activeState u = ''active'' then Inr u
                else Inl (TextError ''not one active loaded unit'')
            | Inr _ \<Rightarrow> Inl (TextError ''not one active loaded unit'')))"

definition startCapabilityProbe ::
  "probe_world \<Rightarrow> string \<Rightarrow> property_assignment list \<Rightarrow> (bool \<times> (probe_error, listed_unit) res) probe_op" where
  "startCapabilityProbe w unit as = (\<lambda>s.
     case pw_startTransient w (view s) (capabilityProbeServiceUnit unit) unit as of
       Some e \<Rightarrow> (Inr (False, Inl (OfAdapter (classifyTransportError ''start_capability_probe'' unit e))), callProbe (StartProbe unit as False) s)
     | None \<Rightarrow> (let s' = callProbe (StartProbe unit as True) s in (Inr (True, probeStarted w (view s') unit), s')))"

text \<open>The context of a cleanup has a deadline only.\<close>

definition stopOne :: "probe_world \<Rightarrow> string \<Rightarrow> probe_error option probe_op" where
  "stopOne w target = (\<lambda>s. let s' = callProbe (StopUnit target) s in
     (Inr (case pw_stopUnit w (view s) target of
        Some e \<Rightarrow> (let c = classifyTransportError ''stop_capability_probe'' target e in
                   if adapterReason c = Some ReasonUnitMissing then None else Some (OfAdapter c))
      | None \<Rightarrow> (case pw_stopResult w (view s') target of
            None \<Rightarrow> Some (ContextEnded ContextDeadlineExceeded)
          | Some outcome \<Rightarrow> if outcome \<noteq> ''done'' then Some (TextError outcome) else None)), s'))"

text \<open>\<^verbatim>\<open>errors.Join\<close>: nothing when there is no error.\<close>

definition joinProbeErrors :: "probe_error list \<Rightarrow> probe_error option" where
  "joinProbeErrors es = (if es = [] then None else Some (JoinedErrors es))"

definition errorList :: "'a option \<Rightarrow> 'a list" where
  "errorList e = (case e of None \<Rightarrow> [] | Some x \<Rightarrow> [x])"

definition stopCapabilityProbe :: "probe_world \<Rightarrow> string \<Rightarrow> probe_error option probe_op" where
  "stopCapabilityProbe w unit =
     bindR (stopOne w (capabilityProbeServiceUnit unit)) (\<lambda>service.
     bindR (stopOne w unit) (\<lambda>slice. retR (joinProbeErrors (errorList service @ errorList slice))))"

section \<open>Interrupted probes and the parent slice\<close>

definition ownsUnitName :: "string \<Rightarrow> machine \<Rightarrow> bool" where
  "ownsUnitName unit m \<longleftrightarrow> unit \<in> ui_Name ` set (OwnedUnits m)"

text \<open>\<open>ReconcileOwned\<close> returns the joined errors of the units; here as one error or none.\<close>

definition reconcileOwnedR :: "probe_world \<Rightarrow> string \<Rightarrow> probe_error list probe_op" where
  "reconcileOwnedR w msg =
     bindR (tryR (machineR w ReconcileOwned)) (\<lambda>r. retR (case r of
       Inl e \<Rightarrow> [WrappedError msg e]
     | Inr es \<Rightarrow> if es = [] then [] else [WrappedError msg (OfAdapter (JoinedError es))]))"

fun stopProbes :: "probe_world \<Rightarrow> string list \<Rightarrow> probe_error list probe_op" where
  "stopProbes w [] = retR []"
| "stopProbes w (unit # us) =
     bindR (stopCapabilityProbe w unit) (\<lambda>e.
     bindR (stopProbes w us) (\<lambda>es. retR (map (WrappedError ''stop interrupted capability probe'') (errorList e) @ es)))"

definition cleanInterruptedCapabilityProbes :: "probe_world \<Rightarrow> unit probe_op" where
  "cleanInterruptedCapabilityProbes w =
     bindR (machineR w (\<lambda>bd. listUserSlices bd ''startup_capabilities'')) (\<lambda>listed.
     let probes = filter isCapabilityProbeUnit (map lu_name listed) in
     bindR (stopProbes w probes) (\<lambda>stopErrors.
     bindR (if probes \<noteq> [] then reconcileOwnedR w ''reconcile interrupted capability probes'' else retR []) (\<lambda>reconcileErrors.
     case joinProbeErrors (stopErrors @ reconcileErrors) of
       None \<Rightarrow> retR ()
     | Some e \<Rightarrow> failR (ProbeFault ReasonCapabilityProbe [] e))))"

text \<open>The first listed unit with the name, unless there is a second one.\<close>

definition singleParent :: "listed_unit list \<Rightarrow> (adapter_error, listed_unit) res" where
  "singleParent listed =
     (case filter (\<lambda>c. lu_name c = parentUserSlice) listed of
        [] \<Rightarrow> Inl (AdapterError ReasonUnitMissing ''startup_capabilities'' parentUserSlice [])
      | [p] \<Rightarrow>
          if lu_loadState p \<noteq> ''loaded'' \<or> lu_activeState p \<noteq> ''active'' \<or> \<not> hasPrefix (lu_objectPath p) ''/org/freedesktop/systemd1/unit/''
          then Inl (malformedReply ''startup_capabilities'' parentUserSlice) else Inr p
      | _ \<Rightarrow> Inl (malformedReply ''startup_capabilities'' parentUserSlice))"

definition listParent :: "boundary \<Rightarrow> listed_unit adapter_op" where
  "listParent bd =
     bindR (callR (bd_listUserSlices bd) (\<lambda>_. CallListUserSlices) (\<lambda>r. case r of
         Inl e \<Rightarrow> Inl (classifyTransportError ''startup_capabilities'' parentUserSlice e) | Inr p \<Rightarrow> Inr p)) (\<lambda>listed.
     liftR (singleParent listed))"

definition startupParent :: "probe_world \<Rightarrow> unit_snapshot probe_op" where
  "startupParent w =
     bindR (machineR w listParent) (\<lambda>parent.
     wrapR ''validate parent slice through the production adapter''
       (machineR w (\<lambda>bd. readUnit bd (lu_name parent) (lu_objectPath parent))))"

definition validateStartupParent :: "probe_world \<Rightarrow> unit probe_op" where
  "validateStartupParent w = bindR (startupParent w) (\<lambda>_. retR ())"

section \<open>The weighted I/O probe\<close>

definition capabilityProbePreparationError :: probe_error where
  "capabilityProbePreparationError =
     ProbeFault ReasonCapabilityProbe [] (WrappedError ''could not prepare'' (TextError ''generate capability probe identity''))"

text \<open>The end of the context and an unreachable bus keep their own class, everything else is a failed probe.\<close>

definition capabilityProbeStartError :: "context_causes \<Rightarrow> probe_error \<Rightarrow> probe_error" where
  "capabilityProbeStartError ended e =
     WrappedError ''could not start capability probe''
       (if contextIs ended ContextDeadlineExceeded e then ProbeFault ReasonTimeout [] e
        else if contextIs ended ContextCanceled e then ProbeFault ReasonBusUnavailable [] e
        else if probeReason e \<in> {Some ReasonBusUnavailable, Some ReasonTimeout} then e
        else ProbeFault ReasonCapabilityProbe [] e)"

definition newCapabilityProbeUnit :: "string \<Rightarrow> string" where
  "newCapabilityProbeUnit suffix = capabilityProbeUnitPrefix @ hexEncode suffix @ ''.slice''"

text \<open>The verifier looks at the kernel's files as they are then.\<close>

definition preflightR ::
  "probe_world \<Rightarrow> (cgroup_verifier \<Rightarrow> kernel_fs \<Rightarrow> unit_snapshot \<Rightarrow> property_assignment list \<Rightarrow> bool) \<Rightarrow>
   startup_capability \<Rightarrow> unit_snapshot \<Rightarrow> unit probe_op" where
  "preflightR w look capability snapshot =
     bindR (readR (\<lambda>s. look (pw_verifier w) (pw_files w (view s)) snapshot (sc_requiredAssignments capability))) (\<lambda>ok.
     checkR ok (refused capability))"

definition probeBody :: "probe_world \<Rightarrow> startup_capability \<Rightarrow> listed_unit \<Rightarrow> unit probe_op" where
  "probeBody w capability listed =
     bindR (wrapR ''read transient capability probe'' (machineR w (\<lambda>bd. readUnit bd (lu_name listed) (lu_objectPath listed)))) (\<lambda>snapshot.
     bindR (preflightR w preflight capability snapshot) (\<lambda>_.
     bindR (wrapR ''apply startup capability probe''
       (machineR w (\<lambda>bd. Apply bd (us_Identity snapshot) (sc_probeAssignments capability)))) (\<lambda>applied.
     bindR (wrapR ''confirm startup capability probe''
       (machineR w (\<lambda>bd. ConfirmApplied bd (us_Identity applied) (sc_probeAssignments capability)))) (\<lambda>_.
     retR ()))))"

text \<open>
  What the deferred function does once the unit was started: stop it, reconcile its lease when there
  is one, and look for what is left.
\<close>

definition cleanupProbe :: "probe_world \<Rightarrow> string \<Rightarrow> probe_error list probe_op" where
  "cleanupProbe w unit =
     bindR (stopCapabilityProbe w unit) (\<lambda>stopError.
     bindR (readR (\<lambda>s. ownsUnitName unit (ps_machine s))) (\<lambda>owned.
     bindR (if owned then reconcileOwnedR w ''reconcile transient capability probe'' else retR []) (\<lambda>reconcileErrors.
     bindR (tryR (machineR w (\<lambda>bd. mutablePaths bd ''startup_capabilities'' unit))) (\<lambda>paths.
     bindR (readR (\<lambda>s. ownsUnitName unit (ps_machine s))) (\<lambda>left.
     retR (map (WrappedError ''stop transient capability probe'') (errorList stopError) @ reconcileErrors @
           (case paths of
              Inl _ \<Rightarrow> [TextError ''inspect transient capability probe after cleanup'']
            | Inr ps \<Rightarrow> if ps \<noteq> [] then [TextError ''transient capability probe left mutable unit files''] else []) @
           (if left then [TextError ''transient capability probe left a durable property lease''] else [])))))))"

text \<open>The error of the function joined with those of its deferred cleanup.\<close>

definition finishWith :: "(probe_error, unit) res \<Rightarrow> probe_error list \<Rightarrow> unit probe_op" where
  "finishWith r errors =
     (case r of
        Inl e \<Rightarrow> failR (if errors = [] then e else JoinedErrors (e # errors))
      | Inr _ \<Rightarrow> (case joinProbeErrors errors of None \<Rightarrow> retR () | Some e \<Rightarrow> failR e))"

definition probeUnit :: "context_causes \<Rightarrow> probe_world \<Rightarrow> startup_capability \<Rightarrow> string \<Rightarrow> unit probe_op" where
  "probeUnit ended w capability unit =
     bindR (startCapabilityProbe w unit (sc_initialAssignments capability)) (\<lambda>(started, listed).
     bindR (tryR (case listed of
         Inl e \<Rightarrow> failR (capabilityProbeStartError ended e) | Inr l \<Rightarrow> probeBody w capability l)) (\<lambda>r.
     bindR (if started then cleanupProbe w unit else retR []) (\<lambda>errors. finishWith r errors)))"

definition probeTransientCapability :: "context_causes \<Rightarrow> probe_world \<Rightarrow> startup_capability \<Rightarrow> unit probe_op" where
  "probeTransientCapability ended w capability =
     bindR (readR (\<lambda>s. pw_random w (view s))) (\<lambda>suffix. case suffix of
       None \<Rightarrow> failR capabilityProbePreparationError
     | Some bytes \<Rightarrow> probeUnit ended w capability (newCapabilityProbeUnit bytes))"

definition requireCapabilities ::
  "context_causes \<Rightarrow> probe_world \<Rightarrow> startup_requirements \<Rightarrow> (startup_capability \<Rightarrow> bool) \<Rightarrow> unit probe_op" where
  "requireCapabilities ended w requirements include =
     bindR (cleanInterruptedCapabilityProbes w) (\<lambda>_.
     bindR (validateStartupParent w) (\<lambda>_.
     bindR (liftR (startupCapabilities requirements)) (\<lambda>capabilities.
     forR (probeTransientCapability ended w) (filter include capabilities))))"

definition incompleteTarget :: "probe_target \<Rightarrow> bool" where
  "incompleteTarget t \<longleftrightarrow> di_DeviceNode (pt_Identity t) = [] \<or> \<not> validIODeviceWeightMechanism (pt_Mechanism t)"

definition targetRequest :: "probe_target \<Rightarrow> io_device_weight_request" where
  "targetRequest t = \<lparr> rq_Path = di_DeviceNode (pt_Identity t), rq_Weight = 100, rq_Mechanism = pt_Mechanism t \<rparr>"

definition ProbeIODeviceWeights :: "context_causes \<Rightarrow> probe_world \<Rightarrow> probe_target list \<Rightarrow> unit probe_op" where
  "ProbeIODeviceWeights ended w targets =
     (if targets = [] then failR (ProbeFault ReasonCapabilityProbe [] (TextError ''at least one classified target''))
      else if list_ex incompleteTarget targets then
        failR (ProbeFault ReasonCapabilityProbe [] (TextError ''incomplete typed identity or mechanism''))
      else wrapR ''probe weighted I/O capability''
        (requireCapabilities ended w (noRequirements\<lparr> sr_IODeviceWeights := map targetRequest targets \<rparr>)
          (\<lambda>c. sc_feature c = ''weighted I/O'')))"

section \<open>The start\<close>

definition loadedServices :: "probe_world \<Rightarrow> probe_view \<Rightarrow> string list \<Rightarrow> (transport_error, string list) res" where
  "loadedServices w v names =
     orElse id (pw_unitsByNames w v names) (\<lambda>statuses. Inr (map fst (filter (\<lambda>st. snd st = ''loaded'') statuses)))"

text \<open>FIFO and round robin are 1 and 2; a value that is no \<^verbatim>\<open>int32\<close> ends the loop with an error.\<close>

fun scheduledServices :: "probe_world \<Rightarrow> probe_view \<Rightarrow> (string \<times> string) list \<Rightarrow> (transport_error, string list) res" where
  "scheduledServices w v [] = Inr []"
| "scheduledServices w v ((name, state) # rest) =
     (if state \<noteq> ''loaded'' then scheduledServices w v rest
      else orElse id (pw_schedulingPolicy w v name) (\<lambda>policy. case policy of
          None \<Rightarrow> Inl TransportFailure
        | Some p \<Rightarrow> orElse id (scheduledServices w v rest) (\<lambda>names. Inr (if p = 1 \<or> p = 2 then name # names else names))))"

definition realtimeScheduledServices :: "probe_world \<Rightarrow> probe_view \<Rightarrow> (transport_error, string list) res" where
  "realtimeScheduledServices w v = orElse id (pw_services w v) (scheduledServices w v)"

definition protect :: "realtime_kernel_facts \<Rightarrow> string \<Rightarrow> string \<Rightarrow> probe_error" where
  "protect facts unit source =
     ProbeFault ReasonRealtimeAdmissionProtected []
       (RealtimeProtectionError \<lparr> rp_Unit = unit, rp_Source = source, rp_KernelGroupScheduling = rk_groupScheduling facts,
          rp_RootCPUDelegationState = ''absent'' \<rparr>)"

definition realtimeError :: "transport_error \<Rightarrow> probe_error" where
  "realtimeError e = OfAdapter (classifyTransportError ''realtime_admission'' [] e)"

definition firstOf :: "realtime_kernel_facts \<Rightarrow> string \<Rightarrow> string list \<Rightarrow> (probe_error, unit) res" where
  "firstOf facts source names = (case names of [] \<Rightarrow> Inr () | unit # _ \<Rightarrow> Inl (protect facts unit source))"

definition checkRealtimeAdmission :: "probe_world \<Rightarrow> probe_view \<Rightarrow> startup_requirements \<Rightarrow> (probe_error, unit) res" where
  "checkRealtimeAdmission w v requirements =
     (case sr_realtimeKernel requirements of
        None \<Rightarrow> Inr ()
      | Some facts \<Rightarrow>
          if \<not> revocationPossible facts then Inr ()
          else orElse id (if sr_RealtimeProtectedUnits requirements \<noteq> []
                 then orElse realtimeError (loadedServices w v (sr_RealtimeProtectedUnits requirements)) (firstOf facts RealtimeProtectionConfigured)
                 else Inr ()) (\<lambda>_.
               orElse realtimeError (realtimeScheduledServices w v) (firstOf facts RealtimeProtectionCPUSchedulingPolicy)))"

text \<open>Whether the interface is missing after a failed application; a failed read says nothing.\<close>

definition missingParentInterface :: "probe_world \<Rightarrow> unit_identity \<Rightarrow> startup_capability \<Rightarrow> probe_error option probe_op" where
  "missingParentInterface w identity capability =
     bindR (tryR (machineR w (\<lambda>bd. readUnit bd (ui_Name identity) (ui_ObjectPath identity)))) (\<lambda>r. case r of
       Inl _ \<Rightarrow> retR None
     | Inr snapshot \<Rightarrow> bindR (tryR (preflightR w preflight capability snapshot)) (\<lambda>p. retR (case p of Inl e \<Rightarrow> Some e | Inr _ \<Rightarrow> None)))"

definition readParent :: "probe_world \<Rightarrow> unit_identity \<Rightarrow> unit_snapshot probe_op" where
  "readParent w identity =
     wrapR ''read user.slice for the startup capability probe'' (machineR w (\<lambda>bd. readUnit bd (ui_Name identity) (ui_ObjectPath identity)))"

definition probeParentCapability :: "probe_world \<Rightarrow> unit_identity \<Rightarrow> startup_capability \<Rightarrow> unit probe_op" where
  "probeParentCapability w identity capability =
     bindR (if sc_controller capability = ''io'' then
              bindR (readParent w identity) (\<lambda>before. preflightR w preflightApplyKernel capability before)
            else retR ()) (\<lambda>_.
     bindR (tryR (machineR w (\<lambda>bd. Apply bd identity (sc_probeAssignments capability)))) (\<lambda>r. case r of
       Inl e \<Rightarrow>
         bindR (missingParentInterface w identity capability) (\<lambda>missing.
         failR (case missing of Some m \<Rightarrow> m | None \<Rightarrow> WrappedError ''apply startup capability probe'' e))
     | Inr applied \<Rightarrow>
         bindR (readParent w identity) (\<lambda>snapshot.
         bindR (preflightR w preflight capability snapshot) (\<lambda>_.
         bindR (wrapR ''confirm startup capability probe''
           (machineR w (\<lambda>bd. ConfirmApplied bd (us_Identity applied) (sc_probeAssignments capability)))) (\<lambda>_. retR ())))))"

definition restoreStartupParent :: "probe_world \<Rightarrow> unit_identity \<Rightarrow> probe_error list probe_op" where
  "restoreStartupParent w identity =
     bindR (readR (\<lambda>s. ownsUnitName parentUserSlice (ps_machine s))) (\<lambda>owned.
       if \<not> owned then retR []
       else
         bindR (tryR (machineR w (\<lambda>bd. Restore bd identity))) (\<lambda>r.
         bindR (readR (\<lambda>s. ownsUnitName parentUserSlice (ps_machine s))) (\<lambda>left.
         retR ((case r of
                  Inl e \<Rightarrow> [WrappedError ''restore user.slice after the startup capability probe'' e]
                | Inr outcome \<Rightarrow> map (WrappedError ''restore user.slice after the startup capability probe'' \<circ> OfAdapter) (errorList (ur_err outcome))) @
               (if left then [TextError ''startup capability probe left a durable property lease''] else [])))))"

definition requireStartupCapabilities :: "probe_world \<Rightarrow> startup_requirements \<Rightarrow> unit probe_op" where
  "requireStartupCapabilities w requirements =
     bindR (bindR (readR (\<lambda>s. checkRealtimeAdmission w (view s) requirements)) liftR) (\<lambda>_.
     bindR (cleanInterruptedCapabilityProbes w) (\<lambda>_.
     bindR (startupParent w) (\<lambda>parent.
     bindR (liftR (startupCapabilities requirements)) (\<lambda>capabilities.
     bindR (tryR (forR (probeParentCapability w (us_Identity parent)) capabilities)) (\<lambda>r.
     bindR (restoreStartupParent w (us_Identity parent)) (\<lambda>errors. finishWith r errors))))))"

section \<open>What the capabilities are\<close>

text \<open>The values the probes write are allowed ones.\<close>

definition scalarAssignment :: "property_name \<Rightarrow> u64 \<Rightarrow> property_assignment" where
  "scalarAssignment name v = \<lparr> pa_name = name, pa_value = scalarPropertyValue v, pa_targets = [] \<rparr>"

lemma approved_probe_values:
  "NewPropertyAssignment PropertyCPUWeight 100 = Inr (scalarAssignment PropertyCPUWeight 100)"
  "NewPropertyAssignment PropertyIOWeight 100 = Inr (scalarAssignment PropertyIOWeight 100)"
  "NewPropertyAssignment PropertyIOWeight 1000 = Inr (scalarAssignment PropertyIOWeight 1000)"
  "NewPropertyAssignment PropertyMemoryHigh (2 ^ 30) = Inr (scalarAssignment PropertyMemoryHigh (2 ^ 30))"
  "NewPropertyAssignment PropertyMemoryMax (2 ^ 30) = Inr (scalarAssignment PropertyMemoryMax (2 ^ 30))"
  "NewCPUQuotaAssignmentsFromCgroupMax 50000 100000 =
     Inr [scalarAssignment PropertyCPUQuotaPerSecUSec 500000, scalarAssignment PropertyCPUQuotaPeriodUSec 100000]"
  by code_simp+

section \<open>What probing keeps of the adapter\<close>

lemma wrapR_keeps: "keeps I oper \<Longrightarrow> keeps I (wrapR msg oper)"
  unfolding triple_def wrapR_def by (auto split: prod.splits sum.splits)

lemma machineR_keeps: "(\<And>bd. keeps I (oper bd)) \<Longrightarrow> keeps (\<lambda>s. I (ps_machine s)) (machineR w oper)"
  unfolding triple_def machineR_def by (fastforce split: prod.splits sum.splits)

lemma finishWith_keeps: "keeps I (finishWith r errors)"
  by (auto simp: finishWith_def intro!: keeps_rules split: sum.splits option.splits)

text \<open>A law of the adapter that its operations and looks keep is kept by the probes.\<close>

locale probed_adapter =
  fixes I :: "machine \<Rightarrow> bool"
  assumes applies: "keeps I (Apply bd i as)"
    and confirms: "keeps I (ConfirmApplied bd i as)"
    and restores: "keeps I (Restore bd i)"
    and reconciles: "keeps I (ReconcileOwned bd)"
    and reads: "keeps I (readUnit bd unit path)"
    and lists: "keeps I (listUserSlices bd operation)"
    and lists_parent: "keeps I (listParent bd)"
    and looks_at_files: "keeps I (mutablePaths bd operation unit)"
begin

abbreviation ofMachine :: "probe_state \<Rightarrow> bool" where
  "ofMachine s \<equiv> I (ps_machine s)"

lemmas machine_steps = machineR_keeps [OF applies] machineR_keeps [OF confirms] machineR_keeps [OF restores]
  machineR_keeps [OF reconciles] machineR_keeps [OF reads] machineR_keeps [OF lists] machineR_keeps [OF lists_parent]
  machineR_keeps [OF looks_at_files]

lemmas probe_steps = keeps_rules wrapR_keeps machine_steps finishWith_keeps

lemma start_keeps: "keeps ofMachine (startCapabilityProbe w unit as)"
  unfolding triple_def startCapabilityProbe_def Let_def callProbe_def by (auto split: option.splits)

lemma stop_keeps: "keeps ofMachine (stopCapabilityProbe w unit)"
proof -
  have "keeps ofMachine (stopOne w target)" for target
    unfolding triple_def stopOne_def Let_def callProbe_def by simp
  then show ?thesis unfolding stopCapabilityProbe_def by (intro keeps_rules)
qed

lemma reconcile_keeps: "keeps ofMachine (reconcileOwnedR w msg)"
  unfolding reconcileOwnedR_def by (intro probe_steps)

lemma clean_keeps: "keeps ofMachine (cleanInterruptedCapabilityProbes w)"
proof -
  have "keeps ofMachine (stopProbes w us)" for us
    by (induction us) (auto intro!: keeps_rules stop_keeps)
  then show ?thesis unfolding cleanInterruptedCapabilityProbes_def Let_def by (intro probe_steps reconcile_keeps)
qed

lemma parent_keeps: "keeps ofMachine (startupParent w)"
  unfolding startupParent_def by (intro probe_steps)

lemma preflight_keeps: "keeps ofMachine (preflightR w look capability snapshot)"
  unfolding preflightR_def by (intro probe_steps)

lemma transient_keeps: "keeps ofMachine (probeTransientCapability ended w capability)"
proof -
  have body: "keeps ofMachine (probeBody w capability l)" for l
    unfolding probeBody_def by (intro probe_steps preflight_keeps)
  have clean: "keeps ofMachine (cleanupProbe w unit)" for unit
    unfolding cleanupProbe_def by (intro probe_steps stop_keeps reconcile_keeps)
  show ?thesis unfolding probeTransientCapability_def probeUnit_def
    by (intro keeps_bind keeps_rules triple_case_prod body clean start_keeps finishWith_keeps)
qed

lemma ProbeIODeviceWeights_keeps: "keeps ofMachine (ProbeIODeviceWeights ended w targets)"
  unfolding ProbeIODeviceWeights_def requireCapabilities_def validateStartupParent_def
  by (intro keeps_rules wrapR_keeps clean_keeps parent_keeps transient_keeps)

lemma requireStartupCapabilities_keeps: "keeps ofMachine (requireStartupCapabilities w requirements)"
proof -
  have missing: "keeps ofMachine (missingParentInterface w i c)" for i c
    unfolding missingParentInterface_def by (intro probe_steps preflight_keeps)
  have parent: "keeps ofMachine (readParent w i)" for i
    unfolding readParent_def by (intro probe_steps)
  have probe: "keeps ofMachine (probeParentCapability w i c)" for i c
    unfolding probeParentCapability_def by (intro probe_steps missing parent preflight_keeps)
  have restore: "keeps ofMachine (restoreStartupParent w i)" for i
    unfolding restoreStartupParent_def by (intro probe_steps)
  show ?thesis unfolding requireStartupCapabilities_def
    by (intro keeps_rules clean_keeps parent_keeps probe restore finishWith_keeps)
qed

end

lemma emits_probe_lists: "emits looks (listUserSlices bd operation)" "emits looks (mutablePaths bd operation unit)"
  "emits looks (listParent bd)"
  unfolding listUserSlices_def mutablePaths_def listParent_def by (auto intro!: emits_rules)

lemmas probe_looks = emits_probe_lists [THEN look, OF looksKeep_inv]

interpretation probing_written_ahead: probed_adapter adapter_inv
  by unfold_locales
    (rule Apply_keeps ConfirmApplied_keeps Restore_keeps ReconcileOwned_keeps look [OF emits_readUnit looksKeep_inv] probe_looks)+

section \<open>The guard for realtime services\<close>

text \<open>A configuration that says the option is off, or a complete one that does not set it.\<close>

definition configDisables :: "byte_stream \<Rightarrow> bool" where
  "configDisables r \<longleftrightarrow>
     (let ls = map trimSpace (splitOn LF (fst r)) in
      ''# CONFIG_RT_GROUP_SCHED is not set'' \<in> set ls \<or>
      snd r \<and> list_ex (\<lambda>l. hasPrefix l ''CONFIG_'') ls \<and> ''CONFIG_RT_GROUP_SCHED=y'' \<notin> set ls)"

lemma scanConfiguration_disabled:
  "scanConfiguration ended saw ls = Some realtimeGroupSchedulingDisabled \<Longrightarrow>
   ''# CONFIG_RT_GROUP_SCHED is not set'' \<in> trimSpace ` set ls \<or>
   ended \<and> (saw \<or> (\<exists>l \<in> set ls. hasPrefix (trimSpace l) ''CONFIG_'')) \<and> ''CONFIG_RT_GROUP_SCHED=y'' \<notin> trimSpace ` set ls"
proof (induction ended saw ls rule: scanConfiguration.induct)
  case (2 ended saw l ls)
  have states: "realtimeGroupSchedulingEnabled \<noteq> realtimeGroupSchedulingDisabled"
    by (simp add: realtimeGroupSchedulingEnabled_def realtimeGroupSchedulingDisabled_def)
  show ?case
  proof (cases "trimSpace l = ''# CONFIG_RT_GROUP_SCHED is not set''")
    case False
    then have "trimSpace l \<noteq> ''CONFIG_RT_GROUP_SCHED=y''" "\<not> MaxScanTokenSize \<le> length l"
      "scanConfiguration ended (saw \<or> hasPrefix (trimSpace l) ''CONFIG_'') ls = Some realtimeGroupSchedulingDisabled"
      using 2(2) states by (auto simp: Let_def split: if_splits)
    then show ?thesis using 2(1) [OF _ refl _ False] by auto
  qed simp
qed (auto split: if_splits)

definition provedDisabled :: "realtime_kernel_files \<Rightarrow> bool" where
  "provedDisabled fs \<longleftrightarrow>
     (\<exists>r. configDisables r \<and> (rf_procConfig fs = Some r \<or>
        (\<exists>release. rf_release fs = Some release \<and> rf_bootConfig fs (''config-'' @ trimSpace release) = Some r)))"

lemma scanned_disabled: "scanned f = Some realtimeGroupSchedulingDisabled \<Longrightarrow> \<exists>r. f = Some r \<and> configDisables r"
  by (cases f) (auto simp: scanned_def scanRealtimeGroupScheduling_def configDisables_def list_ex_iff Let_def
      dest!: scanConfiguration_disabled)

lemma read_disabled: "readRealtimeGroupScheduling fs = realtimeGroupSchedulingDisabled \<Longrightarrow> provedDisabled fs"
  using scanned_disabled [of "rf_procConfig fs"] scanned_disabled
  by (fastforce simp: readRealtimeGroupScheduling_def provedDisabled_def realtimeGroupSchedulingUnreadable_def
      realtimeGroupSchedulingDisabled_def bind_eq_Some_conv split: option.splits)

text \<open>
  What has to be known before the cpu controller may be enabled: it is enabled already, the kernel has no
  realtime groups, realtime runtime is unlimited, or no loaded service needs realtime scheduling.
\<close>

definition admitted :: "probe_world \<Rightarrow> probe_view \<Rightarrow> string list \<Rightarrow> realtime_kernel_files \<Rightarrow> bool" where
  "admitted w v protectedUnits fs \<longleftrightarrow>
     (\<exists>controllers. rf_subtreeControl fs = Some controllers \<and> ''cpu'' \<in> set (fieldsOf controllers)) \<or>
     provedDisabled fs \<or>
     (\<exists>runtime. rf_runtimeSysctl fs = Some runtime \<and> parsesNegative (trimSpace runtime)) \<or>
     (protectedUnits = [] \<or> loadedServices w v protectedUnits = Inr []) \<and> realtimeScheduledServices w v = Inr []"

lemma revocation_excluded:
  "\<not> revocationPossible (readRealtimeKernelFacts fs) \<Longrightarrow> admitted w v us fs"
  using read_disabled [of fs]
  by (auto simp: revocationPossible_def readRealtimeKernelFacts_def admitted_def split: option.splits)

lemma admission_passes:
  "checkRealtimeAdmission w v (withRealtimeKernelFacts r fs) = Inr x \<Longrightarrow> admitted w v (sr_RealtimeProtectedUnits r) fs"
  using revocation_excluded [of fs w v "sr_RealtimeProtectedUnits r"]
  by (auto simp: checkRealtimeAdmission_def withRealtimeKernelFacts_def orElse_def firstOf_def admitted_def
      split: if_splits sum.splits list.splits)


section \<open>What is left behind\<close>

text \<open>Facts that need no state before: what an operation establishes, whatever happened.\<close>

abbreviation ensures :: "('s, 'e, 'a) op \<Rightarrow> ('a \<Rightarrow> 's \<Rightarrow> bool) \<Rightarrow> bool" where
  "ensures oper Q \<equiv> triple (\<lambda>_. True) oper Q (\<lambda>_ _. True)"

lemma ensures_any: "ensures oper (\<lambda>_ _. True)"
  by (auto simp: triple_def split: prod.splits sum.splits)

lemmas ensures_last = triple_bind [OF ensures_any]

lemma finishWith_done: "finishWith r errors s = (Inr x, s') \<Longrightarrow> errors = [] \<and> s' = s \<and> (\<exists>y. r = Inr y)"
  by (auto simp: finishWith_def joinProbeErrors_def failR_def retR_def split: sum.splits if_splits option.splits)

lemma finishWith_ensures:
  "ensures oper (\<lambda>errors s. errors = [] \<longrightarrow> Q s) \<Longrightarrow> ensures (bindR oper (finishWith r)) (\<lambda>_. Q)"
  by (rule triple_bind [where R = "\<lambda>errors s. errors = [] \<longrightarrow> Q s"])
    (auto intro!: tripleI dest: finishWith_done)

lemma restoreStartupParent_ensures:
  "ensures (restoreStartupParent w i) (\<lambda>errors s. errors = [] \<longrightarrow> \<not> ownsUnitName parentUserSlice (ps_machine s))"
proof -
  let ?Q = "\<lambda>errors s. errors = [] \<longrightarrow> \<not> ownsUnitName parentUserSlice (ps_machine s)"
  have final: "ensures (bindR (readR (\<lambda>s. ownsUnitName parentUserSlice (ps_machine s)))
      (\<lambda>left. retR (es @ (if left then [e] else [])))) ?Q" for es e
    by (auto simp: triple_def bindR_def readR_def retR_def)
  show ?thesis unfolding restoreStartupParent_def
    by (rule triple_bind [where R = "\<lambda>owned s. owned = ownsUnitName parentUserSlice (ps_machine s)"])
      (auto intro!: triple_read triple_if triple_ret triple_pre [OF ensures_last [OF final]])
qed

text \<open>
  Property C38: starting is safe for what was there. In every history of the adapter and whatever the
  world answers, proving the capabilities keeps the write-ahead discipline, and when it succeeds the
  adapter owns nothing on \<^verbatim>\<open>user.slice\<close> any more: the values written there as a trial were taken back.
\<close>

theorem startup_leaves_no_lease:
  "case requireStartupCapabilities w r \<lparr> ps_machine = fold (runCall bd) cs newMachine, ps_calls = calls \<rparr> of
     (result, s') \<Rightarrow>
       writeAhead (trace (ps_machine s')) \<and>
       (case result of Inl _ \<Rightarrow> True | Inr _ \<Rightarrow> \<not> ownsUnitName parentUserSlice (ps_machine s'))"
proof -
  let ?s = "\<lparr> ps_machine = fold (runCall bd) cs newMachine, ps_calls = calls \<rparr>"
  have "adapter_inv (ps_machine ?s)"
    using runCalls_inv [of newMachine bd cs] by (simp add: adapter_inv_def newMachine_def emptied_inv)
  then have "adapter_inv (ps_machine (snd (requireStartupCapabilities w r ?s)))"
    using keeps_run [OF probing_written_ahead.requireStartupCapabilities_keeps] by blast
  moreover have "ensures (requireStartupCapabilities w r) (\<lambda>_ s. \<not> ownsUnitName parentUserSlice (ps_machine s))"
    unfolding requireStartupCapabilities_def
    by (intro ensures_last finishWith_ensures restoreStartupParent_ensures)
  ultimately show ?thesis
    by (auto simp: adapter_inv_def rec_inv_def base_inv_def triple_def split: prod.splits sum.splits)
qed

subsection \<open>Transient units\<close>

text \<open>From the newest call on: every start that systemd took is followed by stops of the service and of the slice.\<close>

fun settled :: "string list \<Rightarrow> (nat \<times> probe_call) list \<Rightarrow> bool" where
  "settled stopped [] = True"
| "settled stopped ((_, StopUnit target) # cs) = settled (target # stopped) cs"
| "settled stopped ((_, StartProbe unit _ started) # cs) =
     ((\<not> started \<or> unit \<in> set stopped \<and> capabilityProbeServiceUnit unit \<in> set stopped) \<and> settled stopped cs)"

lemma settled_mono: "settled stopped cs \<Longrightarrow> set stopped \<subseteq> set others \<Longrightarrow> settled others cs"
proof (induction stopped cs arbitrary: others rule: settled.induct)
  case (2 stopped n target cs)
  have "settled (target # others) cs" by (rule "2.IH") (use "2.prems" in auto)
  then show ?case by simp
qed auto

text \<open>What a predicate on the calls needs before a stop, and that the adapter's work leaves it alone.\<close>

lemma calls_machineR: "keeps (\<lambda>s. P (ps_calls s)) (machineR w oper)"
  unfolding triple_def machineR_def by (auto split: prod.splits sum.splits)

lemma calls_wrapR: "triple P oper Q (\<lambda>_. E) \<Longrightarrow> triple P (wrapR msg oper) Q (\<lambda>_. E)"
  unfolding triple_def wrapR_def by (fastforce split: prod.splits sum.splits)

lemma stopOne_calls: "triple (\<lambda>s. \<forall>n. P ((n, StopUnit target) # ps_calls s)) (stopOne w target) (\<lambda>_ s. P (ps_calls s)) E"
  by (auto simp: triple_def stopOne_def Let_def callProbe_def)

lemma stopProbe_calls:
  "triple (\<lambda>s. \<forall>n n'. P ((n', StopUnit unit) # (n, StopUnit (capabilityProbeServiceUnit unit)) # ps_calls s))
     (stopCapabilityProbe w unit) (\<lambda>_ s. P (ps_calls s)) E"
  unfolding stopCapabilityProbe_def
  by (rule triple_bind [OF triple_pre [OF stopOne_calls [where P = "\<lambda>cs. \<forall>n'. P ((n', StopUnit unit) # cs)"]]])
    (auto intro!: triple_bind [OF stopOne_calls] triple_ret)

lemmas calls_steps = keeps_rules calls_wrapR calls_machineR finishWith_keeps

lemma body_calls: "keeps (\<lambda>s. P (ps_calls s)) (probeBody w c l)"
  unfolding probeBody_def preflightR_def by (intro calls_steps)

lemma reconcile_calls: "keeps (\<lambda>s. P (ps_calls s)) (reconcileOwnedR w msg)"
  unfolding reconcileOwnedR_def by (intro calls_steps)

text \<open>The calls since \<open>cs0\<close> are settled.\<close>

definition settledSince :: "(nat \<times> probe_call) list \<Rightarrow> (nat \<times> probe_call) list \<Rightarrow> bool" where
  "settledSince cs0 cs \<longleftrightarrow> (\<exists>recent. cs = recent @ cs0 \<and> settled [] recent)"

lemma settledSince_stop: "settledSince cs0 cs \<Longrightarrow> settledSince cs0 ((n, StopUnit t) # cs)"
  unfolding settledSince_def by (metis append_Cons empty_subsetI list.set(1) settled.simps(2) settled_mono)

lemma settledSince_refused: "settledSince cs0 cs \<Longrightarrow> settledSince cs0 ((n, StartProbe u as False) # cs)"
  unfolding settledSince_def by (metis append_Cons settled.simps(3))

lemma settledSince_probe:
  assumes "settledSince cs0 cs"
  shows "settledSince cs0 ((n, StopUnit u) # (n', StopUnit (capabilityProbeServiceUnit u)) # (n'', StartProbe u as started) # cs)"
proof -
  obtain recent where recent: "cs = recent @ cs0" "settled [] recent" using assms by (auto simp: settledSince_def)
  then have "settled [] ((n, StopUnit u) # (n', StopUnit (capabilityProbeServiceUnit u)) # (n'', StartProbe u as started) # recent)"
    by (auto intro: settled_mono)
  then show ?thesis unfolding settledSince_def recent(1) by (metis append_Cons)
qed

text \<open>A unit that was started and not yet stopped, on top of settled calls.\<close>

definition openProbe :: "(nat \<times> probe_call) list \<Rightarrow> string \<Rightarrow> bool \<Rightarrow> (nat \<times> probe_call) list \<Rightarrow> bool" where
  "openProbe cs0 unit started cs \<longleftrightarrow>
     (if started then \<exists>n as older. cs = (n, StartProbe unit as True) # older \<and> settledSince cs0 older else settledSince cs0 cs)"

lemma start_calls:
  "triple (\<lambda>s. settledSince cs0 (ps_calls s)) (startCapabilityProbe w unit as)
     (\<lambda>r s. openProbe cs0 unit (fst r) (ps_calls s)) E"
  by (auto simp: triple_def startCapabilityProbe_def Let_def callProbe_def openProbe_def settledSince_refused split: option.splits)

lemma cleanup_calls:
  "triple (\<lambda>s. openProbe cs0 unit True (ps_calls s)) (cleanupProbe w unit)
     (\<lambda>_ s. settledSince cs0 (ps_calls s)) (\<lambda>_ s. settledSince cs0 (ps_calls s))"
proof -
  have stop: "triple (\<lambda>s. openProbe cs0 unit True (ps_calls s)) (stopCapabilityProbe w unit)
      (\<lambda>_ s. settledSince cs0 (ps_calls s)) (\<lambda>_ s. settledSince cs0 (ps_calls s))"
    by (rule triple_pre [OF stopProbe_calls]) (auto simp: openProbe_def intro: settledSince_probe)
  show ?thesis unfolding cleanupProbe_def by (rule triple_bind [OF stop]) (intro calls_steps reconcile_calls)
qed

lemma transient_calls: "keeps (\<lambda>s. settledSince cs0 (ps_calls s)) (probeTransientCapability ended w c)"
proof -
  let ?E = "\<lambda>(_ :: probe_error) s. settledSince cs0 (ps_calls s)"
  have work: "triple (\<lambda>s. openProbe cs0 u started (ps_calls s))
      (tryR (case listed of Inl e \<Rightarrow> failR (g e) | Inr l \<Rightarrow> probeBody w c l)) (\<lambda>_ s. openProbe cs0 u started (ps_calls s)) ?E" for u started listed g
    by (rule triple_try) (auto intro!: keeps_rules body_calls)
  have clean: "triple (\<lambda>s. openProbe cs0 u started (ps_calls s)) (if started then cleanupProbe w u else retR []) (\<lambda>_ s. settledSince cs0 (ps_calls s)) ?E" for u started
    using cleanup_calls [of cs0 u w] by (cases started) (auto intro!: triple_ret simp: openProbe_def [of _ _ False])
  have "keeps (\<lambda>s. settledSince cs0 (ps_calls s)) (probeUnit ended w c u)" for u
    unfolding probeUnit_def
    by (rule triple_bind [OF start_calls], rule triple_case_prod, simp only: fst_conv,
        rule triple_bind [OF work], rule triple_bind [OF clean], rule finishWith_keeps)
  then show ?thesis unfolding probeTransientCapability_def by (intro keeps_rules)
qed

lemma cleanup_ensures: "ensures (cleanupProbe w unit) (\<lambda>errors s. errors = [] \<longrightarrow> \<not> ownsUnitName unit (ps_machine s))"
  unfolding cleanupProbe_def
  by (rule ensures_last, rule ensures_last, rule ensures_last, rule ensures_last) (auto simp: triple_def bindR_def readR_def retR_def)

lemma cleanup_recorded: "keeps (\<lambda>s. c \<in> set (ps_calls s)) (cleanupProbe w unit)"
proof -
  have "keeps (\<lambda>s. c \<in> set (ps_calls s)) (stopCapabilityProbe w unit)"
    by (rule triple_pre [OF stopProbe_calls [where P = "\<lambda>cs. c \<in> set cs"]]) simp
  then show ?thesis unfolding cleanupProbe_def
    by (intro keeps_bind calls_steps calls_machineR [where P = "\<lambda>cs. c \<in> set cs"] reconcile_calls [where P = "\<lambda>cs. c \<in> set cs"])
qed

text \<open>A probe that succeeds has started its unit, and the adapter owns nothing of it at the end.\<close>

lemma probeUnit_success:
  assumes "probeUnit ended w c u s = (Inr x, s')"
  shows "\<exists>n as. (n, StartProbe u as True) \<in> set (ps_calls s') \<and> \<not> ownsUnitName u (ps_machine s')"
proof -
  obtain started listed s1 where
    start: "startCapabilityProbe w u (sc_initialAssignments c) s = (Inr (started, listed), s1)" and
    after: "bindR (tryR (case listed of Inl e \<Rightarrow> failR (capabilityProbeStartError ended e) | Inr l \<Rightarrow> probeBody w c l)) (\<lambda>r.
       bindR (if started then cleanupProbe w u else retR []) (finishWith r)) s1 = (Inr x, s')"
    using assms unfolding probeUnit_def bindR_Inr [of "startCapabilityProbe _ _ _"] by auto
  then obtain r s2 errors s3 where
    work: "tryR (case listed of Inl e \<Rightarrow> failR (capabilityProbeStartError ended e) | Inr l \<Rightarrow> probeBody w c l) s1 = (Inr r :: probe_error + _, s2)" and
    clean: "(if started then cleanupProbe w u else retR []) s2 = (Inr errors, s3)" and
    finish: "finishWith r errors s3 = (Inr x, s')"
    unfolding bindR_Inr by blast
  obtain y where finished: "errors = []" "s' = s3" "r = Inr y" using finishWith_done [OF finish] by blast
  then obtain l where l: "listed = Inr l" "probeBody w c l s1 = (Inr y, s2)"
    using work by (cases listed) (auto simp: tryR_def failR_def split: prod.splits)
  have up: "started" "\<exists>n as. (n, StartProbe u as True) \<in> set (ps_calls s1)"
    using start l(1) by (force simp: startCapabilityProbe_def Let_def callProbe_def split: option.splits)+
  then obtain n as where "(n, StartProbe u as True) \<in> set (ps_calls s2)"
    using triple_value [OF body_calls [where P = "\<lambda>cs. cs = ps_calls s1"] refl l(2)] by auto
  then have "(n, StartProbe u as True) \<in> set (ps_calls s')"
    using clean up(1) finished triple_value [OF cleanup_recorded] by auto
  moreover have "\<not> ownsUnitName u (ps_machine s')"
    using triple_value [OF cleanup_ensures TrueI] clean up(1) finished by auto
  ultimately show ?thesis by blast
qed

lemma transient_success:
  assumes "probeTransientCapability ended w c s = (Inr x, s')"
  shows "\<exists>n u as. (n, StartProbe u as True) \<in> set (ps_calls s') \<and> \<not> ownsUnitName u (ps_machine s')"
  using assms probeUnit_success [of ended w c]
  by (auto simp: probeTransientCapability_def bindR_Inr readR_def failR_def split: option.splits) metis

text \<open>Only the last capability is asked of the weighted I/O probe.\<close>

lemma weighted_capability:
  assumes "startupCapabilities (noRequirements\<lparr> sr_IODeviceWeights := requests \<rparr>) = Inr cs" "requests \<noteq> []"
  shows "\<exists>c. filter (\<lambda>c. sc_feature c = ''weighted I/O'') cs = [c]"
  using assms
  by (auto simp: startupCapabilities_def noRequirements_def approved_probe_values orElse_def weightCapability_def cpuCapability_def
      split: sum.splits)

lemma clean_calls: "settledSince cs0 cs0" "keeps (\<lambda>s. settledSince cs0 (ps_calls s)) (cleanInterruptedCapabilityProbes w)"
proof -
  show "settledSince cs0 cs0" by (simp add: settledSince_def)
  have "keeps (\<lambda>s. settledSince cs0 (ps_calls s)) (stopCapabilityProbe w unit)" for unit
    by (rule triple_pre [OF stopProbe_calls]) (auto intro: settledSince_stop)
  then have "keeps (\<lambda>s. settledSince cs0 (ps_calls s)) (stopProbes w us)" for us
    by (induction us) (auto intro!: keeps_rules)
  then show "keeps (\<lambda>s. settledSince cs0 (ps_calls s)) (cleanInterruptedCapabilityProbes w)"
    unfolding cleanInterruptedCapabilityProbes_def Let_def by (intro calls_steps reconcile_calls)
qed

lemma probe_calls: "keeps (\<lambda>s. settledSince cs0 (ps_calls s)) (ProbeIODeviceWeights ended w targets)"
  unfolding ProbeIODeviceWeights_def requireCapabilities_def validateStartupParent_def startupParent_def
  by (intro calls_steps clean_calls transient_calls)

lemma probe_success:
  assumes "ProbeIODeviceWeights ended w targets s = (Inr x, s')"
  shows "\<exists>n u as. (n, StartProbe u as True) \<in> set (ps_calls s') \<and> \<not> ownsUnitName u (ps_machine s')"
proof -
  let ?r = "noRequirements\<lparr> sr_IODeviceWeights := map targetRequest targets \<rparr>"
  have "targets \<noteq> []" and run: "requireCapabilities ended w ?r (\<lambda>c. sc_feature c = ''weighted I/O'') s = (Inr x, s')"
    using assms by (auto simp: ProbeIODeviceWeights_def wrapR_def failR_def split: if_splits prod.splits sum.splits)
  obtain cs s2 where cs: "startupCapabilities ?r = Inr cs"
    and probes: "forR (probeTransientCapability ended w) (filter (\<lambda>c. sc_feature c = ''weighted I/O'') cs) s2 = (Inr x, s')"
    using run by (auto simp: requireCapabilities_def bindR_Inr liftR_def)
  obtain c where "filter (\<lambda>c. sc_feature c = ''weighted I/O'') cs = [c]"
    using weighted_capability [OF cs] \<open>targets \<noteq> []\<close> by auto
  then have "probeTransientCapability ended w c s2 = (Inr (), s')"
    using probes by (auto simp: bindR_Inr retR_def)
  then show ?thesis by (rule transient_success)
qed


section \<open>Missing capabilities\<close>

text \<open>Every capability names its interface completely, so that no refusal is dropped.\<close>

definition describedCapability :: "startup_capability \<Rightarrow> missing_capability" where
  "describedCapability c =
     \<lparr> mc_Feature = sc_feature c, mc_Controller = sc_controller c, mc_InterfaceName = sc_interfaceName c,
       mc_Property = pa_name (hd (sc_requiredAssignments c)) \<rparr>"

lemma requested_property:
  "NewPropertyAssignment name v = Inr a \<Longrightarrow> pa_name a = name" "NewIODeviceWeightAssignment rs = Inr a \<Longrightarrow> pa_name a = PropertyIODeviceWeight"
  by (auto simp: NewPropertyAssignment_def NewIODeviceWeightAssignment_def Let_def split: if_splits)

lemma probed_names: "PropertyCPUQuotaPerSecUSec \<noteq> []" "PropertyMemoryHigh \<noteq> []" "PropertyMemoryMax \<noteq> []" "PropertyIOWeight \<noteq> []"
  "PropertyIODeviceWeight \<noteq> []"
  by (simp_all add: property_names)

lemma described_parts:
  "memoryCapabilities a = Inr cs \<Longrightarrow> list_all (Complete \<circ> describedCapability) cs"
  "ioCapability a = Inr cs \<Longrightarrow> list_all (Complete \<circ> describedCapability) cs"
  "weightCapability a rs = Inr cs \<Longrightarrow> list_all (Complete \<circ> describedCapability) cs"
  by (auto simp: memoryCapabilities_def memoryCapability_def ioCapability_def weightCapability_def orElse_def Let_def
      describedCapability_def Complete_def probed_names dest!: requested_property split: sum.splits)

lemma capabilities_complete: "startupCapabilities r = Inr cs \<Longrightarrow> c \<in> set cs \<Longrightarrow> Complete (describedCapability c)"
proof -
  have "Complete (describedCapability (cpuCapability a [scalarAssignment PropertyCPUQuotaPerSecUSec v, b]))" for a b v
    by (simp add: cpuCapability_def describedCapability_def Complete_def scalarAssignment_def probed_names)
  then show "startupCapabilities r = Inr cs \<Longrightarrow> c \<in> set cs \<Longrightarrow> Complete (describedCapability c)"
    using described_parts [THEN list_all_iff [THEN iffD1]]
    by (auto simp: startupCapabilities_def approved_probe_values(6) orElse_def split: sum.splits if_splits)
qed

lemma refused_described: "refusalOf (refused c) = Some (describedCapability c)"
  by (simp add: refused_def requiredCapabilityError_def describedCapability_def)

text \<open>A look at the kernel's files that found a required interface missing.\<close>

definition kernelRefused :: "probe_world \<Rightarrow> startup_capability list \<Rightarrow> missing_capability \<Rightarrow> bool" where
  "kernelRefused w cs d \<longleftrightarrow>
     (\<exists>c v snapshot. c \<in> set cs \<and> d = describedCapability c \<and>
        (\<not> preflight (pw_verifier w) (pw_files w v) snapshot (sc_requiredAssignments c) \<or>
         \<not> preflightApplyKernel (pw_verifier w) (pw_files w v) snapshot (sc_requiredAssignments c)))"

text \<open>Every refusal an error carries is one of the kernel; the errors a cleanup collects carry none.\<close>

definition justified :: "probe_world \<Rightarrow> startup_capability list \<Rightarrow> probe_error \<Rightarrow> bool" where
  "justified w cs e \<longleftrightarrow> (case refusalOf e of None \<Rightarrow> True | Some d \<Rightarrow> kernelRefused w cs d)"

definition noRefusals :: "probe_error list \<Rightarrow> bool" where
  "noRefusals es \<longleftrightarrow> list_all (\<lambda>e. refusalOf e = None) es"

abbreviation fails :: "(probe_error \<Rightarrow> bool) \<Rightarrow> 'a probe_op \<Rightarrow> bool" where
  "fails E oper \<equiv> triple (\<lambda>_. True) oper (\<lambda>_ _. True) (\<lambda>e _. E e)"

lemma fails_bind: "fails E m \<Longrightarrow> (\<And>x. fails E (f x)) \<Longrightarrow> fails E (bindR m f)"
  by (rule triple_bind)

lemma fails_simple: "fails E (retR x)" "fails E (readR f)" "fails E (tryR m)" "E e \<Longrightarrow> fails E (failR e)"
  "E e \<Longrightarrow> fails E (checkR b e)"
  by (auto simp: triple_def op_defs split: prod.splits)

lemma fails_for: "(\<And>x. x \<in> set xs \<Longrightarrow> fails E (f x)) \<Longrightarrow> fails E (forR f xs)"
  by (rule triple_for) simp

lemma fails_machine: "fails (justified w cs) (machineR w' oper)" "fails (justified w cs) (wrapR msg (machineR w' oper))"
  by (auto simp: triple_def machineR_def wrapR_def justified_def split: prod.splits sum.splits)

lemma noRefusals_simps [simp]: "noRefusals []" "noRefusals (e # es) \<longleftrightarrow> refusalOf e = None \<and> noRefusals es"
  "noRefusals (es @ es') \<longleftrightarrow> noRefusals es \<and> noRefusals es'" "noRefusals (map (WrappedError msg) es) \<longleftrightarrow> noRefusals es"
  by (simp_all add: noRefusals_def list.pred_map comp_def)

lemma firstSome_None: "list_all (\<lambda>x. x = None) xs \<Longrightarrow> firstSome xs = None"
  by (induction xs) auto

lemma refusalOf_joined: "noRefusals es \<Longrightarrow> refusalOf (JoinedErrors es) = None"
  by (simp add: noRefusals_def firstSome_None list.pred_map comp_def)

lemma justified_plain: "refusalOf e = None \<Longrightarrow> justified w cs e" "justified w cs (WrappedError msg e) = justified w cs e"
  "noRefusals es \<Longrightarrow> justified w cs (JoinedErrors (e # es)) = justified w cs e"
  by (auto simp: justified_def firstSome_None noRefusals_def list.pred_map comp_def split: option.splits)

lemma fails_finish: "(\<And>e. r = Inl e \<Longrightarrow> justified w cs e) \<Longrightarrow> noRefusals errors \<Longrightarrow> fails (justified w cs) (finishWith r errors)"
  by (auto simp: finishWith_def joinProbeErrors_def justified_plain refusalOf_joined simp del: refusalOf.simps intro!: fails_simple split: sum.splits)

lemma fails_value:
  assumes "triple (\<lambda>_. True) m (\<lambda>x _. R x) (\<lambda>e _. E e)" "\<And>x. R x \<Longrightarrow> triple (\<lambda>_. True) (f x) Q (\<lambda>e _. E e)"
  shows "triple (\<lambda>_. True) (bindR m f) Q (\<lambda>e _. E e)"
  using assms unfolding triple_def bindR_def by (fastforce split: prod.splits sum.splits)

text \<open>What the collecting steps return, and that they do not fail themselves.\<close>

abbreviation collects :: "('a \<Rightarrow> bool) \<Rightarrow> 'a probe_op \<Rightarrow> bool" where
  "collects R oper \<equiv> triple (\<lambda>_. True) oper (\<lambda>x _. R x) (\<lambda>_ _. False)"

lemma collects_simple: "R x \<Longrightarrow> collects R (retR x)" "(\<And>s. R' (f s)) \<Longrightarrow> collects R' (readR f)"
  by (auto simp: triple_def op_defs split: prod.splits)

lemma collects_fails: "collects R oper \<Longrightarrow> triple (\<lambda>_. True) oper (\<lambda>x _. R x) (\<lambda>e _. E e)"
  by (erule triple_weaken) auto

lemma stop_collects: "collects (\<lambda>e. noRefusals (errorList e)) (stopCapabilityProbe w unit)"
proof -
  have one: "collects (\<lambda>e. noRefusals (errorList e)) (stopOne w target)" for target
    by (auto simp: triple_def stopOne_def Let_def errorList_def split: option.splits)
  show ?thesis unfolding stopCapabilityProbe_def
    by (rule fails_value [OF one], rule fails_value [OF one], rule collects_simple)
      (auto simp: joinProbeErrors_def refusalOf_joined errorList_def simp del: refusalOf.simps split: option.splits)
qed

lemma reconcile_collects: "collects noRefusals (reconcileOwnedR w msg)"
proof -
  have "collects (\<lambda>r. \<forall>e. r = Inl e \<longrightarrow> refusalOf e = None) (tryR (machineR w ReconcileOwned))"
    by (auto simp: triple_def tryR_def machineR_def split: prod.splits sum.splits)
  then show ?thesis unfolding reconcileOwnedR_def
    by (rule fails_value) (rule collects_simple, auto split: sum.splits)
qed

lemma stops_collect: "collects noRefusals (stopProbes w us)"
proof (induction us)
  case (Cons u us)
  show ?case unfolding stopProbes.simps
    by (rule fails_value [OF stop_collects], rule fails_value [OF Cons.IH], rule collects_simple) simp
qed (simp add: collects_simple)

lemma clean_fails: "fails (justified w cs) (cleanInterruptedCapabilityProbes w')"
proof -
  have end_of: "fails (justified w cs) (case joinProbeErrors (es @ es') of None \<Rightarrow> retR () | Some e \<Rightarrow> failR (ProbeFault ReasonCapabilityProbe [] e))"
    if "noRefusals es" "noRefusals es'" for es es'
    using that by (auto simp: joinProbeErrors_def justified_def refusalOf_joined simp del: refusalOf.simps(4) intro!: fails_simple)
  have reconcile: "collects noRefusals (if b then reconcileOwnedR w' msg else retR [])" for b msg
    by (auto intro: reconcile_collects collects_simple)
  show ?thesis unfolding cleanInterruptedCapabilityProbes_def Let_def
    by (rule fails_bind [OF fails_machine(1)], rule fails_value [OF collects_fails [OF stops_collect]],
        rule fails_value [OF collects_fails [OF reconcile]], rule end_of)
qed

lemma kernelRefusedI:
  assumes "c \<in> set cs" "\<not> preflight (pw_verifier w) (pw_files w v) snapshot (sc_requiredAssignments c) \<or>
     \<not> preflightApplyKernel (pw_verifier w) (pw_files w v) snapshot (sc_requiredAssignments c)"
  shows "kernelRefused w cs (describedCapability c)"
  unfolding kernelRefused_def using assms by blast

lemma fails_preflight:
  "c \<in> set cs \<Longrightarrow> fails (justified w cs) (preflightR w preflight c snapshot)"
  "c \<in> set cs \<Longrightarrow> fails (justified w cs) (preflightR w preflightApplyKernel c snapshot)"
  by (auto simp: triple_def preflightR_def op_defs justified_def refused_described intro: kernelRefusedI)

lemma fails_missing:
  assumes "c \<in> set cs"
  shows "collects (\<lambda>e. case e of Some m \<Rightarrow> justified w cs m | None \<Rightarrow> True) (missingParentInterface w i c)"
proof -
  have "collects (\<lambda>p. \<forall>e. p = Inl e \<longrightarrow> justified w cs e) (tryR (preflightR w preflight c snapshot))" for snapshot
    using fails_preflight(1) [OF assms, of w snapshot] by (auto simp: triple_def tryR_def split: prod.splits sum.splits)
  note look = fails_value [OF this, OF collects_simple(1)]
  have read: "collects (\<lambda>_. True) (tryR m)" for m :: "unit_snapshot probe_op"
    by (auto simp: triple_def tryR_def split: prod.splits)
  show ?thesis unfolding missingParentInterface_def
    by (rule fails_value [OF read]) (auto intro!: look collects_simple split: sum.splits)
qed

lemma fails_probe:
  assumes "c \<in> set cs"
  shows "fails (justified w cs) (probeParentCapability w i c)"
proof -
  have parent: "fails (justified w cs) (readParent w i)" unfolding readParent_def by (rule fails_machine)
  have before: "fails (justified w cs) (if b then bindR (readParent w i) (preflightR w preflightApplyKernel c) else retR ())" for b
    by (auto intro!: fails_bind parent fails_preflight assms fails_simple)
  have tried: "collects (\<lambda>r. \<forall>e. r = Inl e \<longrightarrow> refusalOf e = None) (tryR (machineR w oper))" for oper :: "boundary \<Rightarrow> unit_snapshot adapter_op"
    by (auto simp: triple_def tryR_def machineR_def split: prod.splits sum.splits)
  have missing: "fails (justified w cs) (bindR (missingParentInterface w i c) (\<lambda>missing.
      failR (case missing of Some m \<Rightarrow> m | None \<Rightarrow> WrappedError msg e)))" if "refusalOf e = None" for msg e
    by (rule fails_value [OF collects_fails [OF fails_missing [OF assms]]])
      (auto intro!: fails_simple simp: justified_plain that split: option.splits)
  show ?thesis unfolding probeParentCapability_def
    by (rule fails_bind [OF before], rule fails_value [OF collects_fails [OF tried]], split sum.split, intro conjI allI impI)
      (auto intro!: missing fails_bind parent fails_preflight fails_machine assms fails_simple)
qed

lemma restore_collects: "collects noRefusals (restoreStartupParent w i)"
proof -
  have tried: "collects (\<lambda>r. \<forall>e. r = Inl e \<longrightarrow> refusalOf e = None) (tryR (machineR w oper))" for oper :: "boundary \<Rightarrow> unit_restore adapter_op"
    by (auto simp: triple_def tryR_def machineR_def split: prod.splits sum.splits)
  have any: "collects (\<lambda>_. True) (readR f)" for f :: "probe_state \<Rightarrow> bool" by (simp add: collects_simple)
  show ?thesis unfolding restoreStartupParent_def
    by (rule fails_value [OF any], rule triple_if, rule collects_simple, simp, rule fails_value [OF tried], rule fails_value [OF any], rule collects_simple)
      (auto simp: errorList_def split: sum.splits option.splits)
qed

lemma admission_no_refusal: "checkRealtimeAdmission w v r = Inl e \<Longrightarrow> refusalOf e = None"
  by (auto simp: checkRealtimeAdmission_def orElse_def firstOf_def protect_def realtimeError_def
      split: option.splits if_splits sum.splits list.splits)

lemma startup_fails:
  assumes "startupCapabilities r = Inr cs"
  shows "fails (justified w cs) (requireStartupCapabilities w r)"
proof -
  have guard: "fails (justified w cs) (bindR (readR (\<lambda>s. checkRealtimeAdmission w (view s) r)) liftR)"
    by (auto simp: triple_def bindR_def readR_def liftR_def justified_plain dest: admission_no_refusal split: sum.splits)
  have parent: "fails (justified w cs) (startupParent w)"
    unfolding startupParent_def by (intro fails_bind fails_machine)
  have capabilities: "triple (\<lambda>_. True) (liftR (startupCapabilities r)) (\<lambda>x _. x = cs) (\<lambda>e _. justified w cs e)"
    using assms by (simp add: triple_def liftR_def)
  have probes: "collects (\<lambda>r. \<forall>e. r = Inl e \<longrightarrow> justified w cs e) (tryR (forR (probeParentCapability w i) cs))" for i
  proof -
    have "fails (justified w cs) (forR (probeParentCapability w i) cs)" by (intro fails_for fails_probe)
    then show ?thesis by (auto simp: triple_def tryR_def split: prod.splits sum.splits)
  qed
  show ?thesis unfolding requireStartupCapabilities_def
    by (rule fails_bind [OF guard], rule fails_bind [OF clean_fails], rule fails_bind [OF parent], rule fails_value [OF capabilities],
        simp only:, rule fails_value [OF collects_fails [OF probes]], rule fails_value [OF collects_fails [OF restore_collects]])
      (auto intro: fails_finish)
qed

lemma memoryCapabilities_Inr: "\<exists>cs. memoryCapabilities a = Inr cs" and ioCapability_Inr: "\<exists>cs. ioCapability a = Inr cs"
  by (simp_all add: memoryCapabilities_def memoryCapability_def ioCapability_def orElse_def Let_def
      approved_probe_values approved_probe_values(4,5) [simplified])


end
