(* ===== verification/Transition_System.thy ===== *)
theory Transition_System
  imports Main
begin

text \<open>
  Step relations and their invariants, once for every component that is a state machine: a
  component interprets \<open>invariant_system\<close> on its own initial states, steps and invariant and gets
  that the invariant holds in every reachable state.
\<close>

definition reachable :: "('s \<Rightarrow> bool) \<Rightarrow> ('s \<Rightarrow> 's \<Rightarrow> bool) \<Rightarrow> 's \<Rightarrow> bool" where
  "reachable start step s \<longleftrightarrow> (\<exists>s0. start s0 \<and> step\<^sup>*\<^sup>* s0 s)"

lemma reachable_start: "start s \<Longrightarrow> reachable start step s"
  unfolding reachable_def by blast

lemma reachable_step: "reachable start step s \<Longrightarrow> step s s' \<Longrightarrow> reachable start step s'"
  unfolding reachable_def by (meson rtranclp.rtrancl_into_rtrancl)

locale invariant_system =
  fixes start :: "'s \<Rightarrow> bool" and step :: "'s \<Rightarrow> 's \<Rightarrow> bool" and inv :: "'s \<Rightarrow> bool"
  assumes start_inv: "start s \<Longrightarrow> inv s"
    and step_inv: "inv s \<Longrightarrow> step s s' \<Longrightarrow> inv s'"
begin

lemma steps_inv: "step\<^sup>*\<^sup>* s s' \<Longrightarrow> inv s \<Longrightarrow> inv s'"
  by (induction rule: rtranclp_induct) (auto intro: step_inv)

lemma reachable_inv: "reachable start step s \<Longrightarrow> inv s"
  unfolding reachable_def using start_inv steps_inv by blast

end

text \<open>A system that can only be blocked by waiting for an actor that can move.\<close>

locale progress_system = invariant_system +
  fixes waiting :: "'s \<Rightarrow> bool"
  assumes can_move: "inv s \<Longrightarrow> waiting s \<Longrightarrow> \<exists>s'. step s s' \<and> s' \<noteq> s"
begin

lemma reachable_not_stuck: "reachable start step s \<Longrightarrow> waiting s \<Longrightarrow> \<exists>s'. step s s' \<and> s' \<noteq> s"
  using can_move reachable_inv by blast

end

end
