(* ===== verification/Hook_Executor.thy ===== *)
theory Hook_Executor
  imports Control_Cycle Transition_System
begin

text \<open>
  The bounded executor of the limit hooks (\<^verbatim>\<open>src/state/limit_hook_executor.go\<close> and the dispatch of
  \<^verbatim>\<open>src/state/limit_hook.go\<close>): jobs go into a channel of fixed capacity, a fixed number of workers takes them
  out, and a shutdown closes the channel, cancels what runs and waits for the workers. The executor is a
  step relation over any number of callers; what a method does under \<^verbatim>\<open>hookMu\<close> is one step, and so is every
  receive from the channel and every return of a delivery, whose error comes from the outside.
\<close>

section \<open>Errors and outcomes\<close>

datatype hook_error =
    DeadlineExceeded
  | ContextCanceled
  | HookSaturated
  | ExitStatus int
  | HookFailure string
  | HookWrapped string "hook_error option"

text \<open>\<^verbatim>\<open>errors.Is\<close> for the sentinels: the error or one it wraps.\<close>

fun errorIs :: "hook_error \<Rightarrow> hook_error \<Rightarrow> bool" where
  "errorIs (HookWrapped msg inner) target \<longleftrightarrow>
     HookWrapped msg inner = target \<or> (case inner of None \<Rightarrow> False | Some e \<Rightarrow> errorIs e target)"
| "errorIs e target \<longleftrightarrow> e = target"

datatype hook_outcome =
    LimitHookOutcomeSuccess | LimitHookOutcomeFailure | LimitHookOutcomeTimeout | LimitHookOutcomeCancelled | LimitHookOutcomeSaturated

definition limitHookOutcome :: "hook_error option \<Rightarrow> hook_outcome" where
  "limitHookOutcome err =
     (case err of
        None \<Rightarrow> LimitHookOutcomeSuccess
      | Some e \<Rightarrow>
          if errorIs e DeadlineExceeded then LimitHookOutcomeTimeout
          else if errorIs e ContextCanceled then LimitHookOutcomeCancelled
          else if errorIs e HookSaturated then LimitHookOutcomeSaturated
          else LimitHookOutcomeFailure)"

section \<open>Events and jobs\<close>

datatype hook_type = LimitHookTypeScript | LimitHookTypeHTTP

record limit_hook_event =
  he_UID :: int
  he_Username :: string
  he_EnforceableCPUUsagePercent :: f64
  he_CPUEligibleUsersCount :: int
  he_Timestamp :: gotime
  he_ServerRole :: string
  he_LimitHookSource :: string
  he_CPUPointsConfiguredClass :: string
  he_CPUPointsConfiguredGuarantee :: "u64 option"
  he_CPUPointsLifecycleState :: string
  he_CPUPointsAppliedClass :: "string option"
  he_CPUPointsAppliedWeight :: "u64 option"
  he_CPUPointsAppliedToProcesses :: bool
  he_CPUPointsCompleteUIDGuaranteed :: bool
  he_CPUPointsReconciliationDegraded :: bool
  he_CPUPointsProcessCoverage :: string
  he_RAMCgroupMemoryCurrentBytes :: "u64 option"
  he_RAMCoverage :: "string option"
  he_RAMCoverageIncompleteProcessCount :: int
  he_RAMSwapDisabled :: "bool option"
  he_MemoryHighLimit :: "string option"
  he_MemoryMaxLimit :: "string option"
  he_MemorySwapMax :: "string option"
  he_MemoryHighEventsDelta :: "u64 option"
  he_MemoryMaxEventsDelta :: "u64 option"
  he_MemoryOOMEventsDelta :: "u64 option"
  he_MemoryOOMKillEventsDelta :: "u64 option"

record script_identity =
  si_Username :: string
  si_Group :: string
  si_UID :: u32
  si_GID :: u32

record hook_script_invocation =
  sc_path :: string
  sc_identity :: script_identity
  sc_dropPrivileges :: bool

text \<open>The script of a job that posts, and the endpoint of one that runs a script, are zero values.\<close>

definition noScript :: hook_script_invocation where
  "noScript = \<lparr> sc_path = [], sc_identity = \<lparr> si_Username = [], si_Group = [], si_UID = 0, si_GID = 0 \<rparr>, sc_dropPrivileges = False \<rparr>"

record limit_hook_job =
  hj_hookType :: hook_type
  hj_script :: hook_script_invocation
  hj_endpoint :: string
  hj_timeout :: int
  hj_event :: limit_hook_event

record hook_config =
  hc_LimitHookEnabled :: bool
  hc_LimitHookScript :: string
  hc_LimitHookURL :: string
  hc_LimitHookTimeout :: int
  hc_ServerRole :: string

definition limitHookJobs :: "hook_config \<Rightarrow> script_identity \<Rightarrow> limit_hook_event \<Rightarrow> limit_hook_job list" where
  "limitHookJobs cfg identity event =
     (let timeout = seconds (hc_LimitHookTimeout cfg) in
      (if hc_LimitHookScript cfg \<noteq> []
       then [\<lparr> hj_hookType = LimitHookTypeScript,
              hj_script = \<lparr> sc_path = hc_LimitHookScript cfg, sc_identity = identity, sc_dropPrivileges = True \<rparr>,
              hj_endpoint = [], hj_timeout = timeout, hj_event = event \<rparr>] else []) @
      (if hc_LimitHookURL cfg \<noteq> []
       then [\<lparr> hj_hookType = LimitHookTypeHTTP, hj_script = noScript, hj_endpoint = hc_LimitHookURL cfg,
              hj_timeout = timeout, hj_event = event \<rparr>] else []))"

section \<open>The executor\<close>

datatype hook_worker = WorkerIdle | WorkerRunning limit_hook_job | WorkerDone

text \<open>A call of \<^verbatim>\<open>stopLimitHooks\<close>: the first one still has to cancel, every one waits for the workers.\<close>

datatype stop_call = StopCancelling | StopWaiting | StopReturned

text \<open>
  \<open>hookResults\<close> are the calls of \<^verbatim>\<open>recordLimitHookResult\<close> and \<open>hookSubmitted\<close> those of \<^verbatim>\<open>enqueueLimitHookJob\<close>, oldest
  first; the wait group counts the workers that are not done, and \<^verbatim>\<open>hookInFlight\<close> those that run.
\<close>

record hook_executor =
  hookQueue :: "limit_hook_job list"
  hookClosed :: bool
  hookCancelled :: bool
  hookWorkersStarted :: bool
  hookWorkers :: "hook_worker list"
  hookResults :: "(limit_hook_job \<times> hook_error option) list"
  hookSubmitted :: "limit_hook_job list"
  hookStops :: "stop_call list"

record hook_limits =
  hl_capacity :: nat
  hl_workerCount :: nat

fun runningJob :: "hook_worker \<Rightarrow> limit_hook_job list" where
  "runningJob (WorkerRunning job) = [job]"
| "runningJob _ = []"

definition runningJobs :: "hook_executor \<Rightarrow> limit_hook_job list" where
  "runningJobs x = concat (map runningJob (hookWorkers x))"

definition hookInFlight :: "hook_executor \<Rightarrow> nat" where
  "hookInFlight x = length (runningJobs x)"

definition recordHookResult :: "limit_hook_job \<Rightarrow> hook_error option \<Rightarrow> hook_executor \<Rightarrow> hook_executor" where
  "recordHookResult job err x = x\<lparr> hookResults := hookResults x @ [(job, err)] \<rparr>"

definition startLimitHookWorkersLocked :: "hook_limits \<Rightarrow> hook_executor \<Rightarrow> hook_executor" where
  "startLimitHookWorkersLocked lims x =
     x\<lparr> hookWorkersStarted := True, hookWorkers := hookWorkers x @ replicate (hl_workerCount lims) WorkerIdle \<rparr>"

definition enqueueLimitHookJob :: "hook_limits \<Rightarrow> limit_hook_job \<Rightarrow> hook_executor \<Rightarrow> hook_executor" where
  "enqueueLimitHookJob lims job x0 =
     (let x = x0\<lparr> hookSubmitted := hookSubmitted x0 @ [job] \<rparr> in
      if hookClosed x then recordHookResult job (Some ContextCanceled) x
      else
        let x1 = (if \<not> hookWorkersStarted x then startLimitHookWorkersLocked lims x else x) in
        if length (hookQueue x1) < hl_capacity lims then x1\<lparr> hookQueue := hookQueue x1 @ [job] \<rparr>
        else recordHookResult job (Some HookSaturated) x1)"

definition dispatchLimitHookJobs :: "hook_limits \<Rightarrow> hook_config \<Rightarrow> script_identity \<Rightarrow> limit_hook_event \<Rightarrow> hook_executor \<Rightarrow> hook_executor" where
  "dispatchLimitHookJobs lims cfg identity event x = fold (enqueueLimitHookJob lims) (limitHookJobs cfg identity event) x"

text \<open>The loop of a worker: receive, run to the end, or leave when the channel is closed and empty.\<close>

definition receiveHookJob :: "nat \<Rightarrow> hook_executor \<Rightarrow> hook_executor option" where
  "receiveHookJob i x =
     (if i < length (hookWorkers x) \<and> hookWorkers x ! i = WorkerIdle then
        (case hookQueue x of
           [] \<Rightarrow> None
         | job # jobs \<Rightarrow> Some (x\<lparr> hookQueue := jobs, hookWorkers := (hookWorkers x)[i := WorkerRunning job] \<rparr>))
      else None)"

definition runLimitHookJob :: "nat \<Rightarrow> hook_error option \<Rightarrow> hook_executor \<Rightarrow> hook_executor option" where
  "runLimitHookJob i err x =
     (if i < length (hookWorkers x) then
        (case hookWorkers x ! i of
           WorkerRunning job \<Rightarrow> Some (recordHookResult job err (x\<lparr> hookWorkers := (hookWorkers x)[i := WorkerIdle] \<rparr>))
         | _ \<Rightarrow> None)
      else None)"

definition leaveHookWorker :: "nat \<Rightarrow> hook_executor \<Rightarrow> hook_executor option" where
  "leaveHookWorker i x =
     (if i < length (hookWorkers x) \<and> hookWorkers x ! i = WorkerIdle \<and> hookClosed x \<and> hookQueue x = []
      then Some (x\<lparr> hookWorkers := (hookWorkers x)[i := WorkerDone] \<rparr>) else None)"

text \<open>The phases of \<^verbatim>\<open>stopLimitHooks\<close>: close under the mutex, cancel, wait.\<close>

definition stopLimitHooks :: "hook_executor \<Rightarrow> hook_executor" where
  "stopLimitHooks x =
     (if hookClosed x then x\<lparr> hookStops := hookStops x @ [StopWaiting] \<rparr>
      else x\<lparr> hookClosed := True, hookStops := hookStops x @ [StopCancelling] \<rparr>)"

definition stopCancel :: "nat \<Rightarrow> hook_executor \<Rightarrow> hook_executor option" where
  "stopCancel i x =
     (if i < length (hookStops x) \<and> hookStops x ! i = StopCancelling
      then Some (x\<lparr> hookCancelled := True, hookStops := (hookStops x)[i := StopWaiting] \<rparr>) else None)"

definition stopReturn :: "nat \<Rightarrow> hook_executor \<Rightarrow> hook_executor option" where
  "stopReturn i x =
     (if i < length (hookStops x) \<and> hookStops x ! i = StopWaiting \<and> list_all (\<lambda>w. w = WorkerDone) (hookWorkers x)
      then Some (x\<lparr> hookStops := (hookStops x)[i := StopReturned] \<rparr>) else None)"

text \<open>What goes on without new callers, and everything.\<close>

inductive hook_internal :: "hook_executor \<Rightarrow> hook_executor \<Rightarrow> bool" where
  receive: "receiveHookJob i x = Some x' \<Longrightarrow> hook_internal x x'"
| finish: "runLimitHookJob i err x = Some x' \<Longrightarrow> hook_internal x x'"
| leave: "leaveHookWorker i x = Some x' \<Longrightarrow> hook_internal x x'"
| cancel: "stopCancel i x = Some x' \<Longrightarrow> hook_internal x x'"
| return: "stopReturn i x = Some x' \<Longrightarrow> hook_internal x x'"

inductive hook_step :: "hook_limits \<Rightarrow> hook_executor \<Rightarrow> hook_executor \<Rightarrow> bool" for lims where
  submit: "hook_step lims x (enqueueLimitHookJob lims job x)"
| stop: "hook_step lims x (stopLimitHooks x)"
| internal: "hook_internal x x' \<Longrightarrow> hook_step lims x x'"

definition hook_start :: "hook_executor \<Rightarrow> bool" where
  "hook_start x \<longleftrightarrow> x = \<lparr> hookQueue = [], hookClosed = False, hookCancelled = False, hookWorkersStarted = False, hookWorkers = [],
     hookResults = [], hookSubmitted = [], hookStops = [] \<rparr>"

section \<open>Every job is accounted for\<close>

definition hook_inv :: "hook_limits \<Rightarrow> hook_executor \<Rightarrow> bool" where
  "hook_inv lims x \<longleftrightarrow>
     mset (hookSubmitted x) = mset (map fst (hookResults x)) + mset (hookQueue x) + mset (runningJobs x) \<and>
     length (hookQueue x) \<le> hl_capacity lims \<and>
     length (hookWorkers x) = (if hookWorkersStarted x then hl_workerCount lims else 0) \<and>
     (\<not> hookWorkersStarted x \<longrightarrow> hookQueue x = []) \<and>
     (\<not> hookClosed x \<longrightarrow> WorkerDone \<notin> set (hookWorkers x) \<and> hookStops x = []) \<and>
     (WorkerDone \<in> set (hookWorkers x) \<longrightarrow> hookQueue x = [])"

lemma runningJobs_update:
  assumes "i < length ws"
  shows "mset (concat (map runningJob (ws[i := w]))) + mset (runningJob (ws ! i)) = mset (concat (map runningJob ws)) + mset (runningJob w)"
  using assms
proof (induction ws arbitrary: i)
  case (Cons v ws)
  then show ?case by (cases i) (auto simp: add_ac)
qed simp

lemma runningJobs_replicate [simp]: "concat (map runningJob (replicate n WorkerIdle)) = []"
  by (induction n) simp_all

lemma length_running: "length (concat (map runningJob ws)) \<le> length ws"
proof (induction ws)
  case (Cons w ws)
  then show ?case by (cases w) simp_all
qed simp


lemma enqueue_inv: "hook_inv lims x \<Longrightarrow> hook_inv lims (enqueueLimitHookJob lims job x)"
  by (auto simp: hook_inv_def enqueueLimitHookJob_def startLimitHookWorkersLocked_def recordHookResult_def runningJobs_def Let_def)

lemma stop_inv: "hook_inv lims x \<Longrightarrow> hook_inv lims (stopLimitHooks x)"
  by (auto simp: hook_inv_def stopLimitHooks_def runningJobs_def)

lemma receive_inv:
  assumes "hook_inv lims x" "receiveHookJob i x = Some x'"
  shows "hook_inv lims x'"
proof -
  obtain job jobs where i: "i < length (hookWorkers x)" "hookWorkers x ! i = WorkerIdle" and q: "hookQueue x = job # jobs"
    and x': "x' = x\<lparr> hookQueue := jobs, hookWorkers := (hookWorkers x)[i := WorkerRunning job] \<rparr>"
    using assms(2) by (auto simp: receiveHookJob_def split: if_splits list.splits)
  have "mset (runningJobs x') = add_mset job (mset (runningJobs x))"
    using runningJobs_update [OF i(1), of "WorkerRunning job"] i(2) by (simp add: runningJobs_def x')
  moreover have "WorkerDone \<notin> set (hookWorkers x)" using assms(1) q by (auto simp: hook_inv_def)
  then have "WorkerDone \<notin> set (hookWorkers x')" using i(1) by (auto simp: x' dest!: set_update_subset_insert [THEN subsetD])
  ultimately show ?thesis using assms(1) q by (auto simp: hook_inv_def x')
qed

lemma finish_inv:
  assumes "hook_inv lims x" "runLimitHookJob i err x = Some x'"
  shows "hook_inv lims x'"
proof -
  obtain job where i: "i < length (hookWorkers x)" "hookWorkers x ! i = WorkerRunning job"
    and x': "x' = recordHookResult job err (x\<lparr> hookWorkers := (hookWorkers x)[i := WorkerIdle] \<rparr>)"
    using assms(2) by (auto simp: runLimitHookJob_def split: if_splits hook_worker.splits)
  have "add_mset job (mset (runningJobs x')) = mset (runningJobs x)"
    using runningJobs_update [OF i(1), of WorkerIdle] i(2) by (simp add: runningJobs_def x' recordHookResult_def)
  moreover have "WorkerDone \<in> set (hookWorkers x') \<longrightarrow> WorkerDone \<in> set (hookWorkers x)"
    by (auto simp: x' recordHookResult_def dest!: set_update_subset_insert [THEN subsetD])
  ultimately show ?thesis using assms(1) by (auto simp: hook_inv_def x' recordHookResult_def simp flip: add_mset_add_single)
qed

lemma leave_inv:
  assumes "hook_inv lims x" "leaveHookWorker i x = Some x'"
  shows "hook_inv lims x'"
proof -
  have i: "i < length (hookWorkers x)" "hookWorkers x ! i = WorkerIdle" and c: "hookClosed x" "hookQueue x = []"
    and x': "x' = x\<lparr> hookWorkers := (hookWorkers x)[i := WorkerDone] \<rparr>"
    using assms(2) by (auto simp: leaveHookWorker_def split: if_splits)
  have "mset (runningJobs x') = mset (runningJobs x)"
    using runningJobs_update [OF i(1), of WorkerDone] i(2) by (simp add: runningJobs_def x')
  then show ?thesis using assms(1) c by (auto simp: hook_inv_def x')
qed

lemma internal_inv: "hook_internal x x' \<Longrightarrow> hook_inv lims x \<Longrightarrow> hook_inv lims x'"
proof (induction rule: hook_internal.induct)
  case (cancel i x x')
  then show ?case by (auto simp: stopCancel_def hook_inv_def runningJobs_def split: if_splits)
next
  case (return i x x')
  then show ?case by (auto simp: stopReturn_def hook_inv_def runningJobs_def split: if_splits)
qed (auto intro: receive_inv finish_inv leave_inv)

interpretation hook_system: invariant_system hook_start "hook_step lims" "hook_inv lims" for lims
proof unfold_locales
  show "hook_start x \<Longrightarrow> hook_inv lims x" for x by (simp add: hook_start_def hook_inv_def runningJobs_def)
  show "hook_inv lims x \<Longrightarrow> hook_step lims x x' \<Longrightarrow> hook_inv lims x'" for x x'
    by (erule hook_step.cases) (auto intro: enqueue_inv stop_inv internal_inv)
qed

text \<open>
  Property C28: no hook is lost or delivered twice: in every reachable state of the executor, each submitted job is
  either waiting in the queue, running in a worker, or has its one recorded result; the queue never exceeds its
  capacity and never more jobs run than there are workers.
\<close>

theorem hook_jobs_accounted:
  assumes "reachable hook_start (hook_step lims) x"
  shows "mset (hookSubmitted x) = mset (map fst (hookResults x)) + mset (hookQueue x) + mset (runningJobs x) \<and>
    length (hookQueue x) \<le> hl_capacity lims \<and> hookInFlight x \<le> hl_workerCount lims"
  using hook_system.reachable_inv [OF assms] length_running [of "hookWorkers x"]
  by (auto simp: hook_inv_def hookInFlight_def runningJobs_def split: if_splits)

section \<open>The shutdown ends\<close>

fun workerCost :: "hook_worker \<Rightarrow> nat" where
  "workerCost WorkerDone = 0" | "workerCost WorkerIdle = 1" | "workerCost (WorkerRunning _) = 2"

fun stopCost :: "stop_call \<Rightarrow> nat" where
  "stopCost StopReturned = 0" | "stopCost StopWaiting = 1" | "stopCost StopCancelling = 2"

text \<open>How many internal steps are left: two for a queued job, one to end a running one, one for a worker to leave.\<close>

definition drainMeasure :: "hook_executor \<Rightarrow> nat" where
  "drainMeasure x = 2 * length (hookQueue x) + sum_list (map workerCost (hookWorkers x)) + sum_list (map stopCost (hookStops x))"

lemma cost_update:
  fixes f :: "'a \<Rightarrow> nat"
  assumes "i < length ws"
  shows "sum_list (map f (ws[i := w])) + f (ws ! i) = sum_list (map f ws) + f w"
  using assms
proof (induction ws arbitrary: i)
  case (Cons v ws)
  then show ?case by (cases i) (auto simp: add_ac)
qed simp

lemma internal_decreases: "hook_internal x x' \<Longrightarrow> drainMeasure x' < drainMeasure x"
proof (induction rule: hook_internal.induct)
  case (receive i x x')
  then show ?case using cost_update [of i "hookWorkers x" workerCost]
    by (auto simp: receiveHookJob_def drainMeasure_def split: if_splits list.splits) (metis add_2_eq_Suc' add_Suc_right lessI numeral_2_eq_2 workerCost.simps(2,3))
next
  case (finish i err x x')
  then show ?case using cost_update [of i "hookWorkers x" workerCost WorkerIdle]
    by (auto simp: runLimitHookJob_def recordHookResult_def drainMeasure_def split: if_splits hook_worker.splits)
next
  case (leave i x x')
  then show ?case using cost_update [of i "hookWorkers x" workerCost WorkerDone]
    by (auto simp: leaveHookWorker_def drainMeasure_def split: if_splits)
next
  case (cancel i x x')
  then show ?case using cost_update [of i "hookStops x" stopCost StopWaiting]
    by (auto simp: stopCancel_def drainMeasure_def split: if_splits)
next
  case (return i x x')
  then show ?case using cost_update [of i "hookStops x" stopCost StopReturned]
    by (auto simp: stopReturn_def drainMeasure_def split: if_splits)
qed

lemma internal_bounded: "(hook_internal ^^ n) x x' \<Longrightarrow> n + drainMeasure x' \<le> drainMeasure x"
proof (induction n arbitrary: x')
  case (Suc n)
  then obtain y where "(hook_internal ^^ n) x y" "hook_internal y x'" by auto
  then show ?case using Suc.IH internal_decreases by fastforce
qed simp

text \<open>After the shutdown: nothing waits or runs, every worker is gone, every call has returned, every job has its result.\<close>

definition drained :: "hook_executor \<Rightarrow> bool" where
  "drained x \<longleftrightarrow> hookQueue x = [] \<and> set (hookWorkers x) \<subseteq> {WorkerDone} \<and> set (hookStops x) \<subseteq> {StopReturned} \<and>
     mset (hookSubmitted x) = mset (map fst (hookResults x))"


lemma worker_moves:
  assumes "i < length (hookWorkers x)" "hookWorkers x ! i \<noteq> WorkerDone" "hookClosed x"
  shows "\<exists>x'. hook_internal x x'"
proof (cases "hookWorkers x ! i")
  case WorkerIdle
  then show ?thesis using assms hook_internal.receive [of i x] hook_internal.leave [of i x]
    by (cases "hookQueue x") (auto simp: receiveHookJob_def leaveHookWorker_def)
next
  case (WorkerRunning job)
  then show ?thesis using assms hook_internal.finish [of i None x] by (auto simp: runLimitHookJob_def)
qed (use assms in simp)

lemma stop_moves:
  assumes "i < length (hookStops x)" "hookStops x ! i \<noteq> StopReturned" "list_all (\<lambda>w. w = WorkerDone) (hookWorkers x)"
  shows "\<exists>x'. hook_internal x x'"
  using assms hook_internal.cancel [of i x] hook_internal.return [of i x]
  by (cases "hookStops x ! i") (auto simp: stopCancel_def stopReturn_def)

lemma not_drained_moves:
  assumes "hook_inv lims x" "hookClosed x" "\<not> drained x" "0 < hl_workerCount lims"
  shows "\<exists>x'. hook_internal x x'"
proof (cases "set (hookWorkers x) \<subseteq> {WorkerDone}")
  case False
  then obtain i where "i < length (hookWorkers x)" "hookWorkers x ! i \<noteq> WorkerDone" by (metis in_set_conv_nth singleton_iff subsetI)
  then show ?thesis using worker_moves assms(2) by blast
next
  case True
  then have running: "runningJobs x = []" by (auto simp: runningJobs_def)
  have "hookQueue x = []" using assms(1,4) True by (cases "hookWorkers x") (auto simp: hook_inv_def split: if_splits)
  then have "\<not> set (hookStops x) \<subseteq> {StopReturned}" using assms(1,3) True running by (simp add: drained_def hook_inv_def)
  then obtain i where "i < length (hookStops x)" "hookStops x ! i \<noteq> StopReturned" by (metis in_set_conv_nth singleton_iff subsetI)
  then show ?thesis using stop_moves True by (auto simp: list_all_iff)
qed

lemma internals_inv: "hook_internal\<^sup>*\<^sup>* x x' \<Longrightarrow> hook_inv lims x \<and> hookClosed x \<Longrightarrow> hook_inv lims x' \<and> hookClosed x'"
proof (induction rule: rtranclp_induct)
  case (step y z)
  have "hookClosed y \<Longrightarrow> hookClosed z" using step(2)
    by (induction rule: hook_internal.induct) (auto simp: receiveHookJob_def runLimitHookJob_def leaveHookWorker_def stopCancel_def
        stopReturn_def recordHookResult_def split: if_splits list.splits hook_worker.splits)
  then show ?case using step internal_inv by blast
qed

text \<open>
  Property C30: the shutdown of the hooks ends: once the queue is closed, the workers and the callers that wait make
  at most \<open>drainMeasure\<close> more steps between them, and as long as the executor is not drained, one of them can make a step; so
  every call of \<open>stopLimitHooks\<close> returns, with every job that was ever submitted recorded, provided each delivery returns.
\<close>

theorem hook_shutdown_terminates:
  assumes "reachable hook_start (hook_step lims) x" and "hookClosed x" and "0 < hl_workerCount lims"
  shows "(\<forall>n x'. (hook_internal ^^ n) x x' \<longrightarrow> n \<le> drainMeasure x) \<and>
    (\<forall>x'. hook_internal\<^sup>*\<^sup>* x x' \<longrightarrow> drained x' \<or> (\<exists>x''. hook_internal x' x''))"
proof (intro conjI allI impI)
  show "n \<le> drainMeasure x" if "(hook_internal ^^ n) x x'" for n x' using internal_bounded [OF that] by simp
  show "drained x' \<or> (\<exists>x''. hook_internal x' x'')" if "hook_internal\<^sup>*\<^sup>* x x'" for x'
    using internals_inv [OF that] hook_system.reachable_inv [OF assms(1)] not_drained_moves assms(2,3) by blast
qed

text \<open>An executor with four workers that is closed while its one job waits.\<close>

definition sampleLimits :: hook_limits where "sampleLimits = \<lparr> hl_capacity = 64, hl_workerCount = 4 \<rparr>"

definition newExecutor :: hook_executor where
  "newExecutor = \<lparr> hookQueue = [], hookClosed = False, hookCancelled = False, hookWorkersStarted = False, hookWorkers = [],
     hookResults = [], hookSubmitted = [], hookStops = [] \<rparr>"

definition closedExecutor :: "limit_hook_job \<Rightarrow> hook_executor" where
  "closedExecutor job = stopLimitHooks (enqueueLimitHookJob sampleLimits job newExecutor)"

lemma closedExecutor_reachable: "reachable hook_start (hook_step sampleLimits) (closedExecutor job)"
proof -
  have "reachable hook_start (hook_step sampleLimits) newExecutor" by (rule reachable_start) (simp add: hook_start_def newExecutor_def)
  from reachable_step [OF reachable_step [OF this hook_step.submit] hook_step.stop] show ?thesis by (simp add: closedExecutor_def)
qed

lemmas closedExecutor_defs = closedExecutor_def sampleLimits_def newExecutor_def enqueueLimitHookJob_def stopLimitHooks_def
  startLimitHookWorkersLocked_def Let_def

theorem hook_jobs_accounted_witness:
  "\<forall>job. hookSubmitted (closedExecutor job) = [job] \<and> hookInFlight (closedExecutor job) \<le> 4"
proof
  fix job
  show "hookSubmitted (closedExecutor job) = [job] \<and> hookInFlight (closedExecutor job) \<le> 4"
    using hook_jobs_accounted [OF closedExecutor_reachable, of job] by (simp add: closedExecutor_defs)
qed

theorem hook_shutdown_terminates_witness:
  "\<forall>job. \<not> (\<exists>x'. (hook_internal ^^ 9) (closedExecutor job) x')"
proof
  fix job
  have "hookClosed (closedExecutor job)" "0 < hl_workerCount sampleLimits" "drainMeasure (closedExecutor job) = 8"
    by (simp_all add: closedExecutor_defs drainMeasure_def numeral_eq_Suc)
  then show "\<not> (\<exists>x'. (hook_internal ^^ 9) (closedExecutor job) x')"
    using hook_shutdown_terminates [OF closedExecutor_reachable, of job] by fastforce
qed

section \<open>Dispatch of the events\<close>

text \<open>
  The pending users that are still limited, in ascending order; the pending set is emptied. \<open>build\<close> makes the
  event of a user from the sample, when hooks are enabled and there is a sample.
\<close>

definition dispatchUsers :: "int list \<Rightarrow> (int \<Rightarrow> bool) \<Rightarrow> int list" where
  "dispatchUsers pending active = sort (filter active (remdups pending))"

definition stageDispatchLimitHooks ::
  "hook_limits \<Rightarrow> hook_config \<Rightarrow> script_identity \<Rightarrow> (int \<Rightarrow> limit_hook_event) \<Rightarrow> bool \<Rightarrow> (int \<Rightarrow> bool) \<Rightarrow>
   int list \<times> hook_executor \<Rightarrow> int list \<times> hook_executor" where
  "stageDispatchLimitHooks lims cfg identity build sampled active s =
     ([], if hc_LimitHookEnabled cfg \<and> sampled
          then fold (\<lambda>uid. dispatchLimitHookJobs lims cfg identity (build uid)) (dispatchUsers (fst s) active) (snd s)
          else snd s)"

lemma enqueue_submitted: "hookSubmitted (enqueueLimitHookJob lims job x) = hookSubmitted x @ [job]"
  by (simp add: enqueueLimitHookJob_def recordHookResult_def startLimitHookWorkersLocked_def Let_def)

lemma dispatch_submitted: "hookSubmitted (dispatchLimitHookJobs lims cfg identity event x) = hookSubmitted x @ limitHookJobs cfg identity event"
proof -
  have "hookSubmitted (fold (enqueueLimitHookJob lims) js x) = hookSubmitted x @ js" for js
    by (induction js arbitrary: x) (simp_all add: enqueue_submitted)
  then show ?thesis by (simp add: dispatchLimitHookJobs_def)
qed

text \<open>
  The dispatch submits, for every user limited since the last one and still limited, in the order of the UIDs, one job per
  configured hook, and a second dispatch without a new plan submits nothing.
\<close>

theorem dispatch_exact:
  assumes "hc_LimitHookEnabled cfg"
  shows "hookSubmitted (snd (stageDispatchLimitHooks lims cfg identity build True active (pending, x))) =
      hookSubmitted x @ concat (map (\<lambda>uid. limitHookJobs cfg identity (build uid)) (dispatchUsers pending active)) \<and>
    snd (stageDispatchLimitHooks lims cfg identity build' True active'
      (stageDispatchLimitHooks lims cfg identity build True active (pending, x))) =
    snd (stageDispatchLimitHooks lims cfg identity build True active (pending, x))"
proof -
  have "hookSubmitted (fold (\<lambda>uid. dispatchLimitHookJobs lims cfg identity (build uid)) us x) =
      hookSubmitted x @ concat (map (\<lambda>uid. limitHookJobs cfg identity (build uid)) us)" for us
    by (induction us arbitrary: x) (simp_all add: dispatch_submitted)
  then show ?thesis using assms by (simp add: stageDispatchLimitHooks_def dispatchUsers_def)
qed

section \<open>Reports of saturation\<close>

record saturation_log =
  hookLastSaturationLog :: gotime
  hookSaturationSuppressed :: u64
  saturationWarnings :: "(int \<times> u64) list"

definition limitHookSaturationLogInterval :: int where "limitHookSaturationLogInterval = seconds 60"

text \<open>The warnings written so far, oldest first, each with its time and the number of reports it stands for besides itself.\<close>

definition reportLimitHookSaturation :: "int \<Rightarrow> saturation_log \<Rightarrow> saturation_log" where
  "reportLimitHookSaturation now l =
     (if hookLastSaturationLog l \<noteq> None \<and> goSub (Some now) (hookLastSaturationLog l) < limitHookSaturationLogInterval
      then l\<lparr> hookSaturationSuppressed := hookSaturationSuppressed l + 1 \<rparr>
      else l\<lparr> hookSaturationSuppressed := 0, hookLastSaturationLog := Some now,
              saturationWarnings := saturationWarnings l @ [(now, hookSaturationSuppressed l)] \<rparr>)"

text \<open>Every report is counted, in a warning or as suppressed; consecutive warnings are at least a minute apart.\<close>

fun minuteApart :: "int list \<Rightarrow> bool" where
  "minuteApart (a # b # ts) \<longleftrightarrow> limitHookSaturationLogInterval \<le> goSub (Some b) (Some a) \<and> minuteApart (b # ts)"
| "minuteApart _ \<longleftrightarrow> True"

definition saturation_inv :: "nat \<Rightarrow> saturation_log \<Rightarrow> bool" where
  "saturation_inv n l \<longleftrightarrow>
     of_nat n = of_nat (length (saturationWarnings l)) + sum_list (map snd (saturationWarnings l)) + hookSaturationSuppressed l \<and>
     hookLastSaturationLog l = (if saturationWarnings l = [] then None else Some (fst (last (saturationWarnings l)))) \<and>
     minuteApart (map fst (saturationWarnings l))"

lemma minuteApart_snoc:
  "minuteApart (ts @ [b]) \<longleftrightarrow> minuteApart ts \<and> (ts \<noteq> [] \<longrightarrow> limitHookSaturationLogInterval \<le> goSub (Some b) (Some (last ts)))"
  by (induction ts rule: minuteApart.induct) auto

lemma report_inv: "saturation_inv n l \<Longrightarrow> saturation_inv (Suc n) (reportLimitHookSaturation now l)"
  by (auto simp: saturation_inv_def reportLimitHookSaturation_def minuteApart_snoc last_map split: if_splits)

text \<open>
  Whatever the times of the reports, the written warnings account for every report, and no two warnings are written within a minute.
\<close>

theorem saturation_reports_accounted:
  "saturation_inv (length reports)
     (fold reportLimitHookSaturation reports \<lparr> hookLastSaturationLog = None, hookSaturationSuppressed = 0, saturationWarnings = [] \<rparr>)"
proof -
  have "saturation_inv n l \<Longrightarrow> saturation_inv (n + length reports) (fold reportLimitHookSaturation reports l)" for n l
    by (induction reports arbitrary: n l) (simp_all add: report_inv flip: add_Suc)
  from this [of 0] show ?thesis by (simp add: saturation_inv_def)
qed

end
