(* ===== verification/Hook_Script.thy ===== *)
theory Hook_Script
  imports Hook_Executor Safe_File Result_Monad
begin

text \<open>
  The script of a limit hook: the identity it runs as and the validation of its path
  (\<^verbatim>\<open>src/internal/limithook/security.go\<close>), the command, and the control of its process group from the start to the
  last process (\<^verbatim>\<open>src/state/limit_hook.go\<close>). The name service, the file system and the kernel's answers to
  signals are arguments.
\<close>

unbundle bit_operations_syntax

section \<open>The identity of a script\<close>

datatype identity_error =
    IdentityUnset | UserLookup string | UserNotExact string | UserNumber string
  | GroupLookup string | GroupNotExact string | GroupNumber string | IdentityRoot

text \<open>What the name service answers: the canonical name and the number as text.\<close>

type_synonym name_service = "string \<Rightarrow> (string, string \<times> string) res"

definition ResolveScriptIdentity :: "name_service \<Rightarrow> name_service \<Rightarrow> string \<Rightarrow> string \<Rightarrow> (identity_error, script_identity) res" where
  "ResolveScriptIdentity lookupUser lookupGroup username groupName =
     (if username = [] \<or> groupName = [] then Inl IdentityUnset
      else (case lookupUser username of
          Inl e \<Rightarrow> Inl (UserLookup e)
        | Inr (name, uidText) \<Rightarrow>
            if name \<noteq> username then Inl (UserNotExact name)
            else (case parseUint 32 uidText of
                None \<Rightarrow> Inl (UserNumber uidText)
              | Some uid \<Rightarrow>
                  (case lookupGroup groupName of
                     Inl e \<Rightarrow> Inl (GroupLookup e)
                   | Inr (gname, gidText) \<Rightarrow>
                       if gname \<noteq> groupName then Inl (GroupNotExact gname)
                       else (case parseUint 32 gidText of
                           None \<Rightarrow> Inl (GroupNumber gidText)
                         | Some gid \<Rightarrow>
                             if uid = 0 \<or> gid = 0 then Inl IdentityRoot
                             else Inr \<lparr> si_Username = username, si_Group = groupName, si_UID = of_nat uid, si_GID = of_nat gid \<rparr>)))))"

section \<open>The path of a script\<close>

datatype script_path_error =
    ScriptPathEmpty | ScriptPathNotAbsolute | ScriptPathNotClean | ScriptPathNul
  | ComponentUnreadable string | ComponentSymlink string | ComponentNoStat string | ComponentOwner string
  | ComponentWritable string | ScriptNotRegular string | ScriptNotExecutable string
  | AncestorNotDirectory string | AncestorNotSearchable string

text \<open>The permission class of the file the identity falls into: owner, group, or the others.\<close>

definition identityPermission :: "u32 \<Rightarrow> stat_t \<Rightarrow> script_identity \<Rightarrow> u32 \<Rightarrow> u32 \<Rightarrow> u32 \<Rightarrow> bool" where
  "identityPermission mode st identity owner grp other =
     (if st_Uid st = si_UID identity then mode AND owner \<noteq> 0
      else if st_Gid st = si_GID identity then mode AND grp \<noteq> 0
      else mode AND other \<noteq> 0)"

definition identityCanExecute :: "u32 \<Rightarrow> stat_t \<Rightarrow> script_identity \<Rightarrow> bool" where
  "identityCanExecute mode st identity = identityPermission mode st identity 0x40 0x08 0x01"

definition identityCanTraverse :: "u32 \<Rightarrow> stat_t \<Rightarrow> script_identity \<Rightarrow> bool" where
  "identityCanTraverse mode st identity = identityPermission mode st identity 0x40 0x08 0x01"

text \<open>\<^verbatim>\<open>filepath.Join\<close> of a clean directory and one element of a clean path.\<close>

definition joinPath :: "string \<Rightarrow> string \<Rightarrow> string" where
  "joinPath dir element = (if element = [] then dir else if dir = ''/'' then dir @ element else dir @ ''/'' @ element)"

definition checkComponent :: "script_identity \<Rightarrow> bool \<Rightarrow> string \<Rightarrow> (string, file_info) res \<Rightarrow> (script_path_error, unit) res" where
  "checkComponent identity final current answer =
     (case answer of
        Inl _ \<Rightarrow> Inl (ComponentUnreadable current)
      | Inr info \<Rightarrow>
          if Mode_IsSymlink (fi_Mode info) then Inl (ComponentSymlink current)
          else (case fi_Stat info of
              None \<Rightarrow> Inl (ComponentNoStat current)
            | Some st \<Rightarrow>
                if st_Uid st \<noteq> 0 \<and> st_Uid st \<noteq> si_UID identity then Inl (ComponentOwner current)
                else
                  let trustedStickyAncestor = (\<not> final \<and> Mode_IsDir (fi_Mode info) \<and> st_Uid st = 0 \<and> Mode_IsSticky (fi_Mode info)) in
                  if Mode_Perm (fi_Mode info) AND 0x12 \<noteq> 0 \<and> \<not> trustedStickyAncestor then Inl (ComponentWritable current)
                  else if final then
                    (if \<not> Mode_IsRegular (fi_Mode info) then Inl (ScriptNotRegular current)
                     else if \<not> identityCanExecute (Mode_Perm (fi_Mode info)) st identity then Inl (ScriptNotExecutable current)
                     else Inr ())
                  else if \<not> Mode_IsDir (fi_Mode info) then Inl (AncestorNotDirectory current)
                  else if \<not> identityCanTraverse (Mode_Perm (fi_Mode info)) st identity then Inl (AncestorNotSearchable current)
                  else Inr ()))"

fun checkComponents :: "(string \<Rightarrow> (string, file_info) res) \<Rightarrow> script_identity \<Rightarrow> string \<Rightarrow> string list \<Rightarrow> (script_path_error, unit) res" where
  "checkComponents lstat identity current [] = Inr ()"
| "checkComponents lstat identity current (c # cs) =
     (let path = joinPath current c in
      case checkComponent identity (cs = []) path (lstat path) of Inl e \<Rightarrow> Inl e | Inr _ \<Rightarrow> checkComponents lstat identity path cs)"

definition ValidateScriptPath :: "(string \<Rightarrow> (string, file_info) res) \<Rightarrow> string \<Rightarrow> script_identity \<Rightarrow> (script_path_error, unit) res" where
  "ValidateScriptPath lstat path identity =
     (if path = [] then Inl ScriptPathEmpty
      else if \<not> isAbsPath path then Inl ScriptPathNotAbsolute
      else if \<not> isCleanAbsPath path then Inl ScriptPathNotClean
      else if char_of (0::nat) \<in> set path then Inl ScriptPathNul
      else checkComponents lstat identity ''/'' (splitOn (CHR ''/'') (tl path)))"

section \<open>What a validated path guarantees\<close>

text \<open>
  A directory on the way that nobody but root and the script's user can have changed an entry of, and the script that nobody
  but them can have written and that the script's user can execute.
\<close>

definition guardedAncestor :: "script_identity \<Rightarrow> (string, file_info) res \<Rightarrow> bool" where
  "guardedAncestor identity answer =
     (case answer of Inl _ \<Rightarrow> False
      | Inr info \<Rightarrow> \<not> Mode_IsSymlink (fi_Mode info) \<and> Mode_IsDir (fi_Mode info) \<and>
          (case fi_Stat info of None \<Rightarrow> False
           | Some st \<Rightarrow> (st_Uid st = 0 \<or> st_Uid st = si_UID identity) \<and>
               (Mode_Perm (fi_Mode info) AND 0x12 = 0 \<or> st_Uid st = 0 \<and> Mode_IsSticky (fi_Mode info)) \<and>
               identityCanTraverse (Mode_Perm (fi_Mode info)) st identity))"

definition guardedScript :: "script_identity \<Rightarrow> (string, file_info) res \<Rightarrow> bool" where
  "guardedScript identity answer =
     (case answer of Inl _ \<Rightarrow> False
      | Inr info \<Rightarrow> \<not> Mode_IsSymlink (fi_Mode info) \<and> Mode_IsRegular (fi_Mode info) \<and>
          (case fi_Stat info of None \<Rightarrow> False
           | Some st \<Rightarrow> (st_Uid st = 0 \<or> st_Uid st = si_UID identity) \<and> Mode_Perm (fi_Mode info) AND 0x12 = 0 \<and>
               identityCanExecute (Mode_Perm (fi_Mode info)) st identity))"

lemma checkComponent_ok:
  "checkComponent identity final current answer = Inr u \<longleftrightarrow>
     (if final then guardedScript identity answer else guardedAncestor identity answer)"
  by (auto simp: checkComponent_def guardedScript_def guardedAncestor_def Let_def split: sum.splits option.splits if_splits)

fun componentPaths :: "string \<Rightarrow> string list \<Rightarrow> string list" where
  "componentPaths current [] = []"
| "componentPaths current (c # cs) = joinPath current c # componentPaths (joinPath current c) cs"

lemma checkComponents_ok:
  "cs \<noteq> [] \<Longrightarrow> checkComponents lstat identity current cs = Inr u \<longleftrightarrow>
     (\<forall>d \<in> set (butlast (componentPaths current cs)). guardedAncestor identity (lstat d)) \<and>
     guardedScript identity (lstat (last (componentPaths current cs)))"
proof (induction cs arbitrary: current)
  case (Cons c cs)
  show ?case
  proof (cases cs)
    case Nil
    then show ?thesis using checkComponent_ok [of identity True "joinPath current c" "lstat (joinPath current c)"]
      by (auto simp: Let_def split: sum.splits)
  next
    case (Cons b bs)
    then show ?thesis using Cons.IH [of "joinPath current c"] checkComponent_ok [of identity False "joinPath current c" "lstat (joinPath current c)"]
      by (auto simp: Let_def split: sum.splits)
  qed
qed simp

text \<open>The paths that are looked at: everything before a slash but the root, and the path.\<close>

fun pathsFrom :: "string \<Rightarrow> string list \<Rightarrow> string list" where
  "pathsFrom base [] = []"
| "pathsFrom base (c # cs) = (base @ c) # pathsFrom (base @ c @ ''/'') cs"

lemma componentPaths_from:
  "[] \<notin> set cs \<Longrightarrow> current \<noteq> [] \<Longrightarrow> \<forall>c \<in> set cs. CHR ''/'' \<notin> set c \<Longrightarrow>
   componentPaths current cs = pathsFrom (if current = ''/'' then current else current @ ''/'') cs"
proof (induction cs arbitrary: current)
  case (Cons c cs)
  have "joinPath current c \<noteq> ''/''" using Cons.prems by (cases c) (auto simp: joinPath_def)
  then show ?case using Cons.IH [of "joinPath current c"] Cons.prems by (auto simp: joinPath_def)
qed simp

lemma slash_split:
  assumes "CHR ''/'' \<notin> set c"
  shows "c @ CHR ''/'' # s = e @ CHR ''/'' # r \<longleftrightarrow> e = c \<and> r = s \<or> (\<exists>e'. e = c @ CHR ''/'' # e' \<and> s = e' @ CHR ''/'' # r)"
  using assms
proof (induction c arbitrary: e)
  case Nil
  then show ?case by (cases e) auto
next
  case (Cons b c)
  then show ?case by (cases e) auto
qed

lemma pathsFrom_set:
  "cs \<noteq> [] \<Longrightarrow> \<forall>c \<in> set cs. CHR ''/'' \<notin> set c \<Longrightarrow>
   last (pathsFrom base cs) = base @ joinWith (CHR ''/'') cs \<and>
   (d \<in> set (butlast (pathsFrom base cs)) \<longleftrightarrow> (\<exists>e r. d = base @ e \<and> joinWith (CHR ''/'') cs = e @ CHR ''/'' # r))"
proof (induction cs arbitrary: base)
  case (Cons c cs)
  show ?case
  proof (cases cs)
    case Nil
    then show ?thesis using Cons.prems by auto
  next
    case (Cons b bs)
    have slash: "CHR ''/'' \<notin> set c" using Cons.prems by simp
    show ?thesis using Cons.IH [of "base @ c @ ''/''"] Cons.prems Cons
      by (auto simp: slash_split [OF slash])
  qed
qed simp


lemma script_path_iff:
  "ValidateScriptPath lstat path identity = Inr () \<longleftrightarrow>
     isCleanAbsPath path \<and> char_of (0::nat) \<notin> set path \<and> guardedScript identity (lstat path) \<and>
     (\<forall>d \<in> {d. d \<noteq> [] \<and> (\<exists>r. path = d @ ''/'' @ r)}. guardedAncestor identity (lstat d))"
proof (cases "isCleanAbsPath path \<and> char_of (0::nat) \<notin> set path")
  case False
  then have "ValidateScriptPath lstat path identity \<noteq> Inr ()" by (auto simp: ValidateScriptPath_def split: if_splits)
  then show ?thesis using False by blast
next
  case clean: True
  then obtain p where p: "path = CHR ''/'' # p" by (cases path) (auto simp: isCleanAbsPath_def isAbsPath_def)
  have start: "ValidateScriptPath lstat path identity = checkComponents lstat identity ''/'' (splitOn (CHR ''/'') p)"
    using clean p by (auto simp: ValidateScriptPath_def isCleanAbsPath_def isAbsPath_def)
  show ?thesis
  proof (cases "p = []")
    case True
    have "\<not> (d \<noteq> [] \<and> (\<exists>r. path = d @ ''/'' @ r))" for d using p True by (cases d) auto
    then have "{d. d \<noteq> [] \<and> (\<exists>r. path = d @ ''/'' @ r)} = {}" by blast
    then show ?thesis using start clean p True checkComponents_ok [of "[[]]" lstat identity "''/''" "()"]
      by (simp only: ball_empty) (simp add: joinPath_def)
  next
    case False
    let ?cs = "splitOn (CHR ''/'') p"
    have elements: "[] \<notin> set ?cs" using clean p False by (auto simp: isCleanAbsPath_def list_all_iff)
    have slashes: "\<forall>c \<in> set ?cs. CHR ''/'' \<notin> set c" by (auto dest: splitOn_no_sep)
    have paths: "componentPaths ''/'' ?cs = pathsFrom ''/'' ?cs" using componentPaths_from [OF elements _ slashes, of "''/''"] by simp
    have "d \<in> set (butlast (pathsFrom ''/'' ?cs)) \<longleftrightarrow> d \<noteq> [] \<and> (\<exists>r. path = d @ ''/'' @ r)" for d
      using pathsFrom_set [of ?cs "''/''" d] slashes p by (cases d) auto
    moreover have "last (pathsFrom ''/'' ?cs) = path" using pathsFrom_set [of ?cs "''/''" path] slashes p by simp
    ultimately show ?thesis using start clean checkComponents_ok [of ?cs lstat identity "''/''" "()"] by (auto simp: paths)
  qed
qed

text \<open>
  The script of the limit hooks is accepted exactly when its path is absolute and clean, every directory before it but
  the root is a real directory that belongs to root or to the script's user, that nobody else can write to (unless it is root's
  and sticky) and that the script's user can pass, and the script itself is a regular file of theirs that nobody else can write to
  and that the script's user can execute.
\<close>

theorem script_path_accepted_iff:
  "ValidateScriptPath lstat path identity = Inr () \<longleftrightarrow>
     isCleanAbsPath path \<and> char_of (0::nat) \<notin> set path \<and> guardedScript identity (lstat path) \<and>
     (\<forall>d \<in> {d. d \<noteq> [] \<and> (\<exists>r. path = d @ ''/'' @ r)}. guardedAncestor identity (lstat d))"
  by (rule script_path_iff)

text \<open>A script of root's under root's directories.\<close>

definition sampleScriptFiles :: "string \<Rightarrow> (string, file_info) res" where
  "sampleScriptFiles path =
     (let owner = \<lparr> st_Dev = 8, st_Ino = 42, st_Uid = 0, st_Gid = 0 \<rparr> in
      Inr \<lparr> fi_Mode = (if path = ''/usr/lib/hook'' then 0x1ED else 0x800001ED), fi_Size = 10, fi_ModTime = 7, fi_Stat = Some owner \<rparr>)"

definition sampleIdentity :: script_identity where
  "sampleIdentity = \<lparr> si_Username = ''hook'', si_Group = ''hook'', si_UID = 990, si_GID = 990 \<rparr>"

lemma sample_ancestor: "d \<noteq> ''/usr/lib/hook'' \<Longrightarrow> guardedAncestor sampleIdentity (sampleScriptFiles d)"
  by (simp add: guardedAncestor_def sampleScriptFiles_def sampleIdentity_def identityCanTraverse_def identityPermission_def Safe_File.mode_defs Let_def)

text \<open>The root directory is not looked at.\<close>

theorem script_path_ignores_root:
  assumes "path \<noteq> ''/''"
  shows "ValidateScriptPath (lstat(''/'' := answer)) path identity = Inr () \<longleftrightarrow> ValidateScriptPath lstat path identity = Inr ()"
proof -
  have "d \<noteq> ''/''" if "isCleanAbsPath path" "path = d @ ''/'' @ r" for d r
    using that assms by (auto simp: isCleanAbsPath_def)
  then have root: "isCleanAbsPath path \<Longrightarrow> \<forall>d \<in> {d. d \<noteq> [] \<and> (\<exists>r. path = d @ ''/'' @ r)}. d \<noteq> ''/''" by blast
  show ?thesis
  proof (cases "isCleanAbsPath path")
    case True
    then show ?thesis using assms root unfolding script_path_iff by simp
  qed (simp add: script_path_iff)
qed


section \<open>The command\<close>

definition formatOptionalUint64 :: "u64 option \<Rightarrow> string" where
  "formatOptionalUint64 v = (case v of None \<Rightarrow> [] | Some w \<Rightarrow> formatUint (unat w))"

definition formatOptionalString :: "string option \<Rightarrow> string" where
  "formatOptionalString v = (case v of None \<Rightarrow> [] | Some t \<Rightarrow> t)"

definition formatBool :: "bool \<Rightarrow> string" where "formatBool b = (if b then ''true'' else ''false'')"

definition formatOptionalBool :: "bool option \<Rightarrow> string" where
  "formatOptionalBool v = (case v of None \<Rightarrow> [] | Some b \<Rightarrow> formatBool b)"

definition itoa :: "int \<Rightarrow> string" where
  "itoa i = (if i < 0 then CHR ''-'' # formatUint (nat (- i)) else formatUint (nat i))"

text \<open>\<^verbatim>\<open>strconv.FormatFloat(f, 'f', 2, 64)\<close>: two decimals, to the nearest and at the middle to the even one.\<close>

definition formatHundredths :: "nat \<Rightarrow> string" where
  "formatHundredths n = formatUint (n div 100) @ ''.'' @ [digit_char (n div 10 mod 10), digit_char (n mod 10)]"

definition formatFloat2 :: "f64 \<Rightarrow> string" where
  "formatFloat2 f =
     (case f of
        NaN \<Rightarrow> ''NaN'' | PosInf \<Rightarrow> ''+Inf'' | NegInf \<Rightarrow> ''-Inf''
      | Fin q \<Rightarrow> (if q < 0 then ''-'' else []) @ formatHundredths (nat (roundEven (\<bar>q\<bar> * 100))))"

text \<open>The time is formatted by the argument, \<^verbatim>\<open>time.RFC3339\<close>.\<close>

definition scriptEnvironment :: "(gotime \<Rightarrow> string) \<Rightarrow> script_identity \<Rightarrow> limit_hook_event \<Rightarrow> (string \<times> string) list" where
  "scriptEnvironment rfc3339 identity event =
     [(''PATH'', ''/usr/local/sbin:/usr/local/bin:/usr/sbin:/usr/bin:/sbin:/bin''),
      (''LANG'', ''C''), (''LC_ALL'', ''C''), (''HOME'', ''/''), (''PWD'', ''/''),
      (''USER'', si_Username identity), (''LOGNAME'', si_Username identity),
      (''RESMAN_LIMIT_UID'', itoa (he_UID event)),
      (''RESMAN_LIMIT_USERNAME'', he_Username event),
      (''RESMAN_LIMIT_ENFORCEABLE_CPU_USAGE_PERCENT'', formatFloat2 (he_EnforceableCPUUsagePercent event)),
      (''RESMAN_LIMIT_CPU_ELIGIBLE_USERS_COUNT'', itoa (he_CPUEligibleUsersCount event)),
      (''RESMAN_LIMIT_TIMESTAMP'', rfc3339 (he_Timestamp event)),
      (''RESMAN_LIMIT_SERVER_ROLE'', he_ServerRole event),
      (''RESMAN_LIMIT_CPU_POINTS_CONFIGURED_CLASS'', he_CPUPointsConfiguredClass event),
      (''RESMAN_LIMIT_CPU_POINTS_CONFIGURED_GUARANTEE'', formatOptionalUint64 (he_CPUPointsConfiguredGuarantee event)),
      (''RESMAN_LIMIT_CPU_POINTS_LIFECYCLE_STATE'', he_CPUPointsLifecycleState event),
      (''RESMAN_LIMIT_CPU_POINTS_APPLIED_CLASS'', formatOptionalString (he_CPUPointsAppliedClass event)),
      (''RESMAN_LIMIT_CPU_POINTS_APPLIED_WEIGHT'', formatOptionalUint64 (he_CPUPointsAppliedWeight event)),
      (''RESMAN_LIMIT_CPU_POINTS_APPLIED_TO_PROCESSES'', formatBool (he_CPUPointsAppliedToProcesses event)),
      (''RESMAN_LIMIT_CPU_POINTS_COMPLETE_UID_WORKLOAD_GUARANTEED'', formatBool (he_CPUPointsCompleteUIDGuaranteed event)),
      (''RESMAN_LIMIT_CPU_POINTS_RECONCILIATION_DEGRADED'', formatBool (he_CPUPointsReconciliationDegraded event)),
      (''RESMAN_LIMIT_CPU_POINTS_PROCESS_COVERAGE'', he_CPUPointsProcessCoverage event),
      (''RESMAN_LIMIT_RAM_CGROUP_MEMORY_CURRENT_BYTES'', formatOptionalUint64 (he_RAMCgroupMemoryCurrentBytes event)),
      (''RESMAN_LIMIT_RAM_COVERAGE'', formatOptionalString (he_RAMCoverage event)),
      (''RESMAN_LIMIT_RAM_COVERAGE_INCOMPLETE_PROCESS_COUNT'', itoa (he_RAMCoverageIncompleteProcessCount event)),
      (''RESMAN_LIMIT_RAM_SWAP_DISABLED'', formatOptionalBool (he_RAMSwapDisabled event)),
      (''RESMAN_LIMIT_MEMORY_HIGH'', formatOptionalString (he_MemoryHighLimit event)),
      (''RESMAN_LIMIT_MEMORY_MAX'', formatOptionalString (he_MemoryMaxLimit event)),
      (''RESMAN_LIMIT_MEMORY_SWAP_MAX'', formatOptionalString (he_MemorySwapMax event)),
      (''RESMAN_LIMIT_MEMORY_HIGH_EVENTS_DELTA'', formatOptionalUint64 (he_MemoryHighEventsDelta event)),
      (''RESMAN_LIMIT_MEMORY_MAX_EVENTS_DELTA'', formatOptionalUint64 (he_MemoryMaxEventsDelta event)),
      (''RESMAN_LIMIT_MEMORY_OOM_EVENTS_DELTA'', formatOptionalUint64 (he_MemoryOOMEventsDelta event)),
      (''RESMAN_LIMIT_MEMORY_OOM_KILL_EVENTS_DELTA'', formatOptionalUint64 (he_MemoryOOMKillEventsDelta event))]"

text \<open>The command in its own process group; without a credential it would run as the daemon.\<close>

record script_command =
  cm_path :: string
  cm_dir :: string
  cm_env :: "(string \<times> string) list"
  cm_credential :: "(u32 \<times> u32 \<times> u32 list) option"

definition scriptCommand :: "(gotime \<Rightarrow> string) \<Rightarrow> hook_script_invocation \<Rightarrow> limit_hook_event \<Rightarrow> script_command" where
  "scriptCommand rfc3339 invocation event =
     \<lparr> cm_path = sc_path invocation, cm_dir = ''/'', cm_env = scriptEnvironment rfc3339 (sc_identity invocation) event,
       cm_credential = (if sc_dropPrivileges invocation
         then Some (si_UID (sc_identity invocation), si_GID (sc_identity invocation), []) else None) \<rparr>"

section \<open>The process group\<close>

datatype group_signal = ProbeGroup | TermGroup | KillGroup

datatype errno = ESRCH | EPERM | OtherErrno string

text \<open>
  The kernel's answer to a signal as a function of the signals sent to the group before (newest first), the number of
  ticks of a wait that begins there before its deadline, what \<^verbatim>\<open>Wait\<close> delivers within the grace period (nothing: \<open>None\<close>) and
  within the two seconds after the kill.
\<close>

record group_world =
  gw_kill :: "group_signal list \<Rightarrow> group_signal \<Rightarrow> errno option"
  gw_ticks :: "group_signal list \<Rightarrow> nat"
  gw_grace :: "hook_error option option"
  gw_afterKill :: "hook_error option option"

type_synonym 'a group_op = "(group_signal list, hook_error, 'a) op"

definition killR :: "group_world \<Rightarrow> group_signal \<Rightarrow> errno option group_op" where
  "killR w sig = (\<lambda>sent. (Inr (gw_kill w sent sig), sig # sent))"

fun waitGroupExit :: "nat \<Rightarrow> group_world \<Rightarrow> unit group_op" where
  "waitGroupExit n w =
     bindR (killR w ProbeGroup) (\<lambda>r. case r of
       Some ESRCH \<Rightarrow> retR ()
     | Some (OtherErrno e) \<Rightarrow> failR (HookWrapped ''inspect limit hook process group'' (Some (HookFailure e)))
     | _ \<Rightarrow> (case n of 0 \<Rightarrow> failR (HookFailure ''limit hook process group did not drain after SIGKILL'') | Suc k \<Rightarrow> waitGroupExit k w))"

declare waitGroupExit.simps [simp del]

definition waitForLimitHookProcessGroupExitWithin :: "group_world \<Rightarrow> unit group_op" where
  "waitForLimitHookProcessGroupExitWithin w = bindR (readR (gw_ticks w)) (\<lambda>n. waitGroupExit n w)"

text \<open>A signal whose only accepted failure is that the group is gone.\<close>

definition signalGroup :: "group_world \<Rightarrow> group_signal \<Rightarrow> string \<Rightarrow> unit group_op" where
  "signalGroup w sig what =
     bindR (killR w sig) (\<lambda>r. case r of None \<Rightarrow> retR () | Some ESRCH \<Rightarrow> retR () | Some e \<Rightarrow> failR (HookWrapped what None))"

definition cleanupCompletedLimitHookProcessGroup :: "group_world \<Rightarrow> unit group_op" where
  "cleanupCompletedLimitHookProcessGroup w =
     bindR (killR w ProbeGroup) (\<lambda>r. case r of
       Some ESRCH \<Rightarrow> retR ()
     | Some (OtherErrno e) \<Rightarrow> failR (HookWrapped ''inspect completed limit hook process group'' (Some (HookFailure e)))
     | _ \<Rightarrow>
         bindR (signalGroup w TermGroup ''terminate background limit hook processes'') (\<lambda>_.
         bindR (tryR (waitForLimitHookProcessGroupExitWithin w)) (\<lambda>gone.
           let left = failR (HookFailure ''limit hook script left background processes after exit'') in
           case gone of
             Inr _ \<Rightarrow> left
           | Inl _ \<Rightarrow>
               bindR (signalGroup w KillGroup ''kill background limit hook processes'') (\<lambda>_.
               bindR (waitForLimitHookProcessGroupExitWithin w) (\<lambda>_. left)))))"

definition waitForLimitHookProcess :: "group_world \<Rightarrow> hook_error option" where
  "waitForLimitHookProcess w =
     (case gw_afterKill w of Some e \<Rightarrow> e | None \<Rightarrow> Some (HookFailure ''limit hook process did not exit after SIGKILL''))"

text \<open>The result is the error that is returned at the end.\<close>

definition terminateLimitHookProcessGroup :: "group_world \<Rightarrow> hook_error option group_op" where
  "terminateLimitHookProcessGroup w =
     bindR (signalGroup w TermGroup ''terminate limit hook process group'') (\<lambda>_.
     bindR (signalGroup w KillGroup ''kill limit hook process group'') (\<lambda>_.
     let waitErr = (case gw_grace w of Some e \<Rightarrow> e | None \<Rightarrow> waitForLimitHookProcess w) in
     bindR (waitForLimitHookProcessGroupExitWithin w) (\<lambda>_. retR waitErr)))"

section \<open>Running a script\<close>

fun exitStatus :: "hook_error \<Rightarrow> int option" where
  "exitStatus (ExitStatus n) = Some n"
| "exitStatus (HookWrapped _ (Some e)) = exitStatus e"
| "exitStatus _ = None"

text \<open>The error of the context, when it is over, names the reason; otherwise the exit status does.\<close>

definition sanitizeScriptHookError :: "hook_error option \<Rightarrow> hook_error option \<Rightarrow> hook_error" where
  "sanitizeScriptHookError ctxErr err =
     (if ctxErr = Some DeadlineExceeded then HookWrapped ''limit hook script timed out'' (Some DeadlineExceeded)
      else if ctxErr = Some ContextCanceled then HookWrapped ''limit hook script canceled'' (Some ContextCanceled)
      else
        let reason = (case Option.bind err exitStatus of
              Some n \<Rightarrow> if 0 \<le> n then ''exited with status '' @ itoa n else ''execution failed''
            | None \<Rightarrow> ''execution failed'')
        in HookWrapped (''limit hook script '' @ reason) err)"

text \<open>
  One run: the answer of the start, which of the end and the context's end is seen first (\<open>Some\<close> the result of the end), the end
  that is seen right after the context's, and the context's error when it is read.
\<close>

record script_run =
  sr_start :: "script_command \<Rightarrow> hook_error option"
  sr_first :: "hook_error option option"
  sr_late :: "hook_error option option"
  sr_ctxErr :: "hook_error option"

definition finishScript :: "group_world \<Rightarrow> script_run \<Rightarrow> hook_error option \<Rightarrow> unit group_op" where
  "finishScript w run exit =
     bindR (tryR (cleanupCompletedLimitHookProcessGroup w)) (\<lambda>cleanup.
       case exit of
         Some e \<Rightarrow> failR (sanitizeScriptHookError (sr_ctxErr run) (Some e))
       | None \<Rightarrow> liftR cleanup)"

definition runLimitHookScript ::
  "(string \<Rightarrow> (string, file_info) res) \<Rightarrow> (gotime \<Rightarrow> string) \<Rightarrow> group_world \<Rightarrow> script_run \<Rightarrow> hook_script_invocation \<Rightarrow> limit_hook_event \<Rightarrow>
   unit group_op" where
  "runLimitHookScript lstat rfc3339 w run invocation event =
     (case ValidateScriptPath lstat (sc_path invocation) (sc_identity invocation) of
        Inl _ \<Rightarrow> failR (HookFailure ''validate limit hook script'')
      | Inr _ \<Rightarrow>
          (case sr_start run (scriptCommand rfc3339 invocation event) of
             Some e \<Rightarrow> failR (sanitizeScriptHookError (sr_ctxErr run) (Some e))
           | None \<Rightarrow>
               (case sr_first run of
                  Some exit \<Rightarrow> finishScript w run exit
                | None \<Rightarrow>
                    (case sr_late run of
                       Some exit \<Rightarrow> finishScript w run exit
                     | None \<Rightarrow>
                         bindR (tryR (terminateLimitHookProcessGroup w)) (\<lambda>r.
                           failR (sanitizeScriptHookError (sr_ctxErr run) (case r of Inl e \<Rightarrow> Some e | Inr e \<Rightarrow> e)))))))"


section \<open>Nothing of a script is left\<close>

text \<open>The last signal was a probe, and the kernel said there is no process in the group.\<close>

definition groupGone :: "group_world \<Rightarrow> group_signal list \<Rightarrow> bool" where
  "groupGone w sent \<longleftrightarrow> (\<exists>before. sent = ProbeGroup # before \<and> gw_kill w before ProbeGroup = Some ESRCH)"

text \<open>A probe ends a wait when the group is gone, and a failure other than a lack of permission ends it too.\<close>

lemma probe_cases:
  assumes "\<And>P. triple P m Q (\<lambda>_ _. True)" "\<And>before. P before \<Longrightarrow> gw_kill w before ProbeGroup = Some ESRCH \<Longrightarrow> Q () (ProbeGroup # before)"
  shows "triple P (bindR (killR w ProbeGroup) (\<lambda>r. case r of
     Some ESRCH \<Rightarrow> retR () | Some (OtherErrno e) \<Rightarrow> failR (f e) | _ \<Rightarrow> m)) Q (\<lambda>_ _. True)"
proof (rule triple_bind [where R = "\<lambda>r sent. \<exists>before. P before \<and> sent = ProbeGroup # before \<and> r = gw_kill w before ProbeGroup"])
  show "triple P (killR w ProbeGroup) (\<lambda>r sent. \<exists>before. P before \<and> sent = ProbeGroup # before \<and> r = gw_kill w before ProbeGroup) (\<lambda>_ _. True)"
    by (simp add: triple_def killR_def)
  show "triple (\<lambda>sent. \<exists>before. P before \<and> sent = ProbeGroup # before \<and> r = gw_kill w before ProbeGroup)
      (case r of Some ESRCH \<Rightarrow> retR () | Some (OtherErrno e) \<Rightarrow> failR (f e) | _ \<Rightarrow> m) Q (\<lambda>_ _. True)" for r
    using assms by (auto split: option.splits errno.splits intro!: triple_ret triple_fail)
qed

lemma waitGroupExit_gone: "triple P (waitGroupExit n w) (\<lambda>_ sent. groupGone w sent) (\<lambda>_ _. True)"
proof (induction n arbitrary: P)
  case 0
  show ?case unfolding waitGroupExit.simps [of 0] nat.case by (rule probe_cases) (auto intro: triple_fail simp: groupGone_def)
next
  case (Suc n)
  show ?case unfolding waitGroupExit.simps [of "Suc n"] nat.case by (rule probe_cases [OF Suc]) (simp add: groupGone_def)
qed

lemma waitWithin_gone: "triple P (waitForLimitHookProcessGroupExitWithin w) (\<lambda>_ sent. groupGone w sent) (\<lambda>_ _. True)"
  unfolding waitForLimitHookProcessGroupExitWithin_def
  by (rule triple_bind [OF triple_read [where Q = "\<lambda>_ _. True"] triple_pre [OF waitGroupExit_gone]]) simp_all

text \<open>A script that ended well left nothing behind: the cleanup succeeds only when its first probe finds the group gone.\<close>

lemma cleanup_gone:
  "triple (\<lambda>sent. sent = sent0) (cleanupCompletedLimitHookProcessGroup w)
    (\<lambda>_ sent. sent = ProbeGroup # sent0 \<and> gw_kill w sent0 ProbeGroup = Some ESRCH) (\<lambda>_ _. True)"
proof -
  have never: "triple P (bindR m (\<lambda>_. bindR n (\<lambda>gone. case gone of Inr _ \<Rightarrow> failR e | Inl _ \<Rightarrow> bindR a (\<lambda>_. bindR b (\<lambda>_. failR e))))) Q (\<lambda>_ _. True)"
    for P :: "group_signal list \<Rightarrow> bool" and m :: "unit group_op" and n :: "(hook_error + unit) group_op" and a b :: "unit group_op"
      and Q :: "unit \<Rightarrow> group_signal list \<Rightarrow> bool" and e
    by (auto simp: triple_def op_defs split: prod.splits sum.splits)
  show ?thesis unfolding cleanupCompletedLimitHookProcessGroup_def Let_def by (rule probe_cases [OF never]) simp
qed

text \<open>A termination that returns has killed the group and seen it gone.\<close>

lemma keeps_kill: "keeps (\<lambda>sent. sig \<in> set sent) (killR w other)"
  by (simp add: triple_def killR_def)

lemma waitGroupExit_sent: "keeps (\<lambda>sent. sig \<in> set sent) (waitGroupExit n w)"
proof (induction n)
  case 0
  show ?case unfolding waitGroupExit.simps [of 0] nat.case
    by (rule keeps_bind [OF keeps_kill]) (auto split: option.splits errno.splits intro!: keeps_simple)
next
  case (Suc n)
  show ?case unfolding waitGroupExit.simps [of "Suc n"] nat.case
    by (rule keeps_bind [OF keeps_kill]) (auto split: option.splits errno.splits intro!: keeps_simple Suc)
qed

lemma signalGroup_sent: "triple P (signalGroup w sig what) (\<lambda>_ sent. sig \<in> set sent) (\<lambda>_ _. True)"
  by (auto simp: signalGroup_def triple_def op_defs killR_def split: option.splits errno.splits)

theorem termination_drains:
  assumes "terminateLimitHookProcessGroup w sent = (Inr err, sent')"
  shows "groupGone w sent' \<and> KillGroup \<in> set sent'"
proof -
  have wait: "triple (\<lambda>sent. KillGroup \<in> set sent) (waitForLimitHookProcessGroupExitWithin w) (\<lambda>_ sent. groupGone w sent \<and> KillGroup \<in> set sent) (\<lambda>_ _. True)"
  proof -
    have "keeps (\<lambda>sent. KillGroup \<in> set sent) (waitForLimitHookProcessGroupExitWithin w)"
      unfolding waitForLimitHookProcessGroupExitWithin_def by (intro keeps_bind keeps_simple waitGroupExit_sent)
    from triple_conj [OF waitWithin_gone [where P = "\<lambda>_. True"] this] show ?thesis by (rule triple_weaken) auto
  qed
  have "triple (\<lambda>_. True) (terminateLimitHookProcessGroup w) (\<lambda>_ sent. groupGone w sent \<and> KillGroup \<in> set sent) (\<lambda>_ _. True)"
    unfolding terminateLimitHookProcessGroup_def Let_def
    by (rule triple_bind [OF signalGroup_sent], rule triple_bind [OF signalGroup_sent], rule triple_bind [OF wait], rule triple_ret)
  from triple_value [OF this _ assms] show ?thesis by simp
qed

lemma finish_success:
  assumes "finishScript w run exit sent = (Inr (), sent')"
  shows "exit = None \<and> sent' = ProbeGroup # sent \<and> gw_kill w sent ProbeGroup = Some ESRCH"
proof -
  have "cleanupCompletedLimitHookProcessGroup w sent = (Inr (), sent')" "exit = None"
    using assms by (auto simp: finishScript_def op_defs split: prod.splits sum.splits option.splits)
  then show ?thesis using triple_value [OF cleanup_gone] by blast
qed

text \<open>
  Property C29: a limit hook script is reported as successful only when its path was accepted, it was started as the
  command for its event with the configured identity, it exited without an error, and the kernel then knew of no process of its group: no
  script that leaves background processes behind is a success.
\<close>

theorem script_success_leaves_nothing:
  assumes "runLimitHookScript lstat rfc3339 w run invocation event [] = (Inr (), sent)"
  shows "ValidateScriptPath lstat (sc_path invocation) (sc_identity invocation) = Inr () \<and>
    sr_start run (scriptCommand rfc3339 invocation event) = None \<and> (sr_first run = Some None \<or> sr_late run = Some None) \<and>
    sent = [ProbeGroup] \<and> gw_kill w [] ProbeGroup = Some ESRCH"
  using assms finish_success [of w run _ "[]" sent]
  by (auto simp: runLimitHookScript_def op_defs split: sum.splits option.splits prod.splits)

text \<open>A script that exits at once under a kernel that finds its group empty.\<close>

definition sampleWorld :: group_world where
  "sampleWorld = \<lparr> gw_kill = \<lambda>_ _. Some ESRCH, gw_ticks = \<lambda>_. 50, gw_grace = None, gw_afterKill = None \<rparr>"

definition sampleRun :: script_run where
  "sampleRun = \<lparr> sr_start = \<lambda>_. None, sr_first = Some None, sr_late = None, sr_ctxErr = None \<rparr>"

definition sampleInvocation :: hook_script_invocation where
  "sampleInvocation = \<lparr> sc_path = ''/usr/lib/hook'', sc_identity = sampleIdentity, sc_dropPrivileges = True \<rparr>"

lemma sample_script: "ValidateScriptPath sampleScriptFiles ''/usr/lib/hook'' sampleIdentity = Inr ()"
proof -
  have "guardedScript sampleIdentity (sampleScriptFiles ''/usr/lib/hook'')"
    by (simp add: guardedScript_def sampleScriptFiles_def sampleIdentity_def identityCanExecute_def identityPermission_def Safe_File.mode_defs Let_def)
  moreover have "isCleanAbsPath ''/usr/lib/hook''" "char_of (0::nat) \<notin> set ''/usr/lib/hook''" by code_simp+
  moreover have "guardedAncestor sampleIdentity (sampleScriptFiles d)" if "''/usr/lib/hook'' = d @ ''/'' @ r" for d r
    by (rule sample_ancestor) (use that in auto)
  ultimately show ?thesis unfolding script_path_iff by blast
qed

theorem script_path_accepted_iff_witness: "guardedScript sampleIdentity (sampleScriptFiles ''/usr/lib/hook'')"
  using script_path_accepted_iff [of sampleScriptFiles "''/usr/lib/hook''" sampleIdentity] sample_script by simp

theorem script_success_leaves_nothing_witness:
  "\<forall>event. \<exists>sent. runLimitHookScript sampleScriptFiles (\<lambda>_. ''2026-01-01T00:00:00Z'') sampleWorld sampleRun sampleInvocation event [] = (Inr (), sent) \<and>
     sent = [ProbeGroup]"
proof
  fix event
  have "runLimitHookScript sampleScriptFiles (\<lambda>_. ''2026-01-01T00:00:00Z'') sampleWorld sampleRun sampleInvocation event [] = (Inr (), [ProbeGroup])"
    by (simp add: runLimitHookScript_def sampleInvocation_def sample_script sampleRun_def finishScript_def cleanupCompletedLimitHookProcessGroup_def
        sampleWorld_def killR_def op_defs)
  with script_success_leaves_nothing [OF this]
  show "\<exists>sent. runLimitHookScript sampleScriptFiles (\<lambda>_. ''2026-01-01T00:00:00Z'') sampleWorld sampleRun sampleInvocation event [] = (Inr (), sent) \<and>
     sent = [ProbeGroup]" by simp
qed

text \<open>A run that its deadline ends is reported as a timeout, whatever the termination of its group met.\<close>

theorem script_timeout_reported:
  assumes "sr_first run = None" "sr_late run = None" "sr_ctxErr run = Some DeadlineExceeded" "sr_start run (scriptCommand rfc3339 invocation event) = None"
    and "ValidateScriptPath lstat (sc_path invocation) (sc_identity invocation) = Inr ()"
  shows "\<exists>e. fst (runLimitHookScript lstat rfc3339 w run invocation event sent) = Inl e \<and> limitHookOutcome (Some e) = LimitHookOutcomeTimeout"
  using assms by (auto simp: runLimitHookScript_def op_defs sanitizeScriptHookError_def limitHookOutcome_def split: prod.splits)

end
