(* ===== verification/Hook_Events.thy ===== *)
theory Hook_Events
  imports Hook_Executor CpuPoints_Policy
begin

text \<open>
  The event of a limit hook (\<^verbatim>\<open>notifyUserLimited\<close> and \<^verbatim>\<open>limitHookCPUPointsSnapshot\<close> of \<^verbatim>\<open>src/state/limit_hook.go\<close>): what the
  decision sample observed of the user, with the policy in force now.
\<close>

record cpu_points_user_snapshot =
  ps_UID :: int
  ps_Username :: string
  ps_ConfiguredClass :: string
  ps_ConfiguredGuaranteePoints :: "u64 option"
  ps_CPUEnforcementRequested :: bool
  ps_LifecycleState :: string
  ps_AppliedClass :: "string option"
  ps_AppliedWeight :: "u64 option"
  ps_AppliedToProcesses :: bool
  ps_CompleteUIDWorkloadGuaranteed :: bool
  ps_ReconciliationDegraded :: bool
  ps_ProcessCoverage :: string
  ps_ObservedProcessCount :: int
  ps_EnforceableProcessCount :: int
  ps_RAMCgroupUsageBytes :: "u64 option"
  ps_RAMCoverage :: "string option"
  ps_RAMCoverageIncompleteProcessCount :: int
  ps_RAMSwapDisabled :: "bool option"
  ps_MemoryHighLimit :: "string option"
  ps_MemoryMaxLimit :: "string option"
  ps_MemorySwapMax :: "string option"
  ps_MemoryHighEventsDelta :: "u64 option"
  ps_MemoryMaxEventsDelta :: "u64 option"
  ps_MemoryOOMEventsDelta :: "u64 option"
  ps_MemoryOOMKillEventsDelta :: "u64 option"

text \<open>Of \<^verbatim>\<open>UserMetrics\<close>: the request, the processes, the enforceable processes and their CPU usage.\<close>

record hook_user_metrics =
  hu_CPULimitRequested :: bool
  hu_ProcessCount :: int
  hu_EnforceableProcessCount :: int
  hu_EnforceableCPUUsage :: f64

text \<open>Of the sample: the eligible users, the snapshots, and the metrics, which may hold nil pointers.\<close>

record hook_sample =
  hs_CPUEligibleUsersCount :: int
  hs_CPUPointsUsers :: "(int \<times> cpu_points_user_snapshot) list"
  hs_UserMetrics :: "(int \<times> hook_user_metrics option) list"

definition CPUPointsCoverageNone :: string where "CPUPointsCoverageNone = ''none''"

definition newUserSnapshot :: "int \<Rightarrow> string \<Rightarrow> cpu_points_user_snapshot" where
  "newUserSnapshot uid username =
     \<lparr> ps_UID = uid, ps_Username = username, ps_ConfiguredClass = [], ps_ConfiguredGuaranteePoints = None,
       ps_CPUEnforcementRequested = False, ps_LifecycleState = [], ps_AppliedClass = None, ps_AppliedWeight = None,
       ps_AppliedToProcesses = False, ps_CompleteUIDWorkloadGuaranteed = False, ps_ReconciliationDegraded = False,
       ps_ProcessCoverage = CPUPointsCoverageNone, ps_ObservedProcessCount = 0, ps_EnforceableProcessCount = 0,
       ps_RAMCgroupUsageBytes = None, ps_RAMCoverage = None, ps_RAMCoverageIncompleteProcessCount = 0, ps_RAMSwapDisabled = None,
       ps_MemoryHighLimit = None, ps_MemoryMaxLimit = None, ps_MemorySwapMax = None, ps_MemoryHighEventsDelta = None,
       ps_MemoryMaxEventsDelta = None, ps_MemoryOOMEventsDelta = None, ps_MemoryOOMKillEventsDelta = None \<rparr>"

fun allocationClassName :: "allocation_class \<Rightarrow> string" where
  "allocationClassName AllocationClassGuaranteed = ''guaranteed''"
| "allocationClassName AllocationClassBestEffort = ''best_effort''"

definition observedUser :: "hook_sample \<Rightarrow> int \<Rightarrow> hook_user_metrics option" where
  "observedUser sample uid = (case map_of (hs_UserMetrics sample) uid of Some (Some u) \<Rightarrow> Some u | _ \<Rightarrow> None)"

definition userEnforceableCPUUsage :: "hook_sample option \<Rightarrow> int \<Rightarrow> f64" where
  "userEnforceableCPUUsage sample uid =
     (case sample of None \<Rightarrow> f_zero
      | Some s \<Rightarrow> (case observedUser s uid of None \<Rightarrow> f_zero | Some u \<Rightarrow> hu_EnforceableCPUUsage u))"

definition limitHookCPUPointsSnapshot :: "policy_snapshot \<Rightarrow> bool \<Rightarrow> int \<Rightarrow> string \<Rightarrow> hook_sample option \<Rightarrow> cpu_points_user_snapshot" where
  "limitHookCPUPointsSnapshot policy degraded uid username sample =
     (let r0 = (case Option.bind sample (\<lambda>s. map_of (hs_CPUPointsUsers s) uid) of Some u \<Rightarrow> u | None \<Rightarrow> newUserSnapshot uid username);
          r1 = r0\<lparr> ps_ReconciliationDegraded := degraded, ps_UID := uid, ps_Username := username,
                   ps_ConfiguredClass := allocationClassName (ClassForUID policy uid),
                   ps_ConfiguredGuaranteePoints := map_option (\<lambda>g. ConfiguredGuaranteePoints_Value (ug_points g)) (GuaranteeForUID policy uid) \<rparr>
      in case Option.bind sample (\<lambda>s. observedUser s uid) of
           Some u \<Rightarrow> r1\<lparr> ps_CPUEnforcementRequested := hu_CPULimitRequested u, ps_ObservedProcessCount := hu_ProcessCount u,
                        ps_EnforceableProcessCount := hu_EnforceableProcessCount u \<rparr>
         | None \<Rightarrow> r1)"

definition limitHookEvent :: "hook_config \<Rightarrow> gotime \<Rightarrow> hook_sample \<Rightarrow> int \<Rightarrow> string \<Rightarrow> cpu_points_user_snapshot \<Rightarrow> limit_hook_event" where
  "limitHookEvent cfg now sample uid username p =
     \<lparr> he_UID = uid, he_Username = username,
       he_EnforceableCPUUsagePercent = userEnforceableCPUUsage (Some sample) uid,
       he_CPUEligibleUsersCount = hs_CPUEligibleUsersCount sample, he_Timestamp = now,
       he_ServerRole = hc_ServerRole cfg, he_LimitHookSource = ''resman'',
       he_CPUPointsConfiguredClass = ps_ConfiguredClass p, he_CPUPointsConfiguredGuarantee = ps_ConfiguredGuaranteePoints p,
       he_CPUPointsLifecycleState = ps_LifecycleState p, he_CPUPointsAppliedClass = ps_AppliedClass p,
       he_CPUPointsAppliedWeight = ps_AppliedWeight p, he_CPUPointsAppliedToProcesses = ps_AppliedToProcesses p,
       he_CPUPointsCompleteUIDGuaranteed = ps_CompleteUIDWorkloadGuaranteed p,
       he_CPUPointsReconciliationDegraded = ps_ReconciliationDegraded p, he_CPUPointsProcessCoverage = ps_ProcessCoverage p,
       he_RAMCgroupMemoryCurrentBytes = ps_RAMCgroupUsageBytes p, he_RAMCoverage = ps_RAMCoverage p,
       he_RAMCoverageIncompleteProcessCount = ps_RAMCoverageIncompleteProcessCount p, he_RAMSwapDisabled = ps_RAMSwapDisabled p,
       he_MemoryHighLimit = ps_MemoryHighLimit p, he_MemoryMaxLimit = ps_MemoryMaxLimit p, he_MemorySwapMax = ps_MemorySwapMax p,
       he_MemoryHighEventsDelta = ps_MemoryHighEventsDelta p, he_MemoryMaxEventsDelta = ps_MemoryMaxEventsDelta p,
       he_MemoryOOMEventsDelta = ps_MemoryOOMEventsDelta p, he_MemoryOOMKillEventsDelta = ps_MemoryOOMKillEventsDelta p \<rparr>"

definition notifyUserLimited ::
  "hook_limits \<Rightarrow> hook_config \<Rightarrow> script_identity \<Rightarrow> policy_snapshot \<Rightarrow> bool \<Rightarrow> gotime \<Rightarrow> hook_sample option \<Rightarrow> int \<Rightarrow> string \<Rightarrow>
   hook_executor \<Rightarrow> hook_executor" where
  "notifyUserLimited lims cfg identity policy degraded now sample uid username x =
     (case sample of
        None \<Rightarrow> x
      | Some s \<Rightarrow>
          if \<not> hc_LimitHookEnabled cfg then x
          else dispatchLimitHookJobs lims cfg identity
            (limitHookEvent cfg now s uid username (limitHookCPUPointsSnapshot policy degraded uid username sample)) x)"

text \<open>The dispatch of the stage is the notification of every user it selects.\<close>

theorem dispatch_notifies:
  "snd (stageDispatchLimitHooks lims cfg identity
      (\<lambda>uid. limitHookEvent cfg now s uid (name uid) (limitHookCPUPointsSnapshot policy degraded uid (name uid) (Some s))) True active (pending, x)) =
   fold (\<lambda>uid. notifyUserLimited lims cfg identity policy degraded now (Some s) uid (name uid)) (dispatchUsers pending active) x"
proof (cases "hc_LimitHookEnabled cfg")
  case False
  have "fold (\<lambda>uid. notifyUserLimited lims cfg identity policy degraded now (Some s) uid (name uid)) us x = x" for us
    using False by (induction us arbitrary: x) (simp_all add: notifyUserLimited_def)
  then show ?thesis using False by (simp add: stageDispatchLimitHooks_def)
next
  case True
  then have "(\<lambda>uid. notifyUserLimited lims cfg identity policy degraded now (Some s) uid (name uid)) = (\<lambda>uid. dispatchLimitHookJobs lims cfg identity
      (limitHookEvent cfg now s uid (name uid) (limitHookCPUPointsSnapshot policy degraded uid (name uid) (Some s))))"
    by (simp add: notifyUserLimited_def fun_eq_iff)
  then show ?thesis using True by (simp add: stageDispatchLimitHooks_def)
qed

text \<open>
  What an event says of the policy is the policy in force, whatever the sample had observed: a guarantee is reported exactly for the
  users of the map, with its points and the class to match.
\<close>

theorem event_reports_policy:
  fixes policy degraded uid username sample
  defines "p \<equiv> limitHookCPUPointsSnapshot policy degraded uid username sample"
  shows "ps_ConfiguredGuaranteePoints p = map_option (\<lambda>g. ConfiguredGuaranteePoints_Value (ug_points g)) (GuaranteeForUID policy uid) \<and>
    (ps_ConfiguredClass p = ''guaranteed'' \<longleftrightarrow> GuaranteeForUID policy uid \<noteq> None) \<and> ps_ReconciliationDegraded p = degraded"
  by (auto simp: p_def limitHookCPUPointsSnapshot_def ClassForUID_def GuaranteeForUID_def Let_def split: option.splits)

end
