(* ===== verification/Operation_Gates.thy ===== *)
theory Operation_Gates
  imports Transition_System "HOL-Library.Multiset"
begin

text \<open>
  The two synchronisation primitives of the daemon, as step relations over any number of actors:
  \<^verbatim>\<open>src/internal/operationgate/gate.go\<close>, which serializes slow operations, and
  \<^verbatim>\<open>src/internal/configepoch/barrier.go\<close>, which separates readers of one configuration epoch from
  its replacement. An actor is one call of \<^verbatim>\<open>Enter\<close> or \<^verbatim>\<open>BeginUpdate\<close> with the function it returned.
  What a method does while it holds the mutex is one step; \<^verbatim>\<open>cond.Wait\<close> puts an actor to sleep and
  \<^verbatim>\<open>cond.Broadcast\<close> wakes every sleeper, which then takes the mutex again.
\<close>

section \<open>The operation gate\<close>

datatype gate_actor = GateOutside | GateInside | GateReleased | GatePanicked

text \<open>\<open>token\<close> tells whether the channel of capacity one holds its token.\<close>

record gate =
  token :: bool
  gate_actors :: "nat \<Rightarrow> gate_actor"

definition Gate_Enter :: "nat \<Rightarrow> gate \<Rightarrow> gate option" where
  "Gate_Enter a g = (if gate_actors g a = GateOutside \<and> token g
     then Some (g\<lparr> token := False, gate_actors := (gate_actors g)(a := GateInside) \<rparr>) else None)"

text \<open>The release function: the first call returns the token, another one panics. A send into a full
  channel would block.\<close>

definition Gate_release :: "nat \<Rightarrow> gate \<Rightarrow> gate option" where
  "Gate_release a g = (case gate_actors g a of
       GateInside \<Rightarrow>
         if token g then None
         else Some (g\<lparr> token := True, gate_actors := (gate_actors g)(a := GateReleased) \<rparr>)
     | GateReleased \<Rightarrow> Some (g\<lparr> gate_actors := (gate_actors g)(a := GatePanicked) \<rparr>)
     | _ \<Rightarrow> None)"

inductive gate_step :: "gate \<Rightarrow> gate \<Rightarrow> bool" where
  enter: "Gate_Enter a g = Some g' \<Longrightarrow> gate_step g g'"
| release: "Gate_release a g = Some g' \<Longrightarrow> gate_step g g'"

definition gate_start :: "gate \<Rightarrow> bool" where
  "gate_start g \<longleftrightarrow> token g \<and> (\<forall>a. gate_actors g a = GateOutside)"

definition gate_inv :: "gate \<Rightarrow> bool" where
  "gate_inv g \<longleftrightarrow> (token g \<longleftrightarrow> (\<forall>a. gate_actors g a \<noteq> GateInside)) \<and>
     (\<forall>a b. gate_actors g a = GateInside \<longrightarrow> gate_actors g b = GateInside \<longrightarrow> a = b)"

lemma gate_step_inv: "gate_inv g \<Longrightarrow> gate_step g g' \<Longrightarrow> gate_inv g'"
proof (erule gate_step.cases)
  fix a g0 g1 assume "gate_inv g" "g = g0" "g' = g1" "Gate_Enter a g0 = Some g1"
  then show ?thesis by (auto simp: Gate_Enter_def gate_inv_def split: if_splits)
next
  fix a g0 g1 assume "gate_inv g" "g = g0" "g' = g1" "Gate_release a g0 = Some g1"
  then show ?thesis
    by (auto simp: Gate_release_def gate_inv_def split: gate_actor.splits if_splits) (metis gate_actor.distinct(7))
qed

interpretation gate_system: invariant_system gate_start gate_step gate_inv
proof unfold_locales
  show "gate_start g \<Longrightarrow> gate_inv g" for g by (simp add: gate_start_def gate_inv_def)
qed (rule gate_step_inv)

text \<open>
  Property C21: the gate serializes: in every reachable state at most one operation is inside; leaving
  never blocks; and an operation outside can enter as soon as nobody is inside.
\<close>

theorem gate_serializes:
  assumes "reachable gate_start gate_step g"
  shows "(gate_actors g a = GateInside \<longrightarrow> gate_actors g b = GateInside \<longrightarrow> a = b) \<and>
     (gate_actors g a = GateInside \<longrightarrow> Gate_release a g \<noteq> None) \<and>
     (gate_actors g a = GateOutside \<longrightarrow> (Gate_Enter a g \<noteq> None \<longleftrightarrow> (\<forall>b. gate_actors g b \<noteq> GateInside)))"
  using gate_system.reachable_inv [OF assms] by (auto simp: gate_inv_def Gate_release_def Gate_Enter_def)

theorem gate_serializes_witness:
  "Gate_Enter 1 \<lparr> token = False, gate_actors = (\<lambda>_. GateOutside)(0 := GateInside) \<rparr> = None"
proof -
  let ?g0 = "\<lparr> token = True, gate_actors = \<lambda>_. GateOutside \<rparr>"
  let ?g1 = "\<lparr> token = False, gate_actors = (\<lambda>_. GateOutside)(0 := GateInside) \<rparr>"
  have "reachable gate_start gate_step ?g0" by (rule reachable_start) (simp add: gate_start_def)
  moreover have "gate_step ?g0 ?g1" by (rule gate_step.enter [of 0]) (simp add: Gate_Enter_def)
  ultimately have "reachable gate_start gate_step ?g1" by (rule reachable_step)
  from gate_serializes [OF this, of 1 0] show ?thesis by (auto dest: spec [of _ 0])
qed

section \<open>The configuration epoch barrier\<close>

text \<open>
  A sleeping actor is \<open>Asleep\<close>; one that a broadcast has woken is \<open>Awake\<close> and has to take the mutex
  again. A reader waits before it joins; an updater waits for the previous updater, and then, as
  the owner of the update, for the readers.
\<close>

datatype wait_state = Asleep | Awake

datatype epoch_actor =
    Outside
  | ReaderWaits wait_state
  | Reading
  | UpdaterWaits wait_state
  | OwnerWaits wait_state
  | Updating
  | Finished

record barrier =
  readers :: int
  waiters :: int
  updating :: bool
  actors :: "nat \<Rightarrow> epoch_actor"

definition setActor :: "nat \<Rightarrow> epoch_actor \<Rightarrow> barrier \<Rightarrow> barrier" where
  "setActor a p b = b\<lparr> actors := (actors b)(a := p) \<rparr>"

fun wake :: "epoch_actor \<Rightarrow> epoch_actor" where
  "wake (ReaderWaits s) = ReaderWaits Awake"
| "wake (UpdaterWaits s) = UpdaterWaits Awake"
| "wake (OwnerWaits s) = OwnerWaits Awake"
| "wake p = p"

definition Broadcast :: "barrier \<Rightarrow> barrier" where
  "Broadcast b = b\<lparr> actors := wake \<circ> actors b \<rparr>"

text \<open>The loop of \<^verbatim>\<open>Enter\<close>, at its first test or after it was woken.\<close>

definition enterLoop :: "nat \<Rightarrow> barrier \<Rightarrow> barrier" where
  "enterLoop a b =
     (if updating b then setActor a (ReaderWaits Asleep) (b\<lparr> waiters := waiters b + 1 \<rparr>)
      else setActor a Reading (b\<lparr> readers := readers b + 1 \<rparr>))"

definition Barrier_Enter :: "nat \<Rightarrow> barrier \<Rightarrow> barrier option" where
  "Barrier_Enter a b = (case actors b a of
       Outside \<Rightarrow> Some (enterLoop a b)
     | ReaderWaits Awake \<Rightarrow> Some (enterLoop a (b\<lparr> waiters := waiters b - 1 \<rparr>))
     | _ \<Rightarrow> None)"

definition Barrier_leave :: "nat \<Rightarrow> barrier \<Rightarrow> barrier option" where
  "Barrier_leave a b = (case actors b a of
       Reading \<Rightarrow>
         (let b' = setActor a Finished (b\<lparr> readers := readers b - 1 \<rparr>)
          in Some (if readers b' = 0 then Broadcast b' else b'))
     | Finished \<Rightarrow> Some b
     | _ \<Rightarrow> None)"

text \<open>The second loop of \<^verbatim>\<open>BeginUpdate\<close>.\<close>

definition drainLoop :: "nat \<Rightarrow> barrier \<Rightarrow> barrier" where
  "drainLoop a b = (if readers b > 0 then setActor a (OwnerWaits Asleep) b else setActor a Updating b)"

text \<open>Its first loop, at the first test or after a wake-up.\<close>

definition claimLoop :: "nat \<Rightarrow> barrier \<Rightarrow> barrier" where
  "claimLoop a b =
     (if updating b then setActor a (UpdaterWaits Asleep) b else drainLoop a (b\<lparr> updating := True \<rparr>))"

definition BeginUpdate :: "nat \<Rightarrow> barrier \<Rightarrow> barrier option" where
  "BeginUpdate a b = (case actors b a of
       Outside \<Rightarrow> Some (claimLoop a b)
     | UpdaterWaits Awake \<Rightarrow> Some (claimLoop a b)
     | OwnerWaits Awake \<Rightarrow> Some (drainLoop a b)
     | _ \<Rightarrow> None)"

definition EndUpdate :: "nat \<Rightarrow> barrier \<Rightarrow> barrier option" where
  "EndUpdate a b = (case actors b a of
       Updating \<Rightarrow> Some (Broadcast (setActor a Finished (b\<lparr> updating := False \<rparr>)))
     | Finished \<Rightarrow> Some b
     | _ \<Rightarrow> None)"

inductive barrier_step :: "barrier \<Rightarrow> barrier \<Rightarrow> bool" where
  enter: "Barrier_Enter a b = Some b' \<Longrightarrow> barrier_step b b'"
| leave: "Barrier_leave a b = Some b' \<Longrightarrow> barrier_step b b'"
| beginUpdate: "BeginUpdate a b = Some b' \<Longrightarrow> barrier_step b b'"
| endUpdate: "EndUpdate a b = Some b' \<Longrightarrow> barrier_step b b'"

inductive_cases barrier_stepE: "barrier_step b b'"

definition barrier_start :: "barrier \<Rightarrow> bool" where
  "barrier_start b \<longleftrightarrow> readers b = 0 \<and> waiters b = 0 \<and> \<not> updating b \<and> (\<forall>a. actors b a = Outside)"

fun owner :: "epoch_actor \<Rightarrow> bool" where
  "owner (OwnerWaits s) = True"
| "owner Updating = True"
| "owner p = False"

definition readingSet :: "(nat \<Rightarrow> epoch_actor) \<Rightarrow> nat set" where
  "readingSet f = {a. f a = Reading}"

lemma readingSet_mem [simp]: "a \<in> readingSet f \<longleftrightarrow> f a = Reading"
  by (simp add: readingSet_def)

lemma readingSet_upd [simp]: "readingSet (f(a := p)) = (if p = Reading then insert a (readingSet f) else readingSet f - {a})"
  by (auto simp: readingSet_def)

text \<open>The counters and the owner are right; whoever sleeps is waiting for something that will end.\<close>

definition barrier_core :: "barrier \<Rightarrow> bool" where
  "barrier_core b \<longleftrightarrow>
     finite (readingSet (actors b)) \<and> readers b = int (card (readingSet (actors b))) \<and>
     (updating b \<longleftrightarrow> (\<exists>a. owner (actors b a))) \<and>
     (\<forall>a c. owner (actors b a) \<longrightarrow> owner (actors b c) \<longrightarrow> a = c) \<and>
     (\<forall>a. actors b a = Updating \<longrightarrow> readers b = 0)"

definition sleepers_ok :: "barrier \<Rightarrow> bool" where
  "sleepers_ok b \<longleftrightarrow>
     (\<forall>a. actors b a = ReaderWaits Asleep \<or> actors b a = UpdaterWaits Asleep \<longrightarrow> updating b) \<and>
     (\<forall>a. actors b a = OwnerWaits Asleep \<longrightarrow> readers b > 0)"

definition barrier_inv :: "barrier \<Rightarrow> bool" where
  "barrier_inv b \<longleftrightarrow> barrier_core b \<and> sleepers_ok b"

lemma wake_simps [simp]:
  "owner (wake p) = owner p" "wake p = Reading \<longleftrightarrow> p = Reading" "wake p = Updating \<longleftrightarrow> p = Updating"
  "wake p \<noteq> ReaderWaits Asleep" "wake p \<noteq> UpdaterWaits Asleep" "wake p \<noteq> OwnerWaits Asleep"
  by (cases p; simp)+

lemma readingSet_wake [simp]: "readingSet (wake \<circ> f) = readingSet f"
  by (auto simp: readingSet_def)

lemma inv_Broadcast: "barrier_core b \<Longrightarrow> barrier_inv (Broadcast b)"
  by (auto simp: barrier_inv_def barrier_core_def sleepers_ok_def Broadcast_def)

lemma inv_enterLoop:
  assumes inv: "barrier_inv b" and a: "\<not> owner (actors b a)" "actors b a \<noteq> Reading"
  shows "barrier_inv (enterLoop a b)"
proof (cases "updating b")
  case True
  then show ?thesis using inv a
    by (auto simp: enterLoop_def setActor_def barrier_inv_def barrier_core_def sleepers_ok_def)
next
  case False
  have "actors b x \<noteq> Updating" for x
    using inv False by (metis barrier_core_def barrier_inv_def owner.simps(2))
  then show ?thesis using inv a False
    by (auto simp: enterLoop_def setActor_def barrier_inv_def barrier_core_def sleepers_ok_def)
qed

lemma inv_waiters [simp]: "barrier_inv (b\<lparr> waiters := w \<rparr>) = barrier_inv b"
  by (simp add: barrier_inv_def barrier_core_def sleepers_ok_def)

lemma inv_Enter: "barrier_inv b \<Longrightarrow> Barrier_Enter a b = Some b' \<Longrightarrow> barrier_inv b'"
  by (auto simp: Barrier_Enter_def intro!: inv_enterLoop split: epoch_actor.splits wait_state.splits)

lemma inv_leave:
  assumes inv: "barrier_inv b" and l: "Barrier_leave a b = Some b'"
  shows "barrier_inv b'"
proof (cases "actors b a = Reading")
  case True
  let ?b = "setActor a Finished (b\<lparr> readers := readers b - 1 \<rparr>)"
  have fin: "finite (readingSet (actors b))" "a \<in> readingSet (actors b)"
    using inv True by (auto simp: barrier_inv_def barrier_core_def)
  have card: "int (card (readingSet (actors b) - {a})) = int (card (readingSet (actors b))) - 1"
    using fin card_Suc_Diff1 [OF fin] by simp
  have pos: "0 < card (readingSet (actors b))" using fin card_gt_0_iff by blast
  have noupd: "\<forall>x. actors b x \<noteq> Updating" using inv pos by (auto simp: barrier_inv_def barrier_core_def)
  have own: "owner (actors b x) \<Longrightarrow> x \<noteq> a" for x using True by auto
  have core: "barrier_core ?b"
    using inv True fin(1) noupd card own by (auto simp: barrier_inv_def barrier_core_def setActor_def)
  have b': "b' = (if readers ?b = 0 then Broadcast ?b else ?b)"
    using l True by (simp add: Barrier_leave_def Let_def)
  show ?thesis
  proof (cases "readers ?b = 0")
    case True
    then show ?thesis using b' inv_Broadcast [OF core] by simp
  next
    case False
    have nonneg: "0 \<le> readers ?b" using pos inv by (simp add: setActor_def barrier_inv_def barrier_core_def)
    then have "sleepers_ok ?b" using inv False by (auto simp: barrier_inv_def sleepers_ok_def setActor_def)
    then show ?thesis using b' False core by (simp add: barrier_inv_def)
  qed
next
  case False
  then show ?thesis using l inv by (auto simp: Barrier_leave_def split: epoch_actor.splits)
qed

lemma inv_drainLoop:
  assumes "finite (readingSet (actors b))" "readers b = int (card (readingSet (actors b)))"
    "updating b" "actors b a \<noteq> Reading" "\<forall>x. owner (actors b x) \<longrightarrow> x = a" "sleepers_ok b"
  shows "barrier_inv (drainLoop a b)"
proof -
  have "0 \<le> readers b" using assms(2) by simp
  moreover have "x = a" if "actors b x = Updating" for x using assms(5) that by force
  ultimately show ?thesis using assms
    by (auto simp: drainLoop_def setActor_def barrier_inv_def barrier_core_def sleepers_ok_def)
qed

lemma inv_claimLoop:
  assumes inv: "barrier_inv b" and a: "\<not> owner (actors b a)" "actors b a \<noteq> Reading"
  shows "barrier_inv (claimLoop a b)"
proof (cases "updating b")
  case True
  then show ?thesis using inv a
    by (auto simp: claimLoop_def setActor_def barrier_inv_def barrier_core_def sleepers_ok_def)
next
  case False
  then have "barrier_inv (drainLoop a (b\<lparr> updating := True \<rparr>))"
    using inv a by (intro inv_drainLoop) (auto simp: barrier_inv_def barrier_core_def sleepers_ok_def)
  then show ?thesis using False by (simp add: claimLoop_def)
qed

lemma inv_BeginUpdate:
  assumes inv: "barrier_inv b" and l: "BeginUpdate a b = Some b'"
  shows "barrier_inv b'"
proof -
  consider "actors b a = Outside" "b' = claimLoop a b" | "actors b a = UpdaterWaits Awake" "b' = claimLoop a b"
    | "actors b a = OwnerWaits Awake" "b' = drainLoop a b"
    using l by (auto simp: BeginUpdate_def split: epoch_actor.splits wait_state.splits)
  then show ?thesis
  proof cases
    case 3
    then have "owner (actors b a)" by simp
    moreover from this have "updating b" using inv by (auto simp: barrier_inv_def barrier_core_def)
    ultimately show ?thesis unfolding 3(2) using inv 3(1) by (intro inv_drainLoop) (auto simp: barrier_inv_def barrier_core_def)
  qed (use inv in \<open>simp_all add: inv_claimLoop\<close>)
qed

lemma inv_EndUpdate:
  assumes inv: "barrier_inv b" and l: "EndUpdate a b = Some b'"
  shows "barrier_inv b'"
proof (cases "actors b a = Updating")
  case True
  have "owner (actors b a)" using True by simp
  then have nobody: "\<not> owner (((actors b)(a := Finished)) x)" for x
    using inv by (auto simp: barrier_inv_def barrier_core_def)
  have noupd: "((actors b)(a := Finished)) x \<noteq> Updating" for x using nobody [of x] by auto
  have "barrier_core (setActor a Finished (b\<lparr> updating := False \<rparr>))"
    unfolding barrier_core_def setActor_def using inv True nobody noupd
    by (simp add: barrier_inv_def barrier_core_def)
  then show ?thesis using l True inv_Broadcast by (auto simp: EndUpdate_def)
next
  case False
  then show ?thesis using l inv by (auto simp: EndUpdate_def split: epoch_actor.splits)
qed

lemma barrier_step_inv: "barrier_inv b \<Longrightarrow> barrier_step b b' \<Longrightarrow> barrier_inv b'"
  by (auto elim!: barrier_stepE intro: inv_Enter inv_leave inv_BeginUpdate inv_EndUpdate)

text \<open>Somebody is neither outside nor done.\<close>

definition somebodyWaits :: "barrier \<Rightarrow> bool" where
  "somebodyWaits b \<longleftrightarrow> (\<exists>a. actors b a \<notin> {Outside, Finished})"

text \<open>Whoever waits, some actor inside or awake can take a step that changes the state.\<close>

lemma barrier_progress:
  assumes inv: "barrier_inv b" and w: "somebodyWaits b"
  shows "\<exists>b'. barrier_step b b' \<and> b' \<noteq> b"
proof -
  have moves: "\<exists>b'. barrier_step b b' \<and> b' \<noteq> b"
    if act: "actors b a \<in> {Reading, Updating, ReaderWaits Awake, UpdaterWaits Awake, OwnerWaits Awake}" for a
  proof -
    consider "actors b a = Reading" | "actors b a = Updating" | "actors b a = ReaderWaits Awake"
      | "actors b a = UpdaterWaits Awake" | "actors b a = OwnerWaits Awake" using act by blast
    then obtain b' where "barrier_step b b'" "actors b' a \<noteq> actors b a"
    proof cases
      case 1
      show ?thesis by (rule that [OF barrier_step.leave [of a]])
          (auto simp: 1 Barrier_leave_def Let_def setActor_def Broadcast_def split: if_splits)
    next
      case 2
      show ?thesis by (rule that [OF barrier_step.endUpdate [of a]])
          (auto simp: 2 EndUpdate_def setActor_def Broadcast_def)
    next
      case 3
      show ?thesis by (rule that [OF barrier_step.enter [of a]])
          (auto simp: 3 Barrier_Enter_def enterLoop_def setActor_def split: if_splits)
    next
      case 4
      show ?thesis by (rule that [OF barrier_step.beginUpdate [of a]])
          (auto simp: 4 BeginUpdate_def claimLoop_def drainLoop_def setActor_def split: if_splits)
    next
      case 5
      show ?thesis by (rule that [OF barrier_step.beginUpdate [of a]])
          (auto simp: 5 BeginUpdate_def drainLoop_def setActor_def split: if_splits)
    qed
    then show ?thesis by metis
  qed
  have reading: "\<exists>c. actors b c = Reading" if "0 < readers b"
    using inv that by (auto simp: barrier_inv_def barrier_core_def card_gt_0_iff)
  have owned: "\<exists>b'. barrier_step b b' \<and> b' \<noteq> b" if "updating b"
  proof -
    obtain c where "owner (actors b c)" using inv \<open>updating b\<close> by (auto simp: barrier_inv_def barrier_core_def)
    then consider "actors b c = Updating" | "actors b c = OwnerWaits Awake" | "actors b c = OwnerWaits Asleep"
      by (metis owner.elims(2) wait_state.exhaust)
    then show ?thesis
    proof cases
      case 3
      then have "0 < readers b" using inv by (auto simp: barrier_inv_def sleepers_ok_def)
      then obtain c' where "actors b c' = Reading" using reading by blast
      then show ?thesis using moves [of c'] by simp
    qed (use moves [of c] in simp_all)
  qed
  obtain a where a: "actors b a \<notin> {Outside, Finished}" using w by (auto simp: somebodyWaits_def)
  then consider "actors b a \<in> {Reading, Updating, ReaderWaits Awake, UpdaterWaits Awake, OwnerWaits Awake}"
    | "actors b a = ReaderWaits Asleep \<or> actors b a = UpdaterWaits Asleep" | "actors b a = OwnerWaits Asleep"
    by (cases "actors b a") (auto intro: wait_state.exhaust)
  then show ?thesis
  proof cases
    case 1
    then show ?thesis by (rule moves)
  next
    case 2
    then have "updating b" using inv by (auto simp: barrier_inv_def sleepers_ok_def)
    then show ?thesis by (rule owned)
  next
    case 3
    then have "0 < readers b" using inv by (auto simp: barrier_inv_def sleepers_ok_def)
    then obtain c' where "actors b c' = Reading" using reading by blast
    then show ?thesis using moves [of c'] by simp
  qed
qed

interpretation barrier_system: progress_system barrier_start barrier_step barrier_inv somebodyWaits
proof unfold_locales
  show "barrier_start b \<Longrightarrow> barrier_inv b" for b
    by (simp add: barrier_start_def barrier_inv_def barrier_core_def sleepers_ok_def readingSet_def)
qed (fact barrier_step_inv barrier_progress)+

text \<open>
  Property C22: the epoch barrier excludes: in every reachable state, while an update runs no reader of the
  old epoch is left and no other update runs, and the reader count is the number of readers inside.
\<close>

theorem epoch_barrier_excludes:
  assumes "reachable barrier_start barrier_step b" "actors b a = Updating"
  shows "actors b c \<noteq> Reading \<and> (owner (actors b c) \<longrightarrow> c = a) \<and> readers b = 0 \<and> updating b"
proof -
  have inv: "barrier_inv b" using barrier_system.reachable_inv assms(1) by blast
  have own: "owner (actors b a)" using assms(2) by simp
  have "readers b = 0" using inv assms(2) by (auto simp: barrier_inv_def barrier_core_def)
  moreover from this have "readingSet (actors b) = {}" 
    using inv unfolding barrier_inv_def barrier_core_def by (metis card_0_eq of_nat_eq_0_iff)
  moreover from this have "actors b c \<noteq> Reading" by (metis empty_iff readingSet_mem)
  moreover have "updating b" "owner (actors b c) \<longrightarrow> c = a"
    using inv own by (auto simp: barrier_inv_def barrier_core_def)
  ultimately show ?thesis by simp
qed


definition sampleBarrier :: barrier where
  "sampleBarrier = \<lparr> readers = 0, waiters = 0, updating = True, actors = (\<lambda>_. Outside)(7 := Updating) \<rparr>"

lemma sampleBarrier_reachable: "reachable barrier_start barrier_step sampleBarrier"
proof -
  let ?b0 = "\<lparr> readers = 0, waiters = 0, updating = False, actors = \<lambda>_. Outside \<rparr>"
  have "reachable barrier_start barrier_step ?b0" by (rule reachable_start) (simp add: barrier_start_def)
  moreover have "barrier_step ?b0 sampleBarrier"
    by (rule barrier_step.beginUpdate [of 7]) (simp add: BeginUpdate_def claimLoop_def drainLoop_def setActor_def sampleBarrier_def)
  ultimately show ?thesis by (rule reachable_step)
qed

theorem epoch_barrier_excludes_witness: "actors sampleBarrier 3 \<noteq> Reading \<and> readers sampleBarrier = 0"
  using epoch_barrier_excludes [OF sampleBarrier_reachable, of 7 3] by (simp add: sampleBarrier_def)


end
