(* ===== verification/Lease_Defects.thy ===== *)
theory Lease_Defects
  imports Write_Ahead_Recovery
begin

text \<open>
  Two states the adapter reaches and cannot leave: a lease that the validation of the journal refuses
  makes every later change of any unit fail, because the whole journal is written each time.
\<close>

section \<open>Leases that cannot be saved\<close>

lemma unsavable:
  assumes "((i, p), s) \<in> set (leases m)" "onRecord i m"
    and "\<not> validDurableProperty fits (phaseOf m (ui_Name i)) (propertyToDurable p s)"
  shows "exportJournal fits m g = None"
proof (rule ccontr)
  assume "exportJournal fits m g \<noteq> None"
  then obtain j ov where j: "exportJournal fits m g = Some j" "(i, ov) \<in> set (overrides m)" using assms(2) by (auto simp: onRecord_def)
  obtain u where u: "du_Phase u = phaseOf m (ui_Name i)" "validDurableUnit fits u" "propertyToDurable p s \<in> set (du_Properties u)"
    using exported_unit [OF j] assms(1) by metis
  then have "validDurableProperty fits (du_Phase u) (propertyToDurable p s)"
    by (auto simp: validDurableUnit_def Let_def list_all_iff)
  then show False using assms(3) u(1) by simp
qed

lemma persist_refused:
  "exportJournal (bd_devFits bd) m (generation m + 1) = None \<Longrightarrow> persistLeaseState bd m = (Inl (leaseStoreError ''encode''), m)"
  by (simp add: persistLeaseState_def op_defs)


text \<open>The sample lease after its apply never reached systemd: the value is still unset.\<close>

definition sampleMachine :: "property_lease_state \<Rightarrow> machine" where
  "sampleMachine s = newMachine\<lparr> leases := [((sampleIdentity, pl_Property (ls_lease s)), s)],
     overrides := overrides sampleAdapter, phases := phases sampleAdapter \<rparr>"


section \<open>Departed units with a pending reset\<close>

text \<open>Announcing a restore leaves the pending resets and changes nothing but leases and phases.\<close>

lemma stageUnitRestores_pending:
  assumes "(k, s) \<in> set (leases m)"
  shows "\<exists>s'. (k, s') \<in> set (leases (fold (stageUnitRestore \<circ> f) rs m)) \<and> ls_pendingIOWeightResets s' = ls_pendingIOWeightResets s"
  using assms
proof (induction rs arbitrary: m s)
  case (Cons r rs)
  have "\<exists>s'. (k, s') \<in> set (leases (stageUnitRestore (f r) m)) \<and> ls_pendingIOWeightResets s' = ls_pendingIOWeightResets s"
  proof (cases "unitLeaseState m (f r)")
    case (Some x)
    obtain i ov ph where "x = (i, ov, ph)" by (cases x)
    then show ?thesis using Some Cons.prems
      by (intro exI [of _ "if fst k = i then restoredLease (snd k) s else s"])
        (force simp: stageUnitRestore_def mapLeases_def restoredLease_def)
  qed (use Cons.prems in \<open>auto simp: stageUnitRestore_def\<close>)
  then obtain s1 where s1: "(k, s1) \<in> set (leases (stageUnitRestore (f r) m))" "ls_pendingIOWeightResets s1 = ls_pendingIOWeightResets s" by blast
  then show ?case using Cons.IH [OF s1(1)] by simp
qed auto

lemma stageUnitRestores_undone: "restoreLeaseState m (fold (stageUnitRestore \<circ> f) rs m) = m"
proof -
  have one: "recovery (stageUnitRestore u m) = recovery m" "blocked (stageUnitRestore u m) = blocked m" "closed (stageUnitRestore u m) = closed m" for u m
    by (simp_all add: stageUnitRestore_def mapLeases_def split: option.splits)
  have "recovery (fold (stageUnitRestore \<circ> f) rs m) = recovery m" "blocked (fold (stageUnitRestore \<circ> f) rs m) = blocked m"
    "closed (fold (stageUnitRestore \<circ> f) rs m) = closed m"
    by (induction rs arbitrary: m) (simp_all add: one)
  then show ?thesis by (intro machine.equality) (simp_all add: restoreLeaseState_def stageUnitRestores)
qed

text \<open>
  Property C36: a unit that left while an apply with a pending device-weight reset was uncertain can
  never be cleaned up: announcing its restore keeps the reset, which the journal refuses outside an
  apply. The other departed units that have to be announced in the same batch fail with it, and
  nothing is changed, so the next pass fails in the same way.
\<close>

theorem departed_reset_blocks_batch:
  assumes r: "r \<in> set rs" "announcesRestore m r" and unit: "onRecord i m" "ui_Name i = ir_unit r"
    and lease: "((i, p), s) \<in> set (leases m)" "ls_pendingIOWeightResets s \<noteq> []"
  shows "stageInactive bd rs m = (Inr (failWhere (announcesRestore m) (leaseStoreError ''encode'') rs), m)"
proof -
  let ?staged = "filter (announcesRestore m) rs"
  let ?m = "fold (stageUnitRestore \<circ> ir_unit) ?staged m"
  obtain s' where s': "((i, p), s') \<in> set (leases ?m)" "ls_pendingIOWeightResets s' \<noteq> []"
    using stageUnitRestores_pending [OF lease(1), of ir_unit ?staged] lease(2) by metis
  have "phaseOf ?m (ui_Name i) = leasePhaseRestoring" "onRecord i ?m"
  proof -
    have "ir_unit r \<in> ui_Name ` fst ` set (overrides m)" unfolding unit(2) [symmetric] using unit(1) by (simp add: onRecord_def)
    then show "phaseOf ?m (ui_Name i) = leasePhaseRestoring" using r unit(2) by (auto simp: stageUnitRestores)
    show "onRecord i ?m" using unit(1) by (simp add: onRecord_def stageUnitRestores)
  qed
  then have "exportJournal (bd_devFits bd) ?m (generation ?m + 1) = None"
    using s' by (intro unsavable) (auto simp: validDurableProperty_def durable_values lease_phases)
  moreover have "?staged \<noteq> []" using r by (auto simp: filter_empty_conv)
  ultimately show ?thesis
    by (simp add: stageInactive_def stageDurably_run stageUnitRestores_undone op_defs Let_def)
qed

text \<open>A user left while the removal of a device weight was uncertain; another departed unit waits in the same batch.\<close>

definition resetLease :: property_lease_state where
  "resetLease = (newPropertyLeaseState PropertyIODeviceWeight (devicePropertyValue []))
     \<lparr> ls_uncertain := True, ls_pendingIOWeightResets :=
         [\<lparr> rs_path = ''/dev/sda'', rs_device = ''8:0'', rs_mechanism = IODeviceWeightMechanismBFQ, rs_expected = 200 \<rparr>] \<rparr>"

theorem departed_reset_blocks_batch_witness:
  "\<forall>bd r. \<exists>rs. stageInactive bd [(newInactiveRecovery ''user-7.slice'')\<lparr> ir_pending := True, ir_revert := True \<rparr>, r]
     (sampleMachine resetLease) = (Inr rs, sampleMachine resetLease) \<and> ir_err (hd rs) = Some (leaseStoreError ''encode'')"
proof (intro allI)
  fix bd r
  let ?r = "(newInactiveRecovery ''user-7.slice'')\<lparr> ir_pending := True, ir_revert := True \<rparr>"
  have "announcesRestore (sampleMachine resetLease) ?r" "onRecord sampleIdentity (sampleMachine resetLease)" "ui_Name sampleIdentity = ir_unit ?r"
    by (simp_all add: announcesRestore_def newInactiveRecovery_def phaseOf_def sampleMachine_def sampleAdapter_def sampleIdentity_def onRecord_def)
  moreover have "((sampleIdentity, PropertyIODeviceWeight), resetLease) \<in> set (leases (sampleMachine resetLease))"
    "ls_pendingIOWeightResets resetLease \<noteq> []"
    by (simp_all add: sampleMachine_def resetLease_def newPropertyLeaseState_def publicPropertyLease_def Let_def)
  ultimately show "\<exists>rs. stageInactive bd [?r, r] (sampleMachine resetLease) = (Inr rs, sampleMachine resetLease) \<and>
      ir_err (hd rs) = Some (leaseStoreError ''encode'')"
    using departed_reset_blocks_batch [of ?r "[?r, r]"] by (auto simp: failWhere_def inactiveRecovery_failed_def)
qed

end
