(* ===== verification/Spec2Isabelle.thy ===== *)
theory Spec2Isabelle
  imports CpuPoints_FlatPlan CpuPoints_Editor CpuPoints_Capacity IoWeights_Policy Resource_Laws Resource_Plans Kernel_Effect Capability_Probe Hook_Script Hook_Events
    Operation_Gates Lease_Defects
begin

text \<open>
  A verification library for resman, a Linux daemon that divides CPU, memory and disk I/O among the users of a host.

  \<^bold>\<open>The program.\<close> Once per interval the control cycle (\<^verbatim>\<open>src/state/control_cycle.go\<close>) samples the load, lets the decision engine
  (\<^verbatim>\<open>src/state/decision_engine.go\<close>) choose between activating, keeping and releasing limits, and executes the choice: CPU weights and
  a parent quota that the flat planner (\<^verbatim>\<open>src/internal/cpupoints\<close>) computes from a policy map, memory and I/O limits
  (\<^verbatim>\<open>src/state/systemd_resources.go\<close>) and weighted I/O (\<^verbatim>\<open>src/internal/ioweights\<close>). Every change of the host goes through the unit
  adapter (\<^verbatim>\<open>src/internal/systemdunit\<close>), which sets properties of systemd's user slices, holds a lease with the previous value for
  each, announces every change in a journal on disk before it makes it, and gives everything back on release, after a crash too. Users who are
  newly limited are announced to hooks (\<^verbatim>\<open>src/state/limit_hook.go\<close>). An operation gate and a configuration barrier
  (\<^verbatim>\<open>src/internal/operationgate\<close>, \<^verbatim>\<open>src/internal/configepoch\<close>) serialize the operations and separate configurations.

  \<^bold>\<open>How the code is modelled.\<close> Go's structs are records, its enumerations datatypes or the strings they are, fixed-width integers are words,
  \<^verbatim>\<open>float64\<close> is the type \<open>f64\<close> of IEEE binary64 values with its rounding written out, maps are association lists (their order stands for Go's
  unspecified iteration order), errors are the left summand of a sum. An operation of an object is a function of the object's record; one that
  may return early with an error is an \<open>op\<close> of \<open>Result_Monad\<close>, a function from a state to a result and a state, so that what was changed before the
  error stays changed. What is outside the program is an argument: systemd, the kernel's files, the unit files and the journal's disk are the
  record \<open>boundary\<close>, whose answers are functions of the trace of all calls made so far, about which nothing is assumed; so are the file
  system of a guarded read (\<open>read_env\<close>), the process table (\<open>proc_view\<close>), the name service, regular expressions, SHA-256, the clock, the answers to
  signals and the conversion of a float outside the range of \<^verbatim>\<open>uint64\<close>. Concurrent objects are inductive step relations over any number of callers.

  \<^bold>\<open>The theories\<close>, in the order of their dependence:

  \<^item> \<open>Resman_Prelude\<close> (strings, decimal numbers, paths, words, association lists), \<open>Go_Numeric\<close> (floats, times, 64-bit wrap-around), \<open>Result_Monad\<close>
    (operations and triples about them), \<open>Transition_System\<close> (the locales \<open>invariant_system\<close> and \<open>progress_system\<close>, interpreted by every step
    relation), \<open>Safe_File\<close> (guarded reads; the locale \<open>guarded_source\<close> is the contract both policy loaders are shown to fulfil).
  \<^item> \<open>CpuPoints_Types\<close>, \<open>CpuPoints_Policy\<close>, \<open>CpuPoints_File\<close>, \<open>CpuPoints_FlatPlan\<close>, \<open>CpuPoints_Editor\<close>, \<open>CpuPoints_Capacity\<close>: \<^verbatim>\<open>src/internal/cpupoints\<close>, one theory
    per file. The plan exists exactly when it can and guarantees every share; loading and editing the map are exact, the replacement of the file is
    atomic; the lock-free capacity provider publishes only what a read returned, the latest last, and its refresh refines its protocol.
  \<^item> \<open>IoWeights_Policy\<close>: \<^verbatim>\<open>src/internal/ioweights\<close>. The in-place insertion sort of the planner equals the sorted list.
  \<^item> \<open>Enforcement_Mode\<close>, \<open>Decision_Engine\<close>, \<open>Control_Cycle\<close>: \<^verbatim>\<open>src/cgroup/enforcement_mode.go\<close> and the decisions and stages of \<^verbatim>\<open>src/state\<close>.
    Limits are activated and released exactly under the documented conditions, rounding included; no sample does both; observation-only mode
    applies nothing; what is published as applied was applied.
  \<^item> \<open>Operation_Gates\<close>: mutual exclusion of the gate and the barrier, and that no wake-up is lost.
  \<^item> \<open>Unit_Properties\<close>, \<open>Lease_Journal\<close>, \<open>Unit_Reader\<close>, \<open>Unit_Adapter\<close>, \<open>Lease_Recovery\<close>: the adapter. \<open>Write_Ahead\<close>, \<open>Write_Ahead_Restore\<close>, \<open>Write_Ahead_Recovery\<close>: its
    central law, that nothing is changed that the saved journal does not announce, in every history of operations, failures and restarts; the
    journal round-trips. \<open>Lease_Defects\<close>: two states it cannot leave.
  \<^item> \<open>Cpu_Reconcile\<close>, \<open>Cpu_Acknowledgement\<close>: the CPU back end of the manager (\<^verbatim>\<open>src/state/systemd_cpu_points.go\<close>, \<^verbatim>\<open>cpu_points_reload.go\<close>). A plan is acknowledged only when
    every value was read back after the last change. The locales \<open>manager_state\<close> and \<open>unit_adapter\<close> carry what an adapter law gives the manager.
  \<^item> \<open>Kernel_Files\<close>, \<open>Kernel_Effect\<close>: the kernel side of the adapter (\<^verbatim>\<open>kernel.go\<close>, \<^verbatim>\<open>io_device_weight_cleanup.go\<close>), as a model of the boundary's kernel answers.
    Verification accepts exactly the kernel state that systemd's values stand for, what is confirmed is in the control files, and the one raw write of the
    program removes only weights that are owned at that moment.
  \<^item> \<open>IoWeight_Classifier\<close>: the discovery of weighted-I/O devices (\<^verbatim>\<open>io_device_weight_classifier.go\<close>, \<^verbatim>\<open>io_device_weight_devices.go\<close>, \<^verbatim>\<open>block_devices.go\<close>). Devices are
    accepted all or none, each is one direct request queue, and a confirmation returns the very targets that were probed.
  \<^item> \<open>Capability_Probe\<close>: the start (\<^verbatim>\<open>capabilities.go\<close>, \<^verbatim>\<open>realtime_admission.go\<close>). The guard for realtime services decides before anything is touched, trial values are
    taken back, transient units are stopped, and a capability is called missing only when the kernel refused it. The locale \<open>probed_adapter\<close> carries the write-ahead law.
  \<^item> \<open>Resource_Coverage\<close>, \<open>Resource_Reconcile\<close>, \<open>Resource_Laws\<close>, \<open>Resource_Plans\<close>: the process-authority inventory (\<^verbatim>\<open>src/internal/systemdunit/coverage.go\<close>) and the
    memory and I/O back end. The locale \<open>resource_state\<close> extends \<open>manager_state\<close>; its interpretations give the write-ahead law and the record of every applied
    limit for all histories of both back ends. Plans are well-formed requests, and the memory limits are whole pages in their order.
  \<^item> \<open>Hook_Executor\<close>, \<open>Hook_Script\<close>, \<open>Hook_Events\<close>: the limit hooks. No job is lost, the shutdown ends, a script is accepted exactly when nobody but root and
    its user can have changed it, and a successful script left no process behind.

  \<^bold>\<open>Bounds and fuel.\<close> Loops over data are structural recursions or have a measure. Where the source polls until an attempt succeeds or a deadline
  fires, the number of attempts is an argument (\<open>bd_attempts\<close>, \<open>gw_ticks\<close>), so every number is covered. Reconciliations make at most two
  attempts, as in the source. Statements about floats that need exactness are for integers up to 2 to the 53.

  \<^bold>\<open>Not modelled.\<close> Logging and the exporter's counters (a report is visible where it is part of a state). Of the adapter: the encoding of the
  journal file, whose validation after decoding is modelled; the partial results that \<^verbatim>\<open>RestoreProperties\<close> returns beside an error, which no caller
  reads; opening the bus connection. \<open>stageRestore\<close> is given leased properties only, as by its callers. Of the control cycle: the collection
  of metrics, which reads procfs. Of the hooks: the delivery over HTTP. The parsing of the configuration file beyond the values the modelled parts
  read, the weighted-I/O reconciliation, the metrics database (SQL), the MCP server and the Prometheus exporter (third-party protocols), the PSI watcher, the
  bootstrap of the daemon and the build-time contract checker.
\<close>

end
